(* ===== verification/Rs_Prelude.thy ===== *)
theory Rs_Prelude
  imports Main "HOL-Library.Word"
begin

text \<open>
  Shared vocabulary of the development.  Rust's unsigned integers appear in two ways:
  as words (\<open>8 word\<close>, \<open>16 word\<close>, ...) where the code only stores, copies or serialises
  them, and as natural numbers with the width written out (saturation, \<open>mod 2 ^ w\<close>)
  where the code computes with them.  Byte strings (\<open>[u8]\<close>, \<open>Vec<u8>\<close>) are lists
  of 8-bit words.  The theory holds the fixed-width integer encodings
  (\<open>to_be_bytes\<close>, \<open>from_le_bytes\<close>, ...), Rust's checked and saturating operations,
  the interface locale of a codec with its round-trip law, and list lemmas that several
  components use.
\<close>

named_theorems wire_simps \<open>evaluation of encodings: lengths, slices and round trips\<close>

section \<open>Integers\<close>

type_synonym u8 = "8 word"
type_synonym u16 = "16 word"
type_synonym u32 = "32 word"
type_synonym u64 = "64 word"
type_synonym bytes = "8 word list"

abbreviation U16_MAX :: nat where "U16_MAX \<equiv> 65535"
abbreviation U32_MAX :: nat where "U32_MAX \<equiv> 4294967295"
abbreviation U64_MAX :: nat where "U64_MAX \<equiv> 18446744073709551615"

text \<open>\<open>saturating_add\<close>, \<open>saturating_mul\<close> and \<open>checked_add\<close> of a \<open>w\<close>-bit unsigned
  type whose greatest value is \<open>m\<close>.  \<open>saturating_sub\<close> is HOL's truncated
  subtraction on \<open>nat\<close>.\<close>

definition sat_add :: "nat \<Rightarrow> nat \<Rightarrow> nat \<Rightarrow> nat" where
  "sat_add m a b = min m (a + b)"

definition sat_mul :: "nat \<Rightarrow> nat \<Rightarrow> nat \<Rightarrow> nat" where
  "sat_mul m a b = min m (a * b)"

definition checked_add :: "nat \<Rightarrow> nat \<Rightarrow> nat \<Rightarrow> nat option" where
  "checked_add m a b = (if a + b \<le> m then Some (a + b) else None)"

definition div_ceil :: "nat \<Rightarrow> nat \<Rightarrow> nat" where
  "div_ceil a b = (if a mod b = 0 then a div b else a div b + 1)"

lemma sat_add_le [simp]: "sat_add m a b \<le> m"
  by (simp add: sat_add_def)

lemma sat_add_exact: "a + b \<le> m \<Longrightarrow> sat_add m a b = a + b"
  by (simp add: sat_add_def)

lemma sat_mul_exact: "a * b \<le> m \<Longrightarrow> sat_mul m a b = a * b"
  by (simp add: sat_mul_def)

lemma checked_add_Some_iff [simp]: "checked_add m a b = Some c \<longleftrightarrow> a + b \<le> m \<and> c = a + b"
  by (auto simp: checked_add_def)

lemma checked_add_None_iff [simp]: "checked_add m a b = None \<longleftrightarrow> m < a + b"
  by (auto simp: checked_add_def)

lemma div_ceil_lower: "0 < b \<Longrightarrow> a \<le> div_ceil a b * b"
proof -
  assume b: "0 < b"
  have "a div b * b + a mod b = a" and "a mod b < b" using b by simp_all
  then show ?thesis by (simp only: div_ceil_def add_mult_distrib mult_1 split: if_split) linarith
qed

lemma div_ceil_upper: "0 < b \<Longrightarrow> div_ceil a b * b < a + b"
proof -
  assume b: "0 < b"
  have "a div b * b + a mod b = a" and "a mod b < b" using b by simp_all
  then show ?thesis
    using b by (simp only: div_ceil_def add_mult_distrib mult_1 split: if_split) linarith
qed

lemma div_ceil_le_iff: "0 < b \<Longrightarrow> div_ceil a b \<le> n \<longleftrightarrow> a \<le> n * b"
proof
  assume b: "0 < b" and n: "div_ceil a b \<le> n"
  have "a \<le> div_ceil a b * b" by (rule div_ceil_lower [OF b])
  also have "\<dots> \<le> n * b" using n by simp
  finally show "a \<le> n * b" .
next
  assume b: "0 < b" and n: "a \<le> n * b"
  have "div_ceil a b * b < n * b + b" using div_ceil_upper [OF b, of a] n by linarith
  then have "div_ceil a b * b < Suc n * b" by (simp add: algebra_simps)
  then show "div_ceil a b \<le> n" using b by (metis less_Suc_eq_le mult_less_cancel2)
qed

lemma digit_less:
  fixes x y n b :: nat
  assumes "x < n" and "y < b"
  shows "x * b + y < n * b"
proof -
  have "Suc x * b \<le> n * b" using assms(1) by (intro mult_le_mono1) simp
  then show ?thesis using assms(2) by simp
qed

section \<open>Fixed-width integer encodings\<close>

text \<open>Little-endian digits in base 256; \<open>le_of_nat k n\<close> keeps the low \<open>k\<close> bytes.\<close>

fun nat_of_le :: "bytes \<Rightarrow> nat" where
  "nat_of_le [] = 0"
| "nat_of_le (b # bs) = unat b + 256 * nat_of_le bs"

fun le_of_nat :: "nat \<Rightarrow> nat \<Rightarrow> bytes" where
  "le_of_nat 0 n = []"
| "le_of_nat (Suc k) n = word_of_nat n # le_of_nat k (n div 256)"

lemma length_le_of_nat [simp]: "length (le_of_nat k n) = k"
  by (induction k arbitrary: n) auto

lemma unat_u8_of_nat [simp]: "unat (word_of_nat n :: u8) = n mod 256"
  by (simp add: unat_of_nat)

lemma unat_u8_less [simp]: "unat (b :: u8) < 256"
  by (rule order_less_le_trans [OF unsigned_less]) simp

lemma nat_of_le_bound: "nat_of_le bs < 256 ^ length bs"
proof (induction bs)
  case Nil
  then show ?case by simp
next
  case (Cons b bs)
  define P where "P = (256 :: nat) ^ length bs"
  have "nat_of_le bs < P" using Cons by (simp add: P_def)
  moreover have "unat b < 256" by simp
  ultimately have "unat b + 256 * nat_of_le bs < 256 * P" by linarith
  then show ?case by (simp add: P_def)
qed

lemma nat_of_le_of_nat [simp]: "nat_of_le (le_of_nat k n) = n mod 256 ^ k"
proof (induction k arbitrary: n)
  case 0
  then show ?case by simp
next
  case (Suc k)
  have "n mod 256 ^ Suc k = n mod 256 + 256 * (n div 256 mod 256 ^ k)"
    by (simp add: mod_mult2_eq)
  then show ?case by (simp add: Suc)
qed

lemma le_of_nat_of_le: "length bs = k \<Longrightarrow> le_of_nat k (nat_of_le bs) = bs"
proof (induction bs arbitrary: k)
  case Nil
  then show ?case by simp
next
  case (Cons b bs)
  then obtain k' where k: "k = Suc k'" "length bs = k'" by (cases k) auto
  have "(unat b + 256 * nat_of_le bs) div 256 = nat_of_le bs"
    using unat_u8_less [of b] by simp
  moreover have "(word_of_nat (unat b + 256 * nat_of_le bs) :: u8) = b"
    by (simp only: word_unat_eq_iff unat_u8_of_nat) simp
  ultimately show ?case using Cons.IH [OF k(2)] k by simp
qed

text \<open>\<open>to_le_bytes\<close>, \<open>to_be_bytes\<close> and their inverses, for a word type of \<open>k\<close> bytes.\<close>

definition to_le :: "nat \<Rightarrow> 'a::len word \<Rightarrow> bytes" where
  "to_le k w = le_of_nat k (unat w)"

definition from_le :: "bytes \<Rightarrow> 'a::len word" where
  "from_le bs = word_of_nat (nat_of_le bs)"

definition to_be :: "nat \<Rightarrow> 'a::len word \<Rightarrow> bytes" where
  "to_be k w = rev (to_le k w)"

definition from_be :: "bytes \<Rightarrow> 'a::len word" where
  "from_be bs = from_le (rev bs)"

lemma length_to_le [simp]: "length (to_le k w) = k"
  by (simp add: to_le_def)

lemma length_to_be [simp]: "length (to_be k w) = k"
  by (simp add: to_be_def)

lemma from_le_to_le: "LENGTH('a) \<le> 8 * k \<Longrightarrow> from_le (to_le k (w :: 'a::len word)) = w"
proof -
  assume k: "LENGTH('a) \<le> 8 * k"
  have "unat w < 2 ^ LENGTH('a)" by simp
  also have "(2::nat) ^ LENGTH('a) \<le> 2 ^ (8 * k)" using k by simp
  also have "\<dots> = 256 ^ k" by (simp add: power_mult)
  finally show ?thesis by (simp add: from_le_def to_le_def)
qed

lemma from_be_to_be: "LENGTH('a) \<le> 8 * k \<Longrightarrow> from_be (to_be k (w :: 'a::len word)) = w"
  by (simp add: from_be_def to_be_def from_le_to_le)

lemma to_le_from_le:
  "length bs = k \<Longrightarrow> 8 * k \<le> LENGTH('a) \<Longrightarrow> to_le k (from_le bs :: 'a::len word) = bs"
proof -
  assume k: "length bs = k" "8 * k \<le> LENGTH('a)"
  have "nat_of_le bs < 256 ^ k" using nat_of_le_bound [of bs] k(1) by simp
  also have "(256::nat) ^ k = 2 ^ (8 * k)" by (simp add: power_mult)
  also have "(2::nat) ^ (8 * k) \<le> 2 ^ LENGTH('a)" using k(2) by simp
  finally have "unat (word_of_nat (nat_of_le bs) :: 'a word) = nat_of_le bs"
    by (simp add: unat_of_nat)
  then show ?thesis using k(1) by (simp add: to_le_def from_le_def le_of_nat_of_le)
qed

lemma to_be_from_be:
  "length bs = k \<Longrightarrow> 8 * k \<le> LENGTH('a) \<Longrightarrow> to_be k (from_be bs :: 'a::len word) = bs"
  by (simp add: to_be_def from_be_def to_le_from_le)

lemma from_be16 [wire_simps]: "from_be (to_be 2 (w :: u16)) = w"
  by (rule from_be_to_be) simp

lemma from_be32 [wire_simps]: "from_be (to_be 4 (w :: u32)) = w"
  by (rule from_be_to_be) simp

text \<open>The crate's readers (\<open>crate::be16\<close>, \<open>crate::be32\<close>) use the first bytes of a slice.
  Every caller has checked the length, so the out-of-range panic is unreachable.\<close>

definition be16 :: "bytes \<Rightarrow> u16" where
  "be16 bs = from_be (take 2 bs)"

definition be32 :: "bytes \<Rightarrow> u32" where
  "be32 bs = from_be (take 4 bs)"

lemma be16_to_be [simp, wire_simps]: "be16 (to_be 2 w @ rest) = w" "be16 (to_be 2 w) = w"
  by (simp_all add: be16_def from_be16)

lemma be32_to_be [simp, wire_simps]: "be32 (to_be 4 w @ rest) = w" "be32 (to_be 4 w) = w"
  by (simp_all add: be32_def from_be32)

lemma to_be_be16: "2 \<le> length bs \<Longrightarrow> to_be 2 (be16 bs) = take 2 bs"
  by (simp add: be16_def to_be_from_be)

lemma to_be_be32: "4 \<le> length bs \<Longrightarrow> to_be 4 (be32 bs) = take 4 bs"
  by (simp add: be32_def to_be_from_be)

section \<open>Slices\<close>

text \<open>Rust's \<open>&xs[i..j]\<close>.\<close>

definition slice :: "nat \<Rightarrow> nat \<Rightarrow> 'a list \<Rightarrow> 'a list" where
  "slice i j xs = take (j - i) (drop i xs)"

lemma length_slice [simp]: "length (slice i j xs) = min (length xs - i) (j - i)"
  by (simp add: slice_def min.commute)

lemma slice_join: "i \<le> j \<Longrightarrow> j \<le> k \<Longrightarrow> slice i j xs @ slice j k xs = slice i k xs"
proof -
  assume ij: "i \<le> j" and jk: "j \<le> k"
  have "take (k - i) (drop i xs) = take (j - i) (drop i xs) @ take (k - j) (drop (j - i) (drop i xs))"
    using take_add [of "j - i" "k - j" "drop i xs"] ij jk by simp
  then show ?thesis using ij by (simp add: slice_def)
qed

lemma slice_join_assoc:
  "i \<le> j \<Longrightarrow> j \<le> k \<Longrightarrow> slice i j xs @ slice j k xs @ ys = slice i k xs @ ys"
  using slice_join [of i j k xs] by (metis append_assoc)

lemma slice_all: "length xs \<le> k \<Longrightarrow> slice 0 k xs = xs"
  by (simp add: slice_def)

lemma slice_nth: "i < length xs \<Longrightarrow> slice i (Suc i) xs = [xs ! i]"
  by (simp add: slice_def take_Suc_conv_app_nth)

lemma slice_append_exact: "length xs = i \<Longrightarrow> slice i j (xs @ ys) = take (j - i) ys"
  by (simp add: slice_def)

section \<open>Searching\<close>

text \<open>\<open>Iterator::position\<close>.\<close>

definition find_position :: "('a \<Rightarrow> bool) \<Rightarrow> 'a list \<Rightarrow> nat option" where
  "find_position P xs =
    (let n = length (takeWhile (\<lambda>x. \<not> P x) xs) in if n < length xs then Some n else None)"

lemma position_None: "find_position P xs = None \<longleftrightarrow> (\<forall>x \<in> set xs. \<not> P x)"
proof -
  have "length (takeWhile (\<lambda>x. \<not> P x) xs) < length xs \<longleftrightarrow> takeWhile (\<lambda>x. \<not> P x) xs \<noteq> xs"
    by (metis length_takeWhile_le less_le nat_less_le takeWhile_eq_take take_all_iff linorder_not_le)
  then show ?thesis by (simp add: find_position_def Let_def takeWhile_eq_all_conv)
qed

lemma position_append: "\<forall>x \<in> set a. \<not> P x \<Longrightarrow> P x \<Longrightarrow> find_position P (a @ x # b) = Some (length a)"
  by (simp add: find_position_def Let_def takeWhile_append2)

lemma position_Some: "find_position P xs = Some i \<Longrightarrow> \<exists>a x b. xs = a @ x # b \<and> length a = i \<and> P x \<and> (\<forall>y \<in> set a. \<not> P y)"
proof (induction xs arbitrary: i)
  case (Cons y ys)
  show ?case
  proof (cases "P y")
    case True
    then have "i = 0" using Cons.prems by (simp add: find_position_def)
    then show ?thesis using True by (intro exI [of _ "[]"]) auto
  next
    case False
    then obtain j where j: "find_position P ys = Some j" "i = Suc j"
      using Cons.prems by (auto simp: find_position_def Let_def split: if_splits)
    then obtain a x b where "ys = a @ x # b" "length a = j" "P x" "\<forall>z \<in> set a. \<not> P z" using Cons.IH by blast
    then show ?thesis using False j(2) by (intro exI [of _ "y # a"]) auto
  qed
qed (simp add: find_position_def)

lemma position_simps [simp]:
  "find_position P [] = None"
  "find_position P (x # xs) = (if P x then Some 0 else map_option Suc (find_position P xs))"
  by (simp_all add: find_position_def Let_def)

section \<open>The codec interface\<close>

text \<open>
  A wire format: \<open>enc\<close> is total on the well-formed values \<open>wf\<close> and \<open>dec\<close> reads back
  what it wrote.  What clients of a format use follows once from the law.
\<close>

locale wire_codec =
  fixes wf :: "'a \<Rightarrow> bool" and enc :: "'a \<Rightarrow> 'w" and dec :: "'w \<Rightarrow> 'a option"
  assumes dec_enc: "wf x \<Longrightarrow> dec (enc x) = Some x"
begin

lemma enc_inj: "wf x \<Longrightarrow> wf y \<Longrightarrow> enc x = enc y \<Longrightarrow> x = y"
  by (metis dec_enc option.inject)

lemma dec_enc_iff: "wf x \<Longrightarrow> dec (enc x) = Some y \<longleftrightarrow> y = x"
  by (auto simp: dec_enc)

lemma enc_neq: "wf x \<Longrightarrow> wf y \<Longrightarrow> x \<noteq> y \<Longrightarrow> enc x \<noteq> enc y"
  using enc_inj by blast

end

text \<open>A canonical format: moreover every accepted input is the encoding of its value.\<close>

locale canonical_codec = wire_codec +
  assumes dec_wf: "dec bs = Some x \<Longrightarrow> wf x"
    and enc_dec: "dec bs = Some x \<Longrightarrow> enc x = bs"
begin

lemma dec_inj: "dec bs = Some x \<Longrightarrow> dec cs = Some x \<Longrightarrow> bs = cs"
  using enc_dec by metis

lemma dec_Some_iff: "dec bs = Some x \<longleftrightarrow> wf x \<and> bs = enc x"
  using dec_enc dec_wf enc_dec by metis

end

end
