(* ===== verification/Manifest.thy ===== *)
theory Manifest
  imports Rs_Prelude
begin

text \<open>
  The 128-byte \<open>RSOT\<close> firmware manifest (\<open>crates/rsnode-update/src/manifest.rs\<close>):
  its record, encoder and shape-checking decoder.  Fixed-size arrays are byte lists whose
  length the predicate \<open>manifest_wf\<close> states.  The codec is canonical: the decoder accepts
  exactly the encodings of well-formed manifests.
\<close>

definition OTA_MANIFEST_LEN :: nat where "OTA_MANIFEST_LEN = 128"
definition OTA_SIGNED_HEADER_LEN :: nat where "OTA_SIGNED_HEADER_LEN = 64"
definition OTA_SIGNATURE_LEN :: nat where "OTA_SIGNATURE_LEN = 64"

definition MANIFEST_MAGIC :: bytes where "MANIFEST_MAGIC = [0x52, 0x53, 0x4F, 0x54]"
definition MANIFEST_VERSION :: u8 where "MANIFEST_VERSION = 1"

lemmas manifest_consts = OTA_MANIFEST_LEN_def OTA_SIGNED_HEADER_LEN_def OTA_SIGNATURE_LEN_def
  MANIFEST_MAGIC_def MANIFEST_VERSION_def

record board_target =
  bt_platform :: u8
  bt_mcu :: u8
  bt_board :: u8

record firmware_version =
  fv_major :: u16
  fv_minor :: u16
  fv_patch :: u16

datatype manifest_error = InvalidLength | ManifestInvalid

record ota_manifest =
  om_target :: board_target
  om_sequence :: u32
  om_image_len :: u32
  om_firmware_version :: firmware_version
  om_image_sha256 :: bytes
  om_signature :: bytes

definition manifest_wf :: "ota_manifest \<Rightarrow> bool" where
  "manifest_wf m \<longleftrightarrow> length (om_image_sha256 m) = 32 \<and> length (om_signature m) = OTA_SIGNATURE_LEN"

definition signed_header :: "ota_manifest \<Rightarrow> bytes" where
  "signed_header m =
     MANIFEST_MAGIC @ [MANIFEST_VERSION] @
     [bt_platform (om_target m)] @ [bt_mcu (om_target m)] @ [bt_board (om_target m)] @
     to_be 4 (om_sequence m) @ to_be 4 (om_image_len m) @
     to_be 2 (fv_major (om_firmware_version m)) @
     to_be 2 (fv_minor (om_firmware_version m)) @
     to_be 2 (fv_patch (om_firmware_version m)) @
     [0, 0] @ om_image_sha256 m @ replicate 8 0"

definition manifest_encode :: "ota_manifest \<Rightarrow> bytes" where
  "manifest_encode m = signed_header m @ om_signature m"

definition manifest_decode :: "bytes \<Rightarrow> manifest_error + ota_manifest" where
  "manifest_decode bs =
     (if length bs \<noteq> OTA_MANIFEST_LEN then Inl InvalidLength
      else if take 4 bs \<noteq> MANIFEST_MAGIC \<or> bs ! 4 \<noteq> MANIFEST_VERSION then Inl ManifestInvalid
      else if slice 22 24 bs \<noteq> [0, 0] \<or> slice 56 OTA_SIGNED_HEADER_LEN bs \<noteq> replicate 8 0
        then Inl ManifestInvalid
      else Inr
        \<lparr>om_target = \<lparr>bt_platform = bs ! 5, bt_mcu = bs ! 6, bt_board = bs ! 7\<rparr>,
         om_sequence = be32 (drop 8 bs),
         om_image_len = be32 (drop 12 bs),
         om_firmware_version =
           \<lparr>fv_major = be16 (drop 16 bs), fv_minor = be16 (drop 18 bs), fv_patch = be16 (drop 20 bs)\<rparr>,
         om_image_sha256 = slice 24 56 bs,
         om_signature = slice OTA_SIGNED_HEADER_LEN OTA_MANIFEST_LEN bs\<rparr>)"

section \<open>Shape of the encoding\<close>

lemma length_signed_header: "manifest_wf m \<Longrightarrow> length (signed_header m) = OTA_SIGNED_HEADER_LEN"
  by (simp add: signed_header_def manifest_wf_def manifest_consts)

lemma length_manifest_encode: "manifest_wf m \<Longrightarrow> length (manifest_encode m) = OTA_MANIFEST_LEN"
  using length_signed_header [of m]
  by (simp add: manifest_encode_def manifest_wf_def manifest_consts)

text \<open>The parsers only reach a field through \<open>take\<close> and \<open>drop\<close> at constant offsets.\<close>

lemma length_to_be_bytes: "length (to_be 4 (w :: u32)) = 4" "length (to_be 2 (v :: u16)) = 2"
  by simp_all

lemma manifest_decode_encode:
  assumes "manifest_wf m"
  shows "manifest_decode (manifest_encode m) = Inr m"
proof -
  from assms have len: "length (om_image_sha256 m) = 32" "length (om_signature m) = 64"
    by (simp_all add: manifest_wf_def manifest_consts)
  have "length (manifest_encode m) = 128"
    using length_manifest_encode [OF assms] by (simp add: manifest_consts)
  then show ?thesis
    using len
    by (simp add: manifest_decode_def manifest_encode_def signed_header_def manifest_consts
        slice_def nth_append)
qed

lemma manifest_decode_Inr:
  assumes "manifest_decode bs = Inr m"
  shows "manifest_wf m" and "manifest_encode m = bs"
proof -
  from assms have len: "length bs = 128"
    and magic: "slice 0 4 bs = MANIFEST_MAGIC" and ver: "bs ! 4 = MANIFEST_VERSION"
    and zero: "[0, 0] = slice 22 24 bs" "replicate 8 0 = slice 56 64 bs"
    by (auto simp: manifest_decode_def manifest_consts slice_def split: if_splits)
  from assms len magic ver zero have m: "m =
        \<lparr>om_target = \<lparr>bt_platform = bs ! 5, bt_mcu = bs ! 6, bt_board = bs ! 7\<rparr>,
         om_sequence = be32 (drop 8 bs),
         om_image_len = be32 (drop 12 bs),
         om_firmware_version =
           \<lparr>fv_major = be16 (drop 16 bs), fv_minor = be16 (drop 18 bs), fv_patch = be16 (drop 20 bs)\<rparr>,
         om_image_sha256 = slice 24 56 bs,
         om_signature = slice 64 128 bs\<rparr>"
    by (simp add: manifest_decode_def manifest_consts split: if_splits)
  show "manifest_wf m" using len by (simp add: m manifest_wf_def manifest_consts)
  have nths: "[bs ! 4] = slice 4 5 bs" "[bs ! 5] = slice 5 6 bs" "[bs ! 6] = slice 6 7 bs"
    "[bs ! 7] = slice 7 8 bs"
    using len slice_nth [of 4 bs] slice_nth [of 5 bs] slice_nth [of 6 bs] slice_nth [of 7 bs]
    by simp_all
  have words: "to_be 4 (be32 (drop 8 bs)) = slice 8 12 bs" "to_be 4 (be32 (drop 12 bs)) = slice 12 16 bs"
    "to_be 2 (be16 (drop 16 bs)) = slice 16 18 bs" "to_be 2 (be16 (drop 18 bs)) = slice 18 20 bs"
    "to_be 2 (be16 (drop 20 bs)) = slice 20 22 bs"
    using len by (simp_all add: to_be_be32 to_be_be16 slice_def)
  have "manifest_encode m =
      slice 0 4 bs @ slice 4 5 bs @ slice 5 6 bs @ slice 6 7 bs @ slice 7 8 bs @
      slice 8 12 bs @ slice 12 16 bs @ slice 16 18 bs @ slice 18 20 bs @ slice 20 22 bs @
      slice 22 24 bs @ slice 24 56 bs @ slice 56 64 bs @ slice 64 128 bs"
    unfolding manifest_encode_def signed_header_def m
    by (simp only: magic [symmetric] ver [symmetric] nths words zero append_assoc
        ota_manifest.simps board_target.simps firmware_version.simps)
  also have "\<dots> = bs"
    using len by (simp add: slice_join slice_join_assoc slice_all)
  finally show "manifest_encode m = bs" .
qed

definition manifest_parse :: "bytes \<Rightarrow> ota_manifest option" where
  "manifest_parse bs = (case manifest_decode bs of Inl e \<Rightarrow> None | Inr m \<Rightarrow> Some m)"

interpretation manifest: canonical_codec manifest_wf manifest_encode manifest_parse
  by unfold_locales
    (auto simp: manifest_parse_def manifest_decode_encode dest: manifest_decode_Inr split: sum.splits)

section \<open>Properties\<close>

text \<open>C16: the manifest decoder accepts exactly the 128-byte encodings of well-formed
  manifests, so no two byte strings carry the same manifest and no accepted byte string has
  bytes that the manifest does not account for.\<close>

theorem manifest_canonical:
  "manifest_decode bs = Inr m \<longleftrightarrow> manifest_wf m \<and> bs = manifest_encode m"
proof -
  have "manifest_decode bs = Inr m \<longleftrightarrow> manifest_parse bs = Some m"
    by (auto simp: manifest_parse_def split: sum.splits)
  then show ?thesis by (simp only: manifest.dec_Some_iff)
qed

end
