(* ===== verification/Frame.thy ===== *)
theory Frame
  imports Manifest
begin

text \<open>
  Management commands on a Link (\<open>crates/rsnode-update/src/frame.rs\<close>): requests
  \<open>version id command body\<close>, responses \<open>version id result body\<close>, and the offset replies
  of a firmware transfer.  An encoder of the code writes into a caller's buffer; its model
  returns the result together with the buffer after the call, so that "a short output is
  unchanged" is a statement about the model.
\<close>

unbundle bit_operations_syntax

definition LINK_COMMAND_VERSION :: u8 where "LINK_COMMAND_VERSION = 1"
definition COMMAND_HEADER_LEN :: nat where "COMMAND_HEADER_LEN = 6"
definition COMMAND_MAX_LEN :: nat where "COMMAND_MAX_LEN = 431"
definition OTA_CHUNK_DATA_MAX :: nat where
  "OTA_CHUNK_DATA_MAX = COMMAND_MAX_LEN - COMMAND_HEADER_LEN - 5"
definition DELTA_BASE_LEN :: nat where "DELTA_BASE_LEN = 40"
definition OTA_BEGIN_DELTA_LEN :: nat where
  "OTA_BEGIN_DELTA_LEN = OTA_MANIFEST_LEN + DELTA_BASE_LEN"
definition CHUNK_FLAG_ACK :: u8 where "CHUNK_FLAG_ACK = 0x01"
definition CMD_STATUS :: u8 where "CMD_STATUS = 0x01"
definition CMD_OTA_BEGIN :: u8 where "CMD_OTA_BEGIN = 0x08"
definition CMD_OTA_CHUNK :: u8 where "CMD_OTA_CHUNK = 0x09"
definition CMD_OTA_FINISH :: u8 where "CMD_OTA_FINISH = 0x0A"
definition CMD_OTA_ABORT :: u8 where "CMD_OTA_ABORT = 0x0B"

lemmas frame_consts = LINK_COMMAND_VERSION_def COMMAND_HEADER_LEN_def COMMAND_MAX_LEN_def
  OTA_CHUNK_DATA_MAX_def DELTA_BASE_LEN_def OTA_BEGIN_DELTA_LEN_def CHUNK_FLAG_ACK_def
  CMD_STATUS_def CMD_OTA_BEGIN_def CMD_OTA_CHUNK_def CMD_OTA_FINISH_def CMD_OTA_ABORT_def
  OTA_MANIFEST_LEN_def

record delta_base =
  db_base_len :: u32
  db_base_sha256 :: bytes
  db_patch_len :: u32

datatype command =
    Status
  | OtaBegin (cmd_manifest: bytes) (cmd_delta: "delta_base option")
  | OtaChunk (cmd_ack: bool) (cmd_offset: u32) (cmd_data: bytes)
  | OtaFinish
  | OtaAbort

datatype request_error = Malformed | Unsupported u32

datatype encode_error = BufferTooSmall

record request =
  req_id :: u32
  req_command :: command

datatype command_result =
  ROk | RDenied | RInvalid | RFull | RNotFound | RBusy | RUnsupported | RStorage | RRejected
  | RRefused | RUnavailable | RGap

section \<open>Decoding\<close>

definition delta_base_decode :: "bytes \<Rightarrow> delta_base" where
  "delta_base_decode d =
     \<lparr>db_base_len = be32 (take 4 d), db_base_sha256 = slice 4 36 d, db_patch_len = be32 (drop 36 d)\<rparr>"

definition command_decode :: "u8 \<Rightarrow> bytes \<Rightarrow> (request_error + command) option" where
  "command_decode code body =
     (let n = length body in
      if code = CMD_STATUS \<and> n = 0 then Some (Inr Status)
      else if code = CMD_OTA_BEGIN \<and> (n = OTA_MANIFEST_LEN \<or> n = OTA_BEGIN_DELTA_LEN) then
        (let manifest = take OTA_MANIFEST_LEN body; delta = drop OTA_MANIFEST_LEN body in
         Some (Inr (OtaBegin manifest
           (if delta \<noteq> [] then Some (delta_base_decode delta) else None))))
      else if code = CMD_OTA_CHUNK \<and> 6 \<le> n \<and> body ! 0 AND NOT CHUNK_FLAG_ACK = 0 then
        Some (Inr (OtaChunk (body ! 0 AND CHUNK_FLAG_ACK \<noteq> 0) (be32 (slice 1 5 body)) (drop 5 body)))
      else if code = CMD_OTA_FINISH \<and> n = 0 then Some (Inr OtaFinish)
      else if code = CMD_OTA_ABORT \<and> n = 0 then Some (Inr OtaAbort)
      else if code \<in> {CMD_STATUS, CMD_OTA_BEGIN, CMD_OTA_CHUNK, CMD_OTA_FINISH, CMD_OTA_ABORT}
        then Some (Inl Malformed)
      else None)"

definition decode_header :: "bytes \<Rightarrow> request_error + u32 \<times> u8 \<times> bytes" where
  "decode_header bs =
     (if \<not> (COMMAND_HEADER_LEN \<le> length bs \<and> length bs \<le> COMMAND_MAX_LEN)
        \<or> bs ! 0 \<noteq> LINK_COMMAND_VERSION then Inl Malformed
      else
        let rid = be32 (slice 1 5 bs) in
        if rid = 0 then Inl Malformed else Inr (rid, bs ! 5, drop COMMAND_HEADER_LEN bs))"

definition decode_request :: "bytes \<Rightarrow> request_error + request" where
  "decode_request bs =
     (case decode_header bs of
        Inl e \<Rightarrow> Inl e
      | Inr (rid, code, body) \<Rightarrow>
          (case command_decode code body of
             Some (Inr c) \<Rightarrow> Inr \<lparr>req_id = rid, req_command = c\<rparr>
           | Some (Inl e) \<Rightarrow> Inl e
           | None \<Rightarrow> Inl (Unsupported rid)))"

fun command_result_byte :: "command_result \<Rightarrow> u8" where
  "command_result_byte ROk = 0"
| "command_result_byte RDenied = 1"
| "command_result_byte RInvalid = 2"
| "command_result_byte RFull = 3"
| "command_result_byte RNotFound = 4"
| "command_result_byte RBusy = 5"
| "command_result_byte RUnsupported = 6"
| "command_result_byte RStorage = 7"
| "command_result_byte RRejected = 8"
| "command_result_byte RRefused = 9"
| "command_result_byte RUnavailable = 10"
| "command_result_byte RGap = 11"

definition command_result_from_byte :: "u8 \<Rightarrow> command_result option" where
  "command_result_from_byte b =
     (if b = 0 then Some ROk else if b = 1 then Some RDenied else if b = 2 then Some RInvalid
      else if b = 3 then Some RFull else if b = 4 then Some RNotFound else if b = 5 then Some RBusy
      else if b = 6 then Some RUnsupported else if b = 7 then Some RStorage
      else if b = 8 then Some RRejected else if b = 9 then Some RRefused
      else if b = 10 then Some RUnavailable else if b = 11 then Some RGap else None)"

definition decode_response :: "bytes \<Rightarrow> (u32 \<times> command_result \<times> bytes) option" where
  "decode_response bs =
     (if length bs < COMMAND_HEADER_LEN \<or> bs ! 0 \<noteq> LINK_COMMAND_VERSION then None
      else case command_result_from_byte (bs ! 5) of
        None \<Rightarrow> None
      | Some r \<Rightarrow> Some (be32 (slice 1 5 bs), r, drop COMMAND_HEADER_LEN bs))"

definition decode_offset :: "bytes \<Rightarrow> (u32 \<times> u16 option) option" where
  "decode_offset body =
     (if length body = 4 then Some (be32 body, None)
      else if length body = 6 then Some (be32 (take 4 body), Some (be16 (drop 4 body)))
      else None)"

section \<open>Encoding\<close>

fun command_code :: "command \<Rightarrow> u8" where
  "command_code Status = CMD_STATUS"
| "command_code (OtaBegin _ _) = CMD_OTA_BEGIN"
| "command_code (OtaChunk _ _ _) = CMD_OTA_CHUNK"
| "command_code OtaFinish = CMD_OTA_FINISH"
| "command_code OtaAbort = CMD_OTA_ABORT"

fun body_len :: "command \<Rightarrow> encode_error + nat" where
  "body_len Status = Inr 0"
| "body_len OtaFinish = Inr 0"
| "body_len OtaAbort = Inr 0"
| "body_len (OtaBegin _ delta) =
     Inr (if delta \<noteq> None then OTA_BEGIN_DELTA_LEN else OTA_MANIFEST_LEN)"
| "body_len (OtaChunk _ _ data) =
     (if data = [] \<or> length data > OTA_CHUNK_DATA_MAX then Inl BufferTooSmall
      else Inr (5 + length data))"

text \<open>The bytes \<open>encode_body\<close> stores into a body slice of exactly \<open>body_len\<close> bytes.\<close>

fun encode_body :: "command \<Rightarrow> bytes" where
  "encode_body (OtaBegin manifest delta) =
     manifest @ (case delta of None \<Rightarrow> []
       | Some d \<Rightarrow> to_be 4 (db_base_len d) @ db_base_sha256 d @ to_be 4 (db_patch_len d))"
| "encode_body (OtaChunk ack offset data) =
     [if ack then CHUNK_FLAG_ACK else 0] @ to_be 4 offset @ data"
| "encode_body Status = []"
| "encode_body OtaFinish = []"
| "encode_body OtaAbort = []"

definition encode_header :: "u32 \<Rightarrow> u8 \<Rightarrow> bytes \<Rightarrow> (encode_error + nat) \<times> bytes" where
  "encode_header rid code out =
     (if length out < COMMAND_HEADER_LEN then (Inl BufferTooSmall, out)
      else (Inr COMMAND_HEADER_LEN,
        [LINK_COMMAND_VERSION] @ to_be 4 rid @ [code] @ drop COMMAND_HEADER_LEN out))"

definition encode_request :: "request \<Rightarrow> bytes \<Rightarrow> (encode_error + nat) \<times> bytes" where
  "encode_request r out =
     (case body_len (req_command r) of
        Inl e \<Rightarrow> (Inl e, out)
      | Inr n \<Rightarrow>
          (let len = COMMAND_HEADER_LEN + n in
           if length out < len then (Inl BufferTooSmall, out)
           else case encode_header (req_id r) (command_code (req_command r)) (take len out) of
             (Inl e, out') \<Rightarrow> (Inl e, out' @ drop len out)
           | (Inr _, out') \<Rightarrow>
               (Inr len, take COMMAND_HEADER_LEN out' @ encode_body (req_command r) @ drop len out)))"

definition encode_response_header ::
  "u32 \<Rightarrow> command_result \<Rightarrow> bytes \<Rightarrow> (encode_error + nat) \<times> bytes" where
  "encode_response_header rid r out = encode_header rid (command_result_byte r) out"

definition encode_offset :: "u32 \<Rightarrow> u16 option \<Rightarrow> bytes \<Rightarrow> (encode_error + nat) \<times> bytes" where
  "encode_offset next_offset chunk_max out =
     (let len = (if chunk_max \<noteq> None then 6 else 4) in
      if length out < len then (Inl BufferTooSmall, out)
      else (Inr len,
        to_be 4 next_offset @ (case chunk_max of None \<Rightarrow> [] | Some c \<Rightarrow> to_be 2 c) @ drop len out))"

section \<open>Well-formed values\<close>

text \<open>What the Rust types guarantee (array lengths) and what \<open>decode_request\<close> demands of a
  request (a nonzero id, a chunk that carries data and fits).\<close>

fun command_wf :: "command \<Rightarrow> bool" where
  "command_wf (OtaBegin manifest delta) \<longleftrightarrow>
     length manifest = OTA_MANIFEST_LEN \<and>
     (case delta of None \<Rightarrow> True | Some d \<Rightarrow> length (db_base_sha256 d) = 32)"
| "command_wf (OtaChunk _ _ data) \<longleftrightarrow> data \<noteq> [] \<and> length data \<le> OTA_CHUNK_DATA_MAX"
| "command_wf _ \<longleftrightarrow> True"

text \<open>The array lengths alone, which the Rust types guarantee for every value.\<close>

fun command_arrays :: "command \<Rightarrow> bool" where
  "command_arrays (OtaChunk _ _ _) \<longleftrightarrow> True"
| "command_arrays c \<longleftrightarrow> command_wf c"

definition request_wf :: "request \<Rightarrow> bool" where
  "request_wf r \<longleftrightarrow> req_id r \<noteq> 0 \<and> command_wf (req_command r)"

definition request_bytes :: "request \<Rightarrow> bytes" where
  "request_bytes r =
     [LINK_COMMAND_VERSION] @ to_be 4 (req_id r) @ [command_code (req_command r)] @
     encode_body (req_command r)"

lemma body_len_wf: "command_wf c \<Longrightarrow> body_len c = Inr (length (encode_body c))"
  by (cases c) (auto simp: frame_consts split: option.splits)

lemma length_encode_body_le: "command_wf c \<Longrightarrow> length (encode_body c) \<le> COMMAND_MAX_LEN - COMMAND_HEADER_LEN"
  by (cases c) (auto simp: frame_consts split: option.splits)

lemma length_request_bytes: "length (request_bytes r) = COMMAND_HEADER_LEN + length (encode_body (req_command r))"
  by (simp add: request_bytes_def frame_consts)

lemma encode_request_ok:
  assumes "command_wf (req_command r)" and "length (request_bytes r) \<le> length out"
  shows "encode_request r out =
    (Inr (length (request_bytes r)), request_bytes r @ drop (length (request_bytes r)) out)"
  using assms body_len_wf [OF assms(1)]
  by (simp add: encode_request_def encode_header_def request_bytes_def frame_consts Let_def)

lemma encode_request_error_unchanged:
  "encode_request r out = (Inl e, out') \<Longrightarrow> out' = out"
  by (auto simp: encode_request_def encode_header_def Let_def frame_consts
      split: sum.splits if_splits)

section \<open>Round trips\<close>

lemma chunk_flag_byte: "(b :: u8) AND NOT 1 = 0 \<longleftrightarrow> b = 0 \<or> b = 1"
proof
  assume hi: "b AND NOT 1 = 0"
  have "b = (b AND 1) OR (b AND NOT 1)" by (rule bit_word_eqI) (auto simp: bit_simps)
  with hi have "b = b AND 1" by simp
  then show "b = 0 \<or> b = 1"
    by (cases "even b") (metis and_one_eq even_iff_mod_2_eq_zero, metis and_one_eq odd_iff_mod_2_eq_one)
qed auto

lemma command_decode_encode:
  "command_wf c \<Longrightarrow> command_decode (command_code c) (encode_body c) = Some (Inr c)"
  by (cases c)
    (auto simp: command_decode_def delta_base_decode_def Suc_le_eq frame_consts Let_def slice_def nth_append
      split: option.splits)

lemma command_decode_Some:
  assumes "command_decode code body = Some (Inr c)"
    and "length body \<le> COMMAND_MAX_LEN - COMMAND_HEADER_LEN"
  shows "command_wf c \<and> command_code c = code \<and> encode_body c = body"
proof -
  consider (manifest) "code = CMD_OTA_BEGIN"
    | (chunk) "code = CMD_OTA_CHUNK"
    | (plain) "code \<notin> {CMD_OTA_BEGIN, CMD_OTA_CHUNK}" by blast
  then show ?thesis
  proof cases
    case manifest
    show ?thesis
    proof (cases "length body = 128")
      case True
      with assms manifest have "c = OtaBegin body None"
        by (simp add: command_decode_def frame_consts Let_def)
      with manifest True show ?thesis by (simp add: frame_consts)
    next
      case False
      with assms manifest have len: "length body = 168" and
        c: "c = OtaBegin (take 128 body) (Some (delta_base_decode (drop 128 body)))"
        by (auto simp: command_decode_def frame_consts Let_def split: if_splits)
      let ?d = "drop 128 body"
      have "to_be 4 (be32 (take 4 ?d)) @ slice 4 36 ?d @ to_be 4 (be32 (drop 36 ?d)) =
          slice 0 4 ?d @ slice 4 36 ?d @ slice 36 40 ?d"
        using len by (simp add: to_be_be32 slice_def)
      also have "\<dots> = ?d" using len by (simp add: slice_join slice_join_assoc slice_all)
      finally show ?thesis
        using c len manifest by (simp add: delta_base_decode_def frame_consts)
    qed
  next
    case chunk
    with assms have n: "6 \<le> length body" and flag: "body ! 0 AND NOT 1 = 0" and
      c: "c = OtaChunk (body ! 0 AND 1 \<noteq> 0) (be32 (slice 1 5 body)) (drop 5 body)"
      by (auto simp: command_decode_def frame_consts Let_def split: if_splits)
    have f: "(if body ! 0 AND 1 \<noteq> 0 then 1 else 0) = body ! 0"
      using flag [unfolded chunk_flag_byte] by auto
    have "[body ! 0] @ to_be 4 (be32 (slice 1 5 body)) @ drop 5 body =
        slice 0 1 body @ slice 1 5 body @ slice 5 (length body) body"
      using n slice_nth [of 0 body, OF order_less_le_trans [OF _ n]] to_be_be32 [of "slice 1 5 body"] by (simp add: slice_def)
    also have "\<dots> = body" using n by (simp add: slice_join slice_join_assoc slice_all)
    finally show ?thesis
      using c n f chunk assms(2) by (cases "body ! 0 AND 1 = 0") (simp_all add: frame_consts)
  next
    case plain
    with assms show ?thesis
      by (auto simp: command_decode_def frame_consts Let_def split: if_splits)
  qed
qed

lemma decode_request_encode: "request_wf r \<Longrightarrow> decode_request (request_bytes r) = Inr r"
  using length_encode_body_le [of "req_command r"] command_decode_encode [of "req_command r"]
  by (simp add: request_wf_def decode_request_def decode_header_def request_bytes_def frame_consts
      slice_def nth_append Let_def)

lemma decode_header_Inr:
  assumes "decode_header bs = Inr (rid, code, body)"
  shows "rid \<noteq> 0" and "[LINK_COMMAND_VERSION] @ to_be 4 rid @ [code] @ body = bs"
    and "length body \<le> COMMAND_MAX_LEN - COMMAND_HEADER_LEN"
proof -
  from assms have len: "6 \<le> length bs" "length bs \<le> 431" and v: "bs ! 0 = LINK_COMMAND_VERSION"
    and rid: "rid = be32 (slice 1 5 bs)" "rid \<noteq> 0" and code: "code = bs ! 5" and body: "body = drop 6 bs"
    by (auto simp: decode_header_def Let_def frame_consts split: if_splits)
  show "rid \<noteq> 0" by (fact rid(2))
  have "[LINK_COMMAND_VERSION] @ to_be 4 rid @ [code] @ body =
      slice 0 1 bs @ slice 1 5 bs @ slice 5 6 bs @ slice 6 (length bs) bs"
    using len v [symmetric] rid(1) code body slice_nth [of 0 bs, OF order_less_le_trans [OF _ len(1)]] slice_nth [of 5 bs] to_be_be32 [of "slice 1 5 bs"]
    by (simp add: slice_def)
  also have "\<dots> = bs" using len by (simp add: slice_join slice_join_assoc slice_all)
  finally show "[LINK_COMMAND_VERSION] @ to_be 4 rid @ [code] @ body = bs" .
  show "length body \<le> COMMAND_MAX_LEN - COMMAND_HEADER_LEN"
    using body len by (simp add: frame_consts)
qed

lemma decode_request_Inr:
  assumes "decode_request bs = Inr r"
  shows "request_wf r" and "request_bytes r = bs"
proof -
  from assms obtain rid code body c where h: "decode_header bs = Inr (rid, code, body)"
    and c: "command_decode code body = Some (Inr c)" and r: "r = \<lparr>req_id = rid, req_command = c\<rparr>"
    by (auto simp: decode_request_def split: sum.splits option.splits prod.splits)
  have "command_wf c \<and> command_code c = code \<and> encode_body c = body"
    by (rule command_decode_Some [OF c decode_header_Inr(3) [OF h]])
  then show "request_wf r" "request_bytes r = bs"
    using decode_header_Inr(1,2) [OF h] r by (simp_all add: request_wf_def request_bytes_def)
qed

definition request_parse :: "bytes \<Rightarrow> request option" where
  "request_parse bs = (case decode_request bs of Inl e \<Rightarrow> None | Inr r \<Rightarrow> Some r)"

interpretation requests: canonical_codec request_wf request_bytes request_parse
  by unfold_locales
    (auto simp: request_parse_def decode_request_encode dest: decode_request_Inr split: sum.splits)

definition offset_bytes :: "u32 \<times> u16 option \<Rightarrow> bytes" where
  "offset_bytes p = to_be 4 (fst p) @ (case snd p of None \<Rightarrow> [] | Some c \<Rightarrow> to_be 2 c)"

lemma decode_offset_Some:
  assumes "decode_offset bs = Some p"
  shows "offset_bytes p = bs"
proof (cases "length bs = 4")
  case True
  with assms show ?thesis using to_be_be32 [of bs] by (auto simp: decode_offset_def offset_bytes_def)
next
  case False
  with assms have "length bs = 6" and p: "p = (be32 (take 4 bs), Some (be16 (drop 4 bs)))"
    by (auto simp: decode_offset_def split: if_splits)
  then have "to_be 4 (be32 (take 4 bs)) @ to_be 2 (be16 (drop 4 bs)) = take 4 bs @ drop 4 bs"
    using to_be_be32 [of "take 4 bs"] to_be_be16 [of "drop 4 bs"] by simp
  then show ?thesis using p by (simp add: offset_bytes_def)
qed

interpretation offsets: canonical_codec "\<lambda>_. True" offset_bytes decode_offset
proof unfold_locales
  fix p
  show "decode_offset (offset_bytes p) = Some p"
    by (cases p; cases "snd p") (auto simp: decode_offset_def offset_bytes_def)
qed (simp_all add: decode_offset_Some)

lemma result_codec:
  "command_result_from_byte b = Some r \<longleftrightarrow> b = command_result_byte r"
  by (cases r) (auto simp: command_result_from_byte_def split: if_splits)

section \<open>Properties\<close>

text \<open>C17: the management request decoder accepts exactly what the encoder can write for a
  well-formed request (nonzero id, manifest of 128 bytes, chunk data of 1 to 420 bytes), and
  gives that request back: the wire format is unambiguous in both directions.\<close>

theorem request_canonical:
  "decode_request bs = Inr r \<longleftrightarrow>
     request_wf r \<and> (\<exists>out. encode_request r (replicate COMMAND_MAX_LEN 0) = (Inr (length bs), out)
       \<and> take (length bs) out = bs)"
proof -
  have "decode_request bs = Inr r \<longleftrightarrow> request_parse bs = Some r"
    by (auto simp: request_parse_def split: sum.splits)
  also have "\<dots> \<longleftrightarrow> request_wf r \<and> bs = request_bytes r" by (rule requests.dec_Some_iff)
  also have "\<dots> \<longleftrightarrow> request_wf r \<and> (\<exists>out. encode_request r (replicate COMMAND_MAX_LEN 0) =
      (Inr (length bs), out) \<and> take (length bs) out = bs)"
  proof (cases "request_wf r")
    case True
    then have "length (request_bytes r) \<le> COMMAND_MAX_LEN"
      using length_encode_body_le [of "req_command r"] length_request_bytes [of r]
      by (simp add: request_wf_def frame_consts)
    then show ?thesis
      using True encode_request_ok [of r "replicate COMMAND_MAX_LEN 0"]
      by (auto simp: request_wf_def)
  qed simp
  finally show ?thesis .
qed

text \<open>Encoding a request never writes outside what it reports: on success the output is
  the request's bytes followed by the untouched rest of the caller's buffer, and on failure (an
  empty or oversized chunk, or a buffer that is too short) the buffer is unchanged.\<close>

theorem encode_request_buffer:
  assumes "command_arrays (req_command r)"
  shows "encode_request r out =
    (if command_wf (req_command r) \<and> length (request_bytes r) \<le> length out
     then (Inr (length (request_bytes r)), request_bytes r @ drop (length (request_bytes r)) out)
     else (Inl BufferTooSmall, out))"
proof (cases "command_wf (req_command r)")
  case True
  then have "body_len (req_command r) = Inr (length (encode_body (req_command r)))"
    by (rule body_len_wf)
  with True show ?thesis
    using encode_request_ok [OF True, of out] length_request_bytes [of r]
    by (auto simp: encode_request_def Let_def)
next
  case False
  with assms show ?thesis by (cases "req_command r") (auto simp: encode_request_def)
qed

theorem encode_request_buffer_witness:
  "encode_request \<lparr>req_id = 1, req_command = OtaChunk True 4096 []\<rparr> [7, 7] = (Inl BufferTooSmall, [7, 7])"
  using encode_request_buffer [of "\<lparr>req_id = 1, req_command = OtaChunk True 4096 []\<rparr>" "[7, 7]"]
  by simp

end
