(* ===== verification/Upload.thy ===== *)
theory Upload
  imports Frame
begin

text \<open>
  The upload window and the airtime pacer of \<open>crates/rsnode-update/src/upload.rs\<close>.
  \<open>Uploader\<close> and \<open>Pacer\<close> are records passed and returned by their methods.  Their unsigned
  fields are natural numbers: the source's saturating operations are written with
  \<open>sat_add\<close>/\<open>sat_mul\<close>, and its plain additions and subtractions are shown to stay inside
  their types by the invariants \<open>uploader_ok\<close> and \<open>pacer_ok\<close>.
\<close>

section \<open>The uploader\<close>

definition UPLOAD_RETRIES_MAX :: nat where "UPLOAD_RETRIES_MAX = 8"

record upload_config =
  uc_total :: nat
  uc_chunk_max :: nat
  uc_window :: nat
  uc_ack_timeout_ms :: nat

record chunk =
  ck_offset :: nat
  ck_len :: nat
  ck_ack :: bool

datatype upload_state = Sending | Complete | Stalled

record uploader =
  up_config :: upload_config
  up_acked :: nat
  up_next :: nat
  up_since_ack :: nat
  up_ack_deadline_ms :: "nat option"
  up_retries :: nat

definition clamp :: "nat \<Rightarrow> nat \<Rightarrow> nat \<Rightarrow> nat" where
  "clamp lo hi x = (if x < lo then lo else if hi < x then hi else x)"

definition uploader_new :: "upload_config \<Rightarrow> nat \<Rightarrow> uploader" where
  "uploader_new config from =
    \<lparr>up_config = config\<lparr>uc_chunk_max := clamp 1 OTA_CHUNK_DATA_MAX (uc_chunk_max config),
                        uc_window := max (uc_window config) 1\<rparr>,
     up_acked = min from (uc_total config),
     up_next = min from (uc_total config),
     up_since_ack = 0,
     up_ack_deadline_ms = None,
     up_retries = 0\<rparr>"

definition uploader_state :: "uploader \<Rightarrow> upload_state" where
  "uploader_state u =
    (if uc_total (up_config u) \<le> up_acked u then Complete
     else if UPLOAD_RETRIES_MAX < up_retries u then Stalled
     else Sending)"

definition uploader_wake_at :: "uploader \<Rightarrow> nat option" where
  "uploader_wake_at u = up_ack_deadline_ms u"

definition uploader_expire :: "uploader \<Rightarrow> nat \<Rightarrow> uploader" where
  "uploader_expire u now_ms =
    (if (case up_ack_deadline_ms u of None \<Rightarrow> False | Some deadline \<Rightarrow> deadline \<le> now_ms)
     then u\<lparr>up_ack_deadline_ms := None, up_next := up_acked u, up_since_ack := 0,
            up_retries := up_retries u + 1\<rparr>
     else u)"

abbreviation window_bytes :: "uploader \<Rightarrow> nat" where
  "window_bytes u \<equiv> uc_window (up_config u) * uc_chunk_max (up_config u)"

text \<open>The part of \<open>next_with_ack\<close> after \<open>expire\<close> and its two early returns.\<close>

definition uploader_send :: "uploader \<Rightarrow> nat \<Rightarrow> bool \<Rightarrow> chunk \<times> uploader" where
  "uploader_send u now_ms force_ack =
    (let config = up_config u;
         len = min (uc_total config - up_next u) (uc_chunk_max config);
         offset = up_next u;
         next' = up_next u + len;
         since = up_since_ack u + 1;
         ack = (force_ack \<or> div_ceil (uc_window config) 2 \<le> since \<or> next' = uc_total config
                \<or> window_bytes u \<le> next' - up_acked u);
         u' = u\<lparr>up_next := next', up_since_ack := since\<rparr>
     in (\<lparr>ck_offset = offset, ck_len = len, ck_ack = ack\<rparr>,
         if ack
         then u'\<lparr>up_since_ack := 0,
                 up_ack_deadline_ms := Some (sat_add U64_MAX now_ms (uc_ack_timeout_ms config))\<rparr>
         else u'))"

definition uploader_next_with_ack :: "uploader \<Rightarrow> nat \<Rightarrow> bool \<Rightarrow> chunk option \<times> uploader" where
  "uploader_next_with_ack u0 now_ms force_ack =
    (let u = uploader_expire u0 now_ms in
     if uploader_state u \<noteq> Sending \<or> uc_total (up_config u) \<le> up_next u then (None, u)
     else if window_bytes u \<le> up_next u - up_acked u then (None, u)
     else (case uploader_send u now_ms force_ack of (c, u') \<Rightarrow> (Some c, u')))"

definition uploader_next :: "uploader \<Rightarrow> nat \<Rightarrow> chunk option \<times> uploader" where
  "uploader_next u now_ms = uploader_next_with_ack u now_ms False"

definition uploader_on_ack :: "uploader \<Rightarrow> nat \<Rightarrow> nat \<Rightarrow> uploader" where
  "uploader_on_ack u next_offset now_ms =
    (let next_offset = min next_offset (uc_total (up_config u));
         u1 = (if up_acked u < next_offset then u\<lparr>up_acked := next_offset, up_retries := 0\<rparr> else u);
         u2 = u1\<lparr>up_next := max (up_next u1) (up_acked u1)\<rparr>
     in u2\<lparr>up_ack_deadline_ms :=
             (if up_acked u2 < up_next u2
              then Some (case up_ack_deadline_ms u2 of
                           Some deadline \<Rightarrow> deadline
                         | None \<Rightarrow> sat_add U64_MAX now_ms (uc_ack_timeout_ms (up_config u2)))
              else None)\<rparr>)"

definition uploader_on_gap :: "uploader \<Rightarrow> nat \<Rightarrow> nat \<Rightarrow> uploader" where
  "uploader_on_gap u0 next_offset now_ms =
    (let u = uploader_on_ack u0 next_offset now_ms;
         next_offset = max (min next_offset (uc_total (up_config u))) (up_acked u)
     in if next_offset < up_next u
        then u\<lparr>up_next := next_offset, up_since_ack := 0, up_ack_deadline_ms := None\<rparr>
        else u)"

subsection \<open>Every state an uploader can reach\<close>

text \<open>The caller's calls as events, and the states they lead to, whatever the clock says.
  Reports are the u32 offsets of a reply.\<close>

inductive uploader_reachable :: "upload_config \<Rightarrow> nat \<Rightarrow> uploader \<Rightarrow> bool"
  for config :: upload_config and start :: nat where
  new: "uploader_reachable config start (uploader_new config start)"
| poll: "uploader_reachable config start u \<Longrightarrow>
    uploader_reachable config start (snd (uploader_next_with_ack u now_ms force_ack))"
| ack: "uploader_reachable config start u \<Longrightarrow>
    uploader_reachable config start (uploader_on_ack u next_offset now_ms)"
| gap: "uploader_reachable config start u \<Longrightarrow>
    uploader_reachable config start (uploader_on_gap u next_offset now_ms)"

definition config_ok :: "upload_config \<Rightarrow> bool" where
  "config_ok c \<longleftrightarrow> uc_total c \<le> U32_MAX \<and> 1 \<le> uc_chunk_max c \<and> uc_chunk_max c \<le> OTA_CHUNK_DATA_MAX
     \<and> 1 \<le> uc_window c \<and> uc_window c \<le> U16_MAX"

text \<open>The invariant.  Its third line bounds the bytes in flight, the fourth the counters,
  and the last two say that a deadline is armed exactly when waiting needs one: whenever the
  window is full, or everything is sent and not yet acknowledged.\<close>

definition uploader_ok :: "uploader \<Rightarrow> bool" where
  "uploader_ok u \<longleftrightarrow>
     config_ok (up_config u)
   \<and> up_acked u \<le> up_next u \<and> up_next u \<le> uc_total (up_config u)
   \<and> up_next u < up_acked u + window_bytes u + uc_chunk_max (up_config u)
   \<and> up_since_ack u < div_ceil (uc_window (up_config u)) 2
   \<and> up_retries u \<le> UPLOAD_RETRIES_MAX + 1
   \<and> (UPLOAD_RETRIES_MAX < up_retries u \<longrightarrow> up_next u = up_acked u)
   \<and> (up_ack_deadline_ms u \<noteq> None \<longrightarrow> up_acked u < up_next u)
   \<and> (up_acked u < up_next u \<and> (window_bytes u \<le> up_next u - up_acked u \<or> up_next u = uc_total (up_config u))
        \<longrightarrow> up_ack_deadline_ms u \<noteq> None)"

lemma div_ceil_2_pos: "1 \<le> w \<Longrightarrow> 0 < div_ceil w 2"
  by (cases "w = 1") (auto simp: div_ceil_def)

lemma uploader_ok_window:
  assumes "uploader_ok u"
  shows "0 < window_bytes u" and "window_bytes u \<le> U32_MAX"
proof -
  from assms have c: "config_ok (up_config u)" by (simp add: uploader_ok_def)
  then show "0 < window_bytes u" by (auto simp: config_ok_def)
  have "window_bytes u \<le> 65535 * 420"
    by (rule mult_le_mono) (use c in \<open>simp_all add: config_ok_def frame_consts\<close>)
  then show "window_bytes u \<le> U32_MAX" by simp
qed

lemma uploader_new_ok:
  "uc_total c \<le> U32_MAX \<Longrightarrow> uc_window c \<le> U16_MAX \<Longrightarrow> uploader_ok (uploader_new c start)"
  using div_ceil_2_pos [of "max (uc_window c) 1"]
  by (auto simp: uploader_ok_def uploader_new_def config_ok_def clamp_def frame_consts)

lemma uploader_expire_ok: "uploader_ok u \<Longrightarrow> uploader_ok (uploader_expire u now_ms)"
  using div_ceil_2_pos [of "uc_window (up_config u)"] uploader_ok_window [of u]
  by (auto simp: uploader_ok_def uploader_expire_def config_ok_def UPLOAD_RETRIES_MAX_def
      split: option.splits)

lemma uploader_send_frame [simp]:
  "up_config (snd (uploader_send u now_ms f)) = up_config u"
  "up_acked (snd (uploader_send u now_ms f)) = up_acked u"
  "up_retries (snd (uploader_send u now_ms f)) = up_retries u"
  "up_next (snd (uploader_send u now_ms f)) =
     up_next u + min (uc_total (up_config u) - up_next u) (uc_chunk_max (up_config u))"
  "ck_offset (fst (uploader_send u now_ms f)) = up_next u"
  "ck_len (fst (uploader_send u now_ms f)) = min (uc_total (up_config u) - up_next u) (uc_chunk_max (up_config u))"
  by (simp_all add: uploader_send_def Let_def)

lemma uploader_send_since_ack:
  "0 < div_ceil (uc_window (up_config u)) 2 \<Longrightarrow>
   up_since_ack (snd (uploader_send u now_ms f)) < div_ceil (uc_window (up_config u)) 2"
  by (simp add: uploader_send_def Let_def)

lemma uploader_send_deadline:
  "window_bytes u \<le> up_next (snd (uploader_send u now_ms f)) - up_acked u
     \<or> up_next (snd (uploader_send u now_ms f)) = uc_total (up_config u) \<Longrightarrow>
   up_ack_deadline_ms (snd (uploader_send u now_ms f)) \<noteq> None"
  by (auto simp: uploader_send_def Let_def)

lemma uploader_send_ok:
  assumes ok: "uploader_ok u" and s: "uploader_state u = Sending"
    and more: "up_next u < uc_total (up_config u)"
    and room: "up_next u - up_acked u < window_bytes u"
  shows "uploader_ok (snd (uploader_send u now_ms f))"
proof -
  let ?v = "snd (uploader_send u now_ms f)" and ?c = "uc_chunk_max (up_config u)"
  let ?len = "min (uc_total (up_config u) - up_next u) ?c"
  from ok have config: "config_ok (up_config u)" and le: "up_acked u \<le> up_next u"
    by (simp_all add: uploader_ok_def)
  have retries: "up_retries u \<le> UPLOAD_RETRIES_MAX"
    using s by (simp add: uploader_state_def split: if_splits)
  have len: "0 < ?len" "up_next u + ?len \<le> uc_total (up_config u)" "?len \<le> ?c"
    using config more by (auto simp: config_ok_def)
  have half: "0 < div_ceil (uc_window (up_config u)) 2"
    using config by (intro div_ceil_2_pos) (simp add: config_ok_def)
  have next': "up_next ?v = up_next u + ?len" by simp
  have order: "up_acked u < up_next ?v" "up_next ?v \<le> uc_total (up_config u)"
    "up_next ?v < up_acked u + window_bytes u + ?c"
    unfolding next' using len le room by linarith+
  show ?thesis
    unfolding uploader_ok_def uploader_send_frame(1-3)
    using config order retries uploader_send_since_ack [OF half, of now_ms f]
      uploader_send_deadline [of u now_ms f]
    by (intro conjI impI) (simp_all del: uploader_send_frame(4))
qed

lemma uploader_next_ok: "uploader_ok u \<Longrightarrow> uploader_ok (snd (uploader_next_with_ack u now_ms f))"
  using uploader_expire_ok [of u now_ms] uploader_send_ok [of "uploader_expire u now_ms" now_ms f]
  by (auto simp: uploader_next_with_ack_def Let_def split: prod.splits)

lemma uploader_on_ack_ok: "uploader_ok u \<Longrightarrow> uploader_ok (uploader_on_ack u n now_ms)"
  by (auto simp: uploader_ok_def uploader_on_ack_def Let_def UPLOAD_RETRIES_MAX_def max_def min_def
      split: option.splits if_splits)

lemma uploader_on_ack_covers:
  "uploader_ok u \<Longrightarrow> min n (uc_total (up_config u)) \<le> up_acked (uploader_on_ack u n now_ms)"
  by (auto simp: uploader_on_ack_def Let_def)

lemma uploader_on_ack_config [simp]: "up_config (uploader_on_ack u n now_ms) = up_config u"
  by (simp add: uploader_on_ack_def Let_def)

lemma uploader_rewind_ok:
  assumes "uploader_ok u"
  shows "uploader_ok (u\<lparr>up_next := up_acked u, up_since_ack := 0, up_ack_deadline_ms := None\<rparr>)"
proof -
  have "0 < div_ceil (uc_window (up_config u)) 2" "0 < uc_chunk_max (up_config u)"
    using assms by (simp_all add: uploader_ok_def config_ok_def div_ceil_2_pos)
  with assms show ?thesis
    unfolding uploader_ok_def by (intro conjI impI) simp_all
qed

lemma uploader_on_gap_ok:
  assumes "uploader_ok u"
  shows "uploader_ok (uploader_on_gap u n now_ms)"
proof -
  let ?v = "uploader_on_ack u n now_ms"
  have ok: "uploader_ok ?v" by (rule uploader_on_ack_ok [OF assms])
  have "max (min n (uc_total (up_config ?v))) (up_acked ?v) = up_acked ?v"
    using uploader_on_ack_covers [OF assms, of n now_ms] by simp
  then show ?thesis
    using ok uploader_rewind_ok [OF ok] by (simp add: uploader_on_gap_def Let_def)
qed

lemma uploader_reachable_ok:
  assumes "uploader_reachable config start u"
    and "uc_total config \<le> U32_MAX" and "uc_window config \<le> U16_MAX"
  shows "uploader_ok u"
  using assms
  by (induction rule: uploader_reachable.induct)
    (simp_all add: uploader_new_ok uploader_next_ok uploader_on_ack_ok uploader_on_gap_ok)

subsection \<open>What a poll returns\<close>

lemma uploader_expire_config [simp]: "up_config (uploader_expire u now_ms) = up_config u"
  by (simp add: uploader_expire_def split: option.splits)

lemma uploader_expire_acked [simp]: "up_acked (uploader_expire u now_ms) = up_acked u"
  by (simp add: uploader_expire_def split: option.splits)

lemma uploader_next_cases:
  obtains
    (closed) "uploader_state (uploader_expire u now_ms) \<noteq> Sending"
      "uploader_next_with_ack u now_ms f = (None, uploader_expire u now_ms)"
  | (finished) "uploader_state (uploader_expire u now_ms) = Sending"
      "uc_total (up_config u) \<le> up_next (uploader_expire u now_ms)"
      "uploader_next_with_ack u now_ms f = (None, uploader_expire u now_ms)"
  | (full) "uploader_state (uploader_expire u now_ms) = Sending"
      "window_bytes u \<le> up_next (uploader_expire u now_ms) - up_acked u"
      "uploader_next_with_ack u now_ms f = (None, uploader_expire u now_ms)"
  | (send) "uploader_state (uploader_expire u now_ms) = Sending"
      "up_next (uploader_expire u now_ms) < uc_total (up_config u)"
      "up_next (uploader_expire u now_ms) - up_acked u < window_bytes u"
      "uploader_next_with_ack u now_ms f =
         (Some (fst (uploader_send (uploader_expire u now_ms) now_ms f)),
          snd (uploader_send (uploader_expire u now_ms) now_ms f))"
  by (cases "uploader_state (uploader_expire u now_ms) = Sending";
      cases "uc_total (up_config u) \<le> up_next (uploader_expire u now_ms)";
      cases "window_bytes u \<le> up_next (uploader_expire u now_ms) - up_acked u")
    (auto simp: uploader_next_with_ack_def Let_def split_beta)

text \<open>The number of full chunks the window still admits, and from it a bound on the chunks
  that polling can produce when no report ever arrives.\<close>

definition uploader_room :: "uploader \<Rightarrow> nat" where
  "uploader_room u =
    (if up_next u = uc_total (up_config u) then 0
     else div_ceil (window_bytes u - (up_next u - up_acked u)) (uc_chunk_max (up_config u)))"

definition uploader_credit :: "uploader \<Rightarrow> nat" where
  "uploader_credit u =
    (if UPLOAD_RETRIES_MAX < up_retries u then 0
     else (UPLOAD_RETRIES_MAX - up_retries u) * uc_window (up_config u) + uploader_room u)"

lemma div_ceil_exact [simp]: "0 < b \<Longrightarrow> div_ceil (a * b) b = a"
  by (simp add: div_ceil_def)

lemma div_ceil_0 [simp]: "div_ceil 0 b = 0"
  by (simp add: div_ceil_def)

lemma div_ceil_pos: "0 < b \<Longrightarrow> 0 < a \<Longrightarrow> 0 < div_ceil a b"
  using div_ceil_lower [of b a] by (cases "div_ceil a b") auto

lemma div_ceil_step: "0 < b \<Longrightarrow> 0 < a \<Longrightarrow> Suc (div_ceil (a - b) b) \<le> div_ceil a b"
proof -
  assume b: "0 < b" and a: "0 < a"
  obtain k where k: "div_ceil a b = Suc k" using div_ceil_pos [OF b a] by (cases "div_ceil a b") auto
  have "a \<le> Suc k * b" using div_ceil_lower [OF b, of a] k by simp
  then have "a - b \<le> k * b" by (simp add: le_diff_conv)
  then show ?thesis using k by (simp add: div_ceil_le_iff [OF b])
qed

lemma uploader_room_le: "uploader_ok u \<Longrightarrow> uploader_room u \<le> uc_window (up_config u)"
proof -
  assume "uploader_ok u"
  then have "0 < uc_chunk_max (up_config u)" by (simp add: uploader_ok_def config_ok_def)
  then show ?thesis by (simp add: uploader_room_def div_ceil_le_iff)
qed

lemma uploader_credit_expire:
  assumes "uploader_ok u"
  shows "uploader_credit (uploader_expire u now_ms) \<le> uploader_credit u"
proof (cases "uploader_expire u now_ms = u")
  case False
  let ?u = "uploader_expire u now_ms"
  from False have r: "up_retries ?u = up_retries u + 1"
    by (auto simp: uploader_expire_def split: option.splits if_splits)
  have "uploader_room ?u \<le> uc_window (up_config u)"
    using uploader_room_le [OF uploader_expire_ok [OF assms, of now_ms]] by simp
  then have "UPLOAD_RETRIES_MAX \<ge> up_retries u + 1 \<Longrightarrow>
      (UPLOAD_RETRIES_MAX - (up_retries u + 1)) * uc_window (up_config u) + uploader_room ?u
      \<le> (UPLOAD_RETRIES_MAX - up_retries u) * uc_window (up_config u)"
    by (subst Suc_diff_Suc [symmetric]) auto
  then show ?thesis using r by (auto simp: uploader_credit_def)
qed simp

lemma uploader_credit_send:
  assumes ok: "uploader_ok u" and s: "uploader_state u = Sending"
    and more: "up_next u < uc_total (up_config u)"
    and room: "up_next u - up_acked u < window_bytes u"
  shows "uploader_credit (snd (uploader_send u now_ms f)) < uploader_credit u"
proof -
  let ?c = "uc_chunk_max (up_config u)" and ?free = "window_bytes u - (up_next u - up_acked u)"
  have c: "0 < ?c" and r: "up_retries u \<le> UPLOAD_RETRIES_MAX" and le: "up_acked u \<le> up_next u"
    using ok s by (auto simp: uploader_ok_def config_ok_def uploader_state_def split: if_splits)
  have "uploader_room (snd (uploader_send u now_ms f)) < uploader_room u"
  proof (cases "uc_total (up_config u) - up_next u \<le> ?c")
    case True
    then show ?thesis using more room c div_ceil_pos [of ?c ?free] by (simp add: uploader_room_def)
  next
    case False
    have "window_bytes u - (up_next u + ?c - up_acked u) = ?free - ?c" using le by simp
    then show ?thesis using False more room c div_ceil_step [of ?c ?free] by (simp add: uploader_room_def)
  qed
  then show ?thesis using r by (simp add: uploader_credit_def)
qed

text \<open>Polling a silent Link: one call of \<open>next_with_ack\<close> per element, and the chunks it gave.\<close>

fun uploader_polls :: "uploader \<Rightarrow> (nat \<times> bool) list \<Rightarrow> chunk list \<times> uploader" where
  "uploader_polls u [] = ([], u)"
| "uploader_polls u ((now_ms, f) # ps) =
    (case uploader_next_with_ack u now_ms f of
       (c, u') \<Rightarrow> (case uploader_polls u' ps of (cs, u'') \<Rightarrow>
         ((case c of None \<Rightarrow> cs | Some c \<Rightarrow> c # cs), u'')))"

lemma uploader_polls_credit:
  "uploader_ok u \<Longrightarrow> uploader_polls u ps = (cs, u') \<Longrightarrow> length cs + uploader_credit u' \<le> uploader_credit u"
proof (induction ps arbitrary: u cs)
  case Nil
  then show ?case by simp
next
  case (Cons p ps)
  obtain now_ms f where p: "p = (now_ms, f)" by (cases p)
  obtain c v where n: "uploader_next_with_ack u now_ms f = (c, v)" by (cases "uploader_next_with_ack u now_ms f")
  obtain cs' where rest: "uploader_polls v ps = (cs', u')" and
    cs: "cs = (case c of None \<Rightarrow> cs' | Some c \<Rightarrow> c # cs')"
    using Cons.prems(2) by (auto simp: p n split: prod.splits)
  let ?e = "uploader_expire u now_ms"
  have v: "uploader_ok v" using uploader_next_ok [OF Cons.prems(1), of now_ms f] n by simp
  have "length (case c of None \<Rightarrow> [] | Some c \<Rightarrow> [c]) + uploader_credit v \<le> uploader_credit ?e"
  proof (cases rule: uploader_next_cases [where u = u and now_ms = now_ms and f = f])
    case send
    then show ?thesis
      using n uploader_credit_send [OF uploader_expire_ok [OF Cons.prems(1)], of now_ms now_ms f] by auto
  qed (use n in simp_all)
  moreover have "length cs = length (case c of None \<Rightarrow> [] | Some c \<Rightarrow> [c]) + length cs'"
    using cs by (cases c) auto
  ultimately show ?case
    using Cons.IH [OF v rest] uploader_credit_expire [OF Cons.prems(1), of now_ms] by linarith
qed

section \<open>The pacer\<close>

definition HOUR_MS :: nat where "HOUR_MS = 3600000"

record pacer =
  pc_budget_ms_per_hour :: nat
  pc_scaled :: nat
  pc_updated_ms :: nat

definition pacer_new :: "nat \<Rightarrow> nat \<Rightarrow> pacer" where
  "pacer_new duty_tenths_percent now_ms =
    (let budget = HOUR_MS * duty_tenths_percent div 1000 in
     \<lparr>pc_budget_ms_per_hour = budget, pc_scaled = sat_mul U64_MAX budget HOUR_MS,
      pc_updated_ms = now_ms\<rparr>)"

definition pacer_unlimited :: "pacer \<Rightarrow> bool" where
  "pacer_unlimited p \<longleftrightarrow> pc_budget_ms_per_hour p = 0"

definition pacer_refill :: "pacer \<Rightarrow> nat \<Rightarrow> pacer" where
  "pacer_refill p now_ms =
    (let elapsed = now_ms - pc_updated_ms p in
     p\<lparr>pc_updated_ms := now_ms,
       pc_scaled := min (sat_add U64_MAX (pc_scaled p) (sat_mul U64_MAX elapsed (pc_budget_ms_per_hour p)))
                        (sat_mul U64_MAX (pc_budget_ms_per_hour p) HOUR_MS)\<rparr>)"

definition pacer_delay_ms :: "pacer \<Rightarrow> nat \<Rightarrow> nat \<Rightarrow> nat option \<times> pacer" where
  "pacer_delay_ms p airtime_ms now_ms =
    (if pacer_unlimited p then (Some 0, p)
     else if pc_budget_ms_per_hour p < airtime_ms then (None, p)
     else let p' = pacer_refill p now_ms;
              price = sat_mul U64_MAX airtime_ms HOUR_MS
          in (Some (div_ceil (price - pc_scaled p') (pc_budget_ms_per_hour p')), p'))"

definition pacer_spend :: "pacer \<Rightarrow> nat \<Rightarrow> nat \<Rightarrow> pacer" where
  "pacer_spend p airtime_ms now_ms =
    (if pacer_unlimited p then p
     else let p' = pacer_refill p now_ms in
          p'\<lparr>pc_scaled := pc_scaled p' - sat_mul U64_MAX airtime_ms HOUR_MS\<rparr>)"

text \<open>The bucket of a u16 duty cycle never reaches the saturation limit.\<close>

definition pacer_ok :: "pacer \<Rightarrow> bool" where
  "pacer_ok p \<longleftrightarrow> pc_budget_ms_per_hour p \<le> 3600 * U16_MAX
     \<and> pc_scaled p \<le> pc_budget_ms_per_hour p * HOUR_MS"

lemma budget_times_hour: "b \<le> 3600 * U16_MAX \<Longrightarrow> b * 3600000 \<le> U64_MAX"
  by simp

lemma pacer_new_ok: "duty \<le> U16_MAX \<Longrightarrow> pacer_ok (pacer_new duty now_ms)"
proof -
  assume duty: "duty \<le> U16_MAX"
  have "HOUR_MS * duty div 1000 \<le> 3600000 * 65535 div 1000"
    unfolding HOUR_MS_def by (rule div_le_mono) (use duty in simp)
  then show ?thesis by (simp add: pacer_ok_def pacer_new_def Let_def sat_mul_def HOUR_MS_def)
qed

lemma pacer_refill_budget [simp]: "pc_budget_ms_per_hour (pacer_refill p now_ms) = pc_budget_ms_per_hour p"
  by (simp add: pacer_refill_def Let_def)

lemma pacer_refill_updated [simp]: "pc_updated_ms (pacer_refill p now_ms) = now_ms"
  by (simp add: pacer_refill_def Let_def)

lemma pacer_refill_scaled:
  assumes "pacer_ok p"
  shows "pc_scaled (pacer_refill p now_ms) =
    min (pc_scaled p + (now_ms - pc_updated_ms p) * pc_budget_ms_per_hour p) (pc_budget_ms_per_hour p * HOUR_MS)"
proof -
  have "pc_budget_ms_per_hour p * HOUR_MS \<le> U64_MAX"
    using assms budget_times_hour by (simp add: pacer_ok_def HOUR_MS_def)
  then show ?thesis
    by (simp add: pacer_refill_def Let_def sat_add_def sat_mul_def min_def)
qed

lemma pacer_refill_ok: "pacer_ok p \<Longrightarrow> pacer_ok (pacer_refill p now_ms)"
  using pacer_refill_scaled [of p now_ms] by (simp add: pacer_ok_def)

lemma pacer_spend_ok: "pacer_ok p \<Longrightarrow> pacer_ok (pacer_spend p a now_ms)"
  using pacer_refill_ok [of p now_ms] by (auto simp: pacer_ok_def pacer_spend_def Let_def)

lemma pacer_price_exact: "a \<le> U32_MAX \<Longrightarrow> sat_mul U64_MAX a HOUR_MS = a * HOUR_MS"
  by (simp add: sat_mul_def HOUR_MS_def)

text \<open>A sender that transmits only when \<open>delay_ms\<close> answers zero: the airtime it spends.\<close>

fun paced_airtime :: "pacer \<Rightarrow> (nat \<times> nat) list \<Rightarrow> nat \<times> pacer" where
  "paced_airtime p [] = (0, p)"
| "paced_airtime p ((airtime_ms, now_ms) # es) =
    (case pacer_delay_ms p airtime_ms now_ms of
       (d, p') \<Rightarrow>
         if d = Some 0
         then (case paced_airtime (pacer_spend p' airtime_ms now_ms) es of (spent, q) \<Rightarrow> (airtime_ms + spent, q))
         else paced_airtime p' es)"

text \<open>The clock of the events is monotone and starts no earlier than the bucket's.\<close>

fun paced_clock :: "nat \<Rightarrow> (nat \<times> nat) list \<Rightarrow> bool" where
  "paced_clock t [] \<longleftrightarrow> True"
| "paced_clock t ((a, now_ms) # es) \<longleftrightarrow> t \<le> now_ms \<and> a \<le> U32_MAX \<and> paced_clock now_ms es"

lemma paced_clock_mono: "paced_clock t es \<Longrightarrow> t' \<le> t \<Longrightarrow> paced_clock t' es"
  by (cases es) auto

lemma pacer_delay_0:
  assumes "pacer_ok p" "0 < pc_budget_ms_per_hour p" "a \<le> U32_MAX" "pacer_delay_ms p a now_ms = (Some 0, p')"
  shows "p' = pacer_refill p now_ms" and "a * HOUR_MS \<le> pc_scaled p'"
proof -
  show p': "p' = pacer_refill p now_ms"
    using assms by (auto simp: pacer_delay_ms_def pacer_unlimited_def Let_def split: if_splits)
  have "div_ceil (a * HOUR_MS - pc_scaled p') (pc_budget_ms_per_hour p) = 0"
    using assms p' by (auto simp: pacer_delay_ms_def pacer_unlimited_def Let_def pacer_price_exact split: if_splits)
  then have "a * HOUR_MS - pc_scaled p' \<le> 0"
    using div_ceil_lower [OF assms(2), of "a * HOUR_MS - pc_scaled p'"] by simp
  then show "a * HOUR_MS \<le> pc_scaled p'" by simp
qed

lemma pacer_delay_ms_state:
  "snd (pacer_delay_ms p a now_ms) = p \<or> snd (pacer_delay_ms p a now_ms) = pacer_refill p now_ms"
  by (auto simp: pacer_delay_ms_def Let_def)

lemma pacer_spend_after_refill:
  "0 < pc_budget_ms_per_hour p \<Longrightarrow> pacer_ok p \<Longrightarrow> a \<le> U32_MAX \<Longrightarrow>
   pacer_spend (pacer_refill p now_ms) a now_ms =
     (pacer_refill p now_ms)\<lparr>pc_scaled := pc_scaled (pacer_refill p now_ms) - a * HOUR_MS\<rparr>"
  using pacer_refill_scaled [OF pacer_refill_ok, of p now_ms now_ms] pacer_refill_ok [of p now_ms]
  by (simp add: pacer_spend_def pacer_unlimited_def Let_def pacer_price_exact pacer_ok_def pacer.equality)

lemma pacer_refill_gain:
  "pacer_ok p \<Longrightarrow> pc_updated_ms p \<le> now_ms \<Longrightarrow>
   pc_scaled (pacer_refill p now_ms) + pc_updated_ms p * pc_budget_ms_per_hour p
     \<le> pc_scaled p + now_ms * pc_budget_ms_per_hour p"
proof -
  assume ok: "pacer_ok p" and t: "pc_updated_ms p \<le> now_ms"
  obtain k where k: "now_ms = pc_updated_ms p + k" using t le_Suc_ex by blast
  have "pc_scaled (pacer_refill p now_ms) \<le> pc_scaled p + k * pc_budget_ms_per_hour p"
    by (simp add: pacer_refill_scaled [OF ok] k)
  then show ?thesis by (simp add: k add_mult_distrib)
qed

lemma paced_airtime_bound:
  "pacer_ok p \<Longrightarrow> 0 < pc_budget_ms_per_hour p \<Longrightarrow> paced_clock (pc_updated_ms p) es \<Longrightarrow>
   paced_airtime p es = (spent, q) \<Longrightarrow>
   spent * HOUR_MS + pc_scaled q + pc_updated_ms p * pc_budget_ms_per_hour p
     \<le> pc_scaled p + pc_updated_ms q * pc_budget_ms_per_hour p
   \<and> pc_updated_ms q \<le> (if es = [] then pc_updated_ms p else snd (last es))"
proof (induction es arbitrary: p spent)
  case Nil
  then show ?case by simp
next
  case (Cons e es)
  obtain a now_ms where e: "e = (a, now_ms)" by (cases e)
  obtain d p' where d: "pacer_delay_ms p a now_ms = (d, p')" by (cases "pacer_delay_ms p a now_ms")
  let ?r = "pacer_refill p now_ms"
  have t: "pc_updated_ms p \<le> now_ms" "a \<le> U32_MAX" "paced_clock now_ms es"
    using Cons.prems(3) by (simp_all add: e)
  have gain: "pc_scaled ?r + pc_updated_ms p * pc_budget_ms_per_hour p
      \<le> pc_scaled p + now_ms * pc_budget_ms_per_hour p"
    by (rule pacer_refill_gain [OF Cons.prems(1) t(1)])
  have lst: "(if es = [] then now_ms else snd (last es)) = snd (last (e # es))" by (simp add: e)
  show ?case
  proof (cases "d = Some 0")
    case True
    note z = pacer_delay_0 [OF Cons.prems(1,2) t(2) d [unfolded True]]
    let ?s = "?r\<lparr>pc_scaled := pc_scaled ?r - a * HOUR_MS\<rparr>"
    obtain rest where rest: "paced_airtime ?s es = (rest, q)" "spent = a + rest"
      using Cons.prems(4) True d pacer_spend_after_refill [OF Cons.prems(2,1) t(2), of now_ms] z(1)
      by (auto simp: e split: prod.splits)
    have "pacer_ok ?s" using pacer_refill_ok [OF Cons.prems(1), of now_ms] by (auto simp: pacer_ok_def)
    from Cons.IH [OF this _ _ rest(1)] show ?thesis
      using Cons.prems(2) t(3) z gain rest(2) lst by (auto simp: add_mult_distrib)
  next
    case False
    then have rest: "paced_airtime p' es = (spent, q)" using Cons.prems(4) d by (simp add: e)
    from pacer_delay_ms_state [of p a now_ms] d consider "p' = p" | "p' = ?r" by auto
    then show ?thesis
    proof cases
      case 1
      then have "paced_clock (pc_updated_ms p') es" using paced_clock_mono [OF t(3) t(1)] by simp
      from Cons.IH [OF _ _ this rest] show ?thesis
        using 1 Cons.prems(1,2) lst t by (cases "es = []") auto
    next
      case 2
      from Cons.IH [OF _ _ _ rest] show ?thesis
        using 2 Cons.prems(2) t(3) gain lst pacer_refill_ok [OF Cons.prems(1), of now_ms] by auto
    qed
  qed
qed

section \<open>Properties\<close>

lemma whole_chunk_fits:
  fixes offset acked len m w :: nat
  assumes "m dvd offset - acked" and "offset < acked + w * m" and "len \<le> m" and "acked \<le> offset"
  shows "offset + len \<le> acked + w * m"
proof -
  obtain k where k: "offset - acked = m * k" using assms(1) by (auto simp: dvd_def)
  have "offset - acked < w * m" using assms(2,4) by linarith
  then have "m * k < m * w" by (simp add: k mult.commute)
  then have "m * (k + 1) \<le> m * w" by (intro mult_le_mono2) simp
  then show ?thesis using k assms(3,4) by (simp add: algebra_simps)
qed

text \<open>C18: In every state an uploader can reach, whatever reports and clock values its caller
  supplies, a poll that yields a chunk yields 1 to \<open>chunk_max\<close> (at most 420) bytes at the send cursor,
  inside the image, at or after the acknowledged offset, and with less than one window of bytes
  already outstanding.  The chunk starts inside the window and may end past it, by less than
  \<open>chunk_max\<close> bytes; it lies in the window as a whole when a whole number of chunks is outstanding.\<close>

theorem uploader_chunk_in_window:
  assumes reach: "uploader_reachable config start u"
    and total: "uc_total config \<le> U32_MAX" and window: "uc_window config \<le> U16_MAX"
    and poll: "uploader_next_with_ack u now_ms f = (Some c, u')"
  shows "up_acked u \<le> ck_offset c \<and> 1 \<le> ck_len c \<and> ck_len c \<le> OTA_CHUNK_DATA_MAX
    \<and> ck_offset c + ck_len c \<le> uc_total (up_config u)
    \<and> ck_offset c < up_acked u + window_bytes u
    \<and> ck_len c \<le> uc_chunk_max (up_config u)
    \<and> ck_offset c + ck_len c < up_acked u + window_bytes u + uc_chunk_max (up_config u)
    \<and> (uc_chunk_max (up_config u) dvd ck_offset c - up_acked u \<longrightarrow>
         ck_offset c + ck_len c \<le> up_acked u + window_bytes u)
    \<and> up_next u' = ck_offset c + ck_len c \<and> up_acked u' = up_acked u"
proof -
  let ?e = "uploader_expire u now_ms"
  have "uploader_ok ?e"
    by (rule uploader_expire_ok [OF uploader_reachable_ok [OF reach total window]])
  then have e: "up_acked u \<le> up_next ?e" "1 \<le> uc_chunk_max (up_config u)"
      "uc_chunk_max (up_config u) \<le> OTA_CHUNK_DATA_MAX"
    by (simp_all add: uploader_ok_def config_ok_def)
  show ?thesis
  proof (cases rule: uploader_next_cases [where u = u and now_ms = now_ms and f = f])
    case send
    then have "c = fst (uploader_send ?e now_ms f)" "u' = snd (uploader_send ?e now_ms f)"
      using poll by simp_all
    then have c: "ck_offset c = up_next ?e" "ck_len c = min (uc_total (up_config u) - up_next ?e) (uc_chunk_max (up_config u))"
        "up_next u' = ck_offset c + ck_len c" "up_acked u' = up_acked u"
      by (simp_all add: uploader_send_def Let_def)
    have len: "ck_len c \<le> uc_chunk_max (up_config u)" "1 \<le> ck_len c" "ck_offset c + ck_len c \<le> uc_total (up_config u)"
      using c(1,2) send(2) e(2) by linarith+
    have start: "ck_offset c < up_acked u + window_bytes u" using c(1) send(3) e(1) by linarith
    have "ck_offset c + ck_len c \<le> up_acked u + window_bytes u" if "uc_chunk_max (up_config u) dvd ck_offset c - up_acked u"
      by (rule whole_chunk_fits [OF that start len(1)]) (use c(1) e(1) in simp)
    then show ?thesis using c len start e by (intro conjI impI) linarith+
  qed (use poll in simp_all)
qed

text \<open>A report of half a chunk: the next chunk starts inside the window of 100 bytes and ends 50 bytes past it.\<close>

definition sample_upload :: uploader where
  "sample_upload = uploader_on_ack (snd (uploader_next_with_ack
     (uploader_new \<lparr>uc_total = 1050, uc_chunk_max = 100, uc_window = 1, uc_ack_timeout_ms = 1000\<rparr> 0) 0 False)) 50 10"

lemma sample_upload_reachable:
  "uploader_reachable \<lparr>uc_total = 1050, uc_chunk_max = 100, uc_window = 1, uc_ack_timeout_ms = 1000\<rparr> 0 sample_upload"
  unfolding sample_upload_def by (intro uploader_reachable.intros)

lemma sample_upload_next:
  "fst (uploader_next_with_ack sample_upload 20 False) = Some \<lparr>ck_offset = 100, ck_len = 100, ck_ack = True\<rparr>
    \<and> up_acked sample_upload + window_bytes sample_upload = 150 \<and> uc_chunk_max (up_config sample_upload) = 100"
  by (simp add: sample_upload_def uploader_on_ack_def uploader_new_def uploader_next_with_ack_def uploader_expire_def
      uploader_send_def uploader_state_def clamp_def frame_consts div_ceil_def sat_add_def Let_def)

theorem uploader_chunk_in_window_witness:
  "\<exists>c. fst (uploader_next_with_ack sample_upload 20 False) = Some c \<and> ck_offset c < 150 \<and> 150 < ck_offset c + ck_len c
    \<and> ck_offset c + ck_len c < 150 + 100"
proof -
  let ?c = "\<lparr>ck_offset = 100, ck_len = 100, ck_ack = True\<rparr>"
  have poll: "uploader_next_with_ack sample_upload 20 False = (Some ?c, snd (uploader_next_with_ack sample_upload 20 False))"
    using sample_upload_next by (simp add: prod_eq_iff)
  show ?thesis
    using uploader_chunk_in_window [OF sample_upload_reachable _ _ poll] sample_upload_next by simp
qed

text \<open>C19: an upload never goes quiet while it is unfinished: in every reachable state, a poll
  that yields nothing leaves the uploader complete, stalled, or with a deadline to wake at, and
  polling at that deadline resumes from the acknowledged offset with one more retry.\<close>

theorem uploader_never_stuck:
  assumes reach: "uploader_reachable config start u"
    and total: "uc_total config \<le> U32_MAX" and window: "uc_window config \<le> U16_MAX"
    and poll: "uploader_next_with_ack u now_ms f = (None, u')"
    and sending: "uploader_state u' = Sending"
  shows "\<exists>deadline. uploader_wake_at u' = Some deadline
    \<and> uploader_expire u' deadline = u'\<lparr>up_next := up_acked u', up_since_ack := 0,
         up_ack_deadline_ms := None, up_retries := up_retries u' + 1\<rparr>"
proof -
  have ok: "uploader_ok (uploader_expire u now_ms)"
    by (rule uploader_expire_ok [OF uploader_reachable_ok [OF reach total window]])
  have "up_ack_deadline_ms (uploader_expire u now_ms) \<noteq> None \<and> u' = uploader_expire u now_ms"
  proof (cases rule: uploader_next_cases [where u = u and now_ms = now_ms and f = f])
    case finished
    then show ?thesis using poll ok by (auto simp: uploader_ok_def uploader_state_def split: if_splits)
  next
    case full
    moreover have "0 < window_bytes u" using uploader_ok_window(1) [OF ok] by simp
    ultimately show ?thesis using poll ok by (auto simp: uploader_ok_def)
  qed (use poll sending in auto)
  then show ?thesis by (auto simp: uploader_wake_at_def uploader_expire_def)
qed

theorem uploader_never_stuck_witness:
  "\<exists>deadline. uploader_wake_at (snd (uploader_next (snd (uploader_next
      (uploader_new \<lparr>uc_total = 200, uc_chunk_max = 100, uc_window = 1, uc_ack_timeout_ms = 1000\<rparr> 0) 0)) 5))
     = Some deadline"
proof -
  let ?c = "\<lparr>uc_total = 200, uc_chunk_max = 100, uc_window = 1, uc_ack_timeout_ms = 1000\<rparr>"
  let ?v = "snd (uploader_next_with_ack (uploader_new ?c 0) 0 False)"
  let ?w = "snd (uploader_next_with_ack ?v 5 False)"
  have v: "?v = \<lparr>up_config = ?c, up_acked = 0, up_next = 100, up_since_ack = 0,
      up_ack_deadline_ms = Some 1000, up_retries = 0\<rparr>"
    by (simp add: uploader_new_def uploader_next_with_ack_def uploader_expire_def uploader_send_def
        uploader_state_def clamp_def frame_consts div_ceil_def sat_add_def)
  have poll: "uploader_next_with_ack ?v 5 False = (None, ?v)" and s: "uploader_state ?v = Sending"
    unfolding v by (simp_all add: uploader_next_with_ack_def uploader_expire_def uploader_state_def)
  have "\<exists>deadline. uploader_wake_at ?v = Some deadline"
    using uploader_never_stuck [OF uploader_reachable.poll [OF uploader_reachable.new] _ _ poll s] by auto
  then show ?thesis unfolding uploader_next_def by (simp only: poll snd_conv)
qed

text \<open>C20: silence costs bounded airtime.  Without a single report, an upload sends at most nine
  windows of chunks, however often and at whatever times it is polled.\<close>

theorem uploader_silence_bound:
  assumes "uc_total config \<le> U32_MAX" and "uc_window config \<le> U16_MAX"
  shows "length (fst (uploader_polls (uploader_new config start) ps))
    \<le> (UPLOAD_RETRIES_MAX + 1) * max (uc_window config) 1"
proof -
  let ?u = "uploader_new config start"
  have ok: "uploader_ok ?u" by (rule uploader_new_ok [OF assms])
  have "length (fst (uploader_polls ?u ps)) \<le> uploader_credit ?u"
    using uploader_polls_credit [OF ok, of ps] by (cases "uploader_polls ?u ps") auto
  also have "\<dots> \<le> UPLOAD_RETRIES_MAX * uc_window (up_config ?u) + uc_window (up_config ?u)"
    using uploader_room_le [OF ok] by (simp add: uploader_credit_def uploader_new_def)
  also have "uc_window (up_config ?u) = max (uc_window config) 1" by (simp add: uploader_new_def)
  finally show ?thesis by (simp add: add_mult_distrib)
qed

theorem uploader_silence_bound_witness:
  "length (fst (uploader_polls (uploader_new \<lparr>uc_total = 1050, uc_chunk_max = 100, uc_window = 4,
     uc_ack_timeout_ms = 1000\<rparr> 0) [(0, False), (5, True), (2000, False)])) \<le> 36"
  using uploader_silence_bound
    [of "\<lparr>uc_total = 1050, uc_chunk_max = 100, uc_window = 4, uc_ack_timeout_ms = 1000\<rparr>" 0
        "[(0, False), (5, True), (2000, False)]"]
  by (simp add: UPLOAD_RETRIES_MAX_def)

text \<open>The pacer's delay is exact: a request that fits a full bucket is told how long to
  wait, and after that wait the bucket covers it, while any shorter wait leaves it short (the
  clock of the second question is at least the first).\<close>

theorem pacer_delay_exact:
  assumes ok: "pacer_ok p" and pos: "0 < pc_budget_ms_per_hour p"
    and a: "a \<le> pc_budget_ms_per_hour p" "a \<le> U32_MAX"
    and d: "pacer_delay_ms p a now_ms = (Some d, p')"
  shows "fst (pacer_delay_ms p' a (now_ms + k)) = Some 0 \<longleftrightarrow> d \<le> k"
proof -
  let ?b = "pc_budget_ms_per_hour p"
  have p': "p' = pacer_refill p now_ms" and dd: "d = div_ceil (a * HOUR_MS - pc_scaled p') ?b"
    using d pos a by (auto simp: pacer_delay_ms_def pacer_unlimited_def Let_def pacer_price_exact split: if_splits)
  have ok': "pacer_ok p'" unfolding p' by (rule pacer_refill_ok [OF ok])
  have up: "pc_updated_ms p' = now_ms" "pc_budget_ms_per_hour p' = ?b" by (simp_all add: p')
  have scaled: "pc_scaled (pacer_refill p' (now_ms + k)) = min (pc_scaled p' + k * ?b) (?b * HOUR_MS)"
    using pacer_refill_scaled [OF ok', of "now_ms + k"] up by simp
  have "fst (pacer_delay_ms p' a (now_ms + k)) =
      Some (div_ceil (a * HOUR_MS - pc_scaled (pacer_refill p' (now_ms + k))) ?b)"
    using pos a up by (simp add: pacer_delay_ms_def pacer_unlimited_def Let_def pacer_price_exact)
  also have "\<dots> = Some 0 \<longleftrightarrow> a * HOUR_MS \<le> pc_scaled (pacer_refill p' (now_ms + k))"
    using div_ceil_le_iff [OF pos, of "a * HOUR_MS - pc_scaled (pacer_refill p' (now_ms + k))" 0] by simp
  also have "\<dots> \<longleftrightarrow> a * HOUR_MS \<le> pc_scaled p' + k * ?b"
    using a(1) by (simp add: scaled)
  also have "\<dots> \<longleftrightarrow> d \<le> k"
    unfolding dd div_ceil_le_iff [OF pos] by linarith
  finally show ?thesis .
qed

theorem pacer_delay_exact_witness:
  "fst (pacer_delay_ms (pacer_spend (pacer_new 10 0) 30000 0) 12000 (0 + 600000)) = Some 0
   \<longleftrightarrow> (600000 :: nat) \<le> 600000"
  using pacer_delay_exact [of "pacer_spend (pacer_new 10 0) 30000 0" 12000 0 600000
      "pacer_spend (pacer_new 10 0) 30000 0" 600000]
  by (simp add: pacer_new_def pacer_spend_def pacer_delay_ms_def pacer_unlimited_def pacer_refill_def
      pacer_ok_def sat_add_def sat_mul_def HOUR_MS_def div_ceil_def Let_def)

text \<open>C21: a sender that transmits only when the pacer answers zero keeps its duty cycle: up to
  any time it has spent at most the initial hour's budget plus the share of the time elapsed.\<close>

theorem pacer_duty_cycle:
  assumes "duty \<le> U16_MAX" and "0 < HOUR_MS * duty div 1000" and "paced_clock t0 es" and "es \<noteq> []"
  shows "fst (paced_airtime (pacer_new duty t0) es) * HOUR_MS
    \<le> (HOUR_MS * duty div 1000) * (HOUR_MS + (snd (last es) - t0))"
proof -
  let ?p = "pacer_new duty t0" and ?b = "HOUR_MS * duty div 1000"
  obtain s q where run: "paced_airtime ?p es = (s, q)" by (cases "paced_airtime ?p es")
  have p: "pc_budget_ms_per_hour ?p = ?b" "pc_updated_ms ?p = t0" "pc_scaled ?p \<le> ?b * HOUR_MS"
    using pacer_new_ok [OF assms(1), of t0] by (simp_all add: pacer_new_def Let_def pacer_ok_def)
  from paced_airtime_bound [OF pacer_new_ok [OF assms(1), of t0] _ _ run] p assms
  have bound: "s * HOUR_MS + pc_scaled q + t0 * ?b \<le> pc_scaled ?p + pc_updated_ms q * ?b"
    and upd: "pc_updated_ms q \<le> snd (last es)" by auto
  have "pc_updated_ms q * ?b \<le> t0 * ?b + (snd (last es) - t0) * ?b"
    using upd mult_le_mono1 [of "pc_updated_ms q" "t0 + (snd (last es) - t0)" ?b]
    by (simp add: add_mult_distrib)
  then have "s * HOUR_MS \<le> ?b * HOUR_MS + (snd (last es) - t0) * ?b" using bound p(3) by linarith
  then show ?thesis by (simp add: run algebra_simps)
qed

theorem pacer_duty_cycle_witness:
  "fst (paced_airtime (pacer_new 10 0) [(30000, 0), (12000, 600000)]) * HOUR_MS \<le> 36000 * (3600000 + 600000)"
  using pacer_duty_cycle [of 10 0 "[(30000, 0), (12000, 600000)]"] by (simp add: HOUR_MS_def)

end
