(* ===== verification/Status.thy ===== *)
theory Status
  imports Frame
begin

text \<open>
  The node's \<open>status\<close> reply, \<open>crates/rsnode-update/src/status.rs\<close>: one-byte tag, one-byte
  length, value.  \<open>ManageStatus\<close> is a record with the source's fields; fixed-size arrays are
  byte lists whose length \<open>status_wf\<close> states, and the signed \<open>tx_power_dbm\<close> is kept as its
  8-bit word (the code only casts it to \<open>u8\<close> and back).
\<close>

section \<open>Data\<close>

definition OWNER_HASH_LEN :: nat where "OWNER_HASH_LEN = 16"

datatype owner_role = Primary | Helper

fun owner_role_to_byte :: "owner_role \<Rightarrow> u8" where
  "owner_role_to_byte Primary = 1"
| "owner_role_to_byte Helper = 2"

definition owner_role_from_byte :: "u8 \<Rightarrow> owner_role option" where
  "owner_role_from_byte b = (if b = 1 then Some Primary else if b = 2 then Some Helper else None)"

datatype update_source = SourceLink | SourceRoot | SourceUsb

fun update_source_to_byte :: "update_source \<Rightarrow> u8" where
  "update_source_to_byte SourceLink = 1"
| "update_source_to_byte SourceRoot = 2"
| "update_source_to_byte SourceUsb = 3"

definition update_source_from_byte :: "u8 \<Rightarrow> update_source option" where
  "update_source_from_byte b =
    (if b = 1 then Some SourceLink else if b = 2 then Some SourceRoot
     else if b = 3 then Some SourceUsb else None)"

definition RELEASE_VERSION_MAX :: nat where "RELEASE_VERSION_MAX = 24"

record release_version =
  rv_len :: u8
  rv_bytes :: bytes

definition is_ascii_graphic :: "u8 \<Rightarrow> bool" where
  "is_ascii_graphic b \<longleftrightarrow> 0x21 \<le> b \<and> b \<le> 0x7E"

text \<open>\<open>ReleaseVersion::new\<close> takes a \<open>str\<close>; the model takes its bytes.  The decoder's own
  \<open>from_utf8\<close> check rejects only texts with a byte above 127, which \<open>new\<close> rejects too.\<close>

definition release_version_new :: "bytes \<Rightarrow> release_version option" where
  "release_version_new source =
    (if source = [] \<or> RELEASE_VERSION_MAX < length source \<or> \<not> list_all is_ascii_graphic source
     then None
     else Some \<lparr>rv_len = word_of_nat (length source),
                rv_bytes = source @ replicate (RELEASE_VERSION_MAX - length source) 0\<rparr>)"

definition release_version_as_str :: "release_version \<Rightarrow> bytes" where
  "release_version_as_str v = take (unat (rv_len v)) (rv_bytes v)"

record running_image =
  ri_len :: u32
  ri_sha256 :: bytes

record last_update_status =
  lu_sequence :: u32
  lu_source :: update_source
  lu_owner :: bytes
  lu_running :: bool

record transfer_status =
  ts_next_offset :: u32
  ts_total :: u32
  ts_delta :: bool

record wifi_status =
  wi_mode :: u8
  wi_service_ready :: bool
  wi_ip :: bytes

record session_path =
  sp_interface_id :: u8
  sp_hops :: u8

record status_radio =
  sr_frequency_hz :: u32
  sr_bandwidth_hz :: u32
  sr_spreading_factor :: u8
  sr_coding_rate :: u8
  sr_tx_power_dbm :: u8
  sr_duty_tenths_percent :: u16
  sr_max_transmission_ms :: u32
  sr_hour_used_ms :: u32
  sr_hour_budget_ms :: u32

record manage_status =
  ms_board :: "board_target option"
  ms_firmware :: "firmware_version option"
  ms_release_key_id :: "bytes option"
  ms_ota_accepted_sequence :: u32
  ms_ota_pending_sequence :: "u32 option"
  ms_ota_trial_pending :: bool
  ms_ota_slot_len :: u32
  ms_owner_count :: u8
  ms_role :: "owner_role option"
  ms_nearby_only :: bool
  ms_radio :: "status_radio option"
  ms_interfaces_up :: u8
  ms_uptime_s :: u32
  ms_last_update :: "last_update_status option"
  ms_transfer :: "transfer_status option"
  ms_wifi :: "wifi_status option"
  ms_path :: "session_path option"
  ms_image :: "running_image option"
  ms_release :: "release_version option"

text \<open>\<open>ManageStatus::default()\<close>.\<close>

definition status_default :: manage_status where
  "status_default = \<lparr>ms_board = None, ms_firmware = None, ms_release_key_id = None,
    ms_ota_accepted_sequence = 0, ms_ota_pending_sequence = None, ms_ota_trial_pending = False,
    ms_ota_slot_len = 0, ms_owner_count = 0, ms_role = None, ms_nearby_only = False,
    ms_radio = None, ms_interfaces_up = 0, ms_uptime_s = 0, ms_last_update = None,
    ms_transfer = None, ms_wifi = None, ms_path = None, ms_image = None, ms_release = None\<rparr>"

definition TAG_BOARD :: u8 where "TAG_BOARD = 0x01"
definition TAG_FIRMWARE :: u8 where "TAG_FIRMWARE = 0x02"
definition TAG_RELEASE_KEY :: u8 where "TAG_RELEASE_KEY = 0x03"
definition TAG_OTA :: u8 where "TAG_OTA = 0x04"
definition TAG_OTA_PENDING :: u8 where "TAG_OTA_PENDING = 0x05"
definition TAG_OWNERS :: u8 where "TAG_OWNERS = 0x06"
definition TAG_RADIO :: u8 where "TAG_RADIO = 0x07"
definition TAG_INTERFACES :: u8 where "TAG_INTERFACES = 0x08"
definition TAG_UPTIME :: u8 where "TAG_UPTIME = 0x09"
definition TAG_LAST_UPDATE :: u8 where "TAG_LAST_UPDATE = 0x0A"
definition TAG_TRANSFER :: u8 where "TAG_TRANSFER = 0x0B"
definition TAG_WIFI :: u8 where "TAG_WIFI = 0x0C"
definition TAG_PATH :: u8 where "TAG_PATH = 0x0D"
definition TAG_IMAGE :: u8 where "TAG_IMAGE = 0x0E"
definition TAG_RELEASE :: u8 where "TAG_RELEASE = 0x0F"
definition WIFI_READY :: u8 where "WIFI_READY = 0x01"
definition FLAG_NEARBY_ONLY :: u8 where "FLAG_NEARBY_ONLY = 0x02"
definition FLAG_TRIAL :: u8 where "FLAG_TRIAL = 0x04"

lemmas status_tags = TAG_BOARD_def TAG_FIRMWARE_def TAG_RELEASE_KEY_def TAG_OTA_def
  TAG_OTA_PENDING_def TAG_OWNERS_def TAG_RADIO_def TAG_INTERFACES_def TAG_UPTIME_def
  TAG_LAST_UPDATE_def TAG_TRANSFER_def TAG_WIFI_def TAG_PATH_def TAG_IMAGE_def TAG_RELEASE_def

lemmas status_flags = WIFI_READY_def FLAG_NEARBY_ONLY_def FLAG_TRIAL_def

section \<open>Encoding\<close>

text \<open>\<open>TlvWriter::put\<close> on the writer's buffer and length: nothing is written when the field
  does not fit.  The length byte is \<open>value.len() as u8\<close>.\<close>

definition tlv :: "u8 \<Rightarrow> bytes \<Rightarrow> bytes" where
  "tlv tag val = tag # word_of_nat (length val) # val"

definition tlv_put :: "u8 \<Rightarrow> bytes \<Rightarrow> bytes \<times> nat \<Rightarrow> encode_error + bytes \<times> nat" where
  "tlv_put tag val w =
    (case w of (out, len) \<Rightarrow>
       let stop = len + 2 + length val in
       if length out < stop then Inl BufferTooSmall
       else Inr (take len out @ tlv tag val @ drop stop out, stop))"

text \<open>The calls of \<open>put\<close> that \<open>ManageStatus::encode\<close> makes, in its order.\<close>

definition opt_field :: "u8 \<Rightarrow> ('a \<Rightarrow> bytes) \<Rightarrow> 'a option \<Rightarrow> (u8 \<times> bytes) list" where
  "opt_field tag f v = (case v of None \<Rightarrow> [] | Some x \<Rightarrow> [(tag, f x)])"

definition board_value :: "board_target \<Rightarrow> bytes" where
  "board_value b = [bt_platform b, bt_mcu b, bt_board b]"

definition firmware_value :: "firmware_version \<Rightarrow> bytes" where
  "firmware_value v = to_be 2 (fv_major v) @ to_be 2 (fv_minor v) @ to_be 2 (fv_patch v)"

definition ota_value :: "manage_status \<Rightarrow> bytes" where
  "ota_value s = to_be 4 (ms_ota_accepted_sequence s) @ to_be 4 (ms_ota_slot_len s)
     @ [(if ms_nearby_only s then FLAG_NEARBY_ONLY else 0) OR (if ms_ota_trial_pending s then FLAG_TRIAL else 0)]"

definition owners_value :: "manage_status \<Rightarrow> bytes" where
  "owners_value s = [ms_owner_count s, (case ms_role s of None \<Rightarrow> 0 | Some r \<Rightarrow> owner_role_to_byte r)]"

definition radio_value :: "status_radio \<Rightarrow> bytes" where
  "radio_value r = to_be 4 (sr_frequency_hz r) @ to_be 4 (sr_bandwidth_hz r)
     @ [sr_spreading_factor r, sr_coding_rate r, sr_tx_power_dbm r]
     @ to_be 2 (sr_duty_tenths_percent r) @ to_be 4 (sr_max_transmission_ms r)
     @ to_be 4 (sr_hour_used_ms r) @ to_be 4 (sr_hour_budget_ms r)"

definition last_update_value :: "last_update_status \<Rightarrow> bytes" where
  "last_update_value u = to_be 4 (lu_sequence u)
     @ [update_source_to_byte (lu_source u), (if lu_running u then 1 else 0)] @ lu_owner u"

definition transfer_value :: "transfer_status \<Rightarrow> bytes" where
  "transfer_value t = to_be 4 (ts_next_offset t) @ to_be 4 (ts_total t) @ [(if ts_delta t then 1 else 0)]"

definition wifi_value :: "wifi_status \<Rightarrow> bytes" where
  "wifi_value w = [wi_mode w, (if wi_service_ready w then WIFI_READY else 0)] @ wi_ip w"

definition path_value :: "session_path \<Rightarrow> bytes" where
  "path_value p = [sp_interface_id p, sp_hops p]"

definition image_value :: "running_image \<Rightarrow> bytes" where
  "image_value i = to_be 4 (ri_len i) @ ri_sha256 i"

definition status_fields :: "manage_status \<Rightarrow> (u8 \<times> bytes) list" where
  "status_fields s =
     opt_field TAG_BOARD board_value (ms_board s)
   @ opt_field TAG_FIRMWARE firmware_value (ms_firmware s)
   @ opt_field TAG_RELEASE_KEY (\<lambda>key. key) (ms_release_key_id s)
   @ [(TAG_OTA, ota_value s)]
   @ opt_field TAG_OTA_PENDING (to_be 4) (ms_ota_pending_sequence s)
   @ [(TAG_OWNERS, owners_value s)]
   @ opt_field TAG_RADIO radio_value (ms_radio s)
   @ [(TAG_INTERFACES, [ms_interfaces_up s])]
   @ [(TAG_UPTIME, to_be 4 (ms_uptime_s s))]
   @ opt_field TAG_LAST_UPDATE last_update_value (ms_last_update s)
   @ opt_field TAG_TRANSFER transfer_value (ms_transfer s)
   @ opt_field TAG_WIFI wifi_value (ms_wifi s)
   @ opt_field TAG_PATH path_value (ms_path s)
   @ opt_field TAG_IMAGE image_value (ms_image s)
   @ opt_field TAG_RELEASE release_version_as_str (ms_release s)"

text \<open>The \<open>?\<close> after each \<open>put\<close>: the first error ends the encoder, and the fields already
  written stay in the caller's buffer.\<close>

fun put_fields :: "(u8 \<times> bytes) list \<Rightarrow> bytes \<times> nat \<Rightarrow> (encode_error + nat) \<times> bytes" where
  "put_fields [] w = (Inr (snd w), fst w)"
| "put_fields ((tag, val) # fs) w =
    (case tlv_put tag val w of Inl e \<Rightarrow> (Inl e, fst w) | Inr w' \<Rightarrow> put_fields fs w')"

definition status_encode :: "manage_status \<Rightarrow> bytes \<Rightarrow> (encode_error + nat) \<times> bytes" where
  "status_encode s out = put_fields (status_fields s) (out, 0)"

section \<open>Decoding\<close>

text \<open>The \<open>match\<close> on \<open>(tag, value.len())\<close>: a known tag of the right width is read, a known tag
  of another width fails, and an unknown tag is skipped.\<close>

definition decode_radio :: "bytes \<Rightarrow> status_radio" where
  "decode_radio v =
    \<lparr>sr_frequency_hz = be32 (slice 0 4 v), sr_bandwidth_hz = be32 (slice 4 8 v),
     sr_spreading_factor = v ! 8, sr_coding_rate = v ! 9, sr_tx_power_dbm = v ! 10,
     sr_duty_tenths_percent = be16 (slice 11 13 v), sr_max_transmission_ms = be32 (slice 13 17 v),
     sr_hour_used_ms = be32 (slice 17 21 v), sr_hour_budget_ms = be32 (drop 21 v)\<rparr>"

definition status_widths :: "(u8 \<times> nat) list" where
  "status_widths = [(TAG_BOARD, 3), (TAG_FIRMWARE, 6), (TAG_RELEASE_KEY, 8), (TAG_OTA, 9),
    (TAG_OTA_PENDING, 4), (TAG_OWNERS, 2), (TAG_RADIO, 25), (TAG_INTERFACES, 1), (TAG_UPTIME, 4),
    (TAG_LAST_UPDATE, 22), (TAG_TRANSFER, 9), (TAG_WIFI, 6), (TAG_PATH, 2), (TAG_IMAGE, 36)]"

definition decode_known :: "manage_status \<Rightarrow> u8 \<Rightarrow> bytes \<Rightarrow> manage_status option" where
  "decode_known s tag v =
    (if tag = TAG_BOARD then
       Some (s\<lparr>ms_board := Some \<lparr>bt_platform = v ! 0, bt_mcu = v ! 1, bt_board = v ! 2\<rparr>\<rparr>)
     else if tag = TAG_FIRMWARE then
       Some (s\<lparr>ms_firmware := Some \<lparr>fv_major = be16 (slice 0 2 v), fv_minor = be16 (slice 2 4 v),
                                    fv_patch = be16 (drop 4 v)\<rparr>\<rparr>)
     else if tag = TAG_RELEASE_KEY then Some (s\<lparr>ms_release_key_id := Some v\<rparr>)
     else if tag = TAG_OTA then
       Some (s\<lparr>ms_ota_accepted_sequence := be32 (slice 0 4 v), ms_ota_slot_len := be32 (slice 4 8 v),
               ms_nearby_only := (v ! 8 AND FLAG_NEARBY_ONLY \<noteq> 0),
               ms_ota_trial_pending := (v ! 8 AND FLAG_TRIAL \<noteq> 0)\<rparr>)
     else if tag = TAG_OTA_PENDING then Some (s\<lparr>ms_ota_pending_sequence := Some (be32 v)\<rparr>)
     else if tag = TAG_OWNERS then
       Some (s\<lparr>ms_owner_count := v ! 0, ms_role := owner_role_from_byte (v ! 1)\<rparr>)
     else if tag = TAG_RADIO then Some (s\<lparr>ms_radio := Some (decode_radio v)\<rparr>)
     else if tag = TAG_INTERFACES then Some (s\<lparr>ms_interfaces_up := v ! 0\<rparr>)
     else if tag = TAG_UPTIME then Some (s\<lparr>ms_uptime_s := be32 v\<rparr>)
     else if tag = TAG_LAST_UPDATE then
       (case update_source_from_byte (v ! 4) of
          None \<Rightarrow> None
        | Some src \<Rightarrow> Some (s\<lparr>ms_last_update := Some \<lparr>lu_sequence = be32 (slice 0 4 v), lu_source = src,
                         lu_owner = drop 6 v, lu_running = (v ! 5 \<noteq> 0)\<rparr>\<rparr>))
     else if tag = TAG_TRANSFER then
       Some (s\<lparr>ms_transfer := Some \<lparr>ts_next_offset = be32 (slice 0 4 v),
               ts_total = be32 (slice 4 8 v), ts_delta = (v ! 8 \<noteq> 0)\<rparr>\<rparr>)
     else if tag = TAG_WIFI then
       Some (s\<lparr>ms_wifi := Some \<lparr>wi_mode = v ! 0, wi_service_ready = (v ! 1 AND WIFI_READY \<noteq> 0),
                                wi_ip = drop 2 v\<rparr>\<rparr>)
     else if tag = TAG_PATH then
       Some (s\<lparr>ms_path := Some \<lparr>sp_interface_id = v ! 0, sp_hops = v ! 1\<rparr>\<rparr>)
     else Some (s\<lparr>ms_image := Some \<lparr>ri_len = be32 (slice 0 4 v), ri_sha256 = drop 4 v\<rparr>\<rparr>))"

definition decode_tlv :: "manage_status \<Rightarrow> u8 \<Rightarrow> bytes \<Rightarrow> manage_status option" where
  "decode_tlv s tag v =
    (if tag = TAG_RELEASE then
       (case release_version_new v of
          None \<Rightarrow> None
        | Some r \<Rightarrow> Some (s\<lparr>ms_release := Some r\<rparr>))
     else (case map_of status_widths tag of
             None \<Rightarrow> Some s
           | Some w \<Rightarrow> if length v = w then decode_known s tag v else None))"

fun status_decode_from :: "manage_status \<Rightarrow> bytes \<Rightarrow> manage_status option" where
  "status_decode_from s [] = Some s"
| "status_decode_from s [b] = None"
| "status_decode_from s (tag # len # tail) =
    (if length tail < unat len then None
     else (case decode_tlv s tag (take (unat len) tail) of
             None \<Rightarrow> None
           | Some s' \<Rightarrow> status_decode_from s' (drop (unat len) tail)))"

definition status_decode :: "bytes \<Rightarrow> manage_status option" where
  "status_decode body = status_decode_from status_default body"

section \<open>Well-formed statuses\<close>

text \<open>The array lengths the source's types carry, and a release label made by \<open>new\<close>.\<close>

definition release_ok :: "release_version \<Rightarrow> bool" where
  "release_ok v \<longleftrightarrow> release_version_new (release_version_as_str v) = Some v"

definition option_all :: "('a \<Rightarrow> bool) \<Rightarrow> 'a option \<Rightarrow> bool" where
  "option_all P v = (case v of None \<Rightarrow> True | Some x \<Rightarrow> P x)"

definition status_wf :: "manage_status \<Rightarrow> bool" where
  "status_wf s \<longleftrightarrow>
     option_all (\<lambda>key. length key = 8) (ms_release_key_id s)
   \<and> option_all (\<lambda>u. length (lu_owner u) = OWNER_HASH_LEN) (ms_last_update s)
   \<and> option_all (\<lambda>w. length (wi_ip w) = 4) (ms_wifi s)
   \<and> option_all (\<lambda>i. length (ri_sha256 i) = 32) (ms_image s)
   \<and> option_all release_ok (ms_release s)"

definition fields_bytes :: "(u8 \<times> bytes) list \<Rightarrow> bytes" where
  "fields_bytes fs = concat (map (\<lambda>(tag, val). tlv tag val) fs)"

definition status_bytes :: "manage_status \<Rightarrow> bytes" where
  "status_bytes s = fields_bytes (status_fields s)"

lemma fields_bytes_simps [simp]:
  "fields_bytes [] = []"
  "fields_bytes ((tag, val) # fs) = tlv tag val @ fields_bytes fs"
  "fields_bytes (fs @ gs) = fields_bytes fs @ fields_bytes gs"
  by (simp_all add: fields_bytes_def)

lemma length_tlv [simp]: "length (tlv tag val) = length val + 2"
  by (simp add: tlv_def)

lemma put_fields_ok:
  "len + length (fields_bytes fs) \<le> length out \<Longrightarrow>
   put_fields fs (out, len) =
     (Inr (len + length (fields_bytes fs)),
      take len out @ fields_bytes fs @ drop (len + length (fields_bytes fs)) out)"
proof (induction fs arbitrary: out len)
  case Nil
  then show ?case by simp
next
  case (Cons f fs)
  obtain tag val where f: "f = (tag, val)" by (cases f)
  let ?stop = "len + 2 + length val" and ?out = "take len out @ tlv tag val @ drop (len + 2 + length val) out"
  have fit: "?stop + length (fields_bytes fs) \<le> length ?out" "?stop \<le> length out"
    using Cons.prems by (simp_all add: f)
  have len: "len + length (fields_bytes (f # fs)) = ?stop + length (fields_bytes fs)" by (simp add: f)
  have "put_fields (f # fs) (out, len) = put_fields fs (?out, ?stop)"
    using fit(2) by (simp add: f tlv_put_def Let_def)
  also have "\<dots> = (Inr (?stop + length (fields_bytes fs)),
      take ?stop ?out @ fields_bytes fs @ drop (?stop + length (fields_bytes fs)) ?out)"
    by (rule Cons.IH [OF fit(1)])
  also have "take ?stop ?out = take len out @ tlv tag val"
    using fit(2) by simp
  also have "drop (?stop + length (fields_bytes fs)) ?out = drop (?stop + length (fields_bytes fs)) out"
    using fit(2) by simp (simp add: add.commute add.left_commute)
  finally show ?case unfolding len by (simp add: f)
qed

lemma put_fields_small:
  "length out < len + length (fields_bytes fs) \<Longrightarrow> len \<le> length out \<Longrightarrow>
   fst (put_fields fs (out, len)) = Inl BufferTooSmall"
proof (induction fs arbitrary: out len)
  case Nil
  then show ?case by simp
next
  case (Cons f fs)
  obtain tag val where f: "f = (tag, val)" by (cases f)
  let ?out = "take len out @ tlv tag val @ drop (len + 2 + length val) out"
  show ?case
  proof (cases "length out < len + 2 + length val")
    case True
    then show ?thesis by (simp add: f tlv_put_def Let_def)
  next
    case False
    then have "length ?out = length out" by simp
    then show ?thesis
      using False Cons.prems Cons.IH [of ?out "len + 2 + length val"]
      by (simp add: f tlv_put_def Let_def)
  qed
qed

lemma decode_field [wire_simps]:
  "length val \<le> 255 \<Longrightarrow>
   status_decode_from s (tlv tag val @ rest) =
     (case decode_tlv s tag val of None \<Rightarrow> None | Some s' \<Rightarrow> status_decode_from s' rest)"
proof -
  assume "length val \<le> 255"
  then have "length val mod 256 = length val" by simp
  then show ?thesis by (simp add: tlv_def del: mod_less split: option.split)
qed

section \<open>The round trip, field by field\<close>

lemma lookup_width:
  "map_of status_widths TAG_BOARD = Some 3" "map_of status_widths TAG_FIRMWARE = Some 6"
  "map_of status_widths TAG_RELEASE_KEY = Some 8" "map_of status_widths TAG_OTA = Some 9"
  "map_of status_widths TAG_OTA_PENDING = Some 4" "map_of status_widths TAG_OWNERS = Some 2"
  "map_of status_widths TAG_RADIO = Some 25" "map_of status_widths TAG_INTERFACES = Some 1"
  "map_of status_widths TAG_UPTIME = Some 4" "map_of status_widths TAG_LAST_UPDATE = Some 22"
  "map_of status_widths TAG_TRANSFER = Some 9" "map_of status_widths TAG_WIFI = Some 6"
  "map_of status_widths TAG_PATH = Some 2" "map_of status_widths TAG_IMAGE = Some 36"
  by (simp_all add: status_widths_def status_tags)

lemma option_all_simps [simp]: "option_all P None" "option_all P (Some x) \<longleftrightarrow> P x"
  by (simp_all add: option_all_def)

lemma owner_role_byte [simp]: "owner_role_from_byte (owner_role_to_byte r) = Some r"
  by (cases r) (simp_all add: owner_role_from_byte_def)

lemma owner_role_byte_0 [simp]: "owner_role_from_byte 0 = None"
  by (simp add: owner_role_from_byte_def)

lemma update_source_byte [simp]: "update_source_from_byte (update_source_to_byte r) = Some r"
  by (cases r) (simp_all add: update_source_from_byte_def)

lemma length_values [simp]:
  "length (board_value b) = 3" "length (firmware_value v) = 6" "length (ota_value s) = 9"
  "length (owners_value s) = 2" "length (radio_value r) = 25" "length (transfer_value t) = 9"
  "length (path_value p) = 2"
  by (simp_all add: board_value_def firmware_value_def ota_value_def owners_value_def radio_value_def
      transfer_value_def path_value_def)

lemma release_ok_bytes:
  assumes "release_ok v"
  shows "1 \<le> length (release_version_as_str v)" and "length (release_version_as_str v) \<le> 24"
    and "release_version_new (release_version_as_str v) = Some v"
  using assms
  by (auto simp: release_ok_def release_version_new_def RELEASE_VERSION_MAX_def Suc_le_eq split: if_splits)

lemma be_append [wire_simps]:
  "be32 (take 4 (to_be 4 w @ xs)) = w" "be16 (take 2 (to_be 2 h @ xs)) = h"
  by simp_all

lemma radio_decode [wire_simps]: "decode_radio (radio_value r) = r"
  by (simp add: decode_radio_def radio_value_def slice_def nth_append)

lemma put_field:
  assumes w: "map_of status_widths tag = Some w"
    and some: "\<And>x. v = Some x \<Longrightarrow> length (f x) = w \<and> decode_known s tag (f x) = Some (g v)"
    and none: "v = None \<Longrightarrow> g v = s"
  shows "status_decode_from s (fields_bytes (opt_field tag f v) @ rest) = status_decode_from (g v) rest"
proof (cases v)
  case None
  then show ?thesis using none by (simp add: opt_field_def)
next
  case (Some x)
  have "tag \<noteq> TAG_RELEASE" "w \<le> 255"
    using w by (auto simp: status_widths_def status_tags split: if_splits)
  then show ?thesis
    using w some [OF Some] Some by (simp add: opt_field_def decode_field decode_tlv_def)
qed

text \<open>The mandatory fields, which are always written.\<close>

lemma put_mandatory:
  assumes "map_of status_widths tag = Some w" and "length val = w" and "decode_known s tag val = Some s'"
  shows "status_decode_from s (tlv tag val @ rest) = status_decode_from s' rest"
  using put_field [of tag w "Some val" "\<lambda>x. x" s "\<lambda>_. s'" rest] assms by (simp add: opt_field_def)

lemma put_board:
  "ms_board s = None \<Longrightarrow> 
   status_decode_from s (fields_bytes (opt_field TAG_BOARD board_value b) @ rest)
     = status_decode_from (s\<lparr>ms_board := b\<rparr>) rest"
  by (rule put_field [OF lookup_width(1), where g = "\<lambda>b. s\<lparr>ms_board := b\<rparr>"])
    (auto simp: decode_known_def status_tags board_value_def intro!: manage_status.equality)

lemma put_firmware:
  "ms_firmware s = None \<Longrightarrow> 
   status_decode_from s (fields_bytes (opt_field TAG_FIRMWARE firmware_value v) @ rest)
     = status_decode_from (s\<lparr>ms_firmware := v\<rparr>) rest"
  by (rule put_field [OF lookup_width(2), where g = "\<lambda>v. s\<lparr>ms_firmware := v\<rparr>"])
    (auto simp: decode_known_def status_tags firmware_value_def slice_def intro!: manage_status.equality)

lemma put_release_key:
  "ms_release_key_id s = None \<Longrightarrow> option_all (\<lambda>key. length key = 8) key \<Longrightarrow>
   status_decode_from s (fields_bytes (opt_field TAG_RELEASE_KEY (\<lambda>key. key) key) @ rest)
     = status_decode_from (s\<lparr>ms_release_key_id := key\<rparr>) rest"
  by (rule put_field [OF lookup_width(3), where g = "\<lambda>key. s\<lparr>ms_release_key_id := key\<rparr>"])
    (auto simp: decode_known_def status_tags  intro!: manage_status.equality)

lemma put_ota_pending:
  "ms_ota_pending_sequence s = None \<Longrightarrow> 
   status_decode_from s (fields_bytes (opt_field TAG_OTA_PENDING (to_be 4) n) @ rest)
     = status_decode_from (s\<lparr>ms_ota_pending_sequence := n\<rparr>) rest"
  by (rule put_field [OF lookup_width(5), where g = "\<lambda>n. s\<lparr>ms_ota_pending_sequence := n\<rparr>"])
    (auto simp: decode_known_def status_tags  intro!: manage_status.equality)

lemma put_radio:
  "ms_radio s = None \<Longrightarrow> 
   status_decode_from s (fields_bytes (opt_field TAG_RADIO radio_value r) @ rest)
     = status_decode_from (s\<lparr>ms_radio := r\<rparr>) rest"
  by (rule put_field [OF lookup_width(7), where g = "\<lambda>r. s\<lparr>ms_radio := r\<rparr>"])
    (auto simp: decode_known_def status_tags radio_decode intro!: manage_status.equality)

lemma put_last_update:
  "ms_last_update s = None \<Longrightarrow> option_all (\<lambda>u. length (lu_owner u) = OWNER_HASH_LEN) u \<Longrightarrow>
   status_decode_from s (fields_bytes (opt_field TAG_LAST_UPDATE last_update_value u) @ rest)
     = status_decode_from (s\<lparr>ms_last_update := u\<rparr>) rest"
  by (rule put_field [OF lookup_width(10), where g = "\<lambda>u. s\<lparr>ms_last_update := u\<rparr>"])
    (auto simp: decode_known_def status_tags last_update_value_def slice_def OWNER_HASH_LEN_def nth_append intro!: manage_status.equality)

lemma put_transfer:
  "ms_transfer s = None \<Longrightarrow> 
   status_decode_from s (fields_bytes (opt_field TAG_TRANSFER transfer_value t) @ rest)
     = status_decode_from (s\<lparr>ms_transfer := t\<rparr>) rest"
  by (rule put_field [OF lookup_width(11), where g = "\<lambda>t. s\<lparr>ms_transfer := t\<rparr>"])
    (auto simp: decode_known_def status_tags transfer_value_def slice_def nth_append intro!: manage_status.equality)

lemma put_wifi:
  "ms_wifi s = None \<Longrightarrow> option_all (\<lambda>w. length (wi_ip w) = 4) w \<Longrightarrow>
   status_decode_from s (fields_bytes (opt_field TAG_WIFI wifi_value w) @ rest)
     = status_decode_from (s\<lparr>ms_wifi := w\<rparr>) rest"
  by (rule put_field [OF lookup_width(12), where g = "\<lambda>w. s\<lparr>ms_wifi := w\<rparr>"])
    (auto simp: decode_known_def status_tags wifi_value_def WIFI_READY_def intro!: manage_status.equality)

lemma put_path:
  "ms_path s = None \<Longrightarrow> 
   status_decode_from s (fields_bytes (opt_field TAG_PATH path_value p) @ rest)
     = status_decode_from (s\<lparr>ms_path := p\<rparr>) rest"
  by (rule put_field [OF lookup_width(13), where g = "\<lambda>p. s\<lparr>ms_path := p\<rparr>"])
    (auto simp: decode_known_def status_tags path_value_def intro!: manage_status.equality)

lemma put_image:
  "ms_image s = None \<Longrightarrow> option_all (\<lambda>i. length (ri_sha256 i) = 32) i \<Longrightarrow>
   status_decode_from s (fields_bytes (opt_field TAG_IMAGE image_value i) @ rest)
     = status_decode_from (s\<lparr>ms_image := i\<rparr>) rest"
  by (rule put_field [OF lookup_width(14), where g = "\<lambda>i. s\<lparr>ms_image := i\<rparr>"])
    (auto simp: decode_known_def status_tags image_value_def slice_def intro!: manage_status.equality)

lemma put_release:
  "ms_release s = None \<Longrightarrow> option_all release_ok v \<Longrightarrow>
   status_decode_from s (fields_bytes (opt_field TAG_RELEASE release_version_as_str v) @ rest)
     = status_decode_from (s\<lparr>ms_release := v\<rparr>) rest"
  using release_ok_bytes [of "the v"]
  by (cases v)
    (auto simp: opt_field_def decode_field decode_tlv_def intro!: manage_status.equality
      arg_cong [where f = "\<lambda>s. status_decode_from s rest"])

lemma put_ota:
  "status_decode_from s (tlv TAG_OTA (ota_value t) @ rest) =
   status_decode_from (s\<lparr>ms_ota_accepted_sequence := ms_ota_accepted_sequence t,
     ms_ota_slot_len := ms_ota_slot_len t, ms_nearby_only := ms_nearby_only t,
     ms_ota_trial_pending := ms_ota_trial_pending t\<rparr>) rest"
  by (rule put_mandatory [OF lookup_width(4)])
    (simp_all add: decode_known_def status_tags status_flags ota_value_def slice_def nth_append)

lemma put_owners:
  "status_decode_from s (tlv TAG_OWNERS (owners_value t) @ rest) =
   status_decode_from (s\<lparr>ms_owner_count := ms_owner_count t, ms_role := ms_role t\<rparr>) rest"
  by (rule put_mandatory [OF lookup_width(6)])
    (auto simp: decode_known_def status_tags owners_value_def split: option.splits)

lemma put_interfaces:
  "status_decode_from s (tlv TAG_INTERFACES [b] @ rest) = status_decode_from (s\<lparr>ms_interfaces_up := b\<rparr>) rest"
  by (rule put_mandatory [OF lookup_width(8)]) (simp_all add: decode_known_def status_tags)

lemma put_uptime:
  "status_decode_from s (tlv TAG_UPTIME (to_be 4 n) @ rest) = status_decode_from (s\<lparr>ms_uptime_s := n\<rparr>) rest"
  by (rule put_mandatory [OF lookup_width(9)]) (simp_all add: decode_known_def status_tags)

lemmas put_rules = put_board put_firmware put_release_key put_ota put_ota_pending put_owners put_radio
  put_interfaces put_uptime put_last_update put_transfer put_wifi put_path put_image

lemma status_decode_bytes: "status_wf s \<Longrightarrow> status_decode (status_bytes s) = Some s"
  using put_release [of "s\<lparr>ms_release := None\<rparr>" "ms_release s" "[]"]
  by (cases s) (simp add: status_wf_def status_decode_def status_bytes_def status_fields_def put_rules
      status_default_def)

lemma length_opt_field:
  "(\<And>x. v = Some x \<Longrightarrow> length (f x) \<le> n) \<Longrightarrow> length (fields_bytes (opt_field tag f v)) \<le> n + 2"
  by (cases v) (auto simp: opt_field_def)

text \<open>Every reply fits the body of a management frame.\<close>

lemma length_status_bytes:
  assumes "status_wf s"
  shows "length (status_bytes s) \<le> 191"
proof -
  have "length (fields_bytes (opt_field TAG_BOARD board_value (ms_board s))) \<le> 3 + 2"
    "length (fields_bytes (opt_field TAG_FIRMWARE firmware_value (ms_firmware s))) \<le> 6 + 2"
    "length (fields_bytes (opt_field TAG_RELEASE_KEY (\<lambda>key. key) (ms_release_key_id s))) \<le> 8 + 2"
    "length (fields_bytes (opt_field TAG_OTA_PENDING (to_be 4) (ms_ota_pending_sequence s))) \<le> 4 + 2"
    "length (fields_bytes (opt_field TAG_RADIO radio_value (ms_radio s))) \<le> 25 + 2"
    "length (fields_bytes (opt_field TAG_LAST_UPDATE last_update_value (ms_last_update s))) \<le> 22 + 2"
    "length (fields_bytes (opt_field TAG_TRANSFER transfer_value (ms_transfer s))) \<le> 9 + 2"
    "length (fields_bytes (opt_field TAG_WIFI wifi_value (ms_wifi s))) \<le> 6 + 2"
    "length (fields_bytes (opt_field TAG_PATH path_value (ms_path s))) \<le> 2 + 2"
    "length (fields_bytes (opt_field TAG_IMAGE image_value (ms_image s))) \<le> 36 + 2"
    "length (fields_bytes (opt_field TAG_RELEASE release_version_as_str (ms_release s))) \<le> 24 + 2"
    by (rule length_opt_field;
      use assms release_ok_bytes(2) in \<open>force simp: status_wf_def last_update_value_def wifi_value_def
        image_value_def OWNER_HASH_LEN_def\<close>)+
  then show ?thesis by (simp add: status_bytes_def status_fields_def)
qed

section \<open>Framing\<close>

text \<open>The decoder is the framing loop followed by the interpretation of each field.\<close>

fun fold_fields :: "manage_status \<Rightarrow> (u8 \<times> bytes) list \<Rightarrow> manage_status option" where
  "fold_fields s [] = Some s"
| "fold_fields s ((tag, v) # fs) =
    (case decode_tlv s tag v of None \<Rightarrow> None | Some s' \<Rightarrow> fold_fields s' fs)"

lemma fold_fields_append:
  "fold_fields s (fs @ gs) = (case fold_fields s fs of None \<Rightarrow> None | Some s' \<Rightarrow> fold_fields s' gs)"
  by (induction s fs rule: fold_fields.induct) (auto split: option.splits)

lemma decode_fields_bytes:
  "list_all (\<lambda>(tag, v). length v \<le> 255) fs \<Longrightarrow>
   status_decode_from s (fields_bytes fs @ rest) =
     (case fold_fields s fs of None \<Rightarrow> None | Some s' \<Rightarrow> status_decode_from s' rest)"
  by (induction s fs rule: fold_fields.induct) (auto simp: decode_field split: option.splits)

lemma status_decode_from_framed:
  "status_decode_from s bs = Some t \<Longrightarrow>
   \<exists>fs. list_all (\<lambda>(tag, v). length v \<le> 255) fs \<and> bs = fields_bytes fs \<and> fold_fields s fs = Some t"
proof (induction s bs rule: status_decode_from.induct)
  case (1 s)
  then show ?case by (intro exI [of _ "[]"]) simp
next
  case (2 s b)
  then show ?case by simp
next
  case (3 s tag len tail)
  let ?v = "take (unat len) tail"
  from "3.prems" have fit: "unat len \<le> length tail" by (auto split: if_splits)
  from "3.prems" obtain s' where s': "decode_tlv s tag ?v = Some s'"
    and rest: "status_decode_from s' (drop (unat len) tail) = Some t"
    by (auto split: if_splits option.splits)
  from "3.IH" [OF _ s' rest] fit obtain fs where
    fs: "list_all (\<lambda>(tag, v). length v \<le> 255) fs" "drop (unat len) tail = fields_bytes fs"
      "fold_fields s' fs = Some t" by auto
  have v: "length ?v = unat len" using fit by simp
  have "tag # len # tail = tlv tag ?v @ fields_bytes fs"
    unfolding tlv_def v fs(2) [symmetric] by simp
  moreover have "length ?v \<le> 255" using v unat_u8_less [of len] by linarith
  ultimately show ?case using fs s' by (intro exI [of _ "(tag, ?v) # fs"]) simp
qed

section \<open>Properties\<close>

text \<open>C22: A status whose arrays have their declared sizes and whose release label, if it has one, is
  one that \<open>ReleaseVersion::new\<close> makes (1 to 24 graphic ASCII bytes; the default, empty label is not)
  always fits a management reply, is written in full, and is read back unchanged.\<close>

theorem status_round_trip:
  assumes "status_wf s" and "COMMAND_MAX_LEN - COMMAND_HEADER_LEN - 1 \<le> length out"
  shows "\<exists>n out'. status_encode s out = (Inr n, out') \<and> length out' = length out
    \<and> n \<le> 191 \<and> drop n out' = drop n out \<and> status_decode (take n out') = Some s"
proof -
  have len: "length (status_bytes s) \<le> length out"
    using length_status_bytes [OF assms(1)] assms(2) by (simp add: frame_consts)
  then have "status_encode s out =
      (Inr (length (status_bytes s)), status_bytes s @ drop (length (status_bytes s)) out)"
    using put_fields_ok [of 0 "status_fields s" out] by (simp add: status_encode_def status_bytes_def)
  then show ?thesis
    using len length_status_bytes [OF assms(1)] status_decode_bytes [OF assms(1)] by auto
qed

theorem status_round_trip_witness:
  "\<exists>n out'. status_encode (status_default\<lparr>ms_role := Some Helper, ms_release_key_id := Some (replicate 8 1)\<rparr>)
       (replicate 424 0) = (Inr n, out')
     \<and> status_decode (take n out') =
         Some (status_default\<lparr>ms_role := Some Helper, ms_release_key_id := Some (replicate 8 1)\<rparr>)"
  using status_round_trip
    [of "status_default\<lparr>ms_role := Some Helper, ms_release_key_id := Some (replicate 8 1)\<rparr>" "replicate 424 0"]
  by (force simp: status_wf_def status_default_def frame_consts)

text \<open>The encoder refuses a buffer that cannot hold every field and never reports a
  partial status as written.\<close>

theorem status_encode_fits:
  "(\<exists>n out'. status_encode s out = (Inr n, out')) \<longleftrightarrow> length (status_bytes s) \<le> length out"
proof (cases "length (status_bytes s) \<le> length out")
  case True
  then show ?thesis
    using put_fields_ok [of 0 "status_fields s" out] by (simp add: status_encode_def status_bytes_def)
next
  case False
  then have "fst (status_encode s out) = Inl BufferTooSmall"
    using put_fields_small [of out 0 "status_fields s"] by (simp add: status_encode_def status_bytes_def)
  with False show ?thesis by auto
qed

text \<open>A newer node's fields do not disturb this decoder: a field with an unknown tag can be
  inserted anywhere between the fields of a reply without changing the decoded status.\<close>

theorem status_unknown_tag_skipped:
  assumes "tag \<notin> set (map fst status_widths)" and "tag \<noteq> TAG_RELEASE" and "length v \<le> 255"
    and framed: "list_all (\<lambda>(tag, v). length v \<le> 255) fs"
  shows "status_decode (fields_bytes fs @ tlv tag v @ rest) = status_decode (fields_bytes fs @ rest)"
proof -
  have "map_of status_widths tag = None" using assms(1) by (simp add: map_of_eq_None_iff)
  then have "decode_tlv s tag v = Some s" for s using assms(2) by (simp add: decode_tlv_def)
  then have "status_decode_from s (tlv tag v @ rest) = status_decode_from s rest" for s
    by (simp add: decode_field [OF assms(3)])
  then show ?thesis by (simp add: status_decode_def decode_fields_bytes [OF framed] split: option.split)
qed

theorem status_unknown_tag_skipped_witness:
  "status_decode (fields_bytes [(TAG_UPTIME, [0, 0, 0, 9])] @ tlv 0x7F [1, 2] @ []) =
   status_decode (fields_bytes [(TAG_UPTIME, [0, 0, 0, 9])] @ [])"
  by (rule status_unknown_tag_skipped) (simp_all add: status_widths_def status_tags)

text \<open>What the decoder accepts is exactly a sequence of complete fields, each of which it
  interprets in order; nothing is read past a declared length, and one bad field rejects all.\<close>

theorem status_decode_framing:
  "status_decode body = Some s \<longleftrightarrow>
     (\<exists>fs. list_all (\<lambda>(tag, v). length v \<le> 255) fs \<and> body = fields_bytes fs
        \<and> fold_fields status_default fs = Some s)"
  using status_decode_from_framed [of status_default body s] decode_fields_bytes [of _ status_default "[]"]
  by (auto simp: status_decode_def)

end
