(* ===== verification/Delta.thy ===== *)
theory Delta
  imports Rs_Prelude
begin

unbundle bit_operations_syntax

text \<open>
  The streaming patch applier of \<open>crates/rsnode-update/src/delta.rs\<close>.  \<open>DeltaApplier\<close> is the
  record \<open>applier\<close>; its \<open>u32\<close> and \<open>usize\<close> fields are natural numbers, with the wrap-around of
  \<open>patch_offset\<close> and of the bit accumulator written out.  The 1 KiB window is the array it is
  in the source, read and written by index; of the two 256-byte staging buffers the model keeps
  the live prefix (\<open>out[..out_len]\<close>, \<open>cache[..cache_len]\<close>).  The trait \<open>DeltaIo\<close> is a record of
  its two operations over an adapter state.  An operation that fails returns the error and the
  adapter's state; the applier itself is gone, as \<open>push\<close> demands of its callers.
\<close>

section \<open>Constants and data\<close>

definition DELTA_MAGIC :: bytes where "DELTA_MAGIC = [0x52, 0x53, 0x44, 0x50]"
definition DELTA_VERSION :: u8 where "DELTA_VERSION = 1"
definition DELTA_HEADER_LEN :: nat where "DELTA_HEADER_LEN = 12"
definition DELTA_BLOCK_HEADER_LEN :: nat where "DELTA_BLOCK_HEADER_LEN = 8"
definition DELTA_BLOCK_OUT :: nat where "DELTA_BLOCK_OUT = 64 * 1024"
definition LZSS_INDEX_BITS :: nat where "LZSS_INDEX_BITS = 10"
definition LZSS_LENGTH_BITS :: nat where "LZSS_LENGTH_BITS = 6"
definition LZSS_MIN_MATCH :: nat where "LZSS_MIN_MATCH = 3"
definition LZSS_WINDOW :: nat where "LZSS_WINDOW = 2 ^ LZSS_INDEX_BITS"
definition LZSS_MAX_MATCH :: nat where "LZSS_MAX_MATCH = 2 ^ LZSS_LENGTH_BITS + LZSS_MIN_MATCH - 1"
definition OP_ADD :: u8 where "OP_ADD = 0x01"
definition OP_INSERT :: u8 where "OP_INSERT = 0x02"
definition STAGING :: nat where "STAGING = 256"

lemmas delta_consts = DELTA_HEADER_LEN_def DELTA_BLOCK_HEADER_LEN_def DELTA_BLOCK_OUT_def
  LZSS_INDEX_BITS_def LZSS_LENGTH_BITS_def LZSS_MIN_MATCH_def LZSS_WINDOW_def LZSS_MAX_MATCH_def
  OP_ADD_def OP_INSERT_def STAGING_def

text \<open>\<open>read_base\<close> receives the offset and the buffer's length and returns its contents.\<close>

record ('io, 'e) delta_io =
  io_read_base :: "'io \<Rightarrow> nat \<Rightarrow> nat \<Rightarrow> ('e + bytes) \<times> 'io"
  io_write :: "'io \<Rightarrow> bytes \<Rightarrow> ('e + unit) \<times> 'io"

datatype 'e delta_error = DeltaMalformed | BaseRange | BaseError 'e | SinkError 'e

record checkpoint =
  cp_patch_offset :: nat
  cp_output :: nat

datatype stage = Header nat | BlockHeader nat | Body nat nat | Done

datatype delta_op = OpTag | OpLen bool nat nat | OpSeek nat nat nat | OpAdd nat | OpInsert nat

record applier =
  da_target_len :: nat
  da_base_len :: nat
  da_patch_offset :: nat
  da_output :: nat
  da_stage :: stage
  da_header :: bytes
  da_window :: "nat \<Rightarrow> u8"
  da_window_pos :: nat
  da_bits :: nat
  da_bit_count :: nat
  da_op :: delta_op
  da_cursor :: nat
  da_out :: bytes
  da_cache_start :: nat
  da_cache :: bytes

definition applier_new :: "nat \<Rightarrow> nat \<Rightarrow> applier" where
  "applier_new target_len base_len =
    \<lparr>da_target_len = target_len, da_base_len = base_len, da_patch_offset = 0, da_output = 0,
     da_stage = Header 0, da_header = replicate DELTA_HEADER_LEN 0, da_window = (\<lambda>_. 0),
     da_window_pos = 0, da_bits = 0, da_bit_count = 0, da_op = OpTag, da_cursor = 0,
     da_out = [], da_cache_start = 0, da_cache = []\<rparr>"

definition applier_resume :: "nat \<Rightarrow> nat \<Rightarrow> checkpoint \<Rightarrow> applier" where
  "applier_resume target_len base_len at =
    (applier_new target_len base_len)
      \<lparr>da_patch_offset := cp_patch_offset at, da_output := cp_output at,
       da_stage := (if target_len \<le> cp_output at then Done else BlockHeader 0)\<rparr>"

definition applier_complete :: "applier \<Rightarrow> bool" where
  "applier_complete da \<longleftrightarrow> da_stage da = Done"

section \<open>Operations\<close>

definition delta_leb128 :: "nat \<Rightarrow> nat \<Rightarrow> u8 \<Rightarrow> nat option" where
  "delta_leb128 val shift byte =
    (if 28 < shift \<or> (shift = 28 \<and> byte AND 0x70 \<noteq> 0) then None
     else Some (val OR (push_bit shift (unat (byte AND 0x7F)) mod 2 ^ 32)))"

text \<open>The signed seek of a zigzag value, \<open>i64::from(value >> 1) ^ -i64::from(value & 1)\<close>.\<close>

definition delta_unzigzag :: "nat \<Rightarrow> int" where
  "delta_unzigzag val = int (val div 2) XOR (- int (val mod 2))"

text \<open>The new cursor of an \<open>Add\<close> of \<open>len\<close> bytes, or None outside the base (\<open>BaseRange\<close>).\<close>

definition delta_seek :: "nat \<Rightarrow> nat \<Rightarrow> nat \<Rightarrow> nat \<Rightarrow> nat option" where
  "delta_seek base_len cursor0 len val =
    (let cursor = int cursor0 + delta_unzigzag val in
     if cursor < 0 \<or> int base_len < cursor + int len then None else Some (nat cursor))"

definition delta_read_u32 :: "bytes \<Rightarrow> nat" where
  "delta_read_u32 bs = nat_of_le (take 4 bs)"

definition delta_take_bits :: "nat \<Rightarrow> applier \<Rightarrow> nat \<times> applier" where
  "delta_take_bits count da =
    (let left = da_bit_count da - count in
     (da_bits da div 2 ^ left mod 2 ^ count, da\<lparr>da_bit_count := left\<rparr>))"

definition delta_flush ::
  "('io, 'e) delta_io \<Rightarrow> applier \<Rightarrow> 'io \<Rightarrow> ('e delta_error \<times> 'io) + applier \<times> 'io" where
  "delta_flush io da st =
    (if da_out da \<noteq> [] then
       (case io_write io st (da_out da) of
          (Inl e, st') \<Rightarrow> Inl (SinkError e, st')
        | (Inr u, st') \<Rightarrow> Inr (da\<lparr>da_out := []\<rparr>, st'))
     else Inr (da, st))"

definition delta_emit ::
  "('io, 'e) delta_io \<Rightarrow> u8 \<Rightarrow> applier \<Rightarrow> 'io \<Rightarrow> ('e delta_error \<times> 'io) + applier \<times> 'io" where
  "delta_emit io byte da st =
    (let da' = da\<lparr>da_out := da_out da @ [byte], da_output := da_output da + 1\<rparr> in
     if length (da_out da') = STAGING then delta_flush io da' st else Inr (da', st))"

definition delta_base_byte ::
  "('io, 'e) delta_io \<Rightarrow> applier \<Rightarrow> 'io \<Rightarrow> ('e delta_error \<times> 'io) + u8 \<times> applier \<times> 'io" where
  "delta_base_byte io da st =
    (let index = da_cursor da - da_cache_start da in
     if da_cursor da < da_cache_start da \<or> length (da_cache da) \<le> index then
       (let len = min (da_base_len da - da_cursor da) STAGING in
        case io_read_base io st (da_cursor da) len of
          (Inl e, st') \<Rightarrow> Inl (BaseError e, st')
        | (Inr buffer, st') \<Rightarrow>
            Inr (buffer ! 0, da\<lparr>da_cache := buffer, da_cache_start := da_cursor da\<rparr>, st'))
     else Inr (da_cache da ! index, da, st))"

text \<open>\<open>DeltaApplier::decoded\<close>: one decompressed byte of the block's operations.\<close>

definition delta_decoded ::
  "('io, 'e) delta_io \<Rightarrow> u8 \<Rightarrow> nat \<Rightarrow> applier \<Rightarrow> 'io \<Rightarrow> ('e delta_error \<times> 'io) + applier \<times> 'io" where
  "delta_decoded io byte block_end da0 st =
    (let da = da0\<lparr>da_window := (da_window da0)(da_window_pos da0 := byte),
                  da_window_pos := (da_window_pos da0 + 1) mod LZSS_WINDOW\<rparr> in
     case da_op da of
       OpTag \<Rightarrow>
         if byte = OP_ADD then Inr (da\<lparr>da_op := OpLen True 0 0\<rparr>, st)
         else if byte = OP_INSERT then Inr (da\<lparr>da_op := OpLen False 0 0\<rparr>, st)
         else Inl (DeltaMalformed, st)
     | OpLen is_add val0 shift \<Rightarrow>
         (case delta_leb128 val0 shift byte of
            None \<Rightarrow> Inl (DeltaMalformed, st)
          | Some val \<Rightarrow>
              if byte AND 0x80 \<noteq> 0 then Inr (da\<lparr>da_op := OpLen is_add val (shift + 7)\<rparr>, st)
              else if val = 0 \<or> block_end < sat_add U32_MAX (da_output da) val
              then Inl (DeltaMalformed, st)
              else if is_add then Inr (da\<lparr>da_op := OpSeek val 0 0\<rparr>, st)
              else Inr (da\<lparr>da_op := OpInsert val\<rparr>, st))
     | OpSeek len val0 shift \<Rightarrow>
         (case delta_leb128 val0 shift byte of
            None \<Rightarrow> Inl (DeltaMalformed, st)
          | Some val \<Rightarrow>
              if byte AND 0x80 \<noteq> 0 then Inr (da\<lparr>da_op := OpSeek len val (shift + 7)\<rparr>, st)
              else (case delta_seek (da_base_len da) (da_cursor da) len val of
                      None \<Rightarrow> Inl (BaseRange, st)
                    | Some cursor \<Rightarrow> Inr (da\<lparr>da_cursor := cursor, da_op := OpAdd len\<rparr>, st)))
     | OpAdd left \<Rightarrow>
         (case delta_base_byte io da st of
            Inl e \<Rightarrow> Inl e
          | Inr (base_byte, da1, st1) \<Rightarrow>
              (case delta_emit io (base_byte + byte) (da1\<lparr>da_cursor := da_cursor da1 + 1\<rparr>) st1 of
                 Inl e \<Rightarrow> Inl e
               | Inr (da2, st2) \<Rightarrow>
                   Inr (da2\<lparr>da_op := (if left = 1 then OpTag else OpAdd (left - 1))\<rparr>, st2)))
     | OpInsert left \<Rightarrow>
         (case delta_emit io byte da st of
            Inl e \<Rightarrow> Inl e
          | Inr (da2, st2) \<Rightarrow>
              Inr (da2\<lparr>da_op := (if left = 1 then OpTag else OpInsert (left - 1))\<rparr>, st2)))"

text \<open>The \<open>for _ in 0..length\<close> of a match.\<close>

fun delta_copy ::
  "('io, 'e) delta_io \<Rightarrow> nat \<Rightarrow> nat \<Rightarrow> nat \<Rightarrow> applier \<Rightarrow> 'io \<Rightarrow> ('e delta_error \<times> 'io) + applier \<times> 'io" where
  "delta_copy io distance 0 block_end da st = Inr (da, st)"
| "delta_copy io distance (Suc n) block_end da st =
    (let byte = da_window da ((da_window_pos da + LZSS_WINDOW - distance) mod LZSS_WINDOW) in
     case delta_decoded io byte block_end da st of
       Inl e \<Rightarrow> Inl e
     | Inr (da', st') \<Rightarrow> delta_copy io distance n block_end da' st')"

lemma delta_flush_bit_count: "delta_flush io da st = Inr (da', st') \<Longrightarrow> da_bit_count da' = da_bit_count da"
  by (auto simp: delta_flush_def split: if_splits prod.splits sum.splits)

lemma delta_emit_bit_count: "delta_emit io byte da st = Inr (da', st') \<Longrightarrow> da_bit_count da' = da_bit_count da"
  by (auto simp: delta_emit_def Let_def split: if_splits dest: delta_flush_bit_count)

lemma delta_base_byte_bit_count:
  "delta_base_byte io da st = Inr (byte, da', st') \<Longrightarrow> da_bit_count da' = da_bit_count da"
  by (auto simp: delta_base_byte_def Let_def split: if_splits prod.splits sum.splits)

lemma delta_decoded_bit_count:
  assumes d: "delta_decoded io byte stop da st = Inr (da', st')"
  shows "da_bit_count da' = da_bit_count da"
proof (cases "da_op da")
  case OpTag
  from d show ?thesis
    unfolding delta_decoded_def Let_def by (auto simp: OpTag split: if_splits)
next
  case (OpLen is_add val shift)
  from d show ?thesis
    unfolding delta_decoded_def Let_def by (auto simp: OpLen split: option.splits if_splits)
next
  case (OpSeek len val shift)
  from d show ?thesis
    unfolding delta_decoded_def Let_def by (clarsimp simp: OpSeek split: option.split_asm if_split_asm)
next
  case (OpAdd left)
  from d show ?thesis
    unfolding delta_decoded_def Let_def
    by (auto simp: OpAdd split: sum.splits dest!: delta_emit_bit_count delta_base_byte_bit_count)
next
  case (OpInsert left)
  from d show ?thesis
    unfolding delta_decoded_def Let_def
    by (auto simp: OpInsert split: sum.splits dest!: delta_emit_bit_count)
qed

lemma delta_copy_bit_count:
  "delta_copy io distance n stop da st = Inr (da', st') \<Longrightarrow> da_bit_count da' = da_bit_count da"
proof (induction n arbitrary: da st)
  case 0
  then show ?case by simp
next
  case (Suc n)
  let ?byte = "da_window da ((da_window_pos da + LZSS_WINDOW - distance) mod LZSS_WINDOW)"
  obtain da1 st1 where "delta_decoded io ?byte stop da st = Inr (da1, st1)"
    and "delta_copy io distance n stop da1 st1 = Inr (da', st')"
    using Suc.prems by (auto simp: Let_def split: sum.splits)
  then show ?case using Suc.IH delta_decoded_bit_count by metis
qed

function delta_decode_items ::
  "('io, 'e) delta_io \<Rightarrow> nat \<Rightarrow> applier \<Rightarrow> 'io \<Rightarrow> ('e delta_error \<times> 'io) + applier \<times> 'io" where
  "delta_decode_items io block_end da st =
    (if da_bit_count da = 0 then Inr (da, st)
     else let literal = (da_bits da div 2 ^ (da_bit_count da - 1) mod 2 = 1);
              need = 1 + (if literal then 8 else LZSS_INDEX_BITS + LZSS_LENGTH_BITS)
          in if da_bit_count da < need then Inr (da, st)
             else let da1 = da\<lparr>da_bit_count := da_bit_count da - 1\<rparr> in
               if literal then
                 (case delta_take_bits 8 da1 of
                    (val, da2) \<Rightarrow>
                      (case delta_decoded io (word_of_nat val) block_end da2 st of
                         Inl e \<Rightarrow> Inl e
                       | Inr (da3, st3) \<Rightarrow> delta_decode_items io block_end da3 st3))
               else
                 (case delta_take_bits LZSS_INDEX_BITS da1 of
                    (index, da2) \<Rightarrow>
                      (case delta_take_bits LZSS_LENGTH_BITS da2 of
                         (extra, da3) \<Rightarrow>
                           (case delta_copy io (index + 1) (extra + LZSS_MIN_MATCH) block_end da3 st of
                              Inl e \<Rightarrow> Inl e
                            | Inr (da4, st4) \<Rightarrow> delta_decode_items io block_end da4 st4))))"
  by auto
termination
  by (relation "measure (\<lambda>(io, stop, da, st). da_bit_count da)")
    (auto simp: delta_take_bits_def Let_def delta_consts
      dest!: delta_decoded_bit_count delta_copy_bit_count split: if_splits)

declare delta_decode_items.simps [simp del]

text \<open>One iteration of \<open>push\<close>: the byte \<open>byte\<close> in the current stage.  A block that ends gives
  its checkpoint.\<close>

definition delta_byte ::
  "('io, 'e) delta_io \<Rightarrow> u8 \<Rightarrow> applier \<Rightarrow> 'io
     \<Rightarrow> ('e delta_error \<times> 'io) + checkpoint option \<times> applier \<times> 'io" where
  "delta_byte io byte da0 st =
    (let da = da0\<lparr>da_patch_offset := (da_patch_offset da0 + 1) mod 2 ^ 32\<rparr> in
     case da_stage da of
       Header have_ \<Rightarrow>
         (let da = da\<lparr>da_header := (da_header da)[have_ := byte]\<rparr>; header = da_header da in
          if have_ + 1 < DELTA_HEADER_LEN then Inr (None, da\<lparr>da_stage := Header (have_ + 1)\<rparr>, st)
          else let target = nat_of_le (slice 8 12 header) in
            if take 4 header \<noteq> DELTA_MAGIC \<or> header ! 4 \<noteq> DELTA_VERSION
               \<or> slice 5 8 header \<noteq> [0, 0, 0] \<or> target \<noteq> da_target_len da \<or> target = 0
            then Inl (DeltaMalformed, st)
            else Inr (None, da\<lparr>da_stage := BlockHeader 0\<rparr>, st))
     | BlockHeader have_ \<Rightarrow>
         (let da = da\<lparr>da_header := (da_header da)[have_ := byte]\<rparr>; header = da_header da in
          if have_ + 1 < DELTA_BLOCK_HEADER_LEN
          then Inr (None, da\<lparr>da_stage := BlockHeader (have_ + 1)\<rparr>, st)
          else let packed_left = delta_read_u32 (take 4 header);
                   base_offset = delta_read_u32 (slice 4 8 header) in
            if packed_left = 0 \<or> da_base_len da < base_offset then Inl (DeltaMalformed, st)
            else Inr (None,
              da\<lparr>da_cursor := base_offset, da_window := (\<lambda>_. 0), da_window_pos := 0, da_bits := 0,
                 da_bit_count := 0, da_op := OpTag,
                 da_stage := Body packed_left
                   (min (sat_add U32_MAX (da_output da) DELTA_BLOCK_OUT) (da_target_len da))\<rparr>, st))
     | Body packed_left0 block_end \<Rightarrow>
         (case delta_decode_items io block_end
                 (da\<lparr>da_bits := (da_bits da * 256) mod 2 ^ 32 + unat byte,
                     da_bit_count := da_bit_count da + 8\<rparr>) st of
            Inl e \<Rightarrow> Inl e
          | Inr (da1, st1) \<Rightarrow>
              (let packed_left = packed_left0 - 1 in
               if packed_left \<noteq> 0 then Inr (None, da1\<lparr>da_stage := Body packed_left block_end\<rparr>, st1)
               else if da_output da1 \<noteq> block_end \<or> da_op da1 \<noteq> OpTag \<or> 8 \<le> da_bit_count da1
               then Inl (DeltaMalformed, st1)
               else (case delta_flush io da1 st1 of
                       Inl e \<Rightarrow> Inl e
                     | Inr (da2, st2) \<Rightarrow>
                         Inr (Some \<lparr>cp_patch_offset = da_patch_offset da2, cp_output = da_output da2\<rparr>,
                           da2\<lparr>da_stage := (if da_output da2 = da_target_len da2 then Done
                                           else BlockHeader 0)\<rparr>, st2))))
     | Done \<Rightarrow> Inl (DeltaMalformed, st))"

fun delta_push_from ::
  "('io, 'e) delta_io \<Rightarrow> checkpoint option \<Rightarrow> bytes \<Rightarrow> applier \<Rightarrow> 'io
     \<Rightarrow> ('e delta_error \<times> 'io) + checkpoint option \<times> applier \<times> 'io" where
  "delta_push_from io ck [] da st = Inr (ck, da, st)"
| "delta_push_from io ck (byte # patch) da st =
    (case delta_byte io byte da st of
       Inl e \<Rightarrow> Inl e
     | Inr (ck', da', st') \<Rightarrow>
         delta_push_from io (case ck' of None \<Rightarrow> ck | Some c \<Rightarrow> Some c) patch da' st')"

definition delta_push ::
  "('io, 'e) delta_io \<Rightarrow> bytes \<Rightarrow> applier \<Rightarrow> 'io
     \<Rightarrow> ('e delta_error \<times> 'io) + checkpoint option \<times> applier \<times> 'io" where
  "delta_push io patch da st = delta_push_from io None patch da st"

text \<open>An adapter over a base image in memory: reads slice the image, writes append.
  A read past the end, which panics in the source, is an error here; \<open>delta_io_discipline\<close>
  shows that the applier never asks for one.\<close>

definition vec_io :: "bytes \<Rightarrow> (bytes, unit) delta_io" where
  "vec_io base =
    \<lparr>io_read_base = (\<lambda>out offset len.
        if offset + len \<le> length base then (Inr (slice offset (offset + len) base), out) else (Inl (), out)),
     io_write = (\<lambda>out bs. (Inr (), out @ bs))\<rparr>"

section \<open>Feeding a patch in pieces\<close>

lemma delta_push_from_append:
  "delta_push_from io ck (a @ b) da st =
    (case delta_push_from io ck a da st of
       Inl e \<Rightarrow> Inl e
     | Inr (ck', da', st') \<Rightarrow> delta_push_from io ck' b da' st')"
  by (induction a arbitrary: ck da st) (auto split: sum.split)

lemma delta_push_from_checkpoint:
  "delta_push_from io ck bs da st =
    (case delta_push_from io None bs da st of
       Inl e \<Rightarrow> Inl e
     | Inr (ck', da', st') \<Rightarrow> Inr ((case ck' of None \<Rightarrow> ck | Some c \<Rightarrow> Some c), da', st'))"
proof (induction bs arbitrary: ck da st)
  case Nil
  then show ?case by simp
next
  case (Cons b bs)
  show ?case
  proof (cases "delta_byte io b da st")
    case (Inl e)
    then show ?thesis by simp
  next
    case (Inr r)
    obtain c da' st' where r: "r = (c, da', st')" by (cases r)
    show ?thesis
      using Cons.IH [of "case c of None \<Rightarrow> ck | Some c \<Rightarrow> Some c" da' st']
        Cons.IH [of "case c of None \<Rightarrow> None | Some c \<Rightarrow> Some c" da' st'] Inr r
      by (auto split: sum.split option.split)
  qed
qed

lemma delta_push_append:
  "delta_push io (a @ b) da st =
    (case delta_push io a da st of
       Inl e \<Rightarrow> Inl e
     | Inr (ck, da', st') \<Rightarrow>
         (case delta_push io b da' st' of
            Inl e \<Rightarrow> Inl e
          | Inr (ck', da'', st'') \<Rightarrow> Inr ((case ck' of None \<Rightarrow> ck | Some c \<Rightarrow> Some c), da'', st'')))"
proof (cases "delta_push_from io None a da st")
  case (Inr r)
  obtain ck da1 st1 where "r = (ck, da1, st1)" by (cases r)
  with Inr show ?thesis
    using delta_push_from_checkpoint [of io ck b da1 st1]
    by (simp add: delta_push_def delta_push_from_append)
qed (simp add: delta_push_def delta_push_from_append)

end
