(* ===== verification/Delta_Create.thy ===== *)
theory Delta_Create
  imports Delta
begin

text \<open>
  Patch creation, \<open>crates/rsnode-update/src/delta/create.rs\<close>: matches between the images found
  through a hash chain over the base, stretched over differences, cut at block boundaries,
  encoded as operations and packed by an LZSS coder with one step of lookahead.  The hash heads
  and links, vectors filled with \<open>u32::MAX\<close> or \<open>usize::MAX\<close> in the source, are functions into
  \<open>nat option\<close> with None for that filler.  Casts to \<open>u32\<close> are \<open>as_u32\<close>.  Plain additions and
  multiplications of \<open>u32\<close> values in \<open>split_at_blocks\<close> are those of natural numbers: the
  function's documentation asks for inputs whose rounded block boundaries fit 32 bits.
\<close>

section \<open>Constants and operations\<close>

definition SEED :: nat where "SEED = 8"
definition HASH_BITS :: nat where "HASH_BITS = 22"
definition CHAIN_DEPTH :: nat where "CHAIN_DEPTH = 48"
definition SEED_MIN :: nat where "SEED_MIN = 12"
definition STRETCH_SLACK :: int where "STRETCH_SLACK = 48"
definition LZSS_CHAIN_DEPTH :: nat where "LZSS_CHAIN_DEPTH = 64"

datatype create_op =
    CAdd (c_base_at: nat) (c_target_at: nat) (c_len: nat)
  | CInsert (c_target_at: nat) (c_len: nat)

definition as_u32 :: "nat \<Rightarrow> nat" where
  "as_u32 n = n mod 2 ^ 32"

section \<open>Finding matches\<close>

definition seed_hash :: "bytes \<Rightarrow> nat" where
  "seed_hash bs = (nat_of_le (take SEED bs) * 0x9E3779B97F4A7C15) mod 2 ^ 64 div 2 ^ (64 - HASH_BITS)"

fun common_prefix :: "bytes \<Rightarrow> bytes \<Rightarrow> nat" where
  "common_prefix (x # xs) (y # ys) = (if x = y then Suc (common_prefix xs ys) else 0)"
| "common_prefix _ _ = 0"

definition exact_len :: "bytes \<Rightarrow> bytes \<Rightarrow> nat \<Rightarrow> nat \<Rightarrow> nat" where
  "exact_len base target base_at target_at = common_prefix (drop base_at base) (drop target_at target)"

text \<open>The loop that both stretches share, over the bytes ahead (or, reversed, behind).\<close>

fun stretch_loop :: "bytes \<Rightarrow> bytes \<Rightarrow> nat \<Rightarrow> int \<Rightarrow> int \<Rightarrow> nat \<Rightarrow> nat" where
  "stretch_loop (x # xs) (y # ys) index score0 best best_len =
    (let score = score0 + (if x = y then 1 else - 1) in
     if best < score then stretch_loop xs ys (index + 1) score score (index + 1)
     else if STRETCH_SLACK < best - score then best_len
     else stretch_loop xs ys (index + 1) score best best_len)"
| "stretch_loop _ _ index score best best_len = best_len"

definition stretch_forward :: "bytes \<Rightarrow> bytes \<Rightarrow> nat \<Rightarrow> nat \<Rightarrow> nat" where
  "stretch_forward base target base_at target_at =
    stretch_loop (drop base_at base) (drop target_at target) 0 0 0 0"

definition stretch_backward :: "bytes \<Rightarrow> bytes \<Rightarrow> nat \<Rightarrow> nat \<Rightarrow> nat \<Rightarrow> nat" where
  "stretch_backward base target base_at target_at room =
    stretch_loop (take (min room base_at) (rev (take base_at base))) (rev (take target_at target)) 0 0 0 0"

type_synonym chains = "(nat \<Rightarrow> nat option) \<times> (nat \<Rightarrow> nat option)"

definition seed_insert :: "bytes \<Rightarrow> nat \<Rightarrow> chains \<Rightarrow> chains" where
  "seed_insert base position hp =
    (let hash = seed_hash (drop position base) in
     ((fst hp)(hash := Some (as_u32 position)), (snd hp)(position := fst hp hash)))"

definition seed_index :: "bytes \<Rightarrow> chains" where
  "seed_index base = fold (seed_insert base) [0 ..< length base - (SEED - 1)] (\<lambda>_. None, \<lambda>_. None)"

fun seed_search ::
  "bytes \<Rightarrow> bytes \<Rightarrow> (nat \<Rightarrow> nat option) \<Rightarrow> nat \<Rightarrow> nat \<Rightarrow> nat option \<Rightarrow> (nat \<times> nat) option \<Rightarrow> (nat \<times> nat) option"
  where
  "seed_search base target prev target_at 0 candidate best = best"
| "seed_search base target prev target_at (Suc n) candidate best =
    (case candidate of
       None \<Rightarrow> best
     | Some base_at \<Rightarrow>
         let len = exact_len base target base_at target_at;
             best' = (if SEED_MIN \<le> len \<and> (case best of None \<Rightarrow> True | Some (_, best_len) \<Rightarrow> best_len < len)
                      then Some (base_at, len) else best)
         in seed_search base target prev target_at n (prev base_at) best')"

definition best_match :: "bytes \<Rightarrow> bytes \<Rightarrow> chains \<Rightarrow> nat option \<Rightarrow> nat \<Rightarrow> (nat \<times> nat) option" where
  "best_match base target hp continuation target_at =
    (let first = (case continuation of
                    None \<Rightarrow> None
                  | Some base_at \<Rightarrow>
                      if base_at < length base \<and> SEED \<le> exact_len base target base_at target_at
                      then Some (base_at, exact_len base target base_at target_at) else None)
     in seed_search base target (snd hp) target_at CHAIN_DEPTH
          (fst hp (seed_hash (drop target_at target))) first)"

text \<open>The \<open>while\<close> loop of \<open>find_ops\<close>; \<open>ops\<close> grows at its end.\<close>

function find_loop ::
  "bytes \<Rightarrow> bytes \<Rightarrow> chains \<Rightarrow> nat \<Rightarrow> nat \<Rightarrow> nat option \<Rightarrow> create_op list \<Rightarrow> nat \<times> create_op list" where
  "find_loop base target hp target_at literal_from continuation ops =
    (if target_at + SEED \<le> length target then
       (case best_match base target hp continuation target_at of
          None \<Rightarrow> find_loop base target hp (target_at + 1) literal_from continuation ops
        | Some (base_at, _) \<Rightarrow>
            let back = stretch_backward base target base_at target_at (target_at - literal_from);
                forward = max (stretch_forward base target base_at target_at) 1;
                start_base = base_at - back;
                start_target = target_at - back;
                literal = (if literal_from < start_target
                           then [CInsert (as_u32 literal_from) (as_u32 (start_target - literal_from))] else []);
                match = [CAdd (as_u32 start_base) (as_u32 start_target) (as_u32 (back + forward))]
            in find_loop base target hp (target_at + forward) (target_at + forward)
                 (Some (base_at + forward)) (ops @ literal @ match))
     else (literal_from, ops))"
  by auto
termination
  by (relation "measure (\<lambda>(base, target, hp, target_at, literal_from, continuation, ops). length target - target_at)")
    (auto simp: SEED_def)

definition find_ops :: "bytes \<Rightarrow> bytes \<Rightarrow> create_op list" where
  "find_ops base target =
    (case find_loop base target (seed_index base) 0 0 None [] of
       (literal_from, ops) \<Rightarrow>
         if literal_from < length target
         then ops @ [CInsert (as_u32 literal_from) (as_u32 (length target - literal_from))]
         else ops)"

section \<open>Blocks\<close>

definition block_boundary :: "nat \<Rightarrow> nat" where
  "block_boundary start = (start div DELTA_BLOCK_OUT + 1) * DELTA_BLOCK_OUT"

lemma block_boundary_gt: "start < block_boundary start"
  using dividend_less_div_times [of DELTA_BLOCK_OUT start]
  by (simp add: block_boundary_def DELTA_BLOCK_OUT_def)

function split_op :: "create_op \<Rightarrow> create_op list" where
  "split_op op =
    (let boundary = block_boundary (c_target_at op); head = boundary - c_target_at op in
     if c_target_at op + c_len op \<le> boundary then [op]
     else (case op of
             CAdd base_at target_at len \<Rightarrow>
               CAdd base_at target_at head # split_op (CAdd (base_at + head) (target_at + head) (len - head))
           | CInsert target_at len \<Rightarrow>
               CInsert target_at head # split_op (CInsert (target_at + head) (len - head))))"
  by auto
termination
proof (relation "measure c_len")
  show "wf (measure c_len)" by simp
next
  fix op boundary head base_at target_at len
  assume "boundary = block_boundary (c_target_at op)" "head = boundary - c_target_at op"
    "\<not> c_target_at op + c_len op \<le> boundary" "op = CAdd base_at target_at len"
  then show "(CAdd (base_at + head) (target_at + head) (len - head), op) \<in> measure c_len"
    using block_boundary_gt [of target_at] by auto
next
  fix op boundary head target_at len
  assume "boundary = block_boundary (c_target_at op)" "head = boundary - c_target_at op"
    "\<not> c_target_at op + c_len op \<le> boundary" "op = CInsert target_at len"
  then show "(CInsert (target_at + head) (len - head), op) \<in> measure c_len"
    using block_boundary_gt [of target_at] by auto
qed

declare find_loop.simps [simp del] split_op.simps [simp del]

definition split_at_blocks :: "create_op list \<Rightarrow> create_op list" where
  "split_at_blocks ops = concat (map split_op ops)"

section \<open>Encoding operations\<close>

fun leb128_bytes :: "nat \<Rightarrow> bytes" where
  "leb128_bytes val =
    (if 0x80 \<le> val then (word_of_nat val OR 0x80) # leb128_bytes (val div 128) else [word_of_nat val])"

declare leb128_bytes.simps [simp del]

text \<open>\<open>((seek << 1) ^ (seek >> 63)) as u64\<close> on an \<open>i64\<close>.\<close>

definition zigzag_encode :: "int \<Rightarrow> nat" where
  "zigzag_encode seek = nat ((2 * seek) XOR (seek div 2 ^ 63))"

fun first_add :: "create_op list \<Rightarrow> nat option" where
  "first_add [] = None"
| "first_add (CAdd base_at target_at len # ops) = Some base_at"
| "first_add (CInsert target_at len # ops) = first_add ops"

definition op_start :: "create_op list \<Rightarrow> nat" where
  "op_start ops = (case first_add ops of None \<Rightarrow> 0 | Some base_at \<Rightarrow> base_at)"

fun op_stream :: "bytes \<Rightarrow> bytes \<Rightarrow> int \<Rightarrow> create_op list \<Rightarrow> bytes" where
  "op_stream base target cursor [] = []"
| "op_stream base target cursor (CAdd base_at target_at len # ops) =
    [OP_ADD] @ leb128_bytes len @ leb128_bytes (zigzag_encode (int base_at - cursor))
      @ map (\<lambda>index. target ! (target_at + index) - base ! (base_at + index)) [0 ..< len]
      @ op_stream base target (int (base_at + len)) ops"
| "op_stream base target cursor (CInsert target_at len # ops) =
    [OP_INSERT] @ leb128_bytes len @ slice target_at (target_at + len) target
      @ op_stream base target cursor ops"

definition encode_ops :: "bytes \<Rightarrow> bytes \<Rightarrow> create_op list \<Rightarrow> nat \<times> bytes" where
  "encode_ops base target ops = (op_start ops, op_stream base target (int (op_start ops)) ops)"

section \<open>Packing\<close>

record bit_writer =
  bw_bytes :: bytes
  bw_acc :: nat
  bw_count :: nat

text \<open>The \<open>while\<close> loop of \<open>put\<close>.\<close>

function bw_drain :: "bit_writer \<Rightarrow> bit_writer" where
  "bw_drain w =
    (if 8 \<le> bw_count w
     then bw_drain (w\<lparr>bw_count := bw_count w - 8,
                      bw_bytes := bw_bytes w @ [word_of_nat (bw_acc w div 2 ^ (bw_count w - 8))]\<rparr>)
     else w)"
  by auto
termination by (relation "measure bw_count") auto

declare bw_drain.simps [simp del]

definition bw_put :: "nat \<Rightarrow> nat \<Rightarrow> bit_writer \<Rightarrow> bit_writer" where
  "bw_put val count w =
    bw_drain (w\<lparr>bw_acc := (bw_acc w * 2 ^ count) mod 2 ^ 64 OR val, bw_count := bw_count w + count\<rparr>)"

definition bw_finish :: "bit_writer \<Rightarrow> bytes" where
  "bw_finish w = (if 0 < bw_count w then bw_bytes (bw_put 0 (8 - bw_count w) w) else bw_bytes w)"

definition lz_hash :: "bytes \<Rightarrow> nat \<Rightarrow> nat" where
  "lz_hash input at =
    (let val = unat (input ! at) + 256 * unat (input ! (at + 1)) + 65536 * unat (input ! (at + 2)) in
     (val * 0x9E3779B1) mod 2 ^ 32 div 2 ^ 18 mod 2 ^ 14)"

definition lz_insert :: "bytes \<Rightarrow> nat \<Rightarrow> chains \<Rightarrow> chains" where
  "lz_insert input at hp =
    (if at + LZSS_MIN_MATCH \<le> length input
     then ((fst hp)(lz_hash input at := Some at), (snd hp)(at := fst hp (lz_hash input at)))
     else hp)"

fun lz_search :: "bytes \<Rightarrow> (nat \<Rightarrow> nat option) \<Rightarrow> nat \<Rightarrow> nat \<Rightarrow> nat option \<Rightarrow> nat \<times> nat \<Rightarrow> nat \<times> nat" where
  "lz_search input prev at 0 candidate best = best"
| "lz_search input prev at (Suc n) candidate best =
    (case candidate of
       None \<Rightarrow> best
     | Some c \<Rightarrow>
         if LZSS_WINDOW < at - c then best
         else let len = common_prefix (take LZSS_MAX_MATCH (drop c input)) (take LZSS_MAX_MATCH (drop at input)) in
           if fst best < len then
             (if len = LZSS_MAX_MATCH then (len, at - c)
              else lz_search input prev at n (prev c) (len, at - c))
           else lz_search input prev at n (prev c) best)"

definition lz_longest :: "bytes \<Rightarrow> nat \<Rightarrow> chains \<Rightarrow> nat \<times> nat" where
  "lz_longest input at hp =
    (if length input < at + LZSS_MIN_MATCH then (0, 0)
     else lz_search input (snd hp) at LZSS_CHAIN_DEPTH (fst hp (lz_hash input at)) (0, 0))"

definition in_lookahead :: "nat \<Rightarrow> bool" where
  "in_lookahead len \<longleftrightarrow> LZSS_MIN_MATCH \<le> len \<and> len < LZSS_MAX_MATCH"

function lz_loop :: "bytes \<Rightarrow> nat \<Rightarrow> chains \<Rightarrow> bit_writer \<Rightarrow> bit_writer" where
  "lz_loop input at hp w =
    (if at < length input then
       (let (len, distance) = lz_longest input at hp;
            hp1 = (if in_lookahead len then lz_insert input at hp else hp);
            lazier = (in_lookahead len \<and> len + 1 < fst (lz_longest input (at + 1) hp1))
        in if LZSS_MIN_MATCH \<le> len \<and> \<not> lazier then
             (let w' = bw_put (len - LZSS_MIN_MATCH) LZSS_LENGTH_BITS
                         (bw_put (distance - 1) LZSS_INDEX_BITS (bw_put 0 1 w));
                  hp2 = (if in_lookahead len then hp1 else lz_insert input at hp1);
                  hp3 = fold (lz_insert input) [at + 1 ..< at + len] hp2
              in lz_loop input (at + len) hp3 w')
           else
             (let w' = bw_put (unat (input ! at)) 8 (bw_put 1 1 w);
                  hp2 = (if len < LZSS_MIN_MATCH then lz_insert input at hp1 else hp1)
              in lz_loop input (at + 1) hp2 w'))
     else w)"
  by auto
termination
  by (relation "measure (\<lambda>(input, at, hp, w). length input - at)") (auto simp: LZSS_MIN_MATCH_def)

declare lz_loop.simps [simp del]

definition lzss :: "bytes \<Rightarrow> bytes" where
  "lzss input = bw_finish (lz_loop input 0 (\<lambda>_. None, \<lambda>_. None) \<lparr>bw_bytes = [], bw_acc = 0, bw_count = 0\<rparr>)"

section \<open>Patches\<close>

definition block_of :: "create_op \<Rightarrow> nat" where
  "block_of op = c_target_at op div DELTA_BLOCK_OUT"

definition block_bytes :: "bytes \<Rightarrow> bytes \<Rightarrow> create_op list \<Rightarrow> bytes" where
  "block_bytes base target ops =
    (let (base_offset, stream) = encode_ops base target ops; packed = lzss stream in
     le_of_nat 4 (length packed) @ le_of_nat 4 base_offset @ packed)"

function create_blocks :: "bytes \<Rightarrow> bytes \<Rightarrow> create_op list \<Rightarrow> bytes" where
  "create_blocks base target [] = []"
| "create_blocks base target (op # ops) =
    block_bytes base target (op # takeWhile (\<lambda>x. block_of x = block_of op) ops)
      @ create_blocks base target (dropWhile (\<lambda>x. block_of x = block_of op) ops)"
  by pat_completeness auto
termination
  by (relation "measure (\<lambda>(base, target, ops). length ops)") (auto simp: le_imp_less_Suc length_dropWhile_le)

definition delta_create :: "bytes \<Rightarrow> bytes \<Rightarrow> bytes" where
  "delta_create base target =
    DELTA_MAGIC @ [DELTA_VERSION, 0, 0, 0] @ le_of_nat 4 (length target)
      @ create_blocks base target (split_at_blocks (find_ops base target))"

end
