(* ===== verification/Delta_Tiling.thy ===== *)
theory Delta_Tiling
  imports Delta_Create
begin

text \<open>
  The operations that \<open>find_ops\<close> and \<open>split_at_blocks\<close> produce cover the target exactly, in
  order and without overlap, stay inside the base, and after the split never cross a block
  boundary.
\<close>

section \<open>Tilings\<close>

fun op_fits :: "bytes \<Rightarrow> create_op \<Rightarrow> bool" where
  "op_fits base (CAdd base_at target_at len) \<longleftrightarrow> 0 < len \<and> base_at + len \<le> length base"
| "op_fits base (CInsert target_at len) \<longleftrightarrow> 0 < len"

fun tiles :: "bytes \<Rightarrow> nat \<Rightarrow> create_op list \<Rightarrow> nat \<Rightarrow> bool" where
  "tiles base a [] z \<longleftrightarrow> a = z"
| "tiles base a (op # ops) z \<longleftrightarrow> c_target_at op = a \<and> op_fits base op \<and> tiles base (a + c_len op) ops z"

lemma tiles_append: "tiles base a (xs @ ys) z \<longleftrightarrow> (\<exists>m. tiles base a xs m \<and> tiles base m ys z)"
  by (induction xs arbitrary: a) auto

lemma op_fits_pos: "op_fits base op \<Longrightarrow> 0 < c_len op"
  by (cases op) auto

lemma tiles_le: "tiles base a ops z \<Longrightarrow> a \<le> z"
  by (induction ops arbitrary: a) (fastforce simp: add_leD1)+

lemma tiles_length: "tiles base a ops z \<Longrightarrow> length ops + a \<le> z"
proof (induction ops arbitrary: a)
  case (Cons op ops)
  then have "length ops + (a + c_len op) \<le> z" "0 < c_len op" by (auto dest: op_fits_pos)
  then show ?case by simp
qed simp

lemma tiles_snoc:
  "tiles base a ops m \<Longrightarrow> c_target_at op = m \<Longrightarrow> op_fits base op \<Longrightarrow> z = m + c_len op \<Longrightarrow>
   tiles base a (ops @ [op]) z"
  by (auto simp: tiles_append)

section \<open>Matches\<close>

lemma common_prefix_le: "common_prefix xs ys \<le> min (length xs) (length ys)"
  by (induction xs ys rule: common_prefix.induct) auto

lemma common_prefix_nth: "i < common_prefix xs ys \<Longrightarrow> xs ! i = ys ! i"
  by (induction xs ys arbitrary: i rule: common_prefix.induct)
    (auto simp: nth_Cons split: if_splits nat.splits)

lemma stretch_loop_le:
  "best_len \<le> index \<Longrightarrow> stretch_loop xs ys index score best best_len \<le> index + min (length xs) (length ys)"
proof (induction xs arbitrary: ys index score best best_len)
  case Nil
  then show ?case by simp
next
  case (Cons x xs)
  show ?case
  proof (cases ys)
    case ys: (Cons y ys')
    define score' where "score' = score + (if x = y then 1 else - 1)"
    have step: "stretch_loop (x # xs) ys index score best best_len =
        (if best < score' then stretch_loop xs ys' (index + 1) score' score' (index + 1)
         else if STRETCH_SLACK < best - score' then best_len
         else stretch_loop xs ys' (index + 1) score' best best_len)"
      by (simp add: ys score'_def Let_def)
    have "stretch_loop xs ys' (index + 1) score' score' (index + 1) \<le> index + 1 + min (length xs) (length ys')"
      "stretch_loop xs ys' (index + 1) score' best best_len \<le> index + 1 + min (length xs) (length ys')"
      using Cons.prems by (intro Cons.IH; simp)+
    then show ?thesis unfolding step using Cons.prems ys by auto
  qed (use Cons.prems in simp)
qed

lemma stretch_forward_le:
  "base_at \<le> length base \<Longrightarrow> target_at \<le> length target \<Longrightarrow>
   base_at + stretch_forward base target base_at target_at \<le> length base
   \<and> target_at + stretch_forward base target base_at target_at \<le> length target"
  using stretch_loop_le [of 0 0 "drop base_at base" "drop target_at target" 0 0]
  by (auto simp: stretch_forward_def)

lemma stretch_backward_le: "stretch_backward base target base_at target_at room \<le> min room base_at"
  using stretch_loop_le [of 0 0 "take (min room base_at) (rev (take base_at base))" "rev (take target_at target)" 0 0]
  by (simp add: stretch_backward_def)

text \<open>Every match the search returns is exact for at least a seed.\<close>

definition match_ok :: "bytes \<Rightarrow> bytes \<Rightarrow> nat \<Rightarrow> (nat \<times> nat) option \<Rightarrow> bool" where
  "match_ok base target target_at best \<longleftrightarrow>
    (\<forall>base_at len. best = Some (base_at, len) \<longrightarrow> SEED \<le> exact_len base target base_at target_at)"

lemma seed_search_ok:
  "match_ok base target target_at best \<Longrightarrow>
   match_ok base target target_at (seed_search base target prev target_at n candidate best)"
proof (induction n arbitrary: candidate best)
  case (Suc n)
  show ?case
  proof (cases candidate)
    case (Some base_at)
    let ?len = "exact_len base target base_at target_at"
    have "match_ok base target target_at
        (if SEED_MIN \<le> ?len \<and> (case best of None \<Rightarrow> True | Some (_, best_len) \<Rightarrow> best_len < ?len)
         then Some (base_at, ?len) else best)"
      using Suc.prems by (simp add: match_ok_def SEED_MIN_def SEED_def)
    from Suc.IH [OF this] show ?thesis by (simp add: Some Let_def)
  qed (use Suc.prems in simp)
qed simp

lemma best_match_ok:
  assumes "best_match base target hp continuation target_at = Some (base_at, len)"
  shows "base_at < length base" and "target_at < length target"
proof -
  have "match_ok base target target_at (best_match base target hp continuation target_at)"
    unfolding best_match_def Let_def
    by (rule seed_search_ok) (auto simp: match_ok_def split: option.splits)
  then have "SEED \<le> exact_len base target base_at target_at" using assms by (simp add: match_ok_def)
  then have "0 < common_prefix (drop base_at base) (drop target_at target)"
    by (simp add: exact_len_def SEED_def)
  then show "base_at < length base" "target_at < length target"
    using common_prefix_le [of "drop base_at base" "drop target_at target"] by auto
qed

section \<open>The search covers the target\<close>

lemma as_u32_less: "n < 2 ^ 32 \<Longrightarrow> as_u32 n = n"
  by (simp add: as_u32_def)

text \<open>One round of the search appends a literal run and a match that continue the tiling.\<close>

lemma match_tiles:
  assumes base: "length base < 2 ^ 32" and target: "length target < 2 ^ 32"
    and tiles: "tiles base 0 ops literal_from" and le: "literal_from \<le> target_at"
    and found: "base_at < length base" "target_at < length target"
    and behind: "behind \<le> target_at - literal_from" "behind \<le> base_at"
    and forward: "1 \<le> forward" "base_at + forward \<le> length base" "target_at + forward \<le> length target"
  shows "tiles base 0
    (ops @ (if literal_from < target_at - behind
            then [CInsert (as_u32 literal_from) (as_u32 (target_at - behind - literal_from))] else [])
         @ [CAdd (as_u32 (base_at - behind)) (as_u32 (target_at - behind)) (as_u32 (behind + forward))])
    (target_at + forward)"
proof -
  have casts: "as_u32 literal_from = literal_from" "as_u32 (target_at - behind) = target_at - behind"
    "as_u32 (target_at - behind - literal_from) = target_at - behind - literal_from"
    "as_u32 (base_at - behind) = base_at - behind" "as_u32 (behind + forward) = behind + forward"
    using base target found behind forward le by (auto intro!: as_u32_less)
  show ?thesis
  proof (cases "literal_from < target_at - behind")
    case True
    have "tiles base 0 (ops @ [CInsert literal_from (target_at - behind - literal_from)]) (target_at - behind)"
      using True by (intro tiles_snoc [OF tiles]) auto
    then have "tiles base 0 ((ops @ [CInsert literal_from (target_at - behind - literal_from)])
        @ [CAdd (base_at - behind) (target_at - behind) (behind + forward)]) (target_at + forward)"
      by (rule tiles_snoc) (use behind forward le in auto)
    then show ?thesis unfolding casts using True by simp
  next
    case False
    then have "literal_from = target_at - behind" using behind le by linarith
    with tiles have "tiles base 0 (ops @ [CAdd (base_at - behind) (target_at - behind) (behind + forward)]) (target_at + forward)"
      by (intro tiles_snoc [of base 0 ops "target_at - behind"]) (use behind forward le in auto)
    then show ?thesis using False by (simp add: casts)
  qed
qed

lemma find_loop_tiles:
  assumes base: "length base < 2 ^ 32" and target: "length target < 2 ^ 32"
  shows "find_loop base target hp target_at literal_from continuation ops = (lf, ops') \<Longrightarrow>
    literal_from \<le> target_at \<Longrightarrow> target_at \<le> length target \<Longrightarrow> tiles base 0 ops literal_from \<Longrightarrow>
    tiles base 0 ops' lf \<and> lf \<le> length target"
proof (induction "length target - target_at" arbitrary: target_at literal_from continuation ops rule: less_induct)
  case less
  show ?case
  proof (cases "target_at + SEED \<le> length target")
    case False
    then show ?thesis using less.prems by (simp add: find_loop.simps [of base target hp target_at])
  next
    case True
    then have room: "target_at < length target" by (simp add: SEED_def)
    show ?thesis
    proof (cases "best_match base target hp continuation target_at")
      case None
      then have "find_loop base target hp (target_at + 1) literal_from continuation ops = (lf, ops')"
        using less.prems(1) True by (simp add: find_loop.simps [of base target hp target_at])
      from less.hyps [OF _ this] show ?thesis using less.prems room by simp
    next
      case (Some m)
      obtain base_at len where m: "m = (base_at, len)" by (cases m)
      define behind where "behind = stretch_backward base target base_at target_at (target_at - literal_from)"
      define forward where "forward = max (stretch_forward base target base_at target_at) 1"
      let ?ops = "ops @ (if literal_from < target_at - behind
            then [CInsert (as_u32 literal_from) (as_u32 (target_at - behind - literal_from))] else [])
         @ [CAdd (as_u32 (base_at - behind)) (as_u32 (target_at - behind)) (as_u32 (behind + forward))]"
      have "find_loop base target hp target_at literal_from continuation ops =
          find_loop base target hp (target_at + forward) (target_at + forward) (Some (base_at + forward)) ?ops"
        by (subst find_loop.simps)
          (simp add: True Some m Let_def behind_def [symmetric] forward_def [symmetric] del: One_nat_def)
      then have next': "find_loop base target hp (target_at + forward) (target_at + forward)
          (Some (base_at + forward)) ?ops = (lf, ops')"
        using less.prems(1) by simp
      note found = best_match_ok [OF Some [unfolded m]]
      have behind: "behind \<le> target_at - literal_from" "behind \<le> base_at"
        using stretch_backward_le [of base target base_at target_at "target_at - literal_from"]
        by (simp_all add: behind_def)
      have forward: "1 \<le> forward" "base_at + forward \<le> length base" "target_at + forward \<le> length target"
        using stretch_forward_le [of base_at base target_at target] found by (auto simp: forward_def)
      have "tiles base 0 ?ops (target_at + forward)"
        by (rule match_tiles [OF base target less.prems(4,2) found behind forward])
      from less.hyps [OF _ next' order_refl forward(3) this] show ?thesis
        using forward(1) room by simp
    qed
  qed
qed

lemma find_ops_tiles:
  assumes "length base < 2 ^ 32" and "length target < 2 ^ 32"
  shows "tiles base 0 (find_ops base target) (length target)"
proof -
  obtain lf ops where run: "find_loop base target (seed_index base) 0 0 None [] = (lf, ops)"
    by (cases "find_loop base target (seed_index base) 0 0 None []")
  from find_loop_tiles [OF assms run] have t: "tiles base 0 ops lf" "lf \<le> length target" by simp_all
  show ?thesis
  proof (cases "lf < length target")
    case True
    have "tiles base 0 (ops @ [CInsert lf (length target - lf)]) (length target)"
      using True by (intro tiles_snoc [OF t(1)]) auto
    then show ?thesis using True assms(2) by (simp add: find_ops_def run as_u32_less)
  next
    case False
    then show ?thesis using t by (simp add: find_ops_def run)
  qed
qed

section \<open>Blocks\<close>

definition in_block :: "create_op \<Rightarrow> bool" where
  "in_block op \<longleftrightarrow> c_target_at op + c_len op \<le> block_boundary (c_target_at op)"

lemma split_op_tiles:
  "op_fits base op \<Longrightarrow>
   tiles base (c_target_at op) (split_op op) (c_target_at op + c_len op) \<and> list_all in_block (split_op op)"
proof (induction op rule: split_op.induct)
  case (1 op)
  let ?B = "block_boundary (c_target_at op)"
  let ?head = "?B - c_target_at op"
  have gt: "c_target_at op < ?B" by (rule block_boundary_gt)
  show ?case
  proof (cases "c_target_at op + c_len op \<le> ?B")
    case True
    then show ?thesis using "1.prems" by (simp add: split_op.simps [of op] in_block_def)
  next
    case False
    show ?thesis
    proof (cases op)
      case (CAdd base_at target_at len)
      let ?rest = "CAdd (base_at + ?head) (target_at + ?head) (len - ?head)"
      have split: "split_op op = CAdd base_at target_at ?head # split_op ?rest"
        using False CAdd by (subst split_op.simps) (simp add: Let_def)
      have head: "in_block (CAdd base_at target_at ?head)" using CAdd gt by (simp add: in_block_def)
      have "op_fits base ?rest" using "1.prems" False gt CAdd by auto
      then have "tiles base (target_at + ?head) (split_op ?rest) (target_at + len) \<and> list_all in_block (split_op ?rest)"
        using "1.IH"(1) [OF refl refl False CAdd] False CAdd by simp
      then show ?thesis
        unfolding split using "1.prems" False gt CAdd head by auto
    next
      case (CInsert target_at len)
      let ?rest = "CInsert (target_at + ?head) (len - ?head)"
      have split: "split_op op = CInsert target_at ?head # split_op ?rest"
        using False CInsert by (subst split_op.simps) (simp add: Let_def)
      have head: "in_block (CInsert target_at ?head)" using CInsert gt by (simp add: in_block_def)
      have "op_fits base ?rest" using False gt CInsert by auto
      then have "tiles base (target_at + ?head) (split_op ?rest) (target_at + len) \<and> list_all in_block (split_op ?rest)"
        using "1.IH"(2) [OF refl refl False CInsert] False CInsert by simp
      then show ?thesis
        unfolding split using False gt CInsert head by auto
    qed
  qed
qed

lemma split_at_blocks_tiles:
  "tiles base a ops z \<Longrightarrow> tiles base a (split_at_blocks ops) z \<and> list_all in_block (split_at_blocks ops)"
proof (induction ops arbitrary: a)
  case Nil
  then show ?case by (simp add: split_at_blocks_def)
next
  case (Cons op ops)
  then have "tiles base a (split_op op) (a + c_len op)" "list_all in_block (split_op op)"
    "tiles base (a + c_len op) (split_at_blocks ops) z" "list_all in_block (split_at_blocks ops)"
    using split_op_tiles [of base op] by auto
  then show ?case by (auto simp: split_at_blocks_def tiles_append)
qed

text \<open>The operations of one block end at its boundary, or at the end of the target.\<close>

lemma block_prefix_tiles:
  assumes "tiles base a ops z" and "list_all in_block ops" and "ops \<noteq> []"
    and "k * DELTA_BLOCK_OUT \<le> a" and "a < (k + 1) * DELTA_BLOCK_OUT"
  shows "tiles base a (takeWhile (\<lambda>x. block_of x = k) ops) (min ((k + 1) * DELTA_BLOCK_OUT) z)
    \<and> tiles base (min ((k + 1) * DELTA_BLOCK_OUT) z) (dropWhile (\<lambda>x. block_of x = k) ops) z"
  using assms
proof (induction ops arbitrary: a)
  case Nil
  then show ?case by simp
next
  case (Cons op ops)
  let ?stop = "(k + 1) * DELTA_BLOCK_OUT"
  have B: "0 < DELTA_BLOCK_OUT" by (simp add: DELTA_BLOCK_OUT_def)
  have op: "c_target_at op = a" "op_fits base op" "tiles base (a + c_len op) ops z" "in_block op"
    "list_all in_block ops" using Cons.prems by auto
  have k: "a div DELTA_BLOCK_OUT = k"
    using Cons.prems(4,5) B by (intro div_nat_eqI) (simp_all add: mult.commute)
  then have block: "block_of op = k" and stop: "a + c_len op \<le> ?stop"
    using op by (simp_all add: block_of_def in_block_def block_boundary_def)
  show ?case
  proof (cases "ops = []")
    case True
    then show ?thesis using op block stop by simp
  next
    case False
    show ?thesis
    proof (cases "a + c_len op < ?stop")
      case True
      from Cons.IH [OF op(3,5) False _ True] Cons.prems(4) show ?thesis
        using op block by simp
    next
      case at_stop: False
      then have a': "a + c_len op = ?stop" using stop by simp
      obtain o2 ops2 where ops: "ops = o2 # ops2" using False by (cases ops) auto
      have "c_target_at o2 = ?stop" using op(3) ops a' by simp
      then have "block_of o2 = k + 1" using B by (simp add: block_of_def)
      then have "takeWhile (\<lambda>x. block_of x = k) ops = []" "dropWhile (\<lambda>x. block_of x = k) ops = ops"
        by (simp_all add: ops)
      moreover have "?stop \<le> z" using tiles_le [OF op(3)] a' by simp
      ultimately show ?thesis using op block a' by (simp add: min_def)
    qed
  qed
qed

end
