(* ===== verification/Delta_Machine.thy ===== *)
theory Delta_Machine
  imports Delta
begin

text \<open>
  What a patch means, without staging buffers, ring buffers or I/O: the specification that the
  applier of theory \<open>Delta\<close> refines.  Pending bits are a list, the window is the whole
  decompressed history of the block, the base image and the output are byte lists.
\<close>

section \<open>Bits\<close>

text \<open>The value of a bit string and the bits of a byte, most significant first.\<close>

definition bval :: "bool list \<Rightarrow> nat" where
  "bval bs = foldl (\<lambda>a b. 2 * a + of_bool b) 0 bs"

fun nat_bits :: "nat \<Rightarrow> nat \<Rightarrow> bool list" where
  "nat_bits 0 n = []"
| "nat_bits (Suc k) n = nat_bits k (n div 2) @ [n mod 2 = 1]"

lemma bval_Nil [simp]: "bval [] = 0"
  by (simp add: bval_def)

lemma bval_snoc: "bval (bs @ [b]) = 2 * bval bs + of_bool b"
  by (simp add: bval_def)

lemma bval_append: "bval (xs @ ys) = bval xs * 2 ^ length ys + bval ys"
proof (induction ys rule: rev_induct)
  case Nil
  then show ?case by simp
next
  case (snoc b ys)
  have "bval (xs @ ys @ [b]) = 2 * bval (xs @ ys) + of_bool b"
    using bval_snoc [of "xs @ ys" b] by simp
  with snoc show ?case by (simp add: bval_snoc algebra_simps)
qed

lemma bval_Cons: "bval (b # ys) = of_bool b * 2 ^ length ys + bval ys"
  using bval_append [of "[b]" ys] bval_snoc [of "[]" b] by simp

lemma bval_less: "bval bs < 2 ^ length bs"
proof (induction bs rule: rev_induct)
  case (snoc b bs)
  then show ?case by (cases b) (auto simp: bval_snoc)
qed simp

lemma length_nat_bits [simp]: "length (nat_bits k n) = k"
  by (induction k arbitrary: n) auto

lemma bval_nat_bits [simp]: "bval (nat_bits k n) = n mod 2 ^ k"
proof (induction k arbitrary: n)
  case (Suc k)
  have "n mod 2 ^ Suc k = 2 * (n div 2 mod 2 ^ k) + n mod 2"
    by (simp add: mod_mult2_eq)
  then show ?case using Suc by (simp add: bval_snoc of_bool_def)
qed simp

lemma nat_bits_bval: "length bs = k \<Longrightarrow> nat_bits k (bval bs) = bs"
proof (induction bs arbitrary: k rule: rev_induct)
  case Nil
  then show ?case by simp
next
  case (snoc b bs)
  then show ?case by (cases b) (auto simp: bval_snoc)
qed

lemma bval_take_div: "n \<le> length bs \<Longrightarrow> bval (take n bs) = bval bs div 2 ^ (length bs - n)"
proof -
  assume n: "n \<le> length bs"
  have "bval bs = bval (take n bs) * 2 ^ (length bs - n) + bval (drop n bs)"
    using bval_append [of "take n bs" "drop n bs"] n by simp
  moreover have "bval (drop n bs) < 2 ^ (length bs - n)"
    using bval_less [of "drop n bs"] n by simp
  ultimately show ?thesis by simp
qed

lemma bval_drop_mod: "n \<le> length bs \<Longrightarrow> bval (drop n bs) = bval bs mod 2 ^ (length bs - n)"
proof -
  assume n: "n \<le> length bs"
  have "bval bs = bval (take n bs) * 2 ^ (length bs - n) + bval (drop n bs)"
    using bval_append [of "take n bs" "drop n bs"] n by simp
  moreover have "bval (drop n bs) < 2 ^ (length bs - n)"
    using bval_less [of "drop n bs"] n by simp
  ultimately show ?thesis by simp
qed

definition byte_bits :: "u8 \<Rightarrow> bool list" where
  "byte_bits b = nat_bits 8 (unat b)"

definition bytes_bits :: "bytes \<Rightarrow> bool list" where
  "bytes_bits bs = concat (map byte_bits bs)"

lemma length_byte_bits [simp]: "length (byte_bits b) = 8"
  by (simp add: byte_bits_def)

lemma bval_byte_bits [simp]: "bval (byte_bits b) = unat b"
  using unat_u8_less [of b] by (simp add: byte_bits_def)

lemma bytes_bits_simps [simp]:
  "bytes_bits [] = []" "bytes_bits (b # bs) = byte_bits b @ bytes_bits bs"
  "bytes_bits (xs @ ys) = bytes_bits xs @ bytes_bits ys"
  by (simp_all add: bytes_bits_def)

section \<open>LZSS\<close>

text \<open>The byte \<open>d\<close> positions back, zero before the block's first byte.\<close>

definition hist_at :: "nat \<Rightarrow> bytes \<Rightarrow> u8" where
  "hist_at d hist = (if d \<le> length hist then hist ! (length hist - d) else 0)"

fun lz_copy :: "nat \<Rightarrow> nat \<Rightarrow> bytes \<Rightarrow> bytes" where
  "lz_copy d 0 hist = []"
| "lz_copy d (Suc n) hist = hist_at d hist # lz_copy d n (hist @ [hist_at d hist])"

text \<open>The complete items at the front of a bit string, decompressed, and the bits left over.\<close>

function lz_parse :: "bool list \<Rightarrow> bytes \<Rightarrow> bytes \<times> bool list" where
  "lz_parse [] hist = ([], [])"
| "lz_parse (True # bs) hist =
    (if length bs < 8 then ([], True # bs)
     else let b = word_of_nat (bval (take 8 bs)); (xs, rest) = lz_parse (drop 8 bs) (hist @ [b])
          in (b # xs, rest))"
| "lz_parse (False # bs) hist =
    (if length bs < 16 then ([], False # bs)
     else let ys = lz_copy (bval (take 10 bs) + 1) (bval (take 6 (drop 10 bs)) + 3) hist;
              (xs, rest) = lz_parse (drop 16 bs) (hist @ ys)
          in (ys @ xs, rest))"
  by pat_completeness auto
termination by (relation "measure (\<lambda>(bs, hist). length bs)") auto

lemma lz_parse_append:
  "lz_parse (as @ bs) hist =
    (let (xs, rest) = lz_parse as hist; (ys, rest') = lz_parse (rest @ bs) (hist @ xs) in (xs @ ys, rest'))"
  by (induction as hist rule: lz_parse.induct)
    (auto simp: Let_def split: prod.splits)

lemma lz_parse_rest_short: "lz_parse bs hist = (xs, rest) \<Longrightarrow> length rest \<le> 16"
  by (induction bs hist arbitrary: xs rest rule: lz_parse.induct)
    (auto simp: Let_def split: if_splits prod.splits)

lemma lz_parse_rest: "lz_parse bs hist = (xs, rest) \<Longrightarrow> lz_parse rest hist' = ([], rest)"
  by (induction bs hist arbitrary: xs rest rule: lz_parse.induct)
    (auto simp: Let_def split: if_splits prod.splits)

section \<open>Operations\<close>

type_synonym op_state = "delta_op \<times> nat \<times> bytes"

text \<open>One decompressed byte: the operation in progress, the base cursor and the output.\<close>

fun op_step :: "bytes \<Rightarrow> nat \<Rightarrow> u8 \<Rightarrow> op_state \<Rightarrow> 'e delta_error + op_state" where
  "op_step base stop byte (OpTag, cursor, out) =
    (if byte = OP_ADD then Inr (OpLen True 0 0, cursor, out)
     else if byte = OP_INSERT then Inr (OpLen False 0 0, cursor, out)
     else Inl DeltaMalformed)"
| "op_step base stop byte (OpLen is_add val0 shift, cursor, out) =
    (case delta_leb128 val0 shift byte of
       None \<Rightarrow> Inl DeltaMalformed
     | Some val \<Rightarrow>
         if byte AND 0x80 \<noteq> 0 then Inr (OpLen is_add val (shift + 7), cursor, out)
         else if val = 0 \<or> stop < length out + val then Inl DeltaMalformed
         else Inr (if is_add then OpSeek val 0 0 else OpInsert val, cursor, out))"
| "op_step base stop byte (OpSeek len val0 shift, cursor, out) =
    (case delta_leb128 val0 shift byte of
       None \<Rightarrow> Inl DeltaMalformed
     | Some val \<Rightarrow>
         if byte AND 0x80 \<noteq> 0 then Inr (OpSeek len val (shift + 7), cursor, out)
         else (case delta_seek (length base) cursor len val of
                 None \<Rightarrow> Inl BaseRange
               | Some cursor' \<Rightarrow> Inr (OpAdd len, cursor', out)))"
| "op_step base stop byte (OpAdd left, cursor, out) =
    Inr (if left = 1 then OpTag else OpAdd (left - 1), cursor + 1, out @ [base ! cursor + byte])"
| "op_step base stop byte (OpInsert left, cursor, out) =
    Inr (if left = 1 then OpTag else OpInsert (left - 1), cursor, out @ [byte])"

fun op_steps :: "bytes \<Rightarrow> nat \<Rightarrow> bytes \<Rightarrow> op_state \<Rightarrow> 'e delta_error + op_state" where
  "op_steps base stop [] s = Inr s"
| "op_steps base stop (b # bs) s =
    (case op_step base stop b s of Inl e \<Rightarrow> Inl e | Inr s' \<Rightarrow> op_steps base stop bs s')"

lemma op_steps_append:
  "op_steps base stop (xs @ ys) s =
    (case op_steps base stop xs s of Inl e \<Rightarrow> Inl e | Inr s' \<Rightarrow> op_steps base stop ys s')"
  by (induction xs arbitrary: s) (auto split: sum.split)

text \<open>An operation in progress fits both the block and the base.\<close>

fun op_ok :: "bytes \<Rightarrow> nat \<Rightarrow> op_state \<Rightarrow> bool" where
  "op_ok base stop (OpTag, cursor, out) \<longleftrightarrow> length out \<le> stop"
| "op_ok base stop (OpLen is_add val shift, cursor, out) \<longleftrightarrow> length out \<le> stop"
| "op_ok base stop (OpSeek len val shift, cursor, out) \<longleftrightarrow> 0 < len \<and> length out + len \<le> stop"
| "op_ok base stop (OpAdd left, cursor, out) \<longleftrightarrow>
     0 < left \<and> length out + left \<le> stop \<and> cursor + left \<le> length base"
| "op_ok base stop (OpInsert left, cursor, out) \<longleftrightarrow> 0 < left \<and> length out + left \<le> stop"

lemma delta_seek_Some: "delta_seek n cursor len val = Some cursor' \<Longrightarrow> cursor' + len \<le> n"
  by (auto simp: delta_seek_def Let_def split: if_splits)

lemma op_step_ok: "op_ok base stop s \<Longrightarrow> op_step base stop byte s = Inr s' \<Longrightarrow> op_ok base stop s'"
  by (induction base stop byte s rule: op_step.induct)
    (auto split: option.splits if_splits dest: delta_seek_Some)

lemma op_steps_ok: "op_ok base stop s \<Longrightarrow> op_steps base stop bs s = Inr s' \<Longrightarrow> op_ok base stop s'"
  by (induction bs arbitrary: s) (auto split: sum.splits dest: op_step_ok)

lemma op_ok_length: "op_ok base stop (op, cursor, out) \<Longrightarrow> length out \<le> stop"
  by (cases op) auto

section \<open>Patches\<close>

record delta_abs =
  ab_offset :: nat
  ab_stage :: stage
  ab_header :: bytes
  ab_hist :: bytes
  ab_bits :: "bool list"
  ab_ops :: op_state

definition abs_new :: delta_abs where
  "abs_new = \<lparr>ab_offset = 0, ab_stage = Header 0, ab_header = [], ab_hist = [], ab_bits = [],
              ab_ops = (OpTag, 0, [])\<rparr>"

abbreviation ab_out :: "delta_abs \<Rightarrow> bytes" where
  "ab_out ab \<equiv> snd (snd (ab_ops ab))"

definition block_end_of :: "nat \<Rightarrow> nat \<Rightarrow> nat" where
  "block_end_of target_len output = min (sat_add U32_MAX output DELTA_BLOCK_OUT) target_len"

definition abs_byte ::
  "bytes \<Rightarrow> nat \<Rightarrow> u8 \<Rightarrow> delta_abs \<Rightarrow> 'e delta_error + checkpoint option \<times> delta_abs" where
  "abs_byte base target_len byte ab0 =
    (let ab = ab0\<lparr>ab_offset := (ab_offset ab0 + 1) mod 2 ^ 32\<rparr> in
     case ab_stage ab of
       Header have_ \<Rightarrow>
         (let header = ab_header ab @ [byte] in
          if have_ + 1 < DELTA_HEADER_LEN
          then Inr (None, ab\<lparr>ab_header := header, ab_stage := Header (have_ + 1)\<rparr>)
          else if take 4 header \<noteq> DELTA_MAGIC \<or> header ! 4 \<noteq> DELTA_VERSION
                  \<or> slice 5 8 header \<noteq> [0, 0, 0] \<or> nat_of_le (slice 8 12 header) \<noteq> target_len
                  \<or> target_len = 0
          then Inl DeltaMalformed
          else Inr (None, ab\<lparr>ab_header := [], ab_stage := BlockHeader 0\<rparr>))
     | BlockHeader have_ \<Rightarrow>
         (let header = ab_header ab @ [byte] in
          if have_ + 1 < DELTA_BLOCK_HEADER_LEN
          then Inr (None, ab\<lparr>ab_header := header, ab_stage := BlockHeader (have_ + 1)\<rparr>)
          else if nat_of_le (take 4 header) = 0 \<or> length base < nat_of_le (slice 4 8 header)
          then Inl DeltaMalformed
          else Inr (None, ab\<lparr>ab_header := [], ab_hist := [], ab_bits := [],
                 ab_ops := (OpTag, nat_of_le (slice 4 8 header), ab_out ab),
                 ab_stage := Body (nat_of_le (take 4 header)) (block_end_of target_len (length (ab_out ab)))\<rparr>))
     | Body packed_left stop \<Rightarrow>
         (case lz_parse (ab_bits ab @ byte_bits byte) (ab_hist ab) of
            (xs, rest) \<Rightarrow>
              (case op_steps base stop xs (ab_ops ab) of
                 Inl e \<Rightarrow> Inl e
               | Inr (op, cursor, out) \<Rightarrow>
                   let ab1 = ab\<lparr>ab_hist := ab_hist ab @ xs, ab_bits := rest, ab_ops := (op, cursor, out)\<rparr> in
                   if packed_left \<noteq> 1 then Inr (None, ab1\<lparr>ab_stage := Body (packed_left - 1) stop\<rparr>)
                   else if length out \<noteq> stop \<or> op \<noteq> OpTag \<or> 8 \<le> length rest then Inl DeltaMalformed
                   else Inr (Some \<lparr>cp_patch_offset = ab_offset ab, cp_output = length out\<rparr>,
                     ab1\<lparr>ab_stage := (if length out = target_len then Done else BlockHeader 0)\<rparr>)))
     | Done \<Rightarrow> Inl DeltaMalformed)"

fun abs_push ::
  "bytes \<Rightarrow> nat \<Rightarrow> checkpoint option \<Rightarrow> bytes \<Rightarrow> delta_abs \<Rightarrow> 'e delta_error + checkpoint option \<times> delta_abs"
  where
  "abs_push base target_len ck [] ab = Inr (ck, ab)"
| "abs_push base target_len ck (b # bs) ab =
    (case abs_byte base target_len b ab of
       Inl e \<Rightarrow> Inl e
     | Inr (ck', ab') \<Rightarrow>
         abs_push base target_len (case ck' of None \<Rightarrow> ck | Some c \<Rightarrow> Some c) bs ab')"

text \<open>Between two bytes of a patch.\<close>

fun abs_ok :: "bytes \<Rightarrow> nat \<Rightarrow> delta_abs \<Rightarrow> bool" where
  "abs_ok base target_len ab \<longleftrightarrow> length (ab_out ab) \<le> target_len \<and>
    (case ab_stage ab of
       Header have_ \<Rightarrow> length (ab_header ab) = have_ \<and> have_ < DELTA_HEADER_LEN
     | BlockHeader have_ \<Rightarrow> length (ab_header ab) = have_ \<and> have_ < DELTA_BLOCK_HEADER_LEN
     | Body packed_left stop \<Rightarrow> ab_header ab = [] \<and> 0 < packed_left \<and> stop \<le> target_len \<and> length (ab_bits ab) \<le> 16
         \<and> op_ok base stop (ab_ops ab)
     | Done \<Rightarrow> ab_header ab = [])"

declare abs_ok.simps [simp del]

lemma block_end_of_le: "n \<le> target_len \<Longrightarrow> target_len \<le> U32_MAX \<Longrightarrow>
    n \<le> block_end_of target_len n \<and> block_end_of target_len n \<le> target_len"
  by (auto simp: block_end_of_def sat_add_def)

lemma abs_byte_ok:
  assumes ok: "abs_ok base target_len ab" and tl: "target_len \<le> U32_MAX"
    and step: "abs_byte base target_len byte ab = (Inr (ck, ab') :: 'e delta_error + _)"
  shows "abs_ok base target_len ab'"
proof (cases "ab_stage ab")
  case (Header n)
  then show ?thesis
    using ok step by (auto simp: abs_byte_def abs_ok.simps Let_def delta_consts split: if_splits)
next
  case (BlockHeader n)
  then show ?thesis
    using ok step block_end_of_le [OF _ tl, of "length (ab_out ab)"]
    by (auto simp: abs_byte_def abs_ok.simps Let_def delta_consts split: if_splits)
next
  case (Body packed_left stop)
  obtain xs rest where p: "lz_parse (ab_bits ab @ byte_bits byte) (ab_hist ab) = (xs, rest)"
    by (cases "lz_parse (ab_bits ab @ byte_bits byte) (ab_hist ab)")
  obtain op cursor out where s: "op_steps base stop xs (ab_ops ab) = (Inr (op, cursor, out) :: 'e delta_error + _)"
    using step by (auto simp: abs_byte_def Body p Let_def split: sum.splits)
  have o: "op_ok base stop (op, cursor, out)" "stop \<le> target_len" "0 < packed_left" "ab_header ab = []"
    using op_steps_ok [OF _ s] ok by (simp_all add: abs_ok.simps Body)
  then show ?thesis
    using step op_ok_length [OF o(1)] lz_parse_rest_short [OF p]
    by (auto simp: abs_byte_def Body p s abs_ok.simps Let_def delta_consts split: if_splits)
next
  case Done
  then show ?thesis using step by (simp add: abs_byte_def)
qed

end
