(* ===== verification/Delta_Stream.thy ===== *)
theory Delta_Stream
  imports Delta_Tiling Delta_Machine
begin

text \<open>
  The operation stream: what \<open>encode_ops\<close> writes, the operation machine of theory
  \<open>Delta_Machine\<close> reads back, rebuilding the target bytes that the operations tile.
\<close>

section \<open>Varints\<close>

lemma or_push_bit:
  fixes a x :: nat
  assumes "a < 2 ^ s"
  shows "a OR push_bit s x = a + x * 2 ^ s"
proof -
  have "take_bit s a = a" using assms by (simp add: take_bit_nat_eq_self)
  then have "a AND push_bit s x = take_bit s a AND push_bit s x" by simp
  also have "\<dots> = 0" by (rule bit_eqI) (auto simp: bit_simps)
  finally have "a + push_bit s x = a OR push_bit s x" by (rule disjunctive_add_eq_or)
  then show ?thesis by (simp add: push_bit_eq_mult)
qed

lemma byte_low_bits: "unat ((b :: u8) AND 0x7F) = unat b mod 128"
proof -
  have mask: "(0x7F :: u8) = mask 7" by (simp add: mask_numeral)
  have "b AND 0x7F = take_bit 7 b" unfolding mask by (rule take_bit_eq_mask [symmetric])
  have "unat (take_bit 7 b) = take_bit 7 (unat b)" by (rule unsigned_take_bit_eq)
  then show ?thesis unfolding \<open>b AND 0x7F = take_bit 7 b\<close> by (simp add: take_bit_eq_mod)
qed

lemma byte_high_bit: "(b :: u8) AND 0x80 = 0 \<longleftrightarrow> unat b < 128"
proof -
  have "b AND 2 ^ 7 = 0 \<longleftrightarrow> \<not> bit b 7" by (rule and_exp_eq_0_iff_not_bit)
  also have "\<dots> \<longleftrightarrow> \<not> bit (unat b) 7" by (simp add: bit_unsigned_iff)
  also have "\<dots> \<longleftrightarrow> even (unat b div 128)" by (simp add: bit_nat_def)
  also have "\<dots> \<longleftrightarrow> unat b < 128"
  proof -
    have "unat b div 128 < 2" using unat_u8_less [of b] by (intro div_less_iff_less_mult [THEN iffD2]) simp_all
    then consider "unat b div 128 = 0" | "unat b div 128 = 1" by linarith
    then show ?thesis by cases (auto simp: div_eq_0_iff)
  qed
  finally show ?thesis by simp
qed

lemma varint_byte:
  "unat ((word_of_nat v OR 0x80 :: u8) AND 0x7F) = v mod 128"
  "(word_of_nat v OR 0x80 :: u8) AND 0x80 \<noteq> 0"
proof -
  have "(word_of_nat v OR 0x80 :: u8) AND 0x7F = word_of_nat v AND 0x7F"
    by (simp add: bit.conj_disj_distrib2)
  then have "unat ((word_of_nat v OR 0x80 :: u8) AND 0x7F) = v mod 256 mod 128"
    by (simp only: byte_low_bits unat_u8_of_nat)
  also have "\<dots> = v mod 128" by (simp add: mod_mod_cancel)
  finally show "unat ((word_of_nat v OR 0x80 :: u8) AND 0x7F) = v mod 128" .
  have "bit (word_of_nat v OR 0x80 :: u8) 7" by (simp add: bit_or_iff)
  then have "(word_of_nat v OR 0x80 :: u8) AND 2 ^ 7 \<noteq> 0" by (simp only: and_exp_eq_0_iff_not_bit not_not)
  then show "(word_of_nat v OR 0x80 :: u8) AND 0x80 \<noteq> 0" by simp
qed

text \<open>A varint read by a decoder state \<open>mk value shift\<close> that ends in \<open>fin value\<close>.\<close>

lemma leb128_step:
  assumes "val0 < 2 ^ shift" and "val0 + c * 2 ^ shift < 2 ^ 32" and "shift \<le> 28"
    and "unat (b AND 0x7F) = c" and "shift = 28 \<Longrightarrow> c < 16"
  shows "delta_leb128 val0 shift b = Some (val0 + c * 2 ^ shift)"
proof -
  have small: "push_bit shift c mod 2 ^ 32 = push_bit shift c"
    using assms(2) by (simp add: push_bit_eq_mult)
  have "b AND 0x70 = 0" if "shift = 28"
  proof -
    let ?w = "b AND 0x7F"
    have mask: "(0xF :: u8) = mask 4" by (simp add: mask_numeral)
    have "unat (take_bit 4 ?w) = take_bit 4 (unat ?w)" by (rule unsigned_take_bit_eq)
    also have "\<dots> = unat ?w" using assms(4) assms(5) [OF that] by (simp add: take_bit_nat_eq_self)
    finally have "take_bit 4 ?w = ?w" by (simp only: word_unat_eq_iff)
    then have "?w AND 0xF = ?w" unfolding mask by (simp only: take_bit_eq_mask)
    then have "?w AND 0x70 = (?w AND 0xF) AND 0x70" by simp
    also have "\<dots> = 0" by (simp add: and.assoc)
    finally have "(b AND 0x7F) AND 0x70 = 0" .
    then show ?thesis by (simp add: and.assoc)
  qed
  then show ?thesis
    using assms small or_push_bit [OF assms(1), of c] by (auto simp: delta_leb128_def)
qed

lemma leb128_run:
  assumes more: "\<And>val0 shift b val. delta_leb128 val0 shift b = Some val \<Longrightarrow> b AND 0x80 \<noteq> 0 \<Longrightarrow>
      op_step base stop b (mk val0 shift) = (Inr (mk val (shift + 7)) :: 'e delta_error + _)"
    and last: "\<And>val0 shift b val. delta_leb128 val0 shift b = Some val \<Longrightarrow> b AND 0x80 = 0 \<Longrightarrow>
      op_step base stop b (mk val0 shift) = (fin val :: 'e delta_error + _)"
  shows "val0 < 2 ^ (7 * k) \<Longrightarrow> k \<le> 4 \<Longrightarrow> val0 + v * 2 ^ (7 * k) < 2 ^ 32 \<Longrightarrow>
    op_steps base stop (leb128_bytes v @ rest) (mk val0 (7 * k)) =
      (case fin (val0 + v * 2 ^ (7 * k)) of Inl e \<Rightarrow> Inl e | Inr s \<Rightarrow> op_steps base stop rest s)"
proof (induction v arbitrary: val0 k rule: leb128_bytes.induct)
  case (1 v)
  have bound: "v * 2 ^ (7 * k) < 2 ^ 32" using "1.prems"(3) by simp
  have k4: "v < 16" if "k = 4" using bound that by simp
  show ?case
  proof (cases "0x80 \<le> v")
    case True
    let ?b = "word_of_nat v OR 0x80 :: u8" and ?val = "val0 + v mod 128 * 2 ^ (7 * k)"
    have k: "k < 4" using True k4 "1.prems"(2) by (cases "k = 4") auto
    have parts: "v = 128 * (v div 128) + v mod 128" by simp
    have sum: "?val + v div 128 * 2 ^ (7 * (k + 1)) = val0 + v * 2 ^ (7 * k)"
    proof -
      have "v * 2 ^ (7 * k) = 128 * (v div 128) * 2 ^ (7 * k) + v mod 128 * 2 ^ (7 * k)"
        by (metis parts add_mult_distrib)
      then show ?thesis by (simp add: power_add algebra_simps)
    qed
    have "delta_leb128 val0 (7 * k) ?b = Some ?val"
      using "1.prems" k sum varint_byte(1) [of v] by (intro leb128_step) auto
    from more [OF this varint_byte(2)] have step:
      "op_step base stop ?b (mk val0 (7 * k)) = (Inr (mk ?val (7 * (k + 1))) :: 'e delta_error + _)"
      by (simp add: algebra_simps)
    have "?val < 2 ^ (7 * (k + 1))"
      using digit_less [of "v mod 128" 128 val0 "2 ^ (7 * k)"] "1.prems"(1)
      by (simp add: power_add algebra_simps)
    then have "op_steps base stop (leb128_bytes (v div 128) @ rest) (mk ?val (7 * (k + 1))) =
        (case fin (val0 + v * 2 ^ (7 * k)) of Inl e \<Rightarrow> Inl e | Inr s \<Rightarrow> op_steps base stop rest s)"
      using "1.IH" [OF True, of ?val "k + 1"] k "1.prems"(3) unfolding sum by simp
    then show ?thesis using step True by (subst leb128_bytes.simps) simp
  next
    case False
    let ?b = "word_of_nat v :: u8"
    have low: "unat (?b AND 0x7F) = v" "?b AND 0x80 = 0"
      using False by (simp_all add: byte_low_bits byte_high_bit)
    have "delta_leb128 val0 (7 * k) ?b = Some (val0 + v * 2 ^ (7 * k))"
      using "1.prems" low k4 by (intro leb128_step) auto
    from last [OF this low(2)] show ?thesis
      using False by (subst leb128_bytes.simps) simp
  qed
qed

section \<open>Zigzag\<close>

lemma unzigzag: "delta_unzigzag n = (if even n then int (n div 2) else - int (n div 2) - 1)"
proof (cases "even n")
  case True
  then show ?thesis by (simp add: delta_unzigzag_def even_iff_mod_2_eq_zero)
next
  case False
  then have "n mod 2 = 1" by presburger
  then show ?thesis using False by (simp add: delta_unzigzag_def not_int_def)
qed

lemma zigzag:
  assumes "- (2 ^ 31) \<le> s" and "s < 2 ^ 31"
  shows "zigzag_encode s = (if 0 \<le> s then nat (2 * s) else nat (- 2 * s - 1))"
proof (cases "0 \<le> s")
  case True
  then have "s div 2 ^ 63 = 0" using assms by (intro div_pos_pos_trivial) simp_all
  then show ?thesis using True by (simp add: zigzag_encode_def)
next
  case False
  then have "s div 2 ^ 63 = - 1" using assms by (intro int_div_pos_eq [where r = "s + 2 ^ 63"]) simp_all
  then show ?thesis using False by (simp add: zigzag_encode_def not_int_def)
qed

lemma zigzag_less: "- (2 ^ 31) \<le> s \<Longrightarrow> s < 2 ^ 31 \<Longrightarrow> zigzag_encode s < 2 ^ 32"
  using zigzag [of s] by (auto simp: nat_less_iff)

lemma unzigzag_zigzag: "- (2 ^ 31) \<le> s \<Longrightarrow> s < 2 ^ 31 \<Longrightarrow> delta_unzigzag (zigzag_encode s) = s"
proof -
  assume s: "- (2 ^ 31) \<le> s" "s < 2 ^ 31"
  show ?thesis
  proof (cases "0 \<le> s")
    case True
    then have "zigzag_encode s = 2 * nat s" using zigzag [OF s] by (simp add: nat_mult_distrib)
    then show ?thesis using True by (simp add: unzigzag)
  next
    case False
    then have "zigzag_encode s = 2 * nat (- s - 1) + 1" using zigzag [OF s] by simp
    then show ?thesis using False by (simp add: unzigzag)
  qed
qed

section \<open>Operations\<close>

lemma op_add_inserts: "OP_ADD \<noteq> OP_INSERT"
  by (simp add: OP_ADD_def OP_INSERT_def)

text \<open>The payload of an operation, byte by byte.\<close>

lemma insert_run:
  "xs \<noteq> [] \<Longrightarrow> op_steps base stop xs (OpInsert (length xs), cursor, out) =
     (Inr (OpTag, cursor, out @ xs) :: 'e delta_error + _)"
proof (induction xs arbitrary: out)
  case (Cons x xs)
  show ?case
  proof (cases xs)
    case Nil
    then show ?thesis by simp
  next
    case ys: (Cons y ys)
    then have "op_steps base stop xs (OpInsert (length xs), cursor, out @ [x]) =
        (Inr (OpTag, cursor, (out @ [x]) @ xs) :: 'e delta_error + _)"
      by (intro Cons.IH) simp
    then show ?thesis using ys by simp
  qed
qed simp

lemma add_run:
  "xs \<noteq> [] \<Longrightarrow> cursor + length xs \<le> length base \<Longrightarrow>
   op_steps base stop (map2 (-) xs (take (length xs) (drop cursor base))) (OpAdd (length xs), cursor, out) =
     (Inr (OpTag, cursor + length xs, out @ xs) :: 'e delta_error + _)"
proof (induction xs arbitrary: cursor out)
  case (Cons x xs)
  have c: "cursor < length base" using Cons.prems(2) by simp
  then have drop: "drop cursor base = base ! cursor # drop (Suc cursor) base" by (simp add: Cons_nth_drop_Suc)
  show ?case
  proof (cases xs)
    case Nil
    then show ?thesis by (simp add: drop)
  next
    case ys: (Cons y ys)
    then have "op_steps base stop (map2 (-) xs (take (length xs) (drop (Suc cursor) base)))
        (OpAdd (length xs), Suc cursor, out @ [x]) = 
          (Inr (OpTag, Suc cursor + length xs, (out @ [x]) @ xs) :: 'e delta_error + _)"
      using Cons.prems(2) by (intro Cons.IH) simp_all
    then show ?thesis using ys by (simp add: drop)
  qed
qed simp

lemma add_payload:
  assumes "base_at + len \<le> length base" and "target_at + len \<le> length target"
  shows "map (\<lambda>index. target ! (target_at + index) - base ! (base_at + index)) [0 ..< len] =
    map2 (-) (slice target_at (target_at + len) target) (take len (drop base_at base))"
  using assms by (intro nth_equalityI) (simp_all add: slice_def)

text \<open>One operation, from its tag.\<close>

lemma length_field_run:
  assumes "0 < len" and "len < 2 ^ 32" and "length out + len \<le> stop"
  shows "op_steps base stop (leb128_bytes len @ rest) (OpLen is_add 0 0, cursor, out) =
    (op_steps base stop rest (if is_add then OpSeek len 0 0 else OpInsert len, cursor, out) :: 'e delta_error + _)"
proof -
  let ?mk = "\<lambda>val shift. (OpLen is_add val shift, cursor, out) :: op_state"
  let ?fin = "\<lambda>val. if val = 0 \<or> stop < length out + val then Inl DeltaMalformed
      else (Inr (if is_add then OpSeek val 0 0 else OpInsert val, cursor, out) :: 'e delta_error + _)"
  have "op_steps base stop (leb128_bytes len @ rest) (?mk 0 (7 * 0)) =
      (case ?fin (0 + len * 2 ^ (7 * 0)) of Inl e \<Rightarrow> Inl e | Inr s \<Rightarrow> op_steps base stop rest s)"
    by (rule leb128_run [where fin = ?fin]) (use assms in simp_all)
  also have "\<dots> = op_steps base stop rest (if is_add then OpSeek len 0 0 else OpInsert len, cursor, out)"
    using assms by simp
  finally show ?thesis by (simp only: mult_0_right)
qed

lemma seek_field_run:
  assumes "base_at + len \<le> length base" and "length base \<le> 2 ^ 31" and "cursor \<le> length base" and "0 < len"
  shows "op_steps base stop (leb128_bytes (zigzag_encode (int base_at - int cursor)) @ rest)
      (OpSeek len 0 0, cursor, out) = (op_steps base stop rest (OpAdd len, base_at, out) :: 'e delta_error + _)"
proof -
  let ?z = "zigzag_encode (int base_at - int cursor)"
  let ?mk = "\<lambda>val shift. (OpSeek len val shift, cursor, out) :: op_state"
  let ?fin = "\<lambda>val. case delta_seek (length base) cursor len val of
      None \<Rightarrow> Inl BaseRange | Some c \<Rightarrow> (Inr (OpAdd len, c, out) :: 'e delta_error + _)"
  have range: "- (2 ^ 31) \<le> int base_at - int cursor" "int base_at - int cursor < 2 ^ 31"
    using assms by simp_all
  have "delta_seek (length base) cursor len ?z = Some base_at"
    using assms(1) by (simp add: delta_seek_def Let_def unzigzag_zigzag [OF range])
  moreover have "op_steps base stop (leb128_bytes ?z @ rest) (?mk 0 (7 * 0)) =
      (case ?fin (0 + ?z * 2 ^ (7 * 0)) of Inl e \<Rightarrow> Inl e | Inr s \<Rightarrow> op_steps base stop rest s)"
    by (rule leb128_run [where fin = ?fin]) (use zigzag_less [OF range] in simp_all)
  ultimately show ?thesis by simp
qed

text \<open>All operations of a block.\<close>

lemma op_stream_run:
  assumes base: "length base \<le> 2 ^ 31" and target: "length target < 2 ^ 32" and stop: "stop \<le> length target"
  shows "tiles base a ops stop \<Longrightarrow> cursor \<le> length base \<Longrightarrow>
    \<exists>cursor'. op_steps base stop (op_stream base target (int cursor) ops) (OpTag, cursor, take a target) =
      (Inr (OpTag, cursor', take stop target) :: 'e delta_error + _)"
proof (induction ops arbitrary: a cursor)
  case Nil
  then show ?case by simp
next
  case (Cons op ops)
  have a: "c_target_at op = a" and fits: "op_fits base op" and rest: "tiles base (a + c_len op) ops stop"
    using Cons.prems(1) by auto
  have fit: "a + c_len op \<le> stop" by (rule tiles_le [OF rest])
  have pos: "0 < c_len op" by (rule op_fits_pos [OF fits])
  let ?out = "take a target" and ?data = "slice a (a + c_len op) target"
  have lens: "c_len op < 2 ^ 32" "length ?out = a" "length ?out + c_len op \<le> stop" "length ?data = c_len op"
    using fit stop target pos by simp_all
  have data: "?data \<noteq> []" using lens(4) pos by (metis length_0_conv less_irrefl)
  have out: "?out @ ?data = take (a + c_len op) target" by (simp add: slice_def take_add)
  show ?case
  proof (cases op)
    case (CAdd base_at target_at len)
    have fits': "base_at + len \<le> length base" "0 < len" using fits CAdd by auto
    have payload: "map (\<lambda>index. target ! (target_at + index) - base ! (base_at + index)) [0 ..< len] =
        map2 (-) ?data (take len (drop base_at base))"
      using add_payload [OF fits'(1), of target_at target] a fit stop lens(4) CAdd by simp
    have run: "op_steps base stop (map2 (-) ?data (take len (drop base_at base)))
        (OpAdd len, base_at, ?out) = (Inr (OpTag, base_at + len, take (a + len) target) :: 'e delta_error + _)"
      using add_run [of ?data base_at base stop ?out, where 'e = 'e] data fits' lens(4) out CAdd by simp
    then have run': "op_steps base stop (map2 (-) (slice a (a + len) target) (take len (drop base_at base)) @ rest)
        (OpAdd len, base_at, ?out) =
        (op_steps base stop rest (OpTag, base_at + len, take (a + len) target) :: 'e delta_error + _)" for rest
      using CAdd by (simp add: op_steps_append)
    obtain c' where "op_steps base stop (op_stream base target (int (base_at + len)) ops)
        (OpTag, base_at + len, take (a + len) target) =
        (Inr (OpTag, c', take stop target) :: 'e delta_error + _)"
      using Cons.IH [OF rest, of "base_at + len"] fits' CAdd by auto
    then show ?thesis
      using CAdd lens Cons.prems(2) fits' base
      by (simp add: payload run' length_field_run seek_field_run)
  next
    case (CInsert target_at len)
    have run: "op_steps base stop ?data (OpInsert len, cursor, ?out) =
        (Inr (OpTag, cursor, take (a + len) target) :: 'e delta_error + _)"
      using insert_run [OF data, of base stop cursor ?out, where 'e = 'e] lens(4) out CInsert by simp
    then have run': "op_steps base stop (slice a (a + len) target @ rest) (OpInsert len, cursor, ?out) =
        (op_steps base stop rest (OpTag, cursor, take (a + len) target) :: 'e delta_error + _)" for rest
      using CInsert by (simp add: op_steps_append)
    obtain c' where "op_steps base stop (op_stream base target (int cursor) ops)
        (OpTag, cursor, take (a + len) target) =
        (Inr (OpTag, c', take stop target) :: 'e delta_error + _)"
      using Cons.IH [OF rest, of cursor] Cons.prems(2) CInsert by auto
    then show ?thesis
      using CInsert lens pos a op_add_inserts
      by (simp add: run' length_field_run)
  qed
qed

end
