(* ===== verification/Delta_Pack.thy ===== *)
theory Delta_Pack
  imports Delta_Stream
begin

text \<open>
  The LZSS coder of \<open>create.rs\<close> against the parser of theory \<open>Delta_Machine\<close>: the bit writer
  appends exactly the bits it is given, every match the hash chain proposes is a true repetition
  inside the window, and so the packed bytes of a stream parse back to the stream.
\<close>

section \<open>The bit writer\<close>

lemma nat_bits_mod_eq: "nat_bits k x = nat_bits k y \<longleftrightarrow> x mod 2 ^ k = y mod 2 ^ k"
  by (metis bval_nat_bits length_nat_bits nat_bits_bval)

lemma nat_bits_mod: "k \<le> m \<Longrightarrow> nat_bits k (x mod 2 ^ m) = nat_bits k x"
  by (simp add: nat_bits_mod_eq mod_mod_cancel le_imp_power_dvd)

lemma nat_bits_add: "nat_bits (c + n) x = nat_bits c (x div 2 ^ n) @ nat_bits n x"
proof (induction n arbitrary: x)
  case (Suc n)
  have "x div 2 div 2 ^ n = x div 2 ^ Suc n" by (simp add: div_mult2_eq)
  then show ?case using Suc [of "x div 2"] by simp
qed simp

text \<open>All bits written so far.\<close>

definition bw_bits :: "bit_writer \<Rightarrow> bool list" where
  "bw_bits w = bytes_bits (bw_bytes w) @ nat_bits (bw_count w) (bw_acc w)"

lemma byte_bits_of_nat: "byte_bits (word_of_nat n) = nat_bits 8 n"
  using nat_bits_mod [of 8 8 n] by (simp add: byte_bits_def)

lemma bw_drain_bits: "bw_bits (bw_drain w) = bw_bits w \<and> bw_count (bw_drain w) = bw_count w mod 8"
proof (induction w rule: bw_drain.induct)
  case (1 w)
  show ?case
  proof (cases "8 \<le> bw_count w")
    case True
    let ?w = "w\<lparr>bw_count := bw_count w - 8,
        bw_bytes := bw_bytes w @ [word_of_nat (bw_acc w div 2 ^ (bw_count w - 8))]\<rparr>"
    have "nat_bits (bw_count w) (bw_acc w) =
        nat_bits 8 (bw_acc w div 2 ^ (bw_count w - 8)) @ nat_bits (bw_count w - 8) (bw_acc w)"
      using nat_bits_add [of 8 "bw_count w - 8" "bw_acc w"] True by simp
    then have "bw_bits ?w = bw_bits w" by (simp add: bw_bits_def byte_bits_of_nat)
    then show ?thesis
      using "1.IH" [OF True] True by (simp add: bw_drain.simps [of w] le_mod_geq)
  next
    case False
    then show ?thesis by (simp add: bw_drain.simps [of w])
  qed
qed

lemma bw_put_bits:
  assumes "bw_count w < 8" and "n \<le> 16" and "val < 2 ^ n"
  shows "bw_bits (bw_put val n w) = bw_bits w @ nat_bits n val"
    and "bw_count (bw_put val n w) = (bw_count w + n) mod 8"
proof -
  let ?hi = "bw_acc w mod 2 ^ (64 - n)"
  let ?acc = "(bw_acc w * 2 ^ n) mod 2 ^ 64 OR val"
  have split: "(2::nat) ^ 64 = 2 ^ (64 - n) * 2 ^ n" using assms(2) by (simp flip: power_add)
  have "(bw_acc w * 2 ^ n) mod 2 ^ 64 = push_bit n ?hi"
    unfolding split by (simp add: push_bit_eq_mult mult_mod_left)
  then have acc: "?acc = val + ?hi * 2 ^ n"
    using or_push_bit [OF assms(3), of ?hi] by (simp add: or.commute)
  have "?acc div 2 ^ n = ?hi" "?acc mod 2 ^ n = val" unfolding acc using assms(3) by simp_all
  then have "nat_bits (bw_count w + n) ?acc = nat_bits (bw_count w) (bw_acc w) @ nat_bits n val"
    using nat_bits_mod [of "bw_count w" "64 - n" "bw_acc w"] assms
    by (simp add: nat_bits_add nat_bits_mod_eq [of n])
  then show "bw_bits (bw_put val n w) = bw_bits w @ nat_bits n val"
    and "bw_count (bw_put val n w) = (bw_count w + n) mod 8"
    by (simp_all add: bw_put_def bw_drain_bits) (simp add: bw_bits_def)
qed

lemma bw_finish_bits:
  assumes "bw_count w < 8"
  shows "\<exists>k < 8. bytes_bits (bw_finish w) = bw_bits w @ replicate k False"
proof (cases "bw_count w = 0")
  case True
  then show ?thesis by (auto simp: bw_finish_def bw_bits_def)
next
  case False
  let ?k = "8 - bw_count w"
  have zeros: "nat_bits k 0 = replicate k False" for k
    by (induction k) (simp_all add: replicate_append_same)
  have put: "bw_bits (bw_put 0 ?k w) = bw_bits w @ nat_bits ?k 0" "bw_count (bw_put 0 ?k w) = 0"
    using bw_put_bits [OF assms, of ?k 0] assms False by simp_all
  then have "bytes_bits (bw_finish w) = bw_bits w @ replicate ?k False"
    using False by (simp add: bw_finish_def bw_bits_def [of "bw_put 0 ?k w"] zeros)
  then show ?thesis using False by (intro exI [of _ ?k]) simp
qed

section \<open>Matches\<close>

definition match_at :: "bytes \<Rightarrow> nat \<Rightarrow> nat \<times> nat \<Rightarrow> bool" where
  "match_at input at m \<longleftrightarrow> fst m = 0 \<or>
     (1 \<le> snd m \<and> snd m \<le> LZSS_WINDOW \<and> snd m \<le> at \<and> at + fst m \<le> length input \<and> fst m \<le> LZSS_MAX_MATCH
      \<and> (\<forall>i < fst m. input ! (at - snd m + i) = input ! (at + i)))"

definition chains_ok :: "nat \<Rightarrow> chains \<Rightarrow> bool" where
  "chains_ok at hp \<longleftrightarrow> (\<forall>k p. fst hp k = Some p \<longrightarrow> p < at) \<and> (\<forall>q p. snd hp q = Some p \<longrightarrow> p < at)"

lemma chains_ok_init: "chains_ok at (\<lambda>_. None, \<lambda>_. None)"
  by (simp add: chains_ok_def)

lemma chains_ok_mono: "chains_ok at hp \<Longrightarrow> at \<le> at' \<Longrightarrow> chains_ok at' hp"
  unfolding chains_ok_def by (meson order_less_le_trans)

lemma chains_ok_insert: "chains_ok at hp \<Longrightarrow> p < at \<Longrightarrow> chains_ok at (lz_insert input p hp)"
  by (auto simp: chains_ok_def lz_insert_def)

lemma chains_ok_inserts: "chains_ok at hp \<Longrightarrow> \<forall>p \<in> set ps. p < at \<Longrightarrow> chains_ok at (fold (lz_insert input) ps hp)"
  by (induction ps arbitrary: hp) (auto simp: chains_ok_insert)

lemma match_at_candidate:
  assumes "c < at" and "at - c \<le> LZSS_WINDOW" and "at \<le> length input"
  shows "match_at input at (common_prefix (take LZSS_MAX_MATCH (drop c input)) (take LZSS_MAX_MATCH (drop at input)), at - c)"
proof -
  let ?xs = "take LZSS_MAX_MATCH (drop c input)" and ?ys = "take LZSS_MAX_MATCH (drop at input)"
  let ?n = "common_prefix ?xs ?ys"
  have le: "?n \<le> LZSS_MAX_MATCH" "at + ?n \<le> length input"
    using common_prefix_le [of ?xs ?ys] assms(3) by auto
  have "input ! (at - (at - c) + i) = input ! (at + i)" if "i < ?n" for i
    using common_prefix_nth [OF that] that le assms by simp
  moreover have "1 \<le> at - c" using assms(1) by simp
  ultimately show ?thesis using le assms by (simp add: match_at_def)
qed

lemma lz_search_ok:
  assumes "chains_ok at (head, prev)" and "at \<le> length input"
  shows "match_at input at best \<Longrightarrow> (\<And>c. candidate = Some c \<Longrightarrow> c < at) \<Longrightarrow>
    match_at input at (lz_search input prev at n candidate best)"
proof (induction n arbitrary: candidate best)
  case (Suc n)
  show ?case
  proof (cases candidate)
    case None
    then show ?thesis using Suc.prems(1) by simp
  next
    case (Some c)
    then have c: "c < at" using Suc.prems(2) by simp
    have next': "\<And>c'. prev c = Some c' \<Longrightarrow> c' < at" using assms(1) by (simp add: chains_ok_def)
    show ?thesis
    proof (cases "LZSS_WINDOW < at - c")
      case True
      then show ?thesis using Suc.prems(1) Some by simp
    next
      case False
      then have new: "match_at input at
          (common_prefix (take LZSS_MAX_MATCH (drop c input)) (take LZSS_MAX_MATCH (drop at input)), at - c)"
        using match_at_candidate [OF c _ assms(2)] by simp
      let ?len = "common_prefix (take LZSS_MAX_MATCH (drop c input)) (take LZSS_MAX_MATCH (drop at input))"
      have run: "lz_search input prev at (Suc n) candidate best =
          (if fst best < ?len
           then if ?len = LZSS_MAX_MATCH then (?len, at - c) else lz_search input prev at n (prev c) (?len, at - c)
           else lz_search input prev at n (prev c) best)"
        using False Some by (simp add: Let_def)
      consider "fst best < ?len" "?len = LZSS_MAX_MATCH" | "fst best < ?len" "?len \<noteq> LZSS_MAX_MATCH"
        | "\<not> fst best < ?len" by blast
      then show ?thesis
      proof cases
        case 1
        then show ?thesis unfolding run using new by simp
      next
        case 2
        then show ?thesis unfolding run using Suc.IH [OF new next'] by (simp only: if_True if_False)
      next
        case 3
        then show ?thesis unfolding run using Suc.IH [OF Suc.prems(1) next'] by (simp only: if_False)
      qed
    qed
  qed
qed simp

lemma lz_longest_ok:
  assumes "chains_ok at hp" and "at \<le> length input"
  shows "match_at input at (lz_longest input at hp)"
proof -
  have "match_at input at (0, 0)" by (simp add: match_at_def)
  moreover have "\<And>c. fst hp k = Some c \<Longrightarrow> c < at" for k using assms(1) by (simp add: chains_ok_def)
  ultimately show ?thesis
    using lz_search_ok [of at "fst hp" "snd hp" input] assms by (simp add: lz_longest_def)
qed

lemma lz_copy_match:
  "1 \<le> d \<Longrightarrow> d \<le> at \<Longrightarrow> at + n \<le> length input \<Longrightarrow> (\<And>i. i < n \<Longrightarrow> input ! (at - d + i) = input ! (at + i)) \<Longrightarrow>
   lz_copy d n (take at input) = take n (drop at input)"
proof (induction n arbitrary: at)
  case (Suc n)
  have at: "at < length input" using Suc.prems(3) by simp
  have byte: "hist_at d (take at input) = input ! at"
    using Suc.prems(1,2) Suc.prems(4) [of 0] at by (simp add: hist_at_def)
  have snoc: "take at input @ [input ! at] = take (Suc at) input"
    using at by (simp add: take_Suc_conv_app_nth)
  have "lz_copy d n (take (Suc at) input) = take n (drop (Suc at) input)"
  proof (rule Suc.IH)
    fix i assume "i < n"
    then show "input ! (Suc at - d + i) = input ! (Suc at + i)"
      using Suc.prems(2) Suc.prems(4) [of "Suc i"] by (simp add: Suc_diff_le)
  qed (use Suc.prems in simp_all)
  then show ?case
    using at by (simp add: byte snoc Cons_nth_drop_Suc [symmetric])
qed simp

section \<open>Items\<close>

lemma parse_literal:
  "lz_parse (True # nat_bits 8 (unat b)) hist = ([b], [])"
  using unat_u8_less [of b] by (simp add: Let_def)

lemma parse_match:
  assumes "1 \<le> d" "d \<le> LZSS_WINDOW" "LZSS_MIN_MATCH \<le> n" "n \<le> LZSS_MAX_MATCH"
  shows "lz_parse (False # nat_bits 10 (d - 1) @ nat_bits 6 (n - 3)) hist = (lz_copy d n hist, [])"
proof -
  have "d - 1 < 1024" "n - 3 < 64" using assms by (simp_all add: delta_consts)
  then show ?thesis using assms by (simp add: Let_def delta_consts)
qed

lemma parse_padding: "k < 8 \<Longrightarrow> lz_parse (replicate k False) hist = ([], replicate k False)"
  by (cases k) simp_all

section \<open>The coder\<close>

definition coded :: "bytes \<Rightarrow> nat \<Rightarrow> bit_writer \<Rightarrow> bool" where
  "coded input at w \<longleftrightarrow> lz_parse (bw_bits w) [] = (take at input, []) \<and> bw_count w < 8
     \<and> length (bw_bits w) \<le> 9 * at"

lemma coded_append:
  assumes "coded input at w" and "bw_bits w' = bw_bits w @ bs" and "bw_count w' < 8"
    and "lz_parse bs (take at input) = (xs, [])" and "take at' input = take at input @ xs"
    and "length bs \<le> 9 * (at' - at)" and "at \<le> at'"
  shows "coded input at' w'"
proof -
  have "lz_parse (bw_bits w') [] = (take at' input, [])"
    unfolding assms(2) by (subst lz_parse_append) (use assms(1,4,5) in \<open>simp add: coded_def\<close>)
  moreover have "length (bw_bits w') \<le> 9 * at'" using assms(1,2,6,7) unfolding coded_def by (simp, linarith)
  ultimately show ?thesis using assms(3) by (simp add: coded_def)
qed

lemma coded_literal:
  assumes "coded input at w" and "at < length input"
  shows "coded input (at + 1) (bw_put (unat (input ! at)) 8 (bw_put 1 1 w))"
proof -
  let ?w = "bw_put 1 1 w"
  have w: "bw_count w < 8" using assms(1) by (simp add: coded_def)
  have one: "bw_bits ?w = bw_bits w @ [True]" "bw_count ?w < 8"
    using bw_put_bits [OF w, of 1 1] by simp_all
  have "bw_bits (bw_put (unat (input ! at)) 8 ?w) = bw_bits w @ True # nat_bits 8 (unat (input ! at))"
    "bw_count (bw_put (unat (input ! at)) 8 ?w) < 8"
    using bw_put_bits [OF one(2), of 8 "unat (input ! at)"] unat_u8_less [of "input ! at"] one(1) by simp_all
  then show ?thesis
    by (rule coded_append [OF assms(1) _ _ parse_literal]) (simp_all add: take_Suc_conv_app_nth assms(2))
qed

lemma coded_match:
  assumes "coded input at w" and "match_at input at (n, d)" and "LZSS_MIN_MATCH \<le> n"
  shows "coded input (at + n)
    (bw_put (n - LZSS_MIN_MATCH) LZSS_LENGTH_BITS (bw_put (d - 1) LZSS_INDEX_BITS (bw_put 0 1 w)))"
proof -
  let ?w1 = "bw_put 0 1 w" and ?w2 = "bw_put (d - 1) 10 (bw_put 0 1 w)"
  have m: "1 \<le> d" "d \<le> 1024" "d \<le> at" "at + n \<le> length input" "n \<le> 66" "3 \<le> n"
    and rep: "\<And>i. i < n \<Longrightarrow> input ! (at - d + i) = input ! (at + i)"
    using assms(2,3) by (auto simp: match_at_def delta_consts)
  have w: "bw_count w < 8" using assms(1) by (simp add: coded_def)
  have 1: "bw_bits ?w1 = bw_bits w @ [False]" "bw_count ?w1 < 8"
    using bw_put_bits [OF w, of 1 0] by simp_all
  have 2: "bw_bits ?w2 = bw_bits ?w1 @ nat_bits 10 (d - 1)" "bw_count ?w2 < 8"
    using bw_put_bits [OF 1(2), of 10 "d - 1"] m by simp_all
  have 3: "bw_bits (bw_put (n - 3) 6 ?w2) = bw_bits ?w2 @ nat_bits 6 (n - 3)" "bw_count (bw_put (n - 3) 6 ?w2) < 8"
    using bw_put_bits [OF 2(2), of 6 "n - 3"] m by simp_all
  have bits: "bw_bits (bw_put (n - 3) 6 ?w2) = bw_bits w @ False # nat_bits 10 (d - 1) @ nat_bits 6 (n - 3)"
    using 1(1) 2(1) 3(1) by simp
  have copy: "lz_copy d n (take at input) = take n (drop at input)"
    by (rule lz_copy_match) (use m rep in auto)
  have "lz_parse (False # nat_bits 10 (d - 1) @ nat_bits 6 (n - 3)) (take at input) = (take n (drop at input), [])"
    using parse_match [of d n "take at input"] m copy by (simp add: delta_consts del: lz_parse.simps)
  then have "coded input (at + n) (bw_put (n - 3) 6 ?w2)"
    by (rule coded_append [OF assms(1) bits 3(2)]) (use m in \<open>simp_all add: take_add\<close>)
  then show ?thesis by (simp add: delta_consts)
qed

lemma lz_loop_coded:
  "coded input at w \<Longrightarrow> chains_ok at hp \<Longrightarrow> at \<le> length input \<Longrightarrow>
   coded input (length input) (lz_loop input at hp w)"
proof (induction "length input - at" arbitrary: at hp w rule: less_induct)
  case less
  show ?case
  proof (cases "at < length input")
    case False
    then have "at = length input" using less.prems(3) by simp
    then show ?thesis using less.prems(1) by (simp add: lz_loop.simps [of input "length input" hp w])
  next
    case True
    obtain n d where nd: "lz_longest input at hp = (n, d)" by (cases "lz_longest input at hp")
    have m: "match_at input at (n, d)" using lz_longest_ok [OF less.prems(2,3)] nd by simp
    let ?hp1 = "if in_lookahead n then lz_insert input at hp else hp"
    let ?lazier = "in_lookahead n \<and> n + 1 < fst (lz_longest input (at + 1) ?hp1)"
    have hp1: "chains_ok (at + k) ?hp1" if "0 < k" for k
      using less.prems(2) that by (auto intro!: chains_ok_insert intro: chains_ok_mono)
    show ?thesis
    proof (cases "LZSS_MIN_MATCH \<le> n \<and> \<not> ?lazier")
      case match: True
      let ?w = "bw_put (n - LZSS_MIN_MATCH) LZSS_LENGTH_BITS (bw_put (d - 1) LZSS_INDEX_BITS (bw_put 0 1 w))"
      let ?hp2 = "if in_lookahead n then ?hp1 else lz_insert input at ?hp1"
      let ?hp3 = "fold (lz_insert input) [at + 1 ..< at + n] ?hp2"
      have n: "0 < n" using match by (simp add: delta_consts)
      have step: "lz_loop input at hp w = lz_loop input (at + n) ?hp3 ?w"
        using True match by (simp add: lz_loop.simps [of input at hp] nd Let_def)
      have "chains_ok (at + n) ?hp2"
        using hp1 [OF n] n by (cases "in_lookahead n") (auto intro: chains_ok_insert)
      then have "chains_ok (at + n) ?hp3" by (rule chains_ok_inserts) simp
      moreover have "coded input (at + n) ?w" using coded_match [OF less.prems(1) m] match by simp
      moreover have "at + n \<le> length input" using m n by (auto simp: match_at_def)
      ultimately show ?thesis unfolding step using n True by (intro less.hyps) auto
    next
      case literal: False
      let ?w = "bw_put (unat (input ! at)) 8 (bw_put 1 1 w)"
      let ?hp2 = "if n < LZSS_MIN_MATCH then lz_insert input at ?hp1 else ?hp1"
      have step: "lz_loop input at hp w = lz_loop input (at + 1) ?hp2 ?w"
        using True literal by (simp only: lz_loop.simps [of input at hp] nd Let_def prod.case if_True if_False)
      have "chains_ok (at + 1) ?hp2" using hp1 [of 1] by (auto intro: chains_ok_insert)
      then show ?thesis
        unfolding step using coded_literal [OF less.prems(1) True] True by (intro less.hyps) auto
    qed
  qed
qed

lemma lzss_parse:
  shows "\<exists>k < 8. lz_parse (bytes_bits (lzss input)) [] = (input, replicate k False)"
    and "8 * length (lzss input) \<le> 9 * length input + 7"
proof -
  let ?init = "\<lparr>bw_bytes = [], bw_acc = 0, bw_count = 0\<rparr>"
  let ?w = "lz_loop input 0 (\<lambda>_. None, \<lambda>_. None) ?init"
  have start: "coded input 0 ?init" by (simp add: coded_def bw_bits_def)
  have coded: "coded input (length input) ?w"
    by (rule lz_loop_coded [OF start chains_ok_init]) simp
  then obtain k where k: "k < 8" "bytes_bits (lzss input) = bw_bits ?w @ replicate k False"
    using bw_finish_bits [of ?w] by (auto simp: coded_def lzss_def)
  then show "\<exists>k < 8. lz_parse (bytes_bits (lzss input)) [] = (input, replicate k False)"
  proof (intro exI conjI)
    show "lz_parse (bytes_bits (lzss input)) [] = (input, replicate k False)"
      unfolding k(2) by (subst lz_parse_append) (use coded parse_padding [OF k(1)] in \<open>simp add: coded_def\<close>)
  qed (rule k(1))
  have "length (bytes_bits bs) = 8 * length bs" for bs by (induction bs) simp_all
  then have "8 * length (lzss input) = length (bw_bits ?w) + k" using k(2) by (metis length_append length_replicate)
  then show "8 * length (lzss input) \<le> 9 * length input + 7" using coded k(1) by (simp add: coded_def)
qed

end
