(* ===== verification/Delta_Refine.thy ===== *)
theory Delta_Refine
  imports Delta_Machine
begin

text \<open>
  The applier of theory \<open>Delta\<close>, with its ring buffer, bit accumulator, staging and cache
  buffers and its calls of \<open>DeltaIo\<close>, implements the machine of theory \<open>Delta_Machine\<close>.  The
  contract of the trait is the locale \<open>delta_adapter\<close>: reads come from one base image, accepted
  writes append, and either may fail.  Its laws are guarded by what the applier must establish
  before a call (a nonempty buffer of at most 256 bytes, a range inside the base, an output that
  stays inside the target), so the simulation shows the calls to be in range as well.
\<close>

section \<open>The contract of an adapter\<close>

locale delta_adapter =
  fixes io :: "('io, 'e) delta_io" and base :: bytes and limit :: nat
    and accepted :: "'io \<Rightarrow> bytes \<Rightarrow> bool" and failed :: "'io \<Rightarrow> bool"
  assumes read_law: "accepted st out \<Longrightarrow> 0 < len \<Longrightarrow> len \<le> STAGING \<Longrightarrow> offset + len \<le> length base \<Longrightarrow>
      (\<exists>st'. io_read_base io st offset len = (Inr (slice offset (offset + len) base), st') \<and> accepted st' out)
    \<or> (\<exists>e st'. io_read_base io st offset len = (Inl e, st') \<and> failed st')"
    and write_law: "accepted st out \<Longrightarrow> bs \<noteq> [] \<Longrightarrow> length bs \<le> STAGING \<Longrightarrow> length (out @ bs) \<le> limit \<Longrightarrow>
      (\<exists>st'. io_write io st bs = (Inr (), st') \<and> accepted st' (out @ bs))
    \<or> (\<exists>e st'. io_write io st bs = (Inl e, st') \<and> failed st')"

section \<open>The simulation relation\<close>

definition window_rel :: "(nat \<Rightarrow> u8) \<Rightarrow> nat \<Rightarrow> bytes \<Rightarrow> bool" where
  "window_rel window pos hist \<longleftrightarrow> pos < LZSS_WINDOW \<and>
     (\<forall>d. 1 \<le> d \<and> d \<le> LZSS_WINDOW \<longrightarrow> window ((pos + LZSS_WINDOW - d) mod LZSS_WINDOW) = hist_at d hist)"

lemma window_rel_init: "window_rel (\<lambda>_. 0) 0 []"
  by (simp add: window_rel_def hist_at_def delta_consts)

lemma window_rel_at:
  "window_rel window pos hist \<Longrightarrow> 1 \<le> d \<Longrightarrow> d \<le> LZSS_WINDOW \<Longrightarrow>
   window ((pos + LZSS_WINDOW - d) mod LZSS_WINDOW) = hist_at d hist"
  by (simp add: window_rel_def)

lemma hist_at_snoc: "hist_at (Suc d) (hist @ [b]) = (if d = 0 then b else hist_at d hist)"
  by (auto simp: hist_at_def nth_append)

lemma window_rel_push:
  assumes "window_rel window pos hist"
  shows "window_rel (window(pos := b)) ((pos + 1) mod LZSS_WINDOW) (hist @ [b])"
proof -
  let ?W = "LZSS_WINDOW"
  have W: "?W = 1024" by (simp add: delta_consts)
  have pos: "pos < ?W" using assms by (simp add: window_rel_def)
  have "(window(pos := b)) (((pos + 1) mod ?W + ?W - d) mod ?W) = hist_at d (hist @ [b])"
    if d: "1 \<le> d" "d \<le> ?W" for d
  proof -
    obtain k where k: "d = Suc k" using d(1) by (cases d) auto
    have index: "((pos + 1) mod ?W + ?W - d) mod ?W = (pos + ?W - k) mod ?W"
    proof (cases "pos + 1 = ?W")
      case True
      then have "pos + ?W - k = (?W - d) + ?W" using d k by simp
      then have "(pos + ?W - k) mod ?W = (?W - d) mod ?W" by (simp only: mod_add_self2)
      then show ?thesis using True by simp
    next
      case False
      then have "(pos + 1) mod ?W = pos + 1" using pos by simp
      then show ?thesis using k by simp
    qed
    show ?thesis
    proof (cases "k = 0")
      case True
      then show ?thesis using index pos k by (simp add: hist_at_snoc)
    next
      case False
      have "(pos + ?W - k) mod ?W \<noteq> pos"
      proof (cases "k \<le> pos")
        case True
        then have shift: "pos + ?W - k = (pos - k) + ?W" by simp
        have "(pos - k + ?W) mod ?W = pos - k" using pos by simp
        then show ?thesis unfolding shift using True False by linarith
      next
        case False': False
        then have "pos + ?W - k < ?W" using d k by linarith
        then have "(pos + ?W - k) mod ?W = pos + ?W - k" by (rule mod_less)
        then show ?thesis using d k by linarith
      qed
      then show ?thesis
        using window_rel_at [OF assms, of k] False d k index by (simp add: hist_at_snoc)
    qed
  qed
  then show ?thesis using pos by (simp add: window_rel_def W)
qed

text \<open>The decompression state: window, operation, cursor, staged output and read cache.\<close>

definition core_rel ::
  "bytes \<Rightarrow> nat \<Rightarrow> ('io \<Rightarrow> bytes \<Rightarrow> bool) \<Rightarrow> applier \<Rightarrow> 'io \<Rightarrow> bytes \<Rightarrow> op_state \<Rightarrow> bool" where
  "core_rel base limit accepted da st hist s \<longleftrightarrow>
     window_rel (da_window da) (da_window_pos da) hist
   \<and> s = (da_op da, da_cursor da, snd (snd s)) \<and> da_output da = length (snd (snd s))
   \<and> (\<exists>acc. accepted st acc \<and> snd (snd s) = acc @ da_out da) \<and> length (da_out da) < STAGING
   \<and> da_base_len da = length base \<and> da_target_len da = limit
   \<and> da_cache_start da + length (da_cache da) \<le> length base
   \<and> da_cache da = slice (da_cache_start da) (da_cache_start da + length (da_cache da)) base"

text \<open>The fields that decompression leaves alone.\<close>

definition frame_of :: "applier \<Rightarrow> nat \<times> stage \<times> bytes \<times> nat \<times> nat" where
  "frame_of da = (da_patch_offset da, da_stage da, da_header da, da_bits da, da_bit_count da)"

text \<open>The pending bits: the low \<open>bit_count\<close> bits of the accumulator.\<close>

definition bits_rel :: "applier \<Rightarrow> bool list \<Rightarrow> bool" where
  "bits_rel da bs \<longleftrightarrow> length bs = da_bit_count da \<and> bval bs = da_bits da mod 2 ^ da_bit_count da"

lemma bits_rel_head:
  "bits_rel da (b # bs) \<Longrightarrow> (da_bits da div 2 ^ (da_bit_count da - 1) mod 2 = 1) = b"
proof -
  assume rel: "bits_rel da (b # bs)"
  then have n: "da_bit_count da - 1 = length bs" "da_bit_count da = length bs + 1"
    by (auto simp: bits_rel_def)
  have "da_bits da div 2 ^ length bs mod 2 ^ 1 = da_bits da mod 2 ^ (length bs + 1) div 2 ^ length bs"
    by (rule div_exp_mod_exp_eq)
  also have "\<dots> = bval (b # bs) div 2 ^ length bs" using rel n by (simp add: bits_rel_def)
  also have "\<dots> = of_bool b" using bval_less [of bs] by (simp add: bval_Cons)
  finally show ?thesis by (simp add: n)
qed

lemma bits_rel_drop:
  assumes "bits_rel da bs" and "k \<le> length bs"
  shows "bits_rel (da\<lparr>da_bit_count := da_bit_count da - k\<rparr>) (drop k bs)"
  using assms bval_drop_mod [OF assms(2)] by (simp add: bits_rel_def mod_mod_cancel le_imp_power_dvd)

lemma bits_rel_take:
  assumes "bits_rel da bs" and "k \<le> length bs"
  shows "delta_take_bits k da = (bval (take k bs), da\<lparr>da_bit_count := da_bit_count da - k\<rparr>)"
proof -
  let ?n = "length bs - k"
  have "da_bits da div 2 ^ ?n mod 2 ^ k = da_bits da mod 2 ^ (?n + k) div 2 ^ ?n"
    by (rule div_exp_mod_exp_eq)
  also have "\<dots> = bval (take k bs)"
    using assms bval_take_div [OF assms(2)] by (simp add: bits_rel_def)
  finally show ?thesis
    using assms by (simp add: delta_take_bits_def Let_def bits_rel_def)
qed

lemma bits_rel_frame: "frame_of da' = frame_of da \<Longrightarrow> bits_rel da' bs = bits_rel da bs"
  by (simp add: frame_of_def bits_rel_def)

lemma bits_rel_byte:
  assumes "bits_rel da bs" and "length bs \<le> 24"
  shows "bits_rel (da\<lparr>da_bits := (da_bits da * 256) mod 2 ^ 32 + unat b, da_bit_count := da_bit_count da + 8\<rparr>)
    (bs @ byte_bits b)"
proof -
  let ?c = "da_bit_count da"
  have c: "length bs = ?c" "bval bs = da_bits da mod 2 ^ ?c" using assms(1) by (simp_all add: bits_rel_def)
  have dvd: "(2::nat) ^ (?c + 8) dvd 2 ^ 32" using assms(2) c by (intro le_imp_power_dvd) simp
  have "((da_bits da * 256) mod 2 ^ 32 + unat b) mod 2 ^ (?c + 8) =
      ((da_bits da * 256) mod 2 ^ 32 mod 2 ^ (?c + 8) + unat b) mod 2 ^ (?c + 8)"
    by (simp only: mod_add_left_eq)
  also have "(da_bits da * 256) mod 2 ^ 32 mod 2 ^ (?c + 8) = da_bits da * 256 mod (2 ^ ?c * 256)"
    using mod_mod_cancel [OF dvd] by (simp add: power_add)
  also have "\<dots> = bval bs * 256" by (simp add: c mult_mod_left)
  also have "(bval bs * 256 + unat b) mod 2 ^ (?c + 8) = bval bs * 256 + unat b"
  proof (rule mod_less)
    have "bval bs < 2 ^ ?c" using bval_less [of bs] c by simp
    then have "bval bs * 256 + unat b < 2 ^ ?c * 256" using unat_u8_less [of b] by (rule digit_less)
    then show "bval bs * 256 + unat b < 2 ^ (?c + 8)" by (simp add: power_add)
  qed
  finally show ?thesis using c(1) by (simp add: bits_rel_def bval_append)
qed

text \<open>Between two patch bytes.  Output is staged only inside a block.\<close>

definition da_rel ::
  "bytes \<Rightarrow> nat \<Rightarrow> ('io \<Rightarrow> bytes \<Rightarrow> bool) \<Rightarrow> applier \<Rightarrow> 'io \<Rightarrow> delta_abs \<Rightarrow> bool" where
  "da_rel base limit accepted da st ab \<longleftrightarrow>
     core_rel base limit accepted da st (ab_hist ab) (ab_ops ab) \<and> bits_rel da (ab_bits ab)
   \<and> da_patch_offset da = ab_offset ab \<and> da_stage da = ab_stage ab
   \<and> length (da_header da) = DELTA_HEADER_LEN
   \<and> take (length (ab_header ab)) (da_header da) = ab_header ab
   \<and> ((\<forall>n stop. ab_stage ab \<noteq> Body n stop) \<longrightarrow> da_out da = [])"

text \<open>A concrete result against a specified one: an error of the adapter ends the run, and
  every other outcome is the specified one.\<close>

fun is_io_error :: "'e delta_error \<Rightarrow> bool" where
  "is_io_error (BaseError e) \<longleftrightarrow> True"
| "is_io_error (SinkError e) \<longleftrightarrow> True"
| "is_io_error DeltaMalformed \<longleftrightarrow> False"
| "is_io_error BaseRange \<longleftrightarrow> False"

definition sim_res ::
  "('io \<Rightarrow> bytes \<Rightarrow> bool) \<Rightarrow> ('io \<Rightarrow> bool) \<Rightarrow> ('x \<Rightarrow> 'y \<Rightarrow> bool)
     \<Rightarrow> 'e delta_error + 'y \<Rightarrow> ('e delta_error \<times> 'io) + 'x \<Rightarrow> bool" where
  "sim_res accepted failed R spec impl \<longleftrightarrow>
    (case impl of
       Inl (e, st') \<Rightarrow> (is_io_error e \<and> failed st') \<or> (spec = Inl e \<and> \<not> is_io_error e \<and> (\<exists>out. accepted st' out))
     | Inr x \<Rightarrow> (\<exists>y. spec = Inr y \<and> R x y))"

lemma sim_res_bind:
  assumes "sim_res accepted failed R spec impl"
    and "\<And>x y. R x y \<Longrightarrow> sim_res accepted failed S (f y) (g x)"
  shows "sim_res accepted failed S (case spec of Inl e \<Rightarrow> Inl e | Inr y \<Rightarrow> f y)
      (case impl of Inl e \<Rightarrow> Inl e | Inr x \<Rightarrow> g x)"
proof (cases impl)
  case (Inl e)
  with assms(1) show ?thesis by (cases e) (auto simp: sim_res_def)
next
  case (Inr x)
  with assms(1) obtain y where "spec = Inr y" "R x y" by (auto simp: sim_res_def)
  then show ?thesis using assms(2) Inr by simp
qed

lemma sim_res_bind_eq:
  assumes "sim_res accepted failed R spec impl"
    and "\<And>x y. spec = Inr y \<Longrightarrow> R x y \<Longrightarrow> sim_res accepted failed S (f y) (g x)"
  shows "sim_res accepted failed S (case spec of Inl e \<Rightarrow> Inl e | Inr y \<Rightarrow> f y)
      (case impl of Inl e \<Rightarrow> Inl e | Inr x \<Rightarrow> g x)"
proof -
  have "sim_res accepted failed (\<lambda>x y. spec = Inr y \<and> R x y) spec impl"
    using assms(1) by (auto simp: sim_res_def split: sum.splits prod.splits)
  then show ?thesis by (rule sim_res_bind) (use assms(2) in blast)
qed

lemma sim_res_Inr [simp]: "sim_res accepted failed R spec (Inr x) \<longleftrightarrow> (\<exists>y. spec = Inr y \<and> R x y)"
  by (simp add: sim_res_def)

lemma sim_res_InrI:
  "impl = Inr x \<Longrightarrow> spec = Inr y \<Longrightarrow> R x y \<Longrightarrow> sim_res accepted failed R spec impl"
  by simp

lemma sim_res_mono:
  "sim_res accepted failed R spec impl \<Longrightarrow> (\<And>x y. R x y \<Longrightarrow> S x y) \<Longrightarrow> sim_res accepted failed S spec impl"
  by (auto simp: sim_res_def split: sum.splits prod.splits)

lemma sim_res_spec_error:
  "accepted st out \<Longrightarrow> \<not> is_io_error e \<Longrightarrow> sim_res accepted failed R (Inl e) (Inl (e, st))"
  by (auto simp: sim_res_def)

section \<open>The simulation\<close>

context delta_adapter
begin

abbreviation "core \<equiv> core_rel base limit accepted"
abbreviation "sim \<equiv> sim_res accepted failed"

lemma flush_cases:
  assumes acc: "accepted st acc" and len: "length (da_out da) \<le> STAGING" "length (acc @ da_out da) \<le> limit"
  obtains (flushed) st' where "delta_flush io da st = Inr (da\<lparr>da_out := []\<rparr>, st')"
      and "accepted st' (acc @ da_out da)"
    | (sink) e st' where "delta_flush io da st = Inl (SinkError e, st')" and "failed st'"
proof (cases "da_out da = []")
  case True
  then have "delta_flush io da st = Inr (da\<lparr>da_out := []\<rparr>, st)"
    by (cases da) (simp add: delta_flush_def)
  then show thesis using acc True by (intro flushed [of st]) simp_all
next
  case False
  from write_law [OF acc False len] show thesis
  proof (elim disjE exE conjE)
    fix st' assume "io_write io st (da_out da) = (Inr (), st')" "accepted st' (acc @ da_out da)"
    then show thesis using False by (intro flushed [of st']) (simp_all add: delta_flush_def)
  next
    fix e st' assume "io_write io st (da_out da) = (Inl e, st')" "failed st'"
    then show thesis using False by (intro sink [of e st']) (simp_all add: delta_flush_def)
  qed
qed

lemma emit_sim:
  assumes core: "core da st hist (op, cursor, out)" and room: "length out < limit"
  shows "sim (\<lambda>q _. core (fst q) (snd q) hist (op, cursor, out @ [b]) \<and> frame_of (fst q) = frame_of da)
    (Inr ()) (delta_emit io b da st)"
proof -
  let ?da = "da\<lparr>da_out := da_out da @ [b], da_output := da_output da + 1\<rparr>"
  from core obtain acc where acc: "accepted st acc" "out = acc @ da_out da" "length (da_out da) < STAGING"
    by (auto simp: core_rel_def)
  show ?thesis
  proof (cases "length (da_out ?da) = STAGING")
    case True
    then have emit: "delta_emit io b da st = delta_flush io ?da st" by (simp add: delta_emit_def Let_def)
    have len: "length (da_out ?da) \<le> STAGING" "length (acc @ da_out ?da) \<le> limit"
      using acc room True by auto
    show ?thesis
    proof (cases rule: flush_cases [OF acc(1) len, case_names flushed sink])
      case (flushed st')
      then have "core (?da\<lparr>da_out := []\<rparr>) st' hist (op, cursor, out @ [b])"
        using core acc by (simp add: core_rel_def STAGING_def)
      then show ?thesis using flushed by (simp add: emit frame_of_def)
    next
      case (sink e st')
      then show ?thesis by (simp add: emit sim_res_def)
    qed
  next
    case False
    have "\<exists>acc'. accepted st acc' \<and> out @ [b] = acc' @ da_out ?da" using acc by auto
    then have "core ?da st hist (op, cursor, out @ [b])"
      using core acc(3) False by (simp add: core_rel_def)
    then show ?thesis using False by (simp add: delta_emit_def Let_def frame_of_def)
  qed
qed

lemma base_byte_sim:
  assumes core: "core da st hist (op, cursor, out)" and range: "cursor < length base"
  shows "sim (\<lambda>r _. fst r = base ! cursor \<and> core (fst (snd r)) (snd (snd r)) hist (op, cursor, out)
      \<and> frame_of (fst (snd r)) = frame_of da)
    (Inr ()) (delta_base_byte io da st)"
proof -
  from core obtain acc where acc: "accepted st acc" "out = acc @ da_out da"
    by (auto simp: core_rel_def)
  from core have cursor: "da_cursor da = cursor" and bl: "da_base_len da = length base"
    and cache: "da_cache da = slice (da_cache_start da) (da_cache_start da + length (da_cache da)) base"
    by (auto simp: core_rel_def)
  show ?thesis
  proof (cases "cursor < da_cache_start da \<or> length (da_cache da) \<le> cursor - da_cache_start da")
    case True
    let ?len = "min (length base - cursor) STAGING"
    have len: "0 < ?len" "?len \<le> STAGING" "cursor + ?len \<le> length base"
      using range by (auto simp: STAGING_def)
    have first: "slice cursor (cursor + ?len) base ! 0 = base ! cursor"
      using len range by (simp add: slice_def)
    have len': "length (slice cursor (cursor + ?len) base) = ?len" using len by simp
    from read_law [OF acc(1) len] show ?thesis
    proof
      assume "\<exists>st'. io_read_base io st cursor ?len = (Inr (slice cursor (cursor + ?len) base), st') \<and> accepted st' acc"
      then obtain st' where "io_read_base io st cursor ?len = (Inr (slice cursor (cursor + ?len) base), st')"
        and "accepted st' acc" by blast
      then show ?thesis
        using True first len len' core acc
        by (auto simp: delta_base_byte_def Let_def cursor bl core_rel_def frame_of_def)
    next
      assume "\<exists>e st'. io_read_base io st cursor ?len = (Inl e, st') \<and> failed st'"
      then show ?thesis
        using True by (auto simp: delta_base_byte_def Let_def cursor bl sim_res_def)
    qed
  next
    case False
    let ?s = "da_cache_start da"
    from False have index: "?s \<le> cursor" "cursor - ?s < length (da_cache da)" by auto
    have "da_cache da ! (cursor - ?s) = slice ?s (?s + length (da_cache da)) base ! (cursor - ?s)"
      using cache by simp
    also have "\<dots> = base ! cursor"
      using index range by (simp add: slice_def)
    finally show ?thesis
      using False core by (auto simp: delta_base_byte_def Let_def cursor frame_of_def)
  qed
qed

lemma core_push_window:
  "core da st hist s \<Longrightarrow>
   core (da\<lparr>da_window := (da_window da)(da_window_pos da := b),
           da_window_pos := (da_window_pos da + 1) mod LZSS_WINDOW\<rparr>) st (hist @ [b]) s"
  using window_rel_push [of "da_window da" "da_window_pos da" hist b]
  by (simp add: core_rel_def)

lemma core_set_op: "core da st hist (op, cursor, out) \<Longrightarrow> core (da\<lparr>da_op := op'\<rparr>) st hist (op', cursor, out)"
  by (simp add: core_rel_def)

lemma core_set_cursor:
  "core da st hist (op, cursor, out) \<Longrightarrow> core (da\<lparr>da_cursor := c\<rparr>) st hist (op, c, out)"
  by (simp add: core_rel_def)

lemma core_fields:
  assumes "core da st hist (op, cursor, out)"
  shows "da_op da = op" "da_cursor da = cursor" "da_output da = length out"
    "da_base_len da = length base" "da_target_len da = limit"
    "\<exists>acc. accepted st acc \<and> out = acc @ da_out da"
  using assms by (simp_all add: core_rel_def)

lemma frame_of_updates [simp]:
  "frame_of (da\<lparr>da_op := op\<rparr>) = frame_of da" "frame_of (da\<lparr>da_cursor := c\<rparr>) = frame_of da"
  "frame_of (da\<lparr>da_window := w\<rparr>) = frame_of da" "frame_of (da\<lparr>da_window_pos := p\<rparr>) = frame_of da"
  by (simp_all add: frame_of_def)

lemma decoded_sim:
  assumes core: "core da st hist s" and ok: "op_ok base stop s" and stop: "stop \<le> limit"
    and limit_u32: "limit < U32_MAX"
  shows "sim (\<lambda>q s'. core (fst q) (snd q) (hist @ [b]) s' \<and> frame_of (fst q) = frame_of da)
    (op_step base stop b s) (delta_decoded io b stop da st)"
proof -
  obtain op cursor out where s: "s = (op, cursor, out)" by (cases s)
  let ?da = "da\<lparr>da_window := (da_window da)(da_window_pos da := b),
                da_window_pos := (da_window_pos da + 1) mod LZSS_WINDOW\<rparr>"
  have c: "core ?da st (hist @ [b]) (op, cursor, out)"
    using core_push_window [OF core, of b] by (simp add: s)
  note f = core_fields [OF c]
  obtain acc where acc: "accepted st acc" using f(6) by blast
  have set: "core (?da\<lparr>da_op := op'\<rparr>) st (hist @ [b]) (op', cursor, out)" for op'
    by (rule core_set_op [OF c])
  have frame: "frame_of (?da\<lparr>da_op := op'\<rparr>) = frame_of da" for op' by simp
  have bad: "sim (\<lambda>q s'. core (fst q) (snd q) (hist @ [b]) s' \<and> frame_of (fst q) = frame_of da)
      (Inl e) (Inl (e, st))" if "\<not> is_io_error e" for e :: "'e delta_error"
    using acc that by (auto simp: sim_res_def)
  show ?thesis
  proof (cases op)
    case OpTag
    then show ?thesis
      unfolding delta_decoded_def Let_def f(1) s
      using set [of "OpLen True 0 0"] set [of "OpLen False 0 0"] bad [of DeltaMalformed] frame
      by (cases "b = OP_ADD"; cases "b = OP_INSERT") (simp_all add: OP_ADD_def OP_INSERT_def)
  next
    case (OpLen is_add val0 shift)
    have sat: "stop < sat_add U32_MAX (da_output ?da) val \<longleftrightarrow> stop < length out + val" for val
      using stop limit_u32 unfolding f(3) by (auto simp: sat_add_def)
    show ?thesis
    proof (cases "delta_leb128 val0 shift b")
      case None
      then show ?thesis unfolding delta_decoded_def Let_def f(1) s OpLen using bad [of DeltaMalformed] by simp
    next
      case (Some val)
      then show ?thesis
        unfolding delta_decoded_def Let_def f(1) s OpLen sat
        using set frame bad [of DeltaMalformed] by (cases "b AND 0x80 = 0"; cases is_add) simp_all
    qed
  next
    case (OpSeek len val0 shift)
    show ?thesis
    proof (cases "delta_leb128 val0 shift b")
      case None
      then show ?thesis unfolding delta_decoded_def Let_def f(1) s OpSeek using bad [of DeltaMalformed] by simp
    next
      case (Some val)
      note leb = Some
      show ?thesis
      proof (cases "b AND 0x80 = 0")
        case False
        then show ?thesis
          unfolding delta_decoded_def Let_def f(1) s OpSeek using leb set frame by simp
      next
        case True
        have seek: "core (?da\<lparr>da_cursor := c', da_op := OpAdd len\<rparr>) st (hist @ [b]) (OpAdd len, c', out)" for c'
          by (rule core_set_op [OF core_set_cursor [OF c]])
        show ?thesis
          unfolding delta_decoded_def Let_def f(1) f(2) f(4) s OpSeek
          using leb True seek bad [of BaseRange] by (cases "delta_seek (length base) cursor len val") simp_all
      qed
    qed
  next
    case (OpAdd left)
    have room: "cursor < length base" "length out < limit" using ok stop by (auto simp: s OpAdd)
    have step: "op_step base stop b s = (case Inr () of Inl e \<Rightarrow> Inl e | Inr u \<Rightarrow>
        case Inr () of Inl e \<Rightarrow> Inl e | Inr u \<Rightarrow>
          Inr (if left = 1 then OpTag else OpAdd (left - 1), cursor + 1, out @ [base ! cursor + b]))"
      by (simp add: s OpAdd)
    have impl: "delta_decoded io b stop da st = (case delta_base_byte io ?da st of
        Inl e \<Rightarrow> Inl e
      | Inr r \<Rightarrow> (case delta_emit io (fst r + b) ((fst (snd r))\<lparr>da_cursor := da_cursor (fst (snd r)) + 1\<rparr>) (snd (snd r)) of
            Inl e \<Rightarrow> Inl e
          | Inr q \<Rightarrow> Inr ((fst q)\<lparr>da_op := (if left = 1 then OpTag else OpAdd (left - 1))\<rparr>, snd q)))"
      unfolding delta_decoded_def Let_def f(1) OpAdd by (auto split: sum.split)
    show ?thesis
      unfolding step impl
    proof (rule sim_res_bind [OF base_byte_sim [OF c room(1)]])
      fix r and u :: unit
      assume r: "fst r = base ! cursor \<and> core (fst (snd r)) (snd (snd r)) (hist @ [b]) (op, cursor, out)
        \<and> frame_of (fst (snd r)) = frame_of ?da"
      obtain b' da1 st1 where r': "r = (b', da1, st1)" by (cases r)
      with r have b': "b' = base ! cursor" and c1: "core da1 st1 (hist @ [b]) (op, cursor, out)"
        and f1: "frame_of da1 = frame_of da" by auto
      have cur: "da_cursor da1 = cursor" by (rule core_fields(2) [OF c1])
      have c2: "core (da1\<lparr>da_cursor := cursor + 1\<rparr>) st1 (hist @ [b]) (op, cursor + 1, out)"
        by (rule core_set_cursor [OF c1])
      show "sim (\<lambda>q s'. core (fst q) (snd q) (hist @ [b]) s' \<and> frame_of (fst q) = frame_of da)
        (case Inr () of Inl e \<Rightarrow> Inl e
         | Inr u \<Rightarrow> Inr (if left = 1 then OpTag else OpAdd (left - 1), cursor + 1, out @ [base ! cursor + b]))
        (case delta_emit io (fst r + b) ((fst (snd r))\<lparr>da_cursor := da_cursor (fst (snd r)) + 1\<rparr>) (snd (snd r)) of
            Inl e \<Rightarrow> Inl e
          | Inr q \<Rightarrow> Inr ((fst q)\<lparr>da_op := (if left = 1 then OpTag else OpAdd (left - 1))\<rparr>, snd q))"
        unfolding r' fst_conv snd_conv cur b'
      proof (rule sim_res_bind [OF emit_sim [OF c2 room(2)]])
        fix q and u :: unit
        assume "core (fst q) (snd q) (hist @ [b]) (op, cursor + 1, out @ [base ! cursor + b])
          \<and> frame_of (fst q) = frame_of (da1\<lparr>da_cursor := cursor + 1\<rparr>)"
        then show "sim (\<lambda>q s'. core (fst q) (snd q) (hist @ [b]) s' \<and> frame_of (fst q) = frame_of da)
          (Inr (if left = 1 then OpTag else OpAdd (left - 1), cursor + 1, out @ [base ! cursor + b]))
          (Inr ((fst q)\<lparr>da_op := (if left = 1 then OpTag else OpAdd (left - 1))\<rparr>, snd q))"
          using f1 by (auto intro: core_set_op)
      qed
    qed
  next
    case (OpInsert left)
    have room: "length out < limit" using ok stop by (auto simp: s OpInsert)
    have step: "op_step base stop b s = (case Inr () of Inl e \<Rightarrow> Inl e | Inr u \<Rightarrow>
          Inr (if left = 1 then OpTag else OpInsert (left - 1), cursor, out @ [b]))"
      by (simp add: s OpInsert)
    have impl: "delta_decoded io b stop da st = (case delta_emit io b ?da st of
        Inl e \<Rightarrow> Inl e
      | Inr q \<Rightarrow> Inr ((fst q)\<lparr>da_op := (if left = 1 then OpTag else OpInsert (left - 1))\<rparr>, snd q))"
      unfolding delta_decoded_def Let_def f(1) OpInsert by (auto split: sum.split)
    show ?thesis
      unfolding step impl
    proof (rule sim_res_bind [OF emit_sim [OF c room]])
      fix q and u :: unit
      assume "core (fst q) (snd q) (hist @ [b]) (op, cursor, out @ [b]) \<and> frame_of (fst q) = frame_of ?da"
      then show "sim (\<lambda>q s'. core (fst q) (snd q) (hist @ [b]) s' \<and> frame_of (fst q) = frame_of da)
        (Inr (if left = 1 then OpTag else OpInsert (left - 1), cursor, out @ [b]))
        (Inr ((fst q)\<lparr>da_op := (if left = 1 then OpTag else OpInsert (left - 1))\<rparr>, snd q))"
        by (auto intro: core_set_op)
    qed
  qed
qed

lemma copy_sim:
  assumes "core da st hist s" and "op_ok base stop s" and "stop \<le> limit"
    and d: "1 \<le> d" "d \<le> LZSS_WINDOW" and limit_u32: "limit < U32_MAX"
  shows "sim (\<lambda>q s'. core (fst q) (snd q) (hist @ lz_copy d n hist) s' \<and> frame_of (fst q) = frame_of da)
    (op_steps base stop (lz_copy d n hist) s) (delta_copy io d n stop da st)"
  using assms(1-3)
proof (induction n arbitrary: da st hist s)
  case 0
  then show ?case by simp
next
  case (Suc n)
  let ?b = "hist_at d hist"
  have byte: "da_window da ((da_window_pos da + LZSS_WINDOW - d) mod LZSS_WINDOW) = ?b"
    using Suc.prems(1) d by (simp add: core_rel_def window_rel_at)
  have impl: "delta_copy io d (Suc n) stop da st = (case delta_decoded io ?b stop da st of
      Inl e \<Rightarrow> Inl e | Inr q \<Rightarrow> delta_copy io d n stop (fst q) (snd q))"
    using byte by (auto simp: Let_def split: sum.split)
  show ?case
    unfolding impl lz_copy.simps op_steps.simps
  proof (rule sim_res_bind_eq [OF decoded_sim [OF Suc.prems limit_u32]])
    fix q s'
    assume s': "op_step base stop ?b s = (Inr s' :: 'e delta_error + _)"
      and q: "core (fst q) (snd q) (hist @ [?b]) s' \<and> frame_of (fst q) = frame_of da"
    have "sim (\<lambda>q' s''. core (fst q') (snd q') ((hist @ [?b]) @ lz_copy d n (hist @ [?b])) s''
        \<and> frame_of (fst q') = frame_of (fst q))
      (op_steps base stop (lz_copy d n (hist @ [?b])) s') (delta_copy io d n stop (fst q) (snd q))"
      using q by (intro Suc.IH op_step_ok [OF Suc.prems(2) s'] Suc.prems(3)) simp
    then show "sim (\<lambda>q' s''. core (fst q') (snd q') (hist @ ?b # lz_copy d n (hist @ [?b])) s''
        \<and> frame_of (fst q') = frame_of da)
      (op_steps base stop (lz_copy d n (hist @ [?b])) s') (delta_copy io d n stop (fst q) (snd q))"
      by (rule sim_res_mono) (use q in simp)
  qed
qed

text \<open>Decoding changes no field outside the decompression state but the bit count.\<close>

definition outer_of :: "applier \<Rightarrow> nat \<times> stage \<times> bytes" where
  "outer_of da = (da_patch_offset da, da_stage da, da_header da)"

lemma outer_of_frame: "frame_of da' = frame_of da \<Longrightarrow> outer_of da' = outer_of da"
  by (simp add: frame_of_def outer_of_def)

lemma core_bit_count: "core (da\<lparr>da_bit_count := n\<rparr>) st hist s \<longleftrightarrow> core da st hist s"
  by (simp add: core_rel_def)

lemma items_sim:
  assumes "core da st hist s" and "op_ok base stop s" and "stop \<le> limit" and "bits_rel da bs"
    and limit_u32: "limit < U32_MAX"
  shows "sim (\<lambda>q s'. core (fst q) (snd q) (hist @ fst (lz_parse bs hist)) s'
      \<and> bits_rel (fst q) (snd (lz_parse bs hist)) \<and> outer_of (fst q) = outer_of da)
    (op_steps base stop (fst (lz_parse bs hist)) s) (delta_decode_items io stop da st)"
  using assms(1-4)
proof (induction "length bs" arbitrary: bs da st hist s rule: less_induct)
  case less
  show ?case
  proof (cases bs)
    case Nil
    then have "da_bit_count da = 0" using less.prems(4) by (simp add: bits_rel_def)
    then show ?thesis using less.prems Nil by (simp add: delta_decode_items.simps [of io stop da])
  next
    case (Cons b r)
    have count: "da_bit_count da = Suc (length r)" using less.prems(4) Cons by (simp add: bits_rel_def)
    have head: "(da_bits da div 2 ^ (da_bit_count da - 1) mod 2 = 1) = b"
      by (rule bits_rel_head) (use less.prems(4) Cons in simp)
    let ?da1 = "da\<lparr>da_bit_count := da_bit_count da - 1\<rparr>"
    have r1: "bits_rel ?da1 r" using bits_rel_drop [OF less.prems(4), of 1] Cons by simp
    show ?thesis
    proof (cases b)
      case True
      show ?thesis
      proof (cases "length r < 8")
        case short: True
        then have "delta_decode_items io stop da st = Inr (da, st)"
          using head True count by (simp add: delta_decode_items.simps [of io stop da] Let_def)
        then show ?thesis using less.prems short True Cons by simp
      next
        case long: False
        let ?b = "word_of_nat (bval (take 8 r)) :: u8"
        let ?da2 = "?da1\<lparr>da_bit_count := da_bit_count ?da1 - 8\<rparr>"
        have take: "delta_take_bits 8 ?da1 = (bval (take 8 r), ?da2)" and r2: "bits_rel ?da2 (drop 8 r)"
          using bits_rel_take [OF r1, of 8] bits_rel_drop [OF r1, of 8] long by simp_all
        have impl: "delta_decode_items io stop da st = (case delta_decoded io ?b stop ?da2 st of
            Inl e \<Rightarrow> Inl e | Inr q \<Rightarrow> delta_decode_items io stop (fst q) (snd q))"
          using head True long take count
          by (subst delta_decode_items.simps) (auto simp: Let_def split: sum.split)
        have parse: "lz_parse bs hist = (?b # fst (lz_parse (drop 8 r) (hist @ [?b])),
            snd (lz_parse (drop 8 r) (hist @ [?b])))"
          using True long Cons by (simp add: Let_def split_beta)
        have core2: "core ?da2 st hist s" using less.prems(1) by (simp add: core_bit_count)
        show ?thesis
          unfolding impl parse fst_conv snd_conv op_steps.simps
        proof (rule sim_res_bind_eq [OF decoded_sim [OF core2 less.prems(2,3) limit_u32]])
          fix q s'
          assume s': "op_step base stop ?b s = (Inr s' :: 'e delta_error + _)"
            and q: "core (fst q) (snd q) (hist @ [?b]) s' \<and> frame_of (fst q) = frame_of ?da2"
          have "sim (\<lambda>q' s''. core (fst q') (snd q') ((hist @ [?b]) @ fst (lz_parse (drop 8 r) (hist @ [?b]))) s''
              \<and> bits_rel (fst q') (snd (lz_parse (drop 8 r) (hist @ [?b]))) \<and> outer_of (fst q') = outer_of (fst q))
            (op_steps base stop (fst (lz_parse (drop 8 r) (hist @ [?b]))) s')
            (delta_decode_items io stop (fst q) (snd q))"
            using q r2 bits_rel_frame [of "fst q" ?da2]
            by (intro less.hyps op_step_ok [OF less.prems(2) s'] less.prems(3)) (simp_all add: Cons)
          then show "sim (\<lambda>q' s''. core (fst q') (snd q') (hist @ ?b # fst (lz_parse (drop 8 r) (hist @ [?b]))) s''
              \<and> bits_rel (fst q') (snd (lz_parse (drop 8 r) (hist @ [?b]))) \<and> outer_of (fst q') = outer_of da)
            (op_steps base stop (fst (lz_parse (drop 8 r) (hist @ [?b]))) s')
            (delta_decode_items io stop (fst q) (snd q))"
            by (rule sim_res_mono) (use q outer_of_frame [of "fst q" ?da2] in \<open>simp add: outer_of_def\<close>)
        qed
      qed
    next
      case False
      show ?thesis
      proof (cases "length r < 16")
        case short: True
        then have "delta_decode_items io stop da st = Inr (da, st)"
          using head False count by (simp add: delta_decode_items.simps [of io stop da] Let_def delta_consts)
        then show ?thesis using less.prems short False Cons by simp
      next
        case long: False
        let ?d = "bval (take 10 r) + 1" and ?n = "bval (take 6 (drop 10 r)) + 3"
        let ?da2 = "?da1\<lparr>da_bit_count := da_bit_count ?da1 - 10\<rparr>"
        let ?da3 = "?da2\<lparr>da_bit_count := da_bit_count ?da2 - 6\<rparr>"
        let ?ys = "lz_copy ?d ?n hist"
        have take1: "delta_take_bits LZSS_INDEX_BITS ?da1 = (bval (take 10 r), ?da2)"
          and r2: "bits_rel ?da2 (drop 10 r)"
          using bits_rel_take [OF r1, of 10] bits_rel_drop [OF r1, of 10] long by (simp_all add: delta_consts)
        have take2: "delta_take_bits LZSS_LENGTH_BITS ?da2 = (bval (take 6 (drop 10 r)), ?da3)"
          and r3: "bits_rel ?da3 (drop 16 r)"
          using bits_rel_take [OF r2, of 6] bits_rel_drop [OF r2, of 6] long by (simp_all add: delta_consts)
        have impl: "delta_decode_items io stop da st = (case delta_copy io ?d ?n stop ?da3 st of
            Inl e \<Rightarrow> Inl e | Inr q \<Rightarrow> delta_decode_items io stop (fst q) (snd q))"
          using head False long take1 take2 count
          by (subst delta_decode_items.simps)
            (auto simp: Let_def LZSS_MIN_MATCH_def LZSS_INDEX_BITS_def LZSS_LENGTH_BITS_def split: sum.split)
        have parse: "lz_parse bs hist = (?ys @ fst (lz_parse (drop 16 r) (hist @ ?ys)),
            snd (lz_parse (drop 16 r) (hist @ ?ys)))"
          using False long Cons by (simp add: Let_def split_beta)
        have core3: "core ?da3 st hist s" using less.prems(1) by (simp add: core_bit_count)
        have d: "1 \<le> ?d" "?d \<le> LZSS_WINDOW"
          using bval_less [of "take 10 r"] long by (simp_all add: delta_consts)
        show ?thesis
          unfolding impl parse fst_conv snd_conv op_steps_append
        proof (rule sim_res_bind_eq [OF copy_sim [OF core3 less.prems(2,3) d limit_u32]])
          fix q s'
          assume s': "op_steps base stop ?ys s = (Inr s' :: 'e delta_error + _)"
            and q: "core (fst q) (snd q) (hist @ ?ys) s' \<and> frame_of (fst q) = frame_of ?da3"
          have "sim (\<lambda>q' s''. core (fst q') (snd q') ((hist @ ?ys) @ fst (lz_parse (drop 16 r) (hist @ ?ys))) s''
              \<and> bits_rel (fst q') (snd (lz_parse (drop 16 r) (hist @ ?ys))) \<and> outer_of (fst q') = outer_of (fst q))
            (op_steps base stop (fst (lz_parse (drop 16 r) (hist @ ?ys))) s')
            (delta_decode_items io stop (fst q) (snd q))"
            using q r3 bits_rel_frame [of "fst q" ?da3]
            by (intro less.hyps op_steps_ok [OF less.prems(2) s'] less.prems(3)) (simp_all add: Cons)
          then show "sim (\<lambda>q' s''. core (fst q') (snd q') (hist @ ?ys @ fst (lz_parse (drop 16 r) (hist @ ?ys))) s''
              \<and> bits_rel (fst q') (snd (lz_parse (drop 16 r) (hist @ ?ys))) \<and> outer_of (fst q') = outer_of da)
            (op_steps base stop (fst (lz_parse (drop 16 r) (hist @ ?ys))) s')
            (delta_decode_items io stop (fst q) (snd q))"
            by (rule sim_res_mono) (use q outer_of_frame [of "fst q" ?da3] in \<open>simp add: outer_of_def\<close>)
        qed
      qed
    qed
  qed
qed

lemma take_update_snoc:
  "length xs = n \<Longrightarrow> n < length ys \<Longrightarrow> take n ys = xs \<Longrightarrow> take (Suc n) (ys[n := b]) = xs @ [b]"
  by (simp add: take_Suc_conv_app_nth)

abbreviation "rel \<equiv> da_rel base limit accepted"

lemma accepted_malformed:
  fixes R :: "'x \<Rightarrow> 'y \<Rightarrow> bool"
  assumes "accepted st acc"
  shows "sim R (Inl DeltaMalformed) (Inl (DeltaMalformed :: 'e delta_error, st))"
  using assms by (auto simp: sim_res_def)

lemma rel_malformed:
  fixes R :: "'x \<Rightarrow> 'y \<Rightarrow> bool"
  assumes "rel da st ab"
  shows "sim R (Inl DeltaMalformed) (Inl (DeltaMalformed :: 'e delta_error, st))"
  using assms by (auto simp: da_rel_def core_rel_def sim_res_def)

lemma rel_accepted: "rel da st ab \<Longrightarrow> (\<And>n stop. ab_stage ab \<noteq> Body n stop) \<Longrightarrow> accepted st (ab_out ab)"
  by (auto simp: da_rel_def core_rel_def)

lemma header_sim:
  assumes rel: "rel da st ab" and ok: "abs_ok base limit ab" and stage: "ab_stage ab = Header n"
  shows "sim (\<lambda>q y. fst q = fst y \<and> rel (fst (snd q)) (snd (snd q)) (snd y))
    (abs_byte base limit b ab) (delta_byte io b da st)"
proof -
  let ?h = "ab_header ab @ [b]" and ?h' = "(da_header da)[n := b]"
  have n: "length (ab_header ab) = n" "n < 12" using ok by (simp_all add: abs_ok.simps stage delta_consts)
  have da: "da_stage da = Header n" "length (da_header da) = 12" "take n (da_header da) = ab_header ab"
    using rel n by (simp_all add: da_rel_def stage delta_consts)
  have acc: "accepted st (ab_out ab)" by (rule rel_accepted [OF rel]) (simp add: stage)
  have take: "take (Suc n) ?h' = ?h" using take_update_snoc [OF n(1) _ da(3), of b] n da by simp
  show ?thesis
  proof (cases "Suc n < 12")
    case True
    then show ?thesis
      unfolding delta_byte_def abs_byte_def Let_def
      using rel take n da acc by (simp add: da stage delta_consts da_rel_def core_rel_def bits_rel_def)
  next
    case False
    then have "?h' = ?h" using take n da by simp
    then show ?thesis
      unfolding delta_byte_def abs_byte_def Let_def
      using rel n da False acc
      by (simp add: rel_malformed [OF rel] da stage delta_consts da_rel_def core_rel_def bits_rel_def)
  qed
qed

lemma block_header_sim:
  assumes rel: "rel da st ab" and ok: "abs_ok base limit ab" and stage: "ab_stage ab = BlockHeader n"
  shows "sim (\<lambda>q y. fst q = fst y \<and> rel (fst (snd q)) (snd (snd q)) (snd y))
    (abs_byte base limit b ab) (delta_byte io b da st)"
proof -
  let ?h = "ab_header ab @ [b]" and ?h' = "(da_header da)[n := b]"
  have n: "length (ab_header ab) = n" "n < 8" using ok by (simp_all add: abs_ok.simps stage delta_consts)
  have da: "da_stage da = BlockHeader n" "length (da_header da) = 12" "take n (da_header da) = ab_header ab"
    using rel n by (simp_all add: da_rel_def stage delta_consts)
  have acc: "accepted st (ab_out ab)" by (rule rel_accepted [OF rel]) (simp add: stage)
  have take: "take (Suc n) ?h' = ?h" using take_update_snoc [OF n(1) _ da(3), of b] n da by simp
  show ?thesis
  proof (cases "Suc n < 8")
    case True
    then show ?thesis
      unfolding delta_byte_def abs_byte_def Let_def
      using rel take n da acc by (simp add: da stage delta_consts da_rel_def core_rel_def bits_rel_def)
  next
    case False
    then have h: "take 8 ?h' = ?h" using take n by (simp add: eval_nat_numeral le_less_Suc_eq)
    have "take 4 ?h' = take 4 (take 8 ?h')" "slice 4 8 ?h' = slice 4 8 (take 8 ?h')"
      by (simp_all add: slice_def drop_take)
    then have h': "take 4 ?h' = take 4 ?h" "slice 4 8 ?h' = slice 4 8 ?h" using h by simp_all
    have fields: "da_base_len da = length base" "da_output da = length (ab_out ab)" "da_target_len da = limit"
      using rel by (simp_all add: da_rel_def core_rel_def)
    have words: "delta_read_u32 (take 4 (take 4 ?h)) = nat_of_le (take 4 ?h)"
      "delta_read_u32 (slice 4 8 ?h) = nat_of_le (slice 4 8 ?h)"
      by (simp_all add: delta_read_u32_def slice_def del: take_append drop_append)
    show ?thesis
    proof (cases "nat_of_le (take 4 ?h) = 0 \<or> length base < nat_of_le (slice 4 8 ?h)")
      case True
      then show ?thesis
        unfolding delta_byte_def abs_byte_def Let_def
        using False n
        by (simp add: rel_malformed [OF rel] da stage DELTA_BLOCK_HEADER_LEN_def h' words fields delta_read_u32_def)
    next
      case ok: False
      then show ?thesis
        unfolding delta_byte_def abs_byte_def Let_def
        using False n rel acc window_rel_init
        by (simp add: da stage DELTA_BLOCK_HEADER_LEN_def h' fields delta_read_u32_def da_rel_def core_rel_def
            bits_rel_def block_end_of_def)
    qed
  qed
qed

text \<open>The end of a block: the staged output is flushed and the checkpoint reported.\<close>

lemma block_end_sim:
  assumes core: "core da st hist (op, cursor, out)" and bits: "bits_rel da bs" and le: "length out \<le> limit"
    and outer: "da_patch_offset da = off" "length (da_header da) = DELTA_HEADER_LEN" and h: "ab_header ab = []"
  shows "sim (\<lambda>q y. fst q = fst y \<and> rel (fst (snd q)) (snd (snd q)) (snd y))
    (Inr (Some \<lparr>cp_patch_offset = off, cp_output = length out\<rparr>,
       ab\<lparr>ab_offset := off, ab_hist := hist, ab_bits := bs, ab_ops := (op, cursor, out),
          ab_stage := (if length out = limit then Done else BlockHeader 0)\<rparr>))
    (case delta_flush io da st of
       Inl e \<Rightarrow> Inl e
     | Inr (da2, st2) \<Rightarrow>
         Inr (Some \<lparr>cp_patch_offset = da_patch_offset da2, cp_output = da_output da2\<rparr>,
           da2\<lparr>da_stage := (if da_output da2 = da_target_len da2 then Done else BlockHeader 0)\<rparr>, st2))"
proof -
  from core obtain acc where acc: "accepted st acc" "out = acc @ da_out da" "length (da_out da) < STAGING"
    by (auto simp: core_rel_def)
  have len: "length (da_out da) \<le> STAGING" "length (acc @ da_out da) \<le> limit" using acc le by auto
  show ?thesis
  proof (cases rule: flush_cases [OF acc(1) len, case_names flushed sink])
    case (flushed st')
    then show ?thesis
      using core bits acc outer h by (simp add: da_rel_def core_rel_def bits_rel_def STAGING_def)
  next
    case (sink e st')
    then show ?thesis by (simp add: sim_res_def)
  qed
qed

lemma body_sim:
  assumes rel: "rel da st ab" and ok: "abs_ok base limit ab" and stage: "ab_stage ab = Body n stop"
    and limit_u32: "limit < U32_MAX"
  shows "sim (\<lambda>q y. fst q = fst y \<and> rel (fst (snd q)) (snd (snd q)) (snd y))
    (abs_byte base limit b ab) (delta_byte io b da st)"
proof -
  let ?off = "(ab_offset ab + 1) mod 2 ^ 32"
  let ?bs = "ab_bits ab @ byte_bits b"
  let ?xs = "fst (lz_parse ?bs (ab_hist ab))" and ?rest = "snd (lz_parse ?bs (ab_hist ab))"
  let ?da = "da\<lparr>da_patch_offset := ?off, da_bits := (da_bits da * 256) mod 2 ^ 32 + unat b,
      da_bit_count := da_bit_count da + 8\<rparr>"
  let ?tail = "\<lambda>s'. if n \<noteq> 1
      then Inr (None, ab\<lparr>ab_offset := ?off, ab_hist := ab_hist ab @ ?xs, ab_bits := ?rest, ab_ops := s',
          ab_stage := Body (n - 1) stop\<rparr>)
      else if length (snd (snd s')) \<noteq> stop \<or> fst s' \<noteq> OpTag \<or> 8 \<le> length ?rest then Inl DeltaMalformed
      else Inr (Some \<lparr>cp_patch_offset = ?off, cp_output = length (snd (snd s'))\<rparr>,
          ab\<lparr>ab_offset := ?off, ab_hist := ab_hist ab @ ?xs, ab_bits := ?rest, ab_ops := s',
          ab_stage := (if length (snd (snd s')) = limit then Done else BlockHeader 0)\<rparr>)"
  let ?tail' = "\<lambda>q. if n - 1 \<noteq> 0 then Inr (None, (fst q)\<lparr>da_stage := Body (n - 1) stop\<rparr>, snd q)
      else if da_output (fst q) \<noteq> stop \<or> da_op (fst q) \<noteq> OpTag \<or> 8 \<le> da_bit_count (fst q)
      then Inl (DeltaMalformed, snd q)
      else (case delta_flush io (fst q) (snd q) of
              Inl e \<Rightarrow> Inl e
            | Inr (da2, st2) \<Rightarrow>
                Inr (Some \<lparr>cp_patch_offset = da_patch_offset da2, cp_output = da_output da2\<rparr>,
                  da2\<lparr>da_stage := (if da_output da2 = da_target_len da2 then Done else BlockHeader 0)\<rparr>, st2))"
  have n: "0 < n" "stop \<le> limit" "ab_header ab = []" "length (ab_bits ab) \<le> 16" "op_ok base stop (ab_ops ab)"
    using ok by (simp_all add: abs_ok.simps stage)
  have da: "da_stage da = Body n stop" "length (da_header da) = DELTA_HEADER_LEN" "da_patch_offset da = ab_offset ab"
    "core da st (ab_hist ab) (ab_ops ab)" "bits_rel da (ab_bits ab)"
    using rel by (simp_all add: da_rel_def stage)
  have core: "core ?da st (ab_hist ab) (ab_ops ab)" using da(4) by (simp add: core_rel_def)
  have bits: "bits_rel ?da ?bs"
    using bits_rel_byte [OF da(5), of b] n(4) by (simp add: bits_rel_def)
  have spec: "abs_byte base limit b ab = (case op_steps base stop ?xs (ab_ops ab) of Inl e \<Rightarrow> Inl e | Inr s' \<Rightarrow> ?tail s')"
    unfolding abs_byte_def Let_def by (auto simp: stage split_beta split: sum.split)
  have impl: "delta_byte io b da st = (case delta_decode_items io stop ?da st of Inl e \<Rightarrow> Inl e | Inr q \<Rightarrow> ?tail' q)"
    unfolding delta_byte_def Let_def by (auto simp: da split_beta split: sum.split)
  show ?thesis
    unfolding spec impl
  proof (rule sim_res_bind_eq [OF items_sim [OF core n(5,2) bits limit_u32]])
    fix q s'
    assume s': "op_steps base stop ?xs (ab_ops ab) = (Inr s' :: 'e delta_error + _)"
      and q: "core (fst q) (snd q) (ab_hist ab @ ?xs) s' \<and> bits_rel (fst q) ?rest \<and> outer_of (fst q) = outer_of ?da"
    obtain op cursor out where s: "s' = (op, cursor, out)" by (cases s')
    have f: "da_op (fst q) = op" "da_output (fst q) = length out" "da_bit_count (fst q) = length ?rest"
      "da_patch_offset (fst q) = ?off" "length (da_header (fst q)) = DELTA_HEADER_LEN"
      using q da by (auto simp: s core_rel_def bits_rel_def outer_of_def)
    have le: "length out \<le> limit"
      using op_ok_length [of base stop op cursor out] op_steps_ok [OF n(5) s'] n(2) by (simp add: s)
    obtain acc where acc: "accepted (snd q) acc" using q by (auto simp: core_rel_def)
    show "sim (\<lambda>q y. fst q = fst y \<and> rel (fst (snd q)) (snd (snd q)) (snd y)) (?tail s') (?tail' q)"
    proof (cases "n = 1")
      case False
      then have "n - 1 \<noteq> 0" using n(1) by simp
      moreover have "rel ((fst q)\<lparr>da_stage := Body (n - 1) stop\<rparr>) (snd q)
          (ab\<lparr>ab_offset := ?off, ab_hist := ab_hist ab @ ?xs, ab_bits := ?rest, ab_ops := s',
            ab_stage := Body (n - 1) stop\<rparr>)"
        using q f n(3) by (simp add: da_rel_def core_rel_def bits_rel_def)
      ultimately show ?thesis using False by simp
    next
      case True
      show ?thesis
      proof (cases "length out \<noteq> stop \<or> op \<noteq> OpTag \<or> 8 \<le> length ?rest")
        case bad: True
        then have tails: "?tail s' = Inl DeltaMalformed" "?tail' q = Inl (DeltaMalformed, snd q)"
          using True f by (auto simp: s)
        show ?thesis unfolding tails by (rule accepted_malformed [OF acc])
      next
        case good: False
        have "core (fst q) (snd q) (ab_hist ab @ ?xs) (op, cursor, out)" using q by (simp add: s)
        from block_end_sim [OF this _ le f(4,5) n(3)] show ?thesis
          using q good True f by (simp add: s)
      qed
    qed
  qed
qed

lemma byte_sim:
  assumes rel: "rel da st ab" and ok: "abs_ok base limit ab" and limit_u32: "limit < U32_MAX"
  shows "sim (\<lambda>q y. fst q = fst y \<and> rel (fst (snd q)) (snd (snd q)) (snd y))
    (abs_byte base limit b ab) (delta_byte io b da st)"
proof (cases "ab_stage ab")
  case Done
  moreover have "da_stage da = Done" using rel Done by (simp add: da_rel_def)
  ultimately show ?thesis by (simp add: abs_byte_def delta_byte_def rel_malformed [OF rel])
qed (use header_sim [OF rel ok] block_header_sim [OF rel ok] body_sim [OF rel ok _ limit_u32] in blast)+

lemma push_sim:
  assumes "rel da st ab" and "abs_ok base limit ab" and limit_u32: "limit < U32_MAX"
  shows "sim (\<lambda>q y. fst q = fst y \<and> rel (fst (snd q)) (snd (snd q)) (snd y) \<and> abs_ok base limit (snd y))
    (abs_push base limit ck bs ab) (delta_push_from io ck bs da st)"
  using assms(1,2)
proof (induction bs arbitrary: ck da st ab)
  case Nil
  then show ?case by simp
next
  case (Cons b bs)
  have spec: "abs_push base limit ck (b # bs) ab = (case abs_byte base limit b ab of Inl e \<Rightarrow> Inl e
      | Inr y \<Rightarrow> abs_push base limit (case fst y of None \<Rightarrow> ck | Some c \<Rightarrow> Some c) bs (snd y))"
    by (auto split: sum.split)
  have impl: "delta_push_from io ck (b # bs) da st = (case delta_byte io b da st of Inl e \<Rightarrow> Inl e
      | Inr q \<Rightarrow> delta_push_from io (case fst q of None \<Rightarrow> ck | Some c \<Rightarrow> Some c) bs (fst (snd q)) (snd (snd q)))"
    by (auto split: sum.split)
  show ?case
    unfolding spec impl
  proof (rule sim_res_bind_eq [OF byte_sim [OF Cons.prems limit_u32, of b]])
    fix q y
    assume y: "abs_byte base limit b ab = (Inr y :: 'e delta_error + _)"
      and q: "fst q = fst y \<and> rel (fst (snd q)) (snd (snd q)) (snd y)"
    have "abs_ok base limit (snd y)"
      using abs_byte_ok [OF Cons.prems(2)] y limit_u32 by (metis less_imp_le prod.collapse)
    then show "sim (\<lambda>q y. fst q = fst y \<and> rel (fst (snd q)) (snd (snd q)) (snd y) \<and> abs_ok base limit (snd y))
      (abs_push base limit (case fst y of None \<Rightarrow> ck | Some c \<Rightarrow> Some c) bs (snd y))
      (delta_push_from io (case fst q of None \<Rightarrow> ck | Some c \<Rightarrow> Some c) bs (fst (snd q)) (snd (snd q)))"
      using Cons.IH q by simp
  qed
qed

lemma new_rel:
  assumes "accepted st []"
  shows "rel (applier_new limit (length base)) st abs_new"
  using assms window_rel_init
  by (simp add: da_rel_def core_rel_def bits_rel_def applier_new_def abs_new_def delta_consts slice_def)

lemma new_ok: "abs_ok base limit abs_new"
  by (simp add: abs_new_def abs_ok.simps delta_consts)

text \<open>A run from the start of a patch, against its specification.\<close>

lemma push_new:
  assumes "accepted st []" and "limit < U32_MAX"
  shows "sim (\<lambda>q y. fst q = fst y \<and> rel (fst (snd q)) (snd (snd q)) (snd y) \<and> abs_ok base limit (snd y))
    (abs_push base limit None patch abs_new) (delta_push io patch (applier_new limit (length base)) st)"
  unfolding delta_push_def by (rule push_sim [OF new_rel [OF assms(1)] new_ok assms(2)])

end

section \<open>Adapters\<close>

interpretation vec: delta_adapter "vec_io base" base limit "\<lambda>st out. st = out" "\<lambda>_. False"
  for base limit
  by unfold_locales (simp_all add: vec_io_def)

text \<open>An adapter that can refuse any call and records all of them: the state holds the number of
  calls so far, the accepted output and the calls; \<open>fails\<close> decides which calls are refused.\<close>

datatype io_call = ReadCall nat nat | WriteCall nat

definition faulty_io :: "bytes \<Rightarrow> (nat \<Rightarrow> bool) \<Rightarrow> (nat \<times> bytes \<times> io_call list, nat) delta_io" where
  "faulty_io base fails =
    \<lparr>io_read_base = (\<lambda>(n, out, calls) offset len.
        let st' = (n + 1, out, calls @ [ReadCall offset len]) in
        if fails n \<or> length base < offset + len then (Inl n, st')
        else (Inr (slice offset (offset + len) base), st')),
     io_write = (\<lambda>(n, out, calls) bs.
        let st' = (n + 1, out, calls @ [WriteCall (length bs)]) in
        if fails n then (Inl n, st') else (Inr (), (n + 1, out @ bs, calls @ [WriteCall (length bs)])))\<rparr>"

fun call_ok :: "nat \<Rightarrow> io_call \<Rightarrow> bool" where
  "call_ok base_len (ReadCall offset len) \<longleftrightarrow> 0 < len \<and> len \<le> STAGING \<and> offset + len \<le> base_len"
| "call_ok base_len (WriteCall len) \<longleftrightarrow> 0 < len \<and> len \<le> STAGING"

fun written :: "io_call list \<Rightarrow> nat" where
  "written [] = 0"
| "written (ReadCall offset len # cs) = written cs"
| "written (WriteCall len # cs) = len + written cs"

lemma written_append [simp]: "written (cs @ ds) = written cs + written ds"
  by (induction cs rule: written.induct) auto

interpretation faulty: delta_adapter "faulty_io base fails" base limit
  "\<lambda>(n, out, calls) out'. out' = out \<and> list_all (call_ok (length base)) calls \<and> written calls = length out
     \<and> length out \<le> limit"
  "\<lambda>(n, out, calls). list_all (call_ok (length base)) calls \<and> written calls \<le> limit"
  for base fails limit
  by unfold_locales (auto simp: faulty_io_def Let_def)

section \<open>Resuming\<close>

text \<open>At a block boundary only the position and the output matter.\<close>

definition ab_same :: "delta_abs \<Rightarrow> delta_abs \<Rightarrow> bool" where
  "ab_same ab ab' \<longleftrightarrow> ab_offset ab' = ab_offset ab \<and> ab_stage ab' = ab_stage ab
     \<and> ab_header ab' = ab_header ab \<and> ab_out ab' = ab_out ab
     \<and> (\<forall>n stop. ab_stage ab = Body n stop \<longrightarrow>
          ab_hist ab' = ab_hist ab \<and> ab_bits ab' = ab_bits ab \<and> ab_ops ab' = ab_ops ab)"

definition ab_same_result ::
  "'e delta_error + checkpoint option \<times> delta_abs \<Rightarrow> 'e delta_error + checkpoint option \<times> delta_abs \<Rightarrow> bool" where
  "ab_same_result r r' \<longleftrightarrow>
    (case r of
       Inl e \<Rightarrow> r' = Inl e
     | Inr (ck, ab) \<Rightarrow> (\<exists>ab'. r' = Inr (ck, ab') \<and> ab_same ab ab'))"

lemma ab_same_Body:
  "ab_same ab ab' \<Longrightarrow> ab_stage ab = Body n stop \<Longrightarrow> ab' = ab"
  by (cases ab; cases ab') (simp add: ab_same_def)

lemma abs_byte_same:
  assumes same: "ab_same ab ab'"
  shows "ab_same_result (abs_byte base limit b ab) (abs_byte base limit b ab')"
proof (cases "ab_stage ab")
  case (Header n)
  then show ?thesis
    using same by (simp add: ab_same_result_def abs_byte_def Let_def ab_same_def)
next
  case (BlockHeader n)
  then show ?thesis
    using same by (simp add: ab_same_result_def abs_byte_def Let_def ab_same_def)
next
  case (Body n stop)
  then have "ab' = ab" by (rule ab_same_Body [OF same])
  then show ?thesis
    by (auto simp: ab_same_result_def ab_same_def split: sum.split)
next
  case Done
  then show ?thesis using same by (simp add: ab_same_result_def abs_byte_def Let_def ab_same_def)
qed

lemma abs_push_same:
  "ab_same ab ab' \<Longrightarrow>
   ab_same_result (abs_push base limit ck bs ab :: 'e delta_error + _) (abs_push base limit ck bs ab')"
proof (induction bs arbitrary: ck ab ab')
  case Nil
  then show ?case by (simp add: ab_same_result_def)
next
  case (Cons b bs)
  have same: "ab_same_result (abs_byte base limit b ab) (abs_byte base limit b ab' :: 'e delta_error + _)"
    by (rule abs_byte_same [OF Cons.prems])
  show ?case
  proof (cases "abs_byte base limit b ab :: 'e delta_error + _")
    case (Inl e)
    then show ?thesis using same by (simp add: ab_same_result_def)
  next
    case (Inr r)
    then show ?thesis using same Cons.IH by (cases r) (auto simp: ab_same_result_def [of "Inr (_, _)"])
  qed
qed

text \<open>What a caller sees of a run: the error, or the last checkpoint, all output accepted or
  staged, the position in the patch and the stage.\<close>

definition delta_outcome ::
  "('e delta_error \<times> bytes) + checkpoint option \<times> applier \<times> bytes
     \<Rightarrow> 'e delta_error + checkpoint option \<times> bytes \<times> nat \<times> stage" where
  "delta_outcome r =
    (case r of
       Inl (e, out) \<Rightarrow> Inl e
     | Inr (ck, da, out) \<Rightarrow> Inr (ck, out @ da_out da, da_patch_offset da, da_stage da))"

lemma vec_push_outcome:
  assumes "da_rel base limit (\<lambda>st out. st = out) da st ab" and "abs_ok base limit ab" and "limit < U32_MAX"
  shows "delta_outcome (delta_push (vec_io base) bs da st) =
    (case abs_push base limit None bs ab of
       Inl e \<Rightarrow> Inl e
     | Inr (ck, ab') \<Rightarrow> Inr (ck, ab_out ab', ab_offset ab', ab_stage ab'))"
  using vec.push_sim [OF assms, of None bs]
  by (auto simp: sim_res_def delta_push_def delta_outcome_def da_rel_def core_rel_def
      split: sum.splits prod.splits)

lemma resume_rel:
  assumes rel: "da_rel base limit (\<lambda>st out. st = out) da st ab" and ok: "abs_ok base limit ab"
    and stage: "ab_stage ab = (if length (ab_out ab) = limit then Done else BlockHeader 0)"
  defines "ck \<equiv> \<lparr>cp_patch_offset = ab_offset ab, cp_output = length (ab_out ab)\<rparr>"
  defines "ab' \<equiv> \<lparr>ab_offset = ab_offset ab, ab_stage = ab_stage ab, ab_header = [], ab_hist = [], ab_bits = [],
      ab_ops = (OpTag, 0, ab_out ab)\<rparr>"
  shows "da_rel base limit (\<lambda>st out. st = out) (applier_resume limit (length base) ck) st ab'"
    and "abs_ok base limit ab'" and "ab_same ab ab'"
proof -
  have le: "length (ab_out ab) \<le> limit" using ok by (simp add: abs_ok.simps)
  have "st = ab_out ab" using vec.rel_accepted [OF rel] stage by (auto split: if_splits)
  then show "da_rel base limit (\<lambda>st out. st = out) (applier_resume limit (length base) ck) st ab'"
    using le stage window_rel_init
    by (auto simp: da_rel_def core_rel_def bits_rel_def applier_resume_def applier_new_def ck_def ab'_def
        delta_consts slice_def)
  show "abs_ok base limit ab'"
    using le stage by (simp add: abs_ok.simps ab'_def delta_consts)
  show "ab_same ab ab'"
    using ok stage by (auto simp: ab_same_def ab'_def abs_ok.simps split: if_splits)
qed

lemma abs_byte_checkpoint:
  assumes "abs_byte base limit b ab = (Inr (Some ck, ab') :: 'e delta_error + _)"
  shows "ck = \<lparr>cp_patch_offset = ab_offset ab', cp_output = length (ab_out ab')\<rparr>"
    and "ab_stage ab' = (if length (ab_out ab') = limit then Done else BlockHeader 0)"
  using assms
  by (auto simp: abs_byte_def Let_def split: stage.splits if_splits sum.splits prod.splits)

text \<open>The calls of a run over \<open>faulty_io\<close>, however it ends.\<close>

definition delta_calls :: "('x \<times> nat \<times> bytes \<times> io_call list) + (checkpoint option \<times> applier \<times> nat \<times> bytes \<times> io_call list)
    \<Rightarrow> io_call list" where
  "delta_calls r = (case r of Inl (e, st) \<Rightarrow> snd (snd st) | Inr (ck, da, st) \<Rightarrow> snd (snd st))"

lemma replicate_12: "replicate 12 x = [x, x, x, x, x, x, x, x, x, x, x, x]"
  by (simp add: eval_nat_numeral)

lemmas delta_eval = replicate_12 Let_def delta_push_def delta_byte_def applier_new_def delta_consts DELTA_MAGIC_def DELTA_VERSION_def
  delta_read_u32_def slice_def sat_add_def delta_decode_items.simps
  delta_take_bits_def delta_decoded_def delta_leb128_def delta_emit_def delta_flush_def vec_io_def

text \<open>A patch that inserts one byte, up to its last byte and with it.\<close>

definition tiny_patch :: bytes where
  "tiny_patch = [0x52, 0x53, 0x44, 0x50, 1, 0, 0, 0, 1, 0, 0, 0, 4, 0, 0, 0, 0, 0, 0, 0, 0x81, 0x40, 0x68]"

definition tiny_state :: applier where
  "tiny_state = \<lparr>da_target_len = 1, da_base_len = 1, da_patch_offset = 23, da_output = 0,
     da_stage = Body 1 1, da_header = [4, 0, 0, 0, 0, 0, 0, 0, 1, 0, 0, 0],
     da_window = (\<lambda>_. 0)(0 := 2, 1 := 1), da_window_pos = 2, da_bits = 0x814068, da_bit_count = 6,
     da_op = OpInsert 1, da_cursor = 0, da_out = [], da_cache_start = 0, da_cache = []\<rparr>"

lemma tiny_prefix: "delta_push (vec_io [7]) tiny_patch (applier_new 1 1) [] = Inr (None, tiny_state, [])"
  by (simp add: delta_eval tiny_patch_def tiny_state_def)

lemma tiny_last: "\<exists>da. delta_byte (vec_io [7]) 0x20 tiny_state [] =
    Inr (Some \<lparr>cp_patch_offset = 24, cp_output = 1\<rparr>, da, [0x41])"
  by (simp add: delta_eval tiny_state_def)

text \<open>A caller that pushes a patch piece by piece and remembers the last checkpoint.\<close>

fun delta_pushes ::
  "('io, 'e) delta_io \<Rightarrow> bytes list \<Rightarrow> checkpoint option \<Rightarrow> applier \<Rightarrow> 'io
     \<Rightarrow> ('e delta_error \<times> 'io) + checkpoint option \<times> applier \<times> 'io" where
  "delta_pushes io [] ck da st = Inr (ck, da, st)"
| "delta_pushes io (piece # pieces) ck da st =
    (case delta_push io piece da st of
       Inl e \<Rightarrow> Inl e
     | Inr (ck', da', st') \<Rightarrow>
         delta_pushes io pieces (case ck' of None \<Rightarrow> ck | Some c \<Rightarrow> Some c) da' st')"

section \<open>Properties\<close>

text \<open>C11: over an in-memory base and output, the streaming applier computes what the patch means:
  it fails with the specified error or reaches the specified output, position, checkpoint and
  stage, for every patch, valid or not, and whatever its ring buffer, staging and read cache
  hold.\<close>

theorem delta_refines_machine:
  assumes "limit < U32_MAX"
  shows "delta_outcome (delta_push (vec_io base) patch (applier_new limit (length base)) []) =
    (case abs_push base limit None patch abs_new of
       Inl e \<Rightarrow> Inl e
     | Inr (ck, ab) \<Rightarrow> Inr (ck, ab_out ab, ab_offset ab, ab_stage ab))"
  by (rule vec_push_outcome [OF vec.new_rel [of "[]"] vec.new_ok assms]) simp

theorem delta_refines_machine_witness:
  "delta_outcome (delta_push (vec_io [7]) [0x52, 0x53, 0x44] (applier_new 5 1) []) = Inr (None, [], 3, Header 3)"
  using delta_refines_machine [of 5 "[7]" "[0x52, 0x53, 0x44]"]
  by (simp add: abs_new_def abs_byte_def delta_consts)

text \<open>C14: against every patch and every adapter that may refuse any call, the applier reads at
  least 1 and at most 256 bytes and only inside the base image, writes 1 to 256 bytes at a time,
  and never writes more than the target's length, also when the run ends in an error.\<close>

theorem delta_io_discipline:
  assumes "limit < U32_MAX"
  shows "list_all (call_ok (length base))
      (delta_calls (delta_push (faulty_io base fails) patch (applier_new limit (length base)) (0, [], [])))
    \<and> written (delta_calls (delta_push (faulty_io base fails) patch (applier_new limit (length base)) (0, [], [])))
        \<le> limit"
  using faulty.push_new [where st = "(0, [], [])" and base = base and limit = limit and fails = fails
      and patch = patch] assms
  by (auto simp: sim_res_def delta_calls_def da_rel_def core_rel_def split: sum.splits)

theorem delta_io_discipline_witness:
  "list_all (call_ok 1)
      (delta_calls (delta_push (faulty_io [7] (\<lambda>n. n = 0)) [0x52, 0x53] (applier_new 5 1) (0, [], [])))"
  using delta_io_discipline [of 5 "[7]" "\<lambda>n. n = 0" "[0x52, 0x53]"] by simp

text \<open>C15: resuming is sound: whenever a byte completes a block and a checkpoint is reported, a
  fresh applier resumed at that checkpoint, over the output accepted so far, ends exactly as the
  original would on every continuation of the patch.\<close>

theorem delta_resume_continues:
  assumes limit: "limit < U32_MAX"
    and before: "delta_push (vec_io base) patch (applier_new limit (length base)) [] = Inr (c, da0, out0)"
    and block: "delta_byte (vec_io base) b da0 out0 = Inr (Some ck, da, out)"
  shows "cp_output ck = length out \<and>
    delta_outcome (delta_push (vec_io base) rest (applier_resume limit (length base) ck) out) =
    delta_outcome (delta_push (vec_io base) rest da out)"
proof -
  let ?rel = "da_rel base limit (\<lambda>st out. st = out)"
  obtain ab0 where rel0: "?rel da0 out0 ab0" and ok0: "abs_ok base limit ab0"
    using vec.push_new [of "[]" limit base patch] limit before by auto
  obtain ab where y: "abs_byte base limit b ab0 = (Inr (Some ck, ab) :: unit delta_error + _)"
    and rel: "?rel da out ab"
    using vec.byte_sim [OF rel0 ok0 limit, of b] block by auto
  note ck = abs_byte_checkpoint [OF y]
  have ok: "abs_ok base limit ab" using abs_byte_ok [OF ok0 _ y] limit by simp
  note resumed = resume_rel [OF rel ok ck(2), folded ck(1)]
  have out: "out = ab_out ab" using vec.rel_accepted [OF rel] ck(2) by (auto split: if_splits)
  have "delta_outcome (delta_push (vec_io base) rest (applier_resume limit (length base) ck) out) =
      delta_outcome (delta_push (vec_io base) rest da out)"
    unfolding vec_push_outcome [OF resumed(1,2) limit] vec_push_outcome [OF rel ok limit]
    using abs_push_same [OF resumed(3), of base limit None rest, where 'e = unit]
    by (auto simp: ab_same_result_def ab_same_def split: sum.splits)
  then show ?thesis using ck(1) out by simp
qed

theorem delta_resume_continues_witness:
  "\<exists>da. delta_outcome (delta_push (vec_io [7]) [0]
        (applier_resume 1 1 \<lparr>cp_patch_offset = 24, cp_output = 1\<rparr>) [0x41]) =
     delta_outcome (delta_push (vec_io [7]) [0] da [0x41])"
proof -
  obtain da where "delta_byte (vec_io [7]) 0x20 tiny_state [] =
      Inr (Some \<lparr>cp_patch_offset = 24, cp_output = 1\<rparr>, da, [0x41])"
    using tiny_last by blast
  from delta_resume_continues [of 1 "[7]" tiny_patch, OF _ _ this, of None "[0]"] show ?thesis
    using tiny_prefix by auto
qed

lemma delta_pushes_concat: "delta_pushes io pieces ck da st = delta_push_from io ck (concat pieces) da st"
proof (induction pieces arbitrary: ck da st)
  case Nil
  then show ?case by simp
next
  case (Cons piece pieces)
  show ?case
  proof (cases "delta_push_from io None piece da st")
    case (Inl e)
    then show ?thesis
      using delta_push_from_checkpoint [of io ck piece da st]
      by (simp add: delta_push_def delta_push_from_append)
  next
    case (Inr r)
    obtain ck' da' st' where "r = (ck', da', st')" by (cases r)
    then show ?thesis
      using Inr delta_push_from_checkpoint [of io ck piece da st] Cons.IH
      by (simp add: delta_push_def delta_push_from_append)
  qed
qed

text \<open>How a patch is cut into pieces does not matter: pushing the pieces one after another
  ends as pushing their concatenation, and the last checkpoint reported is the same.\<close>

theorem delta_push_chunks:
  "delta_pushes io pieces None da st = delta_push io (concat pieces) da st"
  by (simp add: delta_pushes_concat delta_push_def)

end
