(* ===== verification/Delta_Roundtrip.thy ===== *)
theory Delta_Roundtrip
  imports Delta_Pack Delta_Refine
begin

text \<open>
  Creation against application: the specification of theory \<open>Delta_Machine\<close> runs every patch
  that \<open>create\<close> writes to its end and leaves the target, and with the refinement of theory
  \<open>Delta_Refine\<close> so does the streaming applier, however the patch is cut into pieces.
\<close>

section \<open>Sizes\<close>

lemma leb128_bytes_length: "v < 128 ^ Suc k \<Longrightarrow> length (leb128_bytes v) \<le> Suc k"
proof (induction k arbitrary: v)
  case 0
  then show ?case by (simp add: leb128_bytes.simps [of v])
next
  case (Suc k)
  then have "v div 128 < 128 ^ Suc k" by (simp add: less_mult_imp_div_less mult.commute)
  with Suc.IH show ?case by (auto simp: leb128_bytes.simps [of v])
qed

lemma leb128_bytes_u32: "v < 2 ^ 32 \<Longrightarrow> length (leb128_bytes v) \<le> 5"
  using leb128_bytes_length [of v 4] by simp

lemma op_stream_length:
  assumes base: "length base \<le> 2 ^ 31"
  shows "tiles base a ops z \<Longrightarrow> z \<le> length target \<Longrightarrow> length target < 2 ^ 32 \<Longrightarrow> cursor \<le> length base \<Longrightarrow>
    length (op_stream base target (int cursor) ops) + 12 * a \<le> 12 * z"
proof (induction ops arbitrary: a cursor)
  case (Cons op ops)
  have rest: "tiles base (a + c_len op) ops z" and fits: "op_fits base op" and at: "c_target_at op = a"
    using Cons.prems(1) by simp_all
  have z: "a + c_len op \<le> z" by (rule tiles_le [OF rest])
  then have len: "length (leb128_bytes (c_len op)) \<le> 5"
    using Cons.prems by (intro leb128_bytes_u32) simp
  have pos: "0 < c_len op" by (rule op_fits_pos [OF fits])
  show ?case
  proof (cases op)
    case (CAdd base_at target_at n)
    have fits': "base_at + n \<le> length base" using fits CAdd by simp
    have seek: "length (leb128_bytes (zigzag_encode (int base_at - int cursor))) \<le> 5"
      using base fits' pos CAdd Cons.prems(4) by (intro leb128_bytes_u32 zigzag_less) auto
    have "length (op_stream base target (int (base_at + n)) ops) + 12 * (a + n) \<le> 12 * z"
      using Cons.IH [of "a + n" "base_at + n"] rest fits' CAdd Cons.prems by simp
    then show ?thesis using CAdd seek len pos by simp
  next
    case (CInsert target_at n)
    have "length (op_stream base target (int cursor) ops) + 12 * (a + n) \<le> 12 * z"
      using Cons.IH [of "a + n" cursor] rest CInsert Cons.prems by simp
    then show ?thesis using CInsert len pos by simp
  qed
qed simp

lemma op_start_le: "tiles base a ops z \<Longrightarrow> op_start ops \<le> length base"
proof (induction ops arbitrary: a)
  case (Cons op ops)
  then show ?case by (cases op) (auto simp: op_start_def)
qed (simp add: op_start_def)

lemma op_stream_nonempty: "ops \<noteq> [] \<Longrightarrow> op_stream base target cursor ops \<noteq> []"
  by (cases ops; cases "hd ops") auto

lemma lzss_nonempty: "input \<noteq> [] \<Longrightarrow> lzss input \<noteq> []"
  using lzss_parse(1) [of input] by auto

section \<open>Runs of the specification\<close>

lemma abs_push_append:
  "abs_push base limit ck (a @ b) ab =
    (case abs_push base limit ck a ab of Inl e \<Rightarrow> Inl e | Inr (ck', ab') \<Rightarrow> abs_push base limit ck' b ab')"
  by (induction a arbitrary: ck ab) (auto split: sum.split)

lemma body_run:
  "bs \<noteq> [] \<Longrightarrow> ab_stage ab = Body (length bs) stop \<Longrightarrow> ab_header ab = [] \<Longrightarrow>
   lz_parse (ab_bits ab @ bytes_bits bs) (ab_hist ab) = (xs, rest) \<Longrightarrow> length rest < 8 \<Longrightarrow>
   op_steps base stop xs (ab_ops ab) = (Inr (OpTag, cursor, out) :: 'e delta_error + _) \<Longrightarrow> length out = stop \<Longrightarrow>
   \<exists>ck' ab'. abs_push base limit ck bs ab = (Inr (ck', ab') :: 'e delta_error + _) \<and> ab_header ab' = []
     \<and> ab_out ab' = out \<and> ab_stage ab' = (if stop = limit then Done else BlockHeader 0)"
proof (induction bs arbitrary: ab ck xs)
  case (Cons b bs)
  obtain xs1 rest1 where first: "lz_parse (ab_bits ab @ byte_bits b) (ab_hist ab) = (xs1, rest1)"
    by (cases "lz_parse (ab_bits ab @ byte_bits b) (ab_hist ab)")
  obtain xs2 rest2 where then_: "lz_parse (rest1 @ bytes_bits bs) (ab_hist ab @ xs1) = (xs2, rest2)"
    by (cases "lz_parse (rest1 @ bytes_bits bs) (ab_hist ab @ xs1)")
  have xs: "xs = xs1 @ xs2" "rest = rest2"
    using Cons.prems(4) lz_parse_append [of "ab_bits ab @ byte_bits b" "bytes_bits bs" "ab_hist ab"] first then_
    by simp_all
  obtain op1 c1 out1 where s1: "op_steps base stop xs1 (ab_ops ab) = (Inr (op1, c1, out1) :: 'e delta_error + _)"
    and s2: "op_steps base stop xs2 (op1, c1, out1) = (Inr (OpTag, cursor, out) :: 'e delta_error + _)"
    using Cons.prems(6) xs by (auto simp: op_steps_append split: sum.splits)
  show ?case
  proof (cases "bs = []")
    case True
    have "xs2 = []" "rest2 = rest1" using then_ True lz_parse_rest [OF first] by simp_all
    then show ?thesis
      using Cons.prems True first s1 s2 xs by (simp add: abs_byte_def Let_def)
  next
    case False
    let ?ab = "ab\<lparr>ab_offset := (ab_offset ab + 1) mod 2 ^ 32, ab_hist := ab_hist ab @ xs1, ab_bits := rest1,
        ab_ops := (op1, c1, out1), ab_stage := Body (length bs) stop\<rparr>"
    have step: "abs_byte base limit b ab = (Inr (None, ?ab) :: 'e delta_error + _)"
      using Cons.prems(2) False first s1 by (simp add: abs_byte_def Let_def)
    have "\<exists>ck' ab'. abs_push base limit ck bs ?ab = (Inr (ck', ab') :: 'e delta_error + _) \<and> ab_header ab' = []
        \<and> ab_out ab' = out \<and> ab_stage ab' = (if stop = limit then Done else BlockHeader 0)"
      using Cons.prems(3,5,7) then_ xs s2 by (intro Cons.IH [OF False]) simp_all
    then show ?thesis unfolding abs_push.simps step by simp
  qed
qed simp

lemma length8: "length xs = 8 \<Longrightarrow> \<exists>a b c d e f g h. xs = [a, b, c, d, e, f, g, h]"
  by (auto simp: eval_nat_numeral length_Suc_conv)

lemma length4: "length xs = 4 \<Longrightarrow> \<exists>a b c d. xs = [a, b, c, d]"
  by (auto simp: eval_nat_numeral length_Suc_conv)

lemma header_bytes_run:
  "ab_stage ab = Header (length (ab_header ab)) \<Longrightarrow> length (ab_header ab) + length xs < DELTA_HEADER_LEN \<Longrightarrow>
   \<exists>offset. abs_push base limit ck (xs @ bs) ab = (abs_push base limit ck bs (ab\<lparr>ab_offset := offset,
       ab_header := ab_header ab @ xs, ab_stage := Header (length (ab_header ab) + length xs)\<rparr>) :: 'e delta_error + _)"
proof (induction xs arbitrary: ab)
  case Nil
  then show ?case by (cases ab) (auto intro!: exI [of _ "ab_offset ab"])
next
  case (Cons x xs)
  let ?ab = "ab\<lparr>ab_offset := (ab_offset ab + 1) mod 2 ^ 32, ab_header := ab_header ab @ [x],
      ab_stage := Header (length (ab_header ab) + 1)\<rparr>"
  have "abs_byte base limit x ab = (Inr (None, ?ab) :: 'e delta_error + _)"
    using Cons.prems by (simp add: abs_byte_def Let_def)
  then show ?case using Cons.IH [of ?ab] Cons.prems by simp
qed

lemma block_header_bytes_run:
  "ab_stage ab = BlockHeader (length (ab_header ab)) \<Longrightarrow> length (ab_header ab) + length xs < DELTA_BLOCK_HEADER_LEN \<Longrightarrow>
   \<exists>offset. abs_push base limit ck (xs @ bs) ab = (abs_push base limit ck bs (ab\<lparr>ab_offset := offset,
       ab_header := ab_header ab @ xs, ab_stage := BlockHeader (length (ab_header ab) + length xs)\<rparr>) :: 'e delta_error + _)"
proof (induction xs arbitrary: ab)
  case Nil
  then show ?case by (cases ab) (auto intro!: exI [of _ "ab_offset ab"])
next
  case (Cons x xs)
  let ?ab = "ab\<lparr>ab_offset := (ab_offset ab + 1) mod 2 ^ 32, ab_header := ab_header ab @ [x],
      ab_stage := BlockHeader (length (ab_header ab) + 1)\<rparr>"
  have "abs_byte base limit x ab = (Inr (None, ?ab) :: 'e delta_error + _)"
    using Cons.prems by (simp add: abs_byte_def Let_def)
  then show ?case using Cons.IH [of ?ab] Cons.prems by simp
qed

lemma block_header_last:
  assumes "ab_stage ab = BlockHeader 7" and "ab_header ab @ [b] = h" and "take 4 h = hs" and "slice 4 8 h = os"
    and "0 < nat_of_le hs" and "nat_of_le os \<le> length base"
  shows "abs_byte base limit b ab = Inr (None, ab\<lparr>ab_offset := (ab_offset ab + 1) mod 2 ^ 32, ab_header := [],
      ab_hist := [], ab_bits := [], ab_ops := (OpTag, nat_of_le os, ab_out ab),
      ab_stage := Body (nat_of_le hs) (block_end_of limit (length (ab_out ab)))\<rparr>)"
  using assms by (simp add: abs_byte_def delta_consts Let_def)

lemma header_last:
  assumes "ab_stage ab = Header 11" and "ab_header ab @ [b] = h" and "take 4 h = DELTA_MAGIC" and "h ! 4 = DELTA_VERSION"
    and "slice 5 8 h = [0, 0, 0]" and "slice 8 12 h = n" and "nat_of_le n = limit" and "0 < limit"
  shows "abs_byte base limit b ab = Inr (None, ab\<lparr>ab_offset := (ab_offset ab + 1) mod 2 ^ 32, ab_header := [],
      ab_stage := BlockHeader 0\<rparr>)"
  using assms by (simp add: abs_byte_def delta_consts Let_def)

lemma block_header_run:
  assumes ab: "ab_stage ab = BlockHeader 0" "ab_header ab = []" and len: "length hs = 4" "length os = 4"
    and ok: "0 < nat_of_le hs" "nat_of_le os \<le> length base"
  shows "\<exists>offset. abs_push base limit ck (hs @ os @ bs) ab =
    (abs_push base limit ck bs (ab\<lparr>ab_offset := offset, ab_hist := [], ab_bits := [],
        ab_ops := (OpTag, nat_of_le os, ab_out ab),
        ab_stage := Body (nat_of_le hs) (block_end_of limit (length (ab_out ab)))\<rparr>) :: 'e delta_error + _)"
proof -
  let ?front = "hs @ butlast os"
  have os: "os = butlast os @ [last os]" using len by (metis append_butlast_last_id list.size(3) zero_neq_numeral)
  have all: "hs @ os @ bs = ?front @ last os # bs" using os by (metis append.assoc append_Cons append_Nil)
  obtain offset where front: "abs_push base limit ck (?front @ last os # bs) ab =
      (abs_push base limit ck (last os # bs) (ab\<lparr>ab_offset := offset, ab_header := ?front, ab_stage := BlockHeader 7\<rparr>)
        :: 'e delta_error + _)"
    using block_header_bytes_run [of ab ?front base limit ck "last os # bs", where 'e = 'e] ab len
    by (auto simp: delta_consts)
  have whole: "?front @ [last os] = hs @ os" using os by simp
  have parts: "take 4 (hs @ os) = hs" "slice 4 8 (hs @ os) = os" using len by (simp_all add: slice_def)
  have "abs_byte base limit (last os) (ab\<lparr>ab_offset := offset, ab_header := ?front, ab_stage := BlockHeader 7\<rparr>) =
      (Inr (None, ab\<lparr>ab_offset := (offset + 1) mod 2 ^ 32, ab_hist := [], ab_bits := [],
        ab_ops := (OpTag, nat_of_le os, ab_out ab),
        ab_stage := Body (nat_of_le hs) (block_end_of limit (length (ab_out ab)))\<rparr>) :: 'e delta_error + _)"
    by (subst block_header_last [OF _ _ parts ok]) (use whole ab(2) in \<open>simp_all\<close>)
  then show ?thesis unfolding all front by auto
qed

text \<open>A block whose operations tile \<open>a\<close> to \<open>stop\<close>.\<close>

lemma block_run:
  assumes base: "length base \<le> 2 ^ 31" and target: "length target < 2 ^ 32"
    and tiles: "tiles base a ops stop" and ops: "ops \<noteq> []" and size: "stop - a \<le> DELTA_BLOCK_OUT"
    and stop: "stop = block_end_of (length target) a" "stop \<le> length target"
    and ab: "ab_stage ab = BlockHeader 0" "ab_header ab = []" "ab_out ab = take a target"
  shows "\<exists>ck' ab'. abs_push base (length target) ck (block_bytes base target ops) ab =
      (Inr (ck', ab') :: 'e delta_error + _) \<and> ab_header ab' = [] \<and> ab_out ab' = take stop target
      \<and> ab_stage ab' = (if stop = length target then Done else BlockHeader 0)"
proof -
  let ?stream = "op_stream base target (int (op_start ops)) ops"
  let ?packed = "lzss ?stream"
  have a: "a \<le> stop" by (rule tiles_le [OF tiles])
  have start: "op_start ops \<le> length base" by (rule op_start_le [OF tiles])
  have "length ?stream + 12 * a \<le> 12 * stop"
    by (rule op_stream_length [OF base tiles stop(2) target start])
  then have "length ?stream \<le> 12 * (stop - a)" by (simp add: diff_mult_distrib2)
  also have "\<dots> \<le> 12 * 65536" using size by (simp add: delta_consts)
  finally have small: "length ?packed < 2 ^ 32" using lzss_parse(2) [of ?stream] by simp
  have some: "?packed \<noteq> []" by (rule lzss_nonempty [OF op_stream_nonempty [OF ops]])
  let ?ab = "\<lambda>offset. ab\<lparr>ab_offset := offset, ab_hist := [], ab_bits := [],
      ab_ops := (OpTag, op_start ops, take a target), ab_stage := Body (length ?packed) stop\<rparr>"
  have "\<exists>offset. abs_push base (length target) ck (block_bytes base target ops) ab =
      (abs_push base (length target) ck ?packed (?ab offset) :: 'e delta_error + _)"
    using block_header_run [OF ab(1,2), of "le_of_nat 4 (length ?packed)" "le_of_nat 4 (op_start ops)" base
        "length target" ck ?packed, where 'e = 'e] small some start base a stop ab(3)
    by (simp add: block_bytes_def encode_ops_def Let_def)
  then obtain offset where header: "abs_push base (length target) ck (block_bytes base target ops) ab =
      (abs_push base (length target) ck ?packed (?ab offset) :: 'e delta_error + _)" by blast
  obtain k where k: "k < 8" "lz_parse (bytes_bits ?packed) [] = (?stream, replicate k False)"
    using lzss_parse(1) by blast
  obtain cursor where run: "op_steps base stop ?stream (OpTag, op_start ops, take a target) =
      (Inr (OpTag, cursor, take stop target) :: 'e delta_error + _)"
    using op_stream_run [OF base target stop(2) tiles start, where 'e = 'e] by blast
  show ?thesis
    unfolding header using some k run stop(2) ab(2)
    by (intro body_run [where xs = ?stream and rest = "replicate k False"]) simp_all
qed

lemma blocks_run:
  assumes base: "length base \<le> 2 ^ 31" and target: "length target \<le> U32_MAX"
  shows "tiles base a ops (length target) \<Longrightarrow> list_all in_block ops \<Longrightarrow> (ops \<noteq> [] \<Longrightarrow> DELTA_BLOCK_OUT dvd a) \<Longrightarrow>
    ab_stage ab = (if ops = [] then Done else BlockHeader 0) \<Longrightarrow> ab_header ab = [] \<Longrightarrow> ab_out ab = take a target \<Longrightarrow>
    \<exists>ck' ab'. abs_push base (length target) ck (create_blocks base target ops) ab =
      (Inr (ck', ab') :: 'e delta_error + _) \<and> ab_out ab' = target \<and> ab_stage ab' = Done"
proof (induction ops arbitrary: a ab ck rule: length_induct)
  case (1 ops)
  show ?case
  proof (cases ops)
    case Nil
    then show ?thesis using "1.prems" by simp
  next
    case (Cons op ops')
    define k where "k = a div DELTA_BLOCK_OUT"
    have k: "a = k * DELTA_BLOCK_OUT" using "1.prems"(3) Cons by (simp add: k_def)
    have out: "0 < DELTA_BLOCK_OUT" by (simp add: delta_consts)
    have at: "c_target_at op = a" and fits: "op_fits base op" using "1.prems"(1) Cons by simp_all
    have this_block: "block_of op = k" by (simp add: block_of_def at k_def)
    let ?P = "\<lambda>x. block_of x = k"
    let ?mid = "min ((k + 1) * DELTA_BLOCK_OUT) (length target)"
    have split: "tiles base a (takeWhile ?P ops) ?mid" "tiles base ?mid (dropWhile ?P ops) (length target)"
      using block_prefix_tiles [OF "1.prems"(1,2), of k] Cons k out by simp_all
    have mid: "?mid - a \<le> DELTA_BLOCK_OUT" "?mid = block_end_of (length target) a" "?mid \<le> length target"
      using k target by (simp_all add: block_end_of_def sat_add_def add.commute min.assoc [symmetric] min.commute)
    have taken: "takeWhile ?P ops = op # takeWhile ?P ops'" "dropWhile ?P ops = dropWhile ?P ops'"
      using Cons this_block by simp_all
    have "\<exists>ck1 ab1. abs_push base (length target) ck (block_bytes base target (op # takeWhile ?P ops')) ab =
        (Inr (ck1, ab1) :: 'e delta_error + _) \<and> ab_header ab1 = [] \<and> ab_out ab1 = take ?mid target
        \<and> ab_stage ab1 = (if ?mid = length target then Done else BlockHeader 0)"
      using "1.prems"(4-6) Cons split(1) taken(1) target base mid
      by (intro block_run [where a = a]) auto
    then obtain ck1 ab1 where one: "abs_push base (length target) ck (block_bytes base target (op # takeWhile ?P ops')) ab =
        (Inr (ck1, ab1) :: 'e delta_error + _)" "ab_header ab1 = []" "ab_out ab1 = take ?mid target"
        "ab_stage ab1 = (if ?mid = length target then Done else BlockHeader 0)" by blast
    have last: "dropWhile ?P ops' = [] \<longleftrightarrow> ?mid = length target"
    proof (cases "dropWhile ?P ops'")
      case Nil
      then have "tiles base ?mid [] (length target)" using split(2) taken(2) by (simp only:)
      then show ?thesis using Nil by (simp only: tiles.simps simp_thms)
    next
      case (Cons x xs)
      then have "tiles base (?mid + c_len x) xs (length target)" "0 < c_len x"
        using split(2) taken(2) by (auto dest: op_fits_pos)
      then show ?thesis using Cons tiles_le by fastforce
    qed
    have "\<exists>ck' ab'. abs_push base (length target) ck1 (create_blocks base target (dropWhile ?P ops')) ab1 =
        (Inr (ck', ab') :: 'e delta_error + _) \<and> ab_out ab' = target \<and> ab_stage ab' = Done"
    proof (rule "1.IH" [rule_format, of _ ?mid])
      show "length (dropWhile ?P ops') < length ops" using Cons by (simp add: le_imp_less_Suc length_dropWhile_le)
      show "list_all in_block (dropWhile ?P ops')"
        using "1.prems"(2) Cons by (auto simp: list_all_iff dest: set_dropWhileD)
      show "DELTA_BLOCK_OUT dvd ?mid" if "dropWhile ?P ops' \<noteq> []"
        using that last by (simp add: min_def split: if_splits)
    qed (use split(2) taken(2) one last in auto)
    then show ?thesis
      using one(1) by (simp add: Cons abs_push_append this_block)
  qed
qed

lemma header_run:
  assumes "0 < limit" and "limit \<le> U32_MAX"
  shows "\<exists>offset. abs_push base limit ck (DELTA_MAGIC @ [DELTA_VERSION, 0, 0, 0] @ le_of_nat 4 limit @ bs) abs_new =
    (abs_push base limit ck bs (abs_new\<lparr>ab_offset := offset, ab_stage := BlockHeader 0\<rparr>) :: 'e delta_error + _)"
proof -
  obtain a b c d where hs: "le_of_nat 4 limit = [a, b, c, d]" using length4 [OF length_le_of_nat] by blast
  have num: "nat_of_le [a, b, c, d] = limit"
    unfolding hs [symmetric] using assms(2) by simp
  let ?front = "DELTA_MAGIC @ [DELTA_VERSION, 0, 0, 0] @ [a, b, c]"
  have all: "DELTA_MAGIC @ [DELTA_VERSION, 0, 0, 0] @ le_of_nat 4 limit @ bs = ?front @ d # bs" by (simp add: hs)
  have eleven: "length ?front = 11" "length (ab_header abs_new) = 0" "ab_header abs_new = []"
    by (simp_all add: DELTA_MAGIC_def abs_new_def)
  obtain offset where front: "abs_push base limit ck (?front @ d # bs) abs_new =
      (abs_push base limit ck (d # bs) (abs_new\<lparr>ab_offset := offset, ab_header := ?front, ab_stage := Header 11\<rparr>)
        :: 'e delta_error + _)"
    using header_bytes_run [of abs_new ?front base limit ck "d # bs", where 'e = 'e]
    unfolding eleven append_Nil by (auto simp: delta_consts abs_new_def simp del: abs_push.simps append.simps append_assoc)
  have parts: "take 4 (?front @ [d]) = DELTA_MAGIC" "(?front @ [d]) ! 4 = DELTA_VERSION"
    "slice 5 8 (?front @ [d]) = [0, 0, 0]" "slice 8 12 (?front @ [d]) = [a, b, c, d]"
    by (simp_all add: DELTA_MAGIC_def slice_def)
  have "abs_byte base limit d (abs_new\<lparr>ab_offset := offset, ab_header := ?front, ab_stage := Header 11\<rparr>) =
      (Inr (None, abs_new\<lparr>ab_offset := (offset + 1) mod 2 ^ 32, ab_stage := BlockHeader 0\<rparr>) :: 'e delta_error + _)"
    by (subst header_last [OF _ _ parts num assms(1)]) (simp_all add: abs_new_def)
  then show ?thesis unfolding all front by auto
qed

lemma create_run:
  assumes "length base \<le> 2 ^ 31" and "0 < length target" and "length target \<le> 2 ^ 32 - 2 ^ 16"
  shows "\<exists>ck ab. abs_push base (length target) None (delta_create base target) abs_new =
      (Inr (ck, ab) :: 'e delta_error + _) \<and> ab_out ab = target \<and> ab_stage ab = Done"
proof -
  have "tiles base 0 (find_ops base target) (length target)"
    using assms by (intro find_ops_tiles) simp_all
  then have ops: "tiles base 0 (split_at_blocks (find_ops base target)) (length target)"
      "list_all in_block (split_at_blocks (find_ops base target))"
    by (simp_all add: split_at_blocks_tiles)
  then have some: "split_at_blocks (find_ops base target) \<noteq> []" using assms(2) by auto
  obtain offset where header: "abs_push base (length target) None (delta_create base target) abs_new =
      (abs_push base (length target) None (create_blocks base target (split_at_blocks (find_ops base target)))
        (abs_new\<lparr>ab_offset := offset, ab_stage := BlockHeader 0\<rparr>) :: 'e delta_error + _)"
    using header_run [of "length target" base None, where 'e = 'e] assms unfolding delta_create_def by auto
  show ?thesis
    unfolding header using assms some
    by (intro blocks_run [OF _ _ ops]) (simp_all add: abs_new_def)
qed

section \<open>The round trip\<close>

text \<open>C10: creating a patch and applying it, in whatever pieces it arrives, gives the target image, all of
  it handed to the output, and a complete applier, for every base of up to 2 GiB and every target
  that is not empty and whose rounded blocks fit 32 bits.\<close>

theorem delta_round_trip:
  assumes "length base \<le> 2 ^ 31" and "0 < length target" and "length target \<le> 2 ^ 32 - 2 ^ 16"
    and "concat pieces = delta_create base target"
  shows "\<exists>ck da. delta_pushes (vec_io base) pieces None (applier_new (length target) (length base)) [] =
      Inr (ck, da, target) \<and> applier_complete da"
proof -
  let ?limit = "length target"
  have limit: "?limit < U32_MAX" using assms(3) by simp
  obtain ck ab where run: "abs_push base ?limit None (delta_create base target) abs_new =
      (Inr (ck, ab) :: unit delta_error + _)" "ab_out ab = target" "ab_stage ab = Done"
    using create_run [OF assms(1-3)] by blast
  obtain da out where done_: "delta_push_from (vec_io base) None (delta_create base target)
        (applier_new ?limit (length base)) [] = Inr (ck, da, out)"
    and rel: "da_rel base ?limit (\<lambda>st out. st = out) da out ab"
    using vec.push_sim [OF vec.new_rel [of "[]"] vec.new_ok limit, of base None "delta_create base target"] run(1)
    by (auto simp: sim_res_def split: sum.splits)
  have "out = target" using vec.rel_accepted [OF rel] run(2,3) by simp
  moreover have "da_stage da = Done" using rel run(3) by (simp add: da_rel_def)
  ultimately show ?thesis
    using done_ by (simp add: delta_pushes_concat assms(4) applier_complete_def)
qed

theorem delta_round_trip_witness:
  "\<exists>ck da. delta_pushes (vec_io [7]) [delta_create [7] [9]] None (applier_new 1 1) [] = Inr (ck, da, [9]) \<and> applier_complete da"
  using delta_round_trip [of "[7]" "[9]" "[delta_create [7] [9]]"] by simp

section \<open>Where the round trip stops\<close>

text \<open>A patch for an empty target is refused at the end of its header, whatever the base.\<close>

theorem empty_target_refused:
  "delta_outcome (delta_push (vec_io base) (delta_create base []) (applier_new 0 (length base)) []) = Inl DeltaMalformed"
proof -
  have "find_loop base [] (seed_index base) 0 0 None [] = (0, [])"
    by (subst find_loop.simps) (simp add: SEED_def)
  then have "split_at_blocks (find_ops base []) = []" by (simp add: find_ops_def split_at_blocks_def)
  moreover have "le_of_nat 4 0 = [0, 0, 0, 0]"
  proof -
    have "le_of_nat k 0 = replicate k 0" for k by (induction k) simp_all
    moreover have "replicate 4 (0 :: u8) = [0, 0, 0, 0]" by (simp add: numeral_eq_Suc)
    ultimately show ?thesis by simp
  qed
  ultimately have create: "delta_create base [] = DELTA_MAGIC @ [DELTA_VERSION, 0, 0, 0, 0, 0, 0, 0]"
    by (simp only: delta_create_def create_blocks.simps list.size append_assoc append.simps)
  have outcome: "delta_outcome (delta_push (vec_io base) bs (applier_new 0 (length base)) []) =
    (case abs_push base 0 None bs abs_new of
       Inl e \<Rightarrow> Inl e
     | Inr (ck, ab) \<Rightarrow> Inr (ck, ab_out ab, ab_offset ab, ab_stage ab))" for bs
    by (rule vec_push_outcome [OF vec.new_rel [of "[]"] vec.new_ok]) simp_all
  show ?thesis
    unfolding outcome create by (simp add: DELTA_MAGIC_def abs_new_def abs_byte_def delta_consts)
qed

text \<open>A seek of \<open>2 ^ 31\<close> bytes ahead, which a base of more than 2 GiB can ask of the encoder, has a
  zigzag value of 33 bits; the applier's five-byte field refuses it.\<close>

lemma far_seek_refused:
  "op_steps base stop (leb128_bytes (zigzag_encode (2 ^ 31))) (OpSeek len 0 0, cursor, out) = Inl DeltaMalformed"
proof -
  have "(2::int) ^ 31 div 2 ^ 63 = 0" by (rule div_pos_pos_trivial) simp_all
  then have "zigzag_encode (2 ^ 31) = 4294967296"
    unfolding zigzag_encode_def by (simp only: xor.right_neutral) simp
  moreover have "leb128_bytes 4294967296 = [0x80, 0x80, 0x80, 0x80, 0x10]"
    by (simp add: leb128_bytes.simps [of 4294967296] leb128_bytes.simps [of 33554432]
        leb128_bytes.simps [of 262144] leb128_bytes.simps [of 2048] leb128_bytes.simps [of 16])
  ultimately show ?thesis by (simp add: delta_leb128_def)
qed

end
