(* ===== verification/Rs_Text.thy ===== *)
theory Rs_Text
  imports Rs_Prelude "HOL-Library.Sublist"
begin

text \<open>
  Rust strings.  A \<open>String\<close> or \<open>&str\<close> is the list of its Unicode scalar values; \<open>str_len\<close> is its
  length in bytes of UTF-8, which \<open>len()\<close> returns.  The theory has the parts of the standard
  library that the components use: white space and control characters, \<open>trim\<close>, ASCII case
  folding, \<open>to_string\<close> and \<open>parse\<close> of unsigned integers, splitting at a character.
\<close>

type_synonym ustr = "nat list"

text \<open>A string literal of ASCII characters.\<close>

definition lit :: "string \<Rightarrow> ustr" where
  "lit s = map of_char s"

lemma lit_eq_iff [simp]: "lit s = lit t \<longleftrightarrow> s = t"
  by (simp add: lit_def inj_map_eq_map inj_of_char)

lemma lit_Nil [simp]: "lit [] = []" and length_lit [simp]: "length (lit s) = length s"
  by (simp_all add: lit_def)

text \<open>Spelling a literal out, for evaluation.\<close>

lemma lit_Cons: "lit (c # cs) = of_char c # lit cs"
  by (simp add: lit_def)

lemma inj_lit: "inj lit"
  by (rule injI) simp

section \<open>Characters\<close>

definition utf8_width :: "nat \<Rightarrow> nat" where
  "utf8_width c = (if c < 0x80 then 1 else if c < 0x800 then 2 else if c < 0x10000 then 3 else 4)"

definition str_len :: "ustr \<Rightarrow> nat" where
  "str_len s = sum_list (map utf8_width s)"

lemma str_len_simps [simp]:
  "str_len [] = 0" "str_len (c # s) = utf8_width c + str_len s" "str_len (s @ t) = str_len s + str_len t"
  by (simp_all add: str_len_def)

lemma utf8_width_pos [simp]: "0 < utf8_width c"
  by (simp add: utf8_width_def)

lemma str_len_0_iff [simp]: "str_len s = 0 \<longleftrightarrow> s = []"
  by (cases s) auto

lemma length_le_str_len: "length s \<le> str_len s"
proof (induction s)
  case (Cons c s)
  have "1 \<le> utf8_width c" by (simp add: utf8_width_def)
  then show ?case using Cons by (simp only: list.size str_len_simps)
qed simp

lemma str_len_rev [simp]: "str_len (rev s) = str_len s"
  by (induction s) auto

lemma set_dropWhile_sub: "set (dropWhile P s) \<subseteq> set s"
  by (induction s) auto

lemma str_len_dropWhile: "str_len (dropWhile P s) \<le> str_len s"
  by (induction s) auto

text \<open>\<open>char::is_whitespace\<close> (the property \<open>White_Space\<close>) and \<open>char::is_control\<close>.\<close>

definition is_whitespace :: "nat \<Rightarrow> bool" where
  "is_whitespace c \<longleftrightarrow> (9 \<le> c \<and> c \<le> 13) \<or> c = 0x20 \<or> c = 0x85 \<or> c = 0xA0 \<or> c = 0x1680
     \<or> (0x2000 \<le> c \<and> c \<le> 0x200A) \<or> c = 0x2028 \<or> c = 0x2029 \<or> c = 0x202F \<or> c = 0x205F \<or> c = 0x3000"

definition is_control :: "nat \<Rightarrow> bool" where
  "is_control c \<longleftrightarrow> c < 0x20 \<or> (0x7F \<le> c \<and> c < 0xA0)"

definition is_ascii_digit :: "nat \<Rightarrow> bool" where
  "is_ascii_digit c \<longleftrightarrow> 48 \<le> c \<and> c \<le> 57"

definition is_hex_char :: "nat \<Rightarrow> bool" where
  "is_hex_char c \<longleftrightarrow> is_ascii_digit c \<or> (97 \<le> c \<and> c \<le> 102) \<or> (65 \<le> c \<and> c \<le> 70)"

definition to_ascii_lower :: "nat \<Rightarrow> nat" where
  "to_ascii_lower c = (if 65 \<le> c \<and> c \<le> 90 then c + 32 else c)"

definition to_ascii_lowercase :: "ustr \<Rightarrow> ustr" where
  "to_ascii_lowercase s = map to_ascii_lower s"

definition eq_ignore_ascii_case :: "ustr \<Rightarrow> ustr \<Rightarrow> bool" where
  "eq_ignore_ascii_case s t \<longleftrightarrow> to_ascii_lowercase s = to_ascii_lowercase t"

lemma to_ascii_lower_idem [simp]: "to_ascii_lower (to_ascii_lower c) = to_ascii_lower c"
  by (simp add: to_ascii_lower_def)

lemma to_ascii_lowercase_idem [simp]: "to_ascii_lowercase (to_ascii_lowercase s) = to_ascii_lowercase s"
  by (simp add: to_ascii_lowercase_def)

section \<open>Trimming\<close>

definition str_trim :: "ustr \<Rightarrow> ustr" where
  "str_trim s = rev (dropWhile is_whitespace (rev (dropWhile is_whitespace s)))"

definition trimmed :: "ustr \<Rightarrow> bool" where
  "trimmed s \<longleftrightarrow> s = [] \<or> (\<not> is_whitespace (hd s) \<and> \<not> is_whitespace (last s))"

lemma str_trim_Nil [simp]: "str_trim [] = []"
  by (simp add: str_trim_def)

lemma str_trim_trimmed: "trimmed s \<Longrightarrow> str_trim s = s"
proof (cases "s = []")
  case False
  assume t: "trimmed s"
  then have "dropWhile is_whitespace s = s" using False by (cases s) (auto simp: trimmed_def)
  moreover have "dropWhile is_whitespace (rev s) = rev s"
    using t False by (cases s rule: rev_cases) (auto simp: trimmed_def)
  ultimately show ?thesis by (simp add: str_trim_def)
qed simp

lemma trimmed_str_trim [simp]: "trimmed (str_trim s)"
proof (cases "str_trim s = []")
  case False
  let ?l = "dropWhile is_whitespace s" and ?r = "dropWhile is_whitespace (rev (dropWhile is_whitespace s))"
  have r: "?r \<noteq> []" using False by (simp add: str_trim_def)
  then have l: "?l \<noteq> []" by (metis dropWhile.simps(1) rev.simps(1))
  have last: "\<not> is_whitespace (last (str_trim s))"
    using hd_dropWhile [of is_whitespace "rev ?l"] r by (simp add: str_trim_def last_rev)
  have "rev ?l = takeWhile is_whitespace (rev ?l) @ ?r" by simp
  then have "?l = rev ?r @ rev (takeWhile is_whitespace (rev ?l))"
    by (metis rev_append rev_rev_ident)
  then have "hd ?l = hd (str_trim s)" using r by (metis hd_append2 rev_is_Nil_conv str_trim_def)
  moreover have "\<not> is_whitespace (hd ?l)" using hd_dropWhile [OF l] by simp
  ultimately show ?thesis using last by (simp add: trimmed_def)
qed (simp add: trimmed_def)

lemma str_trim_idem [simp]: "str_trim (str_trim s) = str_trim s"
  by (rule str_trim_trimmed) simp

lemma str_len_trim: "str_len (str_trim s) \<le> str_len s"
  unfolding str_trim_def str_len_rev
  by (rule le_trans [OF str_len_dropWhile]) (simp add: str_len_dropWhile)

lemma set_str_trim: "set (str_trim s) \<subseteq> set s"
  unfolding str_trim_def set_rev
  by (rule subset_trans [OF set_dropWhile_sub]) (simp add: set_dropWhile_sub)

lemma str_trim_Nil_iff: "str_trim s = [] \<longleftrightarrow> (\<forall>c \<in> set s. is_whitespace c)"
proof -
  let ?l = "dropWhile is_whitespace s"
  have "str_trim s = [] \<longleftrightarrow> ?l = []"
  proof
    assume "str_trim s = []"
    then have "\<forall>c \<in> set ?l. is_whitespace c" unfolding str_trim_def by (metis dropWhile_eq_Nil_conv rev_is_Nil_conv set_rev)
    then show "?l = []" using hd_dropWhile [of is_whitespace s] by (metis hd_in_set)
  next
    assume "?l = []"
    then show "str_trim s = []" unfolding str_trim_def by (simp only: rev.simps dropWhile.simps)
  qed
  then show ?thesis by (simp only: dropWhile_eq_Nil_conv)
qed

lemma trimmed_if_no_whitespace: "\<forall>c \<in> set s. \<not> is_whitespace c \<Longrightarrow> trimmed s"
  unfolding trimmed_def by (metis hd_in_set last_in_set)

section \<open>Decimal numbers\<close>

text \<open>\<open>to_string\<close> of an unsigned integer and \<open>parse\<close> into a type whose greatest value is \<open>m\<close>:
  a leading plus sign and leading zeros are accepted.\<close>

fun dec_string :: "nat \<Rightarrow> ustr" where
  "dec_string n = (if n < 10 then [48 + n] else dec_string (n div 10) @ [48 + n mod 10])"

declare dec_string.simps [simp del]

fun parse_digits :: "nat \<Rightarrow> nat \<Rightarrow> ustr \<Rightarrow> nat option" where
  "parse_digits m acc [] = Some acc"
| "parse_digits m acc (c # cs) =
    (if is_ascii_digit c \<and> acc * 10 + (c - 48) \<le> m then parse_digits m (acc * 10 + (c - 48)) cs else None)"

definition parse_unsigned :: "nat \<Rightarrow> ustr \<Rightarrow> nat option" where
  "parse_unsigned m s =
    (case s of
       [] \<Rightarrow> None
     | c # cs \<Rightarrow> if c = 43 then (if cs = [] then None else parse_digits m 0 cs) else parse_digits m 0 s)"

lemma parse_digits_append:
  "parse_digits m acc (xs @ ys) = (case parse_digits m acc xs of None \<Rightarrow> None | Some a \<Rightarrow> parse_digits m a ys)"
  by (induction xs arbitrary: acc) auto

lemma parse_digits_dec: "n \<le> m \<Longrightarrow> parse_digits m 0 (dec_string n) = Some n"
proof (induction n rule: dec_string.induct)
  case (1 n)
  show ?case
  proof (cases "n < 10")
    case True
    then show ?thesis using "1.prems" by (simp add: dec_string.simps [of n] is_ascii_digit_def)
  next
    case False
    have "n div 10 * 10 + n mod 10 = n" by (rule div_mult_mod_eq)
    then show ?thesis
      using "1.IH" [OF False] "1.prems" False
      by (simp add: dec_string.simps [of n] parse_digits_append is_ascii_digit_def)
  qed
qed

lemma dec_string_digits: "c \<in> set (dec_string n) \<Longrightarrow> is_ascii_digit c"
proof (induction n rule: dec_string.induct)
  case (1 n)
  then show ?case by (cases "n < 10") (auto simp: dec_string.simps [of n] is_ascii_digit_def)
qed

lemma dec_string_nonempty [simp]: "dec_string n \<noteq> []"
  by (simp add: dec_string.simps [of n])

lemma parse_unsigned_dec: "n \<le> m \<Longrightarrow> parse_unsigned m (dec_string n) = Some n"
proof -
  assume n: "n \<le> m"
  obtain c cs where s: "dec_string n = c # cs" using dec_string_nonempty by (metis neq_Nil_conv)
  then have "is_ascii_digit c" using dec_string_digits [of c n] by simp
  then show ?thesis using parse_digits_dec [OF n] by (simp add: parse_unsigned_def s is_ascii_digit_def)
qed

lemma dec_string_inj [simp]: "dec_string a = dec_string b \<longleftrightarrow> a = b"
proof
  assume "dec_string a = dec_string b"
  then have "Some a = Some b"
    using parse_digits_dec [of a "a + b"] parse_digits_dec [of b "a + b"] by (metis le_add1 le_add2)
  then show "a = b" by simp
qed simp

lemma parse_digits_le: "parse_digits m acc s = Some n \<Longrightarrow> acc \<le> m \<Longrightarrow> n \<le> m"
  by (induction s arbitrary: acc) (auto split: if_splits)

lemma parse_unsigned_le: "parse_unsigned m s = Some n \<Longrightarrow> n \<le> m"
  by (auto simp: parse_unsigned_def dest: parse_digits_le split: list.splits if_splits)

section \<open>Searching\<close>

text \<open>\<open>find\<close> of a character, as the part before it and the part after it.\<close>

definition split_once :: "nat \<Rightarrow> ustr \<Rightarrow> (ustr \<times> ustr) option" where
  "split_once c s = (if c \<in> set s then Some (takeWhile (\<lambda>x. x \<noteq> c) s, tl (dropWhile (\<lambda>x. x \<noteq> c) s)) else None)"

definition rsplit_once :: "nat \<Rightarrow> ustr \<Rightarrow> (ustr \<times> ustr) option" where
  "rsplit_once c s = map_option (\<lambda>(a, b). (rev b, rev a)) (split_once c (rev s))"

lemma split_once_append: "c \<notin> set a \<Longrightarrow> split_once c (a @ c # b) = Some (a, b)"
  by (induction a) (auto simp: split_once_def)

lemma split_once_None: "split_once c s = None \<longleftrightarrow> c \<notin> set s"
  by (simp add: split_once_def)

lemma split_once_Some: "split_once c s = Some (a, b) \<Longrightarrow> s = a @ c # b \<and> c \<notin> set a"
proof -
  assume s: "split_once c s = Some (a, b)"
  then have c: "c \<in> set s" and a: "a = takeWhile (\<lambda>x. x \<noteq> c) s" and b: "b = tl (dropWhile (\<lambda>x. x \<noteq> c) s)"
    by (auto simp: split_once_def split: if_splits)
  have d: "dropWhile (\<lambda>x. x \<noteq> c) s \<noteq> []" using c by (simp add: dropWhile_eq_Nil_conv)
  then have "hd (dropWhile (\<lambda>x. x \<noteq> c) s) = c" using hd_dropWhile [OF d] by simp
  then have "dropWhile (\<lambda>x. x \<noteq> c) s = c # b" using d b by (metis list.collapse)
  then show ?thesis using a by (metis takeWhile_dropWhile_id set_takeWhileD)
qed

lemma rsplit_once_append: "c \<notin> set b \<Longrightarrow> rsplit_once c (a @ c # b) = Some (a, b)"
  using split_once_append [of c "rev b" "rev a"] by (simp add: rsplit_once_def)

lemma rsplit_once_Some: "rsplit_once c s = Some (a, b) \<Longrightarrow> s = a @ c # b \<and> c \<notin> set b"
proof -
  assume "rsplit_once c s = Some (a, b)"
  then have "split_once c (rev s) = Some (rev b, rev a)" by (auto simp: rsplit_once_def)
  from split_once_Some [OF this] show ?thesis by (metis append.assoc append_Cons append_Nil rev.simps(2) rev_append rev_rev_ident set_rev)
qed

text \<open>\<open>str::contains\<close> of a string.\<close>

definition str_contains :: "ustr \<Rightarrow> ustr \<Rightarrow> bool" where
  "str_contains s t \<longleftrightarrow> sublist t s"

text \<open>A string of \<open>n\<close> bytes from the front, or None when that is past the end or inside a character.\<close>

fun str_split_bytes :: "nat \<Rightarrow> ustr \<Rightarrow> (ustr \<times> ustr) option" where
  "str_split_bytes 0 s = Some ([], s)"
| "str_split_bytes n [] = None"
| "str_split_bytes n (c # s) =
    (if utf8_width c \<le> n then map_option (\<lambda>(a, b). (c # a, b)) (str_split_bytes (n - utf8_width c) s) else None)"

lemma str_split_bytes_Some: "str_split_bytes n s = Some (a, b) \<Longrightarrow> s = a @ b \<and> str_len a = n"
  by (induction n s arbitrary: a b rule: str_split_bytes.induct) (auto split: if_splits)

lemma str_split_bytes_append: "str_split_bytes (str_len a) (a @ b) = Some (a, b)"
proof (induction a)
  case (Cons c a)
  have "utf8_width c + str_len a = Suc (utf8_width c + str_len a - 1)" using utf8_width_pos [of c] by simp
  then show ?case
    using Cons str_split_bytes.simps(3) [of "utf8_width c + str_len a - 1" c "a @ b"] by simp
qed simp

lemma str_len_lit: "list_all (\<lambda>c. of_char c < (128 :: nat)) s \<Longrightarrow> str_len (lit s) = length s"
  by (induction s) (simp_all add: utf8_width_def lit_Cons)

end
