(* ===== verification/Radio.thy ===== *)
theory Radio
  imports Complex_Main Rs_Text
begin

text \<open>
  The RNode radio catalog, \<open>crates/ratspeak-core/src/radio.rs\<close>, and what the interface commands
  make of it, \<open>crates/ratspeak-tauri/src/commands/interfaces.rs\<close>: regions, presets, the radio
  parameters they resolve to, the reverse inference, and the checks of \<open>resolve_lora_radio_args\<close>.
  A floating-point percentage is a rational, an infinity or not a number.
\<close>

section \<open>The catalog\<close>

datatype f64 = F64 rat | F64_infinite bool | F64_nan

record rnode_region =
  rg_key :: ustr
  rg_label :: ustr
  rg_min :: nat
  rg_max :: nat
  rg_frequency :: nat
  rg_airtime_long :: "f64 option"
  rg_airtime_short :: "f64 option"

record rnode_preset =
  ps_key :: ustr
  ps_label :: ustr
  ps_description :: ustr
  ps_spreading_factor :: nat
  ps_bandwidth :: nat
  ps_coding_rate :: nat
  ps_tx_power :: int

record rnode_params =
  rp_frequency :: nat
  rp_bandwidth :: nat
  rp_spreading_factor :: nat
  rp_coding_rate :: nat
  rp_tx_power :: int

definition DEFAULT_RNODE_REGION_KEY :: ustr where "DEFAULT_RNODE_REGION_KEY = lit ''americas''"
definition DEFAULT_RNODE_PRESET_KEY :: ustr where "DEFAULT_RNODE_PRESET_KEY = lit ''medium_fast''"
definition RNODE_FREQUENCY_MIN_HZ :: nat where "RNODE_FREQUENCY_MIN_HZ = 137000000"
definition RNODE_FREQUENCY_MAX_HZ :: nat where "RNODE_FREQUENCY_MAX_HZ = 3000000000"
definition RNODE_BANDWIDTH_MIN_HZ :: nat where "RNODE_BANDWIDTH_MIN_HZ = 7800"
definition RNODE_BANDWIDTH_MAX_HZ :: nat where "RNODE_BANDWIDTH_MAX_HZ = 1625000"
definition RNODE_SPREADING_FACTOR_MIN :: nat where "RNODE_SPREADING_FACTOR_MIN = 5"
definition RNODE_SPREADING_FACTOR_MAX :: nat where "RNODE_SPREADING_FACTOR_MAX = 12"
definition RNODE_CODING_RATE_MIN :: nat where "RNODE_CODING_RATE_MIN = 5"
definition RNODE_CODING_RATE_MAX :: nat where "RNODE_CODING_RATE_MAX = 8"
definition RNODE_TX_POWER_MIN_DBM :: int where "RNODE_TX_POWER_MIN_DBM = 0"
definition RNODE_TX_POWER_MAX_DBM :: int where "RNODE_TX_POWER_MAX_DBM = 37"

lemmas radio_consts = RNODE_FREQUENCY_MIN_HZ_def RNODE_FREQUENCY_MAX_HZ_def RNODE_BANDWIDTH_MIN_HZ_def
  RNODE_BANDWIDTH_MAX_HZ_def RNODE_SPREADING_FACTOR_MIN_def RNODE_SPREADING_FACTOR_MAX_def
  RNODE_CODING_RATE_MIN_def RNODE_CODING_RATE_MAX_def RNODE_TX_POWER_MIN_DBM_def RNODE_TX_POWER_MAX_DBM_def

definition RNODE_REGIONS :: "rnode_region list" where
  "RNODE_REGIONS =
   [\<lparr>rg_key = lit ''americas'', rg_label = lit ''Americas (915 MHz)'', rg_min = 902000000, rg_max = 928000000,
      rg_frequency = 915000000, rg_airtime_long = None, rg_airtime_short = None\<rparr>,
    \<lparr>rg_key = lit ''europe'', rg_label = lit ''Europe (868 MHz)'', rg_min = 863000000, rg_max = 870000000,
      rg_frequency = 868000000, rg_airtime_long = Some (F64 1), rg_airtime_short = None\<rparr>,
    \<lparr>rg_key = lit ''uhf_433'', rg_label = lit ''433 MHz / UHF'', rg_min = 410000000, rg_max = 525000000,
      rg_frequency = 433000000, rg_airtime_long = None, rg_airtime_short = None\<rparr>,
    \<lparr>rg_key = lit ''australia'', rg_label = lit ''Australia (915 MHz)'', rg_min = 915000000, rg_max = 928000000,
      rg_frequency = 915000000, rg_airtime_long = None, rg_airtime_short = None\<rparr>,
    \<lparr>rg_key = lit ''asia'', rg_label = lit ''Asia (923 MHz)'', rg_min = 920000000, rg_max = 925000000,
      rg_frequency = 923000000, rg_airtime_long = None, rg_airtime_short = None\<rparr>]"

definition RNODE_PRESETS :: "rnode_preset list" where
  "RNODE_PRESETS =
   [\<lparr>ps_key = lit ''medium_fast'', ps_label = lit ''Medium Fast'',
      ps_description = lit ''Balanced field default. SF9, 250 kHz, CR 5.'',
      ps_spreading_factor = 9, ps_bandwidth = 250000, ps_coding_rate = 5, ps_tx_power = 17\<rparr>,
    \<lparr>ps_key = lit ''short_turbo'', ps_label = lit ''Short Turbo'',
      ps_description = lit ''Shortest range, highest data rate. SF7, 500 kHz, CR 5.'',
      ps_spreading_factor = 7, ps_bandwidth = 500000, ps_coding_rate = 5, ps_tx_power = 14\<rparr>,
    \<lparr>ps_key = lit ''short_fast'', ps_label = lit ''Short Fast'',
      ps_description = lit ''Short range, fast data rate. SF7, 250 kHz, CR 5.'',
      ps_spreading_factor = 7, ps_bandwidth = 250000, ps_coding_rate = 5, ps_tx_power = 14\<rparr>,
    \<lparr>ps_key = lit ''short_slow'', ps_label = lit ''Short Slow'',
      ps_description = lit ''Short range with more link margin. SF8, 250 kHz, CR 5.'',
      ps_spreading_factor = 8, ps_bandwidth = 250000, ps_coding_rate = 5, ps_tx_power = 14\<rparr>,
    \<lparr>ps_key = lit ''medium_slow'', ps_label = lit ''Medium Slow'',
      ps_description = lit ''More robust medium-range mode. SF10, 250 kHz, CR 5.'',
      ps_spreading_factor = 10, ps_bandwidth = 250000, ps_coding_rate = 5, ps_tx_power = 17\<rparr>,
    \<lparr>ps_key = lit ''long_turbo'', ps_label = lit ''Long Turbo'',
      ps_description = lit ''Long range with wide bandwidth. SF11, 500 kHz, CR 8.'',
      ps_spreading_factor = 11, ps_bandwidth = 500000, ps_coding_rate = 8, ps_tx_power = 22\<rparr>,
    \<lparr>ps_key = lit ''long_fast'', ps_label = lit ''Long Fast'',
      ps_description = lit ''Long range with moderate data rate. SF11, 250 kHz, CR 5.'',
      ps_spreading_factor = 11, ps_bandwidth = 250000, ps_coding_rate = 5, ps_tx_power = 22\<rparr>,
    \<lparr>ps_key = lit ''long_moderate'', ps_label = lit ''Long Moderate'',
      ps_description = lit ''Longer range, lower data rate. SF11, 125 kHz, CR 8.'',
      ps_spreading_factor = 11, ps_bandwidth = 125000, ps_coding_rate = 8, ps_tx_power = 22\<rparr>]"

section \<open>Lookup and inference\<close>

definition find_region :: "ustr \<Rightarrow> rnode_region option" where
  "find_region key = find (\<lambda>region. rg_key region = key) RNODE_REGIONS"

definition find_preset :: "ustr \<Rightarrow> rnode_preset option" where
  "find_preset key = find (\<lambda>preset. ps_key preset = key) RNODE_PRESETS"

definition resolve_rnode_params :: "ustr \<Rightarrow> ustr \<Rightarrow> rnode_params option" where
  "resolve_rnode_params region_key preset_key =
    (case find_region region_key of
       None \<Rightarrow> None
     | Some region \<Rightarrow>
         (case find_preset preset_key of
            None \<Rightarrow> None
          | Some preset \<Rightarrow>
              Some \<lparr>rp_frequency = rg_frequency region, rp_bandwidth = ps_bandwidth preset,
                    rp_spreading_factor = ps_spreading_factor preset,
                    rp_coding_rate = ps_coding_rate preset, rp_tx_power = ps_tx_power preset\<rparr>))"

text \<open>\<open>expect\<close>ed to resolve; \<open>default_params_resolve\<close> below shows that it does.\<close>

definition default_rnode_params :: rnode_params where
  "default_rnode_params = the (resolve_rnode_params DEFAULT_RNODE_REGION_KEY DEFAULT_RNODE_PRESET_KEY)"

definition infer_rnode_region :: "nat \<Rightarrow> ustr option" where
  "infer_rnode_region frequency =
    (case find (\<lambda>region. rg_frequency region = frequency) RNODE_REGIONS of
       Some region \<Rightarrow> Some (rg_key region)
     | None \<Rightarrow>
         map_option rg_key (find (\<lambda>region. rg_min region \<le> frequency \<and> frequency \<le> rg_max region) RNODE_REGIONS))"

definition preset_matches :: "rnode_preset \<Rightarrow> nat \<Rightarrow> nat \<Rightarrow> nat \<Rightarrow> int \<Rightarrow> bool" where
  "preset_matches preset bandwidth spreading_factor coding_rate tx_power \<longleftrightarrow>
    ps_bandwidth preset = bandwidth \<and> ps_spreading_factor preset = spreading_factor
    \<and> ps_coding_rate preset = coding_rate \<and> ps_tx_power preset = tx_power"

definition infer_rnode_preset :: "nat \<Rightarrow> nat \<Rightarrow> nat \<Rightarrow> int \<Rightarrow> ustr option" where
  "infer_rnode_preset bandwidth spreading_factor coding_rate tx_power =
    map_option ps_key
      (find (\<lambda>preset. preset_matches preset bandwidth spreading_factor coding_rate tx_power) RNODE_PRESETS)"

section \<open>Radio arguments\<close>

record lora_radio_args =
  la_region_key :: "ustr option"
  la_preset_key :: "ustr option"
  la_custom_params :: bool
  la_frequency :: nat
  la_bandwidth :: nat
  la_spreading_factor :: nat
  la_coding_rate :: nat
  la_tx_power :: int
  la_airtime_short :: "f64 option"
  la_airtime_long :: "f64 option"

record resolved_radio =
  rr_frequency :: nat
  rr_bandwidth :: nat
  rr_spreading_factor :: nat
  rr_coding_rate :: nat
  rr_tx_power :: int
  rr_region_key :: "ustr option"
  rr_preset_key :: "ustr option"
  rr_airtime_short :: "f64 option"
  rr_airtime_long :: "f64 option"

datatype radio_error = InvalidAirtimeLimit | InvalidFrequency | InvalidBandwidth | InvalidSpreadingFactor
  | InvalidCodingRate | InvalidTxPower | InvalidRegion | InvalidPreset | InvalidPresetOrRegion

definition non_empty_key :: "ustr option \<Rightarrow> ustr option" where
  "non_empty_key val =
    (case val of None \<Rightarrow> None | Some s \<Rightarrow> if str_trim s = [] then None else Some (str_trim s))"

definition validate_lora_radio_params :: "nat \<Rightarrow> nat \<Rightarrow> nat \<Rightarrow> nat \<Rightarrow> int \<Rightarrow> radio_error + unit" where
  "validate_lora_radio_params frequency bandwidth spreading_factor coding_rate tx_power =
    (if \<not> (RNODE_FREQUENCY_MIN_HZ \<le> frequency \<and> frequency \<le> RNODE_FREQUENCY_MAX_HZ) then Inl InvalidFrequency
     else if \<not> (RNODE_BANDWIDTH_MIN_HZ \<le> bandwidth \<and> bandwidth \<le> RNODE_BANDWIDTH_MAX_HZ) then Inl InvalidBandwidth
     else if \<not> (RNODE_SPREADING_FACTOR_MIN \<le> spreading_factor \<and> spreading_factor \<le> RNODE_SPREADING_FACTOR_MAX)
     then Inl InvalidSpreadingFactor
     else if \<not> (RNODE_CODING_RATE_MIN \<le> coding_rate \<and> coding_rate \<le> RNODE_CODING_RATE_MAX) then Inl InvalidCodingRate
     else if \<not> (RNODE_TX_POWER_MIN_DBM \<le> tx_power \<and> tx_power \<le> RNODE_TX_POWER_MAX_DBM) then Inl InvalidTxPower
     else Inr ())"

definition airtime_ok :: "f64 option \<Rightarrow> bool" where
  "airtime_ok val =
    (case val of None \<Rightarrow> True | Some (F64 q) \<Rightarrow> 0 \<le> q \<and> q \<le> 100 | Some (F64_infinite _) \<Rightarrow> False | Some F64_nan \<Rightarrow> False)"

definition validate_airtime_limit :: "f64 option \<Rightarrow> radio_error + unit" where
  "validate_airtime_limit val = (if airtime_ok val then Inr () else Inl InvalidAirtimeLimit)"

definition custom_region_key :: "ustr option \<Rightarrow> nat \<Rightarrow> radio_error + ustr option" where
  "custom_region_key region_key frequency =
    (case region_key of
       Some key \<Rightarrow>
         (case find_region key of
            None \<Rightarrow> Inl InvalidRegion
          | Some region \<Rightarrow>
              Inr (if rg_min region \<le> frequency \<and> frequency \<le> rg_max region then Some (rg_key region)
                   else infer_rnode_region frequency))
     | None \<Rightarrow> Inr (infer_rnode_region frequency))"

definition custom_preset_key :: "ustr option \<Rightarrow> nat \<Rightarrow> nat \<Rightarrow> nat \<Rightarrow> int \<Rightarrow> radio_error + ustr option" where
  "custom_preset_key preset_key bandwidth spreading_factor coding_rate tx_power =
    (case preset_key of
       Some key \<Rightarrow>
         (case find_preset key of
            None \<Rightarrow> Inl InvalidPreset
          | Some preset \<Rightarrow>
              Inr (if preset_matches preset bandwidth spreading_factor coding_rate tx_power then Some (ps_key preset)
                   else infer_rnode_preset bandwidth spreading_factor coding_rate tx_power))
     | None \<Rightarrow> Inr (infer_rnode_preset bandwidth spreading_factor coding_rate tx_power))"

definition resolved_of :: "lora_radio_args \<Rightarrow> ustr option \<Rightarrow> ustr option \<Rightarrow> resolved_radio" where
  "resolved_of args region preset =
    \<lparr>rr_frequency = la_frequency args, rr_bandwidth = la_bandwidth args,
     rr_spreading_factor = la_spreading_factor args, rr_coding_rate = la_coding_rate args,
     rr_tx_power = la_tx_power args, rr_region_key = region, rr_preset_key = preset,
     rr_airtime_short = la_airtime_short args, rr_airtime_long = la_airtime_long args\<rparr>"

definition resolve_custom :: "lora_radio_args \<Rightarrow> radio_error + resolved_radio" where
  "resolve_custom args =
    (case validate_lora_radio_params (la_frequency args) (la_bandwidth args) (la_spreading_factor args)
            (la_coding_rate args) (la_tx_power args) of
       Inl e \<Rightarrow> Inl e
     | Inr _ \<Rightarrow>
         (case custom_region_key (non_empty_key (la_region_key args)) (la_frequency args) of
            Inl e \<Rightarrow> Inl e
          | Inr region \<Rightarrow>
              (case custom_preset_key (non_empty_key (la_preset_key args)) (la_bandwidth args)
                      (la_spreading_factor args) (la_coding_rate args) (la_tx_power args) of
                 Inl e \<Rightarrow> Inl e
               | Inr preset \<Rightarrow> Inr (resolved_of args region preset))))"

definition resolve_keyed :: "lora_radio_args \<Rightarrow> ustr option \<Rightarrow> ustr option \<Rightarrow> radio_error + resolved_radio" where
  "resolve_keyed args region_key0 preset_key0 =
    (let region_key = (case region_key0 of None \<Rightarrow> DEFAULT_RNODE_REGION_KEY | Some key \<Rightarrow> key);
         preset_key = (case preset_key0 of None \<Rightarrow> DEFAULT_RNODE_PRESET_KEY | Some key \<Rightarrow> key) in
     case resolve_rnode_params region_key preset_key of
       None \<Rightarrow> Inl InvalidPresetOrRegion
     | Some params \<Rightarrow>
         Inr \<lparr>rr_frequency = rp_frequency params, rr_bandwidth = rp_bandwidth params,
              rr_spreading_factor = rp_spreading_factor params, rr_coding_rate = rp_coding_rate params,
              rr_tx_power = rp_tx_power params, rr_region_key = map_option rg_key (find_region region_key),
              rr_preset_key = map_option ps_key (find_preset preset_key),
              rr_airtime_short = la_airtime_short args, rr_airtime_long = la_airtime_long args\<rparr>)"

definition resolve_plain :: "lora_radio_args \<Rightarrow> radio_error + resolved_radio" where
  "resolve_plain args =
    (case validate_lora_radio_params (la_frequency args) (la_bandwidth args) (la_spreading_factor args)
            (la_coding_rate args) (la_tx_power args) of
       Inl e \<Rightarrow> Inl e
     | Inr _ \<Rightarrow>
         Inr (resolved_of args (infer_rnode_region (la_frequency args))
           (infer_rnode_preset (la_bandwidth args) (la_spreading_factor args) (la_coding_rate args)
             (la_tx_power args))))"

definition resolve_lora_radio_args :: "lora_radio_args \<Rightarrow> radio_error + resolved_radio" where
  "resolve_lora_radio_args args =
    (case validate_airtime_limit (la_airtime_short args) of
       Inl e \<Rightarrow> Inl e
     | Inr _ \<Rightarrow>
         (case validate_airtime_limit (la_airtime_long args) of
            Inl e \<Rightarrow> Inl e
          | Inr _ \<Rightarrow>
              (let region_key = non_empty_key (la_region_key args);
                   preset_key = non_empty_key (la_preset_key args) in
               if la_custom_params args then resolve_custom args
               else if region_key \<noteq> None \<or> preset_key \<noteq> None then resolve_keyed args region_key preset_key
               else resolve_plain args)))"

section \<open>Facts of the catalog\<close>

lemma find_Some_iff_in: "find P xs = Some x \<Longrightarrow> P x \<and> x \<in> set xs"
  by (induction xs) (auto split: if_splits)

lemma regions_in_bounds:
  "region \<in> set RNODE_REGIONS \<Longrightarrow> rg_min region \<le> rg_frequency region \<and> rg_frequency region \<le> rg_max region
    \<and> RNODE_FREQUENCY_MIN_HZ \<le> rg_min region \<and> rg_max region \<le> RNODE_FREQUENCY_MAX_HZ"
  by (auto simp: RNODE_REGIONS_def radio_consts)

lemma region_keys_distinct: "distinct (map rg_key RNODE_REGIONS)"
  by (simp add: RNODE_REGIONS_def)

lemma preset_keys_distinct: "distinct (map ps_key RNODE_PRESETS)"
  by (simp add: RNODE_PRESETS_def)

lemma find_distinct: "distinct (map f xs) \<Longrightarrow> x \<in> set xs \<Longrightarrow> find (\<lambda>y. f y = f x) xs = Some x"
  by (induction xs) (auto simp: image_iff)

lemma find_region_key: "region \<in> set RNODE_REGIONS \<Longrightarrow> find_region (rg_key region) = Some region"
  unfolding find_region_def by (rule find_distinct [OF region_keys_distinct])

lemma find_preset_key: "preset \<in> set RNODE_PRESETS \<Longrightarrow> find_preset (ps_key preset) = Some preset"
  unfolding find_preset_def by (rule find_distinct [OF preset_keys_distinct])

lemma default_params_resolve: "resolve_rnode_params DEFAULT_RNODE_REGION_KEY DEFAULT_RNODE_PRESET_KEY \<noteq> None"
  by (simp add: resolve_rnode_params_def find_region_def find_preset_def DEFAULT_RNODE_REGION_KEY_def
      DEFAULT_RNODE_PRESET_KEY_def RNODE_REGIONS_def RNODE_PRESETS_def)

text \<open>A key that is reported covers the parameters.\<close>

definition region_covers :: "ustr option \<Rightarrow> nat \<Rightarrow> bool" where
  "region_covers key frequency =
    (case key of
       None \<Rightarrow> True
     | Some k \<Rightarrow> (case find_region k of None \<Rightarrow> False | Some region \<Rightarrow> rg_min region \<le> frequency \<and> frequency \<le> rg_max region))"

definition preset_covers :: "ustr option \<Rightarrow> nat \<Rightarrow> nat \<Rightarrow> nat \<Rightarrow> int \<Rightarrow> bool" where
  "preset_covers key bandwidth spreading_factor coding_rate tx_power =
    (case key of
       None \<Rightarrow> True
     | Some k \<Rightarrow> (case find_preset k of None \<Rightarrow> False
                  | Some preset \<Rightarrow> preset_matches preset bandwidth spreading_factor coding_rate tx_power))"

lemma infer_region_covers: "region_covers (infer_rnode_region frequency) frequency"
proof (cases "find (\<lambda>region. rg_frequency region = frequency) RNODE_REGIONS")
  case (Some region)
  then have "rg_frequency region = frequency" "region \<in> set RNODE_REGIONS" by (auto dest: find_Some_iff_in)
  then show ?thesis
    using Some regions_in_bounds [of region] by (auto simp: infer_rnode_region_def region_covers_def find_region_key)
next
  case None
  show ?thesis
  proof (cases "find (\<lambda>region. rg_min region \<le> frequency \<and> frequency \<le> rg_max region) RNODE_REGIONS")
    case (Some region)
    then show ?thesis
      using None find_Some_iff_in [OF Some] by (simp add: infer_rnode_region_def region_covers_def find_region_key)
  qed (simp add: None infer_rnode_region_def region_covers_def)
qed

lemma infer_preset_covers: "preset_covers (infer_rnode_preset b s c t) b s c t"
proof (cases "find (\<lambda>preset. preset_matches preset b s c t) RNODE_PRESETS")
  case (Some preset)
  then show ?thesis
    using find_Some_iff_in [OF Some] by (simp add: infer_rnode_preset_def preset_covers_def find_preset_key)
qed (simp add: infer_rnode_preset_def preset_covers_def)

lemma find_region_in: "find_region key = Some region \<Longrightarrow> region \<in> set RNODE_REGIONS \<and> rg_key region = key"
  unfolding find_region_def by (drule find_Some_iff_in) simp

lemma find_preset_in: "find_preset key = Some preset \<Longrightarrow> preset \<in> set RNODE_PRESETS \<and> ps_key preset = key"
  unfolding find_preset_def by (drule find_Some_iff_in) simp

section \<open>What an accepted configuration is\<close>

text \<open>The limits are those of the radio, given as numbers; a percentage is a number between 0 and 100; and a key
  that is reported names a catalog entry whose values are those of the configuration.\<close>

definition percentage :: "f64 option \<Rightarrow> bool" where
  "percentage v \<longleftrightarrow> v = None \<or> (\<exists>q. v = Some (F64 q) \<and> 0 \<le> q \<and> q \<le> 100)"

definition within_limits :: "nat \<Rightarrow> nat \<Rightarrow> nat \<Rightarrow> nat \<Rightarrow> int \<Rightarrow> bool" where
  "within_limits frequency bandwidth spreading_factor coding_rate tx_power \<longleftrightarrow>
     137000000 \<le> frequency \<and> frequency \<le> 3000000000 \<and> 7800 \<le> bandwidth \<and> bandwidth \<le> 1625000
   \<and> 5 \<le> spreading_factor \<and> spreading_factor \<le> 12 \<and> 5 \<le> coding_rate \<and> coding_rate \<le> 8
   \<and> 0 \<le> tx_power \<and> tx_power \<le> 37"

definition radio_ok :: "resolved_radio \<Rightarrow> bool" where
  "radio_ok r \<longleftrightarrow>
     within_limits (rr_frequency r) (rr_bandwidth r) (rr_spreading_factor r) (rr_coding_rate r) (rr_tx_power r)
   \<and> percentage (rr_airtime_short r) \<and> percentage (rr_airtime_long r)
   \<and> (\<forall>k. rr_region_key r = Some k \<longrightarrow> (\<exists>region \<in> set RNODE_REGIONS. rg_key region = k
        \<and> rg_min region \<le> rr_frequency r \<and> rr_frequency r \<le> rg_max region))
   \<and> (\<forall>k. rr_preset_key r = Some k \<longrightarrow> (\<exists>preset \<in> set RNODE_PRESETS. ps_key preset = k
        \<and> ps_bandwidth preset = rr_bandwidth r \<and> ps_spreading_factor preset = rr_spreading_factor r
        \<and> ps_coding_rate preset = rr_coding_rate r \<and> ps_tx_power preset = rr_tx_power r))"

lemma validate_within:
  "validate_lora_radio_params f b s c t = Inr u \<longleftrightarrow> within_limits f b s c t"
  by (auto simp: validate_lora_radio_params_def within_limits_def radio_consts)

lemma airtime_percentage: "airtime_ok v \<Longrightarrow> percentage v"
  by (auto simp: airtime_ok_def percentage_def split: option.splits f64.splits)

lemma region_covers_entry:
  "region_covers key f \<Longrightarrow> key = Some k \<Longrightarrow> \<exists>region \<in> set RNODE_REGIONS. rg_key region = k \<and> rg_min region \<le> f \<and> f \<le> rg_max region"
  by (auto simp: region_covers_def split: option.splits dest: find_region_in)

lemma preset_covers_entry:
  "preset_covers key b s c t \<Longrightarrow> key = Some k \<Longrightarrow> \<exists>preset \<in> set RNODE_PRESETS. ps_key preset = k
    \<and> ps_bandwidth preset = b \<and> ps_spreading_factor preset = s \<and> ps_coding_rate preset = c \<and> ps_tx_power preset = t"
  by (auto simp: preset_covers_def preset_matches_def split: option.splits dest: find_preset_in)

lemma presets_in_bounds:
  "preset \<in> set RNODE_PRESETS \<Longrightarrow> within_limits 137000000 (ps_bandwidth preset) (ps_spreading_factor preset)
     (ps_coding_rate preset) (ps_tx_power preset)"
  by (auto simp: RNODE_PRESETS_def within_limits_def)

lemma radio_okI:
  assumes "within_limits (rr_frequency r) (rr_bandwidth r) (rr_spreading_factor r) (rr_coding_rate r) (rr_tx_power r)"
    and "airtime_ok (rr_airtime_short r)" and "airtime_ok (rr_airtime_long r)"
    and "region_covers (rr_region_key r) (rr_frequency r)"
    and "preset_covers (rr_preset_key r) (rr_bandwidth r) (rr_spreading_factor r) (rr_coding_rate r) (rr_tx_power r)"
  shows "radio_ok r"
  unfolding radio_ok_def
  using assms airtime_percentage region_covers_entry [OF assms(4)] preset_covers_entry [OF assms(5)] by blast

lemma custom_region_covers:
  assumes "custom_region_key key frequency = Inr k"
  shows "region_covers k frequency"
proof (cases key)
  case None
  then show ?thesis using assms infer_region_covers by (auto simp: custom_region_key_def)
next
  case (Some name)
  then obtain region where region: "find_region name = Some region"
    using assms by (auto simp: custom_region_key_def split: option.splits)
  then show ?thesis
    using assms Some infer_region_covers [of frequency] find_region_in [OF region]
    by (auto simp: custom_region_key_def region_covers_def split: if_splits)
qed

lemma custom_preset_covers:
  assumes "custom_preset_key key b s c t = Inr k"
  shows "preset_covers k b s c t"
proof (cases key)
  case None
  then show ?thesis using assms infer_preset_covers by (auto simp: custom_preset_key_def)
next
  case (Some name)
  then obtain preset where preset: "find_preset name = Some preset"
    using assms by (auto simp: custom_preset_key_def split: option.splits)
  then show ?thesis
    using assms Some infer_preset_covers [of b s c t] find_preset_in [OF preset]
    by (auto simp: custom_preset_key_def preset_covers_def split: if_splits)
qed

lemma resolve_keyed_ok:
  assumes "resolve_keyed args rk pk = Inr r" and "airtime_ok (la_airtime_short args)" and "airtime_ok (la_airtime_long args)"
  shows "radio_ok r"
proof -
  let ?rk = "case rk of None \<Rightarrow> DEFAULT_RNODE_REGION_KEY | Some key \<Rightarrow> key"
  let ?pk = "case pk of None \<Rightarrow> DEFAULT_RNODE_PRESET_KEY | Some key \<Rightarrow> key"
  obtain region preset where found: "find_region ?rk = Some region" "find_preset ?pk = Some preset"
    using assms(1) by (auto simp: resolve_keyed_def resolve_rnode_params_def Let_def split: option.splits)
  have r: "r = \<lparr>rr_frequency = rg_frequency region, rr_bandwidth = ps_bandwidth preset,
      rr_spreading_factor = ps_spreading_factor preset, rr_coding_rate = ps_coding_rate preset,
      rr_tx_power = ps_tx_power preset, rr_region_key = Some (rg_key region), rr_preset_key = Some (ps_key preset),
      rr_airtime_short = la_airtime_short args, rr_airtime_long = la_airtime_long args\<rparr>"
    using assms(1) found by (simp add: resolve_keyed_def resolve_rnode_params_def Let_def)
  note region = find_region_in [OF found(1)] and preset = find_preset_in [OF found(2)]
  have "within_limits (rg_frequency region) (ps_bandwidth preset) (ps_spreading_factor preset) (ps_coding_rate preset)
      (ps_tx_power preset)"
    using regions_in_bounds [of region] presets_in_bounds [of preset] region preset by (simp add: within_limits_def radio_consts)
  then show ?thesis
    using assms(2,3) region preset regions_in_bounds [of region] found
    by (intro radio_okI) (simp_all add: r region_covers_def preset_covers_def find_region_key find_preset_key preset_matches_def)
qed

text \<open>C23: Whatever the interface commands accept lies inside the radio's limits (137 MHz to 3 GHz, a bandwidth of 7.8
  to 1625 kHz, spreading factor 5 to 12, coding rate 5 to 8, 0 to 37 dBm), its airtime limits are absent or numbers
  between 0 and 100, and a region or preset that is reported with it is in the catalog, the region with its frequency
  inside its band and the preset with exactly its values.  The airtime limits are those that were asked for, and so are
  all parameters when custom ones are asked for or neither a region nor a preset is named.\<close>

theorem resolve_radio_sound:
  assumes "resolve_lora_radio_args args = Inr r"
  shows "radio_ok r \<and> rr_airtime_short r = la_airtime_short args \<and> rr_airtime_long r = la_airtime_long args \<and>
    (la_custom_params args \<or> non_empty_key (la_region_key args) = None \<and> non_empty_key (la_preset_key args) = None \<longrightarrow>
       rr_frequency r = la_frequency args \<and> rr_bandwidth r = la_bandwidth args \<and>
       rr_spreading_factor r = la_spreading_factor args \<and> rr_coding_rate r = la_coding_rate args \<and>
       rr_tx_power r = la_tx_power args)"
proof -
  have air: "airtime_ok (la_airtime_short args)" "airtime_ok (la_airtime_long args)"
    using assms by (auto simp: resolve_lora_radio_args_def validate_airtime_limit_def split: if_splits)
  then have cases_: "(if la_custom_params args then resolve_custom args
      else if non_empty_key (la_region_key args) \<noteq> None \<or> non_empty_key (la_preset_key args) \<noteq> None
        then resolve_keyed args (non_empty_key (la_region_key args)) (non_empty_key (la_preset_key args))
        else resolve_plain args) = Inr r"
    using assms by (simp add: resolve_lora_radio_args_def validate_airtime_limit_def Let_def)
  let ?keyed = "\<not> la_custom_params args \<and> (non_empty_key (la_region_key args) \<noteq> None \<or> non_empty_key (la_preset_key args) \<noteq> None)"
  consider (custom) "resolve_custom args = Inr r" | (plain) "resolve_plain args = Inr r"
    | (keyed) "?keyed" "resolve_keyed args (non_empty_key (la_region_key args)) (non_empty_key (la_preset_key args)) = Inr r"
    using cases_ by (auto split: if_splits)
  then show ?thesis
  proof cases
    case custom
    then obtain region preset where r: "r = resolved_of args region preset"
        "custom_region_key (non_empty_key (la_region_key args)) (la_frequency args) = Inr region"
        "custom_preset_key (non_empty_key (la_preset_key args)) (la_bandwidth args) (la_spreading_factor args)
           (la_coding_rate args) (la_tx_power args) = Inr preset"
      by (auto simp: resolve_custom_def split: sum.splits)
    have "radio_ok r"
      using custom air custom_region_covers [OF r(2)] custom_preset_covers [OF r(3)]
      by (intro radio_okI) (auto simp: r(1) resolved_of_def resolve_custom_def validate_within split: sum.splits)
    then show ?thesis by (simp add: r(1) resolved_of_def)
  next
    case plain
    then have r: "r = resolved_of args (infer_rnode_region (la_frequency args))
        (infer_rnode_preset (la_bandwidth args) (la_spreading_factor args) (la_coding_rate args) (la_tx_power args))"
      by (auto simp: resolve_plain_def split: sum.splits)
    have "radio_ok r"
      using plain air infer_region_covers infer_preset_covers
      by (intro radio_okI) (auto simp: r resolved_of_def resolve_plain_def validate_within split: sum.splits)
    then show ?thesis by (simp add: r resolved_of_def)
  next
    case keyed
    then show ?thesis
      using resolve_keyed_ok [OF keyed(2) air] by (auto simp: resolve_keyed_def Let_def split: option.splits)
  qed
qed

theorem resolve_radio_sound_witness:
  "radio_ok \<lparr>rr_frequency = 868000000, rr_bandwidth = 250000, rr_spreading_factor = 9, rr_coding_rate = 5, rr_tx_power = 17,
     rr_region_key = Some (lit ''europe''), rr_preset_key = Some (lit ''medium_fast''),
     rr_airtime_short = None, rr_airtime_long = Some (F64 1)\<rparr>"
  by (rule resolve_radio_sound [THEN conjunct1, of "\<lparr>la_region_key = Some (lit '' europe ''), la_preset_key = None, la_custom_params = False,
      la_frequency = 0, la_bandwidth = 0, la_spreading_factor = 0, la_coding_rate = 0, la_tx_power = 0,
      la_airtime_short = None, la_airtime_long = Some (F64 1)\<rparr>"])
    (simp add: resolve_lora_radio_args_def validate_airtime_limit_def airtime_ok_def non_empty_key_def
      resolve_keyed_def resolve_rnode_params_def find_region_def find_preset_def RNODE_REGIONS_def
      RNODE_PRESETS_def DEFAULT_RNODE_PRESET_KEY_def str_trim_def is_whitespace_def lit_Cons)

lemma infer_preset_all:
  "list_all (\<lambda>ps. infer_rnode_preset (ps_bandwidth ps) (ps_spreading_factor ps) (ps_coding_rate ps) (ps_tx_power ps)
      = Some (ps_key ps)) RNODE_PRESETS"
  by (simp add: infer_rnode_preset_def RNODE_PRESETS_def preset_matches_def)

lemma infer_region_all:
  "list_all (\<lambda>rg. infer_rnode_region (rg_frequency rg)
      = Some (if rg_key rg = lit ''australia'' then lit ''americas'' else rg_key rg)) RNODE_REGIONS"
  by (simp add: infer_rnode_region_def RNODE_REGIONS_def)

text \<open>The parameters of a region and a preset determine the preset again, and the region up to the
  two that share a frequency: Australia's 915 MHz is read back as the Americas.\<close>

theorem infer_resolve:
  assumes "resolve_rnode_params rk pk = Some p"
  shows "infer_rnode_preset (rp_bandwidth p) (rp_spreading_factor p) (rp_coding_rate p) (rp_tx_power p) = Some pk
    \<and> infer_rnode_region (rp_frequency p) = Some (if rk = lit ''australia'' then lit ''americas'' else rk)"
proof -
  obtain region preset where found: "find_region rk = Some region" "find_preset pk = Some preset"
    using assms by (auto simp: resolve_rnode_params_def split: option.splits)
  then have p: "rp_frequency p = rg_frequency region" "rp_bandwidth p = ps_bandwidth preset"
    "rp_spreading_factor p = ps_spreading_factor preset" "rp_coding_rate p = ps_coding_rate preset"
    "rp_tx_power p = ps_tx_power preset"
    using assms by (auto simp: resolve_rnode_params_def)
  note region = find_region_in [OF found(1)] and preset = find_preset_in [OF found(2)]
  show "infer_rnode_preset (rp_bandwidth p) (rp_spreading_factor p) (rp_coding_rate p) (rp_tx_power p) = Some pk
    \<and> infer_rnode_region (rp_frequency p) = Some (if rk = lit ''australia'' then lit ''americas'' else rk)"
    unfolding p using preset infer_preset_all region infer_region_all by (auto simp: list_all_iff)
qed

theorem infer_resolve_witness:
  "infer_rnode_region 868000000 = Some (lit ''europe'')"
  using infer_resolve [of "lit ''europe''" "lit ''long_fast''"]
  by (simp add: resolve_rnode_params_def find_region_def find_preset_def RNODE_REGIONS_def RNODE_PRESETS_def)

end
