(* ===== verification/Rnode_Port.thy ===== *)
theory Rnode_Port
  imports Rs_Text
begin

text \<open>
  The textual parts of an RNode interface: the port of a network-attached radio
  (\<open>normalise_rnode_port\<close> of \<open>crates/ratspeak-tauri/src/commands/interfaces.rs\<close>), a
  \<open>tcp://\<close> endpoint with an optional port and bracketed IPv6 hosts, and the interface mode
  (\<open>crates/ratspeak-runtime/src/rns_config.rs\<close>).
\<close>

section \<open>TCP endpoints\<close>

definition RNODE_TCP_SCHEME :: ustr where "RNODE_TCP_SCHEME = lit ''tcp://''"
definition RNODE_TCP_DEFAULT_PORT :: nat where "RNODE_TCP_DEFAULT_PORT = 7633"

datatype port_error = MissingHost | MissingBracket | TrailingText | InvalidHost | MissingPort | InvalidPort ustr

text \<open>The characters \<open>:\<close>, \<open>[\<close> and \<open>]\<close>.\<close>

abbreviation colon :: nat where "colon \<equiv> 58"
abbreviation lbracket :: nat where "lbracket \<equiv> 91"
abbreviation rbracket :: nat where "rbracket \<equiv> 93"

definition is_rnode_tcp_port :: "ustr \<Rightarrow> bool" where
  "is_rnode_tcp_port port =
    (case str_split_bytes (str_len RNODE_TCP_SCHEME) port of
       None \<Rightarrow> False
     | Some (front, _) \<Rightarrow> eq_ignore_ascii_case front RNODE_TCP_SCHEME)"

definition host_char_bad :: "nat \<Rightarrow> bool" where
  "host_char_bad c \<longleftrightarrow> is_control c \<or> is_whitespace c \<or> c \<in> {47, 63, 35, 91, 93}"

definition validate_rnode_tcp_host :: "ustr \<Rightarrow> port_error + unit" where
  "validate_rnode_tcp_host host =
    (if host = [] then Inl MissingHost
     else if list_ex host_char_bad host then Inl InvalidHost
     else Inr ())"

definition parse_rnode_tcp_port :: "ustr \<Rightarrow> port_error + nat" where
  "parse_rnode_tcp_port port =
    (if port = [] then Inl MissingPort
     else case parse_unsigned U16_MAX port of None \<Rightarrow> Inl (InvalidPort port) | Some n \<Rightarrow> Inr n)"

definition bracketed :: "ustr \<Rightarrow> nat \<Rightarrow> ustr" where
  "bracketed host port = lbracket # host @ [rbracket, colon] @ dec_string port"

definition with_port :: "ustr \<Rightarrow> nat \<Rightarrow> ustr" where
  "with_port host port = host @ [colon] @ dec_string port"

definition normalise_bracketed :: "ustr \<Rightarrow> port_error + ustr" where
  "normalise_bracketed rest =
    (case split_once rbracket rest of
       None \<Rightarrow> Inl MissingBracket
     | Some (host, tail) \<Rightarrow>
         (case validate_rnode_tcp_host host of
            Inl e \<Rightarrow> Inl e
          | Inr _ \<Rightarrow>
              if tail = [] then Inr (bracketed host RNODE_TCP_DEFAULT_PORT)
              else if hd tail = colon then
                (case parse_rnode_tcp_port (tl tail) of
                   Inl e \<Rightarrow> Inl e
                 | Inr port \<Rightarrow> Inr (bracketed host port))
              else Inl TrailingText))"

definition normalise_unbracketed :: "ustr \<Rightarrow> port_error + ustr" where
  "normalise_unbracketed endpoint =
    (case validate_rnode_tcp_host endpoint of
       Inl e \<Rightarrow> Inl e
     | Inr _ \<Rightarrow>
         let colon_count = length (filter (\<lambda>c. c = colon) endpoint) in
         if colon_count = 0 then Inr (with_port endpoint RNODE_TCP_DEFAULT_PORT)
         else if colon_count = 1 then
           (case rsplit_once colon endpoint of
              None \<Rightarrow> Inl MissingHost
            | Some (host, port) \<Rightarrow>
                (case validate_rnode_tcp_host host of
                   Inl e \<Rightarrow> Inl e
                 | Inr _ \<Rightarrow>
                     (case parse_rnode_tcp_port port of Inl e \<Rightarrow> Inl e | Inr n \<Rightarrow> Inr (with_port host n))))
         else Inr (bracketed endpoint RNODE_TCP_DEFAULT_PORT))"

definition normalise_rnode_tcp_endpoint :: "ustr \<Rightarrow> port_error + ustr" where
  "normalise_rnode_tcp_endpoint endpoint0 =
    (let endpoint = str_trim endpoint0 in
     if endpoint = [] then Inl MissingHost
     else if hd endpoint = lbracket then normalise_bracketed (tl endpoint)
     else normalise_unbracketed endpoint)"

definition normalise_rnode_port :: "ustr \<Rightarrow> port_error + ustr" where
  "normalise_rnode_port port =
    (if \<not> is_rnode_tcp_port port then Inr port
     else case str_split_bytes (str_len RNODE_TCP_SCHEME) port of
            None \<Rightarrow> Inl MissingHost
          | Some (_, endpoint) \<Rightarrow>
              (case normalise_rnode_tcp_endpoint endpoint of
                 Inl e \<Rightarrow> Inl e
               | Inr e \<Rightarrow> Inr (RNODE_TCP_SCHEME @ e)))"

section \<open>Canonical endpoints\<close>

definition host_ok :: "ustr \<Rightarrow> bool" where
  "host_ok host \<longleftrightarrow> host \<noteq> [] \<and> (\<forall>c \<in> set host. \<not> host_char_bad c)"

lemma validate_host: "validate_rnode_tcp_host host = Inr () \<longleftrightarrow> host_ok host"
  by (simp add: validate_rnode_tcp_host_def host_ok_def list_ex_iff)

lemma validate_host_ok [simp]: "host_ok host \<Longrightarrow> validate_rnode_tcp_host host = Inr ()"
  by (simp add: validate_host)

lemma validate_host_cases: "validate_rnode_tcp_host host = Inr u \<Longrightarrow> host_ok host"
  using validate_host [of host] by simp

definition canonical_endpoint :: "ustr \<Rightarrow> bool" where
  "canonical_endpoint e \<longleftrightarrow>
    (\<exists>host port. host_ok host \<and> port \<le> U16_MAX
       \<and> (e = bracketed host port \<or> (colon \<notin> set host \<and> e = with_port host port)))"

lemma parse_port_dec: "n \<le> U16_MAX \<Longrightarrow> parse_rnode_tcp_port (dec_string n) = Inr n"
  by (simp add: parse_rnode_tcp_port_def parse_unsigned_dec)

lemma parse_port_le: "parse_rnode_tcp_port s = Inr n \<Longrightarrow> n \<le> U16_MAX"
  by (auto simp: parse_rnode_tcp_port_def dest: parse_unsigned_le split: if_splits option.splits)

lemma host_chars:
  "host_ok host \<Longrightarrow> c \<in> set host \<Longrightarrow> c \<noteq> lbracket \<and> c \<noteq> rbracket \<and> \<not> is_whitespace c"
  by (auto simp: host_ok_def host_char_bad_def)

lemma digit_host_char: "is_ascii_digit c \<Longrightarrow> \<not> host_char_bad c \<and> c \<noteq> colon"
  by (auto simp: is_ascii_digit_def host_char_bad_def is_control_def is_whitespace_def)

lemma dec_string_chars: "c \<in> set (dec_string n) \<Longrightarrow> \<not> host_char_bad c \<and> c \<noteq> colon"
  using digit_host_char dec_string_digits by blast

lemma colon_char: "\<not> host_char_bad colon"
  by (simp add: host_char_bad_def is_control_def is_whitespace_def)

lemma with_port_trimmed: "host_ok host \<Longrightarrow> str_trim (with_port host port) = with_port host port"
proof (rule str_trim_trimmed, rule trimmed_if_no_whitespace, rule ballI)
  fix c assume "host_ok host" and "c \<in> set (with_port host port)"
  then have "\<not> host_char_bad c"
    using dec_string_chars colon_char by (auto simp: with_port_def host_ok_def)
  then show "\<not> is_whitespace c" by (simp add: host_char_bad_def)
qed

lemma bracketed_trimmed: "host_ok host \<Longrightarrow> str_trim (bracketed host port) = bracketed host port"
proof (rule str_trim_trimmed, rule trimmed_if_no_whitespace, rule ballI)
  fix c assume "host_ok host" and "c \<in> set (bracketed host port)"
  then have "\<not> host_char_bad c \<or> c = lbracket \<or> c = rbracket"
    using dec_string_chars colon_char by (auto simp: bracketed_def host_ok_def)
  then show "\<not> is_whitespace c" by (auto simp: host_char_bad_def is_whitespace_def)
qed

lemma normalise_canonical_bracketed:
  assumes "host_ok host" and "port \<le> U16_MAX"
  shows "normalise_rnode_tcp_endpoint (bracketed host port) = Inr (bracketed host port)"
proof -
  have "rbracket \<notin> set host" using assms(1) host_chars by blast
  then have "split_once rbracket (host @ rbracket # colon # dec_string port) = Some (host, colon # dec_string port)"
    by (rule split_once_append)
  then have "normalise_bracketed (host @ [rbracket, colon] @ dec_string port) = Inr (bracketed host port)"
    using assms by (simp add: normalise_bracketed_def parse_port_dec)
  then show ?thesis
    unfolding normalise_rnode_tcp_endpoint_def bracketed_trimmed [OF assms(1)]
    by (simp add: bracketed_def Let_def)
qed

lemma normalise_canonical_plain:
  assumes host: "host_ok host" and port: "port \<le> U16_MAX" and no_colon: "colon \<notin> set host"
  shows "normalise_rnode_tcp_endpoint (with_port host port) = Inr (with_port host port)"
proof -
  have ok: "host_ok (with_port host port)"
    using host dec_string_chars colon_char by (auto simp: host_ok_def with_port_def)
  have "colon \<notin> set (dec_string port)" using dec_string_chars by blast
  then have digits: "filter (\<lambda>c. c = colon) (dec_string port) = []" "filter (\<lambda>c. c = colon) host = []"
    "rsplit_once colon (host @ colon # dec_string port) = Some (host, dec_string port)"
    using no_colon rsplit_once_append by (auto simp: filter_empty_conv)
  have "hd (with_port host port) \<noteq> lbracket" "with_port host port \<noteq> []"
    using host host_chars [OF host hd_in_set] by (auto simp: with_port_def host_ok_def)
  moreover have "normalise_unbracketed (with_port host port) = Inr (with_port host port)"
    using ok host digits port
    by (simp add: normalise_unbracketed_def with_port_def parse_port_dec Let_def)
  ultimately show ?thesis
    unfolding normalise_rnode_tcp_endpoint_def with_port_trimmed [OF host] by (simp add: Let_def)
qed

lemma normalise_canonical: "canonical_endpoint e \<Longrightarrow> normalise_rnode_tcp_endpoint e = Inr e"
  unfolding canonical_endpoint_def using normalise_canonical_bracketed normalise_canonical_plain by blast

lemma default_port_le: "RNODE_TCP_DEFAULT_PORT \<le> U16_MAX"
  by (simp add: RNODE_TCP_DEFAULT_PORT_def)

lemma normalise_bracketed_canonical:
  assumes "normalise_bracketed rest = Inr e"
  shows "canonical_endpoint e"
proof -
  obtain host port where "host_ok host" "port \<le> U16_MAX" "e = bracketed host port"
    using assms default_port_le unfolding normalise_bracketed_def
    by (auto split: option.splits prod.splits sum.splits if_splits dest!: validate_host_cases parse_port_le)
  then show ?thesis by (auto simp: canonical_endpoint_def)
qed

lemma normalise_unbracketed_canonical:
  assumes "normalise_unbracketed s = Inr e"
  shows "canonical_endpoint e"
proof -
  have ok: "host_ok s" using assms by (auto simp: normalise_unbracketed_def dest!: validate_host_cases split: sum.splits)
  note default = default_port_le
  let ?n = "length (filter (\<lambda>c. c = colon) s)"
  consider "?n = 0" | "?n = 1" | "1 < ?n" by linarith
  then show ?thesis
  proof cases
    case 1
    then have "colon \<notin> set s" by (auto simp: filter_empty_conv)
    moreover have "e = with_port s RNODE_TCP_DEFAULT_PORT"
      using assms 1 ok by (simp add: normalise_unbracketed_def)
    ultimately show ?thesis using ok default by (auto simp: canonical_endpoint_def)
  next
    case 2
    then obtain host port n where parts: "rsplit_once colon s = Some (host, port)" "host_ok host"
      "parse_rnode_tcp_port port = Inr n" "e = with_port host n"
      using assms ok
      by (auto simp: normalise_unbracketed_def Let_def dest!: validate_host_cases split: option.splits sum.splits)
    have "s = host @ colon # port" using rsplit_once_Some [OF parts(1)] by simp
    then have "filter (\<lambda>c. c = colon) host = []" using 2 by simp
    then have "colon \<notin> set host" by (auto simp: filter_empty_conv)
    then show ?thesis using parts parse_port_le by (auto simp: canonical_endpoint_def)
  next
    case 3
    then have "filter (\<lambda>c. c = colon) s \<noteq> []" "?n \<noteq> 1" by auto
    then have "e = bracketed s RNODE_TCP_DEFAULT_PORT"
      using assms ok by (simp add: normalise_unbracketed_def)
    then show ?thesis using ok default by (auto simp: canonical_endpoint_def)
  qed
qed

lemma normalise_endpoint_canonical: "normalise_rnode_tcp_endpoint s = Inr e \<Longrightarrow> canonical_endpoint e"
  by (auto simp: normalise_rnode_tcp_endpoint_def Let_def normalise_bracketed_canonical
      normalise_unbracketed_canonical split: if_splits)

lemma tcp_scheme_split: "str_split_bytes (str_len RNODE_TCP_SCHEME) (RNODE_TCP_SCHEME @ e) = Some (RNODE_TCP_SCHEME, e)"
  by (rule str_split_bytes_append)

text \<open>A normalised port is left alone by normalising it again; a network port has become \<open>tcp://\<close>
  and a canonical endpoint, a host without reserved characters and an explicit decimal port.\<close>

theorem normalise_port_projection:
  assumes "normalise_rnode_port port = Inr q"
  shows "normalise_rnode_port q = Inr q
    \<and> (is_rnode_tcp_port port = (\<exists>e. canonical_endpoint e \<and> q = RNODE_TCP_SCHEME @ e))"
proof (cases "is_rnode_tcp_port port")
  case False
  then have "q = port" using assms by (simp add: normalise_rnode_port_def)
  moreover have "\<not> (\<exists>e. port = RNODE_TCP_SCHEME @ e)"
    using False tcp_scheme_split by (auto simp: is_rnode_tcp_port_def eq_ignore_ascii_case_def)
  ultimately show ?thesis using False assms by auto
next
  case True
  then obtain rest e where e: "normalise_rnode_tcp_endpoint rest = Inr e" "q = RNODE_TCP_SCHEME @ e"
    using assms by (auto simp: normalise_rnode_port_def split: option.splits sum.splits)
  have "canonical_endpoint e" by (rule normalise_endpoint_canonical [OF e(1)])
  then show ?thesis
    using True normalise_canonical [of e] e(2)
    by (auto simp: normalise_rnode_port_def is_rnode_tcp_port_def eq_ignore_ascii_case_def tcp_scheme_split)
qed

theorem normalise_port_projection_witness:
  "normalise_rnode_port (RNODE_TCP_SCHEME @ lit ''[fe80::1]:7633'') = Inr (RNODE_TCP_SCHEME @ lit ''[fe80::1]:7633'')"
proof -
  have port: "dec_string 7633 = [55, 54, 51, 51]"
    by (simp add: dec_string.simps [of 7633] dec_string.simps [of 763] dec_string.simps [of 76] dec_string.simps [of 7])
  have "normalise_rnode_tcp_endpoint (lit '' fe80::1 '') = Inr (lit ''[fe80::1]:7633'')"
    by (simp add: normalise_rnode_tcp_endpoint_def str_trim_def is_whitespace_def normalise_unbracketed_def
        validate_rnode_tcp_host_def host_char_bad_def is_control_def bracketed_def RNODE_TCP_DEFAULT_PORT_def
        port Let_def lit_Cons)
  then have "normalise_rnode_port (RNODE_TCP_SCHEME @ lit '' fe80::1 '') = Inr (RNODE_TCP_SCHEME @ lit ''[fe80::1]:7633'')"
    by (simp add: normalise_rnode_port_def is_rnode_tcp_port_def tcp_scheme_split eq_ignore_ascii_case_def)
  from normalise_port_projection [OF this] show ?thesis by (rule conjunct1)
qed

section \<open>Interface modes\<close>

definition RNODE_NEW_INTERFACE_DEFAULT_MODE :: ustr where "RNODE_NEW_INTERFACE_DEFAULT_MODE = lit ''roaming''"
definition RETICULUM_DEFAULT_INTERFACE_MODE :: ustr where "RETICULUM_DEFAULT_INTERFACE_MODE = lit ''full''"

datatype interface_mode = ModeFull | ModeGateway | ModeAccessPoint | ModeBoundary | ModeRoaming

definition non_blank :: "ustr option \<Rightarrow> ustr option" where
  "non_blank mode = (case mode of None \<Rightarrow> None | Some m \<Rightarrow> if str_trim m = [] then None else Some (str_trim m))"

definition normalize_rnode_interface_mode :: "ustr option \<Rightarrow> ustr option" where
  "normalize_rnode_interface_mode mode0 =
    (let mode = (case non_blank mode0 of None \<Rightarrow> RNODE_NEW_INTERFACE_DEFAULT_MODE | Some m \<Rightarrow> m);
         key = to_ascii_lowercase mode in
     if key = lit ''full'' then Some (lit ''full'')
     else if key \<in> set [lit ''gateway'', lit ''gw''] then Some (lit ''gateway'')
     else if key \<in> set [lit ''access_point'', lit ''accesspoint'', lit ''access point'', lit ''ap'']
     then Some (lit ''access_point'')
     else if key = lit ''boundary'' then Some (lit ''boundary'')
     else if key = lit ''roaming'' then Some (lit ''roaming'')
     else None)"

definition rnode_interface_mode_passthrough :: "ustr option \<Rightarrow> ustr" where
  "rnode_interface_mode_passthrough mode0 =
    (let mode = non_blank mode0 in
     case normalize_rnode_interface_mode mode of
       Some m \<Rightarrow> m
     | None \<Rightarrow> (case mode of None \<Rightarrow> RNODE_NEW_INTERFACE_DEFAULT_MODE | Some m \<Rightarrow> m))"

definition rnode_interface_mode_value :: "ustr option \<Rightarrow> interface_mode option" where
  "rnode_interface_mode_value mode =
    (case normalize_rnode_interface_mode mode of
       None \<Rightarrow> None
     | Some m \<Rightarrow>
         if m = lit ''full'' then Some ModeFull
         else if m = lit ''gateway'' then Some ModeGateway
         else if m = lit ''access_point'' then Some ModeAccessPoint
         else if m = lit ''boundary'' then Some ModeBoundary
         else if m = lit ''roaming'' then Some ModeRoaming
         else None)"

definition resolve_lora_update_mode :: "ustr option \<Rightarrow> ustr \<Rightarrow> ustr" where
  "resolve_lora_update_mode requested existing =
    (case requested of
       None \<Rightarrow> existing
     | Some mode \<Rightarrow>
         if mode = RETICULUM_DEFAULT_INTERFACE_MODE \<and> normalize_rnode_interface_mode (Some existing) = None
         then existing else mode)"

definition rnode_runtime_mode :: "ustr \<Rightarrow> interface_mode" where
  "rnode_runtime_mode mode = (case rnode_interface_mode_value (Some mode) of None \<Rightarrow> ModeFull | Some m \<Rightarrow> m)"

lemma normalize_mode_values:
  "normalize_rnode_interface_mode mode = Some m \<Longrightarrow>
    m \<in> {lit ''full'', lit ''gateway'', lit ''access_point'', lit ''boundary'', lit ''roaming''}"
  by (simp add: normalize_rnode_interface_mode_def Let_def split: if_splits)

lemma non_blank_idem [simp]: "non_blank (non_blank mode) = non_blank mode"
  by (auto simp: non_blank_def split: option.split)

lemma normalize_mode_blank: "normalize_rnode_interface_mode (non_blank mode) = normalize_rnode_interface_mode mode"
  by (simp add: normalize_rnode_interface_mode_def)

lemma known_mode_fixed:
  "m \<in> {lit ''full'', lit ''gateway'', lit ''access_point'', lit ''boundary'', lit ''roaming''} \<Longrightarrow>
    normalize_rnode_interface_mode (Some m) = Some m"
  by (elim insertE emptyE; simp add: normalize_rnode_interface_mode_def non_blank_def str_trim_def is_whitespace_def
      to_ascii_lowercase_def to_ascii_lower_def lit_Cons)

lemma normalize_mode_idem:
  "normalize_rnode_interface_mode mode = Some m \<Longrightarrow> normalize_rnode_interface_mode (Some m) = Some m"
  using known_mode_fixed [OF normalize_mode_values] by blast

text \<open>A mode string, kept verbatim when it is unknown, is stable under another pass, is known or unknown as
  before and runs as the same mode, Full when it is unknown.\<close>

theorem mode_passthrough_stable:
  "rnode_interface_mode_passthrough (Some (rnode_interface_mode_passthrough mode)) = rnode_interface_mode_passthrough mode
    \<and> normalize_rnode_interface_mode (Some (rnode_interface_mode_passthrough mode)) = normalize_rnode_interface_mode mode
    \<and> rnode_runtime_mode (rnode_interface_mode_passthrough mode) =
        (case rnode_interface_mode_value mode of None \<Rightarrow> ModeFull | Some m \<Rightarrow> m)"
proof (cases "normalize_rnode_interface_mode mode")
  case None
  have "normalize_rnode_interface_mode None = Some RNODE_NEW_INTERFACE_DEFAULT_MODE"
    by (simp add: normalize_rnode_interface_mode_def non_blank_def RNODE_NEW_INTERFACE_DEFAULT_MODE_def
        to_ascii_lowercase_def to_ascii_lower_def lit_Cons)
  then obtain t where t: "non_blank mode = Some t"
    using None normalize_mode_blank [of mode] by (cases "non_blank mode") auto
  then have "non_blank (Some t) = Some t" using non_blank_idem [of mode] by simp
  then show ?thesis
    using None t normalize_mode_blank [of mode]
    by (simp add: rnode_interface_mode_passthrough_def rnode_interface_mode_value_def rnode_runtime_mode_def Let_def)
next
  case (Some k)
  have "normalize_rnode_interface_mode (Some k) = Some k" by (rule normalize_mode_idem [OF Some])
  then show ?thesis
    using Some normalize_mode_blank [of mode] normalize_mode_blank [of "Some k"]
    by (simp add: rnode_interface_mode_passthrough_def rnode_interface_mode_value_def rnode_runtime_mode_def Let_def)
qed

end
