(* ===== verification/Config_Text.thy ===== *)
theory Config_Text
  imports Rs_Text
begin

text \<open>
  The line-level reading and writing of the Reticulum configuration file,
  \<open>crates/ratspeak-runtime/src/rns_config.rs\<close>: lines, key-value lines with quotes and inline
  comments, section headers, and the line edits that the application makes.
\<close>

section \<open>Lines\<close>

text \<open>\<open>str::lines\<close>: a carriage return is part of the line ending only before a line feed.\<close>

definition strip_cr :: "ustr \<Rightarrow> ustr" where
  "strip_cr l = (if l \<noteq> [] \<and> last l = 13 then butlast l else l)"

function str_lines :: "ustr \<Rightarrow> ustr list" where
  "str_lines s =
    (if s = [] then []
     else case split_once 10 s of
            None \<Rightarrow> [s]
          | Some (line, rest) \<Rightarrow> strip_cr line # str_lines rest)"
  by auto
termination
  by (relation "measure length") (auto dest: split_once_Some)

declare str_lines.simps [simp del]

text \<open>\<open>join_config_text\<close> and \<open>join_config_lines\<close>; reserving space has no effect on the text.\<close>

fun intersperse_newlines :: "ustr list \<Rightarrow> ustr" where
  "intersperse_newlines [] = []"
| "intersperse_newlines [l] = l"
| "intersperse_newlines (l # ls) = l @ [10] @ intersperse_newlines ls"

definition join_config_text :: "ustr list \<Rightarrow> bool \<Rightarrow> ustr" where
  "join_config_text ls trailing_newline = intersperse_newlines ls @ (if trailing_newline then [10] else [])"

definition join_config_lines :: "ustr list \<Rightarrow> ustr" where
  "join_config_lines ls = join_config_text ls True"

lemma str_lines_Nil [simp]: "str_lines [] = []"
  by (simp add: str_lines.simps)

lemma str_lines_cons: "10 \<notin> set l \<Longrightarrow> str_lines (l @ 10 # rest) = strip_cr l # str_lines rest"
  by (subst str_lines.simps) (simp add: split_once_append)

lemma str_lines_join:
  "\<forall>l \<in> set ls. 10 \<notin> set l \<Longrightarrow> ls \<noteq> [] \<Longrightarrow> str_lines (join_config_lines ls) = map strip_cr ls"
proof (induction ls rule: intersperse_newlines.induct)
  case (2 l)
  then show ?case using str_lines_cons [of l "[]"] by (simp add: join_config_lines_def join_config_text_def)
next
  case (3 l l' ls)
  then show ?case
    using str_lines_cons [of l "intersperse_newlines (l' # ls) @ [10]"]
    by (simp add: join_config_lines_def join_config_text_def)
qed simp

lemma set_strip_cr: "set (strip_cr l) \<subseteq> set l"
  by (auto simp: strip_cr_def dest: in_set_butlastD)

lemma str_lines_no_newline: "l \<in> set (str_lines s) \<Longrightarrow> 10 \<notin> set l"
proof (induction s rule: str_lines.induct)
  case (1 s)
  show ?case
  proof (cases "split_once 10 s")
    case None
    then have "10 \<notin> set s" by (simp add: split_once_None)
    then show ?thesis using "1.prems" None by (simp add: str_lines.simps [of s] split: if_splits)
  next
    case (Some p)
    obtain line rest where p: "p = (line, rest)" by (cases p)
    have "s \<noteq> []" using split_once_Some [of 10 s] Some p by auto
    moreover have "10 \<notin> set (strip_cr line)" using split_once_Some [of 10 s] Some p set_strip_cr by blast
    ultimately show ?thesis
      using "1.prems" "1.IH" [OF _ Some p [symmetric]] Some p by (auto simp: str_lines.simps [of s])
  qed
qed

lemma str_trim_snoc: "is_whitespace c \<Longrightarrow> str_trim (l @ [c]) = str_trim l"
proof -
  assume c: "is_whitespace c"
  show ?thesis
  proof (cases "\<forall>x \<in> set l. is_whitespace x")
    case True
    then show ?thesis using c str_trim_Nil_iff [of l] str_trim_Nil_iff [of "l @ [c]"] by auto
  next
    case False
    then have "dropWhile is_whitespace (l @ [c]) = dropWhile is_whitespace l @ [c]"
      by (auto simp: dropWhile_append1)
    then show ?thesis using c by (simp add: str_trim_def)
  qed
qed

lemma str_trim_strip_cr [simp]: "str_trim (strip_cr l) = str_trim l"
proof (cases "l \<noteq> [] \<and> last l = 13")
  case True
  then have "l = strip_cr l @ [13]" by (simp add: strip_cr_def) (metis append_butlast_last_id)
  then show ?thesis using str_trim_snoc [of 13 "strip_cr l"] by (simp add: is_whitespace_def)
qed (auto simp: strip_cr_def)

section \<open>Key-value lines\<close>

fun strip_comment :: "nat option \<Rightarrow> ustr \<Rightarrow> ustr" where
  "strip_comment q [] = []"
| "strip_comment (Some q) (c # cs) = c # strip_comment (if c = q then None else Some q) cs"
| "strip_comment None (c # cs) =
    (if c = 34 \<or> c = 39 then c # strip_comment (Some c) cs
     else if c = 35 then []
     else c # strip_comment None cs)"

definition strip_inline_comment :: "ustr \<Rightarrow> ustr" where
  "strip_inline_comment val = strip_comment None val"

definition unquote_ini_scalar :: "ustr \<Rightarrow> ustr" where
  "unquote_ini_scalar val =
    (if 2 \<le> length val \<and> hd val = last val \<and> (hd val = 34 \<or> hd val = 39) then butlast (tl val) else val)"

definition parse_ini_key_value :: "ustr \<Rightarrow> (ustr \<times> ustr) option" where
  "parse_ini_key_value line =
    (let t = str_trim line in
     if t = [] \<or> hd t = 35 then None
     else case split_once 61 t of
            None \<Rightarrow> None
          | Some (key, val) \<Rightarrow>
              if str_trim key = [] then None
              else Some (to_ascii_lowercase (unquote_ini_scalar (str_trim key)),
                         unquote_ini_scalar (str_trim (strip_inline_comment val))))"

definition replace_key_line :: "ustr \<Rightarrow> ustr \<Rightarrow> ustr \<Rightarrow> ustr" where
  "replace_key_line line key val = takeWhile is_whitespace line @ key @ lit '' = '' @ val"

lemma parse_ini_strip_cr [simp]: "parse_ini_key_value (strip_cr l) = parse_ini_key_value l"
  by (simp add: parse_ini_key_value_def)

text \<open>Characters of a plain scalar: no white space, quotes, comment or equals signs.\<close>

definition plain_char :: "nat \<Rightarrow> bool" where
  "plain_char c \<longleftrightarrow> \<not> is_whitespace c \<and> c \<noteq> 34 \<and> c \<noteq> 39 \<and> c \<noteq> 35 \<and> c \<noteq> 61"

definition plain :: "ustr \<Rightarrow> bool" where
  "plain s \<longleftrightarrow> s \<noteq> [] \<and> (\<forall>c \<in> set s. plain_char c)"

lemma plain_trimmed: "plain s \<Longrightarrow> str_trim s = s"
  by (intro str_trim_trimmed trimmed_if_no_whitespace) (auto simp: plain_def plain_char_def)

lemma plain_unquote: "plain s \<Longrightarrow> unquote_ini_scalar s = s"
  by (cases s) (auto simp: plain_def plain_char_def unquote_ini_scalar_def)

lemma strip_comment_plain:
  "\<forall>c \<in> set s. c \<noteq> 34 \<and> c \<noteq> 39 \<and> c \<noteq> 35 \<Longrightarrow> strip_comment None (s @ t) = s @ strip_comment None t"
  by (induction s) auto

lemma str_trim_lead: "\<forall>c \<in> set w. is_whitespace c \<Longrightarrow> str_trim (w @ s) = str_trim s"
  by (simp add: str_trim_def dropWhile_append2)

lemma str_trim_trail: "\<forall>c \<in> set w. is_whitespace c \<Longrightarrow> str_trim (s @ w) = str_trim s"
proof (induction w rule: rev_induct)
  case (snoc c w)
  then show ?case using str_trim_snoc [of c "s @ w"] by simp
qed simp

lemma str_trim_around:
  "\<forall>c \<in> set v. is_whitespace c \<Longrightarrow> \<forall>c \<in> set w. is_whitespace c \<Longrightarrow> trimmed s \<Longrightarrow> str_trim (v @ s @ w) = s"
  by (simp add: str_trim_lead str_trim_trail str_trim_trimmed)

lemma space_is_whitespace [simp]: "is_whitespace 32"
  by (simp add: is_whitespace_def)

text \<open>What is written as a key line is read back.\<close>

lemma parse_key_line:
  assumes key: "plain key" and val: "plain val" and w: "\<forall>c \<in> set w. is_whitespace c"
  shows "parse_ini_key_value (w @ key @ lit '' = '' @ val) = Some (to_ascii_lowercase key, val)"
proof -
  let ?t = "key @ lit '' = '' @ val"
  have ends: "key \<noteq> []" "val \<noteq> []" "\<not> is_whitespace (hd key)" "\<not> is_whitespace (last val)" "hd key \<noteq> 35"
    using key val by (auto simp: plain_def plain_char_def)
  then have "trimmed ?t" by (simp add: trimmed_def)
  then have t: "str_trim (w @ ?t) = ?t" using str_trim_around [of w "[]" ?t] w by simp
  have "61 \<notin> set (key @ [32])" using key by (auto simp: plain_def plain_char_def)
  then have "split_once 61 ((key @ [32]) @ 61 # 32 # val) = Some (key @ [32], 32 # val)" by (rule split_once_append)
  then have split: "split_once 61 ?t = Some (key @ [32], 32 # val)" by (simp add: lit_Cons)
  have k: "str_trim (key @ [32]) = key" using str_trim_snoc [of 32 key] plain_trimmed [OF key] by simp
  have "strip_inline_comment (32 # val) = 32 # val"
    using strip_comment_plain [of "32 # val" "[]"] val by (auto simp: strip_inline_comment_def plain_def plain_char_def)
  moreover have "str_trim (32 # val) = val" using str_trim_lead [of "[32]" val] plain_trimmed [OF val] by simp
  ultimately show ?thesis
    unfolding parse_ini_key_value_def t Let_def split
    using ends k by (simp add: plain_unquote [OF key] plain_unquote [OF val])
qed

lemma parse_replace_key_line:
  "plain key \<Longrightarrow> plain val \<Longrightarrow> parse_ini_key_value (replace_key_line line key val) = Some (to_ascii_lowercase key, val)"
  unfolding replace_key_line_def by (rule parse_key_line) (auto dest: set_takeWhileD)

section \<open>Section headers\<close>

definition is_top_level_section :: "ustr \<Rightarrow> bool" where
  "is_top_level_section line =
    (let t = str_trim line in
     3 \<le> str_len t \<and> hd t = 91 \<and> last t = 93 \<and> take 2 t \<noteq> [91, 91])"

definition named_top_level_section :: "ustr \<Rightarrow> ustr \<Rightarrow> bool" where
  "named_top_level_section line name \<longleftrightarrow>
    is_top_level_section line \<and> eq_ignore_ascii_case (str_trim (butlast (tl (str_trim line)))) name"

lemma section_strip_cr [simp]:
  "is_top_level_section (strip_cr l) = is_top_level_section l"
  "named_top_level_section (strip_cr l) name = named_top_level_section l name"
  by (simp_all add: is_top_level_section_def named_top_level_section_def)

text \<open>The first line after \<open>start\<close> that opens a section ends the section.\<close>

definition reticulum_section_bounds :: "ustr list \<Rightarrow> (nat \<times> nat) option" where
  "reticulum_section_bounds ls =
    (case find_position (\<lambda>line. named_top_level_section line (lit ''reticulum'')) ls of
       None \<Rightarrow> None
     | Some start \<Rightarrow>
         Some (start,
           case find_position is_top_level_section (drop (start + 1) ls) of
             None \<Rightarrow> length ls
           | Some offset \<Rightarrow> start + 1 + offset))"

text \<open>A file is the lines before the section, its header, its body and the sections after it.\<close>

definition sectioned :: "ustr list \<Rightarrow> ustr list \<Rightarrow> ustr \<Rightarrow> ustr list \<Rightarrow> ustr list \<Rightarrow> bool" where
  "sectioned ls pre header body post \<longleftrightarrow> ls = pre @ header # body @ post
    \<and> (\<forall>l \<in> set pre. \<not> named_top_level_section l (lit ''reticulum''))
    \<and> named_top_level_section header (lit ''reticulum'')
    \<and> (\<forall>l \<in> set body. \<not> is_top_level_section l)
    \<and> (post \<noteq> [] \<longrightarrow> is_top_level_section (hd post))"

lemma bounds_sectioned:
  "sectioned ls pre header body post \<Longrightarrow>
   reticulum_section_bounds ls = Some (length pre, length pre + 1 + length body)"
proof -
  assume s: "sectioned ls pre header body post"
  have start: "find_position (\<lambda>line. named_top_level_section line (lit ''reticulum'')) ls = Some (length pre)"
    using s by (auto simp: sectioned_def intro!: position_append)
  have rest: "drop (length pre + 1) ls = body @ post" using s by (simp add: sectioned_def)
  show ?thesis
  proof (cases post)
    case Nil
    then have "find_position is_top_level_section (body @ post) = None"
      using s by (simp add: position_None sectioned_def)
    moreover have "length ls = length pre + 1 + length body" using s Nil by (simp add: sectioned_def)
    ultimately show ?thesis unfolding reticulum_section_bounds_def start by (simp only: option.case rest)
  next
    case (Cons l ls')
    then have "find_position is_top_level_section (body @ post) = Some (length body)"
      using s by (auto simp: sectioned_def intro!: position_append)
    then show ?thesis unfolding reticulum_section_bounds_def start by (simp only: option.case rest)
  qed
qed

lemma bounds_cases:
  obtains (none) "reticulum_section_bounds ls = None"
      "\<forall>l \<in> set ls. \<not> named_top_level_section l (lit ''reticulum'')"
  | (some) pre header body post where "sectioned ls pre header body post"
proof (cases "find_position (\<lambda>line. named_top_level_section line (lit ''reticulum'')) ls")
  case None
  show thesis
  proof (rule none)
    show "reticulum_section_bounds ls = None" unfolding reticulum_section_bounds_def None by simp
  next
    show "\<forall>l \<in> set ls. \<not> named_top_level_section l (lit ''reticulum'')"
      by (rule iffD1 [OF position_None None])
  qed
next
  case (Some i)
  then obtain pre header rest where ls: "ls = pre @ header # rest" "named_top_level_section header (lit ''reticulum'')"
    "\<forall>l \<in> set pre. \<not> named_top_level_section l (lit ''reticulum'')"
    using position_Some by blast
  have "sectioned ls pre header (takeWhile (\<lambda>l. \<not> is_top_level_section l) rest)
      (dropWhile (\<lambda>l. \<not> is_top_level_section l) rest)"
    using ls hd_dropWhile [of "\<lambda>l. \<not> is_top_level_section l" rest]
    by (auto simp: sectioned_def dest: set_takeWhileD)
  then show thesis by (rule some)
qed

end
