(* ===== verification/Config_Reticulum.thy ===== *)
theory Config_Reticulum
  imports Config_Text
begin

text \<open>
  The application's edits of the \<open>[reticulum]\<close> section of \<open>rns_config.rs\<close>: the transport switch,
  the private shared-instance ports and name, the recognition of an operator's own choice, and the
  preparation of the file at startup.  The digest of the configuration path, a SHA-256 value that
  the source takes from another crate, is a parameter, as are the outcome of \<open>Config::parse\<close> and
  of publishing the file.
\<close>

section \<open>Reading the section\<close>

definition key_of :: "ustr \<Rightarrow> ustr option" where
  "key_of line = map_option fst (parse_ini_key_value line)"

text \<open>The values of a key in the lines of a section, in order.\<close>

definition values_of :: "ustr \<Rightarrow> ustr list \<Rightarrow> ustr list" where
  "values_of key body = map snd (filter (\<lambda>p. fst p = key) (List.map_filter parse_ini_key_value body))"

definition section_body :: "ustr list \<Rightarrow> nat \<times> nat \<Rightarrow> ustr list" where
  "section_body ls bounds = take (snd bounds - (fst bounds + 1)) (drop (fst bounds + 1) ls)"

definition reticulum_body :: "ustr \<Rightarrow> ustr list option" where
  "reticulum_body content =
    map_option (section_body (str_lines content)) (reticulum_section_bounds (str_lines content))"

lemma values_of_simps [simp]:
  "values_of key [] = []"
  "values_of key (l # ls) =
    (case parse_ini_key_value l of
       None \<Rightarrow> values_of key ls
     | Some (k, v) \<Rightarrow> if k = key then v # values_of key ls else values_of key ls)"
  by (simp_all add: values_of_def map_filter_simps split: option.split prod.split)

lemma values_of_append [simp]: "values_of key (a @ b) = values_of key a @ values_of key b"
  by (induction a) (auto split: option.split prod.split)

lemma values_of_strip_cr [simp]: "values_of key (map strip_cr ls) = values_of key ls"
  by (induction ls) (auto split: option.split prod.split)

lemma values_of_none: "\<forall>l \<in> set ls. key_of l \<noteq> Some key \<Longrightarrow> values_of key ls = []"
  by (induction ls) (auto simp: key_of_def split: option.split prod.split)

lemma section_body_sectioned:
  "sectioned ls pre header body post \<Longrightarrow> section_body ls (length pre, length pre + 1 + length body) = body"
  by (simp add: section_body_def sectioned_def)

text \<open>A file that the application writes line by line is read back up to carriage returns.\<close>

lemma sectioned_reread:
  assumes "sectioned ls pre header body post" and "\<forall>l \<in> set ls. 10 \<notin> set l"
  shows "sectioned (str_lines (join_config_lines ls)) (map strip_cr pre) (strip_cr header) (map strip_cr body)
    (map strip_cr post)"
proof -
  have "ls \<noteq> []" using assms(1) by (auto simp: sectioned_def)
  then have "str_lines (join_config_lines ls) = map strip_cr ls" by (intro str_lines_join [OF assms(2)])
  then show ?thesis using assms(1) by (auto simp: sectioned_def hd_map)
qed

lemma reticulum_body_join:
  assumes "sectioned ls pre header body post" and "\<forall>l \<in> set ls. 10 \<notin> set l"
  shows "reticulum_body (join_config_lines ls) = Some (map strip_cr body)"
  using bounds_sectioned [OF sectioned_reread [OF assms]] section_body_sectioned [OF sectioned_reread [OF assms]]
  by (simp add: reticulum_body_def)

lemma reticulum_body_sectioned:
  "sectioned (str_lines content) pre header body post \<Longrightarrow> reticulum_body content = Some body"
  using bounds_sectioned section_body_sectioned by (simp add: reticulum_body_def)

section \<open>The transport switch\<close>

definition transport_value :: "bool \<Rightarrow> ustr" where
  "transport_value enable = (if enable then lit ''True'' else lit ''False'')"

definition insert_at :: "nat \<Rightarrow> 'a list \<Rightarrow> 'a list \<Rightarrow> 'a list" where
  "insert_at n new ls = take n ls @ new @ drop n ls"

definition transport_mode_update :: "ustr \<Rightarrow> bool \<Rightarrow> ustr" where
  "transport_mode_update content enable =
    (let val = transport_value enable; ls = str_lines content in
     case reticulum_section_bounds ls of
       None \<Rightarrow> join_config_lines ([lit ''[reticulum]'', lit ''enable_transport = '' @ val, []] @ ls)
     | Some (start, end_) \<Rightarrow>
         (case find_position (\<lambda>l. key_of l = Some (lit ''enable_transport'')) (section_body ls (start, end_)) of
            Some i \<Rightarrow>
              join_config_lines
                (ls[start + 1 + i := replace_key_line (ls ! (start + 1 + i)) (lit ''enable_transport'') val])
          | None \<Rightarrow> join_config_lines (insert_at end_ [lit ''enable_transport = '' @ val] ls)))"

definition is_true_word :: "ustr \<Rightarrow> bool" where
  "is_true_word val \<longleftrightarrow> to_ascii_lowercase (str_trim val) \<in> set [lit ''true'', lit ''yes'', lit ''1'', lit ''on'']"

definition transport_enabled_from_config :: "ustr \<Rightarrow> bool option" where
  "transport_enabled_from_config content =
    (let ls = str_lines content in
     case reticulum_section_bounds ls of
       None \<Rightarrow> None
     | Some bounds \<Rightarrow>
         (case values_of (lit ''enable_transport'') (section_body ls bounds) of
            [] \<Rightarrow> None
          | val # _ \<Rightarrow> Some (is_true_word val)))"

lemma transport_enabled_body:
  "transport_enabled_from_config content =
    (case reticulum_body content of
       None \<Rightarrow> None
     | Some body \<Rightarrow> (case values_of (lit ''enable_transport'') body of [] \<Rightarrow> None | val # _ \<Rightarrow> Some (is_true_word val)))"
  by (simp add: transport_enabled_from_config_def reticulum_body_def Let_def split: option.split)

text \<open>Replacing a key line, and adding one at the end of a section.\<close>

lemma plain_lit: "list_all (\<lambda>c. plain_char (of_char c)) s \<Longrightarrow> s \<noteq> [] \<Longrightarrow> plain (lit s)"
  by (auto simp: plain_def lit_def list_all_iff)

lemma plain_no_newline: "plain s \<Longrightarrow> 10 \<notin> set s"
proof -
  have "\<not> plain_char 10" by (simp add: plain_char_def is_whitespace_def)
  then show "plain s \<Longrightarrow> 10 \<notin> set s" unfolding plain_def by blast
qed

lemma replace_key_line_no_newline:
  "10 \<notin> set line \<Longrightarrow> plain key \<Longrightarrow> plain val \<Longrightarrow> 10 \<notin> set (replace_key_line line key val)"
  using plain_no_newline [of key] plain_no_newline [of val] set_takeWhileD [of 10 is_whitespace line]
  by (auto simp: replace_key_line_def lit_Cons)

lemma replace_key_line_not_section:
  assumes "plain key" and "plain val" and "hd key \<noteq> 91"
  shows "\<not> is_top_level_section (replace_key_line line key val)"
proof -
  let ?t = "key @ lit '' = '' @ val"
  have "trimmed ?t" using assms by (auto simp: trimmed_def plain_def plain_char_def)
  then have "str_trim (replace_key_line line key val) = ?t"
    using str_trim_around [of "takeWhile is_whitespace line" "[]" ?t]
    by (auto simp: replace_key_line_def dest: set_takeWhileD)
  moreover have "hd ?t \<noteq> 91" using assms by (auto simp: plain_def)
  ultimately show ?thesis by (auto simp: is_top_level_section_def Let_def)
qed

lemma key_line_replace: "key @ lit '' = '' @ val = replace_key_line [] key val"
  by (simp add: replace_key_line_def)

lemma sectioned_update:
  assumes "sectioned ls pre header (a @ old # b) post" and "\<not> is_top_level_section new"
  shows "sectioned (ls[length pre + 1 + length a := new]) pre header (a @ new # b) post"
proof -
  have ls: "ls = (pre @ header # a) @ old # (b @ post)" using assms(1) by (simp add: sectioned_def)
  have "ls[length (pre @ header # a) := new] = (pre @ header # a) @ new # (b @ post)"
    unfolding ls by (rule list_update_length)
  then show ?thesis using assms by (simp add: sectioned_def)
qed

lemma sectioned_insert:
  assumes "sectioned ls pre header body post" and "\<forall>l \<in> set new. \<not> is_top_level_section l"
  shows "sectioned (insert_at (length pre + 1 + length body) new ls) pre header (body @ new) post"
  using assms by (auto simp: sectioned_def insert_at_def)

lemma key_split: "lit (s @ t) = lit s @ lit t"
  by (simp add: lit_def)

lemma transport_key: "plain (lit ''enable_transport'')" "hd (lit ''enable_transport'') \<noteq> 91"
    "to_ascii_lowercase (lit ''enable_transport'') = lit ''enable_transport''"
  by (simp_all add: plain_def plain_char_def is_whitespace_def lit_Cons to_ascii_lowercase_def to_ascii_lower_def)

lemma transport_value_plain: "plain (transport_value enable)"
  by (simp add: transport_value_def plain_def plain_char_def is_whitespace_def lit_Cons)

lemma transport_value_word: "is_true_word (transport_value enable) = enable"
  by (simp add: is_true_word_def transport_value_def lit_Cons to_ascii_lowercase_def to_ascii_lower_def
      str_trim_def is_whitespace_def)

lemma transport_line: "lit ''enable_transport = '' @ val = replace_key_line [] (lit ''enable_transport'') val"
  by (simp add: replace_key_line_def lit_Cons)

lemma transport_update_body:
  obtains (fresh) rest where "reticulum_body content = None"
      "reticulum_body (transport_mode_update content enable) =
        Some (map strip_cr (replace_key_line [] (lit ''enable_transport'') (transport_value enable) # rest))"
  | (replaced) a old b line where "reticulum_body content = Some (a @ old # b)"
      "\<forall>l \<in> set a. key_of l \<noteq> Some (lit ''enable_transport'')" "key_of old = Some (lit ''enable_transport'')"
      "reticulum_body (transport_mode_update content enable) =
        Some (map strip_cr (a @ replace_key_line line (lit ''enable_transport'') (transport_value enable) # b))"
  | (added) body where "reticulum_body content = Some body"
      "\<forall>l \<in> set body. key_of l \<noteq> Some (lit ''enable_transport'')"
      "reticulum_body (transport_mode_update content enable) =
        Some (map strip_cr (body @ [replace_key_line [] (lit ''enable_transport'') (transport_value enable)]))"
proof -
  let ?ls = "str_lines content" and ?key = "lit ''enable_transport''" and ?val = "transport_value enable"
  let ?new = "\<lambda>line. replace_key_line line ?key ?val"
  have nl: "\<forall>l \<in> set ?ls. 10 \<notin> set l" using str_lines_no_newline by blast
  have new: "\<not> is_top_level_section (?new line)" "10 \<notin> set line \<Longrightarrow> 10 \<notin> set (?new line)" for line
    using replace_key_line_not_section [OF transport_key(1) transport_value_plain transport_key(2)]
      replace_key_line_no_newline [OF _ transport_key(1) transport_value_plain] by blast+
  show thesis
  proof (cases rule: bounds_cases [of ?ls])
    case none
    let ?hdr = "lit ''[reticulum]''"
    let ?rest = "[] # takeWhile (\<lambda>l. \<not> is_top_level_section l) ?ls"
    have hdr: "named_top_level_section ?hdr (lit ''reticulum'')"
      by (simp add: named_top_level_section_def is_top_level_section_def str_trim_def is_whitespace_def lit_Cons
          eq_ignore_ascii_case_def Let_def utf8_width_def)
    have empty: "\<not> is_top_level_section []" by (simp add: is_top_level_section_def)
    have "sectioned ([?hdr, ?new [], []] @ ?ls) [] ?hdr (?new [] # ?rest) (dropWhile (\<lambda>l. \<not> is_top_level_section l) ?ls)"
      using hdr new(1) empty hd_dropWhile [of "\<lambda>l. \<not> is_top_level_section l" ?ls]
      by (auto simp: sectioned_def dest: set_takeWhileD)
    moreover have "\<forall>l \<in> set ([?hdr, ?new [], []] @ ?ls). 10 \<notin> set l"
      using nl new(2) [of "[]"] by (auto simp: lit_Cons)
    moreover have "transport_mode_update content enable = join_config_lines ([?hdr, ?new [], []] @ ?ls)"
      using none by (simp add: transport_mode_update_def transport_line)
    ultimately have "reticulum_body (transport_mode_update content enable) = Some (map strip_cr (?new [] # ?rest))"
      using reticulum_body_join by metis
    moreover have "reticulum_body content = None" using none by (simp add: reticulum_body_def)
    ultimately show thesis by (rule fresh [rotated])
  next
    case (some pre header body post)
    note bounds = bounds_sectioned [OF some] and body = section_body_sectioned [OF some]
    show thesis
    proof (cases "find_position (\<lambda>l. key_of l = Some ?key) body")
      case None
      have absent: "\<forall>l \<in> set body. key_of l \<noteq> Some ?key" by (rule iffD1 [OF position_None None])
      let ?ls' = "insert_at (length pre + 1 + length body) [?new []] ?ls"
      have "sectioned ?ls' pre header (body @ [?new []]) post" by (rule sectioned_insert [OF some]) (simp add: new(1))
      moreover have "\<forall>l \<in> set ?ls'. 10 \<notin> set l"
        using nl new(2) [of "[]"] by (auto simp: insert_at_def dest: in_set_takeD in_set_dropD)
      moreover have "transport_mode_update content enable = join_config_lines ?ls'"
        by (simp only: transport_mode_update_def Let_def bounds option.case prod.case body None transport_line)
      ultimately have "reticulum_body (transport_mode_update content enable) = Some (map strip_cr (body @ [?new []]))"
        using reticulum_body_join by metis
      then show thesis using added [OF reticulum_body_sectioned [OF some] absent] by blast
    next
      case (Some i)
      obtain a old b where parts: "body = a @ old # b" "length a = i" "key_of old = Some ?key"
        "\<forall>l \<in> set a. key_of l \<noteq> Some ?key"
        using position_Some [OF Some] by blast
      have old: "?ls ! (length pre + 1 + i) = old" "old \<in> set ?ls"
        using some parts by (auto simp: sectioned_def nth_append)
      let ?ls' = "?ls[length pre + 1 + length a := ?new old]"
      have "sectioned ?ls' pre header (a @ ?new old # b) post"
        using sectioned_update [of ?ls pre header a old b post] some parts(1) new(1) by simp
      moreover have "\<forall>l \<in> set ?ls'. 10 \<notin> set l"
        using nl new(2) [of old] old(2) set_update_subset_insert [of ?ls _ "?new old"] by blast
      moreover have "transport_mode_update content enable = join_config_lines ?ls'"
        unfolding transport_mode_update_def Let_def bounds option.case prod.case body Some parts(2) [symmetric]
        using old(1) parts(2) by simp
      ultimately have "reticulum_body (transport_mode_update content enable) = Some (map strip_cr (a @ ?new old # b))"
        using reticulum_body_join by metis
      then show thesis
        using replaced [of a old b old] reticulum_body_sectioned [OF some] parts(1,3,4) by simp
    qed
  qed
qed

lemma parse_transport_line [simp]:
  "parse_ini_key_value (replace_key_line line (lit ''enable_transport'') (transport_value enable)) =
    Some (lit ''enable_transport'', transport_value enable)"
  using parse_replace_key_line [OF transport_key(1) transport_value_plain] by (simp add: transport_key(3))

lemma transport_read_back: "transport_enabled_from_config (transport_mode_update content enable) = Some enable"
  by (cases rule: transport_update_body [of content enable])
    (simp_all add: transport_enabled_body values_of_none transport_value_word)

text \<open>C26: the transport switch is read back as it was written, whatever the file held before.\<close>

theorem transport_round_trip:
  "transport_enabled_from_config (transport_mode_update content enable) = Some enable"
  by (rule transport_read_back)

text \<open>The switch leaves every other setting of the section as it was.\<close>

theorem transport_update_frame:
  assumes "reticulum_body content = Some body" and "key \<noteq> lit ''enable_transport''"
  shows "\<exists>body'. reticulum_body (transport_mode_update content enable) = Some body'
    \<and> values_of key body' = values_of key body"
  using assms
proof (cases rule: transport_update_body [of content enable])
  case (replaced a old b line)
  then show ?thesis using assms by (auto simp: key_of_def split: option.split)
qed simp_all

theorem transport_update_frame_witness:
  "\<exists>body'. reticulum_body (transport_mode_update (join_config_lines [lit ''[reticulum]'', lit ''loglevel = 4'']) True) = Some body'
    \<and> values_of (lit ''loglevel'') body' = [lit ''4'']"
proof -
  have "sectioned [lit ''[reticulum]'', lit ''loglevel = 4''] [] (lit ''[reticulum]'') [lit ''loglevel = 4''] []"
    by (simp add: sectioned_def named_top_level_section_def is_top_level_section_def str_trim_def is_whitespace_def
        lit_Cons eq_ignore_ascii_case_def Let_def utf8_width_def)
  then have "reticulum_body (join_config_lines [lit ''[reticulum]'', lit ''loglevel = 4'']) = Some (map strip_cr [lit ''loglevel = 4''])"
    by (rule reticulum_body_join) (simp add: lit_Cons)
  moreover have "parse_ini_key_value (lit ''loglevel = 4'') = Some (lit ''loglevel'', lit ''4'')"
    using parse_key_line [of "lit ''loglevel''" "lit ''4''" "[]"]
    by (simp add: lit_Cons plain_def plain_char_def is_whitespace_def to_ascii_lowercase_def to_ascii_lower_def)
  ultimately show ?thesis
    using transport_update_frame [of _ "[strip_cr (lit ''loglevel = 4'')]" "lit ''loglevel''" True] by simp
qed

end
