(* ===== verification/Config_Shared.thy ===== *)
theory Config_Shared
  imports Config_Reticulum
begin

text \<open>
  The shared-instance selector of the \<open>[reticulum]\<close> section (\<open>rns_config.rs\<close>): the pair of ports,
  the private instance name, an operator's own selector, and \<open>ensure_app_private_shared_instance\<close>,
  which prepares the file at startup.  \<open>parse_ok\<close> stands for \<open>Config::parse\<close>, \<open>publish_ok\<close> for the
  validation and the durable write of a new file, \<open>digest\<close> for the SHA-256 of the directory's path.
\<close>

section \<open>Ports\<close>

definition RATSPEAK_RNS_SHARED_INSTANCE_PORT :: nat where "RATSPEAK_RNS_SHARED_INSTANCE_PORT = 37430"
definition RATSPEAK_RNS_INSTANCE_CONTROL_PORT :: nat where "RATSPEAK_RNS_INSTANCE_CONTROL_PORT = 37431"
definition LEGACY_RNS_SHARED_INSTANCE_PORT :: nat where "LEGACY_RNS_SHARED_INSTANCE_PORT = 37428"
definition LEGACY_RNS_INSTANCE_CONTROL_PORT :: nat where "LEGACY_RNS_INSTANCE_CONTROL_PORT = 37429"

lemmas port_consts = RATSPEAK_RNS_SHARED_INSTANCE_PORT_def RATSPEAK_RNS_INSTANCE_CONTROL_PORT_def
  LEGACY_RNS_SHARED_INSTANCE_PORT_def LEGACY_RNS_INSTANCE_CONTROL_PORT_def

datatype port_setting = PortMissing | PortValue nat | PortInvalid

definition is_legacy_value :: "port_setting \<Rightarrow> nat \<Rightarrow> bool" where
  "is_legacy_value setting legacy \<longleftrightarrow> setting = PortValue legacy"

definition is_app_managed :: "port_setting \<Rightarrow> nat \<Rightarrow> nat \<Rightarrow> bool" where
  "is_app_managed setting legacy current \<longleftrightarrow>
    setting = PortMissing \<or> setting = PortValue legacy \<or> setting = PortValue current"

definition port_of :: "ustr \<Rightarrow> port_setting" where
  "port_of val = (case parse_unsigned U16_MAX val of None \<Rightarrow> PortInvalid | Some n \<Rightarrow> PortValue n)"

abbreviation shared_key :: ustr where "shared_key \<equiv> lit ''shared_instance_port''"
abbreviation control_key :: ustr where "control_key \<equiv> lit ''instance_control_port''"
abbreviation name_key :: ustr where "name_key \<equiv> lit ''instance_name''"

record port_scan =
  sc_shared_line :: "nat option"
  sc_control_line :: "nat option"
  sc_shared :: port_setting
  sc_control :: port_setting

definition port_scan_init :: port_scan where
  "port_scan_init = \<lparr>sc_shared_line = None, sc_control_line = None, sc_shared = PortMissing, sc_control = PortMissing\<rparr>"

fun scan_ports :: "nat \<Rightarrow> ustr list \<Rightarrow> port_scan \<Rightarrow> port_scan option" where
  "scan_ports idx [] sc = Some sc"
| "scan_ports idx (line # ls) sc =
    (case parse_ini_key_value line of
       None \<Rightarrow> scan_ports (idx + 1) ls sc
     | Some (key, val) \<Rightarrow>
         if key = shared_key then
           (if sc_shared_line sc \<noteq> None then None
            else scan_ports (idx + 1) ls (sc\<lparr>sc_shared_line := Some idx, sc_shared := port_of val\<rparr>))
         else if key = control_key then
           (if sc_control_line sc \<noteq> None then None
            else scan_ports (idx + 1) ls (sc\<lparr>sc_control_line := Some idx, sc_control := port_of val\<rparr>))
         else scan_ports (idx + 1) ls sc)"

definition port_line :: "ustr \<Rightarrow> nat \<Rightarrow> ustr" where
  "port_line key port = key @ lit '' = '' @ dec_string port"

text \<open>Writing a desired value: in place when the key has a line, otherwise among the inserted lines.\<close>

definition put_port ::
  "ustr \<Rightarrow> nat option \<Rightarrow> nat option \<Rightarrow> nat \<Rightarrow> ustr list \<times> ustr list \<Rightarrow> ustr list \<times> ustr list" where
  "put_port key desired line current st =
    (case desired of
       None \<Rightarrow> st
     | Some port \<Rightarrow>
         (case line of
            Some idx \<Rightarrow> ((fst st)[idx := replace_key_line (fst st ! idx) key (dec_string port)], snd st)
          | None \<Rightarrow> (fst st, snd st @ [port_line key current])))"

definition desired_ports :: "port_setting \<Rightarrow> port_setting \<Rightarrow> nat option \<times> nat option" where
  "desired_ports shared control =
    (let defaultish = (shared = PortMissing \<or> is_legacy_value shared LEGACY_RNS_SHARED_INSTANCE_PORT)
           \<and> (control = PortMissing \<or> is_legacy_value control LEGACY_RNS_INSTANCE_CONTROL_PORT) in
     (if defaultish \<or> shared = PortMissing then Some RATSPEAK_RNS_SHARED_INSTANCE_PORT else None,
      if defaultish \<or> control = PortMissing then Some RATSPEAK_RNS_INSTANCE_CONTROL_PORT else None))"

definition ratspeak_shared_instance_port_update :: "ustr \<Rightarrow> ustr option" where
  "ratspeak_shared_instance_port_update content =
    (let ls = str_lines content in
     case reticulum_section_bounds ls of
       None \<Rightarrow>
         Some (join_config_lines ([lit ''[reticulum]'', port_line shared_key RATSPEAK_RNS_SHARED_INSTANCE_PORT,
             port_line control_key RATSPEAK_RNS_INSTANCE_CONTROL_PORT, []] @ ls))
     | Some (start, end_) \<Rightarrow>
         (case scan_ports (start + 1) (section_body ls (start, end_)) port_scan_init of
            None \<Rightarrow> None
          | Some sc \<Rightarrow>
              if sc_shared sc = PortInvalid \<or> sc_control sc = PortInvalid then None
              else (case desired_ports (sc_shared sc) (sc_control sc) of
                 (desired_shared, desired_control) \<Rightarrow>
                   if desired_shared = None \<and> desired_control = None then None
                   else (case put_port control_key desired_control (sc_control_line sc) RATSPEAK_RNS_INSTANCE_CONTROL_PORT
                               (put_port shared_key desired_shared (sc_shared_line sc)
                                  RATSPEAK_RNS_SHARED_INSTANCE_PORT (ls, [])) of
                      (ls', inserted) \<Rightarrow>
                        Some (join_config_lines (if inserted = [] then ls' else insert_at end_ inserted ls'))))))"

section \<open>The instance name\<close>

definition hex_digit :: "nat \<Rightarrow> nat" where
  "hex_digit n = (if n < 10 then 48 + n else 87 + n)"

definition hex_encode :: "bytes \<Rightarrow> ustr" where
  "hex_encode bs = concat (map (\<lambda>b. [hex_digit (unat b div 16), hex_digit (unat b mod 16)]) bs)"

definition ratspeak_private_instance_name :: "bytes \<Rightarrow> ustr" where
  "ratspeak_private_instance_name digest = lit ''ratspeak-'' @ hex_encode (take 8 digest)"

record name_scan =
  ns_line :: "nat option"
  ns_name :: "ustr option"
  ns_shared :: "port_setting option"
  ns_control :: "port_setting option"
  ns_share :: "bool option"
  ns_type :: bool
  ns_key :: bool

definition name_scan_init :: name_scan where
  "name_scan_init = \<lparr>ns_line = None, ns_name = None, ns_shared = None, ns_control = None, ns_share = None,
     ns_type = False, ns_key = False\<rparr>"

definition yes_no :: "ustr \<Rightarrow> bool option" where
  "yes_no val =
    (let word = to_ascii_lowercase (str_trim val) in
     if word \<in> set [lit ''yes'', lit ''true'', lit ''1'', lit ''on''] then Some True
     else if word \<in> set [lit ''no'', lit ''false'', lit ''0'', lit ''off''] then Some False
     else None)"

fun scan_name :: "nat \<Rightarrow> ustr list \<Rightarrow> name_scan \<Rightarrow> name_scan option" where
  "scan_name idx [] ns = Some ns"
| "scan_name idx (line # ls) ns =
    (case parse_ini_key_value line of
       None \<Rightarrow> scan_name (idx + 1) ls ns
     | Some (key, val) \<Rightarrow>
         if key = name_key then
           (if ns_line ns \<noteq> None then None
            else scan_name (idx + 1) ls (ns\<lparr>ns_line := Some idx, ns_name := Some val\<rparr>))
         else if key = shared_key then
           (if ns_shared ns \<noteq> None then None
            else scan_name (idx + 1) ls (ns\<lparr>ns_shared := Some (port_of val)\<rparr>))
         else if key = control_key then
           (if ns_control ns \<noteq> None then None
            else scan_name (idx + 1) ls (ns\<lparr>ns_control := Some (port_of val)\<rparr>))
         else if key = lit ''share_instance'' then
           (if ns_share ns \<noteq> None then None
            else (case yes_no val of
                    None \<Rightarrow> None
                  | Some b \<Rightarrow> scan_name (idx + 1) ls (ns\<lparr>ns_share := Some b\<rparr>)))
         else if key = lit ''shared_instance_type'' then scan_name (idx + 1) ls (ns\<lparr>ns_type := True\<rparr>)
         else if key = lit ''rpc_key'' then scan_name (idx + 1) ls (ns\<lparr>ns_key := True\<rparr>)
         else scan_name (idx + 1) ls ns)"

definition setting_or_missing :: "port_setting option \<Rightarrow> port_setting" where
  "setting_or_missing s = (case s of None \<Rightarrow> PortMissing | Some p \<Rightarrow> p)"

definition ratspeak_private_instance_name_update :: "ustr \<Rightarrow> bytes \<Rightarrow> ustr option" where
  "ratspeak_private_instance_name_update content digest =
    (let ls = str_lines content; private = ratspeak_private_instance_name digest in
     case reticulum_section_bounds ls of
       None \<Rightarrow> None
     | Some (start, end_) \<Rightarrow>
         (case scan_name (start + 1) (section_body ls (start, end_)) name_scan_init of
            None \<Rightarrow> None
          | Some ns \<Rightarrow>
              if ns_type ns \<or> ns_key ns \<or> ns_share ns = Some False
                 \<or> \<not> is_app_managed (setting_or_missing (ns_shared ns)) LEGACY_RNS_SHARED_INSTANCE_PORT
                        RATSPEAK_RNS_SHARED_INSTANCE_PORT
                 \<or> \<not> is_app_managed (setting_or_missing (ns_control ns)) LEGACY_RNS_INSTANCE_CONTROL_PORT
                        RATSPEAK_RNS_INSTANCE_CONTROL_PORT
              then None
              else (case (ns_name ns, ns_line ns) of
                      (None, _) \<Rightarrow> Some (join_config_lines (insert_at end_ [lit ''instance_name = '' @ private] ls))
                    | (Some name, None) \<Rightarrow> None
                    | (Some name, Some idx) \<Rightarrow>
                        if \<not> eq_ignore_ascii_case name (lit ''default'') then None
                        else Some (join_config_lines (ls[idx := replace_key_line (ls ! idx) name_key private])))))"

section \<open>The operator's selector\<close>

definition own_instance_name :: "ustr \<Rightarrow> bool" where
  "own_instance_name val \<longleftrightarrow> val = lit ''default''
    \<or> (take 9 val = lit ''ratspeak-'' \<and> length (drop 9 val) = 16 \<and> list_all is_hex_char (drop 9 val))"

definition operator_line :: "ustr \<Rightarrow> bool" where
  "operator_line line =
    (case parse_ini_key_value line of
       None \<Rightarrow> False
     | Some (key, val) \<Rightarrow>
         if key = lit ''rpc_key'' \<or> key = lit ''shared_instance_type'' then True
         else if key = name_key then \<not> own_instance_name val
         else if key = shared_key then
           port_of val \<notin> {PortValue LEGACY_RNS_SHARED_INSTANCE_PORT, PortValue RATSPEAK_RNS_SHARED_INSTANCE_PORT}
         else if key = control_key then
           port_of val \<notin> {PortValue LEGACY_RNS_INSTANCE_CONTROL_PORT, PortValue RATSPEAK_RNS_INSTANCE_CONTROL_PORT}
         else False)"

definition has_operator_shared_selector :: "(ustr \<Rightarrow> bool) \<Rightarrow> ustr \<Rightarrow> bool" where
  "has_operator_shared_selector parse_ok content =
    (if \<not> parse_ok content then True
     else case reticulum_section_bounds (str_lines content) of
            None \<Rightarrow> False
          | Some bounds \<Rightarrow> list_ex operator_line (section_body (str_lines content) bounds))"

section \<open>Preparing the file\<close>

definition ratspeak_default_config :: "bytes \<Rightarrow> ustr" where
  "ratspeak_default_config digest =
    join_config_lines
      [lit ''# This is the default Ratspeak Reticulum config file.'', [], lit ''[reticulum]'',
       lit ''enable_transport = False'', lit ''share_instance = No'',
       lit ''instance_name = '' @ ratspeak_private_instance_name digest,
       port_line shared_key RATSPEAK_RNS_SHARED_INSTANCE_PORT,
       port_line control_key RATSPEAK_RNS_INSTANCE_CONTROL_PORT, [],
       lit ''[logging]'', lit ''loglevel = 4'', [], lit ''[interfaces]'']"

datatype port_config_change = Created | Updated | Unchanged

text \<open>The file is read again under the lock and must not have changed; \<open>publish_ok\<close> then decides whether
  the new content is accepted and written.\<close>

definition write_config_if_unchanged ::
  "(ustr option \<Rightarrow> ustr \<Rightarrow> bool) \<Rightarrow> ustr option \<Rightarrow> ustr option \<Rightarrow> ustr \<Rightarrow> ustr option" where
  "write_config_if_unchanged publish_ok now expected content =
    (if now = expected \<and> publish_ok now content then Some content else None)"

definition ensure_app_private_shared_instance ::
  "(ustr \<Rightarrow> bool) \<Rightarrow> (ustr option \<Rightarrow> ustr \<Rightarrow> bool) \<Rightarrow> bytes \<Rightarrow> ustr option \<Rightarrow> ustr option
     \<Rightarrow> (port_config_change \<times> ustr option) option" where
  "ensure_app_private_shared_instance parse_ok publish_ok digest file now =
    (case file of
       None \<Rightarrow>
         map_option (\<lambda>c. (Created, Some c))
           (write_config_if_unchanged publish_ok now None (ratspeak_default_config digest))
     | Some content \<Rightarrow>
         if has_operator_shared_selector parse_ok content then Some (Unchanged, now)
         else
           let ports = (case ratspeak_shared_instance_port_update content of None \<Rightarrow> content | Some c \<Rightarrow> c);
               updated = (case ratspeak_private_instance_name_update ports digest of None \<Rightarrow> ports | Some c \<Rightarrow> c) in
           if updated = content then Some (Unchanged, now)
           else map_option (\<lambda>c. (Updated, Some c)) (write_config_if_unchanged publish_ok now (Some content) updated))"

definition ensure_app_private_shared_instance_ports ::
  "(ustr \<Rightarrow> bool) \<Rightarrow> (ustr option \<Rightarrow> ustr \<Rightarrow> bool) \<Rightarrow> bytes \<Rightarrow> ustr option \<Rightarrow> ustr option
     \<Rightarrow> (port_config_change \<times> ustr option) option" where
  "ensure_app_private_shared_instance_ports parse_ok publish_ok digest file now =
    (case file of
       None \<Rightarrow>
         map_option (\<lambda>c. (Created, Some c))
           (write_config_if_unchanged publish_ok now None (ratspeak_default_config digest))
     | Some content \<Rightarrow>
         if has_operator_shared_selector parse_ok content then Some (Unchanged, now)
         else (case ratspeak_shared_instance_port_update content of
                 None \<Rightarrow> Some (Unchanged, now)
               | Some updated \<Rightarrow>
                   if updated = content then Some (Unchanged, now)
                   else map_option (\<lambda>c. (Updated, Some c))
                     (write_config_if_unchanged publish_ok now (Some content) updated)))"

end
