(* ===== verification/Config_Shared_Props.thy ===== *)
theory Config_Shared_Props
  imports Config_Shared
begin

text \<open>
  Properties of the shared-instance selector: each edit of theory \<open>Config_Shared\<close> reaches its
  fixpoint in one step, keeps the settings it has no business with, and preparing the file twice
  is preparing it once.
\<close>

section \<open>Edits of a section's body\<close>

lemma key_of_Some: "parse_ini_key_value l = Some (k, v) \<Longrightarrow> key_of l = Some k"
  by (simp add: key_of_def)

lemma position_values: "find_position (\<lambda>l. key_of l = Some key) body = None \<longleftrightarrow> values_of key body = []"
  by (induction body) (auto simp: key_of_def split: option.split prod.split)

text \<open>Replacing the only line of a key.\<close>

lemma values_update:
  assumes "find_position (\<lambda>l. key_of l = Some key) body = Some i" and "length (values_of key body) \<le> 1"
    and "parse_ini_key_value new = Some (key, val)"
  shows "values_of key (body[i := new]) = [val]" and "k \<noteq> key \<Longrightarrow> values_of k (body[i := new]) = values_of k body"
    and "k \<noteq> key \<Longrightarrow> find_position (\<lambda>l. key_of l = Some k) (body[i := new]) = find_position (\<lambda>l. key_of l = Some k) body"
    and "i < length body"
proof -
  obtain a old b where parts: "body = a @ old # b" "length a = i" "key_of old = Some key"
    "\<forall>l \<in> set a. key_of l \<noteq> Some key"
    using position_Some [OF assms(1)] by blast
  obtain v where old: "parse_ini_key_value old = Some (key, v)" using parts(3) by (auto simp: key_of_def)
  have upd: "body[i := new] = a @ new # b" using parts(1,2) by auto
  have "values_of key a = []" using parts(4) by (intro values_of_none) simp
  then have "values_of key b = []" using assms(2) parts(1) old by simp
  then show "values_of key (body[i := new]) = [val]"
    using \<open>values_of key a = []\<close> assms(3) by (simp add: upd)
  show "k \<noteq> key \<Longrightarrow> values_of k (body[i := new]) = values_of k body"
    using old assms(3) by (simp add: upd) (simp add: parts(1))
  show "i < length body" using parts by simp
  assume k: "k \<noteq> key"
  have same: "find_position P (a @ x # b) = find_position P (a @ y # b)" if "P x = P y" for P :: "ustr \<Rightarrow> bool" and x y
    using that by (induction a) auto
  show "find_position (\<lambda>l. key_of l = Some k) (body[i := new]) = find_position (\<lambda>l. key_of l = Some k) body"
    unfolding upd by (subst same [of _ new old]) (use k old assms(3) parts(1) in \<open>simp_all add: key_of_def\<close>)
qed

lemma plain_dec_string: "plain (dec_string n)"
proof -
  have "plain_char c" if "is_ascii_digit c" for c
    using that by (auto simp: is_ascii_digit_def plain_char_def is_whitespace_def)
  then show ?thesis using dec_string_digits by (auto simp: plain_def)
qed

lemma plain_keys [simp]: "plain shared_key" "plain control_key" "plain name_key"
  by (simp_all add: plain_def plain_char_def is_whitespace_def lit_Cons)

lemma lower_keys [simp]: "to_ascii_lowercase shared_key = shared_key" "to_ascii_lowercase control_key = control_key"
    "to_ascii_lowercase name_key = name_key"
  by (simp_all add: lit_Cons to_ascii_lowercase_def to_ascii_lower_def)

lemma hd_keys [simp]: "hd shared_key \<noteq> 91" "hd control_key \<noteq> 91" "hd name_key \<noteq> 91"
  by (simp_all add: lit_Cons)

lemma port_line_replace: "port_line key port = replace_key_line [] key (dec_string port)"
  by (simp add: port_line_def replace_key_line_def)

definition config_line :: "ustr \<Rightarrow> bool" where
  "config_line l \<longleftrightarrow> \<not> is_top_level_section l \<and> 10 \<notin> set l"

lemma config_line_replace:
  "plain key \<Longrightarrow> plain val \<Longrightarrow> hd key \<noteq> 91 \<Longrightarrow> 10 \<notin> set line \<Longrightarrow> config_line (replace_key_line line key val)"
  by (simp add: config_line_def replace_key_line_not_section replace_key_line_no_newline)

text \<open>A file with the section's body exchanged.\<close>

definition body_of :: "ustr \<Rightarrow> ustr list \<Rightarrow> bool" where
  "body_of content body \<longleftrightarrow> (\<exists>body'. reticulum_body content = Some body' \<and> (\<forall>key. values_of key body' = values_of key body)
     \<and> (list_ex operator_line body' = list_ex operator_line body))"

lemma operator_line_strip_cr [simp]: "operator_line (strip_cr l) = operator_line l"
  by (simp add: operator_line_def)

lemma list_ex_strip_cr [simp]: "list_ex operator_line (map strip_cr ls) = list_ex operator_line ls"
  by (induction ls) auto

lemma body_of_join:
  assumes "sectioned ls pre header body post" and "\<forall>l \<in> set ls. 10 \<notin> set l"
  shows "body_of (join_config_lines ls) body"
  using reticulum_body_join [OF assms] by (simp add: body_of_def)

section \<open>The scans\<close>

definition setting_of :: "ustr \<Rightarrow> ustr list \<Rightarrow> port_setting" where
  "setting_of key body = (case values_of key body of [] \<Rightarrow> PortMissing | val # _ \<Rightarrow> port_of val)"

lemma scan_ports_result:
  "scan_ports off body sc =
    (if (length (values_of shared_key body) + of_bool (sc_shared_line sc \<noteq> None) \<le> 1 \<or> values_of shared_key body = [])
       \<and> (length (values_of control_key body) + of_bool (sc_control_line sc \<noteq> None) \<le> 1 \<or> values_of control_key body = [])
     then Some \<lparr>
       sc_shared_line = (case find_position (\<lambda>l. key_of l = Some shared_key) body of None \<Rightarrow> sc_shared_line sc | Some i \<Rightarrow> Some (off + i)),
       sc_control_line = (case find_position (\<lambda>l. key_of l = Some control_key) body of None \<Rightarrow> sc_control_line sc | Some i \<Rightarrow> Some (off + i)),
       sc_shared = (case values_of shared_key body of [] \<Rightarrow> sc_shared sc | v # _ \<Rightarrow> port_of v),
       sc_control = (case values_of control_key body of [] \<Rightarrow> sc_control sc | v # _ \<Rightarrow> port_of v)\<rparr>
     else None)"
proof (induction body arbitrary: off sc)
  case Nil
  then show ?case by simp
next
  case (Cons l body)
  show ?case
  proof (cases "parse_ini_key_value l")
    case None
    then show ?thesis by (simp add: Cons.IH key_of_def split: option.split)
  next
    case (Some kv)
    obtain k v where kv: "kv = (k, v)" by (cases kv)
    have pos: "find_position (\<lambda>l. key_of l = Some key) body = None \<longleftrightarrow> values_of key body = []" for key
      by (rule position_values)
    consider "k = shared_key" | "k = control_key" | "k \<noteq> shared_key" "k \<noteq> control_key" by blast
    then show ?thesis
    proof cases
      case 1
      then show ?thesis
        using Some kv pos [of shared_key] pos [of control_key]
        by (auto simp: Cons.IH key_of_def split: option.split list.split)
    next
      case 2
      then show ?thesis
        using Some kv pos [of shared_key] pos [of control_key]
        by (auto simp: Cons.IH key_of_def split: option.split list.split)
    next
      case 3
      then show ?thesis using Some kv by (auto simp: Cons.IH key_of_def split: option.split)
    qed
  qed
qed

lemma scan_ports_init:
  "scan_ports off body port_scan_init =
    (if length (values_of shared_key body) \<le> 1 \<and> length (values_of control_key body) \<le> 1
     then Some \<lparr>sc_shared_line = map_option ((+) off) (find_position (\<lambda>l. key_of l = Some shared_key) body),
       sc_control_line = map_option ((+) off) (find_position (\<lambda>l. key_of l = Some control_key) body),
       sc_shared = setting_of shared_key body, sc_control = setting_of control_key body\<rparr>
     else None)"
  unfolding scan_ports_result
  by (auto simp: port_scan_init_def setting_of_def split: option.split list.split)

section \<open>The port update\<close>

definition shape :: "ustr list \<Rightarrow> ustr \<Rightarrow> ustr list \<Rightarrow> ustr list \<Rightarrow> ustr list \<Rightarrow> ustr list \<Rightarrow> bool" where
  "shape pre header post body ls inserted \<longleftrightarrow>
    sectioned ls pre header body post \<and> (\<forall>l \<in> set ls. 10 \<notin> set l) \<and> (\<forall>l \<in> set inserted. config_line l)"

lemma list_ex_update: "list_ex P (xs[i := x]) \<Longrightarrow> \<not> P x \<Longrightarrow> list_ex P xs"
  using set_update_subset_insert [of xs i x] by (auto simp: list_ex_iff)

lemma replace_in_section:
  assumes ls: "sectioned ls pre header body post" "\<forall>l \<in> set ls. 10 \<notin> set l"
    and at: "i < length body" and key: "plain key" "hd key \<noteq> 91" and val: "plain val"
  defines "new \<equiv> replace_key_line (ls ! (length pre + 1 + i)) key val"
  shows "sectioned (ls[length pre + 1 + i := new]) pre header (body[i := new]) post"
    and "\<forall>l \<in> set (ls[length pre + 1 + i := new]). 10 \<notin> set l"
proof -
  have "length pre + 1 + i < length ls" using ls(1) at by (simp add: sectioned_def)
  then have nl: "10 \<notin> set (ls ! (length pre + 1 + i))" using ls(2) by simp
  have new: "config_line new" unfolding new_def by (rule config_line_replace [OF key(1) val key(2) nl])
  have "ls = (pre @ [header]) @ body @ post" using ls(1) by (simp add: sectioned_def)
  then have "ls[length (pre @ [header]) + i := new] = (pre @ [header]) @ body[i := new] @ post"
    using at by (simp add: list_update_append)
  then have "ls[length pre + 1 + i := new] = pre @ header # body[i := new] @ post" by simp
  then show "sectioned (ls[length pre + 1 + i := new]) pre header (body[i := new]) post"
    using ls(1) new set_update_subset_insert [of body i new] by (auto simp: sectioned_def config_line_def)
  show "\<forall>l \<in> set (ls[length pre + 1 + i := new]). 10 \<notin> set l"
    using ls(2) new set_update_subset_insert [of ls _ new] by (auto simp: config_line_def)
qed

lemma put_port_step:
  assumes shape: "shape pre header post body ls inserted"
    and key: "plain key" "to_ascii_lowercase key = key" "hd key \<noteq> 91"
    and line: "line = map_option ((+) (length pre + 1)) (find_position (\<lambda>l. key_of l = Some key) body)"
    and one: "length (values_of key body) \<le> 1" and fresh: "values_of key inserted = []"
    and desired: "desired = None \<or> desired = Some port"
    and own: "\<And>l. \<not> operator_line (replace_key_line l key (dec_string port))"
  shows "\<exists>body' ls' inserted'. put_port key desired line port (ls, inserted) = (ls', inserted')
    \<and> shape pre header post body' ls' inserted' \<and> length body' = length body
    \<and> values_of key (body' @ inserted') = (if desired = None then values_of key body else [dec_string port])
    \<and> (\<forall>k. k \<noteq> key \<longrightarrow> values_of k body' = values_of k body \<and> values_of k inserted' = values_of k inserted
        \<and> find_position (\<lambda>l. key_of l = Some k) body' = find_position (\<lambda>l. key_of l = Some k) body)
    \<and> (list_ex operator_line (body' @ inserted') \<longrightarrow> list_ex operator_line (body @ inserted))"
proof (cases "desired = None")
  case True
  then show ?thesis using shape fresh by (auto simp: put_port_def)
next
  case False
  then have d: "desired = Some port" using desired by auto
  have parse: "parse_ini_key_value (replace_key_line l key (dec_string port)) = Some (key, dec_string port)" for l
    using parse_replace_key_line [OF key(1) plain_dec_string] key(2) by simp
  have ls: "sectioned ls pre header body post" "\<forall>l \<in> set ls. 10 \<notin> set l" using shape by (simp_all add: shape_def)
  show ?thesis
  proof (cases "find_position (\<lambda>l. key_of l = Some key) body")
    case None
    then have none: "values_of key body = []" by (simp add: position_values)
    have "config_line (port_line key port)"
      unfolding port_line_replace by (rule config_line_replace) (simp_all add: key plain_dec_string)
    then show ?thesis
      using d None line shape none fresh own [of "[]"] parse [of "[]"]
      by (auto simp: put_port_def shape_def port_line_replace)
  next
    case (Some i)
    let ?new = "replace_key_line (ls ! (length pre + 1 + i)) key (dec_string port)"
    note upd = values_update [OF Some one parse [of "ls ! (length pre + 1 + i)"]]
    note f = replace_in_section [OF ls upd(4) key(1,3) plain_dec_string]
    have f1: "sectioned (ls[length pre + 1 + i := ?new]) pre header (body[i := ?new]) post"
      and f2: "\<forall>l \<in> set (ls[length pre + 1 + i := ?new]). 10 \<notin> set l" by (rule f)+
    have f3: "put_port key desired line port (ls, inserted) = (ls[length pre + 1 + i := ?new], inserted)"
      using d line Some by (simp add: put_port_def)
    have f4: "list_ex operator_line (body[i := ?new] @ inserted) \<longrightarrow> list_ex operator_line (body @ inserted)"
      using list_ex_update [of operator_line body i ?new] own by auto
    have f5: "\<forall>l \<in> set inserted. config_line l" using shape by (simp add: shape_def)
    have f6: "values_of key (body[i := ?new] @ inserted) = (if desired = None then values_of key body else [dec_string port])"
      using upd(1) fresh d by simp
    have f7: "\<forall>k. k \<noteq> key \<longrightarrow> values_of k (body[i := ?new]) = values_of k body \<and> values_of k inserted = values_of k inserted
        \<and> find_position (\<lambda>l. key_of l = Some k) (body[i := ?new]) = find_position (\<lambda>l. key_of l = Some k) body"
      using upd(2,3) by simp
    show ?thesis
    proof (rule exI [of _ "body[i := ?new]"], rule exI [of _ "ls[length pre + 1 + i := ?new]"],
        rule exI [of _ inserted], intro conjI)
      show "shape pre header post (body[i := ?new]) (ls[length pre + 1 + i := ?new]) inserted"
        using f1 f2 f5 by (simp only: shape_def simp_thms)
      show "length (body[i := ?new]) = length body" by (rule length_list_update)
    qed (rule f3 f4 f6 f7)+
  qed
qed

lemma own_ports:
  "\<not> operator_line (replace_key_line l shared_key (dec_string RATSPEAK_RNS_SHARED_INSTANCE_PORT))"
  "\<not> operator_line (replace_key_line l control_key (dec_string RATSPEAK_RNS_INSTANCE_CONTROL_PORT))"
  using parse_replace_key_line [of shared_key "dec_string RATSPEAK_RNS_SHARED_INSTANCE_PORT" l]
    parse_replace_key_line [of control_key "dec_string RATSPEAK_RNS_INSTANCE_CONTROL_PORT" l]
  by (simp_all add: plain_dec_string operator_line_def port_of_def port_consts parse_unsigned_dec)

lemma desired_values:
  "desired_ports s c = (ds, dc) \<Longrightarrow> (ds = None \<or> ds = Some RATSPEAK_RNS_SHARED_INSTANCE_PORT)
    \<and> (dc = None \<or> dc = Some RATSPEAK_RNS_INSTANCE_CONTROL_PORT)"
  by (auto simp: desired_ports_def Let_def)

lemma port_update_eq:
  assumes "sectioned (str_lines content) pre header body post"
  shows "ratspeak_shared_instance_port_update content =
    (if length (values_of shared_key body) \<le> 1 \<and> length (values_of control_key body) \<le> 1
        \<and> setting_of shared_key body \<noteq> PortInvalid \<and> setting_of control_key body \<noteq> PortInvalid
     then (case desired_ports (setting_of shared_key body) (setting_of control_key body) of
       (ds, dc) \<Rightarrow>
         if ds = None \<and> dc = None then None
         else (case put_port control_key dc (map_option ((+) (length pre + 1)) (find_position (\<lambda>l. key_of l = Some control_key) body))
                 RATSPEAK_RNS_INSTANCE_CONTROL_PORT
                 (put_port shared_key ds (map_option ((+) (length pre + 1)) (find_position (\<lambda>l. key_of l = Some shared_key) body))
                    RATSPEAK_RNS_SHARED_INSTANCE_PORT (str_lines content, [])) of
            (ls', inserted) \<Rightarrow>
              Some (join_config_lines (if inserted = [] then ls' else insert_at (length pre + 1 + length body) inserted ls'))))
     else None)"
proof -
  have body: "section_body (str_lines content) (length pre, length pre + 1 + length body) = body"
    by (rule section_body_sectioned [OF assms])
  show ?thesis
  proof (cases "length (values_of shared_key body) \<le> 1 \<and> length (values_of control_key body) \<le> 1")
    case True
    then show ?thesis
      unfolding ratspeak_shared_instance_port_update_def Let_def bounds_sectioned [OF assms] option.case prod.case body
        scan_ports_init
      by (simp only: simp_thms if_True option.case port_scan.simps de_Morgan_conj de_Morgan_disj not_not split: if_split) blast
  next
    case False
    then show ?thesis
      unfolding ratspeak_shared_instance_port_update_def Let_def bounds_sectioned [OF assms] option.case prod.case body
        scan_ports_init
      by auto
  qed
qed

text \<open>What the update does to the values of a section.\<close>

lemma port_update_section:
  assumes sec: "sectioned (str_lines content) pre header body post"
    and upd: "ratspeak_shared_instance_port_update content = Some content'"
  shows "\<exists>body' ds dc. body_of content' body' \<and> desired_ports (setting_of shared_key body) (setting_of control_key body) = (ds, dc)
    \<and> values_of shared_key body' = (if ds = None then values_of shared_key body else [dec_string RATSPEAK_RNS_SHARED_INSTANCE_PORT])
    \<and> values_of control_key body' = (if dc = None then values_of control_key body else [dec_string RATSPEAK_RNS_INSTANCE_CONTROL_PORT])
    \<and> (\<forall>k. k \<noteq> shared_key \<longrightarrow> k \<noteq> control_key \<longrightarrow> values_of k body' = values_of k body)
    \<and> (list_ex operator_line body' \<longrightarrow> list_ex operator_line body)
    \<and> length (values_of shared_key body) \<le> 1 \<and> length (values_of control_key body) \<le> 1 \<and> (ds \<noteq> None \<or> dc \<noteq> None)"
proof -
  let ?ls = "str_lines content"
  obtain ds dc where d: "desired_ports (setting_of shared_key body) (setting_of control_key body) = (ds, dc)"
    by (cases "desired_ports (setting_of shared_key body) (setting_of control_key body)")
  note dv = desired_values [OF d]
  let ?sl = "map_option ((+) (length pre + 1)) (find_position (\<lambda>l. key_of l = Some shared_key) body)"
  let ?cl = "map_option ((+) (length pre + 1)) (find_position (\<lambda>l. key_of l = Some control_key) body)"
  have one: "length (values_of shared_key body) \<le> 1" "length (values_of control_key body) \<le> 1"
    using upd unfolding port_update_eq [OF sec] by (simp_all only: option.distinct split: if_split_asm)
  have some: "ds \<noteq> None \<or> dc \<noteq> None"
  proof (rule ccontr)
    assume "\<not> (ds \<noteq> None \<or> dc \<noteq> None)"
    then have "ds = None \<and> dc = None" by simp
    then have "ratspeak_shared_instance_port_update content = None"
      unfolding port_update_eq [OF sec] d prod.case by (simp only: if_True if_cancel simp_thms)
    then show False using upd by simp
  qed
  have start: "shape pre header post body ?ls []" using sec str_lines_no_newline by (auto simp: shape_def)
  obtain b1 ls1 in1 where s1: "put_port shared_key ds ?sl RATSPEAK_RNS_SHARED_INSTANCE_PORT (?ls, []) = (ls1, in1)"
    "shape pre header post b1 ls1 in1" "length b1 = length body"
    "values_of shared_key (b1 @ in1) = (if ds = None then values_of shared_key body else [dec_string RATSPEAK_RNS_SHARED_INSTANCE_PORT])"
    "\<And>k. k \<noteq> shared_key \<Longrightarrow> values_of k b1 = values_of k body \<and> values_of k in1 = []
        \<and> find_position (\<lambda>l. key_of l = Some k) b1 = find_position (\<lambda>l. key_of l = Some k) body"
    "list_ex operator_line (b1 @ in1) \<Longrightarrow> list_ex operator_line body"
    using put_port_step [OF start _ _ _ refl one(1) _ conjunct1 [OF dv] own_ports(1)] by auto
  have ck: "control_key \<noteq> shared_key" by simp
  have line: "?cl = map_option ((+) (length pre + 1)) (find_position (\<lambda>l. key_of l = Some control_key) b1)"
    and one1: "length (values_of control_key b1) \<le> 1" and fresh1: "values_of control_key in1 = []"
    using s1(5) [OF ck] one(2) by simp_all
  obtain b2 ls2 in2 where s2: "put_port control_key dc ?cl RATSPEAK_RNS_INSTANCE_CONTROL_PORT (ls1, in1) = (ls2, in2)"
    "shape pre header post b2 ls2 in2" "length b2 = length b1"
    "values_of control_key (b2 @ in2) = (if dc = None then values_of control_key b1 else [dec_string RATSPEAK_RNS_INSTANCE_CONTROL_PORT])"
    "\<And>k. k \<noteq> control_key \<Longrightarrow> values_of k b2 = values_of k b1 \<and> values_of k in2 = values_of k in1"
    "list_ex operator_line (b2 @ in2) \<Longrightarrow> list_ex operator_line (b1 @ in1)"
    using put_port_step [OF s1(2) plain_keys(2) lower_keys(2) hd_keys(2) line one1 fresh1 conjunct2 [OF dv] own_ports(2)]
    by blast
  let ?out = "if in2 = [] then ls2 else insert_at (length pre + 1 + length body) in2 ls2"
  have content': "content' = join_config_lines ?out"
    using upd unfolding port_update_eq [OF sec] d prod.case s1(1) s2(1)
    by (simp only: split: if_split_asm; simp)
  have sec2: "sectioned ls2 pre header b2 post" "\<forall>l \<in> set ls2. 10 \<notin> set l" "\<forall>l \<in> set in2. config_line l"
    using s2(2) by (simp_all add: shape_def)
  have "sectioned (insert_at (length pre + 1 + length b2) in2 ls2) pre header (b2 @ in2) post"
    using sectioned_insert [OF sec2(1)] sec2(3) by (simp add: config_line_def)
  then have out: "sectioned ?out pre header (b2 @ in2) post" using sec2(1) s1(3) s2(3) by simp
  have "\<forall>l \<in> set ?out. 10 \<notin> set l"
    using sec2 by (auto simp: insert_at_def config_line_def dest: in_set_takeD in_set_dropD split: if_splits)
  from body_of_join [OF out this] have "body_of content' (b2 @ in2)" by (simp add: content')
  moreover have "values_of shared_key (b2 @ in2) = (if ds = None then values_of shared_key body else [dec_string RATSPEAK_RNS_SHARED_INSTANCE_PORT])"
    using s1(4) s2(5) [of shared_key] by simp
  moreover have "values_of control_key (b2 @ in2) = (if dc = None then values_of control_key body else [dec_string RATSPEAK_RNS_INSTANCE_CONTROL_PORT])"
    using s2(4) s1(5) [OF ck] by simp
  moreover have "\<forall>k. k \<noteq> shared_key \<longrightarrow> k \<noteq> control_key \<longrightarrow> values_of k (b2 @ in2) = values_of k body"
    using s1(5) s2(5) by simp
  moreover have "list_ex operator_line (b2 @ in2) \<longrightarrow> list_ex operator_line body" using s1(6) s2(6) by blast
  ultimately show ?thesis using d one some by blast
qed

text \<open>A section that holds both ports, the shared one not the legacy one, is left alone.\<close>

definition ports_settled :: "ustr list \<Rightarrow> bool" where
  "ports_settled body \<longleftrightarrow> setting_of shared_key body \<noteq> PortMissing
    \<and> setting_of shared_key body \<noteq> PortValue LEGACY_RNS_SHARED_INSTANCE_PORT \<and> setting_of control_key body \<noteq> PortMissing"

lemma body_of_sectioned:
  assumes "body_of content body"
  obtains pre header body' post where "sectioned (str_lines content) pre header body' post"
    "\<And>key. values_of key body' = values_of key body" "list_ex operator_line body' = list_ex operator_line body"
proof (cases rule: bounds_cases [of "str_lines content"])
  case none
  then show thesis using assms by (simp add: body_of_def reticulum_body_def)
next
  case (some pre header body' post)
  then show thesis using that [of pre header body' post] assms reticulum_body_sectioned [OF some] by (auto simp: body_of_def)
qed

lemma ports_settled_None:
  assumes "body_of content body" and "ports_settled body"
  shows "ratspeak_shared_instance_port_update content = None"
proof -
  obtain pre header body' post where sec: "sectioned (str_lines content) pre header body' post"
    "\<And>key. values_of key body' = values_of key body"
    using body_of_sectioned [OF assms(1)] by metis
  have "setting_of key body' = setting_of key body" for key using sec(2) by (simp add: setting_of_def)
  then have "desired_ports (setting_of shared_key body') (setting_of control_key body') = (None, None)"
    using assms(2) by (simp add: desired_ports_def ports_settled_def is_legacy_value_def)
  then show ?thesis unfolding port_update_eq [OF sec(1)] by simp
qed

lemma setting_of_dec: "n \<le> U16_MAX \<Longrightarrow> values_of key body = dec_string n # vs \<Longrightarrow> setting_of key body = PortValue n"
  by (simp add: setting_of_def port_of_def parse_unsigned_dec)

lemma reticulum_header: "named_top_level_section (lit ''[reticulum]'') (lit ''reticulum'')"
  by (simp add: named_top_level_section_def is_top_level_section_def str_trim_def is_whitespace_def lit_Cons
      eq_ignore_ascii_case_def Let_def utf8_width_def)

lemma port_line_config: "config_line (port_line shared_key port)" "config_line (port_line control_key port)"
  unfolding port_line_replace by (simp_all add: config_line_replace plain_dec_string)

lemma port_update_fresh:
  assumes "reticulum_section_bounds (str_lines content) = None"
    and "ratspeak_shared_instance_port_update content = Some content'"
  shows "\<exists>rest. body_of content' (port_line shared_key RATSPEAK_RNS_SHARED_INSTANCE_PORT
      # port_line control_key RATSPEAK_RNS_INSTANCE_CONTROL_PORT # rest)"
proof -
  let ?ls = "str_lines content" and ?hdr = "lit ''[reticulum]''"
  let ?s = "port_line shared_key RATSPEAK_RNS_SHARED_INSTANCE_PORT"
  let ?c = "port_line control_key RATSPEAK_RNS_INSTANCE_CONTROL_PORT"
  let ?rest = "[] # takeWhile (\<lambda>l. \<not> is_top_level_section l) ?ls"
  note hdr = reticulum_header and lines = port_line_config
  have empty: "\<not> is_top_level_section []" by (simp add: is_top_level_section_def)
  have "sectioned ([?hdr, ?s, ?c, []] @ ?ls) [] ?hdr (?s # ?c # ?rest) (dropWhile (\<lambda>l. \<not> is_top_level_section l) ?ls)"
    using hdr lines empty hd_dropWhile [of "\<lambda>l. \<not> is_top_level_section l" ?ls]
    by (auto simp: sectioned_def config_line_def dest: set_takeWhileD)
  moreover have "\<forall>l \<in> set ([?hdr, ?s, ?c, []] @ ?ls). 10 \<notin> set l"
    using lines str_lines_no_newline by (auto simp: config_line_def lit_Cons)
  moreover have "content' = join_config_lines ([?hdr, ?s, ?c, []] @ ?ls)"
    using assms by (simp add: ratspeak_shared_instance_port_update_def)
  ultimately show ?thesis using body_of_join by blast
qed

lemma parse_port_line [simp]:
  "parse_ini_key_value (port_line shared_key port) = Some (shared_key, dec_string port)"
  "parse_ini_key_value (port_line control_key port) = Some (control_key, dec_string port)"
  unfolding port_line_replace
  using parse_replace_key_line [of shared_key "dec_string port" "[]"] parse_replace_key_line [of control_key "dec_string port" "[]"]
  by (simp_all add: plain_dec_string)

lemma port_update_settled:
  assumes "ratspeak_shared_instance_port_update content = Some content'"
  shows "\<exists>body. body_of content' body \<and> ports_settled body"
proof (cases rule: bounds_cases [of "str_lines content"])
  case none
  from port_update_fresh [OF none(1) assms] show ?thesis
    by (auto simp: ports_settled_def setting_of_def port_of_def port_consts parse_unsigned_dec)
next
  case (some pre header body post)
  obtain body' ds dc where b: "body_of content' body'"
    "desired_ports (setting_of shared_key body) (setting_of control_key body) = (ds, dc)"
    "values_of shared_key body' = (if ds = None then values_of shared_key body else [dec_string RATSPEAK_RNS_SHARED_INSTANCE_PORT])"
    "values_of control_key body' = (if dc = None then values_of control_key body else [dec_string RATSPEAK_RNS_INSTANCE_CONTROL_PORT])"
    "ds \<noteq> None \<or> dc \<noteq> None"
    using port_update_section [OF some assms] by blast
  have "setting_of shared_key body' = (if ds = None then setting_of shared_key body else PortValue RATSPEAK_RNS_SHARED_INSTANCE_PORT)"
    "setting_of control_key body' = (if dc = None then setting_of control_key body else PortValue RATSPEAK_RNS_INSTANCE_CONTROL_PORT)"
    using b(3,4) by (auto simp: setting_of_def port_of_def port_consts parse_unsigned_dec)
  then have "ports_settled body'"
    using b(2,5) by (auto simp: ports_settled_def desired_ports_def is_legacy_value_def port_consts Let_def split: if_splits)
  then show ?thesis using b(1) by blast
qed

text \<open>The ports reach their final state in one step: an updated file is not updated again.\<close>

theorem port_update_settles:
  assumes "ratspeak_shared_instance_port_update content = Some content'"
  shows "ratspeak_shared_instance_port_update content' = None"
  using port_update_settled [OF assms] ports_settled_None by blast

theorem port_update_settles_witness:
  "ratspeak_shared_instance_port_update
    (join_config_lines [lit ''[reticulum]'', port_line shared_key 37430, port_line control_key 37431, []]) = None"
  using port_update_settles [of "[]"]
  by (simp add: ratspeak_shared_instance_port_update_def reticulum_section_bounds_def port_consts)

text \<open>A port that is neither missing nor the legacy one is the operator's, and stays, and so does every
  setting other than the two ports.\<close>

theorem port_update_keeps:
  assumes "reticulum_body content = Some body" and "ratspeak_shared_instance_port_update content = Some content'"
    and "key = shared_key \<longrightarrow> setting_of key body \<notin> {PortMissing, PortValue LEGACY_RNS_SHARED_INSTANCE_PORT}"
    and "key = control_key \<longrightarrow> setting_of key body \<notin> {PortMissing, PortValue LEGACY_RNS_INSTANCE_CONTROL_PORT}"
  shows "\<exists>body'. reticulum_body content' = Some body' \<and> values_of key body' = values_of key body"
proof (cases rule: bounds_cases [of "str_lines content"])
  case none
  then show ?thesis using assms(1) by (simp add: reticulum_body_def)
next
  case (some pre header body0 post)
  then have body: "body0 = body" using assms(1) reticulum_body_sectioned by fastforce
  obtain body' ds dc where b: "body_of content' body'"
    "desired_ports (setting_of shared_key body) (setting_of control_key body) = (ds, dc)"
    "values_of shared_key body' = (if ds = None then values_of shared_key body else [dec_string RATSPEAK_RNS_SHARED_INSTANCE_PORT])"
    "values_of control_key body' = (if dc = None then values_of control_key body else [dec_string RATSPEAK_RNS_INSTANCE_CONTROL_PORT])"
    "\<forall>k. k \<noteq> shared_key \<longrightarrow> k \<noteq> control_key \<longrightarrow> values_of k body' = values_of k body"
    using port_update_section [OF some assms(2)] unfolding body by blast
  have "key = shared_key \<Longrightarrow> ds = None" "key = control_key \<Longrightarrow> dc = None"
    using b(2) assms(3,4) by (auto simp: desired_ports_def is_legacy_value_def Let_def)
  then have "values_of key body' = values_of key body" using b(3-5) by (cases "key = shared_key"; cases "key = control_key") auto
  then show ?thesis using b(1) by (auto simp: body_of_def)
qed

definition sample_config :: ustr where
  "sample_config = join_config_lines [lit ''[reticulum]'', port_line shared_key 40000]"

lemma sample_config_sectioned:
  "sectioned (str_lines sample_config) [] (strip_cr (lit ''[reticulum]'')) [strip_cr (port_line shared_key 40000)] []"
proof -
  have "sectioned [lit ''[reticulum]'', port_line shared_key 40000] [] (lit ''[reticulum]'') [port_line shared_key 40000] []"
    using reticulum_header port_line_config(1) [of 40000] by (simp add: sectioned_def config_line_def)
  from sectioned_reread [OF this] show ?thesis
    using port_line_config(1) [of 40000] by (simp add: sample_config_def config_line_def lit_Cons)
qed

lemma sample_config_settings:
  "setting_of shared_key [strip_cr (port_line shared_key 40000)] = PortValue 40000"
  "setting_of control_key [strip_cr (port_line shared_key 40000)] = PortMissing"
  by (simp_all add: setting_of_def port_of_def parse_unsigned_dec)

lemma sample_config_updated: "ratspeak_shared_instance_port_update sample_config \<noteq> None"
  unfolding port_update_eq [OF sample_config_sectioned] sample_config_settings
  by (simp add: desired_ports_def is_legacy_value_def port_consts split: prod.split)

theorem port_update_keeps_witness:
  "\<exists>content' body'. ratspeak_shared_instance_port_update sample_config = Some content'
    \<and> reticulum_body content' = Some body' \<and> values_of shared_key body' = [dec_string 40000]"
proof -
  obtain content' where "ratspeak_shared_instance_port_update sample_config = Some content'"
    using sample_config_updated by auto
  then show ?thesis
    using port_update_keeps [OF reticulum_body_sectioned [OF sample_config_sectioned], of content' shared_key]
    by (simp add: sample_config_settings port_consts)
qed

end
