(* ===== verification/Config_Prepare.thy ===== *)
theory Config_Prepare
  imports Config_Shared_Props "HOL-Library.Code_Target_Nat"
begin

text \<open>
  Preparing the configuration at startup (\<open>ensure_app_private_shared_instance\<close> of \<open>rns_config.rs\<close>):
  the instance name reaches its final value in one step without touching the ports, so preparing a
  prepared file changes nothing, and the application still recognises the file as its own.
\<close>

section \<open>The private name\<close>

lemma hex_digit_char: "n < 16 \<Longrightarrow> is_hex_char (hex_digit n)"
  by (auto simp: hex_digit_def is_hex_char_def is_ascii_digit_def)

lemma hex_encode_chars: "\<forall>c \<in> set (hex_encode bs). is_hex_char c"
proof -
  have "unat b < 256" for b :: "8 word" using unsigned_less [where w = b] by simp
  then have "unat b div 16 < 16" for b :: "8 word" by (simp add: less_mult_imp_div_less)
  then show ?thesis unfolding hex_encode_def by (auto intro!: hex_digit_char)
qed

lemma length_hex_encode [simp]: "length (hex_encode bs) = 2 * length bs"
  by (induction bs) (simp_all add: hex_encode_def)

lemma hex_char_plain: "is_hex_char c \<Longrightarrow> plain_char c"
  by (auto simp: is_hex_char_def is_ascii_digit_def plain_char_def is_whitespace_def)

lemma plain_private_name: "plain (ratspeak_private_instance_name digest)"
proof -
  have "\<forall>c \<in> set (lit ''ratspeak-''). plain_char c"
    by (simp add: lit_Cons plain_char_def is_whitespace_def)
  then show ?thesis
    using hex_encode_chars hex_char_plain by (auto simp: plain_def ratspeak_private_instance_name_def lit_Cons)
qed

lemma private_name_not_default: "\<not> eq_ignore_ascii_case (ratspeak_private_instance_name digest) (lit ''default'')"
  by (simp add: eq_ignore_ascii_case_def ratspeak_private_instance_name_def lit_Cons to_ascii_lowercase_def to_ascii_lower_def)

lemma own_private_name: "8 \<le> length digest \<Longrightarrow> own_instance_name (ratspeak_private_instance_name digest)"
  using hex_encode_chars
  by (auto simp: own_instance_name_def ratspeak_private_instance_name_def list_all_iff lit_Cons)

lemma parse_name_line:
  "parse_ini_key_value (replace_key_line l name_key (ratspeak_private_instance_name digest)) =
    Some (name_key, ratspeak_private_instance_name digest)"
  using parse_replace_key_line [of name_key "ratspeak_private_instance_name digest" l] by (simp add: plain_private_name)

lemma name_line_replace: "lit ''instance_name = '' @ val = replace_key_line [] name_key val"
  by (simp add: replace_key_line_def lit_Cons)

lemma own_name_line: "8 \<le> length digest \<Longrightarrow>
    \<not> operator_line (replace_key_line l name_key (ratspeak_private_instance_name digest))"
  unfolding operator_line_def parse_name_line by (simp add: own_private_name)

section \<open>The name update\<close>

lemma scan_name_result:
  assumes "scan_name off body ns = Some ns'"
  shows "(values_of name_key body = [] \<and> ns_line ns' = ns_line ns \<and> ns_name ns' = ns_name ns)
    \<or> (\<exists>v i. values_of name_key body = [v] \<and> ns_line ns = None \<and> ns_name ns' = Some v
        \<and> find_position (\<lambda>l. key_of l = Some name_key) body = Some i \<and> ns_line ns' = Some (off + i))"
  using assms
proof (induction body arbitrary: off ns)
  case Nil
  then show ?case by simp
next
  case (Cons l body)
  show ?case
  proof (cases "key_of l = Some name_key")
    case True
    then obtain v where v: "parse_ini_key_value l = Some (name_key, v)" by (auto simp: key_of_def)
    then have line: "ns_line ns = None"
      and rec: "scan_name (off + 1) body (ns\<lparr>ns_line := Some off, ns_name := Some v\<rparr>) = Some ns'"
      using Cons.prems by (simp_all split: if_split_asm)
    from Cons.IH [OF rec] show ?thesis using v line True by auto
  next
    case False
    have "\<exists>ns1. scan_name (off + 1) body ns1 = Some ns' \<and> ns_line ns1 = ns_line ns \<and> ns_name ns1 = ns_name ns"
    proof (cases "parse_ini_key_value l")
      case None
      then show ?thesis using Cons.prems by auto
    next
      case (Some kv)
      obtain k v where kv: "kv = (k, v)" by (cases kv)
      have k: "k \<noteq> name_key" using False Some kv by (auto simp: key_of_def)
      show ?thesis
        using Cons.prems unfolding scan_name.simps Some kv option.case prod.case if_not_P [OF k]
        by (auto split: if_split_asm option.splits)
    qed
    then obtain ns1 where rec: "scan_name (off + 1) body ns1 = Some ns'"
      and same: "ns_line ns1 = ns_line ns" "ns_name ns1 = ns_name ns" by blast
    have "values_of name_key (l # body) = values_of name_key body"
      using False by (auto simp: key_of_def split: option.split)
    then show ?thesis using Cons.IH [OF rec] same False by auto
  qed
qed

lemma name_settled_None:
  assumes "body_of content body" and "values_of name_key body = v # vs" and "\<not> eq_ignore_ascii_case v (lit ''default'')"
  shows "ratspeak_private_instance_name_update content digest = None"
proof -
  obtain pre header body' post where sec: "sectioned (str_lines content) pre header body' post"
    "\<And>key. values_of key body' = values_of key body"
    using body_of_sectioned [OF assms(1)] by metis
  note b = bounds_sectioned [OF sec(1)] and body = section_body_sectioned [OF sec(1)]
  show ?thesis
  proof (cases "scan_name (length pre + 1) body' name_scan_init")
    case None
    then show ?thesis
      unfolding ratspeak_private_instance_name_update_def Let_def b option.case prod.case body by simp
  next
    case (Some ns)
    obtain i where "ns_name ns = Some v" "ns_line ns = Some (length pre + 1 + i)"
      using scan_name_result [OF Some] assms(2) sec(2) by auto
    then show ?thesis
      unfolding ratspeak_private_instance_name_update_def Let_def b option.case prod.case body Some
      by (simp add: assms(3))
  qed
qed

lemma name_update_section:
  assumes upd: "ratspeak_private_instance_name_update content digest = Some content'"
  obtains body body' where "reticulum_body content = Some body" "body_of content' body'"
    "values_of name_key body' = [ratspeak_private_instance_name digest]"
    "\<And>k. k \<noteq> name_key \<Longrightarrow> values_of k body' = values_of k body"
    "8 \<le> length digest \<Longrightarrow> list_ex operator_line body' \<Longrightarrow> list_ex operator_line body"
proof (cases rule: bounds_cases [of "str_lines content"])
  case none
  then show thesis using upd by (simp add: ratspeak_private_instance_name_update_def)
next
  case (some pre header body post)
  let ?ls = "str_lines content" and ?private = "ratspeak_private_instance_name digest"
  let ?new = "\<lambda>l. replace_key_line l name_key ?private"
  note b = bounds_sectioned [OF some] and body = section_body_sectioned [OF some]
  have nl: "\<forall>l \<in> set ?ls. 10 \<notin> set l" using str_lines_no_newline by blast
  obtain ns where ns: "scan_name (length pre + 1) body name_scan_init = Some ns"
    using upd unfolding ratspeak_private_instance_name_update_def Let_def b option.case prod.case body
    by (auto split: option.split_asm)
  note upd' = upd [unfolded ratspeak_private_instance_name_update_def Let_def b option.case prod.case body ns]
  from scan_name_result [OF ns] show thesis
  proof (elim disjE conjE exE)
    assume v: "values_of name_key body = []" and "ns_name ns = ns_name name_scan_init"
    then have "ns_name ns = None" by (simp add: name_scan_init_def)
    then have content': "content' = join_config_lines (insert_at (length pre + 1 + length body) [?new []] ?ls)"
      using upd' by (simp add: name_line_replace split: if_split_asm)
    have line: "config_line (?new [])" by (rule config_line_replace) (simp_all add: plain_private_name)
    have "sectioned (insert_at (length pre + 1 + length body) [?new []] ?ls) pre header (body @ [?new []]) post"
      by (rule sectioned_insert [OF some]) (use line in \<open>simp add: config_line_def\<close>)
    moreover have "\<forall>l \<in> set (insert_at (length pre + 1 + length body) [?new []] ?ls). 10 \<notin> set l"
      using nl line by (auto simp: insert_at_def config_line_def dest: in_set_takeD in_set_dropD)
    ultimately have "body_of content' (body @ [?new []])" unfolding content' by (rule body_of_join)
    then show thesis
      by (rule that [OF reticulum_body_sectioned [OF some]]) (simp_all add: v parse_name_line own_name_line)
  next
    fix v i
    assume v: "values_of name_key body = [v]" and pos: "find_position (\<lambda>l. key_of l = Some name_key) body = Some i"
      and "ns_name ns = Some v" "ns_line ns = Some (length pre + 1 + i)"
    then have content': "content' = join_config_lines (?ls[length pre + 1 + i := ?new (?ls ! (length pre + 1 + i))])"
      using upd' by (simp split: if_split_asm)
    let ?body = "body[i := ?new (?ls ! (length pre + 1 + i))]"
    have one: "length (values_of name_key body) \<le> 1" by (simp add: v)
    note u = values_update [OF pos one parse_name_line [of "?ls ! (length pre + 1 + i)" digest]]
    have "body_of content' ?body"
      unfolding content' by (rule body_of_join [OF replace_in_section [OF some nl u(4)]]) (simp_all add: plain_private_name)
    moreover have "list_ex operator_line body" if "8 \<le> length digest" "list_ex operator_line ?body"
      using that(2) by (rule list_ex_update) (rule own_name_line [OF that(1)])
    ultimately show thesis
      by (intro that [OF reticulum_body_sectioned [OF some] _ u(1) u(2)])
  qed
qed

section \<open>Preparing the file\<close>

lemma settings_of_values: "(\<And>k. k \<noteq> name_key \<Longrightarrow> values_of k a = values_of k b) \<Longrightarrow>
    setting_of shared_key a = setting_of shared_key b \<and> setting_of control_key a = setting_of control_key b"
  by (simp add: setting_of_def)

text \<open>Whether the ports need an update depends on the values of the section alone.\<close>

lemma port_update_values:
  assumes "body_of content body" and "body_of content' body'"
    and "values_of shared_key body' = values_of shared_key body" "values_of control_key body' = values_of control_key body"
    and "ratspeak_shared_instance_port_update content = None"
  shows "ratspeak_shared_instance_port_update content' = None"
proof -
  obtain pre header b post where a: "sectioned (str_lines content) pre header b post" "\<And>key. values_of key b = values_of key body"
    using body_of_sectioned [OF assms(1)] by metis
  obtain pre' header' b' post' where a': "sectioned (str_lines content') pre' header' b' post'"
    "\<And>key. values_of key b' = values_of key body'"
    using body_of_sectioned [OF assms(2)] by metis
  have "setting_of shared_key b' = setting_of shared_key b" "setting_of control_key b' = setting_of control_key b"
    using a(2) a'(2) assms(3,4) by (simp_all add: setting_of_def)
  then show ?thesis
    using assms(5) a(2) a'(2) assms(3,4) unfolding port_update_eq [OF a(1)] port_update_eq [OF a'(1)]
    by (auto split: if_split_asm prod.split_asm)
qed

lemma reticulum_body_of: "reticulum_body content = Some body \<Longrightarrow> body_of content body"
  by (simp add: body_of_def)

text \<open>A file whose ports and name need no update.\<close>

definition settled :: "bytes \<Rightarrow> ustr \<Rightarrow> bool" where
  "settled digest content \<longleftrightarrow> ratspeak_shared_instance_port_update content = None
     \<and> ratspeak_private_instance_name_update content digest = None"

lemma settled_body:
  assumes "body_of content body" and "ports_settled body" and "values_of name_key body = [ratspeak_private_instance_name digest]"
  shows "settled digest content"
  using ports_settled_None [OF assms(1,2)] name_settled_None [OF assms(1,3) private_name_not_default]
  by (simp add: settled_def)

lemma settled_unchanged:
  "settled digest content \<Longrightarrow>
    ensure_app_private_shared_instance parse_ok publish_ok digest (Some content) (Some content) = Some (Unchanged, Some content)"
  by (simp add: settled_def ensure_app_private_shared_instance_def)

definition updated_config :: "bytes \<Rightarrow> ustr \<Rightarrow> ustr" where
  "updated_config digest content =
    (let ports = (case ratspeak_shared_instance_port_update content of None \<Rightarrow> content | Some c \<Rightarrow> c) in
     case ratspeak_private_instance_name_update ports digest of None \<Rightarrow> ports | Some c \<Rightarrow> c)"

lemma settled_updated: "settled digest (updated_config digest content)"
proof -
  let ?ports = "case ratspeak_shared_instance_port_update content of None \<Rightarrow> content | Some c \<Rightarrow> c"
  have none: "ratspeak_shared_instance_port_update ?ports = None"
  proof (cases "ratspeak_shared_instance_port_update content")
    case (Some c)
    obtain body where "body_of c body" "ports_settled body" using port_update_settled [OF Some] by blast
    then show ?thesis using Some ports_settled_None by simp
  qed simp
  show ?thesis
  proof (cases "ratspeak_private_instance_name_update ?ports digest")
    case None
    then show ?thesis using none by (simp add: settled_def updated_config_def)
  next
    case (Some c)
    then show ?thesis
    proof (cases rule: name_update_section)
      case (1 body body')
      have keys: "shared_key \<noteq> name_key" "control_key \<noteq> name_key" by simp_all
      have "ratspeak_shared_instance_port_update c = None"
        by (rule port_update_values [OF reticulum_body_of [OF 1(1)] 1(2) 1(4) [OF keys(1)] 1(4) [OF keys(2)] none])
      moreover have "ratspeak_private_instance_name_update c digest = None"
        by (rule name_settled_None [OF 1(2,3) private_name_not_default])
      ultimately show ?thesis using Some by (simp add: settled_def updated_config_def)
    qed
  qed
qed

text \<open>The file written on the first start.\<close>

lemma default_config_section:
  defines "ls \<equiv> \<lambda>digest. [lit ''# This is the default Ratspeak Reticulum config file.'', [], lit ''[reticulum]'',
       lit ''enable_transport = False'', lit ''share_instance = No'',
       lit ''instance_name = '' @ ratspeak_private_instance_name digest,
       port_line shared_key RATSPEAK_RNS_SHARED_INSTANCE_PORT,
       port_line control_key RATSPEAK_RNS_INSTANCE_CONTROL_PORT, [],
       lit ''[logging]'', lit ''loglevel = 4'', [], lit ''[interfaces]'']"
  shows "sectioned (ls digest) [lit ''# This is the default Ratspeak Reticulum config file.'', []] (lit ''[reticulum]'')
      [lit ''enable_transport = False'', lit ''share_instance = No'',
       replace_key_line [] name_key (ratspeak_private_instance_name digest),
       port_line shared_key RATSPEAK_RNS_SHARED_INSTANCE_PORT,
       port_line control_key RATSPEAK_RNS_INSTANCE_CONTROL_PORT, []]
      [lit ''[logging]'', lit ''loglevel = 4'', [], lit ''[interfaces]'']"
    and "\<forall>l \<in> set (ls digest). 10 \<notin> set l"
proof -
  have c: "config_line (replace_key_line [] name_key (ratspeak_private_instance_name digest))"
    by (rule config_line_replace) (simp_all add: plain_private_name)
  have "\<not> is_top_level_section (lit ''enable_transport = False'')" "\<not> is_top_level_section (lit ''share_instance = No'')"
    "\<not> is_top_level_section []" "is_top_level_section (lit ''[logging]'')"
    "\<not> named_top_level_section (lit ''# This is the default Ratspeak Reticulum config file.'') (lit ''reticulum'')"
    "\<not> named_top_level_section [] (lit ''reticulum'')"
    by (simp_all add: is_top_level_section_def named_top_level_section_def str_trim_def is_whitespace_def lit_Cons
        utf8_width_def)
  then show "sectioned (ls digest) [lit ''# This is the default Ratspeak Reticulum config file.'', []] (lit ''[reticulum]'')
      [lit ''enable_transport = False'', lit ''share_instance = No'',
       replace_key_line [] name_key (ratspeak_private_instance_name digest),
       port_line shared_key RATSPEAK_RNS_SHARED_INSTANCE_PORT,
       port_line control_key RATSPEAK_RNS_INSTANCE_CONTROL_PORT, []]
      [lit ''[logging]'', lit ''loglevel = 4'', [], lit ''[interfaces]'']"
    using c reticulum_header port_line_config
    by (simp add: sectioned_def ls_def config_line_def name_line_replace)
  show "\<forall>l \<in> set (ls digest). 10 \<notin> set l"
    using c port_line_config unfolding ls_def name_line_replace by (simp add: config_line_def lit_Cons)
qed

definition default_body :: "bytes \<Rightarrow> ustr list" where
  "default_body digest = [lit ''enable_transport = False'', lit ''share_instance = No'',
     replace_key_line [] name_key (ratspeak_private_instance_name digest),
     port_line shared_key RATSPEAK_RNS_SHARED_INSTANCE_PORT,
     port_line control_key RATSPEAK_RNS_INSTANCE_CONTROL_PORT, []]"

lemma default_config_body: "body_of (ratspeak_default_config digest) (default_body digest)"
  unfolding ratspeak_default_config_def default_body_def by (rule body_of_join [OF default_config_section])

lemma parse_default_lines:
  "parse_ini_key_value (lit ''enable_transport = False'') = Some (lit ''enable_transport'', lit ''False'')"
  "parse_ini_key_value (lit ''share_instance = No'') = Some (lit ''share_instance'', lit ''No'')"
  "parse_ini_key_value [] = None"
proof -
  have word: "plain (lit ''False'')" "plain (lit ''No'')" "plain (lit ''share_instance'')"
    "to_ascii_lowercase (lit ''share_instance'') = lit ''share_instance''"
    by (simp_all add: plain_def plain_char_def is_whitespace_def lit_Cons to_ascii_lowercase_def to_ascii_lower_def)
  show "parse_ini_key_value (lit ''enable_transport = False'') = Some (lit ''enable_transport'', lit ''False'')"
    using parse_key_line [OF transport_key(1) word(1), of "[]"] by (simp add: lit_Cons to_ascii_lowercase_def to_ascii_lower_def)
  show "parse_ini_key_value (lit ''share_instance = No'') = Some (lit ''share_instance'', lit ''No'')"
    using parse_key_line [OF word(3,2), of "[]"] by (simp add: lit_Cons to_ascii_lowercase_def to_ascii_lower_def)
  show "parse_ini_key_value [] = None" by (simp add: parse_ini_key_value_def)
qed

lemma default_values:
  "values_of shared_key (default_body digest) = [dec_string RATSPEAK_RNS_SHARED_INSTANCE_PORT]"
  "values_of control_key (default_body digest) = [dec_string RATSPEAK_RNS_INSTANCE_CONTROL_PORT]"
  "values_of name_key (default_body digest) = [ratspeak_private_instance_name digest]"
  by (simp_all add: default_body_def parse_default_lines parse_name_line)

lemma settled_default: "settled digest (ratspeak_default_config digest)"
proof (rule settled_body [OF default_config_body _ default_values(3)])
  show "ports_settled (default_body digest)"
    by (simp add: ports_settled_def setting_of_def default_values port_of_def port_consts parse_unsigned_dec)
qed

lemma ensure_result:
  assumes "ensure_app_private_shared_instance parse_ok publish_ok digest file file = Some (ch, file')"
  shows "(ch = Unchanged \<and> file' = file \<and> file \<noteq> None)
    \<or> (ch = Created \<and> file = None \<and> file' = Some (ratspeak_default_config digest))
    \<or> (ch = Updated \<and> (\<exists>c. file = Some c \<and> file' = Some (updated_config digest c)
        \<and> \<not> has_operator_shared_selector parse_ok c))"
  using assms
  by (auto simp: ensure_app_private_shared_instance_def write_config_if_unchanged_def updated_config_def Let_def
      split: option.splits if_splits)

text \<open>C24: preparing a prepared configuration directory again changes nothing, whatever the first run
  did to it.\<close>

theorem ensure_idempotent:
  assumes "ensure_app_private_shared_instance parse_ok publish_ok digest file file = Some (ch, file')"
  shows "ensure_app_private_shared_instance parse_ok publish_ok digest file' file' = Some (Unchanged, file')"
  using ensure_result [OF assms]
proof (elim disjE conjE exE)
  assume "ch = Unchanged" "file' = file" "file \<noteq> None"
  then show ?thesis
    using assms by (auto simp: ensure_app_private_shared_instance_def Let_def split: option.splits if_splits)
qed (simp_all add: settled_unchanged settled_default settled_updated)

theorem ensure_idempotent_witness:
  "ensure_app_private_shared_instance (\<lambda>_. True) (\<lambda>_ _. True) (replicate 32 7)
    (Some (ratspeak_default_config (replicate 32 7))) (Some (ratspeak_default_config (replicate 32 7)))
   = Some (Unchanged, Some (ratspeak_default_config (replicate 32 7)))"
  by (rule ensure_idempotent [of _ _ _ None Created])
    (simp add: ensure_app_private_shared_instance_def write_config_if_unchanged_def)

text \<open>The updates introduce no line that the application would take for the operator's.\<close>

lemma updated_operator_lines:
  assumes "reticulum_body content = Some body" and "8 \<le> length digest" and "\<not> list_ex operator_line body"
  shows "\<exists>body'. body_of (updated_config digest content) body' \<and> \<not> list_ex operator_line body'"
proof -
  let ?ports = "case ratspeak_shared_instance_port_update content of None \<Rightarrow> content | Some c \<Rightarrow> c"
  have ports: "\<exists>body'. body_of ?ports body' \<and> \<not> list_ex operator_line body'"
  proof (cases "ratspeak_shared_instance_port_update content")
    case None
    then show ?thesis using reticulum_body_of [OF assms(1)] assms(3) by auto
  next
    case (Some c)
    show ?thesis
    proof (cases rule: bounds_cases [of "str_lines content"])
      case none
      then show ?thesis using assms(1) by (simp add: reticulum_body_def)
    next
      case (some pre header b post)
      then have "b = body" using assms(1) reticulum_body_sectioned by fastforce
      then show ?thesis using port_update_section [OF some Some] Some assms(3) by auto
    qed
  qed
  show ?thesis
  proof (cases "ratspeak_private_instance_name_update ?ports digest")
    case None
    then show ?thesis using ports by (simp add: updated_config_def)
  next
    case (Some c)
    then show ?thesis
    proof (cases rule: name_update_section)
      case (1 b b')
      then show ?thesis using ports Some assms(2) by (auto simp: updated_config_def body_of_def)
    qed
  qed
qed

lemma operator_body_of:
  "body_of content body \<Longrightarrow>
    has_operator_shared_selector parse_ok content \<longleftrightarrow> \<not> parse_ok content \<or> list_ex operator_line body"
  by (auto simp: has_operator_shared_selector_def body_of_def reticulum_body_def)

text \<open>C25: The application recognises a file that has a \<open>[reticulum]\<close> section and that it has prepared as its own, as
  long as the parser accepts it: its edits of the section never look like an operator's selector.  A file without the
  section is not covered; \<open>headless_file_captured\<close> below shows why.\<close>

theorem prepared_file_stays_own:
  assumes "reticulum_body content = Some body" and "8 \<le> length digest"
    and "ensure_app_private_shared_instance parse_ok publish_ok digest (Some content) (Some content) = Some (Updated, Some content')"
    and "parse_ok content'"
  shows "\<not> has_operator_shared_selector parse_ok content'"
proof -
  have c: "content' = updated_config digest content" "\<not> has_operator_shared_selector parse_ok content"
    using ensure_result [OF assms(3)] by auto
  then have "\<not> list_ex operator_line body" using operator_body_of [OF reticulum_body_of [OF assms(1)]] by blast
  then show ?thesis
    using updated_operator_lines [OF assms(1,2)] operator_body_of assms(4) c(1) by blast
qed

lemma bare_config_section:
  "sectioned (str_lines (join_config_lines [lit ''[reticulum]''])) [] (strip_cr (lit ''[reticulum]'')) [] []"
proof -
  have "sectioned [lit ''[reticulum]''] [] (lit ''[reticulum]'') [] []"
    using reticulum_header by (simp add: sectioned_def)
  from sectioned_reread [OF this] show ?thesis by (simp add: lit_Cons)
qed

lemma bare_config_updated:
  assumes "publish_ok (Some (join_config_lines [lit ''[reticulum]''])) (updated_config digest (join_config_lines [lit ''[reticulum]'']))"
  shows "ensure_app_private_shared_instance (\<lambda>_. True) publish_ok digest
      (Some (join_config_lines [lit ''[reticulum]''])) (Some (join_config_lines [lit ''[reticulum]''])) =
    Some (Updated, Some (updated_config digest (join_config_lines [lit ''[reticulum]''])))"
proof -
  let ?c = "join_config_lines [lit ''[reticulum]'']"
  have "ratspeak_shared_instance_port_update ?c \<noteq> None"
    unfolding port_update_eq [OF bare_config_section]
    by (simp add: setting_of_def desired_ports_def Let_def split: prod.split)
  then have "updated_config digest ?c \<noteq> ?c" using settled_updated [of digest ?c] by (auto simp: settled_def)
  moreover have "\<not> has_operator_shared_selector (\<lambda>_. True) ?c"
    using operator_body_of [OF reticulum_body_of [OF reticulum_body_sectioned [OF bare_config_section]]] by simp
  ultimately show ?thesis
    using assms by (simp add: ensure_app_private_shared_instance_def updated_config_def write_config_if_unchanged_def Let_def)
qed

theorem prepared_file_stays_own_witness:
  "\<not> has_operator_shared_selector (\<lambda>_. True) (updated_config (replicate 32 7) (join_config_lines [lit ''[reticulum]'']))"
  using prepared_file_stays_own [OF reticulum_body_sectioned [OF bare_config_section] _ bare_config_updated, of "replicate 32 7" "\<lambda>_ _. True"]
  by simp

text \<open>A file without any section is given a \<open>[reticulum]\<close> header in front, which captures its lines: one that was no
  setting of the section becomes a selector, and the application then takes its own file for an operator's.\<close>

lemma headless_file_captured:
  "\<not> has_operator_shared_selector (\<lambda>_. True) (lit ''rpc_key = x'') \<and>
   ensure_app_private_shared_instance (\<lambda>_. True) (\<lambda>_ _. True) (replicate 32 7) (Some (lit ''rpc_key = x'')) (Some (lit ''rpc_key = x''))
     = Some (Updated, Some (updated_config (replicate 32 7) (lit ''rpc_key = x''))) \<and>
   has_operator_shared_selector (\<lambda>_. True) (updated_config (replicate 32 7) (lit ''rpc_key = x''))"
  by code_simp

section \<open>Switching the transport\<close>

definition set_transport_mode ::
  "(ustr option \<Rightarrow> ustr \<Rightarrow> bool) \<Rightarrow> bytes \<Rightarrow> ustr option \<Rightarrow> ustr option \<Rightarrow> bool \<Rightarrow> ustr option" where
  "set_transport_mode publish_ok digest previous now enable =
    (let content = (case previous of None \<Rightarrow> ratspeak_default_config digest | Some c \<Rightarrow> c) in
     write_config_if_unchanged publish_ok now previous (transport_mode_update content enable))"

definition transport_mode_enabled :: "ustr option \<Rightarrow> bool" where
  "transport_mode_enabled file =
    (case Option.bind file transport_enabled_from_config of None \<Rightarrow> False | Some b \<Rightarrow> b)"

lemma set_transport_mode_enabled:
  "set_transport_mode publish_ok digest previous now enable = Some content \<Longrightarrow> transport_mode_enabled (Some content) = enable"
  by (auto simp: set_transport_mode_def write_config_if_unchanged_def transport_mode_enabled_def
      Let_def transport_read_back split: option.splits if_splits)

end
