(* ===== verification/Rrc.thy ===== *)
theory Rrc
  imports Rs_Text
begin

text \<open>
  The Reticulum Relay Chat codec (\<open>rrc.rs\<close>): envelopes as CBOR maps with unsigned keys.  CBOR
  itself (\<open>ciborium::ser::into_writer\<close>, \<open>ciborium::de::from_reader\<close>) comes from another crate
  and is a pair of parameters: \<open>ser\<close> gives the bytes of a value or an error, \<open>de\<close> a value and the
  number of bytes it occupied.  The values are \<open>ciborium::value::Value\<close>; an \<open>Integer\<close> of that
  crate holds more than 64 bits, so it is an \<open>int\<close>.  The fresh identifier, the clock and the
  Unicode lower-casing of the standard library are parameters too.
\<close>

section \<open>Values\<close>

datatype cbor_value = CInteger int | CBytes bytes | CFloat u64 | CText ustr | CBool bool | CNull
  | CTag u64 cbor_value | CArray "cbor_value list" | CMap "(cbor_value \<times> cbor_value) list"

type_synonym cbor_fields = "(cbor_value \<times> cbor_value) list"

definition cbor_unsigned :: "u64 \<Rightarrow> cbor_value" where
  "cbor_unsigned n = CInteger (uint n)"

definition as_unsigned :: "cbor_value \<Rightarrow> u64 option" where
  "as_unsigned v = (case v of CInteger i \<Rightarrow> if 0 \<le> i \<and> i < 2 ^ 64 then Some (word_of_int i) else None | _ \<Rightarrow> None)"

definition as_text :: "cbor_value \<Rightarrow> ustr option" where
  "as_text v = (case v of CText t \<Rightarrow> Some t | _ \<Rightarrow> None)"

definition integer_map :: "(u64 \<times> cbor_value) list \<Rightarrow> cbor_value" where
  "integer_map entries = CMap (map (\<lambda>(key, val). (cbor_unsigned key, val)) entries)"

fun map_get :: "cbor_fields \<Rightarrow> u64 \<Rightarrow> cbor_value option" where
  "map_get [] key = None"
| "map_get ((candidate, val) # fields) key =
    (if as_unsigned candidate = Some key then Some val else map_get fields key)"

section \<open>Constants and types\<close>

definition RRC_VERSION :: u64 where "RRC_VERSION = 1"
definition MAX_DISPLAY_TIMESTAMP_MS :: u64 where "MAX_DISPLAY_TIMESTAMP_MS = 8640000000000000"
definition K_VERSION :: u64 where "K_VERSION = 0"
definition K_TYPE :: u64 where "K_TYPE = 1"
definition K_ID :: u64 where "K_ID = 2"
definition K_TIMESTAMP :: u64 where "K_TIMESTAMP = 3"
definition K_SOURCE :: u64 where "K_SOURCE = 4"
definition K_ROOM :: u64 where "K_ROOM = 5"
definition K_BODY :: u64 where "K_BODY = 6"
definition K_NICKNAME :: u64 where "K_NICKNAME = 7"
definition K_DESTINATION :: u64 where "K_DESTINATION = 8"
definition HELLO_CLIENT_NAME :: u64 where "HELLO_CLIENT_NAME = 0"
definition HELLO_CLIENT_VERSION :: u64 where "HELLO_CLIENT_VERSION = 1"
definition HELLO_CAPABILITIES :: u64 where "HELLO_CAPABILITIES = 2"
definition WELCOME_HUB_NAME :: u64 where "WELCOME_HUB_NAME = 0"
definition WELCOME_HUB_VERSION :: u64 where "WELCOME_HUB_VERSION = 1"
definition WELCOME_CAPABILITIES :: u64 where "WELCOME_CAPABILITIES = 2"
definition WELCOME_LIMITS :: u64 where "WELCOME_LIMITS = 3"
definition LIMIT_MAX_NICK_BYTES :: u64 where "LIMIT_MAX_NICK_BYTES = 0"
definition LIMIT_MAX_ROOM_NAME_BYTES :: u64 where "LIMIT_MAX_ROOM_NAME_BYTES = 1"
definition LIMIT_MAX_MESSAGE_BODY_BYTES :: u64 where "LIMIT_MAX_MESSAGE_BODY_BYTES = 2"
definition LIMIT_MAX_ROOMS_PER_SESSION :: u64 where "LIMIT_MAX_ROOMS_PER_SESSION = 3"
definition LIMIT_RATE_MESSAGES_PER_MINUTE :: u64 where "LIMIT_RATE_MESSAGES_PER_MINUTE = 4"
definition CAP_RESOURCE_ENVELOPE :: u64 where "CAP_RESOURCE_ENVELOPE = 0"
definition CAP_ACTION :: u64 where "CAP_ACTION = 1"
definition CAP_DIRECT_NOTICE :: u64 where "CAP_DIRECT_NOTICE = 2"
definition CAP_REJOIN_GRACE :: u64 where "CAP_REJOIN_GRACE = 3"
definition RESOURCE_ID :: u64 where "RESOURCE_ID = 0"
definition RESOURCE_KIND :: u64 where "RESOURCE_KIND = 1"
definition RESOURCE_SIZE :: u64 where "RESOURCE_SIZE = 2"
definition RESOURCE_SHA256 :: u64 where "RESOURCE_SHA256 = 3"
definition RESOURCE_ENCODING :: u64 where "RESOURCE_ENCODING = 4"

lemmas rrc_keys = K_VERSION_def K_TYPE_def K_ID_def K_TIMESTAMP_def K_SOURCE_def K_ROOM_def K_BODY_def
  K_NICKNAME_def K_DESTINATION_def

lemmas body_keys = HELLO_CLIENT_NAME_def HELLO_CLIENT_VERSION_def HELLO_CAPABILITIES_def WELCOME_HUB_NAME_def
  WELCOME_HUB_VERSION_def WELCOME_CAPABILITIES_def WELCOME_LIMITS_def LIMIT_MAX_NICK_BYTES_def
  LIMIT_MAX_ROOM_NAME_BYTES_def LIMIT_MAX_MESSAGE_BODY_BYTES_def LIMIT_MAX_ROOMS_PER_SESSION_def
  LIMIT_RATE_MESSAGES_PER_MINUTE_def CAP_RESOURCE_ENVELOPE_def CAP_ACTION_def CAP_DIRECT_NOTICE_def CAP_REJOIN_GRACE_def
  RESOURCE_ID_def RESOURCE_KIND_def RESOURCE_SIZE_def RESOURCE_SHA256_def RESOURCE_ENCODING_def

datatype message_type = Hello | Welcome | Join | Joined | Part | Parted | Message | Notice | Action
  | Ping | Pong | ErrorMessage | ResourceEnvelope | UnknownType u64

definition from_wire :: "u64 \<Rightarrow> message_type" where
  "from_wire n =
    (if n = 1 then Hello else if n = 2 then Welcome else if n = 10 then Join else if n = 11 then Joined
     else if n = 12 then Part else if n = 13 then Parted else if n = 20 then Message else if n = 21 then Notice
     else if n = 22 then Action else if n = 30 then Ping else if n = 31 then Pong else if n = 40 then ErrorMessage
     else if n = 50 then ResourceEnvelope else UnknownType n)"

fun wire :: "message_type \<Rightarrow> u64" where
  "wire Hello = 1" | "wire Welcome = 2" | "wire Join = 10" | "wire Joined = 11" | "wire Part = 12"
| "wire Parted = 13" | "wire Message = 20" | "wire Notice = 21" | "wire Action = 22" | "wire Ping = 30"
| "wire Pong = 31" | "wire ErrorMessage = 40" | "wire ResourceEnvelope = 50" | "wire (UnknownType n) = n"

record envelope =
  en_version :: u64
  en_type :: message_type
  en_id :: bytes
  en_timestamp :: u64
  en_source :: bytes
  en_room :: "ustr option"
  en_body :: "cbor_value option"
  en_nickname :: "ustr option"
  en_destination :: "bytes option"

record hub_limits =
  max_nick_bytes :: "nat option"
  max_room_name_bytes :: "nat option"
  max_message_body_bytes :: "nat option"
  max_rooms_per_session :: "nat option"
  rate_messages_per_minute :: "nat option"

text \<open>A \<open>BTreeMap<u64, bool>\<close> is the list of its entries in the order of the keys.\<close>

record welcome_info =
  hub_name :: "ustr option"
  hub_version :: "ustr option"
  capabilities :: "(u64 \<times> bool) list"
  limits :: hub_limits

definition hub_limits_default :: hub_limits where
  "hub_limits_default = \<lparr>max_nick_bytes = None, max_room_name_bytes = None, max_message_body_bytes = None,
     max_rooms_per_session = None, rate_messages_per_minute = None\<rparr>"

definition welcome_info_default :: welcome_info where
  "welcome_info_default = \<lparr>hub_name = None, hub_version = None, capabilities = [], limits = hub_limits_default\<rparr>"

record resource_envelope =
  re_id :: bytes
  re_kind :: ustr
  re_size :: u64
  re_sha256 :: "bytes option"
  re_encoding :: "ustr option"

datatype protocol_error = InvalidCbor ustr | NotAMap | InvalidKey | MissingField u64 | InvalidField u64
  | UnsupportedVersion u64 | SizeOverflow | InvalidNickname | NicknameTooLong nat | InvalidRoom | RoomTooLong nat

section \<open>Field access\<close>

definition required_unsigned :: "cbor_fields \<Rightarrow> u64 \<Rightarrow> protocol_error + u64" where
  "required_unsigned entries key =
    (case map_get entries key of
       None \<Rightarrow> Inl (MissingField key)
     | Some val \<Rightarrow> (case as_unsigned val of None \<Rightarrow> Inl (InvalidField key) | Some n \<Rightarrow> Inr n))"

definition fixed_bytes :: "nat \<Rightarrow> cbor_fields \<Rightarrow> u64 \<Rightarrow> protocol_error + bytes" where
  "fixed_bytes n entries key =
    (case map_get entries key of
       None \<Rightarrow> Inl (MissingField key)
     | Some (CBytes bs) \<Rightarrow> if length bs = n then Inr bs else Inl (InvalidField key)
     | Some _ \<Rightarrow> Inl (InvalidField key))"

definition optional_text :: "cbor_fields \<Rightarrow> u64 \<Rightarrow> protocol_error + ustr option" where
  "optional_text entries key =
    (case map_get entries key of
       None \<Rightarrow> Inr None
     | Some (CText t) \<Rightarrow> Inr (Some t)
     | Some _ \<Rightarrow> Inl (InvalidField key))"

definition optional_fixed :: "nat \<Rightarrow> cbor_fields \<Rightarrow> u64 \<Rightarrow> protocol_error + bytes option" where
  "optional_fixed n entries key =
    (case map_get entries key of
       None \<Rightarrow> Inr None
     | Some _ \<Rightarrow> map_sum id Some (fixed_bytes n entries key))"

fun btree_insert :: "'k :: linorder \<Rightarrow> 'v \<Rightarrow> ('k \<times> 'v) list \<Rightarrow> ('k \<times> 'v) list" where
  "btree_insert k v [] = [(k, v)]"
| "btree_insert k v ((k', v') # m) =
    (if k < k' then (k, v) # (k', v') # m else if k = k' then (k, v) # m else (k', v') # btree_insert k v m)"

fun bool_entries :: "cbor_fields \<Rightarrow> (u64 \<times> bool) list \<Rightarrow> (u64 \<times> bool) list option" where
  "bool_entries [] result = Some result"
| "bool_entries ((key, val) # entries) result =
    (case as_unsigned key of
       None \<Rightarrow> None
     | Some k \<Rightarrow>
         (case val of
            CBool enabled \<Rightarrow> bool_entries entries (btree_insert k enabled result)
          | _ \<Rightarrow> bool_entries entries result))"

definition as_integer_bool_map :: "cbor_value \<Rightarrow> (u64 \<times> bool) list option" where
  "as_integer_bool_map v = (case v of CMap entries \<Rightarrow> bool_entries entries [] | _ \<Rightarrow> None)"

definition map_usize :: "nat \<Rightarrow> cbor_fields \<Rightarrow> u64 \<Rightarrow> nat option" where
  "map_usize usize_max entries key =
    (case Option.bind (map_get entries key) as_unsigned of
       None \<Rightarrow> None
     | Some n \<Rightarrow> if unat n \<le> usize_max then Some (unat n) else None)"

section \<open>Envelopes\<close>

definition now_ms :: "nat option \<Rightarrow> u64" where
  "now_ms since_epoch = of_nat (min U64_MAX (case since_epoch of None \<Rightarrow> 0 | Some ms \<Rightarrow> ms))"

definition envelope_new :: "bytes \<Rightarrow> nat option \<Rightarrow> message_type \<Rightarrow> bytes \<Rightarrow> envelope" where
  "envelope_new uuid clock message_type source =
    \<lparr>en_version = RRC_VERSION, en_type = message_type, en_id = take 8 uuid, en_timestamp = now_ms clock,
     en_source = source, en_room = None, en_body = None, en_nickname = None, en_destination = None\<rparr>"

definition envelope_hello :: "bytes \<Rightarrow> nat option \<Rightarrow> bytes \<Rightarrow> ustr \<Rightarrow> ustr \<Rightarrow> envelope" where
  "envelope_hello uuid clock source nickname client_version =
    (let caps = integer_map [(CAP_RESOURCE_ENVELOPE, CBool True), (CAP_ACTION, CBool True), (CAP_DIRECT_NOTICE, CBool True)] in
     (envelope_new uuid clock Hello source)
       \<lparr>en_nickname := Some nickname,
        en_body := Some (integer_map [(HELLO_CLIENT_NAME, CText (lit ''Ratspeak'')),
           (HELLO_CLIENT_VERSION, CText client_version), (HELLO_CAPABILITIES, caps)])\<rparr>)"

definition room_command :: "bytes \<Rightarrow> nat option \<Rightarrow> message_type \<Rightarrow> bytes \<Rightarrow> ustr \<Rightarrow> ustr \<Rightarrow> envelope" where
  "room_command uuid clock message_type source room nickname =
    (envelope_new uuid clock message_type source)\<lparr>en_room := Some room, en_nickname := Some nickname\<rparr>"

definition room_text :: "bytes \<Rightarrow> nat option \<Rightarrow> message_type \<Rightarrow> bytes \<Rightarrow> ustr \<Rightarrow> ustr \<Rightarrow> ustr \<Rightarrow> envelope" where
  "room_text uuid clock message_type source room nickname text =
    (room_command uuid clock message_type source room nickname)\<lparr>en_body := Some (CText text)\<rparr>"

definition envelope_pong :: "bytes \<Rightarrow> nat option \<Rightarrow> bytes \<Rightarrow> envelope \<Rightarrow> envelope" where
  "envelope_pong uuid clock source ping = (envelope_new uuid clock Pong source)\<lparr>en_body := en_body ping\<rparr>"

definition opt_entry :: "u64 \<Rightarrow> ('a \<Rightarrow> cbor_value) \<Rightarrow> 'a option \<Rightarrow> (u64 \<times> cbor_value) list" where
  "opt_entry key f x = (case x of None \<Rightarrow> [] | Some v \<Rightarrow> [(key, f v)])"

definition envelope_fields :: "envelope \<Rightarrow> (u64 \<times> cbor_value) list" where
  "envelope_fields env =
    [(K_VERSION, cbor_unsigned (en_version env)), (K_TYPE, cbor_unsigned (wire (en_type env))),
     (K_ID, CBytes (en_id env)), (K_TIMESTAMP, cbor_unsigned (en_timestamp env)), (K_SOURCE, CBytes (en_source env))]
    @ opt_entry K_ROOM CText (en_room env) @ opt_entry K_BODY id (en_body env)
    @ opt_entry K_NICKNAME CText (en_nickname env) @ opt_entry K_DESTINATION CBytes (en_destination env)"

definition envelope_value :: "envelope \<Rightarrow> cbor_value" where
  "envelope_value env = integer_map (sort_key fst (envelope_fields env))"

definition encode :: "(cbor_value \<Rightarrow> ustr + bytes) \<Rightarrow> envelope \<Rightarrow> protocol_error + bytes" where
  "encode ser env = (case ser (envelope_value env) of Inl e \<Rightarrow> Inl (InvalidCbor e) | Inr bs \<Rightarrow> Inr bs)"

definition decode_fields :: "cbor_fields \<Rightarrow> protocol_error + envelope" where
  "decode_fields entries =
    (if \<exists>(key, _) \<in> set entries. as_unsigned key = None then Inl InvalidKey
     else case required_unsigned entries K_VERSION of Inl e \<Rightarrow> Inl e | Inr version \<Rightarrow>
     if version \<noteq> RRC_VERSION then Inl (UnsupportedVersion version)
     else case required_unsigned entries K_TYPE of Inl e \<Rightarrow> Inl e | Inr type_code \<Rightarrow>
     case fixed_bytes 8 entries K_ID of Inl e \<Rightarrow> Inl e | Inr message_id \<Rightarrow>
     case required_unsigned entries K_TIMESTAMP of Inl e \<Rightarrow> Inl e | Inr timestamp \<Rightarrow>
     case fixed_bytes 16 entries K_SOURCE of Inl e \<Rightarrow> Inl e | Inr source \<Rightarrow>
     case optional_text entries K_ROOM of Inl e \<Rightarrow> Inl e | Inr room \<Rightarrow>
     case optional_text entries K_NICKNAME of Inl e \<Rightarrow> Inl e | Inr nickname \<Rightarrow>
     case optional_fixed 16 entries K_DESTINATION of Inl e \<Rightarrow> Inl e | Inr destination \<Rightarrow>
     Inr \<lparr>en_version = version, en_type = from_wire type_code, en_id = message_id, en_timestamp = timestamp,
          en_source = source, en_room = room, en_body = map_get entries K_BODY, en_nickname = nickname,
          en_destination = destination\<rparr>)"

definition decode :: "(bytes \<Rightarrow> ustr + cbor_value \<times> nat) \<Rightarrow> bytes \<Rightarrow> protocol_error + envelope" where
  "decode de data =
    (case de data of
       Inl e \<Rightarrow> Inl (InvalidCbor e)
     | Inr (v, used) \<Rightarrow>
         if used \<noteq> length data then Inl (InvalidCbor (lit ''trailing bytes after envelope''))
         else (case v of CMap entries \<Rightarrow> decode_fields entries | _ \<Rightarrow> Inl NotAMap))"

section \<open>Bodies\<close>

definition limit_entries :: "hub_limits \<Rightarrow> (u64 \<times> cbor_value) list" where
  "limit_entries lim =
    opt_entry LIMIT_MAX_NICK_BYTES (\<lambda>n. cbor_unsigned (of_nat n)) (max_nick_bytes lim)
    @ opt_entry LIMIT_MAX_ROOM_NAME_BYTES (\<lambda>n. cbor_unsigned (of_nat n)) (max_room_name_bytes lim)
    @ opt_entry LIMIT_MAX_MESSAGE_BODY_BYTES (\<lambda>n. cbor_unsigned (of_nat n)) (max_message_body_bytes lim)
    @ opt_entry LIMIT_MAX_ROOMS_PER_SESSION (\<lambda>n. cbor_unsigned (of_nat n)) (max_rooms_per_session lim)
    @ opt_entry LIMIT_RATE_MESSAGES_PER_MINUTE (\<lambda>n. cbor_unsigned (of_nat n)) (rate_messages_per_minute lim)"

definition welcome_body :: "welcome_info \<Rightarrow> cbor_value" where
  "welcome_body info =
    integer_map
      (opt_entry WELCOME_HUB_NAME CText (hub_name info) @ opt_entry WELCOME_HUB_VERSION CText (hub_version info)
       @ [(WELCOME_CAPABILITIES, integer_map (map (\<lambda>(cap, enabled). (cap, CBool enabled)) (capabilities info)))]
       @ (if limit_entries (limits info) = [] then [] else [(WELCOME_LIMITS, integer_map (limit_entries (limits info)))]))"

definition parse_limits :: "nat \<Rightarrow> cbor_value \<Rightarrow> hub_limits option" where
  "parse_limits usize_max v =
    (case v of
       CMap m \<Rightarrow> Some \<lparr>max_nick_bytes = map_usize usize_max m LIMIT_MAX_NICK_BYTES,
         max_room_name_bytes = map_usize usize_max m LIMIT_MAX_ROOM_NAME_BYTES,
         max_message_body_bytes = map_usize usize_max m LIMIT_MAX_MESSAGE_BODY_BYTES,
         max_rooms_per_session = map_usize usize_max m LIMIT_MAX_ROOMS_PER_SESSION,
         rate_messages_per_minute = map_usize usize_max m LIMIT_RATE_MESSAGES_PER_MINUTE\<rparr>
     | _ \<Rightarrow> None)"

definition parse_welcome :: "nat \<Rightarrow> envelope \<Rightarrow> welcome_info" where
  "parse_welcome usize_max env =
    (case en_body env of
       Some (CMap body) \<Rightarrow>
         \<lparr>hub_name = Option.bind (map_get body WELCOME_HUB_NAME) as_text,
          hub_version = Option.bind (map_get body WELCOME_HUB_VERSION) as_text,
          capabilities =
            (case Option.bind (map_get body WELCOME_CAPABILITIES) as_integer_bool_map of None \<Rightarrow> [] | Some m \<Rightarrow> m),
          limits =
            (case Option.bind (map_get body WELCOME_LIMITS) (parse_limits usize_max) of
               None \<Rightarrow> hub_limits_default | Some l \<Rightarrow> l)\<rparr>
     | _ \<Rightarrow> welcome_info_default)"

definition hello_capabilities :: "envelope \<Rightarrow> (u64 \<times> bool) list" where
  "hello_capabilities env =
    (case en_body env of
       Some (CMap body) \<Rightarrow>
         (case Option.bind (map_get body HELLO_CAPABILITIES) as_integer_bool_map of None \<Rightarrow> [] | Some m \<Rightarrow> m)
     | _ \<Rightarrow> [])"

definition member_list :: "bytes list \<Rightarrow> cbor_value" where
  "member_list members = CArray (map CBytes members)"

definition member_of :: "cbor_value \<Rightarrow> bytes option" where
  "member_of v = (case v of CBytes bs \<Rightarrow> if length bs = 16 then Some bs else None | _ \<Rightarrow> None)"

definition member_identities :: "envelope \<Rightarrow> bytes list" where
  "member_identities env = (case en_body env of Some (CArray vs) \<Rightarrow> List.map_filter member_of vs | _ \<Rightarrow> [])"

definition resource_envelope_body :: "resource_envelope \<Rightarrow> cbor_value" where
  "resource_envelope_body body =
    integer_map
      ([(RESOURCE_ID, CBytes (re_id body)), (RESOURCE_KIND, CText (re_kind body)), (RESOURCE_SIZE, cbor_unsigned (re_size body))]
       @ opt_entry RESOURCE_SHA256 CBytes (re_sha256 body) @ opt_entry RESOURCE_ENCODING CText (re_encoding body))"

definition required_text :: "cbor_fields \<Rightarrow> u64 \<Rightarrow> protocol_error + ustr" where
  "required_text entries key =
    (case map_get entries key of
       Some (CText t) \<Rightarrow> Inr t
     | Some _ \<Rightarrow> Inl (InvalidField key)
     | None \<Rightarrow> Inl (MissingField key))"

definition parse_resource_envelope :: "envelope \<Rightarrow> protocol_error + resource_envelope" where
  "parse_resource_envelope env =
    (case en_body env of
       Some (CMap body) \<Rightarrow>
         (case fixed_bytes 8 body RESOURCE_ID of Inl e \<Rightarrow> Inl e | Inr rid \<Rightarrow>
          case required_text body RESOURCE_KIND of Inl e \<Rightarrow> Inl e | Inr kind \<Rightarrow>
          case required_unsigned body RESOURCE_SIZE of Inl e \<Rightarrow> Inl e | Inr sz \<Rightarrow>
          if sz = 0 then Inl (InvalidField RESOURCE_SIZE)
          else case optional_fixed 32 body RESOURCE_SHA256 of Inl e \<Rightarrow> Inl e | Inr sha \<Rightarrow>
          Inr \<lparr>re_id = rid, re_kind = kind, re_size = sz, re_sha256 = sha,
               re_encoding = Option.bind (map_get body RESOURCE_ENCODING) as_text\<rparr>)
     | _ \<Rightarrow> Inl (InvalidField K_BODY))"

definition text_body :: "envelope \<Rightarrow> ustr option" where
  "text_body env = Option.bind (en_body env) as_text"

section \<open>Names and times\<close>

definition normalize_nickname :: "ustr \<Rightarrow> nat \<Rightarrow> protocol_error + ustr" where
  "normalize_nickname val max_bytes =
    (let nickname = str_trim val in
     if nickname = [] \<or> list_ex (\<lambda>c. c = 10 \<or> c = 13 \<or> c = 0) nickname then Inl InvalidNickname
     else if 0 < max_bytes \<and> max_bytes < str_len nickname then Inl (NicknameTooLong max_bytes)
     else Inr nickname)"

definition normalize_room :: "(ustr \<Rightarrow> ustr) \<Rightarrow> ustr \<Rightarrow> nat \<Rightarrow> protocol_error + ustr" where
  "normalize_room lower val max_bytes =
    (let room = lower (str_trim val) in
     if room = [] then Inl InvalidRoom
     else if 0 < max_bytes \<and> max_bytes < str_len room then Inl (RoomTooLong max_bytes)
     else Inr room)"

definition sanitize_display_timestamp_ms :: "u64 \<Rightarrow> u64 \<Rightarrow> u64" where
  "sanitize_display_timestamp_ms timestamp received_at =
    (if timestamp \<le> MAX_DISPLAY_TIMESTAMP_MS then timestamp else min received_at MAX_DISPLAY_TIMESTAMP_MS)"

end
