(* ===== verification/Rrc_Props.thy ===== *)
theory Rrc_Props
  imports Rrc Rs_Prelude
begin

text \<open>
  Properties of the relay chat codec: the round trips of envelopes and bodies, the shape of every
  decoded envelope, forward compatibility, and the bounds on names and times.
\<close>

section \<open>Values and maps\<close>

lemma as_unsigned_cbor [simp]: "as_unsigned (cbor_unsigned n) = Some n"
proof -
  have "uint n < 2 ^ 64" using uint_lt2p [of n] by simp
  then show ?thesis by (simp add: as_unsigned_def cbor_unsigned_def)
qed

lemma as_unsigned_Some: "as_unsigned v = Some n \<Longrightarrow> v = cbor_unsigned n"
  by (auto simp: as_unsigned_def cbor_unsigned_def uint_word_of_int split: cbor_value.splits if_splits)

lemma map_get_integer_map [simp]:
  "map_get (map (\<lambda>(key, val). (cbor_unsigned key, val)) entries) key = map_of entries key"
  by (induction entries) auto

lemma wire_from_wire [simp]: "wire (from_wire n) = n"
  by (simp add: from_wire_def)

definition known_codes :: "u64 list" where
  "known_codes = [1, 2, 10, 11, 12, 13, 20, 21, 22, 30, 31, 40, 50]"

definition type_ok :: "message_type \<Rightarrow> bool" where
  "type_ok t = (case t of UnknownType n \<Rightarrow> n \<notin> set known_codes | _ \<Rightarrow> True)"

lemma from_wire_wire: "type_ok t \<Longrightarrow> from_wire (wire t) = t"
  by (cases t) (simp_all add: from_wire_def type_ok_def known_codes_def)

lemma type_ok_from_wire [simp]: "type_ok (from_wire n)"
  by (simp add: from_wire_def type_ok_def known_codes_def)

lemma opt_entry_map_of [simp]:
  "map_of (opt_entry key f x) k = (if k = key then map_option f x else None)"
  by (cases x) (simp_all add: opt_entry_def)

lemma fields_sorted: "sorted (map fst (envelope_fields env))"
  by (auto simp: envelope_fields_def opt_entry_def rrc_keys split: option.split)

lemma envelope_value_eq: "envelope_value env = integer_map (envelope_fields env)"
  using fields_sorted [of env] by (simp add: envelope_value_def sort_key_id_if_sorted)

section \<open>Envelopes\<close>

definition envelope_ok :: "envelope \<Rightarrow> bool" where
  "envelope_ok env \<longleftrightarrow> en_version env = RRC_VERSION \<and> type_ok (en_type env) \<and> length (en_id env) = 8
    \<and> length (en_source env) = 16 \<and> (case en_destination env of None \<Rightarrow> True | Some d \<Rightarrow> length d = 16)"

lemma fields_get:
  "map_of (envelope_fields env) K_VERSION = Some (cbor_unsigned (en_version env))"
  "map_of (envelope_fields env) K_TYPE = Some (cbor_unsigned (wire (en_type env)))"
  "map_of (envelope_fields env) K_ID = Some (CBytes (en_id env))"
  "map_of (envelope_fields env) K_TIMESTAMP = Some (cbor_unsigned (en_timestamp env))"
  "map_of (envelope_fields env) K_SOURCE = Some (CBytes (en_source env))"
  "map_of (envelope_fields env) K_ROOM = map_option CText (en_room env)"
  "map_of (envelope_fields env) K_BODY = en_body env"
  "map_of (envelope_fields env) K_NICKNAME = map_option CText (en_nickname env)"
  "map_of (envelope_fields env) K_DESTINATION = map_option CBytes (en_destination env)"
  by (simp_all add: envelope_fields_def map_add_def rrc_keys option.map_id0 split: option.split)

lemma optional_text_get: "map_get entries key = map_option CText t \<Longrightarrow> optional_text entries key = Inr t"
  by (cases t) (simp_all add: optional_text_def)

lemma decode_fields_envelope:
  assumes "envelope_ok env"
  shows "decode_fields (map (\<lambda>(key, val). (cbor_unsigned key, val)) (envelope_fields env)) = Inr env"
proof -
  let ?fs = "map (\<lambda>(key, val). (cbor_unsigned key, val)) (envelope_fields env)"
  have keys: "\<not> (\<exists>(key, _) \<in> set ?fs. as_unsigned key = None)" by auto
  have num: "required_unsigned ?fs K_VERSION = Inr (en_version env)" "required_unsigned ?fs K_TYPE = Inr (wire (en_type env))"
    "required_unsigned ?fs K_TIMESTAMP = Inr (en_timestamp env)"
    by (simp_all add: required_unsigned_def fields_get)
  have fixed: "fixed_bytes 8 ?fs K_ID = Inr (en_id env)" "fixed_bytes 16 ?fs K_SOURCE = Inr (en_source env)"
    using assms by (simp_all add: fixed_bytes_def fields_get envelope_ok_def)
  have opt: "optional_text ?fs K_ROOM = Inr (en_room env)" "optional_text ?fs K_NICKNAME = Inr (en_nickname env)"
    by (simp_all add: optional_text_get fields_get)
  have dest: "optional_fixed 16 ?fs K_DESTINATION = Inr (en_destination env)"
    using assms by (cases "en_destination env") (simp_all add: optional_fixed_def fixed_bytes_def fields_get envelope_ok_def)
  have ty: "en_version env = RRC_VERSION" "from_wire (wire (en_type env)) = en_type env"
    using assms by (simp_all add: envelope_ok_def from_wire_wire)
  show ?thesis
    unfolding decode_fields_def if_not_P [OF keys] num fixed opt dest by (simp add: ty fields_get)
qed

text \<open>C27: With a CBOR codec whose parser reads every value that its serialiser writes back in full, an envelope that
  is encoded and then decoded is the same envelope.\<close>

theorem envelope_round_trip:
  assumes "\<And>v b. ser v = Inr b \<Longrightarrow> de b = Inr (v, length b)" and "envelope_ok env" and "encode ser env = Inr bs"
  shows "decode de bs = Inr env"
proof -
  have "ser (integer_map (envelope_fields env)) = Inr bs"
    using assms(3) by (simp add: encode_def envelope_value_eq split: sum.splits)
  from assms(1) [OF this] show ?thesis
    using decode_fields_envelope [OF assms(2)] by (simp add: decode_def integer_map_def)
qed

text \<open>A codec of two values: what it writes of them it reads back, and it refuses all others.\<close>

definition sample_greeting :: envelope where
  "sample_greeting = envelope_hello (replicate 16 1) (Some 1700000000000) (replicate 16 2) (lit ''rat'') (lit ''1.0'')"

definition sample_ser :: "cbor_value \<Rightarrow> ustr + bytes" where
  "sample_ser v = (if v = CMap [] then Inr [160] else if v = envelope_value sample_greeting then Inr [161, 0] else Inl (lit ''unknown''))"

definition sample_de :: "bytes \<Rightarrow> ustr + cbor_value \<times> nat" where
  "sample_de bs = (if bs = [160] then Inr (CMap [], 1) else if bs = [161, 0] then Inr (envelope_value sample_greeting, 2)
     else Inl (lit ''unknown''))"

lemma sample_codec: "sample_ser v = Inr b \<Longrightarrow> sample_de b = Inr (v, length b)"
  by (auto simp: sample_ser_def sample_de_def split: if_splits)

theorem envelope_round_trip_witness: "decode sample_de [161, 0] = Inr sample_greeting"
proof (rule envelope_round_trip [OF sample_codec])
  show "envelope_ok sample_greeting"
    by (simp add: sample_greeting_def envelope_ok_def envelope_hello_def envelope_new_def type_ok_def Let_def)
  have "envelope_fields sample_greeting \<noteq> []" by (simp add: envelope_fields_def)
  then have "envelope_value sample_greeting \<noteq> CMap []" by (simp add: envelope_value_eq integer_map_def)
  then show "encode sample_ser sample_greeting = Inr [161, 0]" by (simp add: encode_def sample_ser_def)
qed

lemma fixed_bytes_length: "fixed_bytes n entries key = Inr bs \<Longrightarrow> length bs = n"
  by (auto simp: fixed_bytes_def split: option.splits cbor_value.splits if_splits)

lemma optional_fixed_length: "optional_fixed n entries key = Inr (Some bs) \<Longrightarrow> length bs = n"
  by (auto simp: optional_fixed_def map_sum_def dest: fixed_bytes_length split: option.splits sum.splits)

lemma decode_fields_ok: "decode_fields entries = Inr env \<Longrightarrow> envelope_ok env"
  by (auto simp: decode_fields_def envelope_ok_def dest: fixed_bytes_length optional_fixed_length
      split: if_splits sum.splits option.splits)

text \<open>C28: whatever bytes arrive and however they parse as CBOR, a decoded envelope has version 1, an
  identifier of 8 bytes, addresses of 16 bytes and a type in normal form, and the input held nothing else.\<close>

theorem decode_well_formed:
  assumes "decode de data = Inr env"
  shows "envelope_ok env \<and> (\<exists>entries. de data = Inr (CMap entries, length data)
    \<and> (\<forall>(key, val) \<in> set entries. as_unsigned key \<noteq> None))"
proof -
  obtain entries where "de data = Inr (CMap entries, length data)" "decode_fields entries = Inr env"
    using assms by (auto simp: decode_def split: sum.splits if_splits cbor_value.splits)
  moreover from this(2) have "\<forall>(key, val) \<in> set entries. as_unsigned key \<noteq> None"
    by (auto simp: decode_fields_def split: if_splits)
  ultimately show ?thesis using decode_fields_ok by blast
qed

definition sample_hello :: envelope where
  "sample_hello = envelope_hello (replicate 16 1) (Some 1700000000000) (replicate 16 2) (lit ''rat'') (lit ''1.0'')"

lemma sample_hello_ok: "envelope_ok sample_hello"
  by (simp add: sample_hello_def envelope_ok_def envelope_hello_def envelope_new_def type_ok_def Let_def)

theorem decode_well_formed_witness: "envelope_ok sample_hello"
proof (rule conjunct1 [OF decode_well_formed])
  show "decode (\<lambda>bs. Inr (envelope_value sample_hello, length bs)) [161, 0] = Inr sample_hello"
    using decode_fields_envelope [OF sample_hello_ok] by (simp add: decode_def envelope_value_eq integer_map_def)
qed

section \<open>Forward compatibility\<close>

lemma map_get_append: "map_get (a @ b) key = (case map_get a key of None \<Rightarrow> map_get b key | Some v \<Rightarrow> Some v)"
  by (induction a) auto

definition known_keys :: "u64 set" where
  "known_keys = {K_VERSION, K_TYPE, K_ID, K_TIMESTAMP, K_SOURCE, K_ROOM, K_BODY, K_NICKNAME, K_DESTINATION}"

lemma map_get_unknown:
  "as_unsigned k = Some n \<Longrightarrow> n \<noteq> key \<Longrightarrow> map_get (a @ (k, v) # b) key = map_get (a @ b) key"
  by (simp add: map_get_append split: option.split)

text \<open>A field with an unsigned key that this version does not know changes nothing, wherever it stands.\<close>

theorem unknown_key_ignored:
  assumes "as_unsigned k = Some n" and "n \<notin> known_keys"
  shows "decode_fields (a @ (k, v) # b) = decode_fields (a @ b)"
proof -
  have "map_get (a @ (k, v) # b) key = map_get (a @ b) key" if "key \<in> known_keys" for key
    using map_get_unknown [OF assms(1)] that assms(2) by metis
  then have get: "map_get (a @ (k, v) # b) K_VERSION = map_get (a @ b) K_VERSION"
    "map_get (a @ (k, v) # b) K_TYPE = map_get (a @ b) K_TYPE"
    "map_get (a @ (k, v) # b) K_ID = map_get (a @ b) K_ID"
    "map_get (a @ (k, v) # b) K_TIMESTAMP = map_get (a @ b) K_TIMESTAMP"
    "map_get (a @ (k, v) # b) K_SOURCE = map_get (a @ b) K_SOURCE"
    "map_get (a @ (k, v) # b) K_ROOM = map_get (a @ b) K_ROOM"
    "map_get (a @ (k, v) # b) K_BODY = map_get (a @ b) K_BODY"
    "map_get (a @ (k, v) # b) K_NICKNAME = map_get (a @ b) K_NICKNAME"
    "map_get (a @ (k, v) # b) K_DESTINATION = map_get (a @ b) K_DESTINATION"
    by (simp_all add: known_keys_def)
  have "(\<exists>(key, _) \<in> set (a @ (k, v) # b). as_unsigned key = None) = (\<exists>(key, _) \<in> set (a @ b). as_unsigned key = None)"
    using assms(1) by auto
  then show ?thesis
    by (simp only: decode_fields_def required_unsigned_def fixed_bytes_def optional_text_def optional_fixed_def get)
qed

theorem unknown_key_ignored_witness:
  "decode_fields ([] @ (cbor_unsigned 50, CText (lit ''future'')) # []) = decode_fields ([] @ [])"
  by (rule unknown_key_ignored [where n = 50]) (simp_all add: known_keys_def rrc_keys)

section \<open>Welcome bodies\<close>

lemma btree_insert_last: "\<forall>x \<in> set m. fst x < k \<Longrightarrow> btree_insert k v m = m @ [(k, v)]"
  by (induction k v m rule: btree_insert.induct) auto

lemma bool_entries_sorted:
  "sorted_wrt (<) (map fst (acc @ caps)) \<Longrightarrow>
    bool_entries (map (\<lambda>(key, val). (cbor_unsigned key, val)) (map (\<lambda>(cap, enabled). (cap, CBool enabled)) caps)) acc
      = Some (acc @ caps)"
proof (induction caps arbitrary: acc)
  case (Cons c caps)
  obtain k b where c: "c = (k, b)" by (cases c)
  have "\<forall>x \<in> set acc. fst x < k" using Cons.prems by (simp add: c sorted_wrt_append)
  then show ?case using Cons.IH [of "acc @ [c]"] Cons.prems by (simp add: c btree_insert_last)
qed simp

definition limits_list :: "hub_limits \<Rightarrow> nat option list" where
  "limits_list lim = [max_nick_bytes lim, max_room_name_bytes lim, max_message_body_bytes lim,
     max_rooms_per_session lim, rate_messages_per_minute lim]"

definition welcome_ok :: "nat \<Rightarrow> welcome_info \<Rightarrow> bool" where
  "welcome_ok usize_max info \<longleftrightarrow> usize_max \<le> U64_MAX \<and> sorted_wrt (<) (map fst (capabilities info))
     \<and> list_all (\<lambda>l. case l of None \<Rightarrow> True | Some n \<Rightarrow> n \<le> usize_max) (limits_list (limits info))"

lemma map_usize_entry:
  assumes "map_get entries key = map_option (\<lambda>n. cbor_unsigned (of_nat n)) l"
    and "case l of None \<Rightarrow> True | Some n \<Rightarrow> n \<le> usize_max" and "usize_max \<le> U64_MAX"
  shows "map_usize usize_max entries key = l"
proof (cases l)
  case None
  then show ?thesis using assms(1) by (simp add: map_usize_def)
next
  case (Some n)
  then have "n < 2 ^ 64" using assms(2,3) by simp
  then have "unat (of_nat n :: u64) = n" by (simp add: unat_of_nat)
  then show ?thesis using assms Some by (simp add: map_usize_def)
qed

lemma limit_entries_get:
  "map_of (limit_entries l) LIMIT_MAX_NICK_BYTES = map_option (\<lambda>n. cbor_unsigned (of_nat n)) (max_nick_bytes l)"
  "map_of (limit_entries l) LIMIT_MAX_ROOM_NAME_BYTES = map_option (\<lambda>n. cbor_unsigned (of_nat n)) (max_room_name_bytes l)"
  "map_of (limit_entries l) LIMIT_MAX_MESSAGE_BODY_BYTES = map_option (\<lambda>n. cbor_unsigned (of_nat n)) (max_message_body_bytes l)"
  "map_of (limit_entries l) LIMIT_MAX_ROOMS_PER_SESSION = map_option (\<lambda>n. cbor_unsigned (of_nat n)) (max_rooms_per_session l)"
  "map_of (limit_entries l) LIMIT_RATE_MESSAGES_PER_MINUTE = map_option (\<lambda>n. cbor_unsigned (of_nat n)) (rate_messages_per_minute l)"
  by (simp_all add: limit_entries_def map_add_def body_keys split: option.split)

lemma parse_limits_entries:
  assumes "welcome_ok usize_max info"
  shows "parse_limits usize_max (integer_map (limit_entries (limits info))) = Some (limits info)"
  using assms map_usize_entry
  by (simp add: parse_limits_def integer_map_def limit_entries_get welcome_ok_def limits_list_def)

lemma limit_entries_Nil: "limit_entries l = [] \<Longrightarrow> l = hub_limits_default"
  by (simp add: limit_entries_def opt_entry_def hub_limits_default_def split: option.splits)

definition welcome_entries :: "welcome_info \<Rightarrow> (u64 \<times> cbor_value) list" where
  "welcome_entries info =
    opt_entry WELCOME_HUB_NAME CText (hub_name info) @ opt_entry WELCOME_HUB_VERSION CText (hub_version info)
    @ [(WELCOME_CAPABILITIES, integer_map (map (\<lambda>(cap, enabled). (cap, CBool enabled)) (capabilities info)))]
    @ (if limit_entries (limits info) = [] then [] else [(WELCOME_LIMITS, integer_map (limit_entries (limits info)))])"

lemma welcome_get:
  "map_of (welcome_entries info) WELCOME_HUB_NAME = map_option CText (hub_name info)"
  "map_of (welcome_entries info) WELCOME_HUB_VERSION = map_option CText (hub_version info)"
  "map_of (welcome_entries info) WELCOME_CAPABILITIES =
    Some (integer_map (map (\<lambda>(cap, enabled). (cap, CBool enabled)) (capabilities info)))"
  "map_of (welcome_entries info) WELCOME_LIMITS =
    (if limit_entries (limits info) = [] then None else Some (integer_map (limit_entries (limits info))))"
  by (simp_all add: welcome_entries_def map_add_def body_keys split: option.split)

lemma as_text_option: "Option.bind (map_option CText t) as_text = t"
  by (cases t) (simp_all add: as_text_def)

text \<open>What a hub announces in its welcome is what the client reads, defaults and absent limits included.\<close>

theorem welcome_round_trip:
  assumes "welcome_ok usize_max info" and "en_body env = Some (welcome_body info)"
  shows "parse_welcome usize_max env = info"
proof -
  have body: "en_body env = Some (CMap (map (\<lambda>(key, val). (cbor_unsigned key, val)) (welcome_entries info)))"
    using assms(2) by (simp add: welcome_body_def welcome_entries_def integer_map_def [of "_ @ _"])
  have caps: "as_integer_bool_map (integer_map (map (\<lambda>(cap, enabled). (cap, CBool enabled)) (capabilities info)))
      = Some (capabilities info)"
    using assms(1) bool_entries_sorted [of "[]"] by (simp add: as_integer_bool_map_def integer_map_def welcome_ok_def)
  have lims: "(case Option.bind (map_of (welcome_entries info) WELCOME_LIMITS) (parse_limits usize_max) of
      None \<Rightarrow> hub_limits_default | Some l \<Rightarrow> l) = limits info"
    using parse_limits_entries [OF assms(1)] limit_entries_Nil [of "limits info"] by (auto simp: welcome_get(4))
  show ?thesis
    unfolding parse_welcome_def body option.case cbor_value.case map_get_integer_map lims
    by (simp add: welcome_get(1-3) as_text_option caps)
qed

theorem welcome_round_trip_witness:
  "parse_welcome U64_MAX ((envelope_new (replicate 16 1) None Welcome (replicate 16 2))
      \<lparr>en_body := Some (welcome_body \<lparr>hub_name = Some (lit ''hub''), hub_version = None, capabilities = [(0, True), (3, False)],
         limits = hub_limits_default\<lparr>max_nick_bytes := Some 32\<rparr>\<rparr>)\<rparr>)
    = \<lparr>hub_name = Some (lit ''hub''), hub_version = None, capabilities = [(0, True), (3, False)],
         limits = hub_limits_default\<lparr>max_nick_bytes := Some 32\<rparr>\<rparr>"
  by (rule welcome_round_trip) (simp_all add: welcome_ok_def limits_list_def hub_limits_default_def)

section \<open>Resource bodies\<close>

definition resource_ok :: "resource_envelope \<Rightarrow> bool" where
  "resource_ok body \<longleftrightarrow> length (re_id body) = 8 \<and> re_size body \<noteq> 0
     \<and> (case re_sha256 body of None \<Rightarrow> True | Some sha \<Rightarrow> length sha = 32)"

definition resource_entries :: "resource_envelope \<Rightarrow> (u64 \<times> cbor_value) list" where
  "resource_entries body =
    [(RESOURCE_ID, CBytes (re_id body)), (RESOURCE_KIND, CText (re_kind body)), (RESOURCE_SIZE, cbor_unsigned (re_size body))]
    @ opt_entry RESOURCE_SHA256 CBytes (re_sha256 body) @ opt_entry RESOURCE_ENCODING CText (re_encoding body)"

lemma resource_get:
  "map_of (resource_entries body) RESOURCE_ID = Some (CBytes (re_id body))"
  "map_of (resource_entries body) RESOURCE_KIND = Some (CText (re_kind body))"
  "map_of (resource_entries body) RESOURCE_SIZE = Some (cbor_unsigned (re_size body))"
  "map_of (resource_entries body) RESOURCE_SHA256 = map_option CBytes (re_sha256 body)"
  "map_of (resource_entries body) RESOURCE_ENCODING = map_option CText (re_encoding body)"
  by (simp_all add: resource_entries_def map_add_def body_keys split: option.split)

text \<open>The body format is a codec: reading is defined on the body of any envelope.\<close>

definition read_resource :: "cbor_value \<Rightarrow> resource_envelope option" where
  "read_resource v =
    (case parse_resource_envelope ((envelope_new [] None ResourceEnvelope [])\<lparr>en_body := Some v\<rparr>) of
       Inl e \<Rightarrow> None | Inr body \<Rightarrow> Some body)"

lemma parse_resource_body:
  assumes "resource_ok body" and "en_body env = Some (resource_envelope_body body)"
  shows "parse_resource_envelope env = Inr body"
proof -
  let ?es = "map (\<lambda>(key, val). (cbor_unsigned key, val)) (resource_entries body)"
  have body: "en_body env = Some (CMap ?es)"
    using assms(2) by (simp add: resource_envelope_body_def resource_entries_def integer_map_def [of "_ @ _"] integer_map_def)
  have "fixed_bytes 8 ?es RESOURCE_ID = Inr (re_id body)" "required_text ?es RESOURCE_KIND = Inr (re_kind body)"
    "required_unsigned ?es RESOURCE_SIZE = Inr (re_size body)"
    "optional_fixed 32 ?es RESOURCE_SHA256 = Inr (re_sha256 body)"
    using assms(1) by (cases "re_sha256 body"; simp add: fixed_bytes_def required_text_def required_unsigned_def
        optional_fixed_def resource_get resource_ok_def)+
  then show ?thesis
    unfolding parse_resource_envelope_def body option.case cbor_value.case
    using assms(1) by (simp add: resource_ok_def resource_get as_text_option)
qed

interpretation resources: wire_codec resource_ok resource_envelope_body read_resource
  by unfold_locales (simp add: read_resource_def parse_resource_body)

text \<open>A resource announcement is read back as it was written; what is read is always well formed, and
  different announcements have different bodies.\<close>

theorem resource_round_trip:
  "(resource_ok body \<longrightarrow> en_body env = Some (resource_envelope_body body) \<longrightarrow> parse_resource_envelope env = Inr body)
    \<and> (parse_resource_envelope env = Inr body \<longrightarrow> resource_ok body)
    \<and> (resource_ok body \<longrightarrow> resource_ok other \<longrightarrow> resource_envelope_body body = resource_envelope_body other \<longrightarrow> body = other)"
proof -
  have "resource_ok body" if "parse_resource_envelope env = Inr body"
    using that by (auto simp: parse_resource_envelope_def resource_ok_def dest: fixed_bytes_length optional_fixed_length
        split: option.splits cbor_value.splits sum.splits if_splits)
  then show ?thesis using parse_resource_body resources.enc_inj by blast
qed

theorem resource_round_trip_witness:
  "parse_resource_envelope ((envelope_new [] None ResourceEnvelope [])
      \<lparr>en_body := Some (resource_envelope_body \<lparr>re_id = replicate 8 5, re_kind = lit ''notice'', re_size = 77,
         re_sha256 = Some (replicate 32 9), re_encoding = None\<rparr>)\<rparr>)
    = Inr \<lparr>re_id = replicate 8 5, re_kind = lit ''notice'', re_size = 77, re_sha256 = Some (replicate 32 9), re_encoding = None\<rparr>"
  by (rule mp [OF mp [OF conjunct1 [OF resource_round_trip]]]) (simp_all add: resource_ok_def)

section \<open>Members, names and times\<close>

lemma member_identities_list:
  "en_body env = Some (member_list members) \<Longrightarrow> \<forall>m \<in> set members. length m = 16 \<Longrightarrow> member_identities env = members"
proof (induction members arbitrary: env)
  case Nil
  then show ?case by (simp add: member_identities_def member_list_def map_filter_simps)
next
  case (Cons m members)
  then show ?case
    using Cons.IH [of "env\<lparr>en_body := Some (member_list members)\<rparr>"]
    by (simp add: member_identities_def member_list_def map_filter_simps member_of_def)
qed

lemma nickname_ok:
  assumes "normalize_nickname val max_bytes = Inr nickname"
  shows "trimmed nickname" "nickname \<noteq> []" "\<forall>c \<in> set nickname. c \<noteq> 10 \<and> c \<noteq> 13 \<and> c \<noteq> 0"
    "0 < max_bytes \<longrightarrow> str_len nickname \<le> max_bytes"
  using assms by (auto simp: normalize_nickname_def Let_def list_ex_iff split: if_splits)

text \<open>An accepted nickname is trimmed, on one line, within the limit of the hub, and accepted again as it is.\<close>

theorem nickname_projection:
  assumes "normalize_nickname val max_bytes = Inr nickname"
  shows "normalize_nickname nickname max_bytes = Inr nickname \<and> trimmed nickname \<and> nickname \<noteq> []
    \<and> (\<forall>c \<in> set nickname. c \<noteq> 10 \<and> c \<noteq> 13 \<and> c \<noteq> 0) \<and> (0 < max_bytes \<longrightarrow> str_len nickname \<le> max_bytes)"
proof -
  note ok = nickname_ok [OF assms]
  have "normalize_nickname nickname max_bytes = Inr nickname"
    unfolding normalize_nickname_def Let_def str_trim_trimmed [OF ok(1)] using ok(2-4) by (auto simp: list_ex_iff)
  then show ?thesis using ok by blast
qed

theorem nickname_projection_witness:
  "normalize_nickname (lit ''rat'') 16 = Inr (lit ''rat'')"
  using nickname_projection [of "lit '' rat''" 16 "lit ''rat''"]
  by (simp add: normalize_nickname_def Let_def str_trim_def is_whitespace_def lit_Cons utf8_width_def)

lemma sanitize_bound: "sanitize_display_timestamp_ms timestamp received_at \<le> MAX_DISPLAY_TIMESTAMP_MS"
  by (simp add: sanitize_display_timestamp_ms_def)

end
