(* ===== verification/Tokens.thy ===== *)
theory Tokens
  imports Main
begin

text \<open>
  Tokens that are issued once: several components hand a number to the outside, an Activity
  generation, the revision of a delivery, the revision of a draft, and later accept a request only
  when the number it brings is still live.  The interface asks that every step issues new numbers
  only above the last one; its clients get that a retired number is never live again.
\<close>

inductive steps :: "('s \<Rightarrow> 's \<Rightarrow> bool) \<Rightarrow> 's \<Rightarrow> 's \<Rightarrow> bool" for r :: "'s \<Rightarrow> 's \<Rightarrow> bool" where
  steps_refl [intro!, simp]: "steps r s s"
| steps_step: "steps r s t \<Longrightarrow> r t u \<Longrightarrow> steps r s u"

lemma steps_trans: "steps r t u \<Longrightarrow> steps r s t \<Longrightarrow> steps r s u"
  by (induction rule: steps.induct) (auto intro: steps_step)

lemma steps_one: "r s t \<Longrightarrow> steps r s t"
  by (rule steps_step [OF steps_refl])

lemma steps_invariant: "steps r s t \<Longrightarrow> I s \<Longrightarrow> (\<And>s t. r s t \<Longrightarrow> I s \<Longrightarrow> I t) \<Longrightarrow> I t"
  by (induction rule: steps.induct) auto

locale fresh_tokens =
  fixes ok :: "'s \<Rightarrow> bool" and step :: "'s \<Rightarrow> 's \<Rightarrow> bool" and last_token :: "'s \<Rightarrow> nat" and live :: "'s \<Rightarrow> nat set"
  assumes ok_step: "ok s \<Longrightarrow> step s t \<Longrightarrow> ok t"
    and live_issued: "ok s \<Longrightarrow> g \<in> live s \<Longrightarrow> g \<le> last_token s"
    and last_mono: "ok s \<Longrightarrow> step s t \<Longrightarrow> last_token s \<le> last_token t"
    and fresh: "ok s \<Longrightarrow> step s t \<Longrightarrow> g \<in> live t \<Longrightarrow> g \<in> live s \<or> last_token s < g"
begin

lemma ok_steps: "steps step s t \<Longrightarrow> ok s \<Longrightarrow> ok t"
  by (induction rule: steps.induct) (auto intro: ok_step)

lemma last_mono_steps: "steps step s t \<Longrightarrow> ok s \<Longrightarrow> last_token s \<le> last_token t"
proof (induction rule: steps.induct)
  case (steps_step s t u)
  then show ?case using ok_steps last_mono le_trans by blast
qed simp

lemma retired: "steps step s t \<Longrightarrow> ok s \<Longrightarrow> g \<le> last_token s \<Longrightarrow> g \<notin> live s \<Longrightarrow> g \<notin> live t"
proof (induction rule: steps.induct)
  case (steps_step s t u)
  have "ok t" using ok_steps steps_step by blast
  moreover have "g \<le> last_token t" using last_mono_steps steps_step le_trans by blast
  ultimately show ?case using fresh [of t u g] steps_step by auto
qed simp

text \<open>A token that was live and is no longer is retired for good.\<close>

lemma never_again:
  "ok s \<Longrightarrow> g \<in> live s \<Longrightarrow> steps step s t \<Longrightarrow> g \<notin> live t \<Longrightarrow> steps step t u \<Longrightarrow> g \<notin> live u"
  using retired [of t u g] ok_steps [of s t] live_issued [of s g] last_mono_steps [of s t] by force

end

end
