(* ===== verification/Android_Lifecycle.thy ===== *)
theory Android_Lifecycle
  imports Tokens Rs_Text
begin

text \<open>
  The authority over the Android window (\<open>android_lifecycle.rs\<close>, \<open>Lifecycle\<close>): which Activity
  generation owns the presentation, when the process may restore its window, and when it may exit.
  Generations are \<open>u64\<close> values that the code only compares, here natural numbers.  Operations
  that change the state return their result with the new state; \<open>transition\<close> returns what it
  publishes to the native side, if anything.
\<close>

section \<open>State and operations\<close>

record activity_owner =
  ow_generation :: nat
  ow_activity_id :: int
  ow_resumed :: bool
  ow_webview_ready :: bool

record lifecycle =
  lc_latest :: nat
  lc_activity :: "activity_owner option"
  lc_restore :: "nat option"
  lc_ready :: bool
  lc_exiting :: bool

definition lifecycle_default :: lifecycle where
  "lifecycle_default = \<lparr>lc_latest = 0, lc_activity = None, lc_restore = None, lc_ready = False, lc_exiting = False\<rparr>"

datatype native_event = NativeReady | NativeResumed nat bool | NativeDetached nat

definition presentation_owner :: "lifecycle \<Rightarrow> ustr option \<Rightarrow> nat option" where
  "presentation_owner lc expected =
    (if \<not> lc_ready lc \<or> lc_exiting lc then None
     else case lc_activity lc of
       None \<Rightarrow> None
     | Some owner \<Rightarrow>
         if \<not> (ow_resumed owner \<and> ow_webview_ready owner) then None
         else if (case expected of None \<Rightarrow> False | Some e \<Rightarrow> dec_string (ow_generation owner) \<noteq> e) then None
         else Some (ow_generation owner))"

definition with_presentation_owner :: "lifecycle \<Rightarrow> ustr option \<Rightarrow> (nat \<Rightarrow> 'a) \<Rightarrow> 'a option" where
  "with_presentation_owner lc expected transaction = map_option transaction (presentation_owner lc expected)"

definition owner_is :: "lifecycle \<Rightarrow> nat \<Rightarrow> bool" where
  "owner_is lc generation = (case lc_activity lc of None \<Rightarrow> False | Some owner \<Rightarrow> ow_generation owner = generation)"

definition attach :: "nat \<Rightarrow> int \<Rightarrow> bool \<Rightarrow> lifecycle \<Rightarrow> bool \<times> lifecycle" where
  "attach generation activity_id webview_ready lc =
    (if generation = 0 \<or> generation \<le> lc_latest lc \<or> lc_exiting lc then (False, lc)
     else (True, lc\<lparr>lc_latest := generation,
       lc_activity := Some \<lparr>ow_generation = generation, ow_activity_id = activity_id, ow_resumed = False,
                           ow_webview_ready = webview_ready\<rparr>,
       lc_restore := None\<rparr>))"

definition detach :: "nat \<Rightarrow> lifecycle \<Rightarrow> bool \<times> lifecycle" where
  "detach generation lc =
    (if owner_is lc generation then (True, lc\<lparr>lc_activity := None, lc_restore := None\<rparr>) else (False, lc))"

definition set_resumed :: "nat \<Rightarrow> bool \<Rightarrow> lifecycle \<Rightarrow> bool \<times> lifecycle" where
  "set_resumed generation resumed lc =
    (if owner_is lc generation
     then (\<not> lc_exiting lc, lc\<lparr>lc_activity := map_option (\<lambda>owner. owner\<lparr>ow_resumed := resumed\<rparr>) (lc_activity lc)\<rparr>)
     else (False, lc))"

definition set_webview_ready :: "nat \<Rightarrow> lifecycle \<Rightarrow> bool \<times> lifecycle" where
  "set_webview_ready generation lc =
    (if owner_is lc generation
     then (True, lc\<lparr>lc_activity := map_option (\<lambda>owner. owner\<lparr>ow_webview_ready := True\<rparr>) (lc_activity lc)\<rparr>)
     else (False, lc))"

definition foreground :: "lifecycle \<Rightarrow> bool" where
  "foreground lc \<longleftrightarrow> \<not> lc_exiting lc \<and> (case lc_activity lc of None \<Rightarrow> False | Some owner \<Rightarrow> ow_resumed owner)"

definition transition :: "native_event \<Rightarrow> lifecycle \<Rightarrow> bool option \<times> lifecycle" where
  "transition event lc =
    (let (accepted, lc') = (case event of
           NativeReady \<Rightarrow> (True, lc\<lparr>lc_ready := True\<rparr>)
         | NativeResumed generation resumed \<Rightarrow> set_resumed generation resumed lc
         | NativeDetached generation \<Rightarrow> detach generation lc) in
     (if accepted then Some (foreground lc') else None, lc'))"

definition prevent_implicit_exit :: "lifecycle \<Rightarrow> bool" where
  "prevent_implicit_exit lc \<longleftrightarrow> lc_ready lc \<and> \<not> lc_exiting lc"

definition request_restore :: "bool \<Rightarrow> lifecycle \<Rightarrow> activity_owner option \<times> lifecycle" where
  "request_restore window_exists lc =
    (if \<not> prevent_implicit_exit lc \<or> window_exists then (None, lc)
     else case lc_activity lc of
       None \<Rightarrow> (None, lc)
     | Some owner \<Rightarrow>
         if lc_restore lc = Some (ow_generation owner) then (None, lc)
         else (Some owner, lc\<lparr>lc_restore := Some (ow_generation owner)\<rparr>))"

definition begin_restore :: "activity_owner \<Rightarrow> bool \<Rightarrow> lifecycle \<Rightarrow> bool \<times> lifecycle" where
  "begin_restore owner window_exists lc =
    (if lc_restore lc \<noteq> Some (ow_generation owner) then (False, lc)
     else (prevent_implicit_exit lc \<and> \<not> window_exists
           \<and> (case lc_activity lc of
                None \<Rightarrow> False
              | Some current \<Rightarrow> ow_generation current = ow_generation owner \<and> ow_activity_id current = ow_activity_id owner),
           lc\<lparr>lc_restore := None\<rparr>))"

definition abandon_restore :: "nat \<Rightarrow> lifecycle \<Rightarrow> lifecycle" where
  "abandon_restore generation lc =
    (if lc_restore lc = Some generation then lc\<lparr>lc_restore := None\<rparr> else lc)"

definition exit_lifecycle :: "lifecycle \<Rightarrow> lifecycle" where
  "exit_lifecycle lc = lc\<lparr>lc_exiting := True, lc_restore := None\<rparr>"

section \<open>The step relation\<close>

text \<open>The callbacks of the native side and of the event loop, in any order.\<close>

inductive lifecycle_step :: "lifecycle \<Rightarrow> lifecycle \<Rightarrow> bool" where
  step_transition: "lifecycle_step lc (snd (transition event lc))"
| step_attach: "lifecycle_step lc (snd (attach generation activity_id webview_ready lc))"
| step_webview: "lifecycle_step lc (snd (set_webview_ready generation lc))"
| step_request: "lifecycle_step lc (snd (request_restore window_exists lc))"
| step_begin: "lifecycle_step lc (snd (begin_restore owner window_exists lc))"
| step_abandon: "lifecycle_step lc (abandon_restore generation lc)"
| step_exit: "lifecycle_step lc (exit_lifecycle lc)"

inductive_cases lifecycle_stepE: "lifecycle_step lc lc'"

abbreviation reachable_lifecycle :: "lifecycle \<Rightarrow> bool" where
  "reachable_lifecycle \<equiv> steps lifecycle_step lifecycle_default"

lemmas lifecycle_ops = attach_def detach_def set_resumed_def set_webview_ready_def transition_def
  request_restore_def begin_restore_def abandon_restore_def exit_lifecycle_def owner_is_def prevent_implicit_exit_def

definition owner_generation :: "lifecycle \<Rightarrow> nat option" where
  "owner_generation lc = map_option ow_generation (lc_activity lc)"

definition lifecycle_ok :: "lifecycle \<Rightarrow> bool" where
  "lifecycle_ok lc \<longleftrightarrow>
    (case owner_generation lc of None \<Rightarrow> True | Some g \<Rightarrow> g = lc_latest lc \<and> 0 < g)
    \<and> (case lc_restore lc of None \<Rightarrow> True | Some g \<Rightarrow> owner_generation lc = Some g \<and> lc_ready lc \<and> \<not> lc_exiting lc)"

lemma lifecycle_ok_default: "lifecycle_ok lifecycle_default"
  by (simp add: lifecycle_ok_def lifecycle_default_def owner_generation_def)

lemma lifecycle_ok_step: "lifecycle_step lc lc' \<Longrightarrow> lifecycle_ok lc \<Longrightarrow> lifecycle_ok lc'"
proof (induction rule: lifecycle_step.induct)
  case (step_transition lc event)
  then show ?case
    by (cases event) (auto simp: lifecycle_ok_def lifecycle_ops owner_generation_def split: option.splits)
qed (auto simp: lifecycle_ok_def lifecycle_ops owner_generation_def split: option.splits)

lemma latest_mono: "lifecycle_step lc lc' \<Longrightarrow> lc_latest lc \<le> lc_latest lc'"
proof (induction rule: lifecycle_step.induct)
  case (step_transition lc event)
  then show ?case by (cases event) (auto simp: lifecycle_ops)
qed (auto simp: lifecycle_ops split: option.split)

lemma owner_fresh:
  "lifecycle_step lc lc' \<Longrightarrow> owner_generation lc' = Some g \<Longrightarrow> owner_generation lc = Some g \<or> lc_latest lc < g"
proof (induction rule: lifecycle_step.induct)
  case (step_transition lc event)
  then show ?case by (cases event) (auto simp: lifecycle_ops owner_generation_def split: if_splits)
qed (auto simp: lifecycle_ops owner_generation_def split: if_splits option.splits)

lemma exiting_step: "lifecycle_step lc lc' \<Longrightarrow> lc_exiting lc \<Longrightarrow> lc_exiting lc'"
proof (induction rule: lifecycle_step.induct)
  case (step_transition lc event)
  then show ?case by (cases event) (auto simp: lifecycle_ops)
qed (auto simp: lifecycle_ops split: option.split)

interpretation generations: fresh_tokens lifecycle_ok lifecycle_step lc_latest "\<lambda>lc. set_option (owner_generation lc)"
proof unfold_locales
  show "lifecycle_ok lc \<Longrightarrow> lifecycle_step lc lc' \<Longrightarrow> lifecycle_ok lc'" for lc lc' by (rule lifecycle_ok_step)
  show "lifecycle_ok lc \<Longrightarrow> g \<in> set_option (owner_generation lc) \<Longrightarrow> g \<le> lc_latest lc" for lc g
    by (simp add: lifecycle_ok_def)
qed (auto dest: latest_mono owner_fresh)

text \<open>C29: in every reachable state the owner is the latest generation, and a restoration is pending only
  for that owner, after the runtime is ready and before the process exits.\<close>

theorem reachable_lifecycle_ok:
  assumes "reachable_lifecycle lc"
  shows "lifecycle_ok lc"
  using generations.ok_steps [OF assms lifecycle_ok_default] .

theorem reachable_lifecycle_ok_witness:
  "lifecycle_ok (snd (attach 3 7 True (snd (transition NativeReady lifecycle_default))))"
  by (rule reachable_lifecycle_ok, rule steps_step [OF steps_one], rule step_transition, rule step_attach)

text \<open>An Activity that has lost the presentation never gets it back: whatever happens later, a request
  that carries its generation is refused.\<close>

theorem retired_activity_refused:
  assumes "reachable_lifecycle lc" and "owner_generation lc = Some g"
    and "steps lifecycle_step lc lc'" and "owner_generation lc' \<noteq> Some g" and "steps lifecycle_step lc' lc''"
  shows "with_presentation_owner lc'' (Some (dec_string g)) transaction = None"
proof -
  have "lifecycle_ok lc" using generations.ok_steps [OF assms(1) lifecycle_ok_default] .
  then have "g \<notin> set_option (owner_generation lc'')"
    using generations.never_again [OF _ _ assms(3) _ assms(5)] assms(2,4) by simp
  then show ?thesis
    by (auto simp: with_presentation_owner_def presentation_owner_def owner_generation_def split: option.split)
qed

theorem retired_activity_refused_witness:
  "with_presentation_owner (snd (attach 2 1 True (snd (attach 1 1 True lifecycle_default)))) (Some (dec_string 1)) (\<lambda>g. g) = None"
proof (rule retired_activity_refused)
  show "reachable_lifecycle (snd (attach 1 1 True lifecycle_default))" by (rule steps_one, rule step_attach)
  show "steps lifecycle_step (snd (attach 1 1 True lifecycle_default)) (snd (attach 2 1 True (snd (attach 1 1 True lifecycle_default))))"
    by (rule steps_one, rule step_attach)
qed (simp_all add: attach_def lifecycle_default_def owner_generation_def)

lemma exiting_steps: "steps lifecycle_step lc lc' \<Longrightarrow> lc_exiting lc \<Longrightarrow> lc_exiting lc'"
  by (induction rule: steps.induct) (auto intro: exiting_step)

text \<open>An explicit exit is final: no presentation, no attachment, no foreground signal and no restoration
  happens after it.\<close>

theorem exit_is_final:
  assumes "steps lifecycle_step (exit_lifecycle lc) lc'"
  shows "with_presentation_owner lc' expected transaction = None \<and> fst (request_restore window_exists lc') = None
    \<and> \<not> fst (begin_restore owner window_exists lc') \<and> \<not> fst (attach generation activity_id webview_ready lc')
    \<and> fst (transition event lc') \<noteq> Some True \<and> \<not> prevent_implicit_exit lc'"
proof -
  have ex: "lc_exiting lc'" using exiting_steps [OF assms] by (simp add: exit_lifecycle_def)
  then have "fst (transition event lc') \<noteq> Some True"
    by (cases event) (auto simp: transition_def foreground_def set_resumed_def detach_def)
  with ex show ?thesis
    by (simp add: with_presentation_owner_def presentation_owner_def request_restore_def begin_restore_def attach_def
        prevent_implicit_exit_def)
qed

theorem exit_is_final_witness:
  "with_presentation_owner (snd (attach 4 1 True (exit_lifecycle lifecycle_default))) None (\<lambda>g. g) = None"
  by (rule conjunct1 [OF exit_is_final], rule steps_one, rule step_attach)

section \<open>Restorations\<close>

text \<open>Whether an operation is a granted request, and whether it is a restoration that goes ahead.\<close>

datatype lifecycle_op = OpNative native_event | OpAttach nat int bool | OpWebview nat | OpRequest bool
  | OpBegin activity_owner bool | OpAbandon nat | OpExit

fun exec :: "lifecycle_op \<Rightarrow> lifecycle \<Rightarrow> lifecycle" where
  "exec (OpNative event) lc = snd (transition event lc)"
| "exec (OpAttach generation activity_id ready) lc = snd (attach generation activity_id ready lc)"
| "exec (OpWebview generation) lc = snd (set_webview_ready generation lc)"
| "exec (OpRequest window_exists) lc = snd (request_restore window_exists lc)"
| "exec (OpBegin owner window_exists) lc = snd (begin_restore owner window_exists lc)"
| "exec (OpAbandon generation) lc = abandon_restore generation lc"
| "exec OpExit lc = exit_lifecycle lc"

fun granted :: "lifecycle_op \<Rightarrow> lifecycle \<Rightarrow> bool" where
  "granted (OpRequest window_exists) lc = (fst (request_restore window_exists lc) \<noteq> None)"
| "granted _ lc = False"

fun begun :: "lifecycle_op \<Rightarrow> lifecycle \<Rightarrow> bool" where
  "begun (OpBegin owner window_exists) lc = fst (begin_restore owner window_exists lc)"
| "begun _ lc = False"

fun tally :: "(lifecycle_op \<Rightarrow> lifecycle \<Rightarrow> bool) \<Rightarrow> lifecycle_op list \<Rightarrow> lifecycle \<Rightarrow> nat" where
  "tally P [] lc = 0"
| "tally P (op # ops) lc = of_bool (P op lc) + tally P ops (exec op lc)"

lemma exec_step: "lifecycle_step lc (exec op lc)"
  by (cases op) (auto intro: lifecycle_step.intros)

lemma restore_credit:
  "of_bool (begun op lc) + of_bool (lc_restore (exec op lc) \<noteq> None)
    \<le> of_bool (granted op lc) + (of_bool (lc_restore lc \<noteq> None) :: nat)"
proof (cases op)
  case (OpNative event)
  then show ?thesis by (cases event) (auto simp: lifecycle_ops)
qed (auto simp: lifecycle_ops split: option.splits)

text \<open>Whatever the order of callbacks, no more windows are restored than restorations were granted, so
  requests that coincide for one generation build one window.\<close>

theorem restores_at_most_granted:
  "tally begun ops lc \<le> tally granted ops lc + of_bool (lc_restore lc \<noteq> None)"
proof (induction ops arbitrary: lc)
  case (Cons op ops)
  show ?case using Cons.IH [of "exec op lc"] restore_credit [of op lc] by simp
qed simp

end
