(* ===== verification/Deep_Link.thy ===== *)
theory Deep_Link
  imports Android_Lifecycle Rrc
begin

text \<open>
  Links that the platform delivers: the canonical channel share (\<open>commands/channels.rs\<close>), the
  canonical paper link (\<open>paper.rs\<close>), and the two inboxes that hold the newest link until the
  frontend acknowledges it (\<open>channel_deep_link.rs\<close>, \<open>paper_deep_link.rs\<close>).  The \<open>url\<close> crate is a
  pair of parameters: \<open>parse_url\<close> is \<open>Url::parse\<close> with the accessors the code reads, \<open>share_url\<close>
  the text of \<open>ratspeak://channel\<close> with a query appended.  \<open>lower\<close> is the Unicode lower-casing.
\<close>

section \<open>Checks on text\<close>

definition validate_hex :: "ustr \<Rightarrow> nat \<Rightarrow> nat \<Rightarrow> bool" where
  "validate_hex val min_len max_len \<longleftrightarrow> \<not> (str_len val < min_len \<or> max_len < str_len val) \<and> list_all is_hex_char val"

section \<open>Channel shares\<close>

definition CHANNEL_SHARE_SCHEME :: ustr where "CHANNEL_SHARE_SCHEME = lit ''ratspeak''"
definition CHANNEL_SHARE_HOST :: ustr where "CHANNEL_SHARE_HOST = lit ''channel''"
definition CHANNEL_SHARE_VERSION :: ustr where "CHANNEL_SHARE_VERSION = lit ''1''"
definition CHANNEL_SHARE_FORMAT :: ustr where "CHANNEL_SHARE_FORMAT = lit ''ratspeak.channel.v1''"
definition CHANNEL_SHARE_MAX_BYTES :: nat where "CHANNEL_SHARE_MAX_BYTES = 230"
definition CHANNEL_SHARE_MAX_ROOM_BYTES :: nat where "CHANNEL_SHARE_MAX_ROOM_BYTES = 64"

lemmas share_consts = CHANNEL_SHARE_SCHEME_def CHANNEL_SHARE_HOST_def CHANNEL_SHARE_VERSION_def
  CHANNEL_SHARE_FORMAT_def CHANNEL_SHARE_MAX_BYTES_def CHANNEL_SHARE_MAX_ROOM_BYTES_def

record share_target =
  st_format :: ustr
  st_payload :: ustr
  st_hub :: ustr
  st_room :: "ustr option"

record url_parts =
  up_scheme :: ustr
  up_host :: "ustr option"
  up_username :: ustr
  up_password :: "ustr option"
  up_port :: "nat option"
  up_path :: ustr
  up_fragment :: "ustr option"
  up_query :: "(ustr \<times> ustr) list"

datatype share_error = BadHub | BadRoom protocol_error | RoomControl | NoUrl | TooLarge | NotCanonical | EmptyOrTooLarge
  | NotAUrl | NotATarget | UnsupportedField | RepeatedField | UnsupportedVersion | MissingHub

definition share_room :: "(ustr \<Rightarrow> ustr) \<Rightarrow> ustr option \<Rightarrow> share_error + ustr option" where
  "share_room lower room =
    (case room of
       None \<Rightarrow> Inr None
     | Some r \<Rightarrow>
         (case normalize_room lower r CHANNEL_SHARE_MAX_ROOM_BYTES of
            Inl e \<Rightarrow> Inl (BadRoom e)
          | Inr r' \<Rightarrow> if list_ex is_control r' then Inl RoomControl else Inr (Some r')))"

definition share_query :: "ustr \<Rightarrow> ustr option \<Rightarrow> (ustr \<times> ustr) list" where
  "share_query hub room =
    [(lit ''v'', CHANNEL_SHARE_VERSION), (lit ''hub'', hub)] @ (case room of None \<Rightarrow> [] | Some r \<Rightarrow> [(lit ''room'', r)])"

definition build_channel_share_target ::
  "(ustr \<Rightarrow> ustr) \<Rightarrow> ((ustr \<times> ustr) list \<Rightarrow> ustr option) \<Rightarrow> ustr \<Rightarrow> ustr option \<Rightarrow> share_error + share_target" where
  "build_channel_share_target lower share_url hub0 room0 =
    (let hub = to_ascii_lowercase (str_trim hub0) in
     if \<not> validate_hex hub 32 32 then Inl BadHub
     else case share_room lower room0 of
       Inl e \<Rightarrow> Inl e
     | Inr room \<Rightarrow>
         (case share_url (share_query hub room) of
            None \<Rightarrow> Inl NoUrl
          | Some payload \<Rightarrow>
              if CHANNEL_SHARE_MAX_BYTES < str_len payload then Inl TooLarge
              else Inr \<lparr>st_format = CHANNEL_SHARE_FORMAT, st_payload = payload, st_hub = hub, st_room = room\<rparr>))"

text \<open>The query pairs, read into the three slots.\<close>

record share_slots =
  sl_version :: "ustr option"
  sl_hub :: "ustr option"
  sl_room :: "ustr option"

fun read_query :: "(ustr \<times> ustr) list \<Rightarrow> share_slots \<Rightarrow> share_error + share_slots" where
  "read_query [] sl = Inr sl"
| "read_query ((key, val) # pairs) sl =
    (if key = lit ''v'' then
       (if sl_version sl \<noteq> None then Inl RepeatedField else read_query pairs (sl\<lparr>sl_version := Some val\<rparr>))
     else if key = lit ''hub'' then
       (if sl_hub sl \<noteq> None then Inl RepeatedField else read_query pairs (sl\<lparr>sl_hub := Some val\<rparr>))
     else if key = lit ''room'' then
       (if sl_room sl \<noteq> None then Inl RepeatedField else read_query pairs (sl\<lparr>sl_room := Some val\<rparr>))
     else Inl UnsupportedField)"

definition share_url_ok :: "url_parts \<Rightarrow> bool" where
  "share_url_ok url \<longleftrightarrow> up_scheme url = CHANNEL_SHARE_SCHEME \<and> up_host url = Some CHANNEL_SHARE_HOST
     \<and> up_username url = [] \<and> up_password url = None \<and> up_port url = None
     \<and> up_path url \<in> set [[], lit ''/''] \<and> up_fragment url = None"

definition parse_channel_share_target ::
  "(ustr \<Rightarrow> ustr) \<Rightarrow> ((ustr \<times> ustr) list \<Rightarrow> ustr option) \<Rightarrow> (ustr \<Rightarrow> url_parts option) \<Rightarrow> ustr
     \<Rightarrow> share_error + share_target" where
  "parse_channel_share_target lower share_url parse_url payload =
    (if payload \<noteq> str_trim payload then Inl NotCanonical
     else if payload = [] \<or> CHANNEL_SHARE_MAX_BYTES < str_len payload then Inl EmptyOrTooLarge
     else case parse_url payload of
       None \<Rightarrow> Inl NotAUrl
     | Some url \<Rightarrow>
         if \<not> share_url_ok url then Inl NotATarget
         else case read_query (up_query url) \<lparr>sl_version = None, sl_hub = None, sl_room = None\<rparr> of
           Inl e \<Rightarrow> Inl e
         | Inr sl \<Rightarrow>
             if sl_version sl \<noteq> Some CHANNEL_SHARE_VERSION then Inl UnsupportedVersion
             else case sl_hub sl of
               None \<Rightarrow> Inl MissingHub
             | Some hub \<Rightarrow>
                 (case build_channel_share_target lower share_url hub (sl_room sl) of
                    Inl e \<Rightarrow> Inl e
                  | Inr target \<Rightarrow> if st_payload target \<noteq> payload then Inl NotCanonical else Inr target))"

section \<open>The channel inbox\<close>

record 't pending_share =
  ps_revision :: nat
  ps_target :: 't

record 't inbox_state =
  is_last_revision :: nat
  is_pending :: "'t pending_share option"

record 't share_delivery =
  sd_revision :: ustr
  sd_generation :: "ustr option"
  sd_target :: 't

definition inbox_default :: "'t inbox_state" where
  "inbox_default = \<lparr>is_last_revision = 0, is_pending = None\<rparr>"

fun latest_target :: "('p \<Rightarrow> 'e + 't) \<Rightarrow> 'p list \<Rightarrow> 't option \<Rightarrow> 't option" where
  "latest_target parse [] latest = latest"
| "latest_target parse (payload # payloads) latest =
    (case parse payload of
       Inr target \<Rightarrow> latest_target parse payloads (Some target)
     | Inl _ \<Rightarrow> latest_target parse payloads latest)"

definition accept_payloads :: "('p \<Rightarrow> 'e + 't) \<Rightarrow> 'p list \<Rightarrow> 't inbox_state \<Rightarrow> bool \<times> 't inbox_state" where
  "accept_payloads parse payloads st =
    (case latest_target parse payloads None of
       None \<Rightarrow> (False, st)
     | Some latest \<Rightarrow>
         if (case is_pending st of None \<Rightarrow> False | Some pending \<Rightarrow> ps_target pending = latest) then (False, st)
         else case checked_add U64_MAX (is_last_revision st) 1 of
           None \<Rightarrow> (False, st)
         | Some revision \<Rightarrow>
             (True, \<lparr>is_last_revision = revision, is_pending = Some \<lparr>ps_revision = revision, ps_target = latest\<rparr>\<rparr>))"

definition inbox_peek :: "'t inbox_state \<Rightarrow> 't share_delivery option" where
  "inbox_peek st =
    map_option (\<lambda>pending. \<lparr>sd_revision = dec_string (ps_revision pending), sd_generation = None,
      sd_target = ps_target pending\<rparr>) (is_pending st)"

definition inbox_acknowledge :: "ustr \<Rightarrow> 't inbox_state \<Rightarrow> bool \<times> 't inbox_state" where
  "inbox_acknowledge revision st =
    (if (case is_pending st of None \<Rightarrow> False | Some pending \<Rightarrow> dec_string (ps_revision pending) = revision)
     then (True, st\<lparr>is_pending := None\<rparr>) else (False, st))"

text \<open>The commands of the frontend, on Android under the authority of the lifecycle.\<close>

definition peek_native_channel_share :: "lifecycle option \<Rightarrow> 't inbox_state \<Rightarrow> 't share_delivery option" where
  "peek_native_channel_share android st =
    (case android of
       None \<Rightarrow> inbox_peek st
     | Some lc \<Rightarrow>
         Option.bind (with_presentation_owner lc None
           (\<lambda>generation. map_option (\<lambda>delivery. delivery\<lparr>sd_generation := Some (dec_string generation)\<rparr>) (inbox_peek st))) id)"

definition ack_native_channel_share ::
  "lifecycle option \<Rightarrow> ustr \<Rightarrow> ustr option \<Rightarrow> 't inbox_state \<Rightarrow> bool \<times> 't inbox_state" where
  "ack_native_channel_share android revision generation st =
    (case android of
       None \<Rightarrow> if generation = None then inbox_acknowledge revision st else (False, st)
     | Some lc \<Rightarrow>
         (case generation of
            None \<Rightarrow> (False, st)
          | Some g \<Rightarrow>
              (case with_presentation_owner lc (Some g) (\<lambda>_. inbox_acknowledge revision st) of
                 None \<Rightarrow> (False, st) | Some result \<Rightarrow> result)))"

section \<open>Paper links\<close>

definition PAPER_URI_INPUT_LIMIT :: nat where "PAPER_URI_INPUT_LIMIT = 16384"
definition URI_PREFIX :: ustr where "URI_PREFIX = lit ''lxm://''"

definition is_ascii_whitespace :: "nat \<Rightarrow> bool" where
  "is_ascii_whitespace c \<longleftrightarrow> c \<in> {9, 10, 12, 13, 32}"

definition trim_end_matches :: "nat \<Rightarrow> ustr \<Rightarrow> ustr" where
  "trim_end_matches c s = rev (dropWhile (\<lambda>x. x = c) (rev s))"

definition normalize_paper_uri :: "ustr \<Rightarrow> ustr option" where
  "normalize_paper_uri input =
    (if PAPER_URI_INPUT_LIMIT < str_len input then None
     else case str_split_bytes 6 (str_trim input) of
       None \<Rightarrow> None
     | Some (scheme, rest) \<Rightarrow>
         if \<not> eq_ignore_ascii_case scheme URI_PREFIX then None
         else
           let data = trim_end_matches 61 (filter (\<lambda>c. c \<noteq> 47 \<and> \<not> is_ascii_whitespace c) rest) in
           if data = [] then None else Some (URI_PREFIX @ data))"

definition paper_accept :: "ustr list \<Rightarrow> ustr option \<Rightarrow> bool \<times> ustr option" where
  "paper_accept payloads pending =
    (case List.map_filter normalize_paper_uri payloads of
       [] \<Rightarrow> (False, pending)
     | links \<Rightarrow> if pending = Some (last links) then (False, pending) else (True, Some (last links)))"

definition peek_native_paper_link :: "lifecycle option \<Rightarrow> ustr option \<Rightarrow> ustr option" where
  "peek_native_paper_link android pending =
    (case android of
       None \<Rightarrow> pending
     | Some lc \<Rightarrow> Option.bind (with_presentation_owner lc None (\<lambda>_. pending)) id)"

definition paper_acknowledge :: "ustr \<Rightarrow> ustr option \<Rightarrow> bool \<times> ustr option" where
  "paper_acknowledge uri pending = (if pending = Some uri then (True, None) else (False, pending))"

end
