(* ===== verification/Deep_Link_Props.thy ===== *)
theory Deep_Link_Props
  imports Deep_Link
begin

text \<open>
  Properties of the delivered links: an inbox never loses a newer link to the acknowledgment of an
  older one, shares and paper links have one canonical form, and the Android authority is respected.
\<close>

section \<open>The contract of an inbox\<close>

locale link_inbox =
  fixes ok :: "'s \<Rightarrow> bool" and accept :: "'p list \<Rightarrow> 's \<Rightarrow> bool \<times> 's"
    and token :: "'s \<Rightarrow> ustr option" and ack :: "ustr \<Rightarrow> 's \<Rightarrow> bool \<times> 's"
  assumes ack_iff: "fst (ack k s) \<longleftrightarrow> token s = Some k"
    and ack_yes: "token s = Some k \<Longrightarrow> token (snd (ack k s)) = None"
    and ack_no: "token s \<noteq> Some k \<Longrightarrow> snd (ack k s) = s"
    and ack_keeps: "ok s \<Longrightarrow> ok (snd (ack k s))"
    and accept_no: "\<not> fst (accept ps s) \<Longrightarrow> snd (accept ps s) = s"
    and accept_yes: "ok s \<Longrightarrow> fst (accept ps s) \<Longrightarrow>
      token (snd (accept ps s)) \<noteq> None \<and> token (snd (accept ps s)) \<noteq> token s"
    and accept_keeps: "ok s \<Longrightarrow> ok (snd (accept ps s))"
begin

lemma late_ack: "ok s \<Longrightarrow> token s = Some k \<Longrightarrow> fst (accept ps s) \<Longrightarrow>
    ack k (snd (accept ps s)) = (False, snd (accept ps s))"
  using accept_yes [of s ps] ack_iff [of k "snd (accept ps s)"] ack_no [of "snd (accept ps s)" k]
  by (metis prod.collapse)

lemma ack_once: "token s = Some k \<Longrightarrow> \<not> fst (ack k (snd (ack k s)))"
  using ack_yes ack_iff by simp

text \<open>A link that is held stays until it is acknowledged or replaced by a newer one.\<close>

lemma held: "token s = Some k \<Longrightarrow> k' \<noteq> k \<Longrightarrow> \<not> fst (accept ps (snd (ack k' s))) \<Longrightarrow>
    token (snd (accept ps (snd (ack k' s)))) = Some k"
  using ack_no [of s k'] accept_no by simp

end

section \<open>The channel inbox\<close>

definition held_ok :: "'t inbox_state \<Rightarrow> bool" where
  "held_ok st \<longleftrightarrow> is_last_revision st \<le> U64_MAX
     \<and> (case is_pending st of None \<Rightarrow> True | Some pending \<Rightarrow> ps_revision pending \<le> is_last_revision st)"

definition inbox_token :: "'t inbox_state \<Rightarrow> ustr option" where
  "inbox_token st = map_option sd_revision (inbox_peek st)"

lemma inbox_token_eq: "inbox_token st = map_option (\<lambda>pending. dec_string (ps_revision pending)) (is_pending st)"
  by (cases "is_pending st") (simp_all add: inbox_token_def inbox_peek_def)

lemma held_ok_default: "held_ok inbox_default"
  by (simp add: held_ok_def inbox_default_def)

interpretation channel: link_inbox held_ok "accept_payloads parse" inbox_token inbox_acknowledge
  by unfold_locales
    (auto simp: inbox_acknowledge_def accept_payloads_def inbox_token_eq held_ok_def split: option.splits if_splits)

interpretation paper: link_inbox "\<lambda>_. True" paper_accept "\<lambda>pending. pending" paper_acknowledge
  by unfold_locales (auto simp: paper_accept_def paper_acknowledge_def split: list.splits if_splits)

inductive inbox_step :: "('p \<Rightarrow> 'e + 't) \<Rightarrow> 't inbox_state \<Rightarrow> 't inbox_state \<Rightarrow> bool" for parse where
  step_accept: "inbox_step parse st (snd (accept_payloads parse payloads st))"
| step_ack: "inbox_step parse st (snd (ack_native_channel_share android revision generation st))"

definition pending_revision :: "'t inbox_state \<Rightarrow> nat option" where
  "pending_revision st = map_option ps_revision (is_pending st)"

lemma ack_native_cases:
  "ack_native_channel_share android revision generation st \<in> {(False, st), inbox_acknowledge revision st}"
  by (simp add: ack_native_channel_share_def with_presentation_owner_def split: option.split)

lemma inbox_step_facts:
  assumes "inbox_step parse st st'" and "held_ok st"
  shows "held_ok st' \<and> is_last_revision st \<le> is_last_revision st'
    \<and> (pending_revision st' = Some g \<longrightarrow> pending_revision st = Some g \<or> is_last_revision st < g)"
  using assms
proof (cases rule: inbox_step.cases)
  case (step_accept payloads)
  then show ?thesis
    using assms(2) by (auto simp: accept_payloads_def held_ok_def pending_revision_def split: option.splits if_splits)
next
  case (step_ack android revision generation)
  then have "st' = st \<or> st' = snd (inbox_acknowledge revision st)"
    using ack_native_cases [of android revision generation st] by auto
  then show ?thesis
    using assms(2) by (auto simp: inbox_acknowledge_def held_ok_def pending_revision_def split: option.splits if_splits)
qed

interpretation revisions: fresh_tokens held_ok "inbox_step parse" is_last_revision "\<lambda>st. set_option (pending_revision st)"
proof unfold_locales
  show "held_ok st \<Longrightarrow> g \<in> set_option (pending_revision st) \<Longrightarrow> g \<le> is_last_revision st" for st :: "'t inbox_state" and g
    by (cases "is_pending st") (simp_all add: held_ok_def pending_revision_def)
qed (use inbox_step_facts in auto)

text \<open>C30: an acknowledgment removes only the link it was given for: once the delivery it names is gone, by an
  acknowledgment or by a newer link, it is refused for ever and leaves the inbox alone.\<close>

theorem late_acknowledgment_refused:
  assumes "steps (inbox_step parse) inbox_default st" and "pending_revision st = Some g"
    and "steps (inbox_step parse) st st'" and "pending_revision st' \<noteq> Some g" and "steps (inbox_step parse) st' st''"
  shows "ack_native_channel_share android (dec_string g) generation st'' = (False, st'')"
proof -
  have "held_ok st" using revisions.ok_steps [OF assms(1) held_ok_default] .
  then have "g \<notin> set_option (pending_revision st'')"
    using revisions.never_again [OF _ _ assms(3) _ assms(5)] assms(2,4) by simp
  then have "inbox_acknowledge (dec_string g) st'' = (False, st'')"
    by (auto simp: inbox_acknowledge_def pending_revision_def split: option.split)
  then show ?thesis using ack_native_cases [of android "dec_string g" generation st''] by auto
qed

theorem late_acknowledgment_refused_witness:
  "let st = snd (accept_payloads (\<lambda>p. Inr p :: unit + nat) [5] inbox_default);
       st' = snd (accept_payloads (\<lambda>p. Inr p :: unit + nat) [6] st)
   in ack_native_channel_share None (dec_string 1) None st' = (False, st')"
proof -
  let ?parse = "\<lambda>p. Inr p :: unit + nat"
  let ?st = "snd (accept_payloads ?parse [5] inbox_default)"
  have a: "steps (inbox_step ?parse) inbox_default ?st" by (rule steps_one, rule step_accept)
  have b: "steps (inbox_step ?parse) ?st (snd (accept_payloads ?parse [6] ?st))" by (rule steps_one, rule step_accept)
  show ?thesis
    unfolding Let_def
    by (rule late_acknowledgment_refused [OF a _ b _ steps_refl])
      (simp_all add: accept_payloads_def inbox_default_def pending_revision_def checked_add_def)
qed

text \<open>On Android nothing is delivered or removed unless a resumed Activity with its web view owns the
  presentation, and an acknowledgment counts only when it carries the generation of that owner.\<close>

theorem android_presentation_required:
  "(fst (ack_native_channel_share (Some lc) revision (Some g) st) \<longrightarrow>
      (\<exists>owner. lc_activity lc = Some owner \<and> ow_resumed owner \<and> ow_webview_ready owner
        \<and> dec_string (ow_generation owner) = g \<and> lc_ready lc \<and> \<not> lc_exiting lc))
    \<and> (peek_native_channel_share (Some lc) st = Some delivery \<longrightarrow>
      (\<exists>owner pending. lc_activity lc = Some owner \<and> ow_resumed owner \<and> ow_webview_ready owner \<and> \<not> lc_exiting lc
        \<and> is_pending st = Some pending \<and> sd_target delivery = ps_target pending
        \<and> fst (ack_native_channel_share (Some lc) (sd_revision delivery) (sd_generation delivery) st)))
    \<and> (lc_exiting lc \<longrightarrow> peek_native_channel_share (Some lc) st = None)"
  by (cases delivery; intro conjI)
    (auto simp: ack_native_channel_share_def peek_native_channel_share_def with_presentation_owner_def
      presentation_owner_def inbox_peek_def inbox_acknowledge_def split: option.splits if_splits)

theorem android_presentation_required_witness:
  "let lc = snd (transition (NativeResumed 1 True) (snd (transition NativeReady (snd (attach 1 7 True lifecycle_default)))));
       st = \<lparr>is_last_revision = 4, is_pending = Some \<lparr>ps_revision = 4, ps_target = (9 :: nat)\<rparr>\<rparr>
   in \<exists>owner. lc_activity lc = Some owner \<and> ow_resumed owner \<and> ow_webview_ready owner
        \<and> dec_string (ow_generation owner) = dec_string 1 \<and> lc_ready lc \<and> \<not> lc_exiting lc"
  unfolding Let_def
  by (rule mp [OF conjunct1 [OF android_presentation_required [where revision = "dec_string 4"
        and st = "\<lparr>is_last_revision = 4, is_pending = Some \<lparr>ps_revision = 4, ps_target = (9 :: nat)\<rparr>\<rparr>"]]])
    (simp add: ack_native_channel_share_def with_presentation_owner_def presentation_owner_def inbox_acknowledge_def
      lifecycle_ops lifecycle_default_def)

section \<open>Canonical shares\<close>

lemma hex_trimmed: "list_all is_hex_char s \<Longrightarrow> str_trim s = s"
proof (rule str_trim_trimmed)
  assume "list_all is_hex_char s"
  moreover have "\<not> is_whitespace c" if "is_hex_char c" for c
    using that by (auto simp: is_hex_char_def is_ascii_digit_def is_whitespace_def)
  ultimately show "trimmed s" unfolding trimmed_def list_all_iff by (meson hd_in_set last_in_set)
qed

definition room_ok :: "ustr option \<Rightarrow> bool" where
  "room_ok room = (case room of None \<Rightarrow> True
     | Some r \<Rightarrow> r \<noteq> [] \<and> str_len r \<le> CHANNEL_SHARE_MAX_ROOM_BYTES \<and> \<not> list_ex is_control r)"

definition target_ok :: "((ustr \<times> ustr) list \<Rightarrow> ustr option) \<Rightarrow> share_target \<Rightarrow> bool" where
  "target_ok share_url target \<longleftrightarrow> st_format target = CHANNEL_SHARE_FORMAT
    \<and> validate_hex (st_hub target) 32 32 \<and> to_ascii_lowercase (st_hub target) = st_hub target
    \<and> room_ok (st_room target) \<and> share_url (share_query (st_hub target) (st_room target)) = Some (st_payload target)
    \<and> str_len (st_payload target) \<le> CHANNEL_SHARE_MAX_BYTES"

lemma share_room_ok: "share_room lower room0 = Inr room \<Longrightarrow> room_ok room"
  by (auto simp: share_room_def normalize_room_def Let_def room_ok_def CHANNEL_SHARE_MAX_ROOM_BYTES_def
      split: option.splits if_splits)

lemma build_target_ok: "build_channel_share_target lower share_url hub room = Inr target \<Longrightarrow> target_ok share_url target"
  by (auto simp: build_channel_share_target_def target_ok_def Let_def dest: share_room_ok
      split: if_splits sum.splits option.splits)

lemma build_canonical:
  assumes "target_ok share_url target" and "\<forall>r. st_room target = Some r \<longrightarrow> lower (str_trim r) = r"
  shows "build_channel_share_target lower share_url (st_hub target) (st_room target) = Inr target"
proof -
  have hub: "to_ascii_lowercase (str_trim (st_hub target)) = st_hub target"
    using assms(1) hex_trimmed by (simp add: target_ok_def validate_hex_def)
  have room: "share_room lower (st_room target) = Inr (st_room target)"
    using assms by (auto simp: target_ok_def room_ok_def share_room_def normalize_room_def split: option.splits)
  show ?thesis
    using assms(1) by (simp add: build_channel_share_target_def hub room target_ok_def not_less)
qed

lemma read_share_query:
  "read_query (share_query hub room) \<lparr>sl_version = None, sl_hub = None, sl_room = None\<rparr>
    = Inr \<lparr>sl_version = Some CHANNEL_SHARE_VERSION, sl_hub = Some hub, sl_room = room\<rparr>"
  by (cases room) (simp_all add: share_query_def)

lemma parse_built:
  assumes "build_channel_share_target lower share_url hub room = Inr target"
    and "parse_url (st_payload target) = Some url" and "share_url_ok url"
    and "up_query url = share_query (st_hub target) (st_room target)"
    and "st_payload target \<noteq> []" and "str_trim (st_payload target) = st_payload target"
    and "\<forall>r. st_room target = Some r \<longrightarrow> lower (str_trim r) = r"
  shows "parse_channel_share_target lower share_url parse_url (st_payload target) = Inr target"
proof -
  note ok = build_target_ok [OF assms(1)]
  have "str_len (st_payload target) \<le> CHANNEL_SHARE_MAX_BYTES" using ok by (simp add: target_ok_def)
  then show ?thesis
    using assms(2-6) build_canonical [OF ok assms(7)]
    by (simp add: parse_channel_share_target_def read_share_query)
qed

lemma parsed_built:
  assumes "parse_channel_share_target lower share_url parse_url payload = Inr target"
  obtains hub room where "str_trim payload = payload" "st_payload target = payload"
    "build_channel_share_target lower share_url hub room = Inr target"
proof -
  have trim: "str_trim payload = payload"
    using assms by (cases "str_trim payload = payload") (simp_all add: parse_channel_share_target_def)
  obtain url where url: "parse_url payload = Some url"
    using assms by (auto simp: parse_channel_share_target_def trim split: if_split_asm option.split_asm)
  obtain sl where sl: "read_query (up_query url) \<lparr>sl_version = None, sl_hub = None, sl_room = None\<rparr> = Inr sl"
    using assms by (auto simp: parse_channel_share_target_def trim url split: if_split_asm sum.split_asm)
  obtain hub where "sl_hub sl = Some hub"
    using assms by (auto simp: parse_channel_share_target_def trim url sl split: if_split_asm option.split_asm)
  then show thesis
    using assms that [OF trim, of hub "sl_room sl"]
    by (auto simp: parse_channel_share_target_def trim url sl split: if_split_asm sum.split_asm)
qed

text \<open>A share that was built is parsed to the same target, when the URL crate gives back the query that
  was put into the URL and lower-casing has nothing left to do on the room's name.\<close>

theorem share_round_trip:
  assumes "build_channel_share_target lower share_url hub room = Inr target"
    and "parse_url (st_payload target) = Some url" and "share_url_ok url"
    and "up_query url = share_query (st_hub target) (st_room target)"
    and "st_payload target \<noteq> []" and "str_trim (st_payload target) = st_payload target"
    and "\<forall>r. st_room target = Some r \<longrightarrow> lower (str_trim r) = r"
  shows "parse_channel_share_target lower share_url parse_url (st_payload target) = Inr target"
  using assms by (rule parse_built)

definition sample_share :: share_target where
  "sample_share = \<lparr>st_format = CHANNEL_SHARE_FORMAT, st_payload = lit ''u'', st_hub = replicate 32 97, st_room = None\<rparr>"

definition sample_url :: url_parts where
  "sample_url = \<lparr>up_scheme = CHANNEL_SHARE_SCHEME, up_host = Some CHANNEL_SHARE_HOST, up_username = [],
     up_password = None, up_port = None, up_path = [], up_fragment = None,
     up_query = share_query (st_hub sample_share) (st_room sample_share)\<rparr>"

lemma sample_share_ok: "target_ok (\<lambda>_. Some (lit ''u'')) sample_share"
  by (simp add: target_ok_def sample_share_def validate_hex_def str_len_def sum_list_replicate utf8_width_def list_all_iff
      is_hex_char_def to_ascii_lowercase_def to_ascii_lower_def room_ok_def CHANNEL_SHARE_MAX_BYTES_def lit_Cons)

lemma sample_share_built:
  "build_channel_share_target (\<lambda>s. s) (\<lambda>_. Some (lit ''u'')) (st_hub sample_share) (st_room sample_share) = Inr sample_share"
  by (rule build_canonical [OF sample_share_ok]) (simp add: sample_share_def)

lemma sample_payload: "st_payload sample_share \<noteq> []" "str_trim (st_payload sample_share) = st_payload sample_share"
  by (simp_all add: sample_share_def lit_Cons str_trim_def is_whitespace_def)

theorem share_round_trip_witness:
  "parse_channel_share_target (\<lambda>s. s) (\<lambda>_. Some (lit ''u'')) (\<lambda>_. Some sample_url) (st_payload sample_share) = Inr sample_share"
  by (rule share_round_trip [OF sample_share_built refl _ _ sample_payload])
    (simp_all add: share_url_ok_def sample_url_def sample_share_def)

text \<open>What the parser accepts is the one canonical link of its target: a lower-case 16-byte hub, a room
  of at most 64 bytes without control characters, nothing else, and at most 230 bytes of text.\<close>

theorem parsed_share_canonical:
  assumes "parse_channel_share_target lower share_url parse_url payload = Inr target"
  shows "target_ok share_url target \<and> st_payload target = payload \<and> trimmed payload
    \<and> (parse_channel_share_target lower share_url parse_url other = Inr other_target \<longrightarrow>
        st_hub other_target = st_hub target \<longrightarrow> st_room other_target = st_room target \<longrightarrow> other = payload)"
proof -
  have canonical: "target_ok share_url t \<and> st_payload t = p \<and> trimmed p"
    if parsed: "parse_channel_share_target lower share_url parse_url p = Inr t" for p t
  proof -
    obtain hub room where "str_trim p = p" "st_payload t = p" "build_channel_share_target lower share_url hub room = Inr t"
      by (rule parsed_built [OF parsed])
    then show ?thesis using build_target_ok trimmed_str_trim [of p] by simp
  qed
  have "other = payload" if "parse_channel_share_target lower share_url parse_url other = Inr other_target"
    "st_hub other_target = st_hub target" "st_room other_target = st_room target"
    using canonical [OF assms] canonical [OF that(1)] that(2,3) by (simp add: target_ok_def)
  then show ?thesis using canonical [OF assms] by blast
qed

theorem parsed_share_canonical_witness: "target_ok (\<lambda>_. Some (lit ''u'')) sample_share"
proof (rule conjunct1 [OF parsed_share_canonical])
  show "parse_channel_share_target (\<lambda>s. s) (\<lambda>_. Some (lit ''u'')) (\<lambda>_. Some sample_url) (st_payload sample_share) = Inr sample_share"
    by (rule parse_built [OF sample_share_built refl _ _ sample_payload])
      (simp_all add: share_url_ok_def sample_url_def sample_share_def)
qed

section \<open>Paper links\<close>

lemma str_len_filter: "str_len (filter P s) \<le> str_len s"
  by (induction s) auto

lemma trim_end_props:
  "trim_end_matches c s = [] \<or> last (trim_end_matches c s) \<noteq> c"
  "set (trim_end_matches c s) \<subseteq> set s" "str_len (trim_end_matches c s) \<le> str_len s"
proof -
  show "trim_end_matches c s = [] \<or> last (trim_end_matches c s) \<noteq> c"
    using hd_dropWhile [of "\<lambda>x. x = c" "rev s"] by (auto simp: trim_end_matches_def last_rev)
  show "set (trim_end_matches c s) \<subseteq> set s" using set_dropWhileD by (fastforce simp: trim_end_matches_def)
  show "str_len (trim_end_matches c s) \<le> str_len s"
    using str_len_dropWhile [of "\<lambda>x. x = c" "rev s"] by (simp add: trim_end_matches_def)
qed

lemma trim_end_id: "s \<noteq> [] \<Longrightarrow> last s \<noteq> c \<Longrightarrow> trim_end_matches c s = s"
  by (cases s rule: rev_cases) (simp_all add: trim_end_matches_def)

lemma normalize_paper_Some:
  assumes "normalize_paper_uri input = Some uri"
  obtains data where "uri = URI_PREFIX @ data" "data \<noteq> []" "last data \<noteq> 61"
    "\<forall>c \<in> set data. c \<noteq> 47 \<and> \<not> is_ascii_whitespace c" "str_len uri \<le> PAPER_URI_INPUT_LIMIT"
proof -
  obtain scheme rest where split: "str_split_bytes 6 (str_trim input) = Some (scheme, rest)"
    using assms by (auto simp: normalize_paper_uri_def split: if_splits option.splits)
  let ?kept = "filter (\<lambda>c. c \<noteq> 47 \<and> \<not> is_ascii_whitespace c) rest"
  let ?data = "trim_end_matches 61 ?kept"
  have uri: "uri = URI_PREFIX @ ?data" "?data \<noteq> []" "str_len input \<le> PAPER_URI_INPUT_LIMIT"
    using assms split by (auto simp: normalize_paper_uri_def Let_def split: if_splits)
  have parts: "str_trim input = scheme @ rest" "str_len scheme = 6" using str_split_bytes_Some [OF split] by simp_all
  have "str_len ?data \<le> str_len rest"
    using trim_end_props(3) [of 61 ?kept] str_len_filter [of "\<lambda>c. c \<noteq> 47 \<and> \<not> is_ascii_whitespace c" rest] by linarith
  moreover have "str_len (str_trim input) = 6 + str_len rest" using parts by simp
  moreover have "str_len (lit ''lxm://'') = 6" by (simp add: lit_Cons utf8_width_def)
  ultimately have "str_len uri \<le> PAPER_URI_INPUT_LIMIT"
    using uri(1,3) str_len_trim [of input] by (simp add: URI_PREFIX_def)
  moreover have "\<forall>c \<in> set ?data. c \<noteq> 47 \<and> \<not> is_ascii_whitespace c" using trim_end_props(2) [of 61 ?kept] by auto
  ultimately show thesis using that [OF uri(1,2)] trim_end_props(1) [of 61 ?kept] uri(2) by blast
qed

text \<open>A paper link that has been normalised is short enough, starts with the scheme, has no slash, blank or
  padding in its data, and is its own normal form, unless it ends in a blank outside ASCII.\<close>

theorem paper_uri_canonical:
  assumes "normalize_paper_uri input = Some uri" and "\<not> is_whitespace (last uri)"
  shows "normalize_paper_uri uri = Some uri \<and> str_len uri \<le> PAPER_URI_INPUT_LIMIT
    \<and> (\<exists>data. uri = URI_PREFIX @ data \<and> data \<noteq> [] \<and> last data \<noteq> 61 \<and> (\<forall>c \<in> set data. c \<noteq> 47 \<and> \<not> is_ascii_whitespace c))"
proof -
  obtain data where d: "uri = URI_PREFIX @ data" "data \<noteq> []" "last data \<noteq> 61"
    "\<forall>c \<in> set data. c \<noteq> 47 \<and> \<not> is_ascii_whitespace c" "str_len uri \<le> PAPER_URI_INPUT_LIMIT"
    by (rule normalize_paper_Some [OF assms(1)])
  have prefix: "str_len URI_PREFIX = 6" "hd URI_PREFIX = 108" "URI_PREFIX \<noteq> []"
    by (simp_all add: URI_PREFIX_def lit_Cons utf8_width_def)
  have "trimmed uri" using d(1,2) prefix(2,3) assms(2) by (simp add: trimmed_def is_whitespace_def)
  then have trim: "str_trim uri = uri" by (rule str_trim_trimmed)
  have "str_split_bytes 6 uri = Some (URI_PREFIX, data)" using str_split_bytes_append [of URI_PREFIX data] by (simp add: prefix d(1))
  moreover have "filter (\<lambda>c. c \<noteq> 47 \<and> \<not> is_ascii_whitespace c) data = data" using d(4) by (simp add: filter_id_conv)
  ultimately have "normalize_paper_uri uri = Some uri"
    using d(2,5) trim_end_id [OF d(2,3)]
    by (simp add: normalize_paper_uri_def trim eq_ignore_ascii_case_def d(1) [symmetric])
  then show ?thesis using d by blast
qed

theorem paper_uri_canonical_witness:
  "normalize_paper_uri (lit ''lxm://kGX'') = Some (lit ''lxm://kGX'')"
proof (rule conjunct1 [OF paper_uri_canonical])
  have trim: "str_trim (lit ''LXM://k/GX='') = lit ''LXM://k/GX=''" by (simp add: lit_Cons str_trim_def is_whitespace_def)
  have split: "str_split_bytes 6 (lit ''LXM://k/GX='') = Some (lit ''LXM://'', lit ''k/GX='')"
  proof -
    have "str_len (lit ''LXM://'') = 6" "lit ''LXM://k/GX='' = lit ''LXM://'' @ lit ''k/GX=''"
      by (simp_all add: lit_Cons utf8_width_def)
    then show ?thesis using str_split_bytes_append [of "lit ''LXM://''" "lit ''k/GX=''"] by metis
  qed
  have scheme: "eq_ignore_ascii_case (lit ''LXM://'') URI_PREFIX"
    by (simp add: URI_PREFIX_def lit_Cons eq_ignore_ascii_case_def to_ascii_lowercase_def to_ascii_lower_def)
  have data: "trim_end_matches 61 (filter (\<lambda>c. c \<noteq> 47 \<and> \<not> is_ascii_whitespace c) (lit ''k/GX='')) = lit ''kGX''"
    by (simp add: lit_Cons trim_end_matches_def is_ascii_whitespace_def)
  have len: "\<not> PAPER_URI_INPUT_LIMIT < str_len (lit ''LXM://k/GX='')"
    by (simp add: PAPER_URI_INPUT_LIMIT_def lit_Cons utf8_width_def)
  show "normalize_paper_uri (lit ''LXM://k/GX='') = Some (lit ''lxm://kGX'')"
    unfolding normalize_paper_uri_def trim split if_not_P [OF len] option.case prod.case data Let_def
    using scheme by (simp add: URI_PREFIX_def lit_Cons)
qed (simp add: lit_Cons is_whitespace_def)

end
