(* ===== verification/Text_Share.thy ===== *)
theory Text_Share
  imports Rs_Text Tokens
begin

text \<open>
  The store of shared drafts (\<open>text_share/model.rs\<close>): texts and photos that Android's share sheet
  hands to the application wait here until the user assigns, edits, sends or discards them.
  Operations return their result with the new state, also when they fail.  \<open>serde_json\<close> is a pair
  of parameters, \<open>from_json\<close> and \<open>to_json\<close>; \<open>persist\<close> is the durable write.
\<close>

section \<open>Types\<close>

definition MAX_TEXT_BYTES :: nat where "MAX_TEXT_BYTES = 64 * 1024"
definition MAX_ITEMS :: nat where "MAX_ITEMS = 8"
definition MAX_STORE_BYTES :: nat where "MAX_STORE_BYTES = 4 * 1024 * 1024"
definition MAX_IMAGE_BYTES :: nat where "MAX_IMAGE_BYTES = 128000000"

record shared_image =
  im_name :: ustr
  im_mime :: ustr
  im_size :: nat

record item =
  it_id :: ustr
  it_revision :: ustr
  it_text :: ustr
  it_identity :: "ustr option"
  it_recipient :: "ustr option"
  it_send_attempted :: bool
  it_image :: "shared_image option"

record inbox =
  ib_version :: nat
  ib_revision :: nat
  ib_items :: "item list"
  ib_receipts :: "ustr list"

record share_edit =
  se_id :: ustr
  se_revision :: ustr
  se_activity_generation :: ustr
  se_identity_generation :: ustr
  se_operation :: ustr
  se_recipient :: "ustr option"
  se_text :: "ustr option"

datatype draft_error = InvalidImage | NothingToShare | TextTooLarge | UnsupportedCharacter | TitleTooLarge
  | StorageTooLarge | StorageUnreadable | UnsupportedFormat | InvalidRevision | InvalidItem | InvalidReceipt
  | RevisionExhausted | InvalidShareId | TooManyDrafts | LockedIdentity | DraftChanged | OtherIdentity
  | InvalidRecipient | RecipientTaken | RecipientFirst | TextMissing | UnsupportedOperation | EncodingFailed | StorageFull
  | PersistFailed ustr

definition default_drafts :: inbox where
  "default_drafts = \<lparr>ib_version = 1, ib_revision = 0, ib_items = [], ib_receipts = []\<rparr>"

section \<open>Checks\<close>

definition image_validate :: "shared_image \<Rightarrow> draft_error + unit" where
  "image_validate img =
    (if im_size img = 0 \<or> MAX_IMAGE_BYTES < im_size img \<or> im_name img = [] \<or> 255 < str_len (im_name img)
        \<or> list_ex (\<lambda>c. is_control c \<or> c = 47 \<or> c = 92) (im_name img)
        \<or> take 6 (im_mime img) \<noteq> lit ''image/'' \<or> 100 < str_len (im_mime img)
        \<or> list_ex (\<lambda>c. is_whitespace c \<or> is_control c) (im_mime img)
     then Inl InvalidImage else Inr ())"

definition valid_hash :: "ustr \<Rightarrow> bool" where
  "valid_hash val \<longleftrightarrow> str_len val = 32 \<and> list_all (\<lambda>c. is_ascii_digit c \<or> (97 \<le> c \<and> c \<le> 102)) val"

definition validate_text :: "ustr \<Rightarrow> draft_error + unit" where
  "validate_text txt =
    (if str_trim txt = [] then Inl NothingToShare
     else if MAX_TEXT_BYTES < str_len txt then Inl TextTooLarge
     else if 0 \<in> set txt then Inl UnsupportedCharacter
     else Inr ())"

definition validate_content :: "ustr \<Rightarrow> shared_image option \<Rightarrow> draft_error + unit" where
  "validate_content txt img =
    (case img of
       None \<Rightarrow> validate_text txt
     | Some im \<Rightarrow>
         (case image_validate im of
            Inl e \<Rightarrow> Inl e
          | Inr _ \<Rightarrow> if str_trim txt = [] \<and> str_len txt \<le> MAX_TEXT_BYTES then Inr () else validate_text txt))"

definition normalize :: "ustr \<Rightarrow> ustr \<Rightarrow> draft_error + ustr" where
  "normalize txt subject0 =
    (case validate_text txt of
       Inl e \<Rightarrow> Inl e
     | Inr _ \<Rightarrow>
         if 2048 < str_len subject0 then Inl TitleTooLarge
         else
           let subject = str_trim subject0;
               body = (if subject = [] \<or> str_contains txt subject then txt else subject @ [10, 10] @ txt) in
           case validate_text body of Inl e \<Rightarrow> Inl e | Inr _ \<Rightarrow> Inr body)"

section \<open>Reading the store\<close>

definition opt_hash_bad :: "ustr option \<Rightarrow> bool" where
  "opt_hash_bad v = (case v of None \<Rightarrow> False | Some h \<Rightarrow> \<not> valid_hash h)"

fun check_items :: "nat \<Rightarrow> ustr list \<Rightarrow> item list \<Rightarrow> draft_error + unit" where
  "check_items revision ids [] = Inr ()"
| "check_items revision ids (item # items) =
    (case validate_content (it_text item) (it_image item) of
       Inl e \<Rightarrow> Inl e
     | Inr _ \<Rightarrow>
         (case parse_unsigned U64_MAX (it_revision item) of
            None \<Rightarrow> Inl InvalidRevision
          | Some r \<Rightarrow>
              if \<not> valid_hash (it_id item) \<or> it_id item \<in> set ids \<or> r = 0 \<or> revision < r
                 \<or> dec_string r \<noteq> it_revision item
                 \<or> opt_hash_bad (it_identity item) \<or> opt_hash_bad (it_recipient item)
                 \<or> (it_identity item \<noteq> None) \<noteq> (it_recipient item \<noteq> None)
                 \<or> (it_send_attempted item \<and> it_identity item = None)
              then Inl InvalidItem
              else check_items revision (it_id item # ids) items))"

definition decode_inbox :: "(ustr \<Rightarrow> inbox option) \<Rightarrow> ustr \<Rightarrow> draft_error + inbox" where
  "decode_inbox from_json raw =
    (if raw = [] then Inr default_drafts
     else if MAX_STORE_BYTES < str_len raw then Inl StorageTooLarge
     else case from_json raw of
       None \<Rightarrow> Inl StorageUnreadable
     | Some inbox \<Rightarrow>
         if ib_version inbox \<noteq> 1 \<or> MAX_ITEMS < length (ib_items inbox) \<or> 64 < length (ib_receipts inbox)
         then Inl UnsupportedFormat
         else case check_items (ib_revision inbox) [] (ib_items inbox) of
           Inl e \<Rightarrow> Inl e
         | Inr _ \<Rightarrow> if list_ex (\<lambda>sid. \<not> valid_hash sid) (ib_receipts inbox) then Inl InvalidReceipt else Inr inbox)"

section \<open>Accepting shares\<close>

definition next_revision :: "inbox \<Rightarrow> (draft_error + ustr) \<times> inbox" where
  "next_revision inbox =
    (case checked_add U64_MAX (ib_revision inbox) 1 of
       None \<Rightarrow> (Inl RevisionExhausted, inbox)
     | Some r \<Rightarrow> (Inr (dec_string r), inbox\<lparr>ib_revision := r\<rparr>))"

definition known :: "ustr \<Rightarrow> inbox \<Rightarrow> bool" where
  "known sid inbox \<longleftrightarrow> sid \<in> set (ib_receipts inbox) \<or> list_ex (\<lambda>item. it_id item = sid) (ib_items inbox)"

definition accept_content :: "ustr \<Rightarrow> ustr \<Rightarrow> shared_image option \<Rightarrow> inbox \<Rightarrow> (draft_error + bool) \<times> inbox" where
  "accept_content sid txt img inbox =
    (if \<not> valid_hash sid then (Inl InvalidShareId, inbox)
     else case validate_content txt img of
       Inl e \<Rightarrow> (Inl e, inbox)
     | Inr _ \<Rightarrow>
         if known sid inbox then (Inr False, inbox)
         else if MAX_ITEMS \<le> length (ib_items inbox) then (Inl TooManyDrafts, inbox)
         else case next_revision inbox of
           (Inl e, inbox') \<Rightarrow> (Inl e, inbox')
         | (Inr revision, inbox') \<Rightarrow>
             (Inr True, inbox'\<lparr>ib_items := ib_items inbox' @
                [\<lparr>it_id = sid, it_revision = revision, it_text = txt, it_identity = None, it_recipient = None,
                  it_send_attempted = False, it_image = img\<rparr>]\<rparr>))"

definition accept :: "ustr \<Rightarrow> ustr \<Rightarrow> ustr \<Rightarrow> inbox \<Rightarrow> (draft_error + bool) \<times> inbox" where
  "accept sid txt subject inbox =
    (case normalize txt subject of Inl e \<Rightarrow> (Inl e, inbox) | Inr body \<Rightarrow> accept_content sid body None inbox)"

definition accept_image :: "ustr \<Rightarrow> ustr \<Rightarrow> ustr \<Rightarrow> shared_image \<Rightarrow> inbox \<Rightarrow> (draft_error + bool) \<times> inbox" where
  "accept_image sid txt subject img inbox =
    (let body = (if str_trim txt = [] then (if str_trim subject = [] then Inr [] else normalize subject []) else normalize txt subject) in
     case body of Inl e \<Rightarrow> (Inl e, inbox) | Inr body' \<Rightarrow> accept_content sid body' (Some img) inbox)"

section \<open>Editing drafts\<close>

definition edit_discard :: "nat \<Rightarrow> inbox \<Rightarrow> (draft_error + item option) \<times> inbox" where
  "edit_discard index inbox =
    (let sid = it_id (ib_items inbox ! index);
         receipts = ib_receipts inbox @ [sid];
         inbox' = inbox\<lparr>ib_items := take index (ib_items inbox) @ drop (index + 1) (ib_items inbox),
                        ib_receipts := (if 64 < length receipts then drop 1 receipts else receipts)\<rparr> in
     case next_revision inbox' of
       (Inl e, inbox'') \<Rightarrow> (Inl e, inbox'')
     | (Inr _, inbox'') \<Rightarrow> (Inr None, inbox''))"

definition put_item :: "nat \<Rightarrow> (ustr \<Rightarrow> item \<Rightarrow> item) \<Rightarrow> inbox \<Rightarrow> (draft_error + item option) \<times> inbox" where
  "put_item index change inbox =
    (case next_revision inbox of
       (Inl e, inbox') \<Rightarrow> (Inl e, inbox')
     | (Inr revision, inbox') \<Rightarrow>
         let item = change revision (ib_items inbox' ! index) in
         (Inr (Some item), inbox'\<lparr>ib_items := (ib_items inbox')[index := item]\<rparr>))"

definition edit_assign :: "ustr \<Rightarrow> nat \<Rightarrow> share_edit \<Rightarrow> inbox \<Rightarrow> (draft_error + item option) \<times> inbox" where
  "edit_assign identity index args inbox =
    (let item = ib_items inbox ! index in
     case se_recipient args of
       None \<Rightarrow> (Inl InvalidRecipient, inbox)
     | Some recipient \<Rightarrow>
         if \<not> valid_hash recipient then (Inl InvalidRecipient, inbox)
         else if (case it_recipient item of None \<Rightarrow> False | Some v \<Rightarrow> v \<noteq> recipient) then (Inl RecipientTaken, inbox)
         else
           let txt = (case se_text args of None \<Rightarrow> it_text item | Some t \<Rightarrow> t) in
           case validate_content txt (it_image item) of
             Inl e \<Rightarrow> (Inl e, inbox)
           | Inr _ \<Rightarrow>
               put_item index (\<lambda>revision item. item\<lparr>it_identity := Some identity, it_recipient := Some recipient,
                 it_text := txt, it_send_attempted := False, it_revision := revision\<rparr>) inbox)"

definition edit_draft :: "nat \<Rightarrow> share_edit \<Rightarrow> inbox \<Rightarrow> (draft_error + item option) \<times> inbox" where
  "edit_draft index args inbox =
    (let item = ib_items inbox ! index in
     if it_identity item = None then (Inl RecipientFirst, inbox)
     else case se_text args of
       None \<Rightarrow> (Inl TextMissing, inbox)
     | Some txt \<Rightarrow>
         (case validate_content txt (it_image item) of
            Inl e \<Rightarrow> (Inl e, inbox)
          | Inr _ \<Rightarrow> put_item index (\<lambda>revision item. item\<lparr>it_text := txt, it_revision := revision\<rparr>) inbox))"

definition edit_sending :: "nat \<Rightarrow> inbox \<Rightarrow> (draft_error + item option) \<times> inbox" where
  "edit_sending index inbox =
    (if it_identity (ib_items inbox ! index) = None then (Inl RecipientFirst, inbox)
     else put_item index (\<lambda>revision item. item\<lparr>it_send_attempted := True, it_revision := revision\<rparr>) inbox)"

definition edit :: "ustr \<Rightarrow> share_edit \<Rightarrow> inbox \<Rightarrow> (draft_error + item option) \<times> inbox" where
  "edit identity args inbox =
    (if \<not> valid_hash identity then (Inl LockedIdentity, inbox)
     else case find_position (\<lambda>item. it_id item = se_id args \<and> it_revision item = se_revision args) (ib_items inbox) of
       None \<Rightarrow> (Inl DraftChanged, inbox)
     | Some index \<Rightarrow>
         if (case it_identity (ib_items inbox ! index) of None \<Rightarrow> False | Some owner \<Rightarrow> owner \<noteq> identity)
         then (Inl OtherIdentity, inbox)
         else if se_operation args = lit ''discard'' then edit_discard index inbox
         else if se_operation args = lit ''assign'' then edit_assign identity index args inbox
         else if se_operation args = lit ''draft'' then edit_draft index args inbox
         else if se_operation args = lit ''sending'' then edit_sending index inbox
         else (Inl UnsupportedOperation, inbox))"

definition prune :: "ustr list \<Rightarrow> inbox \<Rightarrow> bool \<times> inbox" where
  "prune identities inbox =
    (let removed = map it_id (filter (\<lambda>item. case it_identity item of None \<Rightarrow> False | Some sid \<Rightarrow> sid \<notin> set identities) (ib_items inbox));
         receipts = ib_receipts inbox @ removed in
     (removed \<noteq> [],
      inbox\<lparr>ib_items := filter (\<lambda>item. it_id item \<notin> set removed) (ib_items inbox),
            ib_receipts := (if 64 < length receipts then drop (length receipts - 64) receipts else receipts)\<rparr>))"

section \<open>Transactions\<close>

text \<open>The result, the state afterwards, and what was handed to the durable write.\<close>

definition transaction ::
  "(inbox \<Rightarrow> ustr option) \<Rightarrow> (ustr \<Rightarrow> draft_error + unit) \<Rightarrow> (inbox \<Rightarrow> (draft_error + 'a) \<times> inbox) \<Rightarrow> inbox
     \<Rightarrow> (draft_error + 'a) \<times> inbox \<times> ustr option" where
  "transaction to_json persist change inbox =
    (case change inbox of
       (Inl e, _) \<Rightarrow> (Inl e, inbox, None)
     | (Inr result, inbox') \<Rightarrow>
         (case to_json inbox' of
            None \<Rightarrow> (Inl EncodingFailed, inbox, None)
          | Some encoded \<Rightarrow>
              if MAX_STORE_BYTES < str_len encoded then (Inl StorageFull, inbox, None)
              else (case persist encoded of
                      Inl e \<Rightarrow> (Inl e, inbox, Some encoded)
                    | Inr _ \<Rightarrow> (Inr result, inbox', Some encoded))))"

end
