(* ===== verification/Text_Share_Props.thy ===== *)
theory Text_Share_Props
  imports Text_Share
begin

text \<open>
  Properties of the store of shared drafts: the invariant that every operation keeps is the one
  that the reader of the store checks, a store that was written is read back, revisions are issued
  once, a recipient never changes, and a transaction is all or nothing.
\<close>

section \<open>The invariant\<close>

definition item_ok :: "nat \<Rightarrow> item \<Rightarrow> bool" where
  "item_ok revision item \<longleftrightarrow> validate_content (it_text item) (it_image item) = Inr () \<and> valid_hash (it_id item)
     \<and> (\<exists>r. it_revision item = dec_string r \<and> 0 < r \<and> r \<le> revision)
     \<and> \<not> opt_hash_bad (it_identity item) \<and> \<not> opt_hash_bad (it_recipient item)
     \<and> (it_identity item \<noteq> None) = (it_recipient item \<noteq> None)
     \<and> (it_send_attempted item \<longrightarrow> it_identity item \<noteq> None)"

definition inbox_ok :: "inbox \<Rightarrow> bool" where
  "inbox_ok inbox \<longleftrightarrow> ib_version inbox = 1 \<and> ib_revision inbox \<le> U64_MAX \<and> length (ib_items inbox) \<le> MAX_ITEMS
     \<and> length (ib_receipts inbox) \<le> 64 \<and> distinct (map it_id (ib_items inbox))
     \<and> (\<forall>item \<in> set (ib_items inbox). item_ok (ib_revision inbox) item) \<and> (\<forall>r \<in> set (ib_receipts inbox). valid_hash r)"

lemma item_ok_mono: "item_ok r item \<Longrightarrow> r \<le> r' \<Longrightarrow> item_ok r' item"
  by (auto simp: item_ok_def intro: le_trans)

lemma inbox_ok_default: "inbox_ok default_drafts"
  by (simp add: inbox_ok_def default_drafts_def)

lemma next_revision_cases:
  obtains (exhausted) "next_revision inbox = (Inl RevisionExhausted, inbox)" "\<not> ib_revision inbox < U64_MAX"
  | (issued) "next_revision inbox = (Inr (dec_string (ib_revision inbox + 1)), inbox\<lparr>ib_revision := ib_revision inbox + 1\<rparr>)"
      "ib_revision inbox < U64_MAX"
proof (cases "ib_revision inbox < U64_MAX")
  case True
  then show thesis by (intro that(2)) (simp_all add: next_revision_def checked_add_def)
next
  case False
  then show thesis by (intro that(1)) (simp_all add: next_revision_def checked_add_def)
qed

lemma accept_content_ok:
  assumes "inbox_ok inbox"
  shows "inbox_ok (snd (accept_content sid txt img inbox))"
proof (cases rule: next_revision_cases [of inbox])
  case exhausted
  then show ?thesis using assms by (simp add: accept_content_def split: sum.split)
next
  case issued
  show ?thesis
  proof (cases "valid_hash sid \<and> validate_content txt img = Inr () \<and> \<not> known sid inbox \<and> \<not> MAX_ITEMS \<le> length (ib_items inbox)")
    case True
    have "item_ok (ib_revision inbox + 1) \<lparr>it_id = sid, it_revision = dec_string (ib_revision inbox + 1), it_text = txt,
        it_identity = None, it_recipient = None, it_send_attempted = False, it_image = img\<rparr>"
      using True by (auto simp: item_ok_def opt_hash_bad_def)
    then show ?thesis
      using True assms issued
      by (auto simp: accept_content_def inbox_ok_def known_def list_ex_iff intro: item_ok_mono)
  next
    case False
    then show ?thesis using assms by (auto simp: accept_content_def split: sum.split)
  qed
qed

lemma accept_ok: "inbox_ok inbox \<Longrightarrow> inbox_ok (snd (accept sid txt subject inbox))"
  by (simp add: accept_def accept_content_ok split: sum.split)

lemma accept_image_ok: "inbox_ok inbox \<Longrightarrow> inbox_ok (snd (accept_image sid txt subject img inbox))"
  by (simp add: accept_image_def Let_def accept_content_ok split: sum.split)

lemma map_id_update:
  "index < length items \<Longrightarrow> it_id new = it_id (items ! index) \<Longrightarrow> map it_id (items[index := new]) = map it_id items"
  by (simp add: map_update list_update_same_conv)

lemma put_item_ok:
  assumes "inbox_ok inbox" and "index < length (ib_items inbox)"
    and "\<And>r. it_id (change r (ib_items inbox ! index)) = it_id (ib_items inbox ! index)"
    and "\<And>n. ib_revision inbox \<le> n \<Longrightarrow> item_ok (n + 1) (change (dec_string (n + 1)) (ib_items inbox ! index))"
  shows "inbox_ok (snd (put_item index change inbox))"
proof (cases rule: next_revision_cases [of inbox])
  case exhausted
  then show ?thesis using assms(1) by (simp add: put_item_def)
next
  case issued
  let ?new = "change (dec_string (ib_revision inbox + 1)) (ib_items inbox ! index)"
  have "\<forall>item \<in> set ((ib_items inbox)[index := ?new]). item_ok (ib_revision inbox + 1) item"
  proof
    fix item
    assume "item \<in> set ((ib_items inbox)[index := ?new])"
    then consider "item = ?new" | "item \<in> set (ib_items inbox)" using set_update_subset_insert by fast
    then show "item_ok (ib_revision inbox + 1) item"
    proof cases
      case 1
      then show ?thesis using assms(4) [of "ib_revision inbox"] by simp
    next
      case 2
      then show ?thesis using assms(1) item_ok_mono [of "ib_revision inbox" item] by (simp add: inbox_ok_def)
    qed
  qed
  then show ?thesis
    using assms(1) map_id_update [OF assms(2,3)] issued by (simp add: put_item_def inbox_ok_def Let_def)
qed

lemma position_less: "find_position P xs = Some i \<Longrightarrow> i < length xs \<and> P (xs ! i)"
  using position_Some [of P xs i] by auto

lemma edit_discard_ok:
  assumes "inbox_ok inbox" and "index < length (ib_items inbox)"
  shows "inbox_ok (snd (edit_discard index inbox))"
proof -
  let ?items = "take index (ib_items inbox) @ drop (index + 1) (ib_items inbox)"
  have sub: "set ?items \<subseteq> set (ib_items inbox)" by (auto dest: in_set_takeD in_set_dropD)
  have "ib_items inbox = take index (ib_items inbox) @ ib_items inbox ! index # drop (index + 1) (ib_items inbox)"
    using assms(2) by (simp add: id_take_nth_drop)
  then have "distinct (map it_id (take index (ib_items inbox) @ ib_items inbox ! index # drop (index + 1) (ib_items inbox)))"
    using assms(1) by (simp add: inbox_ok_def)
  then have dist: "distinct (map it_id ?items)" by auto
  have hash: "valid_hash (it_id (ib_items inbox ! index))"
    using assms by (auto simp: inbox_ok_def item_ok_def)
  let ?receipts = "ib_receipts inbox @ [it_id (ib_items inbox ! index)]"
  let ?kept = "if 64 < length ?receipts then drop 1 ?receipts else ?receipts"
  have kept: "length ?kept \<le> 64" "\<forall>r \<in> set ?kept. valid_hash r"
    using assms(1) hash by (auto simp: inbox_ok_def dest: in_set_dropD)
  let ?inbox = "inbox\<lparr>ib_items := ?items, ib_receipts := ?kept\<rparr>"
  have items: "\<forall>item \<in> set ?items. item_ok (ib_revision inbox) item" using assms(1) sub by (auto simp: inbox_ok_def)
  have "length ?items \<le> MAX_ITEMS" using assms by (auto simp: inbox_ok_def)
  then have base: "inbox_ok ?inbox"
    using assms(1) dist kept items by (simp add: inbox_ok_def del: set_append)
  show ?thesis
  proof (cases rule: next_revision_cases [of ?inbox])
    case exhausted
    then show ?thesis using base by (simp add: edit_discard_def Let_def)
  next
    case issued
    then have "inbox_ok (?inbox\<lparr>ib_revision := ib_revision ?inbox + 1\<rparr>)"
      using base by (auto simp: inbox_ok_def intro: item_ok_mono)
    then show ?thesis using issued by (simp add: edit_discard_def Let_def)
  qed
qed

lemma edit_ok:
  assumes "inbox_ok inbox"
  shows "inbox_ok (snd (edit identity args inbox))"
proof (cases "valid_hash identity \<and> (\<exists>index. find_position (\<lambda>item. it_id item = se_id args \<and> it_revision item = se_revision args) (ib_items inbox) = Some index)")
  case False
  then show ?thesis using assms by (auto simp: edit_def)
next
  case True
  then obtain index where pos:
    "find_position (\<lambda>item. it_id item = se_id args \<and> it_revision item = se_revision args) (ib_items inbox) = Some index" by blast
  have len: "index < length (ib_items inbox)" using position_less [OF pos] by simp
  let ?item = "ib_items inbox ! index"
  have item: "item_ok (ib_revision inbox) ?item" using assms len by (simp add: inbox_ok_def)
  have assign: "inbox_ok (snd (edit_assign identity index args inbox))"
  proof -
    have "inbox_ok (snd (put_item index (\<lambda>revision item. item\<lparr>it_identity := Some identity, it_recipient := Some recipient,
        it_text := t, it_send_attempted := False, it_revision := revision\<rparr>) inbox))"
      if "valid_hash recipient" "validate_content t (it_image ?item) = Inr ()" for recipient t
      by (rule put_item_ok [OF assms len]) (use that True item in \<open>auto simp: item_ok_def opt_hash_bad_def\<close>)
    then show ?thesis using assms by (auto simp: edit_assign_def Let_def split: option.split sum.split)
  qed
  have draft: "inbox_ok (snd (edit_draft index args inbox))"
  proof -
    have "inbox_ok (snd (put_item index (\<lambda>revision item. item\<lparr>it_text := t, it_revision := revision\<rparr>) inbox))"
      if "validate_content t (it_image ?item) = Inr ()" for t
      by (rule put_item_ok [OF assms len]) (use that item in \<open>auto simp: item_ok_def\<close>)
    then show ?thesis using assms by (auto simp: edit_draft_def Let_def split: option.split sum.split)
  qed
  have sending: "inbox_ok (snd (edit_sending index inbox))"
  proof (cases "it_identity ?item = None")
    case False
    have "inbox_ok (snd (put_item index (\<lambda>revision item. item\<lparr>it_send_attempted := True, it_revision := revision\<rparr>) inbox))"
      by (rule put_item_ok [OF assms len]) (use item False in \<open>auto simp: item_ok_def\<close>)
    then show ?thesis by (simp add: edit_sending_def assms)
  qed (simp add: edit_sending_def assms)
  show ?thesis
    using assms assign draft sending edit_discard_ok [OF assms len] by (simp add: edit_def pos split: option.split)
qed

lemma prune_ok:
  assumes "inbox_ok inbox"
  shows "inbox_ok (snd (prune identities inbox))"
proof -
  let ?removed = "map it_id (filter (\<lambda>item. case it_identity item of None \<Rightarrow> False | Some sid \<Rightarrow> sid \<notin> set identities) (ib_items inbox))"
  let ?receipts = "ib_receipts inbox @ ?removed"
  have "\<forall>r \<in> set ?receipts. valid_hash r" using assms by (auto simp: inbox_ok_def item_ok_def)
  then have kept: "\<forall>r \<in> set (drop n ?receipts). valid_hash r" for n by (blast dest: in_set_dropD)
  have items: "length (filter P (ib_items inbox)) \<le> MAX_ITEMS" for P
    using assms by (intro order_trans [OF length_filter_le]) (simp add: inbox_ok_def)
  have "inbox_ok (inbox\<lparr>ib_items := filter (\<lambda>item. it_id item \<notin> set ?removed) (ib_items inbox),
      ib_receipts := drop (length ?receipts - 64) ?receipts\<rparr>)"
    using assms kept items by (simp add: inbox_ok_def distinct_map_filter del: drop_append set_map)
  moreover have "(if 64 < length ?receipts then drop (length ?receipts - 64) ?receipts else ?receipts)
      = drop (length ?receipts - 64) ?receipts" by simp
  ultimately show ?thesis unfolding prune_def Let_def by (simp only: snd_conv)
qed

section \<open>Reading back\<close>

lemma check_items_iff:
  assumes "revision \<le> U64_MAX"
  shows "check_items revision ids items = Inr () \<longleftrightarrow>
    (\<forall>item \<in> set items. item_ok revision item) \<and> distinct (map it_id items) \<and> set (map it_id items) \<inter> set ids = {}"
proof (induction items arbitrary: ids)
  case (Cons item items)
  have issued: "(\<exists>r. parse_unsigned U64_MAX (it_revision item) = Some r \<and> r \<noteq> 0 \<and> \<not> revision < r \<and> dec_string r = it_revision item)
      \<longleftrightarrow> (\<exists>r. it_revision item = dec_string r \<and> 0 < r \<and> r \<le> revision)"
  proof
    assume "\<exists>r. it_revision item = dec_string r \<and> 0 < r \<and> r \<le> revision"
    then obtain r where "it_revision item = dec_string r" "0 < r" "r \<le> revision" by blast
    then show "\<exists>r. parse_unsigned U64_MAX (it_revision item) = Some r \<and> r \<noteq> 0 \<and> \<not> revision < r \<and> dec_string r = it_revision item"
      using assms by (intro exI [of _ r]) (simp add: parse_unsigned_dec)
  next
    assume "\<exists>r. parse_unsigned U64_MAX (it_revision item) = Some r \<and> r \<noteq> 0 \<and> \<not> revision < r \<and> dec_string r = it_revision item"
    then obtain r where "dec_string r = it_revision item" "r \<noteq> 0" "\<not> revision < r" by blast
    then show "\<exists>r. it_revision item = dec_string r \<and> 0 < r \<and> r \<le> revision" by (intro exI [of _ r]) simp
  qed
  have "check_items revision ids (item # items) = Inr () \<longleftrightarrow>
      item_ok revision item \<and> it_id item \<notin> set ids \<and> check_items revision (it_id item # ids) items = Inr ()"
    unfolding item_ok_def issued [symmetric] by (auto split: sum.split option.split)
  then show ?case unfolding Cons.IH by auto
qed simp

lemma decode_inbox_iff:
  assumes "raw \<noteq> []" and "str_len raw \<le> MAX_STORE_BYTES" and "from_json raw = Some inbox" and "ib_revision inbox \<le> U64_MAX"
  shows "decode_inbox from_json raw = Inr result \<longleftrightarrow> inbox_ok inbox \<and> result = inbox"
proof -
  have "check_items (ib_revision inbox) [] (ib_items inbox) = Inr () \<longleftrightarrow>
      (\<forall>item \<in> set (ib_items inbox). item_ok (ib_revision inbox) item) \<and> distinct (map it_id (ib_items inbox))"
    using check_items_iff [OF assms(4), of "[]"] by simp
  then show ?thesis
    using assms by (auto simp: decode_inbox_def inbox_ok_def list_ex_iff not_less split: sum.split)
qed

lemma transaction_cases:
  assumes "transaction to_json persist change inbox = (result, inbox', written)"
  obtains (failed) e where "result = Inl e" "inbox' = inbox"
  | (committed) r encoded where "result = Inr r" "change inbox = (Inr r, inbox')" "to_json inbox' = Some encoded"
      "str_len encoded \<le> MAX_STORE_BYTES" "persist encoded = Inr ()" "written = Some encoded"
  using assms by (auto simp: transaction_def not_less split: prod.splits sum.splits option.splits if_splits)

text \<open>C31: a transaction is all or nothing, and the store that it has written is accepted when it is read
  again and gives the very state the transaction left, provided the operation keeps the invariant and the
  JSON reader gives back what was serialised.\<close>

theorem transaction_durable:
  assumes "transaction to_json persist change inbox = (result, inbox', written)" and "inbox_ok inbox"
    and "\<And>i. inbox_ok i \<Longrightarrow> inbox_ok (snd (change i))"
    and "\<And>encoded. to_json inbox' = Some encoded \<Longrightarrow> encoded \<noteq> [] \<and> from_json encoded = Some inbox'"
  shows "(case result of Inl e \<Rightarrow> inbox' = inbox
      | Inr r \<Rightarrow> change inbox = (Inr r, inbox') \<and> inbox_ok inbox'
          \<and> (\<exists>encoded. written = Some encoded \<and> persist encoded = Inr () \<and> decode_inbox from_json encoded = Inr inbox'))"
  using assms(1)
proof (cases rule: transaction_cases)
  case (committed r encoded)
  have ok: "inbox_ok inbox'" using assms(3) [OF assms(2)] committed(2) by simp
  then have "ib_revision inbox' \<le> U64_MAX" by (simp add: inbox_ok_def)
  then have "decode_inbox from_json encoded = Inr inbox'"
    using decode_inbox_iff [OF _ committed(4)] assms(4) [OF committed(3)] ok by blast
  then show ?thesis using committed ok by simp
qed simp

section \<open>Steps\<close>

text \<open>The operations of the store in any order; one that fails, or a transaction that is rolled back, may
  leave the store as it was.\<close>

inductive draft_step :: "inbox \<Rightarrow> inbox \<Rightarrow> bool" where
  step_accept: "draft_step inbox (snd (accept sid t subject inbox))"
| step_accept_image: "draft_step inbox (snd (accept_image sid t subject img inbox))"
| step_edit: "draft_step inbox (snd (edit identity args inbox))"
| step_prune: "draft_step inbox (snd (prune identities inbox))"

inductive_cases draft_stepE: "draft_step inbox inbox'"

lemma draft_step_ok: "draft_step inbox inbox' \<Longrightarrow> inbox_ok inbox \<Longrightarrow> inbox_ok inbox'"
  by (induction rule: draft_step.induct) (simp_all add: accept_ok accept_image_ok edit_ok prune_ok)

text \<open>What an operation does to the items: each is an old one or carries the new revision.\<close>

definition advances :: "inbox \<Rightarrow> inbox \<Rightarrow> bool" where
  "advances inbox inbox' \<longleftrightarrow> ib_revision inbox \<le> ib_revision inbox'
    \<and> (\<forall>item \<in> set (ib_items inbox'). item \<in> set (ib_items inbox) \<or> it_revision item = dec_string (ib_revision inbox + 1))"

lemma advances_refl [simp]: "advances inbox inbox"
  by (simp add: advances_def)

lemma advances_accept_content: "advances inbox (snd (accept_content sid t img inbox))"
  by (cases rule: next_revision_cases [of inbox])
    (auto simp: accept_content_def advances_def split: sum.split)

lemma advances_put_item:
  assumes "\<And>r item. it_revision (change r item) = r"
  shows "advances inbox (snd (put_item index change inbox))"
proof (cases rule: next_revision_cases [of inbox])
  case issued
  then show ?thesis
    using set_update_subset_insert [of "ib_items inbox" index] assms
    by (fastforce simp: put_item_def Let_def advances_def)
qed (simp add: put_item_def)

lemma advances_discard: "advances inbox (snd (edit_discard index inbox))"
proof -
  have "set (take index xs @ drop (Suc index) xs) \<subseteq> set xs" for xs :: "item list"
    by (auto dest: in_set_takeD in_set_dropD)
  then show ?thesis
    by (auto simp: edit_discard_def Let_def next_revision_def checked_add_def advances_def)
qed

lemma advances_edit: "advances inbox (snd (edit identity args inbox))"
  by (simp add: edit_def edit_assign_def edit_draft_def edit_sending_def Let_def advances_put_item advances_discard
      split: option.split sum.split)

lemma draft_step_advances: "draft_step inbox inbox' \<Longrightarrow> advances inbox inbox'"
proof (induction rule: draft_step.induct)
  case (step_prune inbox identities)
  then show ?case by (auto simp: prune_def Let_def advances_def)
qed (simp_all add: accept_def accept_image_def Let_def advances_accept_content advances_edit split: sum.split)

definition live_revisions :: "inbox \<Rightarrow> nat set" where
  "live_revisions inbox = {r. \<exists>item \<in> set (ib_items inbox). it_revision item = dec_string r}"

interpretation drafts: fresh_tokens inbox_ok draft_step ib_revision live_revisions
proof unfold_locales
  show "inbox_ok inbox \<Longrightarrow> g \<in> live_revisions inbox \<Longrightarrow> g \<le> ib_revision inbox" for inbox g
    by (auto simp: inbox_ok_def item_ok_def live_revisions_def)
  show "inbox_ok inbox \<Longrightarrow> draft_step inbox inbox' \<Longrightarrow> g \<in> live_revisions inbox' \<Longrightarrow>
      g \<in> live_revisions inbox \<or> ib_revision inbox < g" for inbox inbox' g
    using draft_step_advances [of inbox inbox'] by (fastforce simp: advances_def live_revisions_def)
qed (use draft_step_ok draft_step_advances in \<open>auto simp: advances_def\<close>)

text \<open>C32: from an empty store or any store that the reader accepts, every sequence of operations keeps at
  most eight drafts with distinct valid identifiers, valid contents, current revisions, a recipient exactly
  when there is an owner, and at most 64 receipts.\<close>

theorem drafts_invariant:
  assumes "decode_inbox from_json raw = Inr inbox" and "\<forall>i. from_json raw = Some i \<longrightarrow> ib_revision i \<le> U64_MAX"
    and "steps draft_step inbox inbox'"
  shows "inbox_ok inbox'"
proof -
  have "inbox_ok inbox"
  proof (cases "raw = []")
    case True
    then show ?thesis using assms(1) inbox_ok_default by (simp add: decode_inbox_def)
  next
    case False
    then have size: "str_len raw \<le> MAX_STORE_BYTES" and json: "from_json raw \<noteq> None"
      using assms(1) by (auto simp: decode_inbox_def split: if_splits option.splits)
    obtain i where i: "from_json raw = Some i" using json by auto
    then show ?thesis using decode_inbox_iff [of raw from_json i inbox] False size assms(1,2) by simp
  qed
  then show ?thesis by (rule drafts.ok_steps [OF assms(3)])
qed

theorem drafts_invariant_witness:
  "inbox_ok (snd (accept (replicate 32 97) (lit ''hi'') [] default_drafts))"
proof (rule drafts_invariant [of "\<lambda>_. None" "[]" default_drafts])
  show "steps draft_step default_drafts (snd (accept (replicate 32 97) (lit ''hi'') [] default_drafts))"
    by (rule steps_one, rule step_accept)
qed (simp_all add: decode_inbox_def)

text \<open>C33: an edit that carries a revision which is no longer the draft's is refused for ever and changes
  nothing, so an edit is never applied twice or to a text the user has not seen.\<close>

theorem stale_edit_refused:
  assumes "inbox_ok inbox" and "g \<in> live_revisions inbox" and "steps draft_step inbox inbox'"
    and "g \<notin> live_revisions inbox'" and "steps draft_step inbox' inbox''" and "se_revision args = dec_string g"
  shows "\<exists>e. edit identity args inbox'' = (Inl e, inbox'') \<and> e \<in> {LockedIdentity, DraftChanged}"
proof -
  have "g \<notin> live_revisions inbox''" by (rule drafts.never_again [OF assms(1-5)])
  then have "find_position (\<lambda>item. it_id item = se_id args \<and> it_revision item = se_revision args) (ib_items inbox'') = None"
    using assms(6) by (auto simp: position_None live_revisions_def)
  then show ?thesis by (simp add: edit_def)
qed

lemma accept_content_items:
  "item' \<in> set (ib_items (snd (accept_content sid t img inbox))) \<Longrightarrow>
    item' \<in> set (ib_items inbox) \<or> (it_id item' = sid \<and> \<not> known sid inbox)"
  by (cases rule: next_revision_cases [of inbox]) (auto simp: accept_content_def split: sum.splits if_splits)

lemma put_item_items:
  "item' \<in> set (ib_items (snd (put_item index change inbox))) \<Longrightarrow>
    item' \<in> set (ib_items inbox) \<or> (\<exists>r. item' = change r (ib_items inbox ! index))"
  using set_update_subset_insert [of "ib_items inbox" index]
  by (cases rule: next_revision_cases [of inbox]) (fastforce simp: put_item_def Let_def)+

text \<open>An edited item keeps its identifier, and its owner and recipient when it has them.\<close>

definition same_owner :: "item \<Rightarrow> item \<Rightarrow> bool" where
  "same_owner item item' \<longleftrightarrow> it_id item' = it_id item \<and> (it_identity item \<noteq> None \<longrightarrow> it_recipient item \<noteq> None \<longrightarrow>
     it_identity item' = it_identity item \<and> it_recipient item' = it_recipient item)"

lemma edit_items:
  assumes "item' \<in> set (ib_items (snd (edit identity args inbox)))"
  shows "\<exists>item \<in> set (ib_items inbox). same_owner item item'"
proof -
  have same: "\<exists>item \<in> set (ib_items inbox). same_owner item item'" if "item' \<in> set (ib_items inbox)"
    using that by (auto simp: same_owner_def)
  have changed: "\<exists>item \<in> set (ib_items inbox). same_owner item item'"
    if "index < length (ib_items inbox)" "item' \<in> set (ib_items (snd (put_item index change inbox)))"
      "\<And>r. same_owner (ib_items inbox ! index) (change r (ib_items inbox ! index))" for index change
    using put_item_items [OF that(2)] that(1,3) same by (metis nth_mem)
  show ?thesis
  proof (cases "find_position (\<lambda>item. it_id item = se_id args \<and> it_revision item = se_revision args) (ib_items inbox)")
    case None
    then show ?thesis using assms same by (simp add: edit_def split: if_splits)
  next
    case (Some index)
    have len: "index < length (ib_items inbox)" using position_less [OF Some] by simp
    let ?item = "ib_items inbox ! index"
    have discard: "\<exists>item \<in> set (ib_items inbox). same_owner item item'"
      if "item' \<in> set (ib_items (snd (edit_discard index inbox)))"
    proof -
      have "item' \<in> set (take index (ib_items inbox) @ drop (Suc index) (ib_items inbox))"
        using that by (auto simp: edit_discard_def Let_def next_revision_def checked_add_def split: if_splits)
      then show ?thesis by (intro same) (auto dest: in_set_takeD in_set_dropD)
    qed
    have assign: "\<exists>item \<in> set (ib_items inbox). same_owner item item'"
      if "item' \<in> set (ib_items (snd (edit_assign identity index args inbox)))"
        "\<not> (case it_identity ?item of None \<Rightarrow> False | Some owner \<Rightarrow> owner \<noteq> identity)"
      using that changed [OF len] same
      by (auto simp: edit_assign_def Let_def same_owner_def split: option.splits sum.splits if_splits)
    have draft: "\<exists>item \<in> set (ib_items inbox). same_owner item item'"
      if "item' \<in> set (ib_items (snd (edit_draft index args inbox)))"
      using that changed [OF len] same
      by (auto simp: edit_draft_def Let_def same_owner_def split: option.splits sum.splits if_splits)
    have sending: "\<exists>item \<in> set (ib_items inbox). same_owner item item'"
      if "item' \<in> set (ib_items (snd (edit_sending index inbox)))"
      using that changed [OF len] same by (auto simp: edit_sending_def same_owner_def split: if_splits)
    show ?thesis
      using assms same discard assign draft sending by (simp add: edit_def Some split: if_splits)
  qed
qed

lemma distinct_ids: "inbox_ok inbox \<Longrightarrow> a \<in> set (ib_items inbox) \<Longrightarrow> b \<in> set (ib_items inbox) \<Longrightarrow> it_id a = it_id b \<Longrightarrow> a = b"
  by (simp add: inbox_ok_def distinct_map inj_on_def)

lemma step_items:
  assumes "draft_step inbox inbox'" and "item' \<in> set (ib_items inbox')"
  shows "(\<exists>item \<in> set (ib_items inbox). same_owner item item') \<or> \<not> known (it_id item') inbox"
  using assms
proof (induction rule: draft_step.induct)
  case (step_accept inbox sid t subject)
  then have "item' \<in> set (ib_items inbox) \<or> (it_id item' = sid \<and> \<not> known sid inbox)"
    using accept_content_items [of item' sid _ None inbox] by (auto simp: accept_def split: sum.split_asm)
  then show ?case by (auto simp: same_owner_def)
next
  case (step_accept_image inbox sid t subject img)
  then have "item' \<in> set (ib_items inbox) \<or> (it_id item' = sid \<and> \<not> known sid inbox)"
    using accept_content_items [of item' sid _ "Some img" inbox]
    by (cases "if str_trim t = [] then if str_trim subject = [] then Inr [] else normalize subject [] else normalize t subject")
      (simp_all add: accept_image_def)
  then show ?case by (auto simp: same_owner_def)
next
  case (step_edit inbox identity args)
  then show ?case using edit_items by blast
next
  case (step_prune inbox identities)
  then show ?case by (auto simp: prune_def Let_def same_owner_def)
qed

text \<open>No operation, whoever asks for it, changes the recipient or the owner of a draft that has them.\<close>

theorem recipient_fixed:
  assumes "inbox_ok inbox" and "draft_step inbox inbox'" and "item \<in> set (ib_items inbox)" and "item' \<in> set (ib_items inbox')"
    and "it_id item' = it_id item" and "it_recipient item = Some r"
  shows "it_recipient item' = Some r \<and> it_identity item' = it_identity item"
proof -
  have "known (it_id item') inbox" unfolding known_def list_ex_iff assms(5) using assms(3) by blast
  then obtain old where old: "old \<in> set (ib_items inbox)" "same_owner old item'" using step_items [OF assms(2,4)] by blast
  then have "old = item" using distinct_ids [OF assms(1) old(1) assms(3)] old(2) assms(5) unfolding same_owner_def by metis
  moreover have "it_identity item \<noteq> None" using assms(1,3,6) by (simp add: inbox_ok_def item_ok_def)
  ultimately show ?thesis using old(2) assms(6) by (simp add: same_owner_def)
qed

section \<open>Witnesses\<close>

definition sample_id :: ustr where "sample_id = replicate 32 97"

lemma sample_hash: "valid_hash sample_id"
  by (simp add: sample_id_def valid_hash_def str_len_def sum_list_replicate utf8_width_def list_all_iff)

definition sample_item :: item where
  "sample_item = \<lparr>it_id = sample_id, it_revision = dec_string 1, it_text = lit ''hi'', it_identity = Some sample_id,
     it_recipient = Some sample_id, it_send_attempted = False, it_image = None\<rparr>"

definition sample_inbox :: inbox where
  "sample_inbox = \<lparr>ib_version = 1, ib_revision = 1, ib_items = [sample_item], ib_receipts = []\<rparr>"

lemma sample_text: "validate_text (lit ''hi'') = Inr ()"
  by (simp add: validate_text_def MAX_TEXT_BYTES_def lit_Cons str_trim_def is_whitespace_def utf8_width_def)

lemma sample_inbox_ok: "inbox_ok sample_inbox"
  by (auto simp: inbox_ok_def sample_inbox_def MAX_ITEMS_def item_ok_def sample_item_def validate_content_def sample_text
      sample_hash opt_hash_bad_def)

definition sending_edit :: share_edit where
  "sending_edit = \<lparr>se_id = sample_id, se_revision = dec_string 1, se_activity_generation = [], se_identity_generation = [],
     se_operation = lit ''sending'', se_recipient = None, se_text = None\<rparr>"

lemma sample_sending:
  "edit sample_id sending_edit sample_inbox =
    (Inr (Some (sample_item\<lparr>it_send_attempted := True, it_revision := dec_string 2\<rparr>)),
     sample_inbox\<lparr>ib_revision := 2, ib_items := [sample_item\<lparr>it_send_attempted := True, it_revision := dec_string 2\<rparr>]\<rparr>)"
  by (simp add: edit_def sample_hash sending_edit_def sample_inbox_def sample_item_def edit_sending_def put_item_def
      next_revision_def checked_add_def Let_def lit_Cons)

theorem stale_edit_refused_witness:
  "\<exists>e. edit sample_id sending_edit (snd (edit sample_id sending_edit sample_inbox))
    = (Inl e, snd (edit sample_id sending_edit sample_inbox)) \<and> e \<in> {LockedIdentity, DraftChanged}"
proof (rule stale_edit_refused [OF sample_inbox_ok, of 1])
  show "steps draft_step sample_inbox (snd (edit sample_id sending_edit sample_inbox))" by (rule steps_one, rule step_edit)
  show "1 \<in> live_revisions sample_inbox" by (simp add: live_revisions_def sample_inbox_def sample_item_def)
  show "1 \<notin> live_revisions (snd (edit sample_id sending_edit sample_inbox))"
    by (simp add: sample_sending live_revisions_def)
qed (simp_all add: sending_edit_def)

theorem recipient_fixed_witness:
  "it_recipient (sample_item\<lparr>it_send_attempted := True, it_revision := dec_string 2\<rparr>) = Some sample_id
    \<and> it_identity (sample_item\<lparr>it_send_attempted := True, it_revision := dec_string 2\<rparr>) = it_identity sample_item"
proof (rule recipient_fixed [OF sample_inbox_ok])
  show "draft_step sample_inbox (snd (edit sample_id sending_edit sample_inbox))" by (rule step_edit)
  show "sample_item \<in> set (ib_items sample_inbox)" by (simp add: sample_inbox_def)
  show "sample_item\<lparr>it_send_attempted := True, it_revision := dec_string 2\<rparr>
      \<in> set (ib_items (snd (edit sample_id sending_edit sample_inbox)))" by (simp add: sample_sending)
qed (simp_all add: sample_item_def)

theorem transaction_durable_witness:
  "decode_inbox (\<lambda>_. Some (snd (edit sample_id sending_edit sample_inbox))) [65]
    = Inr (snd (edit sample_id sending_edit sample_inbox))"
proof -
  have "transaction (\<lambda>_. Some [65]) (\<lambda>_. Inr ()) (edit sample_id sending_edit) sample_inbox
      = (fst (edit sample_id sending_edit sample_inbox), snd (edit sample_id sending_edit sample_inbox), Some [65])"
    by (simp add: transaction_def sample_sending MAX_STORE_BYTES_def utf8_width_def)
  from transaction_durable [OF this sample_inbox_ok edit_ok, of "\<lambda>_. Some (snd (edit sample_id sending_edit sample_inbox))"]
  show ?thesis by (simp add: sample_sending)
qed

end
