(* ===== verification/Activity_Gate.thy ===== *)
theory Activity_Gate
  imports Rs_Prelude Tokens
begin

text \<open>
  The admission gate of the Activity recorder (\<open>activity/gate.rs\<close>): a 64-bit atomic whose high
  bit closes admission and whose other bits count the producers inside, a generation counter, a
  published slot that is read without a lock, and a mutex that serialises the lifecycle operations.
  The model interleaves the atomic accesses of any number of threads: the program counter of a
  thread names the next access it makes to the shared state, with the local variables it needs
  afterwards, and one step performs that access and the local code up to the next one.  Accesses
  are sequentially consistent; a weak compare-and-exchange may also fail for no reason.
\<close>

unbundle bit_operations_syntax

section \<open>Shared state and results\<close>

datatype capture_profile = Profile_Normal | Profile_Trace

record published =
  pub_profile :: capture_profile
  pub_deadline :: "nat option"

datatype gate_error =
    Not_Closed
  | Readers_Active u64
  | Quiescence_Wait_In_Progress
  | Generation_Mismatch u64 u64
  | Generation_Exhausted
  | Waiter_Count_Exhausted
  | Unexpected_Trace_Deadline
  | State_Changed

abbreviation U64_LAST :: u64 where "U64_LAST \<equiv> - 1"

definition CLOSED_BIT :: u64 where "CLOSED_BIT = push_bit 63 1"
definition READER_MASK :: u64 where "READER_MASK = CLOSED_BIT - 1"

record gate_shared =
  g_state :: u64
  g_generation :: u64
  g_published :: published
  g_waiters :: u64
  g_lock :: "nat option"

record lease =
  lease_generation :: u64
  lease_published :: published

datatype gate_result =
    Admit_Refused
  | Close_Result bool
  | Generation_Result "gate_error + u64"
  | Unit_Result "gate_error + unit"

datatype gate_pc =
    Idle
  | Admit_Load
  | Admit_Generation u64
  | Admit_Cas u64 u64
  | Admit_Confirm u64
  | Admit_Release u64
  | Admit_Fail
  | Admit_Copy u64
  | Leased lease
  | Close_Now
  | Open_Lock u64 published
  | Open_State u64 published
  | Open_Generation u64 published
  | Open_Rmw u64 published
  | Open_Write u64 published
  | Open_Publish u64 published
  | Open_Fail
  | Advance_Lock
  | Advance_Check
  | Advance_Load
  | Advance_Store u64
  | Advance_Fail
  | Reset_Lock
  | Reset_Close
  | Wait_Lock
  | Wait_Check
  | Wait_Cas
  | Wait_Park
  | Unlock gate_result
  | Returned gate_result

datatype gate_call =
    Call_Admit
  | Call_Close
  | Call_Open u64 published
  | Call_Advance
  | Call_Hard_Reset
  | Call_Wait

section \<open>Atomic accesses\<close>

definition closed :: "u64 \<Rightarrow> bool" where "closed s \<longleftrightarrow> s AND CLOSED_BIT \<noteq> 0"
definition readers :: "u64 \<Rightarrow> u64" where "readers s = s AND READER_MASK"

text \<open>\<open>fetch_or(CLOSED_BIT)\<close>, as \<open>close_atomic\<close> and \<open>fail_closed\<close> do it.\<close>

definition fail_closed :: "gate_shared \<Rightarrow> gate_shared" where
  "fail_closed g = g\<lparr>g_state := g_state g OR CLOSED_BIT\<rparr>"

definition close_atomic :: "gate_shared \<Rightarrow> bool \<times> gate_shared" where
  "close_atomic g = (g_state g AND CLOSED_BIT = 0, fail_closed g)"

definition release_reader :: "gate_shared \<Rightarrow> gate_shared" where
  "release_reader g = g\<lparr>g_state := g_state g - 1\<rparr>"

text \<open>Entering the inner loop of \<open>try_admit_inner\<close> with a value of the state: a closed one ends
  the call, otherwise the compare-and-exchange is next.\<close>

definition admit_with :: "u64 \<Rightarrow> u64 \<Rightarrow> gate_pc" where
  "admit_with s ag = (if closed s then Returned Admit_Refused else Admit_Cas s ag)"

definition admit_exchange :: "bool \<Rightarrow> u64 \<Rightarrow> u64 \<Rightarrow> gate_shared \<Rightarrow> gate_pc \<times> gate_shared" where
  "admit_exchange weak s ag g =
    (if weak \<or> g_state g \<noteq> s then (admit_with (g_state g) ag, g)
     else if readers s = READER_MASK
       then (Returned Admit_Refused, g\<lparr>g_state := s OR CLOSED_BIT\<rparr>)
     else (Admit_Confirm ag, g\<lparr>g_state := s + 1\<rparr>))"

definition gate_new :: gate_shared where
  "gate_new = \<lparr>g_state = CLOSED_BIT, g_generation = 0,
     g_published = \<lparr>pub_profile = Profile_Normal, pub_deadline = None\<rparr>,
     g_waiters = 0, g_lock = None\<rparr>"

section \<open>One step of one thread\<close>

text \<open>\<open>None\<close> is a thread that cannot move: it has returned, or it waits for the mutex.\<close>

fun lock_then :: "nat \<Rightarrow> gate_pc \<Rightarrow> gate_shared \<Rightarrow> (gate_pc \<times> gate_shared) option" where
  "lock_then i pc g = (if g_lock g = None then Some (pc, g\<lparr>g_lock := Some i\<rparr>) else None)"

fun admit_step :: "bool \<Rightarrow> gate_pc \<Rightarrow> gate_shared \<Rightarrow> (gate_pc \<times> gate_shared) option" where
  "admit_step weak Admit_Load g =
    Some (if closed (g_state g) then Returned Admit_Refused else Admit_Generation (g_state g), g)"
| "admit_step weak (Admit_Generation s) g =
    Some (if g_generation g = U64_LAST then Admit_Fail else admit_with s (g_generation g), g)"
| "admit_step weak (Admit_Cas s ag) g = Some (admit_exchange weak s ag g)"
| "admit_step weak (Admit_Confirm ag) g =
    Some (if g_generation g \<noteq> ag then Admit_Release (g_generation g) else Admit_Copy ag, g)"
| "admit_step weak (Admit_Release cg) g =
    Some (if cg = U64_LAST then Admit_Fail else Admit_Load, release_reader g)"
| "admit_step weak Admit_Fail g = Some (Returned Admit_Refused, fail_closed g)"
| "admit_step weak (Admit_Copy ag) g =
    Some (Leased \<lparr>lease_generation = ag, lease_published = g_published g\<rparr>, g)"
| "admit_step weak (Leased l) g = Some (Idle, release_reader g)"
| "admit_step weak _ g = None"

definition open_refused :: "gate_error \<Rightarrow> gate_pc" where
  "open_refused e = Unlock (Unit_Result (Inl e))"

definition open_locked :: "u64 \<Rightarrow> published \<Rightarrow> gate_shared \<Rightarrow> gate_pc" where
  "open_locked e p g =
    (if g_waiters g \<noteq> 0 then open_refused Quiescence_Wait_In_Progress
     else if pub_profile p = Profile_Normal \<and> pub_deadline p \<noteq> None
       then open_refused Unexpected_Trace_Deadline
     else Open_State e p)"

fun open_step :: "nat \<Rightarrow> gate_pc \<Rightarrow> gate_shared \<Rightarrow> (gate_pc \<times> gate_shared) option" where
  "open_step i (Open_Lock e p) g = lock_then i (open_locked e p g) g"
| "open_step i (Open_State e p) g =
    Some (if \<not> closed (g_state g) then open_refused Not_Closed
          else if readers (g_state g) \<noteq> 0 then open_refused (Readers_Active (readers (g_state g)))
          else Open_Generation e p, g)"
| "open_step i (Open_Generation e p) g =
    Some (if g_generation g = U64_LAST then open_refused Generation_Exhausted
          else if g_generation g \<noteq> e then open_refused (Generation_Mismatch e (g_generation g))
          else Open_Rmw e p, g)"
| "open_step i (Open_Rmw e p) g =
    Some (if g_state g = CLOSED_BIT then Open_Write e p else Open_Fail, g)"
| "open_step i (Open_Write e p) g = Some (Open_Publish e p, g\<lparr>g_published := p\<rparr>)"
| "open_step i (Open_Publish e p) g =
    Some (if g_state g = CLOSED_BIT then (Unlock (Unit_Result (Inr ())), g\<lparr>g_state := 0\<rparr>)
          else (Open_Fail, g))"
| "open_step i Open_Fail g = Some (open_refused State_Changed, fail_closed g)"
| "open_step i _ g = None"

fun advance_step :: "nat \<Rightarrow> gate_pc \<Rightarrow> gate_shared \<Rightarrow> (gate_pc \<times> gate_shared) option" where
  "advance_step i Advance_Lock g = lock_then i Advance_Check g"
| "advance_step i Advance_Check g =
    Some (if \<not> closed (g_state g) then Unlock (Generation_Result (Inl Not_Closed)) else Advance_Load, g)"
| "advance_step i Advance_Load g =
    Some (if g_generation g = U64_LAST then Advance_Fail else Advance_Store (g_generation g + 1), g)"
| "advance_step i (Advance_Store n) g =
    Some (Unlock (Generation_Result (Inr n)), g\<lparr>g_generation := n\<rparr>)"
| "advance_step i Advance_Fail g =
    Some (Unlock (Generation_Result (Inl Generation_Exhausted)), fail_closed g)"
| "advance_step i Reset_Lock g = lock_then i Reset_Close g"
| "advance_step i Reset_Close g = Some (Advance_Load, snd (close_atomic g))"
| "advance_step i _ g = None"

fun wait_step :: "nat \<Rightarrow> gate_pc \<Rightarrow> gate_shared \<Rightarrow> (gate_pc \<times> gate_shared) option" where
  "wait_step i Wait_Lock g = lock_then i Wait_Check g"
| "wait_step i Wait_Check g =
    Some (if \<not> closed (g_state g) then (Unlock (Unit_Result (Inl Not_Closed)), g)
          else if g_waiters g = U64_LAST then (Unlock (Unit_Result (Inl Waiter_Count_Exhausted)), g)
          else (Wait_Cas, g\<lparr>g_waiters := g_waiters g + 1\<rparr>))"
| "wait_step i Wait_Cas g =
    Some (if g_state g = CLOSED_BIT
          then (Unlock (Unit_Result (Inr ())), g\<lparr>g_waiters := g_waiters g - 1\<rparr>)
          else (Wait_Park, g\<lparr>g_lock := None\<rparr>))"
| "wait_step i Wait_Park g = lock_then i Wait_Cas g"
| "wait_step i _ g = None"

fun call_step :: "nat \<Rightarrow> gate_pc \<Rightarrow> gate_shared \<Rightarrow> (gate_pc \<times> gate_shared) option" where
  "call_step i Close_Now g = Some (Returned (Close_Result (fst (close_atomic g))), snd (close_atomic g))"
| "call_step i (Unlock r) g = Some (Returned r, g\<lparr>g_lock := None\<rparr>)"
| "call_step i _ g = None"

text \<open>The pc alone says which of the operations a thread is in.\<close>

fun pc_step :: "bool \<Rightarrow> nat \<Rightarrow> gate_pc \<Rightarrow> gate_shared \<Rightarrow> (gate_pc \<times> gate_shared) option" where
  "pc_step weak i pc g =
    (case admit_step weak pc g of Some r \<Rightarrow> Some r
     | None \<Rightarrow> (case open_step i pc g of Some r \<Rightarrow> Some r
       | None \<Rightarrow> (case advance_step i pc g of Some r \<Rightarrow> Some r
         | None \<Rightarrow> (case wait_step i pc g of Some r \<Rightarrow> Some r
           | None \<Rightarrow> call_step i pc g))))"

fun call_entry :: "gate_call \<Rightarrow> gate_pc" where
  "call_entry Call_Admit = Admit_Load"
| "call_entry Call_Close = Close_Now"
| "call_entry (Call_Open e p) = Open_Lock e p"
| "call_entry Call_Advance = Advance_Lock"
| "call_entry Call_Hard_Reset = Reset_Lock"
| "call_entry Call_Wait = Wait_Lock"

section \<open>Interleaving\<close>

type_synonym gate = "gate_shared \<times> gate_pc list"

text \<open>What a step means to the outside.\<close>

datatype gate_event =
    Silent
  | Admitted u64
  | Opened u64 published
  | Advanced u64
  | Drained

fun pc_event :: "gate_pc \<Rightarrow> gate_shared \<Rightarrow> gate_event" where
  "pc_event (Admit_Confirm ag) g = (if g_generation g = ag then Admitted ag else Silent)"
| "pc_event (Open_Publish e p) g = (if g_state g = CLOSED_BIT then Opened e p else Silent)"
| "pc_event (Advance_Store n) g = Advanced n"
| "pc_event Wait_Cas g = (if g_state g = CLOSED_BIT then Drained else Silent)"
| "pc_event _ g = Silent"

text \<open>A thread that is idle or has returned may make any call; a call in progress takes its next
  access.\<close>

inductive gate_step :: "gate \<Rightarrow> gate_event \<Rightarrow> gate \<Rightarrow> bool" where
  gate_call: "i < length pcs \<Longrightarrow> pcs ! i = Idle \<or> (\<exists>r. pcs ! i = Returned r) \<Longrightarrow>
    gate_step (g, pcs) Silent (g, pcs[i := call_entry c])"
| gate_access: "i < length pcs \<Longrightarrow> pc_step weak i (pcs ! i) g = Some (pc', g') \<Longrightarrow>
    gate_step (g, pcs) (pc_event (pcs ! i) g) (g', pcs[i := pc'])"

text \<open>Runs, with the events they made visible, in order.\<close>

inductive gate_run :: "gate \<Rightarrow> gate_event list \<Rightarrow> gate \<Rightarrow> bool" where
  run_start [intro!, simp]: "gate_run c [] c"
| run_step: "gate_run c es c' \<Longrightarrow> gate_step c' e c'' \<Longrightarrow> gate_run c (es @ [e]) c''"

definition gate_init :: "nat \<Rightarrow> gate" where
  "gate_init n = (gate_new, replicate n Idle)"

end
