(* ===== verification/Threads.thy ===== *)
theory Threads
  imports Main
begin

text \<open>
  Threads that share a counter: several lock-free components count who is inside with one atomic,
  and need that the counter is exact under every interleaving.  A thread is its program counter; a
  component says which program counters count and gives the accesses its threads make.  The
  interface asks that one access moves the counter as it moves the thread, where an access from
  inside may rely on the counter being positive; its clients get that the counter is the number of
  threads inside, so that leaving never underflows.
\<close>

definition tally :: "('a \<Rightarrow> bool) \<Rightarrow> 'a list \<Rightarrow> nat" where
  "tally P xs = length (filter P xs)"

lemma tally_update:
  assumes "i < length xs"
  shows "tally P (xs[i := x]) + of_bool (P (xs ! i)) = tally P xs + of_bool (P x)"
  using assms
proof (induction xs arbitrary: i)
  case (Cons y xs)
  then show ?case by (cases i) (auto simp: tally_def)
qed simp

lemma tally_pos: "i < length xs \<Longrightarrow> P (xs ! i) \<Longrightarrow> 0 < tally P xs"
  by (auto simp: tally_def filter_empty_conv)

lemma tally_zero: "tally P xs = 0 \<longleftrightarrow> (\<forall>x \<in> set xs. \<not> P x)"
  by (auto simp: tally_def filter_empty_conv)

lemma tally_replicate: "tally P (replicate n x) = of_bool (P x) * n"
  by (simp add: tally_def)

locale thread_counter =
  fixes acc :: "nat \<Rightarrow> 'pc \<Rightarrow> 'g \<Rightarrow> 'pc \<Rightarrow> 'g \<Rightarrow> bool" and count :: "'g \<Rightarrow> nat" and inside :: "'pc \<Rightarrow> bool"
  assumes balance: "acc i pc g pc' g' \<Longrightarrow> (inside pc \<Longrightarrow> 0 < count g) \<Longrightarrow>
    count g' + of_bool (inside pc) = count g + of_bool (inside pc')"
begin

definition exact :: "'g \<Rightarrow> 'pc list \<Rightarrow> bool" where
  "exact g pcs \<longleftrightarrow> count g = tally inside pcs"

lemma exact_pos: "exact g pcs \<Longrightarrow> i < length pcs \<Longrightarrow> inside (pcs ! i) \<Longrightarrow> 0 < count g"
  by (simp add: exact_def tally_pos)

lemma exact_pos_mem: "exact g pcs \<Longrightarrow> pc \<in> set pcs \<Longrightarrow> inside pc \<Longrightarrow> 0 < count g"
  by (auto simp: in_set_conv_nth intro: exact_pos)

lemma exact_empty: "exact g pcs \<Longrightarrow> count g = 0 \<Longrightarrow> pc \<in> set pcs \<Longrightarrow> \<not> inside pc"
  using exact_pos_mem by fastforce

lemma exact_step:
  assumes "exact g pcs" and "i < length pcs" and "acc i (pcs ! i) g pc' g'"
  shows "exact g' (pcs[i := pc'])"
  using balance [OF assms(3) exact_pos [OF assms(1,2)]] tally_update [OF assms(2), of inside pc'] assms(1)
  by (simp add: exact_def)

lemma exact_move:
  assumes "exact g pcs" and "i < length pcs" and "inside pc' = inside (pcs ! i)"
  shows "exact g (pcs[i := pc'])"
  using tally_update [OF assms(2), of inside pc'] assms(1,3) by (simp add: exact_def)

end

end
