(* ===== verification/Activity_Gate_Props.thy ===== *)
theory Activity_Gate_Props
  imports Activity_Gate Threads
begin

text \<open>
  What the gate promises whatever the interleaving: exact reader accounting, no write of the
  published slot while anybody may read it, leases that carry what the latest open published, and
  no admission or reopening under a generation that a reset has retired.
\<close>

section \<open>The state word\<close>

lemma READER_MASK_mask: "READER_MASK = mask 63"
  by (simp add: READER_MASK_def CLOSED_BIT_def mask_eq_decr_exp)

lemma readers_take: "readers s = take_bit 63 s"
  by (simp add: readers_def READER_MASK_mask take_bit_eq_mask)

lemma bit_CLOSED: "bit CLOSED_BIT n \<longleftrightarrow> n = 63"
  unfolding CLOSED_BIT_def bit_push_bit_iff bit_1_iff by auto

lemma closed_bit: "closed s \<longleftrightarrow> bit s 63"
  by (auto simp: closed_def bit_eq_iff [of "s AND CLOSED_BIT" 0] bit_and_iff bit_CLOSED)

lemma unat_state: "unat s = of_bool (closed s) * 2 ^ 63 + unat (readers s)" for s :: u64
proof -
  have "unat s = push_bit 63 (drop_bit 63 (unat s)) + take_bit 63 (unat s)"
    by (simp add: bits_ident)
  moreover have "drop_bit 63 (unat s) = of_bool (bit s 63)"
  proof -
    have "unat s < 2 ^ 64" using unsigned_less [of s] by simp
    then have "drop_bit 63 (unat s) < 2" by (simp add: drop_bit_eq_div)
    moreover have "odd (drop_bit 63 (unat s)) \<longleftrightarrow> bit s 63"
      by (simp add: bit_iff_odd_drop_bit [symmetric] bit_unsigned_iff)
    ultimately show ?thesis by (cases "bit s 63") (auto elim: oddE evenE)
  qed
  ultimately show ?thesis
    by (simp add: closed_bit readers_take unsigned_take_bit_eq push_bit_eq_mult)
qed

lemma unat_readers_less: "unat (readers s) < 2 ^ 63"
  using take_bit_nat_less_exp [of 63 "unat s"] by (simp add: readers_take unsigned_take_bit_eq)

lemma state_eqI: "closed s = closed t \<Longrightarrow> unat (readers s) = unat (readers t) \<Longrightarrow> s = t" for s :: u64
  using unat_state [of s] unat_state [of t] by (simp add: word_eq_iff_unsigned [where ?'a = nat])

text \<open>Reading the two parts off a number of 64 bits.\<close>

lemma state_parts:
  assumes "unat s = of_bool b * 2 ^ 63 + n" and "n < 2 ^ 63"
  shows "closed s = b" and "unat (readers s) = n"
proof -
  note * = unat_state [of s] unat_readers_less [of s] assms
  show c: "closed s = b"
    using * by (cases b; cases "closed s") auto
  show "unat (readers s) = n" using * by (simp add: c)
qed

lemma closed_fail [simp]: "closed (s OR CLOSED_BIT)"
  by (simp add: closed_bit bit_or_iff bit_CLOSED)

lemma readers_fail [simp]: "readers (s OR CLOSED_BIT) = readers s"
  by (rule bit_eqI) (auto simp: readers_take bit_take_bit_iff bit_or_iff bit_CLOSED)

lemma closed_CLOSED [simp]: "closed CLOSED_BIT" and readers_CLOSED [simp]: "readers CLOSED_BIT = 0"
  using closed_fail [of 0] readers_fail [of 0] by (simp_all add: readers_def)

lemma closed_0 [simp]: "\<not> closed 0" and readers_0 [simp]: "readers 0 = 0"
  by (simp_all add: closed_def readers_def)

lemma state_CLOSED_iff: "s = CLOSED_BIT \<longleftrightarrow> closed s \<and> unat (readers s) = 0"
  using state_eqI [of s CLOSED_BIT] by auto

lemma unat_READER_MASK: "unat READER_MASK = 2 ^ 63 - 1"
  by (simp add: READER_MASK_def CLOSED_BIT_def)

lemma state_enter:
  assumes "\<not> closed s" and "readers s \<noteq> READER_MASK"
  shows "\<not> closed (s + 1)" and "unat (readers (s + 1)) = Suc (unat (readers s))"
proof -
  have "unat (readers s) \<noteq> 2 ^ 63 - 1" using assms(2) by (simp add: word_eq_iff_unsigned [where ?'a = nat] unat_READER_MASK)
  then have r: "Suc (unat (readers s)) < 2 ^ 63" using unat_readers_less [of s] by simp
  have s: "unat s = unat (readers s)" using unat_state [of s] assms(1) by simp
  have "s + 1 \<noteq> 0"
  proof
    assume "s + 1 = 0"
    then have "s = - 1" by (simp add: eq_neg_iff_add_eq_0)
    then have "unat s = 2 ^ 64 - 1" by (simp add: unsigned_minus_1_eq_mask mask_eq_exp_minus_1)
    then show False using r s by simp
  qed
  then have "unat (s + 1) = Suc (unat s)" by (simp add: unatSuc add.commute)
  then show "\<not> closed (s + 1)" and "unat (readers (s + 1)) = Suc (unat (readers s))"
    using state_parts [of "s + 1" False "Suc (unat (readers s))"] r s by simp_all
qed

lemma state_leave:
  assumes "0 < unat (readers s)"
  shows "closed (s - 1) = closed s" and "unat (readers (s - 1)) = unat (readers s) - 1"
proof -
  have s: "unat s = of_bool (closed s) * 2 ^ 63 + unat (readers s)" by (rule unat_state)
  then have "s \<noteq> 0" using assms by auto
  then have "unat (s - 1) = unat s - 1" by (simp add: unat_minus_one)
  then have "unat (s - 1) = of_bool (closed s) * 2 ^ 63 + (unat (readers s) - 1)" using s assms by simp
  then show "closed (s - 1) = closed s" and "unat (readers (s - 1)) = unat (readers s) - 1"
    using state_parts [of "s - 1" "closed s" "unat (readers s) - 1"] unat_readers_less [of s] by simp_all
qed

section \<open>Counting threads\<close>

fun counted :: "gate_pc \<Rightarrow> bool" where
  "counted (Admit_Confirm _) = True"
| "counted (Admit_Release _) = True"
| "counted (Admit_Copy _) = True"
| "counted (Leased _) = True"
| "counted _ = False"

fun waiting :: "gate_pc \<Rightarrow> bool" where
  "waiting Wait_Cas = True"
| "waiting Wait_Park = True"
| "waiting _ = False"

fun locked :: "gate_pc \<Rightarrow> bool" where
  "locked (Open_State _ _) = True"
| "locked (Open_Generation _ _) = True"
| "locked (Open_Rmw _ _) = True"
| "locked (Open_Write _ _) = True"
| "locked (Open_Publish _ _) = True"
| "locked Open_Fail = True"
| "locked Advance_Check = True"
| "locked Advance_Load = True"
| "locked (Advance_Store _) = True"
| "locked Advance_Fail = True"
| "locked Reset_Close = True"
| "locked Wait_Check = True"
| "locked Wait_Cas = True"
| "locked (Unlock _) = True"
| "locked _ = False"

section \<open>What each program point knows\<close>

text \<open>The generation and metadata of the latest open.\<close>

fun note_event :: "gate_event \<Rightarrow> (u64 \<times> published) option \<Rightarrow> (u64 \<times> published) option" where
  "note_event (Opened e p) lo = Some (e, p)"
| "note_event _ lo = lo"

definition last_opened :: "gate_event list \<Rightarrow> (u64 \<times> published) option" where
  "last_opened es = fold note_event es None"

lemma last_opened_Nil [simp]: "last_opened [] = None"
  by (simp add: last_opened_def)

lemma last_opened_snoc [simp]: "last_opened (es @ [e]) = note_event e (last_opened es)"
  by (simp add: last_opened_def)

definition gate_readers :: "gate_shared \<Rightarrow> nat" where
  "gate_readers g = unat (readers (g_state g))"

fun pc_ok :: "(u64 \<times> published) option \<Rightarrow> gate_shared \<Rightarrow> gate_pc \<Rightarrow> bool" where
  "pc_ok lo g (Admit_Generation s) = (\<not> closed s)"
| "pc_ok lo g (Admit_Cas s ag) = (\<not> closed s \<and> ag \<le> g_generation g)"
| "pc_ok lo g (Admit_Confirm ag) = (\<exists>e p. lo = Some (e, p) \<and> ag \<le> e)"
| "pc_ok lo g (Admit_Copy ag) = (\<exists>p. lo = Some (ag, p))"
| "pc_ok lo g (Leased l) = (lo = Some (lease_generation l, lease_published l))"
| "pc_ok lo g (Open_Generation e p) = (g_state g = CLOSED_BIT)"
| "pc_ok lo g (Open_Rmw e p) = (g_state g = CLOSED_BIT \<and> g_generation g = e)"
| "pc_ok lo g (Open_Write e p) = (g_state g = CLOSED_BIT \<and> g_generation g = e)"
| "pc_ok lo g (Open_Publish e p) = (g_state g = CLOSED_BIT \<and> g_generation g = e \<and> g_published g = p)"
| "pc_ok lo g Open_Fail = False"
| "pc_ok lo g Advance_Load = closed (g_state g)"
| "pc_ok lo g (Advance_Store n) = (closed (g_state g) \<and> unat n = Suc (unat (g_generation g)))"
| "pc_ok lo g (Unlock r) = (r \<noteq> Unit_Result (Inl State_Changed))"
| "pc_ok lo g (Returned r) = (r \<noteq> Unit_Result (Inl State_Changed))"
| "pc_ok lo g _ = True"

definition shared_ok :: "(u64 \<times> published) option \<Rightarrow> gate_shared \<Rightarrow> bool" where
  "shared_ok lo g \<longleftrightarrow> 0 < gate_readers g \<or> \<not> closed (g_state g) \<longrightarrow>
    (\<exists>e p. lo = Some (e, p) \<and> g_published g = p \<and> e \<le> g_generation g \<and>
           (\<not> closed (g_state g) \<longrightarrow> e = g_generation g))"

section \<open>One step\<close>

lemma gate_readers_fail [simp]: "gate_readers (fail_closed g) = gate_readers g"
  and gate_state_fail [simp]: "g_state (fail_closed g) = g_state g OR CLOSED_BIT"
    "g_generation (fail_closed g) = g_generation g" "g_published (fail_closed g) = g_published g"
    "g_waiters (fail_closed g) = g_waiters g" "g_lock (fail_closed g) = g_lock g"
  by (simp_all add: gate_readers_def fail_closed_def)

lemma release_fields [simp]:
  "g_generation (release_reader g) = g_generation g" "g_published (release_reader g) = g_published g"
  "g_waiters (release_reader g) = g_waiters g" "g_lock (release_reader g) = g_lock g"
  by (simp_all add: release_reader_def)

lemma gate_readers_update [simp]:
  "gate_readers (g\<lparr>g_lock := l\<rparr>) = gate_readers g" "gate_readers (g\<lparr>g_waiters := w\<rparr>) = gate_readers g"
  "gate_readers (g\<lparr>g_generation := n\<rparr>) = gate_readers g" "gate_readers (g\<lparr>g_published := q\<rparr>) = gate_readers g"
  "gate_readers (g\<lparr>g_state := 0\<rparr>) = 0"
  by (simp_all add: gate_readers_def)

lemma release_state:
  assumes "0 < gate_readers g"
  shows "gate_readers (release_reader g) = gate_readers g - 1"
    and "closed (g_state (release_reader g)) = closed (g_state g)"
  using assms state_leave [of "g_state g"] by (simp_all add: gate_readers_def release_reader_def)

lemma readers_zero: "readers (g_state g) = 0 \<longleftrightarrow> gate_readers g = 0"
  by (simp add: gate_readers_def unat_eq_0)

lemma gate_readers_closed: "g_state g = CLOSED_BIT \<longleftrightarrow> closed (g_state g) \<and> gate_readers g = 0"
  by (simp add: state_CLOSED_iff gate_readers_def)

lemma unat_succ: "x \<noteq> U64_LAST \<Longrightarrow> unat (x + 1) = Suc (unat x)" for x :: u64
proof -
  assume "x \<noteq> U64_LAST"
  then have "x + 1 \<noteq> 0" by (simp add: eq_neg_iff_add_eq_0)
  then show ?thesis by (simp add: unatSuc add.commute)
qed

lemma unat_pred: "0 < unat x \<Longrightarrow> unat (x - 1) = unat x - 1" for x :: u64
  by (metis unat_minus_one unat_0 less_irrefl)

lemmas gate_pc_cases = gate_pc.exhaust

text \<open>The four kinds of access to the state, as far as the invariant cares.\<close>

lemma admit_exchange_effect:
  assumes "admit_exchange weak s ag g = (pc', g')" and "\<not> closed s"
  shows "(g' = g \<and> pc' = admit_with (g_state g) ag) \<or>
    (pc' = Returned Admit_Refused \<and> g' = fail_closed g) \<or>
    (pc' = Admit_Confirm ag \<and> \<not> closed (g_state g) \<and> \<not> closed (g_state g') \<and>
     gate_readers g' = Suc (gate_readers g) \<and> g_generation g' = g_generation g \<and>
     g_published g' = g_published g \<and> g_waiters g' = g_waiters g \<and> g_lock g' = g_lock g)"
  using assms state_enter [of s]
  by (auto simp: admit_exchange_def gate_readers_def fail_closed_def split: if_splits)

lemmas gate_code = admit_with_def open_locked_def open_refused_def close_atomic_def

lemma pc_effect_readers:
  assumes "pc_step weak i pc g = Some (pc', g')" and "pc_ok lo g pc"
    and "counted pc \<Longrightarrow> 0 < gate_readers g"
  shows "gate_readers g' + of_bool (counted pc) = gate_readers g + of_bool (counted pc')"
proof (cases pc)
  case (Admit_Cas s ag)
  then show ?thesis using assms admit_exchange_effect [of weak s ag g pc' g']
    by (auto simp: gate_code split: if_splits)
qed (use assms in \<open>auto simp: release_state gate_code gate_readers_closed split: if_splits\<close>)

lemma pc_effect_waiters:
  assumes "pc_step weak i pc g = Some (pc', g')" and "pc_ok lo g pc"
    and "waiting pc \<Longrightarrow> 0 < unat (g_waiters g)"
  shows "unat (g_waiters g') + of_bool (waiting pc) = unat (g_waiters g) + of_bool (waiting pc')"
proof (cases pc)
  case (Admit_Cas s ag)
  then show ?thesis using assms admit_exchange_effect [of weak s ag g pc' g']
    by (auto simp: gate_code split: if_splits)
qed (use assms in \<open>auto simp: gate_code unat_succ unat_pred split: if_splits\<close>)

text \<open>The low bits of the state count the producers inside, the barrier's field the waiters.\<close>

definition gate_access_from :: "nat \<Rightarrow> gate_pc \<Rightarrow> gate_shared \<Rightarrow> gate_pc \<Rightarrow> gate_shared \<Rightarrow> bool" where
  "gate_access_from i pc g pc' g' \<longleftrightarrow>
    (\<exists>weak lo. pc_step weak i pc g = Some (pc', g') \<and> pc_ok lo g pc)"

interpretation inside: thread_counter gate_access_from gate_readers counted
proof unfold_locales
  fix i pc g pc' g'
  assume "gate_access_from i pc g pc' g'" and "counted pc \<Longrightarrow> 0 < gate_readers g"
  then show "gate_readers g' + of_bool (counted pc) = gate_readers g + of_bool (counted pc')"
    using pc_effect_readers unfolding gate_access_from_def by blast
qed

interpretation waiters: thread_counter gate_access_from "\<lambda>g. unat (g_waiters g)" waiting
proof unfold_locales
  fix i pc g pc' g'
  assume "gate_access_from i pc g pc' g'" and "waiting pc \<Longrightarrow> 0 < unat (g_waiters g)"
  then show "unat (g_waiters g') + of_bool (waiting pc) = unat (g_waiters g) + of_bool (waiting pc')"
    using pc_effect_waiters unfolding gate_access_from_def by blast
qed

lemma pc_effect_lock:
  assumes "pc_step weak i pc g = Some (pc', g')" and "pc_ok lo g pc"
    and "locked pc \<longleftrightarrow> g_lock g = Some i"
  shows "g_lock g' = (if locked pc' then Some i else if locked pc then None else g_lock g)"
    and "locked pc' \<Longrightarrow> locked pc \<or> g_lock g = None"
proof -
  have "g_lock g' = (if locked pc' then Some i else if locked pc then None else g_lock g) \<and>
    (locked pc' \<longrightarrow> locked pc \<or> g_lock g = None)"
  proof (cases pc)
    case (Admit_Cas s ag)
    then show ?thesis using assms admit_exchange_effect [of weak s ag g pc' g']
      by (auto simp: gate_code split: if_splits)
  qed (use assms in \<open>auto simp: gate_code split: if_splits\<close>)
  then show "g_lock g' = (if locked pc' then Some i else if locked pc then None else g_lock g)"
    and "locked pc' \<Longrightarrow> locked pc \<or> g_lock g = None" by auto
qed

lemma pc_effect_shared:
  assumes "pc_step weak i pc g = Some (pc', g')" and "pc_ok lo g pc"
    and "counted pc \<Longrightarrow> 0 < gate_readers g" and "shared_ok lo g"
  shows "shared_ok (note_event (pc_event pc g) lo) g'"
proof (cases pc)
  case (Admit_Cas s ag)
  then show ?thesis using assms admit_exchange_effect [of weak s ag g pc' g']
    by (auto simp: gate_code shared_ok_def split: if_splits)
qed (use assms in \<open>auto simp: release_state gate_code gate_readers_closed shared_ok_def word_le_nat_alt
    split: if_splits\<close>)

lemma pc_effect_ok:
  assumes "pc_step weak i pc g = Some (pc', g')" and "pc_ok lo g pc"
    and "counted pc \<Longrightarrow> 0 < gate_readers g" and "shared_ok lo g"
  shows "pc_ok (note_event (pc_event pc g) lo) g' pc'"
proof (cases pc)
  case (Admit_Cas s ag)
  then show ?thesis using assms admit_exchange_effect [of weak s ag g pc' g']
    by (auto simp: gate_code shared_ok_def split: if_splits)
next
  case (Admit_Confirm ag)
  then show ?thesis using assms by (auto simp: shared_ok_def split: if_splits intro: antisym)
next
  case (Admit_Copy ag)
  then show ?thesis using assms by (auto simp: shared_ok_def)
qed (use assms in \<open>auto simp: release_state gate_code gate_readers_closed readers_zero unat_succ
    split: if_splits\<close>)

text \<open>What a step leaves to the other threads: the generation only grows, what an open
  published stays while anybody is counted, and whoever holds the mutex sees a closed gate stay
  closed and everything but the state unchanged.\<close>

lemma pc_effect_generation:
  assumes "pc_step weak i pc g = Some (pc', g')" and "pc_ok lo g pc"
  shows "g_generation g \<le> g_generation g'"
proof (cases pc)
  case (Admit_Cas s ag)
  then show ?thesis using assms admit_exchange_effect [of weak s ag g pc' g'] by auto
qed (use assms in \<open>auto simp: gate_code word_le_nat_alt split: if_splits\<close>)

lemma pc_effect_last:
  assumes "pc_step weak i pc g = Some (pc', g')" and "0 < gate_readers g"
  shows "note_event (pc_event pc g) lo = lo"
  using assms by (cases pc) (auto simp: gate_readers_closed)

lemma pc_effect_unlocked:
  assumes "pc_step weak i pc g = Some (pc', g')" and "pc_ok lo g pc" and "\<not> locked pc"
    and "counted pc \<Longrightarrow> 0 < gate_readers g"
  shows "g_generation g' = g_generation g" and "g_published g' = g_published g"
    and "closed (g_state g) \<Longrightarrow> closed (g_state g')"
    and "g_state g = CLOSED_BIT \<Longrightarrow> g_state g' = CLOSED_BIT"
proof -
  have "g_generation g' = g_generation g \<and> g_published g' = g_published g \<and>
    (closed (g_state g) \<longrightarrow> closed (g_state g') \<and> (gate_readers g = 0 \<longrightarrow> gate_readers g' = 0))"
  proof (cases pc)
    case (Admit_Cas s ag)
    then show ?thesis using assms admit_exchange_effect [of weak s ag g pc' g'] by auto
  qed (use assms in \<open>auto simp: gate_code release_state gate_readers_closed split: if_splits\<close>)
  then show "g_generation g' = g_generation g" and "g_published g' = g_published g"
    and "closed (g_state g) \<Longrightarrow> closed (g_state g')"
    and "g_state g = CLOSED_BIT \<Longrightarrow> g_state g' = CLOSED_BIT"
    by (auto simp: gate_readers_closed)
qed

lemma pc_others:
  assumes step: "pc_step weak i pc g = Some (pc', g')" and ok: "pc_ok lo g pc" "pc_ok lo g other"
    and pos: "counted pc \<Longrightarrow> 0 < gate_readers g"
    and mutex: "locked other \<Longrightarrow> \<not> locked pc" and counts: "counted other \<Longrightarrow> 0 < gate_readers g"
  shows "pc_ok (note_event (pc_event pc g) lo) g' other"
proof (cases "locked other")
  case True
  note * = pc_effect_unlocked [OF step ok(1) mutex [OF True] pos]
  show ?thesis using ok(2) True * by (cases other) auto
next
  case False
  have "g_generation g \<le> g_generation g'" by (rule pc_effect_generation [OF step ok(1)])
  moreover have "counted other \<Longrightarrow> note_event (pc_event pc g) lo = lo"
    using pc_effect_last [OF step counts] .
  ultimately show ?thesis using ok(2) False by (cases other) auto
qed

section \<open>Runs\<close>

definition gate_ok :: "(u64 \<times> published) option \<Rightarrow> gate \<Rightarrow> bool" where
  "gate_ok lo = (\<lambda>(g, pcs).
    inside.exact g pcs \<and> waiters.exact g pcs \<and>
    (\<forall>i. g_lock g = Some i \<longleftrightarrow> i < length pcs \<and> locked (pcs ! i)) \<and>
    (\<forall>pc \<in> set pcs. pc_ok lo g pc) \<and> shared_ok lo g)"


lemma gate_ok_init: "gate_ok None (gate_init n)"
  by (auto simp: gate_ok_def gate_init_def gate_new_def gate_readers_def tally_zero shared_ok_def
      inside.exact_def waiters.exact_def)

lemma gate_ok_access:
  assumes ok: "gate_ok lo (g, pcs)" and i: "i < length pcs"
    and step: "pc_step weak i (pcs ! i) g = Some (pc', g')"
  shows "gate_ok (note_event (pc_event (pcs ! i) g) lo) (g', pcs[i := pc'])"
proof -
  have rd: "inside.exact g pcs" and wt: "waiters.exact g pcs"
    and lock: "\<And>j. g_lock g = Some j \<longleftrightarrow> j < length pcs \<and> locked (pcs ! j)"
    and all: "\<And>pc. pc \<in> set pcs \<Longrightarrow> pc_ok lo g pc" and sh: "shared_ok lo g"
    using ok by (auto simp: gate_ok_def)
  have me: "pc_ok lo g (pcs ! i)" using all i by simp
  note posi = inside.exact_pos [OF rd i]
  have acc: "gate_access_from i (pcs ! i) g pc' g'" using step me unfolding gate_access_from_def by blast
  have mine: "locked (pcs ! i) \<longleftrightarrow> g_lock g = Some i" using lock i by simp
  note L = pc_effect_lock [OF step me mine]
  have "inside.exact g' (pcs[i := pc'])" and "waiters.exact g' (pcs[i := pc'])"
    by (rule inside.exact_step [OF rd i acc], rule waiters.exact_step [OF wt i acc])
  moreover have "g_lock g' = Some j \<longleftrightarrow> j < length pcs \<and> locked (pcs[i := pc'] ! j)" for j
  proof (cases "j = i")
    case True
    then show ?thesis using L mine i by (cases "locked pc'"; cases "locked (pcs ! i)") simp_all
  next
    case False
    then show ?thesis using L mine lock [of j]
      by (cases "locked pc'"; cases "locked (pcs ! i)") auto
  qed
  moreover have "pc_ok (note_event (pc_event (pcs ! i) g) lo) g' (pcs[i := pc'] ! j)"
    if j: "j < length pcs" for j
  proof (cases "j = i")
    case True
    then show ?thesis using pc_effect_ok [OF step me posi sh] j by simp
  next
    case False
    have "locked (pcs ! j) \<Longrightarrow> \<not> locked (pcs ! i)" using lock [of i] lock [of j] False j i by auto
    moreover have "pc_ok lo g (pcs ! j)" and "counted (pcs ! j) \<Longrightarrow> 0 < gate_readers g"
      using all inside.exact_pos [OF rd j] nth_mem [OF j] by blast+
    ultimately have "pc_ok (note_event (pc_event (pcs ! i) g) lo) g' (pcs ! j)"
      using pc_others [OF step me _ posi] by blast
    then show ?thesis using False by simp
  qed
  moreover have "shared_ok (note_event (pc_event (pcs ! i) g) lo) g'"
    by (rule pc_effect_shared [OF step me posi sh])
  ultimately show ?thesis by (auto simp: gate_ok_def in_set_conv_nth)
qed

lemma gate_ok_call:
  assumes "gate_ok lo (g, pcs)" and "i < length pcs" and "pcs ! i = Idle \<or> (\<exists>r. pcs ! i = Returned r)"
  shows "gate_ok lo (g, pcs[i := call_entry c])"
proof -
  have e: "\<not> counted (call_entry c)" "\<not> waiting (call_entry c)" "\<not> locked (call_entry c)"
      "pc_ok lo g (call_entry c)" by (cases c; simp)+
  have p: "\<not> counted (pcs ! i)" "\<not> waiting (pcs ! i)" "\<not> locked (pcs ! i)" using assms(3) by auto
  have "inside.exact g (pcs[i := call_entry c])" and "waiters.exact g (pcs[i := call_entry c])"
    using assms(1) e p by (auto simp: gate_ok_def intro!: inside.exact_move waiters.exact_move assms(2))
  moreover have "j < length pcs \<and> locked (pcs[i := call_entry c] ! j) \<longleftrightarrow> j < length pcs \<and> locked (pcs ! j)" for j
    using e p by (cases "j = i") auto
  moreover have "\<forall>pc \<in> set (pcs[i := call_entry c]). pc_ok lo g pc"
    using assms(1) e(4) set_update_subset_insert [of pcs i "call_entry c"] by (auto simp: gate_ok_def)
  ultimately show ?thesis using assms(1) by (simp add: gate_ok_def)
qed

lemma gate_ok_step: "gate_step c e c' \<Longrightarrow> gate_ok lo c \<Longrightarrow> gate_ok (note_event e lo) c'"
  by (induction rule: gate_step.induct) (auto intro: gate_ok_access gate_ok_call)

lemma gate_ok_run: "gate_run (gate_init n) es c \<Longrightarrow> gate_ok (last_opened es) c"
  by (induction "gate_init n" es c rule: gate_run.induct) (auto simp: gate_ok_init gate_ok_step)

lemma gate_run_append: "gate_run c (es @ fs) d \<Longrightarrow> \<exists>m. gate_run c es m \<and> gate_run m fs d"
proof (induction fs arbitrary: d rule: rev_induct)
  case (snoc f fs)
  from snoc.prems have "gate_run c ((es @ fs) @ [f]) d" by simp
  then obtain d' where "gate_run c (es @ fs) d'" and "gate_step d' f d"
    by (cases rule: gate_run.cases) auto
  then show ?case using snoc.IH [of d'] by (auto intro: run_step)
qed auto

lemma gate_run_trans: "gate_run m fs d \<Longrightarrow> gate_run c es m \<Longrightarrow> gate_run c (es @ fs) d"
proof (induction rule: gate_run.induct)
  case (run_step m fs d e d')
  then have "gate_run c ((es @ fs) @ [e]) d'" using gate_run.run_step by blast
  then show ?case by simp
qed simp

text \<open>The generation an event is stamped with.\<close>

fun stamped :: "gate_event \<Rightarrow> u64 option" where
  "stamped (Admitted a) = Some a"
| "stamped (Opened a _) = Some a"
| "stamped (Advanced a) = Some a"
| "stamped _ = None"

lemma step_stamp:
  assumes "gate_step (g, pcs) e (g', pcs')" and "gate_ok lo (g, pcs)"
  shows "g_generation g \<le> g_generation g'" and "stamped e = Some a \<Longrightarrow> g_generation g \<le> a"
    and "e = Advanced n \<Longrightarrow> g_generation g' = n \<and> g_generation g < n"
proof -
  have "g_generation g \<le> g_generation g' \<and> (stamped e = Some a \<longrightarrow> g_generation g \<le> a) \<and>
    (e = Advanced n \<longrightarrow> g_generation g' = n \<and> g_generation g < n)"
    using assms(1)
  proof (cases rule: gate_step.cases)
    case (gate_access i weak pc')
    have me: "pc_ok lo g (pcs ! i)" using assms(2) gate_access(3) by (simp add: gate_ok_def)
    have le: "g_generation g \<le> g_generation g'" by (rule pc_effect_generation [OF gate_access(4) me])
    show ?thesis
      using gate_access(1,2,4) me le
      by (cases "pcs ! i") (auto simp: word_less_nat_alt word_le_nat_alt split: if_splits)
  qed simp
  then show "g_generation g \<le> g_generation g'" and "stamped e = Some a \<Longrightarrow> g_generation g \<le> a"
    and "e = Advanced n \<Longrightarrow> g_generation g' = n \<and> g_generation g < n" by auto
qed

lemma run_stamps:
  assumes "gate_run (gate_init n) (es @ fs) (g', pcs')" and "gate_run (gate_init n) es (g, pcs)"
    and "gate_run (g, pcs) fs (g', pcs')"
  shows "g_generation g \<le> g_generation g' \<and> (\<forall>e \<in> set fs. \<forall>a. stamped e = Some a \<longrightarrow> g_generation g \<le> a)"
  using assms(3)
proof (induction "(g, pcs)" fs "(g', pcs')" arbitrary: g' pcs' rule: gate_run.induct)
  case (run_step fs c' e g' pcs')
  obtain h qs where c': "c' = (h, qs)" by (cases c')
  have "gate_run (gate_init n) (es @ fs) (h, qs)"
    using gate_run_trans run_step.hyps(1) assms(2) c' by blast
  note ok = gate_ok_run [OF this]
  note st = step_stamp [OF run_step.hyps(3) [unfolded c'] ok]
  have "g_generation g \<le> g_generation h" and "\<forall>e \<in> set fs. \<forall>a. stamped e = Some a \<longrightarrow> g_generation g \<le> a"
    using run_step.hyps(2) [OF c'] by auto
  then show ?case using st(1) st(2) by (auto intro: order_trans)
qed simp

lemma drained_stays:
  assumes "gate_run (g, pcs) fs c" and "gate_run (gate_init n) es (g, pcs)"
    and "g_state g = CLOSED_BIT" and "\<forall>a p. Opened a p \<notin> set fs"
  shows "g_state (fst c) = CLOSED_BIT"
  using assms(1,4)
proof (induction "(g, pcs)" fs c rule: gate_run.induct)
  case run_start
  then show ?case using assms(3) by simp
next
  case (run_step fs c' e c'')
  obtain h qs where c': "c' = (h, qs)" by (cases c')
  have shut: "g_state h = CLOSED_BIT" using run_step.hyps(2) run_step.prems c' by simp
  have ok: "gate_ok (last_opened (es @ fs)) (h, qs)"
    using gate_ok_run gate_run_trans run_step.hyps(1) assms(2) c' by blast
  from run_step.hyps(3) [unfolded c'] show ?case
  proof (cases rule: gate_step.cases)
    case (gate_access i weak pc' h')
    have me: "pc_ok (last_opened (es @ fs)) h (qs ! i)" using ok gate_access(3) by (simp add: gate_ok_def)
    have idle: "\<not> counted (qs ! i)"
      using inside.exact_empty [of h qs] ok shut gate_access(3) by (simp add: gate_ok_def gate_readers_closed)
    have quiet: "\<forall>a p. e \<noteq> Opened a p" using run_step.prems by auto
    show ?thesis
    proof (cases "locked (qs ! i)")
      case True
      then show ?thesis using gate_access shut me quiet
        by (cases "qs ! i") (auto simp: gate_code gate_readers_closed split: if_splits)
    next
      case False
      then show ?thesis using pc_effect_unlocked(4) [OF gate_access(4) me False] idle shut gate_access(2) by simp
    qed
  qed (use shut in simp)
qed

section \<open>Properties\<close>

text \<open>C34: The slot that is read without a lock is written only while nobody is counted: when a
  thread is about to write it, no other thread holds a lease, is between entering and copying the
  slot, or is about to write it as well.  So the two never race.\<close>

theorem slot_write_exclusive:
  assumes "gate_run (gate_init n) es (g, pcs)" and "i < length pcs" and "j < length pcs" and "i \<noteq> j"
    and "pcs ! i = Open_Write a p"
  shows "\<not> counted (pcs ! j) \<and> (\<forall>b q. pcs ! j \<noteq> Open_Write b q)"
proof -
  note ok = gate_ok_run [OF assms(1)]
  have "pc_ok (last_opened es) g (pcs ! i)" using ok assms(2) by (simp add: gate_ok_def)
  then have "gate_readers g = 0" using assms(5) by (simp add: gate_readers_closed)
  then have "\<not> counted (pcs ! j)" using inside.exact_empty [of g pcs] ok assms(3) by (simp add: gate_ok_def)
  moreover have "\<not> locked (pcs ! j)"
  proof
    assume "locked (pcs ! j)"
    moreover have "locked (pcs ! i)" using assms(5) by simp
    ultimately have "g_lock g = Some i" and "g_lock g = Some j" using ok assms(2,3) by (simp_all add: gate_ok_def)
    then show False using assms(4) by simp
  qed
  ultimately show ?thesis by auto
qed

text \<open>C35: Whoever holds a lease holds the profile and deadline that the latest open published, under
  the generation of that open, and the low bits of the state count exactly the threads inside.\<close>

theorem lease_is_latest_open:
  assumes "gate_run (gate_init n) es (g, pcs)" and "i < length pcs" and "pcs ! i = Leased l"
  shows "last_opened es = Some (lease_generation l, lease_published l) \<and> g_published g = lease_published l \<and>
    lease_generation l \<le> g_generation g \<and> unat (readers (g_state g)) = length (filter counted pcs)"
proof -
  note ok = gate_ok_run [OF assms(1)]
  have l: "last_opened es = Some (lease_generation l, lease_published l)"
    using ok assms(2,3) by (auto simp: gate_ok_def dest: bspec [OF _ nth_mem])
  have "0 < gate_readers g" using inside.exact_pos [OF _ assms(2)] ok assms(3) by (simp add: gate_ok_def)
  then have "g_published g = lease_published l \<and> lease_generation l \<le> g_generation g"
    using ok l by (auto simp: gate_ok_def shared_ok_def)
  then show ?thesis using l ok by (simp add: gate_ok_def gate_readers_def tally_def inside.exact_def)
qed

text \<open>Once a reset or an advance has moved the generation to \<open>m\<close>, nobody is admitted and nothing
  is opened under an older one, and no later advance goes back.\<close>

theorem retired_generation_is_final:
  assumes "gate_run (gate_init n) (es @ Advanced m # fs) c"
  shows "(\<forall>a. Admitted a \<in> set fs \<longrightarrow> m \<le> a) \<and> (\<forall>a p. Opened a p \<in> set fs \<longrightarrow> m \<le> a) \<and>
    (\<forall>a. Advanced a \<in> set fs \<longrightarrow> m \<le> a) \<and> m \<le> g_generation (fst c)"
proof -
  have "gate_run (gate_init n) ((es @ [Advanced m]) @ fs) c" using assms by simp
  then obtain h where h: "gate_run (gate_init n) (es @ [Advanced m]) h" "gate_run h fs c"
    using gate_run_append by blast
  from h(1) obtain k where k: "gate_run (gate_init n) es k" "gate_step k (Advanced m) h"
    by (cases rule: gate_run.cases) auto
  obtain gk pk gh ph gc pc where s: "k = (gk, pk)" "h = (gh, ph)" "c = (gc, pc)"
    by (cases k; cases h; cases c)
  have "gate_ok (last_opened es) (gk, pk)" using gate_ok_run k(1) s by blast
  then have m: "g_generation gh = m" using step_stamp(3) k(2) s by blast
  have "gate_run (gate_init n) ((es @ [Advanced m]) @ fs) (gc, pc)" using assms s by simp
  from run_stamps [OF this h(1) [unfolded s] h(2) [unfolded s]]
  have "m \<le> g_generation gc" and st: "\<And>e a. e \<in> set fs \<Longrightarrow> stamped e = Some a \<Longrightarrow> m \<le> a"
    by (auto simp: m)
  then show ?thesis using st [of "Admitted _"] st [of "Opened _ _"] st [of "Advanced _"] s by auto
qed

text \<open>A quiescence wait that succeeds found the gate drained, and it stays closed and empty until
  somebody opens it again.\<close>

theorem drained_until_opened:
  assumes "gate_run (gate_init n) (es @ Drained # fs) (g, pcs)" and "\<forall>a p. Opened a p \<notin> set fs"
  shows "g_state g = CLOSED_BIT \<and> (\<forall>pc \<in> set pcs. \<not> counted pc)"
proof -
  have "gate_run (gate_init n) ((es @ [Drained]) @ fs) (g, pcs)" using assms(1) by simp
  then obtain h where h: "gate_run (gate_init n) (es @ [Drained]) h" "gate_run h fs (g, pcs)"
    using gate_run_append by blast
  from h(1) obtain k where k: "gate_run (gate_init n) es k" "gate_step k Drained h"
    by (cases rule: gate_run.cases) auto
  obtain gh ph where s: "h = (gh, ph)" by (cases h)
  have "g_state gh = CLOSED_BIT" using k(2) unfolding s
  proof (cases rule: gate_step.cases)
    case (gate_access i pcs w g pc')
    then show ?thesis by (cases "pcs ! i") (auto split: if_splits)
  qed
  then have "g_state g = CLOSED_BIT" using drained_stays [OF h(2) [unfolded s] h(1) [unfolded s]] assms(2) by simp
  moreover have "gate_ok (last_opened (es @ Drained # fs)) (g, pcs)" by (rule gate_ok_run [OF assms(1)])
  ultimately show ?thesis using inside.exact_empty by (auto simp: gate_ok_def gate_readers_closed)
qed

text \<open>The opener's two exchanges never fail: the state it checked cannot change under it.\<close>

lemma open_never_state_changed:
  assumes "gate_run (gate_init n) es (g, pcs)"
  shows "Returned (Unit_Result (Inl State_Changed)) \<notin> set pcs"
  using gate_ok_run [OF assms] by (auto simp: gate_ok_def)

section \<open>A schedule\<close>

text \<open>Runs a schedule: \<open>(i, Some c)\<close> lets thread \<open>i\<close> call \<open>c\<close>, \<open>(i, None)\<close> lets it make its next
  access.\<close>

fun at_rest :: "gate_pc \<Rightarrow> bool" where
  "at_rest Idle = True"
| "at_rest (Returned _) = True"
| "at_rest _ = False"

fun gate_exec :: "gate \<Rightarrow> (nat \<times> gate_call option) list \<Rightarrow> (gate_event list \<times> gate) option" where
  "gate_exec c [] = Some ([], c)"
| "gate_exec (g, pcs) ((i, Some call) # xs) =
    (if i < length pcs \<and> at_rest (pcs ! i)
     then map_option (\<lambda>(es, d). (Silent # es, d)) (gate_exec (g, pcs[i := call_entry call]) xs)
     else None)"
| "gate_exec (g, pcs) ((i, None) # xs) =
    (if i < length pcs
     then (case pc_step False i (pcs ! i) g of None \<Rightarrow> None
       | Some (pc', g') \<Rightarrow> map_option (\<lambda>(es, d). (pc_event (pcs ! i) g # es, d)) (gate_exec (g', pcs[i := pc']) xs))
     else None)"

lemma gate_run_Cons: "gate_step c e m \<Longrightarrow> gate_run m es d \<Longrightarrow> gate_run c (e # es) d"
  using gate_run_trans [of m es d c "[e]"] run_step [OF run_start, of c e m] by simp

lemma gate_exec_run: "gate_exec c xs = Some (es, d) \<Longrightarrow> gate_run c es d"
proof (induction c xs arbitrary: es rule: gate_exec.induct)
  case (2 g pcs i call xs)
  have "pcs ! i = Idle \<or> (\<exists>r. pcs ! i = Returned r)" if "at_rest (pcs ! i)"
    using that by (cases "pcs ! i") auto
  then show ?case using 2 by (auto split: if_splits intro!: gate_run_Cons gate_call)
next
  case (3 g pcs i xs)
  then show ?case
    by (auto simp del: pc_step.simps split: if_splits option.splits intro!: gate_run_Cons gate_access)
qed simp

definition demo_pub :: published where
  "demo_pub = \<lparr>pub_profile = Profile_Trace, pub_deadline = Some 7\<rparr>"

definition demo_open :: "(nat \<times> gate_call option) list" where
  "demo_open = (0, Some (Call_Open 0 demo_pub)) # replicate 4 (0, None)"

lemma demo_write:
  "gate_run (gate_init 2) (replicate 5 Silent)
    (gate_new\<lparr>g_lock := Some 0\<rparr>, [Open_Write 0 demo_pub, Idle])"
  by (rule gate_exec_run [of _ demo_open]) code_simp

lemma demo_lease:
  "gate_run (gate_init 2) (replicate 6 Silent @ [Opened 0 demo_pub] @ replicate 5 Silent @ [Admitted 0, Silent])
    (gate_new\<lparr>g_state := 1, g_published := demo_pub\<rparr>,
     [Returned (Unit_Result (Inr ())), Leased \<lparr>lease_generation = 0, lease_published = demo_pub\<rparr>])"
  by (rule gate_exec_run [of _ "demo_open @ replicate 3 (0, None) @ (1, Some Call_Admit) # replicate 5 (1, None)"])
    code_simp

lemma demo_reset:
  "gate_run (gate_init 1) (replicate 4 Silent @ Advanced 1 # replicate 7 Silent @ [Opened 1 demo_pub])
    (gate_new\<lparr>g_state := 0, g_generation := 1, g_published := demo_pub, g_lock := Some 0\<rparr>,
     [Unlock (Unit_Result (Inr ()))])"
  by (rule gate_exec_run [of _ "(0, Some Call_Hard_Reset) # replicate 5 (0, None) @
      (0, Some (Call_Open 1 demo_pub)) # replicate 6 (0, None)"]) code_simp

lemma demo_drained:
  "gate_run (gate_init 1) (replicate 3 Silent @ Drained # [Silent])
    (gate_new, [Returned (Unit_Result (Inr ()))])"
  by (rule gate_exec_run [of _ "(0, Some Call_Wait) # replicate 4 (0, None)"]) code_simp

theorem slot_write_exclusive_witness: "\<not> counted Idle \<and> (\<forall>b q. Idle \<noteq> Open_Write b q)"
  using slot_write_exclusive [OF demo_write, of 0 1 0 demo_pub] by simp

theorem lease_is_latest_open_witness:
  "last_opened (replicate 6 Silent @ [Opened 0 demo_pub] @ replicate 5 Silent @ [Admitted 0, Silent]) =
     Some (0, demo_pub) \<and> unat (readers 1) = 1"
  using lease_is_latest_open [OF demo_lease, of 1 "\<lparr>lease_generation = 0, lease_published = demo_pub\<rparr>"]
  by simp

theorem retired_generation_is_final_witness:
  "Opened 1 demo_pub \<in> set (replicate 7 Silent @ [Opened 1 demo_pub]) \<and> (1 :: u64) \<le> 1"
  using retired_generation_is_final [OF demo_reset] by auto

theorem drained_until_opened_witness: "g_state gate_new = CLOSED_BIT"
  using drained_until_opened [OF demo_drained] by simp

end
