(* ===== verification/Activity_Admission.thy ===== *)
theory Activity_Admission
  imports Activity_Gate Threads
begin

text \<open>
  Rate admission of the Activity recorder (\<open>activity/admission.rs\<close>): GCRA buckets per profile and
  domain, and the pool of low-priority permits.  A tick is a nanosecond count in a \<open>u64\<close>, written as
  a natural number with its bound.  A compare-and-exchange loop takes effect on the value its last
  round observed; the values that rival threads put in between are a parameter of the loop.
\<close>

section \<open>The generic cell rate algorithm\<close>

datatype activity_severity = Severity_Info | Severity_Warning | Severity_Error

datatype rate_domain =
    Domain_Network | Domain_Interfaces | Domain_Links | Domain_Messages
  | Domain_Channels | Domain_Calls | Domain_Apps | Domain_Ratspeak

definition RATE_DOMAIN_COUNT :: nat where "RATE_DOMAIN_COUNT = 8"

fun rate_domain_index :: "rate_domain \<Rightarrow> nat" where
  "rate_domain_index Domain_Network = 0"
| "rate_domain_index Domain_Interfaces = 1"
| "rate_domain_index Domain_Links = 2"
| "rate_domain_index Domain_Messages = 3"
| "rate_domain_index Domain_Channels = 4"
| "rate_domain_index Domain_Calls = 5"
| "rate_domain_index Domain_Apps = 6"
| "rate_domain_index Domain_Ratspeak = 7"

definition INGRESS_CAPACITY :: nat where "INGRESS_CAPACITY = 1024"
definition RESERVED_PRIORITY_SLOTS :: nat where "RESERVED_PRIORITY_SLOTS = 64"
definition LOW_PRIORITY_LIMIT :: nat where "LOW_PRIORITY_LIMIT = INGRESS_CAPACITY - RESERVED_PRIORITY_SLOTS"
definition NANOS_PER_SECOND :: nat where "NANOS_PER_SECOND = 1000000000"
definition NORMAL_RATE_PER_SECOND :: nat where "NORMAL_RATE_PER_SECOND = 50"
definition TRACE_RATE_PER_SECOND :: nat where "TRACE_RATE_PER_SECOND = 100"
definition AMBIENT_RATE_PER_SECOND :: nat where "AMBIENT_RATE_PER_SECOND = 5"
definition AMBIENT_BURST_CAPACITY :: nat where "AMBIENT_BURST_CAPACITY = 25"

record gcra_bucket =
  theoretical_arrival :: nat
  interval :: nat
  burst_window :: nat

definition gcra_per_second :: "nat \<Rightarrow> nat \<Rightarrow> gcra_bucket" where
  "gcra_per_second rate capacity =
    (let iv = NANOS_PER_SECOND div rate
     in \<lparr>theoretical_arrival = 0, interval = iv, burst_window = sat_mul U64_MAX iv capacity\<rparr>)"

definition gcra_reset :: "nat \<Rightarrow> gcra_bucket \<Rightarrow> gcra_bucket" where
  "gcra_reset now b = b\<lparr>theoretical_arrival := now\<rparr>"

text \<open>One round: the value the exchange would store, unless the round refuses.\<close>

definition gcra_next :: "gcra_bucket \<Rightarrow> nat \<Rightarrow> nat \<Rightarrow> nat option" where
  "gcra_next b now observed =
    (case checked_add U64_MAX (max observed now) (interval b) of
       None \<Rightarrow> None
     | Some n \<Rightarrow> (let deadline = sat_add U64_MAX now (burst_window b)
                 in if deadline < n then None else Some n))"

text \<open>The loop: each rival makes one exchange fail and shows the value it stored.\<close>

fun gcra_loop :: "gcra_bucket \<Rightarrow> nat \<Rightarrow> nat \<Rightarrow> nat list \<Rightarrow> bool \<times> gcra_bucket" where
  "gcra_loop b now observed [] =
    (case gcra_next b now observed of
       None \<Rightarrow> (False, b\<lparr>theoretical_arrival := observed\<rparr>)
     | Some n \<Rightarrow> (True, b\<lparr>theoretical_arrival := n\<rparr>))"
| "gcra_loop b now observed (actual # rivals) =
    (case gcra_next b now observed of
       None \<Rightarrow> (False, b\<lparr>theoretical_arrival := last (actual # rivals)\<rparr>)
     | Some n \<Rightarrow> gcra_loop b now actual rivals)"

definition gcra_try_take :: "nat \<Rightarrow> gcra_bucket \<Rightarrow> bool \<times> gcra_bucket" where
  "gcra_try_take now b = gcra_loop b now (theoretical_arrival b) []"

section \<open>Buckets per profile and domain\<close>

record profile_buckets =
  global_bucket :: gcra_bucket
  domain_buckets :: "gcra_bucket list"

definition profile_per_second :: "nat \<Rightarrow> profile_buckets" where
  "profile_per_second rate =
    \<lparr>global_bucket = gcra_per_second rate rate,
     domain_buckets = replicate RATE_DOMAIN_COUNT (gcra_per_second rate rate)\<rparr>"

definition profile_reset :: "nat \<Rightarrow> profile_buckets \<Rightarrow> profile_buckets" where
  "profile_reset now p =
    \<lparr>global_bucket = gcra_reset now (global_bucket p), domain_buckets = List.map (gcra_reset now) (domain_buckets p)\<rparr>"

definition take_at :: "nat \<Rightarrow> nat \<Rightarrow> gcra_bucket list \<Rightarrow> bool \<times> gcra_bucket list" where
  "take_at now k bs = (let (ok, b) = gcra_try_take now (bs ! k) in (ok, bs[k := b]))"

definition profile_try_take :: "nat \<Rightarrow> rate_domain \<Rightarrow> profile_buckets \<Rightarrow> bool \<times> profile_buckets" where
  "profile_try_take now d p =
    (case take_at now (rate_domain_index d) (domain_buckets p) of
       (False, ds) \<Rightarrow> (False, p\<lparr>domain_buckets := ds\<rparr>)
     | (True, ds) \<Rightarrow> (let (ok, g) = gcra_try_take now (global_bucket p)
                      in (ok, p\<lparr>domain_buckets := ds, global_bucket := g\<rparr>)))"

record rate_admission =
  normal_buckets :: profile_buckets
  trace_buckets :: profile_buckets
  ambient_buckets :: "gcra_bucket list"

definition rate_admission_new :: rate_admission where
  "rate_admission_new =
    \<lparr>normal_buckets = profile_per_second NORMAL_RATE_PER_SECOND,
     trace_buckets = profile_per_second TRACE_RATE_PER_SECOND,
     ambient_buckets = replicate RATE_DOMAIN_COUNT (gcra_per_second AMBIENT_RATE_PER_SECOND AMBIENT_BURST_CAPACITY)\<rparr>"

definition rate_admission_reset :: "nat \<Rightarrow> capture_profile \<Rightarrow> rate_admission \<Rightarrow> rate_admission" where
  "rate_admission_reset now profile r =
    (let r' = (case profile of
                 Profile_Normal \<Rightarrow> r\<lparr>normal_buckets := profile_reset now (normal_buckets r)\<rparr>
               | Profile_Trace \<Rightarrow> r\<lparr>trace_buckets := profile_reset now (trace_buckets r)\<rparr>)
     in r'\<lparr>ambient_buckets := List.map (gcra_reset now) (ambient_buckets r')\<rparr>)"

record rate_request =
  req_profile :: capture_profile
  req_severity :: activity_severity
  req_domain :: rate_domain
  req_ambient :: bool

definition allow_profile :: "nat \<Rightarrow> rate_request \<Rightarrow> rate_admission \<Rightarrow> bool \<times> rate_admission" where
  "allow_profile now q r =
    (case req_profile q of
       Profile_Normal \<Rightarrow> (let (ok, p) = profile_try_take now (req_domain q) (normal_buckets r)
                          in (ok, r\<lparr>normal_buckets := p\<rparr>))
     | Profile_Trace \<Rightarrow> (let (ok, p) = profile_try_take now (req_domain q) (trace_buckets r)
                          in (ok, r\<lparr>trace_buckets := p\<rparr>)))"

definition allow :: "nat \<Rightarrow> rate_request \<Rightarrow> rate_admission \<Rightarrow> bool \<times> rate_admission" where
  "allow now q r =
    (if req_severity q = Severity_Error then (True, r)
     else if req_ambient q
       then (case take_at now (rate_domain_index (req_domain q)) (ambient_buckets r) of
               (False, ab) \<Rightarrow> (False, r\<lparr>ambient_buckets := ab\<rparr>)
             | (True, ab) \<Rightarrow> allow_profile now q (r\<lparr>ambient_buckets := ab\<rparr>))
     else allow_profile now q r)"

section \<open>Low-priority permits\<close>

text \<open>One atomic counts the permits; a thread acquires with a compare-and-exchange loop and releases
  with a decrement when the permit is dropped.\<close>

datatype permit_pc =
    Permit_Idle
  | Permit_Load
  | Permit_Cas nat
  | Permit_Held
  | Permit_Refused

definition permit_with :: "nat \<Rightarrow> permit_pc" where
  "permit_with observed = (if LOW_PRIORITY_LIMIT \<le> observed then Permit_Refused else Permit_Cas observed)"

fun permit_step :: "bool \<Rightarrow> permit_pc \<Rightarrow> nat \<Rightarrow> permit_pc \<times> nat" where
  "permit_step weak Permit_Idle in_use = (Permit_Load, in_use)"
| "permit_step weak Permit_Refused in_use = (Permit_Load, in_use)"
| "permit_step weak Permit_Load in_use = (permit_with in_use, in_use)"
| "permit_step weak (Permit_Cas observed) in_use =
    (if weak \<or> in_use \<noteq> observed then (permit_with in_use, in_use) else (Permit_Held, observed + 1))"
| "permit_step weak Permit_Held in_use = (Permit_Idle, in_use - 1)"

inductive permits_reachable :: "nat \<Rightarrow> nat \<Rightarrow> permit_pc list \<Rightarrow> bool" for n where
  permits_init: "permits_reachable n 0 (replicate n Permit_Idle)"
| permits_step: "permits_reachable n in_use pcs \<Longrightarrow> i < length pcs \<Longrightarrow>
    permit_step weak (pcs ! i) in_use = (pc', in_use') \<Longrightarrow> permits_reachable n in_use' (pcs[i := pc'])"

end
