(* ===== verification/Activity_Admission_Props.thy ===== *)
theory Activity_Admission_Props
  imports Activity_Admission
begin

text \<open>
  A GCRA bucket is a token bucket; every bucket of the recorder bounds what passes in any window of
  time, whatever the requests and the order of the clock readings; and the permits in use are exactly
  those held, never more than 960.
\<close>

section \<open>One bucket\<close>

lemma gcra_next_Some:
  "gcra_next b now x = Some n \<longleftrightarrow>
    n = max x now + interval b \<and> n \<le> U64_MAX \<and> n \<le> now + burst_window b"
  by (auto simp: gcra_next_def checked_add_def Let_def sat_add_def)

lemma gcra_next_None:
  "gcra_next b now x = None \<longleftrightarrow> \<not> (max x now + interval b \<le> U64_MAX \<and> max x now + interval b \<le> now + burst_window b)"
  using gcra_next_Some [of b now x] by (cases "gcra_next b now x") auto

lemma gcra_take_True:
  "gcra_try_take now b = (True, b') \<longleftrightarrow>
    (\<exists>n. gcra_next b now (theoretical_arrival b) = Some n \<and> b' = b\<lparr>theoretical_arrival := n\<rparr>)"
  by (auto simp: gcra_try_take_def split: option.splits)

lemma gcra_take_False:
  "gcra_try_take now b = (False, b') \<longleftrightarrow>
    gcra_next b now (theoretical_arrival b) = None \<and> b' = b"
  by (auto simp: gcra_try_take_def split: option.splits)

text \<open>What the loop does under contention is what the atomic operation does on the value of its last
  round.\<close>

lemma gcra_loop_granted:
  "gcra_loop b now x rivals = (True, b') \<Longrightarrow> gcra_try_take now (b\<lparr>theoretical_arrival := last (x # rivals)\<rparr>) = (True, b')"
proof (induction b now x rivals rule: gcra_loop.induct)
  case (1 b now x)
  then show ?case by (auto simp: gcra_take_True gcra_next_def split: option.splits)
next
  case (2 b now x y ys)
  then show ?case by (auto split: option.splits)
qed

text \<open>The fill level in nanoseconds, and the tokens it is worth.\<close>

definition gcra_level :: "gcra_bucket \<Rightarrow> nat \<Rightarrow> nat" where
  "gcra_level b now = burst_window b - (theoretical_arrival b - now)"

definition gcra_tokens :: "gcra_bucket \<Rightarrow> nat \<Rightarrow> nat" where
  "gcra_tokens b now = gcra_level b now div interval b"

text \<open>C36: A bucket grants exactly when it has a token, a grant costs exactly one, a refusal nothing,
  and time adds to the level up to the burst window.\<close>

theorem gcra_is_token_bucket:
  assumes "0 < interval b" and "now + burst_window b \<le> U64_MAX"
    and "theoretical_arrival b \<le> now + burst_window b" and "gcra_try_take now b = (granted, b')"
  shows "(granted \<longleftrightarrow> 0 < gcra_tokens b now) \<and>
    gcra_tokens b' now + of_bool granted = gcra_tokens b now \<and>
    gcra_level b (now + d) = min (burst_window b) (gcra_level b now + d)"
proof (intro conjI)
  have tok: "0 < gcra_tokens b now \<longleftrightarrow> interval b \<le> gcra_level b now"
    using assms(1) by (simp add: gcra_tokens_def div_greater_zero_iff)
  have room: "interval b \<le> gcra_level b now \<longleftrightarrow>
      max (theoretical_arrival b) now + interval b \<le> now + burst_window b"
    using assms(1,3) by (auto simp: gcra_level_def max_def)
  have "granted \<longleftrightarrow> gcra_next b now (theoretical_arrival b) \<noteq> None"
    using assms(4) by (cases granted) (auto simp: gcra_take_True gcra_take_False)
  also have "\<dots> \<longleftrightarrow> max (theoretical_arrival b) now + interval b \<le> now + burst_window b"
    using assms(2) by (simp only: gcra_next_None not_not) linarith
  finally show g: "granted \<longleftrightarrow> 0 < gcra_tokens b now" by (simp add: tok room)
  show "gcra_tokens b' now + of_bool granted = gcra_tokens b now"
  proof (cases granted)
    case True
    then have le: "interval b \<le> gcra_level b now" using g tok by simp
    have "b' = b\<lparr>theoretical_arrival := max (theoretical_arrival b) now + interval b\<rparr>"
      using assms(4) True by (auto simp: gcra_take_True gcra_next_Some)
    then have "gcra_level b' now = gcra_level b now - interval b" and "interval b' = interval b"
      using le by (auto simp: gcra_level_def max_def)
    then show ?thesis
      using True le assms(1) by (simp add: gcra_tokens_def le_div_geq)
  next
    case False
    then show ?thesis using assms(4) by (simp add: gcra_take_False)
  qed
  show "gcra_level b (now + d) = min (burst_window b) (gcra_level b now + d)"
    using assms(3) unfolding gcra_level_def by linarith
qed

section \<open>Metered requests\<close>

text \<open>
  The service reads the clock once per request; a run is a list of clock readings and requests with
  the answers they got.
\<close>

fun allow_all :: "(nat \<times> rate_request) list \<Rightarrow> rate_admission \<Rightarrow> bool list \<times> rate_admission" where
  "allow_all [] r = ([], r)"
| "allow_all ((now, q) # qs) r =
    (let (ok, r') = allow now q r; (oks, r'') = allow_all qs r' in (ok # oks, r''))"

definition granted :: "(rate_request \<Rightarrow> bool) \<Rightarrow> (nat \<times> rate_request) list \<Rightarrow> bool list \<Rightarrow> nat" where
  "granted P qs oks = length (filter (\<lambda>((now, q), ok). ok \<and> P q) (zip qs oks))"

lemma granted_Nil [simp]: "granted P [] oks = 0"
  by (simp add: granted_def)

lemma granted_Cons [simp]:
  "granted P ((now, q) # qs) (ok # oks) = of_bool (ok \<and> P q) + granted P qs oks"
  by (simp add: granted_def)

text \<open>A bucket meters the requests it charges when it never moves but by a take, and a charged request
  that is granted took from it.\<close>

locale metered =
  fixes bucket :: "rate_admission \<Rightarrow> gcra_bucket" and charged :: "rate_request \<Rightarrow> bool"
    and ok :: "rate_admission \<Rightarrow> bool" and iv w :: nat
  assumes keeps: "ok r \<Longrightarrow> allow now q r = (g, r') \<Longrightarrow> ok r'"
    and shape: "ok r \<Longrightarrow> interval (bucket r) = iv \<and> burst_window (bucket r) = w"
    and moves: "ok r \<Longrightarrow> allow now q r = (g, r') \<Longrightarrow>
      bucket r' = bucket r \<or> gcra_try_take now (bucket r) = (True, bucket r')"
    and charges: "ok r \<Longrightarrow> allow now q r = (True, r') \<Longrightarrow> charged q \<Longrightarrow>
      gcra_try_take now (bucket r) = (True, bucket r')"
begin

lemma arrival_grows:
  assumes "ok r" and "allow now q r = (g, r')" and "a \<le> now"
  shows "max (theoretical_arrival (bucket r)) a + of_bool (g \<and> charged q) * iv
    \<le> max (theoretical_arrival (bucket r')) a"
proof (cases "gcra_try_take now (bucket r) = (True, bucket r')")
  case True
  then obtain n where "n = max (theoretical_arrival (bucket r)) now + iv"
      and "theoretical_arrival (bucket r') = n"
    using shape [OF assms(1)] by (auto simp: gcra_take_True gcra_next_Some)
  then show ?thesis using assms(3) by (simp add: max_def)
next
  case False
  then have "bucket r' = bucket r" and "\<not> (g \<and> charged q)"
    using moves [OF assms(1,2)] charges [OF assms(1)] assms(2) by auto
  then show ?thesis by simp
qed

lemma arrivals:
  "ok r \<Longrightarrow> allow_all qs r = (oks, r') \<Longrightarrow> \<forall>(now, q) \<in> set qs. a \<le> now \<Longrightarrow>
    max (theoretical_arrival (bucket r)) a + granted charged qs oks * iv
      \<le> max (theoretical_arrival (bucket r')) a"
proof (induction qs arbitrary: r oks)
  case (Cons x qs)
  obtain now q where x: "x = (now, q)" by (cases x)
  obtain g r1 where 1: "allow now q r = (g, r1)" by fastforce
  obtain oks1 where 2: "allow_all qs r1 = (oks1, r')" and oks: "oks = g # oks1"
    using Cons.prems(2) x 1 by (auto split: prod.splits)
  have "max (theoretical_arrival (bucket r)) a + of_bool (g \<and> charged q) * iv
      \<le> max (theoretical_arrival (bucket r1)) a"
    using arrival_grows [OF Cons.prems(1) 1] Cons.prems(3) x by simp
  moreover have "max (theoretical_arrival (bucket r1)) a + granted charged qs oks1 * iv
      \<le> max (theoretical_arrival (bucket r')) a"
    using Cons.IH [OF keeps [OF Cons.prems(1) 1] 2] Cons.prems(3) by simp
  ultimately show ?case by (simp add: x oks algebra_simps)
qed simp

lemma ceiling:
  "ok r \<Longrightarrow> allow_all qs r = (oks, r') \<Longrightarrow> \<forall>(now, q) \<in> set qs. now \<le> b \<Longrightarrow>
    theoretical_arrival (bucket r') \<le> b + w \<or> bucket r' = bucket r"
proof (induction qs arbitrary: r oks)
  case (Cons x qs)
  obtain now q where x: "x = (now, q)" by (cases x)
  obtain g r1 where 1: "allow now q r = (g, r1)" by fastforce
  obtain oks1 where 2: "allow_all qs r1 = (oks1, r')" and oks: "oks = g # oks1"
    using Cons.prems(2) x 1 by (auto split: prod.splits)
  have "theoretical_arrival (bucket r1) \<le> b + w \<or> bucket r1 = bucket r"
    using moves [OF Cons.prems(1) 1] shape [OF Cons.prems(1)] Cons.prems(3) x
    by (auto simp: gcra_take_True gcra_next_Some)
  then show ?case using Cons.IH [OF keeps [OF Cons.prems(1) 1] 2] Cons.prems(3) by auto
qed simp

text \<open>What passes in a window is at most the burst and what the window refills.\<close>

lemma window_bound:
  assumes "ok r" and "allow_all qs r = (oks, r')" and "\<forall>(now, q) \<in> set qs. a \<le> now \<and> now \<le> b" and "0 < iv"
  shows "granted charged qs oks * iv \<le> (b - a) + w"
proof -
  have lo: "max (theoretical_arrival (bucket r)) a + granted charged qs oks * iv
      \<le> max (theoretical_arrival (bucket r')) a"
    using arrivals [OF assms(1,2)] assms(3) by blast
  have hi: "theoretical_arrival (bucket r') \<le> b + w \<or> bucket r' = bucket r"
    using ceiling [OF assms(1,2)] assms(3) by blast
  show ?thesis
  proof (cases "granted charged qs oks = 0")
    case False
    then have "0 < granted charged qs oks * iv" using assms(4) by simp
    then have "theoretical_arrival (bucket r') \<le> b + w" using lo hi by auto
    moreover have "a + granted charged qs oks * iv \<le> max (theoretical_arrival (bucket r')) a"
      using lo by simp
    ultimately show ?thesis using \<open>0 < granted charged qs oks * iv\<close> by (simp add: max_def split: if_splits)
  qed simp
qed

end

section \<open>The buckets of the recorder\<close>

definition bucket_ok :: "nat \<Rightarrow> nat \<Rightarrow> gcra_bucket \<Rightarrow> bool" where
  "bucket_ok rate capacity b \<longleftrightarrow> interval b = NANOS_PER_SECOND div rate \<and>
    burst_window b = NANOS_PER_SECOND div rate * capacity"

definition buckets_ok :: "nat \<Rightarrow> nat \<Rightarrow> gcra_bucket list \<Rightarrow> bool" where
  "buckets_ok rate capacity bs \<longleftrightarrow> length bs = RATE_DOMAIN_COUNT \<and> (\<forall>b \<in> set bs. bucket_ok rate capacity b)"

definition profile_ok :: "nat \<Rightarrow> profile_buckets \<Rightarrow> bool" where
  "profile_ok rate p \<longleftrightarrow> bucket_ok rate rate (global_bucket p) \<and> buckets_ok rate rate (domain_buckets p)"

definition rates_ok :: "rate_admission \<Rightarrow> bool" where
  "rates_ok r \<longleftrightarrow> profile_ok NORMAL_RATE_PER_SECOND (normal_buckets r) \<and>
    profile_ok TRACE_RATE_PER_SECOND (trace_buckets r) \<and>
    buckets_ok AMBIENT_RATE_PER_SECOND AMBIENT_BURST_CAPACITY (ambient_buckets r)"

lemmas rate_numbers = NANOS_PER_SECOND_def NORMAL_RATE_PER_SECOND_def TRACE_RATE_PER_SECOND_def
  AMBIENT_RATE_PER_SECOND_def AMBIENT_BURST_CAPACITY_def RATE_DOMAIN_COUNT_def
lemmas rates_defs = rates_ok_def profile_ok_def buckets_ok_def bucket_ok_def

lemma index_less [simp]: "rate_domain_index d < RATE_DOMAIN_COUNT"
  by (cases d) (simp_all add: RATE_DOMAIN_COUNT_def)

lemma take_shape: "gcra_try_take now b = (g, b') \<Longrightarrow> interval b' = interval b \<and> burst_window b' = burst_window b"
  by (cases g) (auto simp: gcra_take_True gcra_take_False)

lemma take_ok: "gcra_try_take now b = (g, b') \<Longrightarrow> bucket_ok rate c b \<Longrightarrow> bucket_ok rate c b'"
  by (auto simp: bucket_ok_def dest: take_shape)

lemma take_at_ok:
  assumes "take_at now k bs = (g, bs')" and "buckets_ok rate c bs" and "k < RATE_DOMAIN_COUNT"
  shows "buckets_ok rate c bs'"
  using assms take_ok [of now "bs ! k" g _ rate c]
  by (auto simp: take_at_def buckets_ok_def split: prod.splits dest!: set_update_subset_insert [THEN subsetD])

lemma profile_take_ok:
  "profile_try_take now d p = (g, p') \<Longrightarrow> profile_ok rate p \<Longrightarrow> profile_ok rate p'"
  by (auto simp: profile_try_take_def profile_ok_def split: prod.splits bool.splits
      intro: take_at_ok take_ok)

lemma rates_ok_allow:
  assumes "rates_ok r" and "allow now q r = (g, r')"
  shows "rates_ok r'"
  using assms profile_take_ok take_at_ok
  by (auto simp: allow_def allow_profile_def rates_ok_def split: if_splits prod.splits bool.splits capture_profile.splits)

lemma rates_ok_new: "rates_ok rate_admission_new"
  by (simp add: rates_defs rate_admission_new_def profile_per_second_def gcra_per_second_def rate_numbers
      sat_mul_def)

lemma rates_ok_reset: "rates_ok r \<Longrightarrow> rates_ok (rate_admission_reset now profile r)"
  by (cases profile) (simp_all add: rates_defs rate_admission_reset_def profile_reset_def gcra_reset_def)

section \<open>Every bucket is a meter\<close>

lemma take_moves: "gcra_try_take now b = (g, b') \<Longrightarrow> b' = b \<or> gcra_try_take now b = (True, b')"
  by (cases g) (auto simp: gcra_take_False)

lemma take_at_moves:
  assumes "take_at now k bs = (g, bs')" and "length bs = RATE_DOMAIN_COUNT" and "k < RATE_DOMAIN_COUNT"
  shows "bs' ! j = bs ! j \<or> gcra_try_take now (bs ! j) = (True, bs' ! j)"
    and "g \<Longrightarrow> gcra_try_take now (bs ! k) = (True, bs' ! k)"
proof -
  obtain b where b: "gcra_try_take now (bs ! k) = (g, b)" "bs' = bs[k := b]"
    using assms(1) by (auto simp: take_at_def split: prod.splits)
  show "bs' ! j = bs ! j \<or> gcra_try_take now (bs ! j) = (True, bs' ! j)"
    using b take_moves [OF b(1)] assms(2,3) by (cases "j = k") auto
  show "g \<Longrightarrow> gcra_try_take now (bs ! k) = (True, bs' ! k)" using b assms(2,3) by simp
qed

lemma profile_take_moves:
  assumes "profile_try_take now d p = (g, p')"
  shows "global_bucket p' = global_bucket p \<or> gcra_try_take now (global_bucket p) = (True, global_bucket p')"
    and "g \<Longrightarrow> gcra_try_take now (global_bucket p) = (True, global_bucket p')"
  using assms by (cases g; auto simp: profile_try_take_def gcra_take_False split: prod.splits bool.splits)+

lemma ambient_bucket:
  "rates_ok r \<Longrightarrow> interval (ambient_buckets r ! rate_domain_index d) = 200000000 \<and>
    burst_window (ambient_buckets r ! rate_domain_index d) = 5000000000"
  using index_less [of d] by (auto simp: rates_defs rate_numbers dest: bspec [OF _ nth_mem])

text \<open>The profile of a request decides whose bucket it is charged to; an error is never charged.\<close>

definition of_profile :: "capture_profile \<Rightarrow> rate_request \<Rightarrow> bool" where
  "of_profile profile q \<longleftrightarrow> req_severity q \<noteq> Severity_Error \<and> req_profile q = profile"

definition ambient_of :: "rate_domain \<Rightarrow> rate_request \<Rightarrow> bool" where
  "ambient_of d q \<longleftrightarrow> req_severity q \<noteq> Severity_Error \<and> req_ambient q \<and> req_domain q = d"

lemmas allow_cases = allow_def allow_profile_def

interpretation normal_meter: metered "\<lambda>r. global_bucket (normal_buckets r)" "of_profile Profile_Normal" rates_ok 20000000 1000000000
proof unfold_locales
  fix r r' now q g
  show "rates_ok r \<Longrightarrow> allow now q r = (g, r') \<Longrightarrow> rates_ok r'" by (rule rates_ok_allow)
  show "rates_ok r \<Longrightarrow> interval (global_bucket (normal_buckets r)) = 20000000 \<and> burst_window (global_bucket (normal_buckets r)) = 1000000000"
    by (simp add: rates_defs rate_numbers)
  show "allow now q r = (g, r') \<Longrightarrow> global_bucket (normal_buckets r') = global_bucket (normal_buckets r) \<or>
      gcra_try_take now (global_bucket (normal_buckets r)) = (True, global_bucket (normal_buckets r'))"
    by (auto simp: allow_cases split: if_splits prod.splits bool.splits capture_profile.splits dest: profile_take_moves)
  show "allow now q r = (True, r') \<Longrightarrow> of_profile Profile_Normal q \<Longrightarrow>
      gcra_try_take now (global_bucket (normal_buckets r)) = (True, global_bucket (normal_buckets r'))"
    by (auto simp: allow_cases of_profile_def split: if_splits prod.splits bool.splits dest: profile_take_moves)
qed

interpretation trace_meter: metered "\<lambda>r. global_bucket (trace_buckets r)" "of_profile Profile_Trace" rates_ok 10000000 1000000000
proof unfold_locales
  fix r r' now q g
  show "rates_ok r \<Longrightarrow> allow now q r = (g, r') \<Longrightarrow> rates_ok r'" by (rule rates_ok_allow)
  show "rates_ok r \<Longrightarrow> interval (global_bucket (trace_buckets r)) = 10000000 \<and> burst_window (global_bucket (trace_buckets r)) = 1000000000"
    by (simp add: rates_defs rate_numbers)
  show "allow now q r = (g, r') \<Longrightarrow> global_bucket (trace_buckets r') = global_bucket (trace_buckets r) \<or>
      gcra_try_take now (global_bucket (trace_buckets r)) = (True, global_bucket (trace_buckets r'))"
    by (auto simp: allow_cases split: if_splits prod.splits bool.splits capture_profile.splits dest: profile_take_moves)
  show "allow now q r = (True, r') \<Longrightarrow> of_profile Profile_Trace q \<Longrightarrow>
      gcra_try_take now (global_bucket (trace_buckets r)) = (True, global_bucket (trace_buckets r'))"
    by (auto simp: allow_cases of_profile_def split: if_splits prod.splits bool.splits dest: profile_take_moves)
qed

lemma allow_profile_ambient: "allow_profile now q r = (g, r') \<Longrightarrow> ambient_buckets r' = ambient_buckets r"
  by (auto simp: allow_profile_def split: capture_profile.splits prod.splits)

lemma rates_ok_length: "rates_ok r \<Longrightarrow> length (ambient_buckets r) = RATE_DOMAIN_COUNT"
  by (simp add: rates_defs)

interpretation ambient_meter: metered "\<lambda>r. ambient_buckets r ! rate_domain_index d" "ambient_of d" rates_ok 200000000 5000000000 for d
proof unfold_locales
  fix r r' now q g
  show "rates_ok r \<Longrightarrow> allow now q r = (g, r') \<Longrightarrow> rates_ok r'" by (rule rates_ok_allow)
  show "rates_ok r \<Longrightarrow> interval (ambient_buckets r ! rate_domain_index d) = 200000000 \<and>
      burst_window (ambient_buckets r ! rate_domain_index d) = 5000000000"
    by (rule ambient_bucket)
  show "rates_ok r \<Longrightarrow> allow now q r = (g, r') \<Longrightarrow>
      ambient_buckets r' ! rate_domain_index d = ambient_buckets r ! rate_domain_index d \<or>
      gcra_try_take now (ambient_buckets r ! rate_domain_index d) = (True, ambient_buckets r' ! rate_domain_index d)"
    using take_at_moves(1) [of now "rate_domain_index (req_domain q)" "ambient_buckets r" _ _ "rate_domain_index d"]
    by (auto simp: allow_def rates_ok_length split: if_splits prod.splits bool.splits dest!: allow_profile_ambient)
  show "rates_ok r \<Longrightarrow> allow now q r = (True, r') \<Longrightarrow> ambient_of d q \<Longrightarrow>
      gcra_try_take now (ambient_buckets r ! rate_domain_index d) = (True, ambient_buckets r' ! rate_domain_index d)"
    using take_at_moves(2) [of now "rate_domain_index d" "ambient_buckets r" True]
    by (auto simp: allow_def ambient_of_def rates_ok_length split: if_splits prod.splits bool.splits dest!: allow_profile_ambient)
qed

section \<open>Properties\<close>

text \<open>The state of the admission after any resets and requests.\<close>

inductive rate_reachable :: "rate_admission \<Rightarrow> bool" where
  reachable_new: "rate_reachable rate_admission_new"
| reachable_reset: "rate_reachable r \<Longrightarrow> rate_reachable (rate_admission_reset now profile r)"
| reachable_allow: "rate_reachable r \<Longrightarrow> allow now q r = (ok, r') \<Longrightarrow> rate_reachable r'"

lemma reachable_rates_ok: "rate_reachable r \<Longrightarrow> rates_ok r"
  by (induction rule: rate_reachable.induct) (auto intro: rates_ok_new rates_ok_reset rates_ok_allow)

text \<open>An error is always admitted and costs nothing.\<close>

lemma errors_pass: "req_severity q = Severity_Error \<Longrightarrow> allow now q r = (True, r)"
  by (simp add: allow_def)

lemma all_errors_pass:
  "allow_all qs r = (oks, r') \<Longrightarrow> \<forall>((now, q), ok) \<in> set (zip qs oks). req_severity q = Severity_Error \<longrightarrow> ok"
proof (induction qs arbitrary: r oks)
  case (Cons x qs)
  obtain now q where x: "x = (now, q)" by (rule prod.exhaust)
  obtain g r1 where g: "allow now q r = (g, r1)" by (rule prod.exhaust)
  obtain oks1 where "allow_all qs r1 = (oks1, r')" and oks: "oks = g # oks1"
    using Cons.prems by (auto simp: x g split: prod.splits)
  then show ?case using Cons.IH [of r1 oks1] g errors_pass [of q now r] by (auto simp: x)
qed simp

text \<open>C37: Between two resets, whatever the requests and whatever the order of the clock readings: in a
  window from tick \<open>a\<close> to tick \<open>b\<close> at most 50 metered normal requests pass at once and one more for
  every 20 milliseconds, at most 100 metered trace requests and one more for every 10, and of the metered
  ambient ones of a domain at most 25 and one more for every 200.  Metered is every request but one of severity
  error: of those there is no bound, all of them pass.\<close>

theorem admission_rate_bound:
  assumes "rate_reachable r" and "allow_all qs r = (oks, r')"
    and "\<forall>(now, q) \<in> set qs. a \<le> now \<and> now \<le> b"
  shows "granted (of_profile Profile_Normal) qs oks \<le> 50 + (b - a) div 20000000 \<and>
    granted (of_profile Profile_Trace) qs oks \<le> 100 + (b - a) div 10000000 \<and>
    granted (ambient_of d) qs oks \<le> 25 + (b - a) div 200000000 \<and>
    (\<forall>((now, q), ok) \<in> set (zip qs oks). req_severity q = Severity_Error \<longrightarrow> ok)"
proof -
  note ok = reachable_rates_ok [OF assms(1)]
  have "granted (of_profile Profile_Normal) qs oks * 20000000 \<le> (b - a) + 1000000000"
    by (rule normal_meter.window_bound [OF ok assms(2,3)]) simp
  moreover have "granted (of_profile Profile_Trace) qs oks * 10000000 \<le> (b - a) + 1000000000"
    by (rule trace_meter.window_bound [OF ok assms(2,3)]) simp
  moreover have "granted (ambient_of d) qs oks * 200000000 \<le> (b - a) + 5000000000"
    by (rule ambient_meter.window_bound [OF ok assms(2,3)]) simp
  moreover have "\<forall>((now, q), ok) \<in> set (zip qs oks). req_severity q = Severity_Error \<longrightarrow> ok"
    using all_errors_pass [OF assms(2)] .
  ultimately show ?thesis by (intro conjI; linarith?)
qed

section \<open>Permits\<close>

fun permit_ok :: "permit_pc \<Rightarrow> bool" where
  "permit_ok (Permit_Cas observed) = (observed < LOW_PRIORITY_LIMIT)"
| "permit_ok _ = True"

definition permit_access :: "nat \<Rightarrow> permit_pc \<Rightarrow> nat \<Rightarrow> permit_pc \<Rightarrow> nat \<Rightarrow> bool" where
  "permit_access i pc in_use pc' in_use' \<longleftrightarrow> (\<exists>weak. permit_step weak pc in_use = (pc', in_use'))"

definition holds_permit :: "permit_pc \<Rightarrow> bool" where
  "holds_permit = (\<lambda>pc. pc = Permit_Held)"

interpretation permits: thread_counter permit_access "\<lambda>in_use. in_use" holds_permit
proof unfold_locales
  fix i pc g pc' g'
  assume "permit_access i pc g pc' g'" and "holds_permit pc \<Longrightarrow> 0 < g"
  then show "g' + of_bool (holds_permit pc) = g + of_bool (holds_permit pc')"
    by (cases pc) (auto simp: permit_access_def permit_with_def holds_permit_def split: if_splits)
qed

lemma permit_step_bound:
  assumes "permit_step weak pc g = (pc', g')" and "permit_ok pc" and "g \<le> LOW_PRIORITY_LIMIT"
  shows "permit_ok pc' \<and> g' \<le> LOW_PRIORITY_LIMIT"
  using assms by (cases pc) (auto simp: permit_with_def split: if_splits)

lemma permits_invariant:
  "permits_reachable n g pcs \<Longrightarrow> permits.exact g pcs \<and> g \<le> LOW_PRIORITY_LIMIT \<and> (\<forall>pc \<in> set pcs. permit_ok pc)"
proof (induction rule: permits_reachable.induct)
  case permits_init
  then show ?case by (simp add: permits.exact_def tally_replicate) (simp add: holds_permit_def)
next
  case (permits_step g pcs i weak pc' g')
  have "permit_ok pc' \<and> g' \<le> LOW_PRIORITY_LIMIT"
    using permit_step_bound [OF permits_step.hyps(3)] permits_step.IH permits_step.hyps(2) by simp
  moreover have "permits.exact g' (pcs[i := pc'])"
    using permits.exact_step [OF _ permits_step.hyps(2)] permits_step.IH permits_step.hyps(3)
    unfolding permit_access_def by blast
  ultimately show ?case
    using permits_step.IH set_update_subset_insert [of pcs i pc'] by auto
qed

text \<open>The permits in use are exactly those held, and never more than 960: the last 64 places of the
  queue are for the events that need no permit.\<close>

theorem permits_bounded:
  assumes "permits_reachable n in_use pcs"
  shows "in_use = length (filter (\<lambda>pc. pc = Permit_Held) pcs) \<and> in_use \<le> 960 \<and>
    in_use + RESERVED_PRIORITY_SLOTS \<le> INGRESS_CAPACITY"
  using permits_invariant [OF assms] unfolding permits.exact_def tally_def
  by (simp add: holds_permit_def LOW_PRIORITY_LIMIT_def INGRESS_CAPACITY_def
      RESERVED_PRIORITY_SLOTS_def)

section \<open>Witnesses\<close>

theorem gcra_is_token_bucket_witness:
  "gcra_tokens (gcra_per_second 50 50) 100 = 50 \<and>
   gcra_tokens (snd (gcra_try_take 100 (gcra_per_second 50 50))) 100 + 1 = 50"
proof -
  let ?b = "gcra_per_second 50 50"
  have b: "interval ?b = 20000000" "burst_window ?b = 1000000000" "theoretical_arrival ?b = 0"
    by (simp_all add: gcra_per_second_def NANOS_PER_SECOND_def sat_mul_def)
  have t: "gcra_tokens ?b 100 = 50" by (simp add: gcra_tokens_def gcra_level_def b)
  have "gcra_try_take 100 ?b = (fst (gcra_try_take 100 ?b), snd (gcra_try_take 100 ?b))" by simp
  from gcra_is_token_bucket [OF _ _ _ this, where d = 0] show ?thesis
    using t by (auto simp: b)
qed

definition demo_request :: rate_request where
  "demo_request = \<lparr>req_profile = Profile_Normal, req_severity = Severity_Info,
     req_domain = Domain_Network, req_ambient = False\<rparr>"

lemma fresh_take: "fst (gcra_try_take 0 (gcra_per_second 50 50))"
  by (simp add: gcra_per_second_def gcra_try_take_def gcra_next_def NANOS_PER_SECOND_def sat_mul_def sat_add_def
      checked_add_def Let_def)

lemma demo_granted: "fst (allow 0 demo_request rate_admission_new)"
  using fresh_take index_less [of Domain_Network]
  by (simp add: allow_cases demo_request_def rate_admission_new_def profile_try_take_def take_at_def
      profile_per_second_def NORMAL_RATE_PER_SECOND_def case_prod_unfold Let_def split: prod.splits bool.splits del: index_less)

theorem admission_rate_bound_witness:
  "granted (of_profile Profile_Normal) [(0, demo_request)] [True] = 1 \<and>
   granted (of_profile Profile_Normal) [(0, demo_request)] [True] \<le> 50"
proof
  show "granted (of_profile Profile_Normal) [(0, demo_request)] [True] = 1"
    by (simp add: of_profile_def demo_request_def)
  have "allow_all [(0, demo_request)] rate_admission_new = ([True], snd (allow 0 demo_request rate_admission_new))"
    using demo_granted by (cases "allow 0 demo_request rate_admission_new") simp
  from admission_rate_bound [OF reachable_new this, of 0 0 Domain_Network]
  show "granted (of_profile Profile_Normal) [(0, demo_request)] [True] \<le> 50" by simp
qed

theorem permits_bounded_witness: "(1 :: nat) = length (filter (\<lambda>pc. pc = Permit_Held) [Permit_Held, Permit_Idle])"
proof -
  have "permits_reachable 2 0 [Permit_Idle, Permit_Idle]"
    using permits_init [of 2] by (simp add: numeral_2_eq_2)
  then have "permits_reachable 2 0 [Permit_Load, Permit_Idle]"
    using permits_step [of 2 0 "[Permit_Idle, Permit_Idle]" 0 False Permit_Load 0] by simp
  then have "permits_reachable 2 0 [Permit_Cas 0, Permit_Idle]"
    using permits_step [of 2 0 "[Permit_Load, Permit_Idle]" 0 False "Permit_Cas 0" 0]
    by (simp add: permit_with_def LOW_PRIORITY_LIMIT_def INGRESS_CAPACITY_def RESERVED_PRIORITY_SLOTS_def)
  then have "permits_reachable 2 1 [Permit_Held, Permit_Idle]"
    using permits_step [of 2 0 "[Permit_Cas 0, Permit_Idle]" 0 False Permit_Held 1] by simp
  from permits_bounded [OF this] show ?thesis by simp
qed

end
