(* ===== verification/Activity_Ring.thy ===== *)
theory Activity_Ring
  imports Activity_Admission
begin

text \<open>
  What the Activity recorder keeps: the ring bounded by count and bytes (\<open>activity/ring.rs\<close>) and the
  coalescer in front of it (\<open>activity/coalesce.rs\<close>).  A stored event is its sequence number, the
  bytes it is charged with and its masked form, an opaque value; the length of the JSON encoding of
  a masked event is a parameter.  Sizes are natural numbers with the bound of \<open>usize\<close> written out;
  saturating sums are written as the code has them.
\<close>

section \<open>Ring\<close>

abbreviation USIZE_MAX :: nat where "USIZE_MAX \<equiv> U64_MAX"

record 'w stored_event =
  ev_sequence :: nat
  ev_charged :: nat
  ev_masked :: 'w

record ring_limits =
  max_events :: nat
  max_bytes :: nat

datatype ring_error = EventExceedsByteLimit | InvalidLimits

definition ring_limits_new :: "nat \<Rightarrow> nat \<Rightarrow> ring_error + ring_limits" where
  "ring_limits_new me mb =
    (if me = 0 \<or> mb = 0 then Inl InvalidLimits else Inr \<lparr>max_events = me, max_bytes = mb\<rparr>)"

record ring_push =
  evicted_for_count_events :: nat
  evicted_for_count_bytes :: nat
  evicted_for_byte_limit_events :: nat
  evicted_for_byte_limit_bytes :: nat

definition ring_push_default :: ring_push where
  "ring_push_default = \<lparr>evicted_for_count_events = 0, evicted_for_count_bytes = 0,
     evicted_for_byte_limit_events = 0, evicted_for_byte_limit_bytes = 0\<rparr>"

record 'w ring =
  entries :: "'w stored_event list"
  charged_bytes :: nat
  backing_bytes :: nat
  limits :: ring_limits

text \<open>\<open>capacity\<close> is what the allocator gave for the requested number of slots, \<open>slot\<close> the size of one.\<close>

definition ring_new :: "(nat \<Rightarrow> nat) \<Rightarrow> nat \<Rightarrow> ring_limits \<Rightarrow> ring_error + 'w ring" where
  "ring_new capacity slot l =
    (let backing = sat_mul USIZE_MAX (capacity (max_events l)) slot
     in if max_bytes l < backing then Inl InvalidLimits
        else Inr \<lparr>entries = [], charged_bytes = backing, backing_bytes = backing, limits = l\<rparr>)"

fun pop_front :: "'w ring \<Rightarrow> (nat \<times> 'w ring) option" where
  "pop_front r =
    (case entries r of
       [] \<Rightarrow> None
     | e # es \<Rightarrow> Some (ev_charged e, r\<lparr>entries := es, charged_bytes := charged_bytes r - ev_charged e\<rparr>))"

definition note_count :: "nat \<Rightarrow> ring_push \<Rightarrow> ring_push" where
  "note_count bytes eff = eff\<lparr>evicted_for_count_events := sat_add U64_MAX (evicted_for_count_events eff) 1,
     evicted_for_count_bytes := sat_add U64_MAX (evicted_for_count_bytes eff) bytes\<rparr>"

definition note_bytes :: "nat \<Rightarrow> ring_push \<Rightarrow> ring_push" where
  "note_bytes bytes eff = eff\<lparr>evicted_for_byte_limit_events := sat_add U64_MAX (evicted_for_byte_limit_events eff) 1,
     evicted_for_byte_limit_bytes := sat_add U64_MAX (evicted_for_byte_limit_bytes eff) bytes\<rparr>"

text \<open>The first loop goes round for ever on an empty ring that may hold nothing, so it is partial.\<close>

partial_function (option) evict_for_count :: "'w ring \<Rightarrow> ring_push \<Rightarrow> ('w ring \<times> ring_push) option" where
  "evict_for_count r eff =
    (if length (entries r) < max_events (limits r) then Some (r, eff)
     else case pop_front r of
            Some (bytes, r') \<Rightarrow> evict_for_count r' (note_count bytes eff)
          | None \<Rightarrow> evict_for_count r eff)"

function evict_for_bytes :: "nat \<Rightarrow> 'w ring \<Rightarrow> ring_push \<Rightarrow> (ring_error + ring_push) \<times> 'w ring" where
  "evict_for_bytes event_bytes r eff =
    (if sat_add USIZE_MAX (charged_bytes r) event_bytes \<le> max_bytes (limits r) then (Inr eff, r)
     else case pop_front r of
            Some (bytes, r') \<Rightarrow> evict_for_bytes event_bytes r' (note_bytes bytes eff)
          | None \<Rightarrow> (Inl EventExceedsByteLimit, r))"
  by pat_completeness auto
termination
  by (relation "measure (\<lambda>(b, r, eff). length (entries r))") (auto split: list.splits)

text \<open>\<open>None\<close> is a push that never returns; an error leaves the ring as the evictions left it.\<close>

definition ring_push_event :: "'w stored_event \<Rightarrow> 'w ring \<Rightarrow> ((ring_error + ring_push) \<times> 'w ring) option" where
  "ring_push_event e r =
    (if max_bytes (limits r) < sat_add USIZE_MAX (backing_bytes r) (ev_charged e)
     then Some (Inl EventExceedsByteLimit, r)
     else case evict_for_count r ring_push_default of
            None \<Rightarrow> None
          | Some (r1, eff1) \<Rightarrow>
              (case evict_for_bytes (ev_charged e) r1 eff1 of
                 (Inl err, r2) \<Rightarrow> Some (Inl err, r2)
               | (Inr eff2, r2) \<Rightarrow>
                   Some (Inr eff2, r2\<lparr>charged_bytes := sat_add USIZE_MAX (charged_bytes r2) (ev_charged e),
                                      entries := entries r2 @ [e]\<rparr>)))"

definition ring_clear :: "'w ring \<Rightarrow> 'w ring" where
  "ring_clear r = r\<lparr>entries := [], charged_bytes := backing_bytes r\<rparr>"

definition oldest_sequence :: "'w ring \<Rightarrow> nat option" where
  "oldest_sequence r = (case entries r of [] \<Rightarrow> None | e # _ \<Rightarrow> Some (ev_sequence e))"

definition latest_sequence :: "'w ring \<Rightarrow> nat option" where
  "latest_sequence r = (if entries r = [] then None else Some (ev_sequence (last (entries r))))"

definition ring_get :: "nat \<Rightarrow> 'w ring \<Rightarrow> 'w stored_event option" where
  "ring_get n r = List.find (\<lambda>e. ev_sequence e = n) (entries r)"

definition ring_snapshot :: "'w ring \<Rightarrow> 'w list" where
  "ring_snapshot r = List.map ev_masked (entries r)"

text \<open>The page loop: \<open>events\<close> is what the page holds so far, \<open>encoded\<close> the size of its JSON array.\<close>

fun page_loop :: "('w \<Rightarrow> nat option) \<Rightarrow> nat \<Rightarrow> nat \<Rightarrow> nat \<Rightarrow> 'w list \<Rightarrow> 'w stored_event list \<Rightarrow> 'w list" where
  "page_loop json_len me mb encoded events [] = events"
| "page_loop json_len me mb encoded events (e # es) =
    (if me \<le> length events then events
     else case json_len (ev_masked e) of
            None \<Rightarrow> events
          | Some n \<Rightarrow>
              (let separator = (if events \<noteq> [] then 1 else 0);
                   size = sat_add USIZE_MAX (sat_add USIZE_MAX encoded separator) n
               in if events \<noteq> [] \<and> mb < size then events
                  else page_loop json_len me mb size (events @ [ev_masked e]) es))"

definition newer :: "nat option \<Rightarrow> 'w stored_event \<Rightarrow> bool" where
  "newer after e \<longleftrightarrow> (case after of None \<Rightarrow> True | Some cursor \<Rightarrow> cursor < ev_sequence e)"

definition snapshot_after :: "('w \<Rightarrow> nat option) \<Rightarrow> nat option \<Rightarrow> nat \<Rightarrow> nat \<Rightarrow> 'w ring \<Rightarrow> 'w list" where
  "snapshot_after json_len after me mb r = page_loop json_len me mb 2 [] (filter (newer after) (entries r))"

section \<open>Coalescer\<close>

datatype activity_direction = Dir_Local | Dir_Inbound | Dir_Outbound | Dir_None

datatype activity_outcome =
    Out_Started | Out_Progress | Out_Success | Out_Degraded | Out_Rejected
  | Out_Failed | Out_TimedOut | Out_Dropped | Out_None

definition prohibits_coalescing :: "activity_outcome \<Rightarrow> bool" where
  "prohibits_coalescing x \<longleftrightarrow> x \<in> {Out_Rejected, Out_Failed, Out_TimedOut, Out_Dropped}"

datatype coalescing_policy = Coalesce_Never | Coalesce_Adjacent

record draft_context =
  dc_session :: string
  dc_generation :: nat
  dc_profile :: capture_profile

record ('k, 'a, 'c) validated_draft =
  vd_context :: draft_context
  vd_kind :: 'k
  vd_severity :: activity_severity
  vd_direction :: activity_direction
  vd_outcome :: activity_outcome
  vd_timestamp :: nat
  vd_elapsed :: nat
  vd_attributes :: "'a list"
  vd_correlation :: "'c option"
  vd_parent :: "nat option"
  vd_coalescing :: coalescing_policy
  vd_count :: nat
  vd_first :: "nat option"
  vd_last :: "nat option"

definition can_coalesce_with :: "('k, 'a, 'c) validated_draft \<Rightarrow> ('k, 'a, 'c) validated_draft \<Rightarrow> bool" where
  "can_coalesce_with d n \<longleftrightarrow>
    vd_coalescing d = Coalesce_Adjacent \<and> vd_coalescing n = Coalesce_Adjacent \<and>
    vd_severity d \<noteq> Severity_Error \<and> vd_severity n \<noteq> Severity_Error \<and>
    \<not> prohibits_coalescing (vd_outcome d) \<and> \<not> prohibits_coalescing (vd_outcome n) \<and>
    vd_count d < U32_MAX \<and>
    dc_session (vd_context d) = dc_session (vd_context n) \<and>
    dc_generation (vd_context d) = dc_generation (vd_context n) \<and>
    dc_profile (vd_context d) = dc_profile (vd_context n) \<and>
    vd_kind d = vd_kind n \<and> vd_severity d = vd_severity n \<and> vd_direction d = vd_direction n \<and>
    vd_outcome d = vd_outcome n \<and> vd_attributes d = vd_attributes n \<and>
    vd_correlation d = vd_correlation n \<and> vd_parent d = vd_parent n"

definition absorb :: "('k, 'a, 'c) validated_draft \<Rightarrow> ('k, 'a, 'c) validated_draft \<Rightarrow> ('k, 'a, 'c) validated_draft" where
  "absorb d n =
    (let d1 = (if vd_first d = None then d\<lparr>vd_first := Some (vd_timestamp d)\<rparr> else d)
     in d1\<lparr>vd_last := Some (vd_timestamp n), vd_count := sat_add U32_MAX (vd_count d1) (vd_count n)\<rparr>)"

datatype 'd coalesce_output = Held | Merged nat | One 'd | Two 'd 'd

definition coalescer_push :: "('k, 'a, 'c) validated_draft \<Rightarrow> ('k, 'a, 'c) validated_draft option \<Rightarrow>
    ('k, 'a, 'c) validated_draft coalesce_output \<times> ('k, 'a, 'c) validated_draft option" where
  "coalescer_push draft pending =
    (case pending of
       None \<Rightarrow> if can_coalesce_with draft draft then (Held, Some draft) else (One draft, None)
     | Some p \<Rightarrow>
         if can_coalesce_with p draft then (Merged (vd_count draft), Some (absorb p draft))
         else if can_coalesce_with draft draft then (One p, Some draft)
         else (Two p draft, None))"

definition coalescer_flush :: "'d option \<Rightarrow> 'd option \<times> 'd option" where
  "coalescer_flush pending = (pending, None)"

definition coalescer_clear :: "'d option \<Rightarrow> 'd option" where
  "coalescer_clear pending = None"

end
