(* ===== verification/Activity_Ring_Props.thy ===== *)
theory Activity_Ring_Props
  imports Activity_Ring
begin

text \<open>
  The ring holds exactly the longest suffix of what it was given that fits its two limits, and its
  accounts are exact; replay pages fit, make progress and together give every event; coalescing
  loses no input.
\<close>

section \<open>The longest suffix that fits\<close>

definition charge :: "'w stored_event list \<Rightarrow> nat" where
  "charge es = sum_list (List.map ev_charged es)"

lemma charge_simps [simp]:
  "charge [] = 0" "charge (e # es) = ev_charged e + charge es" "charge (xs @ ys) = charge xs + charge ys"
  by (simp_all add: charge_def)

definition fits :: "nat \<Rightarrow> ring_limits \<Rightarrow> 'w stored_event list \<Rightarrow> bool" where
  "fits backing l es \<longleftrightarrow> length es \<le> max_events l \<and> backing + charge es \<le> max_bytes l"

lemma fits_Cons: "fits backing l (e # es) \<Longrightarrow> fits backing l es"
  by (simp add: fits_def)

lemma fits_snoc: "fits backing l (es @ [e]) \<Longrightarrow> fits backing l es"
  by (simp add: fits_def)

fun longest :: "('a list \<Rightarrow> bool) \<Rightarrow> 'a list \<Rightarrow> 'a list" where
  "longest P [] = []"
| "longest P (x # xs) = (if P (x # xs) then x # xs else longest P xs)"

lemma longest_fits: "P [] \<Longrightarrow> P (longest P xs)"
  by (induction xs) auto

lemma longest_self: "P xs \<Longrightarrow> longest P xs = xs"
  by (cases xs) auto

lemma longest_suffix: "\<exists>k \<le> length xs. longest P xs = drop k xs \<and> (\<forall>j < k. \<not> P (drop j xs))"
proof (induction xs)
  case (Cons x xs)
  then obtain k where k: "k \<le> length xs" "longest P xs = drop k xs" "\<forall>j < k. \<not> P (drop j xs)" by blast
  show ?case
  proof (cases "P (x # xs)")
    case False
    have "\<not> P (drop j (x # xs))" if "j < Suc k" for j using that False k(3) by (cases j) auto
    then show ?thesis using False k by (intro exI [of _ "Suc k"]) simp
  qed (intro exI [of _ 0], simp)
qed simp

text \<open>Dropping early does not matter: what was dropped would have had to go anyway.\<close>

lemma longest_snoc:
  assumes "\<And>ys y. P (ys @ [y]) \<Longrightarrow> P ys" and "P []"
  shows "longest P (longest P xs @ [x]) = longest P (xs @ [x])"
proof (induction xs)
  case (Cons a xs)
  show ?case
  proof (cases "P (a # xs)")
    case False
    then have "\<not> P (a # xs @ [x])" using assms(1) [of "a # xs" x] by auto
    then show ?thesis using False Cons by simp
  qed simp
qed simp

section \<open>Push\<close>

definition ring_ok :: "'w ring \<Rightarrow> bool" where
  "ring_ok r \<longleftrightarrow> 0 < max_events (limits r) \<and> max_events (limits r) \<le> USIZE_MAX \<and> max_bytes (limits r) < USIZE_MAX \<and>
    charged_bytes r = backing_bytes r + charge (entries r) \<and> fits (backing_bytes r) (limits r) (entries r)"

definition bounded_effect :: "nat \<Rightarrow> nat \<Rightarrow> ring_push \<Rightarrow> bool" where
  "bounded_effect n b eff \<longleftrightarrow> evicted_for_count_events eff + evicted_for_byte_limit_events eff = n \<and>
    evicted_for_count_bytes eff + evicted_for_byte_limit_bytes eff = b"

lemma evict_for_count_once:
  assumes "ring_ok r"
  shows "evict_for_count r ring_push_default =
    (if length (entries r) < max_events (limits r) then Some (r, ring_push_default)
     else Some (r\<lparr>entries := tl (entries r), charged_bytes := charged_bytes r - ev_charged (hd (entries r))\<rparr>,
                note_count (ev_charged (hd (entries r))) ring_push_default))"
proof (cases "length (entries r) < max_events (limits r)")
  case True
  then show ?thesis by (subst evict_for_count.simps) simp
next
  case False
  then have "length (entries r) = max_events (limits r)" using assms by (simp add: ring_ok_def fits_def)
  moreover obtain e es where e: "entries r = e # es"
    using False assms by (cases "entries r") (auto simp: ring_ok_def)
  ultimately show ?thesis
    by (subst evict_for_count.simps, subst evict_for_count.simps) (simp add: e)
qed

lemma evict_for_bytes_longest:
  assumes "charged_bytes r = backing_bytes r + charge (entries r)" and "charged_bytes r \<le> USIZE_MAX"
    and "length (entries r) < max_events (limits r)" and "max_bytes (limits r) < USIZE_MAX"
    and "backing_bytes r + ev_charged e \<le> max_bytes (limits r)" and "ev_charged e \<le> USIZE_MAX"
    and "bounded_effect n b eff" and "n + length (entries r) \<le> U64_MAX" and "b + charge (entries r) \<le> U64_MAX"
  shows "\<exists>eff' k. evict_for_bytes (ev_charged e) r eff =
      (Inr eff', r\<lparr>entries := drop k (entries r), charged_bytes := backing_bytes r + charge (drop k (entries r))\<rparr>) \<and>
    k \<le> length (entries r) \<and>
    drop k (entries r) @ [e] = longest (fits (backing_bytes r) (limits r)) (entries r @ [e]) \<and>
    bounded_effect (n + k) (b + charge (take k (entries r))) eff' \<and>
    evicted_for_count_events eff' = evicted_for_count_events eff"
  using assms
proof (induction "entries r" arbitrary: r n b eff)
  case Nil
  have s: "sat_add USIZE_MAX (charged_bytes r) (ev_charged e) \<le> max_bytes (limits r)"
    using Nil.prems(1,5) Nil.hyps by (auto simp: sat_add_def)
  have f: "fits (backing_bytes r) (limits r) [e]" using Nil.prems(3,5) Nil.hyps by (auto simp: fits_def)
  show ?case using s f Nil by (intro exI [of _ eff] exI [of _ 0]) simp
next
  case (Cons x xs)
  note xs = Cons.hyps(2) [symmetric]
  have eq: "sat_add USIZE_MAX (charged_bytes r) (ev_charged e) \<le> max_bytes (limits r) \<longleftrightarrow>
      fits (backing_bytes r) (limits r) (entries r @ [e])"
    using Cons.prems(1,3,4) by (auto simp: sat_add_def fits_def)
  show ?case
  proof (cases "fits (backing_bytes r) (limits r) (entries r @ [e])")
    case True
    then show ?thesis using eq Cons.prems by (intro exI [of _ eff] exI [of _ 0]) (simp add: longest_self)
  next
    case False
    define r1 where "r1 = r\<lparr>entries := xs, charged_bytes := charged_bytes r - ev_charged x\<rparr>"
    define eff1 where "eff1 = note_bytes (ev_charged x) eff"
    have eff1: "bounded_effect (Suc n) (b + ev_charged x) eff1"
        "evicted_for_count_events eff1 = evicted_for_count_events eff"
      using Cons.prems(7,8,9) xs
      by (auto simp: eff1_def note_bytes_def bounded_effect_def sat_add_exact)
    have "\<exists>eff' k. evict_for_bytes (ev_charged e) r1 eff1 =
      (Inr eff', r1\<lparr>entries := drop k (entries r1), charged_bytes := backing_bytes r1 + charge (drop k (entries r1))\<rparr>) \<and>
      k \<le> length (entries r1) \<and>
      drop k (entries r1) @ [e] = longest (fits (backing_bytes r1) (limits r1)) (entries r1 @ [e]) \<and>
      bounded_effect (Suc n + k) (b + ev_charged x + charge (take k (entries r1))) eff' \<and>
      evicted_for_count_events eff' = evicted_for_count_events eff1"
      by (rule Cons.hyps(1)) (use Cons.prems xs eff1 in \<open>simp_all add: r1_def\<close>)
    then obtain eff' k where k: "evict_for_bytes (ev_charged e) r1 eff1 =
        (Inr eff', r1\<lparr>entries := drop k xs, charged_bytes := backing_bytes r + charge (drop k xs)\<rparr>)"
      "k \<le> length xs" "drop k xs @ [e] = longest (fits (backing_bytes r) (limits r)) (xs @ [e])"
      "bounded_effect (Suc n + k) (b + ev_charged x + charge (take k xs)) eff'"
      "evicted_for_count_events eff' = evicted_for_count_events eff"
      by (auto simp: r1_def eff1)
    have "evict_for_bytes (ev_charged e) r eff = evict_for_bytes (ev_charged e) r1 eff1"
      using False eq by (subst evict_for_bytes.simps) (simp add: xs r1_def eff1_def del: evict_for_bytes.simps)
    then show ?thesis using False k xs
      by (intro exI [of _ eff'] exI [of _ "Suc k"]) (simp add: r1_def algebra_simps del: evict_for_bytes.simps)
  qed
qed

lemma ring_push_refused:
  "max_bytes (limits r) < USIZE_MAX \<Longrightarrow> max_bytes (limits r) < backing_bytes r + ev_charged e \<Longrightarrow>
    ring_push_event e r = Some (Inl EventExceedsByteLimit, r)"
  by (simp add: ring_push_event_def sat_add_def min_def)

lemma ring_push_spec:
  assumes ok: "ring_ok r" and room: "backing_bytes r + ev_charged e \<le> max_bytes (limits r)"
  shows "\<exists>eff k. ring_push_event e r = Some (Inr eff,
      r\<lparr>entries := drop k (entries r) @ [e], charged_bytes := backing_bytes r + charge (drop k (entries r) @ [e])\<rparr>) \<and>
    k \<le> length (entries r) \<and>
    drop k (entries r) @ [e] = longest (fits (backing_bytes r) (limits r)) (entries r @ [e]) \<and>
    bounded_effect k (charge (take k (entries r))) eff \<and>
    evicted_for_count_events eff = of_bool (length (entries r) = max_events (limits r))"
proof -
  have pass: "sat_add USIZE_MAX (backing_bytes r) (ev_charged e) \<le> max_bytes (limits r)"
    using room by (simp add: sat_add_def)
  have inv: "charged_bytes r = backing_bytes r + charge (entries r)" "0 < max_events (limits r)"
      "max_events (limits r) \<le> USIZE_MAX" "max_bytes (limits r) < USIZE_MAX"
      "length (entries r) \<le> max_events (limits r)" "charged_bytes r \<le> max_bytes (limits r)"
    using ok by (auto simp: ring_ok_def fits_def)
  define j where "j = (of_bool (length (entries r) = max_events (limits r)) :: nat)"
  define r1 where "r1 = r\<lparr>entries := drop j (entries r), charged_bytes := backing_bytes r + charge (drop j (entries r))\<rparr>"
  define eff1 where "eff1 = (if j = 0 then ring_push_default
      else note_count (ev_charged (hd (entries r))) ring_push_default)"
  have first: "evict_for_count r ring_push_default = Some (r1, eff1)"
  proof (cases "length (entries r) = max_events (limits r)")
    case True
    then obtain x xs where x: "entries r = x # xs" using inv(2) by (cases "entries r") auto
    show ?thesis using True x inv(1) by (simp add: evict_for_count_once [OF ok] r1_def eff1_def j_def)
  next
    case False
    then show ?thesis using inv by (simp add: evict_for_count_once [OF ok] r1_def eff1_def j_def)
  qed
  have jle: "j \<le> length (entries r)" using inv(2) by (auto simp: j_def)
  have short: "length (entries r1) < max_events (limits r1)" using inv(2,5) by (auto simp: r1_def j_def)
  have parts: "charge (entries r) = charge (take j (entries r)) + charge (drop j (entries r))"
    by (metis append_take_drop_id charge_simps(3))
  have eff1: "bounded_effect j (charge (take j (entries r))) eff1" "evicted_for_count_events eff1 = j"
  proof -
    have "bounded_effect j (charge (take j (entries r))) eff1 \<and> evicted_for_count_events eff1 = j"
    proof (cases "length (entries r) = max_events (limits r)")
      case True
      then obtain x xs where x: "entries r = x # xs" using inv(2) by (cases "entries r") auto
      then show ?thesis using True inv(1,4,6)
        by (simp add: eff1_def j_def bounded_effect_def note_count_def ring_push_default_def sat_add_def)
    qed (simp add: eff1_def j_def bounded_effect_def ring_push_default_def)
    then show "bounded_effect j (charge (take j (entries r))) eff1" "evicted_for_count_events eff1 = j" by auto
  qed
  have "\<exists>eff' k. evict_for_bytes (ev_charged e) r1 eff1 =
      (Inr eff', r1\<lparr>entries := drop k (entries r1), charged_bytes := backing_bytes r1 + charge (drop k (entries r1))\<rparr>) \<and>
    k \<le> length (entries r1) \<and>
    drop k (entries r1) @ [e] = longest (fits (backing_bytes r1) (limits r1)) (entries r1 @ [e]) \<and>
    bounded_effect (j + k) (charge (take j (entries r)) + charge (take k (entries r1))) eff' \<and>
    evicted_for_count_events eff' = evicted_for_count_events eff1"
    by (rule evict_for_bytes_longest [OF _ _ short _ _ _ eff1(1)])
      (use inv room parts jle in \<open>simp_all add: r1_def\<close>)
  then obtain eff' k where k: "evict_for_bytes (ev_charged e) r1 eff1 =
      (Inr eff', r1\<lparr>entries := drop k (entries r1), charged_bytes := backing_bytes r + charge (drop k (entries r1))\<rparr>)"
    "k \<le> length (entries r1)" "drop k (entries r1) @ [e] = longest (fits (backing_bytes r) (limits r)) (entries r1 @ [e])"
    "bounded_effect (j + k) (charge (take j (entries r)) + charge (take k (entries r1))) eff'"
    "evicted_for_count_events eff' = j"
    using eff1(2) by (auto simp: r1_def)
  have long: "longest (fits (backing_bytes r) (limits r)) (entries r1 @ [e]) =
      longest (fits (backing_bytes r) (limits r)) (entries r @ [e])"
  proof (cases "j = 0")
    case False
    then have full: "length (entries r) = max_events (limits r)" and j1: "j = 1" by (auto simp: j_def)
    then obtain x xs where x: "entries r = x # xs" using inv(2) by (cases "entries r") auto
    then show ?thesis using full by (simp add: r1_def j1 fits_def)
  qed (simp add: r1_def)
  have fit: "fits (backing_bytes r) (limits r) (drop k (entries r1) @ [e])"
    unfolding k(3) using longest_fits [of "fits (backing_bytes r) (limits r)"] inv(6) by (simp add: fits_def inv(1))
  have exact: "sat_add USIZE_MAX (backing_bytes r + charge (drop k (entries r1))) (ev_charged e) =
      backing_bytes r + charge (drop k (entries r1) @ [e])"
    using fit inv(4) by (simp add: fits_def sat_add_def)
  have "ring_push_event e r = Some (Inr eff',
      r\<lparr>entries := drop (j + k) (entries r) @ [e], charged_bytes := backing_bytes r + charge (drop (j + k) (entries r) @ [e])\<rparr>)"
    using pass first k(1) exact
    by (simp add: ring_push_event_def r1_def add.commute del: evict_for_bytes.simps)
  moreover have "j + k \<le> length (entries r)" using k(2) jle by (simp add: r1_def)
  moreover have "drop (j + k) (entries r) @ [e] = longest (fits (backing_bytes r) (limits r)) (entries r @ [e])"
    using k(3) long by (simp add: r1_def add.commute)
  moreover have "charge (take (j + k) (entries r)) = charge (take j (entries r)) + charge (take k (entries r1))"
    by (simp add: take_add r1_def)
  ultimately show ?thesis using k(4,5) j_def by metis
qed

section \<open>A history of pushes\<close>

fun push_all :: "'w stored_event list \<Rightarrow> 'w ring \<Rightarrow> 'w ring option" where
  "push_all [] r = Some r"
| "push_all (e # es) r =
    (case ring_push_event e r of None \<Rightarrow> None | Some (_, r') \<Rightarrow> push_all es r')"

definition admissible :: "'w ring \<Rightarrow> 'w stored_event \<Rightarrow> bool" where
  "admissible r e \<longleftrightarrow> backing_bytes r + ev_charged e \<le> max_bytes (limits r)"

lemma push_all_longest:
  assumes "ring_ok r" and "entries r = longest (fits (backing_bytes r) (limits r)) hist"
  shows "\<exists>r'. push_all es r = Some r' \<and> ring_ok r' \<and> backing_bytes r' = backing_bytes r \<and> limits r' = limits r \<and>
    entries r' = longest (fits (backing_bytes r) (limits r)) (hist @ filter (admissible r) es)"
  using assms
proof (induction es arbitrary: r hist)
  case (Cons e es)
  let ?P = "fits (backing_bytes r) (limits r) :: 'a stored_event list \<Rightarrow> bool"
  have lim: "max_bytes (limits r) < USIZE_MAX" and empty: "?P []" using Cons.prems(1) by (auto simp: ring_ok_def fits_def)
  show ?case
  proof (cases "admissible r e")
    case True
    then obtain eff k where k: "ring_push_event e r = Some (Inr eff,
        r\<lparr>entries := drop k (entries r) @ [e], charged_bytes := backing_bytes r + charge (drop k (entries r) @ [e])\<rparr>)"
      "drop k (entries r) @ [e] = longest ?P (entries r @ [e])"
      using ring_push_spec [OF Cons.prems(1)] unfolding admissible_def by metis
    define r1 where "r1 = r\<lparr>entries := drop k (entries r) @ [e], charged_bytes := backing_bytes r + charge (drop k (entries r) @ [e])\<rparr>"
    have f: "?P (drop k (entries r) @ [e])" unfolding k(2) by (rule longest_fits [of ?P, OF empty])
    have ok1: "ring_ok r1" using Cons.prems(1) f by (simp add: ring_ok_def r1_def)
    have h1: "entries r1 = longest (fits (backing_bytes r1) (limits r1)) (hist @ [e])"
      using longest_snoc [of ?P, OF fits_snoc empty] k(2) Cons.prems(2) by (simp add: r1_def)
    have same: "admissible r1 = admissible r" by (auto simp: admissible_def r1_def)
    show ?thesis using Cons.IH [OF ok1 h1] k(1) True by (simp add: r1_def [symmetric] same) (simp add: r1_def)
  next
    case False
    then have "ring_push_event e r = Some (Inl EventExceedsByteLimit, r)"
      using ring_push_refused [of r e] lim by (simp add: admissible_def)
    then show ?thesis using Cons.IH [OF Cons.prems] False by simp
  qed
qed auto

lemma ring_new_ok:
  assumes "ring_new capacity slot l = Inr r" and "0 < max_events l" and "max_events l \<le> USIZE_MAX" and "max_bytes l < USIZE_MAX"
  shows "ring_ok r \<and> entries r = [] \<and> limits r = l"
  using assms by (auto simp: ring_new_def ring_ok_def fits_def Let_def split: if_splits)

text \<open>C38: Whatever is pushed into a fresh ring, every push returns, and the ring then holds exactly the
  longest suffix of the events it could take that respects both limits, charged with exactly what
  they cost: it never keeps more than it may and never drops an event without need.\<close>

theorem ring_holds_longest_suffix:
  assumes "ring_new capacity slot l = Inr r" and "0 < max_events l" and "max_events l \<le> USIZE_MAX"
    and "max_bytes l < USIZE_MAX"
  shows "\<exists>r'. push_all es r = Some r' \<and>
    entries r' = longest (fits (backing_bytes r) l) (filter (admissible r) es) \<and>
    charged_bytes r' = backing_bytes r + charge (entries r') \<and>
    charged_bytes r' \<le> max_bytes l \<and> length (entries r') \<le> max_events l"
proof -
  note n = ring_new_ok [OF assms]
  obtain r' where r': "push_all es r = Some r'" "ring_ok r'" "backing_bytes r' = backing_bytes r" "limits r' = limits r"
    "entries r' = longest (fits (backing_bytes r) (limits r)) ([] @ filter (admissible r) es)"
    using push_all_longest [of r "[]" es] n by auto
  then show ?thesis using n by (auto simp: ring_ok_def fits_def)
qed

section \<open>Replay pages\<close>

definition array_size :: "('w \<Rightarrow> nat option) \<Rightarrow> 'w list \<Rightarrow> nat" where
  "array_size json_len ws = 2 + sum_list (List.map (\<lambda>w. the (json_len w)) ws) + (length ws - 1)"

lemma array_size_snoc:
  "json_len w = Some n \<Longrightarrow>
    array_size json_len (ws @ [w]) = array_size json_len ws + (if ws = [] then 0 else 1) + n"
  by (cases ws) (simp_all add: array_size_def)

lemma page_loop_prefix:
  "\<exists>k \<le> length es. page_loop json_len me mb enc events es = events @ List.map ev_masked (take k es)"
proof (induction es arbitrary: enc events)
  case (Cons e es)
  have stop: "\<exists>k \<le> length (e # es). events = events @ List.map ev_masked (take k (e # es))"
    by (intro exI [of _ 0]) simp
  show ?case
  proof (cases "json_len (ev_masked e)")
    case None
    then show ?thesis using stop by simp
  next
    case (Some n)
    define size where "size = sat_add USIZE_MAX (sat_add USIZE_MAX enc (if events \<noteq> [] then 1 else 0)) n"
    obtain k where "k \<le> length es"
      "page_loop json_len me mb size (events @ [ev_masked e]) es = (events @ [ev_masked e]) @ List.map ev_masked (take k es)"
      using Cons.IH by blast
    then have "\<exists>k \<le> length (e # es). page_loop json_len me mb size (events @ [ev_masked e]) es =
        events @ List.map ev_masked (take k (e # es))"
      by (intro exI [of _ "Suc k"]) simp
    then show ?thesis using stop Some by (auto simp: size_def Let_def)
  qed
qed simp

lemma page_loop_bounds:
  assumes "enc = array_size json_len events" and "mb < USIZE_MAX"
    and "length events \<le> me" and "length events \<le> 1 \<or> array_size json_len events \<le> mb"
  shows "length (page_loop json_len me mb enc events es) \<le> me \<and>
    (length (page_loop json_len me mb enc events es) \<le> 1 \<or>
     array_size json_len (page_loop json_len me mb enc events es) \<le> mb)"
  using assms
proof (induction es arbitrary: enc events)
  case (Cons e es)
  show ?case
  proof (cases "length events < me \<and> (\<exists>n. json_len (ev_masked e) = Some n)")
    case True
    then obtain n where n: "json_len (ev_masked e) = Some n" by auto
    define size where "size = sat_add USIZE_MAX (sat_add USIZE_MAX enc (if events \<noteq> [] then 1 else 0)) n"
    have next_size: "array_size json_len (events @ [ev_masked e]) = enc + (if events = [] then 0 else 1) + n"
      using array_size_snoc [of json_len "ev_masked e" n events] n Cons.prems(1) by simp
    show ?thesis
    proof (cases "events \<noteq> [] \<and> mb < size")
      case True
      then have "page_loop json_len me mb enc events (e # es) = events"
        using n by (auto simp: size_def Let_def)
      then show ?thesis using Cons.prems by (simp del: page_loop.simps)
    next
      case go: False
      have step: "page_loop json_len me mb enc events (e # es) = page_loop json_len me mb size (events @ [ev_masked e]) es"
        using True n go by (auto simp: size_def Let_def)
      show ?thesis
      proof (cases "size = array_size json_len (events @ [ev_masked e])")
        case eq: True
        show ?thesis unfolding step
          by (rule Cons.IH [OF eq Cons.prems(2)]) (use True go eq in auto)
      next
        case sat: False
        then have big: "USIZE_MAX \<le> size" using next_size by (auto simp: size_def sat_add_def min_def split: if_splits)
        then have "events = []" using go Cons.prems(2) by auto
        then have one: "page_loop json_len me mb size [ev_masked e] es = [ev_masked e]"
          using big Cons.prems(2) by (cases es) (auto simp: sat_add_def Let_def split: option.splits)
        then show ?thesis using step \<open>events = []\<close> True by simp
      qed
    qed
  qed (use Cons.prems in \<open>auto split: option.splits\<close>)
qed simp

lemma page_bounds:
  assumes "mb < USIZE_MAX"
  shows "length (snapshot_after json_len after me mb r) \<le> me \<and>
    (length (snapshot_after json_len after me mb r) \<le> 1 \<or> array_size json_len (snapshot_after json_len after me mb r) \<le> mb)"
  unfolding snapshot_after_def by (rule page_loop_bounds) (simp_all add: array_size_def assms)

lemma page_prefix:
  "\<exists>k \<le> length (filter (newer after) (entries r)).
    snapshot_after json_len after me mb r = List.map ev_masked (take k (filter (newer after) (entries r)))"
  using page_loop_prefix [where events = "[]"] by (simp add: snapshot_after_def)

lemma page_progress:
  assumes "0 < me" and "filter (newer after) (entries r) = e # es" and "json_len (ev_masked e) = Some n"
  shows "snapshot_after json_len after me mb r \<noteq> []"
proof -
  obtain size where "snapshot_after json_len after me mb r = page_loop json_len me mb size [ev_masked e] es"
    using assms by (simp add: snapshot_after_def Let_def)
  moreover obtain k where "page_loop json_len me mb size [ev_masked e] es = [ev_masked e] @ List.map ev_masked (take k es)"
    using page_loop_prefix by blast
  ultimately show ?thesis by simp
qed

text \<open>A client that asks page after page, each time from the last sequence it has seen.\<close>

fun replay :: "('w \<Rightarrow> nat) \<Rightarrow> ('w \<Rightarrow> nat option) \<Rightarrow> nat \<Rightarrow> nat \<Rightarrow> 'w ring \<Rightarrow> nat \<Rightarrow> nat option \<Rightarrow> 'w list list" where
  "replay seq_of json_len me mb r 0 after = []"
| "replay seq_of json_len me mb r (Suc fuel) after =
    (case snapshot_after json_len after me mb r of
       [] \<Rightarrow> []
     | w # ws \<Rightarrow> (w # ws) # replay seq_of json_len me mb r fuel (Some (seq_of (last (w # ws)))))"

lemma newer_drop:
  assumes "sorted_wrt (<) (List.map ev_sequence es)" and "0 < k" and "k \<le> length es"
  shows "filter (newer (Some (ev_sequence (es ! (k - 1))))) es = drop k es"
proof -
  have "es = take k es @ drop k es" by simp
  moreover have "\<not> newer (Some (ev_sequence (es ! (k - 1)))) e" if e: "e \<in> set (take k es)" for e
  proof -
    obtain i where i: "i < k" "e = es ! i" using e assms(3) by (auto simp: in_set_conv_nth)
    show ?thesis
    proof (cases "i = k - 1")
      case False
      then have "ev_sequence (es ! i) < ev_sequence (es ! (k - 1))"
        using sorted_wrt_nth_less [OF assms(1), of i "k - 1"] i assms(3) by simp
      then show ?thesis using i by (simp add: newer_def)
    qed (use i in \<open>simp add: newer_def\<close>)
  qed
  moreover have "newer (Some (ev_sequence (es ! (k - 1)))) e" if e: "e \<in> set (drop k es)" for e
  proof -
    obtain i where i: "i < length es - k" "e = es ! (k + i)" using e by (auto simp: in_set_conv_nth)
    then have "ev_sequence (es ! (k - 1)) < ev_sequence (es ! (k + i))"
      using sorted_wrt_nth_less [OF assms(1), of "k - 1" "k + i"] assms(2,3) by simp
    then show ?thesis using i by (simp add: newer_def)
  qed
  ultimately show ?thesis
    by (metis (no_types, lifting) append_Nil filter_False filter_True filter_append)
qed

lemma newer_trans: "newer (Some b) e \<Longrightarrow> newer after x \<Longrightarrow> ev_sequence x = b \<Longrightarrow> newer after e"
  by (auto simp: newer_def split: option.splits)

lemma replay_from:
  assumes sorted: "sorted_wrt (<) (List.map ev_sequence (entries r))" and me: "0 < me"
    and enc: "\<forall>e \<in> set (entries r). \<exists>n. json_len (ev_masked e) = Some n"
    and seq: "\<forall>e \<in> set (entries r). seq_of (ev_masked e) = ev_sequence e"
  shows "length (filter (newer after) (entries r)) \<le> fuel \<Longrightarrow>
    concat (replay seq_of json_len me mb r fuel after) = List.map ev_masked (filter (newer after) (entries r))"
proof (induction fuel arbitrary: after)
  case (Suc fuel)
  define es where "es = filter (newer after) (entries r)"
  obtain k where k: "k \<le> length es" "snapshot_after json_len after me mb r = List.map ev_masked (take k es)"
    using page_prefix unfolding es_def by blast
  show ?case
  proof (cases "es = []")
    case True
    then show ?thesis using k by (simp add: es_def [symmetric])
  next
    case False
    then obtain e es' where e: "es = e # es'" by (cases es) auto
    then have "e \<in> set (entries r)" using es_def by (metis filter_is_subset list.set_intros(1) subsetD)
    then obtain n where n: "json_len (ev_masked e) = Some n" using enc by blast
    have "snapshot_after json_len after me mb r \<noteq> []"
      by (rule page_progress [of me after r e es' json_len n]) (use me n e es_def in simp_all)
    then have k0: "0 < k" and ne: "take k es \<noteq> []" using k by auto
    define x where "x = es ! (k - 1)"
    have x: "x \<in> set es" "last (take k es) = x" 
      using k0 k(1) last_conv_nth [OF ne] by (simp_all add: x_def min_absorb2)
    then have xin: "x \<in> set (entries r)" and xnew: "newer after x" by (auto simp: es_def)
    have last: "seq_of (last (List.map ev_masked (take k es))) = ev_sequence x"
      using seq xin x(2) ne by (simp add: last_map)
    have srt: "sorted_wrt (<) (List.map ev_sequence es)"
      using sorted unfolding es_def by (metis sorted_wrt_filter sorted_wrt_map)
    have "filter (newer (Some (ev_sequence x))) (entries r) = filter (newer (Some (ev_sequence x))) es"
      using newer_trans [OF _ xnew] by (auto simp: es_def intro!: filter_cong)
    also have "\<dots> = drop k es" using newer_drop [OF srt k0 k(1)] by (simp add: x_def)
    finally have rest: "filter (newer (Some (ev_sequence x))) (entries r) = drop k es" .
    have "concat (replay seq_of json_len me mb r fuel (Some (ev_sequence x))) = List.map ev_masked (drop k es)"
      using Suc.IH [of "Some (ev_sequence x)"] rest Suc.prems k0 k(1) by (simp add: es_def)
    then have "concat (replay seq_of json_len me mb r (Suc fuel) after) =
        List.map ev_masked (take k es) @ List.map ev_masked (drop k es)"
      using k ne last by (cases "List.map ev_masked (take k es)") auto
    then show ?thesis by (simp add: es_def [symmetric] flip: map_append)
  qed
qed simp

text \<open>C39: A client that pages through an unchanging ring gets every event exactly once, in order, and every
  page it gets respects the limits, except that a single event is always let through.\<close>

theorem replay_delivers_everything:
  assumes "sorted_wrt (<) (List.map ev_sequence (entries r))" and "0 < me" and "mb < USIZE_MAX"
    and "\<forall>e \<in> set (entries r). json_len (ev_masked e) \<noteq> None \<and> seq_of (ev_masked e) = ev_sequence e"
    and "length (entries r) \<le> fuel"
  shows "concat (replay seq_of json_len me mb r fuel None) = ring_snapshot r \<and>
    (\<forall>after. length (snapshot_after json_len after me mb r) \<le> me \<and>
      (length (snapshot_after json_len after me mb r) \<le> 1 \<or> array_size json_len (snapshot_after json_len after me mb r) \<le> mb))"
proof -
  have all: "filter (newer None) (entries r) = entries r" by (simp add: newer_def)
  have "concat (replay seq_of json_len me mb r fuel None) = ring_snapshot r"
    using replay_from [OF assms(1,2), of json_len seq_of None fuel] assms(4,5)
    by (auto simp: all ring_snapshot_def)
  then show ?thesis using page_bounds [OF assms(3)] by blast
qed

section \<open>Coalescing\<close>

text \<open>What two drafts must share to be merged.\<close>

definition draft_key :: "('k, 'a, 'c) validated_draft \<Rightarrow> _" where
  "draft_key d = (vd_context d, vd_kind d, vd_severity d, vd_direction d, vd_outcome d, vd_attributes d,
     vd_correlation d, vd_parent d)"

fun emitted :: "'d coalesce_output \<Rightarrow> 'd list" where
  "emitted Held = []"
| "emitted (Merged n) = []"
| "emitted (One d) = [d]"
| "emitted (Two d e) = [d, e]"

fun coalesce_all :: "('k, 'a, 'c) validated_draft list \<Rightarrow> ('k, 'a, 'c) validated_draft option \<Rightarrow>
    ('k, 'a, 'c) validated_draft list" where
  "coalesce_all [] pending = (case fst (coalescer_flush pending) of None \<Rightarrow> [] | Some d \<Rightarrow> [d])"
| "coalesce_all (d # ds) pending =
    (let (out, pending') = coalescer_push d pending in emitted out @ coalesce_all ds pending')"

definition key_count :: "_ \<Rightarrow> ('k, 'a, 'c) validated_draft list \<Rightarrow> nat" where
  "key_count key ds = sum_list (List.map vd_count (filter (\<lambda>d. draft_key d = key) ds))"

lemma key_count_simps [simp]:
  "key_count key [] = 0"
  "key_count key (d # ds) = (if draft_key d = key then vd_count d else 0) + key_count key ds"
  "key_count key (xs @ ys) = key_count key xs + key_count key ys"
  by (simp_all add: key_count_def)

definition held :: "'d option \<Rightarrow> 'd list" where
  "held p = (case p of None \<Rightarrow> [] | Some d \<Rightarrow> [d])"

lemma held_simps [simp]: "held None = []" "held (Some d) = [d]"
  by (simp_all add: held_def)

lemma absorb_key: "draft_key (absorb d n) = draft_key d"
  by (simp add: draft_key_def absorb_def Let_def)

lemma coalesce_same_key: "can_coalesce_with d n \<Longrightarrow> draft_key n = draft_key d"
  by (auto simp: can_coalesce_with_def draft_key_def intro: draft_context.equality)

lemma absorb_count: "vd_count d + vd_count n \<le> U32_MAX \<Longrightarrow> vd_count (absorb d n) = vd_count d + vd_count n"
  by (simp add: absorb_def Let_def sat_add_exact)

lemma push_conserves:
  assumes "coalescer_push d pending = (out, pending')" and "sum_list (List.map vd_count (held pending)) + vd_count d \<le> U32_MAX"
  shows "key_count key (emitted out) + key_count key (held pending') = key_count key (held pending) + key_count key [d] \<and>
    sum_list (List.map vd_count (held pending')) \<le> sum_list (List.map vd_count (held pending)) + vd_count d"
proof (cases pending)
  case None
  then show ?thesis using assms(1) by (auto simp: coalescer_push_def split: if_splits)
next
  case (Some p)
  show ?thesis
  proof (cases "can_coalesce_with p d")
    case True
    have "draft_key d = draft_key p" by (rule coalesce_same_key [OF True])
    then show ?thesis using assms Some True by (auto simp: coalescer_push_def absorb_key absorb_count)
  qed (use assms(1) Some in \<open>auto simp: coalescer_push_def split: if_splits\<close>)
qed

text \<open>C40: Every input is accounted for, under its own key: what comes out for a session, kind, severity,
  direction, outcome, attributes and correlation counts exactly the inputs that had them, and no
  failure, rejection or error is ever merged.\<close>

theorem coalescing_conserves:
  assumes "sum_list (List.map vd_count (held pending)) + sum_list (List.map vd_count ds) \<le> U32_MAX"
  shows "key_count key (coalesce_all ds pending) = key_count key (held pending) + key_count key ds"
  using assms
proof (induction ds arbitrary: pending)
  case Nil
  then show ?case by (cases pending) (simp_all add: coalescer_flush_def)
next
  case (Cons d ds)
  obtain out pending' where p: "coalescer_push d pending = (out, pending')" by fastforce
  have "key_count key (emitted out) + key_count key (held pending') = key_count key (held pending) + key_count key [d] \<and>
    sum_list (List.map vd_count (held pending')) \<le> sum_list (List.map vd_count (held pending)) + vd_count d"
    by (rule push_conserves [OF p]) (use Cons.prems in simp)
  moreover from this have "key_count key (coalesce_all ds pending') = key_count key (held pending') + key_count key ds"
    by (intro Cons.IH) (use Cons.prems in simp)
  ultimately show ?case by (simp add: p)
qed

section \<open>Witnesses\<close>

definition demo_event :: "nat \<Rightarrow> nat stored_event" where
  "demo_event n = \<lparr>ev_sequence = n, ev_charged = 3, ev_masked = n\<rparr>"

definition demo_ring :: "nat ring" where
  "demo_ring = \<lparr>entries = [demo_event 4, demo_event 6], charged_bytes = 16, backing_bytes = 10,
     limits = \<lparr>max_events = 2, max_bytes = 20\<rparr>\<rparr>"

theorem ring_holds_longest_suffix_witness:
  "\<exists>r' :: nat ring. push_all [demo_event 1, demo_event 2, demo_event 3]
      \<lparr>entries = [], charged_bytes = 10, backing_bytes = 10, limits = \<lparr>max_events = 2, max_bytes = 20\<rparr>\<rparr> = Some r' \<and>
    entries r' = [demo_event 2, demo_event 3]"
proof -
  have n: "ring_new (\<lambda>n. n) 5 \<lparr>max_events = 2, max_bytes = 20\<rparr> =
      Inr (\<lparr>entries = [], charged_bytes = 10, backing_bytes = 10, limits = \<lparr>max_events = 2, max_bytes = 20\<rparr>\<rparr> :: nat ring)"
    by (simp add: ring_new_def sat_mul_def)
  from ring_holds_longest_suffix [OF n, of "[demo_event 1, demo_event 2, demo_event 3]"]
  show ?thesis by (auto simp: admissible_def demo_event_def fits_def)
qed

theorem replay_delivers_everything_witness:
  "concat (replay (\<lambda>w. w) (\<lambda>w. Some 5) 1 8 demo_ring 2 None) = ring_snapshot demo_ring"
  using replay_delivers_everything [of demo_ring 1 8 "\<lambda>w. Some 5" "\<lambda>w. w" 2]
  by (simp add: demo_ring_def demo_event_def)

definition demo_draft :: "(nat, nat, nat) validated_draft" where
  "demo_draft = \<lparr>vd_context = \<lparr>dc_session = ''s'', dc_generation = 1, dc_profile = Profile_Normal\<rparr>, vd_kind = 1,
     vd_severity = Severity_Info, vd_direction = Dir_None, vd_outcome = Out_Success, vd_timestamp = 7, vd_elapsed = 0,
     vd_attributes = [], vd_correlation = None, vd_parent = None, vd_coalescing = Coalesce_Adjacent, vd_count = 1,
     vd_first = None, vd_last = None\<rparr>"

theorem coalescing_conserves_witness:
  "key_count (draft_key demo_draft) (coalesce_all [demo_draft, demo_draft, demo_draft] None) = 3"
  using coalescing_conserves [of None "[demo_draft, demo_draft, demo_draft]" "draft_key demo_draft"]
  by (simp add: demo_draft_def)

end
