(* ===== verification/Rs_Maps.thy ===== *)
theory Rs_Maps
  imports Rs_Text "HOL-Library.AList" "HOL-Library.List_Lexorder"
begin

text \<open>
  Rust's hash maps and hash sets.  A \<open>HashMap\<close> is the list of its entries and a \<open>HashSet\<close> the list of
  its elements; the order stands for the iteration order, which Rust leaves open, so statements speak
  of lookups and sets.  The sorting of strings and of identities is that of \<open>Ord\<close>: lexicographic.
\<close>

section \<open>Maps\<close>

type_synonym ('k, 'v) hmap = "('k \<times> 'v) list"

definition hget :: "('k, 'v) hmap \<Rightarrow> 'k \<Rightarrow> 'v option" where
  "hget m k = map_of m k"

definition hput :: "'k \<Rightarrow> 'v \<Rightarrow> ('k, 'v) hmap \<Rightarrow> ('k, 'v) hmap" where
  "hput k v m = AList.update k v m"

definition hdel :: "'k \<Rightarrow> ('k, 'v) hmap \<Rightarrow> ('k, 'v) hmap" where
  "hdel k m = AList.delete k m"

text \<open>\<open>get_mut\<close>, \<open>values_mut\<close>, \<open>retain\<close> on values, \<open>entry(k).or_insert\<close>.\<close>

definition hmod :: "'k \<Rightarrow> ('v \<Rightarrow> 'v) \<Rightarrow> ('k, 'v) hmap \<Rightarrow> ('k, 'v) hmap" where
  "hmod k f m = (case hget m k of None \<Rightarrow> m | Some v \<Rightarrow> hput k (f v) m)"

definition hvals :: "('v \<Rightarrow> 'v) \<Rightarrow> ('k, 'v) hmap \<Rightarrow> ('k, 'v) hmap" where
  "hvals f m = List.map (\<lambda>(k, v). (k, f v)) m"

definition hretain :: "('v \<Rightarrow> bool) \<Rightarrow> ('k, 'v) hmap \<Rightarrow> ('k, 'v) hmap" where
  "hretain P m = filter (\<lambda>(k, v). P v) m"

definition hentry :: "'k \<Rightarrow> 'v \<Rightarrow> ('k, 'v) hmap \<Rightarrow> ('k, 'v) hmap" where
  "hentry k v m = (if hget m k = None then hput k v m else m)"

definition hkeys :: "('k, 'v) hmap \<Rightarrow> 'k list" where
  "hkeys m = List.map fst m"

definition hwf :: "('k, 'v) hmap \<Rightarrow> bool" where
  "hwf m \<longleftrightarrow> distinct (List.map fst m)"

lemma hget_Nil [simp]: "hget [] k = None"
  by (simp add: hget_def)

lemma hget_put [simp]: "hget (hput k v m) k' = (if k' = k then Some v else hget m k')"
  by (simp add: hget_def hput_def update_conv')

lemma hget_del [simp]: "hget (hdel k m) k' = (if k' = k then None else hget m k')"
  by (simp add: hget_def hdel_def delete_conv')

lemma hget_mod [simp]: "hget (hmod k f m) k' = (if k' = k then map_option f (hget m k') else hget m k')"
  by (auto simp: hmod_def split: option.splits)

lemma hget_vals [simp]: "hget (hvals f m) k = map_option f (hget m k)"
  by (induction m) (auto simp: hget_def hvals_def)

lemma hget_entry [simp]:
  "hget (hentry k v m) k' = (if k' = k \<and> hget m k = None then Some v else hget m k')"
  by (auto simp: hentry_def)

lemma hget_retain: "hwf m \<Longrightarrow> hget (hretain P m) k = (case hget m k of None \<Rightarrow> None | Some v \<Rightarrow> if P v then Some v else None)"
proof (induction m)
  case (Cons e m)
  obtain a b where e: "e = (a, b)" by (cases e)
  have "k = a \<Longrightarrow> map_of m k = None"
    using Cons.prems e by (simp add: hwf_def map_of_eq_None_iff)
  then show ?case using Cons e by (auto simp: hwf_def hget_def hretain_def)
qed (simp add: hget_def hretain_def)

lemma hwf_Nil [simp]: "hwf []"
  by (simp add: hwf_def)

lemma hwf_put [simp]: "hwf m \<Longrightarrow> hwf (hput k v m)"
  by (simp add: hwf_def hput_def distinct_update)

lemma hwf_del [simp]: "hwf m \<Longrightarrow> hwf (hdel k m)"
  by (simp add: hwf_def hdel_def distinct_delete)

lemma keys_put: "hget m k \<noteq> None \<Longrightarrow> List.map fst (hput k v m) = List.map fst m"
  by (induction m) (auto simp: hget_def hput_def split: if_splits)

lemma keys_mod [simp]: "List.map fst (hmod k f m) = List.map fst m"
  by (simp add: hmod_def keys_put split: option.splits)

lemma hwf_mod [simp]: "hwf (hmod k f m) = hwf m"
  by (simp add: hwf_def)

lemma hwf_vals [simp]: "hwf (hvals f m) = hwf m"
proof -
  have "List.map fst (hvals f m) = List.map fst m" by (induction m) (auto simp: hvals_def)
  then show ?thesis by (simp add: hwf_def)
qed

lemma hwf_retain [simp]: "hwf m \<Longrightarrow> hwf (hretain P m)"
  by (simp add: hwf_def hretain_def distinct_map_filter)

lemma hwf_entry [simp]: "hwf m \<Longrightarrow> hwf (hentry k v m)"
  by (simp add: hentry_def)

lemma hget_in: "hwf m \<Longrightarrow> (k, v) \<in> set m \<longleftrightarrow> hget m k = Some v"
  by (simp add: hwf_def hget_def)

lemma hget_mem: "hget m k = Some v \<Longrightarrow> (k, v) \<in> set m"
  by (simp add: hget_def map_of_SomeD)

lemma hkeys_iff: "k \<in> set (hkeys m) \<longleftrightarrow> hget m k \<noteq> None"
  by (simp add: hkeys_def hget_def map_of_eq_None_iff)

section \<open>Sets\<close>

definition hadd :: "'a \<Rightarrow> 'a list \<Rightarrow> 'a list" where
  "hadd x xs = (if x \<in> set xs then xs else xs @ [x])"

definition hrem :: "'a \<Rightarrow> 'a list \<Rightarrow> 'a list" where
  "hrem x xs = filter (\<lambda>y. y \<noteq> x) xs"

lemma set_hadd [simp]: "set (hadd x xs) = insert x (set xs)"
  by (auto simp: hadd_def)

lemma set_hrem [simp]: "set (hrem x xs) = set xs - {x}"
  by (auto simp: hrem_def)

lemma distinct_hadd [simp]: "distinct xs \<Longrightarrow> distinct (hadd x xs)"
  by (simp add: hadd_def)

lemma distinct_hrem [simp]: "distinct xs \<Longrightarrow> distinct (hrem x xs)"
  by (simp add: hrem_def)

lemma length_hadd: "length (hadd x xs) = (if x \<in> set xs then length xs else Suc (length xs))"
  by (simp add: hadd_def)

lemma length_hrem_le [simp]: "length (hrem x xs) \<le> length xs"
  by (simp add: hrem_def)

section \<open>Text\<close>

text \<open>\<open>split_whitespace\<close>: the maximal runs of characters that are not white space.\<close>

function split_whitespace :: "ustr \<Rightarrow> ustr list" where
  "split_whitespace s =
    (let t = dropWhile is_whitespace s in
     if t = [] then []
     else takeWhile (\<lambda>c. \<not> is_whitespace c) t # split_whitespace (dropWhile (\<lambda>c. \<not> is_whitespace c) t))"
  by pat_completeness auto
termination
proof (relation "measure length")
  fix s :: ustr and t
  assume t: "t = dropWhile is_whitespace s" and ne: "t \<noteq> []"
  obtain c u where c: "t = c # u" using ne by (cases t) simp_all
  have "\<not> is_whitespace c" using t c by (metis dropWhile_eq_Cons_conv)
  then have "length (dropWhile (\<lambda>c. \<not> is_whitespace c) t) < length t"
    using c by (simp add: length_dropWhile_le less_Suc_eq_le)
  also have "\<dots> \<le> length s" using t by (simp add: length_dropWhile_le)
  finally show "(dropWhile (\<lambda>c. \<not> is_whitespace c) t, s) \<in> measure length" by simp
qed simp

declare split_whitespace.simps [simp del]

text \<open>\<open>join\<close> of a slice of strings.\<close>

fun str_join :: "ustr \<Rightarrow> ustr list \<Rightarrow> ustr" where
  "str_join sep [] = []"
| "str_join sep [x] = x"
| "str_join sep (x # y # ys) = x @ sep @ str_join sep (y # ys)"

definition str_trim_start :: "ustr \<Rightarrow> ustr" where
  "str_trim_start s = dropWhile is_whitespace s"

definition str_trim_end :: "ustr \<Rightarrow> ustr" where
  "str_trim_end s = rev (dropWhile is_whitespace (rev s))"

text \<open>The longest prefix of at most \<open>n\<close> bytes: the search for the last character boundary.\<close>

fun str_take_bytes :: "nat \<Rightarrow> ustr \<Rightarrow> ustr" where
  "str_take_bytes n [] = []"
| "str_take_bytes n (c # s) = (if utf8_width c \<le> n then c # str_take_bytes (n - utf8_width c) s else [])"

lemma str_take_bytes_len: "str_len (str_take_bytes n s) \<le> n"
  by (induction n s rule: str_take_bytes.induct) auto

end
