(* ===== verification/Hub_State.thy ===== *)
theory Hub_State
  imports Complex_Main Rrc Rs_Maps
begin

text \<open>
  The state of a channel hub (\<open>channel_hub.rs\<close>, \<open>HubCore\<close>): sessions, rooms, bans, the registry's
  pending work, counters, Activity intents and the owner's evidence, with the helpers every handler
  uses.  What other crates and the clocks supply is the record \<open>hub_env\<close>: CBOR lengths, HMAC and
  SHA-256, hexadecimal, Unicode lower-casing, UTF-8, the salt and the identifier drawn in the call and
  the two clocks.  Clock values and expiry times are natural numbers: the code compares and adds them.
  Room tokens and correlation ids are random labels of the Activity intents; an intent here names the
  room and the link itself.
\<close>

section \<open>Configuration and constants\<close>

record hub_config =
  cf_hub_name :: ustr
  cf_greeting :: "ustr option"
  cf_ping_interval_secs :: nat
  cf_ping_timeout_secs :: nat
  cf_max_nick_bytes :: nat
  cf_max_room_name_bytes :: nat
  cf_max_message_body_bytes :: nat
  cf_max_rooms_per_session :: nat
  cf_rate_messages_per_minute :: nat
  cf_include_member_list :: bool
  cf_resource_send_enabled :: bool
  cf_resource_accept_enabled :: bool
  cf_evidence_retention_secs :: nat
  cf_max_outbound_resource_bytes :: nat
  cf_max_resource_notice_bytes :: nat
  cf_max_resource_bytes :: nat
  cf_server_operators :: "bytes list"
  cf_banned_identities :: "bytes list"
  cf_invite_timeout_secs :: nat
  cf_rejoin_grace_secs :: nat
  cf_room_registry_prune_after_secs :: nat
  cf_room_registry_prune_interval_secs :: nat
  cf_max_registered_rooms :: nat

definition CBOR_TEXT_HEADER_SLACK :: nat where "CBOR_TEXT_HEADER_SLACK = 2"
definition MIN_NOTICE_BODY_BYTES :: nat where "MIN_NOTICE_BODY_BYTES = 32"
definition LIST_TOPIC_BYTES :: nat where "LIST_TOPIC_BYTES = 48"
definition SEEN_ID_LIMIT :: nat where "SEEN_ID_LIMIT = 512"
definition MIN_ROOM_KEY_BYTES :: nat where "MIN_ROOM_KEY_BYTES = 8"
definition MAX_ADMIN_ROOM_KEY_BYTES :: nat where "MAX_ADMIN_ROOM_KEY_BYTES = 128"
definition EVIDENCE_MAX_EVENTS :: nat where "EVIDENCE_MAX_EVENTS = 128"
definition EVIDENCE_MAX_BYTES :: nat where "EVIDENCE_MAX_BYTES = 64 * 1024"
definition EVIDENCE_EXCERPT_BYTES :: nat where "EVIDENCE_EXCERPT_BYTES = 256"
definition THROTTLE_REPORT_INTERVAL :: nat where "THROTTLE_REPORT_INTERVAL = 60 * 1000"
definition OUTBOUND_RESOURCE_TIMEOUT :: nat where "OUTBOUND_RESOURCE_TIMEOUT = 40 * 1000"
definition ROOM_KEY_TAG :: ustr where "ROOM_KEY_TAG = lit ''ratspeak-rrc-roomkey-v1''"

section \<open>What the hub sends\<close>

text \<open>An envelope the hub makes; the identifier and the time that \<open>Envelope::new\<close> draws are left out.\<close>

record hub_packet =
  hp_type :: message_type
  hp_source :: bytes
  hp_room :: "ustr option"
  hp_body :: "cbor_value option"
  hp_nickname :: "ustr option"

record room_key =
  rk_salt :: bytes
  rk_mac :: bytes
  rk_pepper_id :: bytes

record room_row =
  rr_name :: ustr
  rr_topic :: ustr
  rr_key_salt :: ustr
  rr_key_mac :: ustr
  rr_key_pepper_id :: ustr
  rr_moderated :: bool
  rr_invite_only :: bool
  rr_topic_ops_only :: bool
  rr_no_outside_msgs :: bool
  rr_private :: bool
  rr_last_used :: nat
  rr_grants :: "(ustr \<times> ustr \<times> nat) list"

datatype hub_room_op =
    Upsert room_row
  | Touched ustr nat
  | Removed ustr
  | ReplaceKlines "ustr list"
  | GcInvites nat

record hub_persist =
  ps_op :: hub_room_op
  ps_origin :: "bytes option"
  ps_room :: "ustr option"

datatype hub_send =
    Send_Packet bytes hub_packet
  | Send_Relay bytes envelope
  | Send_Resource bytes hub_packet bytes
  | Send_Close bytes
  | Send_Persist hub_persist

record hub_env =
  ev_now_unix :: nat
  ev_now_ms :: u64
  ev_instant :: nat
  ev_lower :: "ustr \<Rightarrow> ustr"
  ev_hex :: "bytes \<Rightarrow> ustr"
  ev_unhex :: "ustr \<Rightarrow> bytes option"
  ev_hmac :: "bytes \<Rightarrow> bytes \<Rightarrow> bytes"
  ev_hmac_verify :: "bytes \<Rightarrow> bytes \<Rightarrow> bytes \<Rightarrow> bool"
  ev_sha256 :: "bytes \<Rightarrow> bytes"
  ev_utf8 :: "ustr \<Rightarrow> bytes"
  ev_from_utf8 :: "bytes \<Rightarrow> ustr option"
  ev_salt :: bytes
  ev_id :: bytes
  ev_link_mdu :: nat
  ev_packet_len :: "hub_packet \<Rightarrow> nat option"
  ev_relay_len :: "envelope \<Rightarrow> nat option"

section \<open>Activity intents and evidence\<close>

datatype close_reason = Close_Remote | Close_PingTimeout | Close_HandshakeTimeout | Close_Kicked | Close_ServiceStopped

datatype moderation_action =
    Mod_Register | Mod_Unregister | Mod_Topic | Mod_Mode | Mod_Op | Mod_Deop | Mod_Voice | Mod_Devoice
  | Mod_Ban | Mod_Unban | Mod_Kick | Mod_Invite | Mod_Uninvite

datatype trust_change = Kline_Added | Kline_Removed

datatype service_degradation = Degraded_Announce | Degraded_Oversize | Degraded_Send

datatype envelope_kind = Kind_Message | Kind_Action | Kind_Notice

datatype hub_event =
    Ev_ServiceStarted
  | Ev_ServiceStopped
  | Ev_ServiceDegraded service_degradation nat
  | Ev_SessionOpened bytes bytes
  | Ev_SessionRejected bytes
  | Ev_SessionClosed bytes close_reason nat
  | Ev_RoomJoined bytes ustr nat
  | Ev_RoomParted bytes ustr nat
  | Ev_RoomModerated bytes ustr moderation_action
  | Ev_TrustChanged bytes trust_change
  | Ev_RelayForwarded ustr envelope_kind nat nat
  | Ev_RelayThrottled nat nat nat

datatype evidence_kind =
    Evd_Message | Evd_Action | Evd_Notice | Evd_Join | Evd_Part | Evd_Moderation | Evd_Trust | Evd_Service

datatype evidence_action = Act_Moderation moderation_action | Act_Trust trust_change | Act_Service service_degradation

record evidence_record =
  er_sequence :: nat
  er_observed_at_ms :: u64
  er_observed_at :: nat
  er_kind :: evidence_kind
  er_action :: "evidence_action option"
  er_count :: "nat option"
  er_room :: "ustr option"
  er_source :: "bytes option"
  er_nickname :: "ustr option"
  er_target :: "bytes option"
  er_excerpt :: "ustr option"
  er_bytes :: nat

section \<open>Sessions and rooms\<close>

record rate_bucket =
  rb_tokens :: rat
  rb_refilled_at :: nat

record outbound_resource =
  ob_hash :: "bytes option"
  ob_started_at :: nat

record hub_session =
  hs_identity :: "bytes option"
  hs_welcomed :: bool
  hs_nickname :: "ustr option"
  hs_capabilities :: "(u64 \<times> bool) list"
  hs_rooms :: "ustr list"
  hs_established_at :: nat
  hs_awaiting_pong :: "nat option"
  hs_rate :: rate_bucket
  hs_seen_ids :: "bytes list"
  hs_seen_set :: "bytes list"
  hs_outbound :: "outbound_resource option"

record hub_room =
  hr_topic :: "ustr option"
  hr_key :: "room_key option"
  hr_ops :: "bytes list"
  hr_voiced :: "bytes list"
  hr_bans :: "bytes list"
  hr_invited :: "(bytes, nat) hmap"
  hr_rejoin_until :: "(bytes, nat) hmap"
  hr_moderated :: bool
  hr_invite_only :: bool
  hr_topic_ops_only :: bool
  hr_no_outside_msgs :: bool
  hr_private :: bool
  hr_registered :: bool
  hr_last_used :: nat
  hr_last_used_dirty :: bool
  hr_persist_dirty :: bool
  hr_members :: "bytes list"

definition hub_room_default :: hub_room where
  "hub_room_default = \<lparr>hr_topic = None, hr_key = None, hr_ops = [], hr_voiced = [], hr_bans = [], hr_invited = [],
     hr_rejoin_until = [], hr_moderated = False, hr_invite_only = False, hr_topic_ops_only = False,
     hr_no_outside_msgs = False, hr_private = False, hr_registered = False, hr_last_used = 0,
     hr_last_used_dirty = False, hr_persist_dirty = False, hr_members = []\<rparr>"

record hub_stats =
  st_joins :: nat
  st_parts :: nat
  st_messages_forwarded :: nat
  st_notices_forwarded :: nat
  st_actions_forwarded :: nat
  st_direct_notices :: nat
  st_rate_limited :: nat
  st_bad_packets :: nat
  st_duplicates :: nat
  st_pings_out :: nat
  st_pongs_in :: nat
  st_resources_received :: nat
  st_resource_bytes_received :: nat
  st_oversize :: nat

text \<open>The gate for inbound resources, which the hub shares with the link manager.\<close>

record expectation =
  ex_id :: bytes
  ex_size :: nat
  ex_sha256 :: "bytes option"
  ex_encoding :: "ustr option"
  ex_room :: ustr
  ex_created_at :: nat

record admission =
  ad_enabled :: bool
  ad_max_bytes :: nat
  ad_expectations :: "(bytes, expectation list) hmap"
  ad_live :: "(bytes, (bytes, nat) hmap) hmap"
  ad_rejected :: nat

record hub_core =
  hc_config :: hub_config
  hc_hub_hash :: bytes
  hc_sessions :: "(bytes, hub_session) hmap"
  hc_rooms :: "(ustr, hub_room) hmap"
  hc_by_identity :: "(bytes, bytes) hmap"
  hc_server_ops :: "bytes list"
  hc_klines :: "bytes list"
  hc_admission :: admission
  hc_pepper :: bytes
  hc_pepper_id :: bytes
  hc_started_wall :: nat
  hc_started_at :: nat
  hc_klines_dirty :: bool
  hc_pending_removals :: "ustr list"
  hc_pepper_rotation_notice :: "ustr option"
  hc_stats :: hub_stats
  hc_events :: "hub_event list"
  hc_evidence :: "evidence_record list"
  hc_evidence_bytes :: nat
  hc_evidence_sequence :: nat
  hc_evidence_evicted :: nat
  hc_throttle_reported_at :: nat
  hc_throttle_baseline :: "nat \<times> nat"

abbreviation hub_session_of :: "hub_core \<Rightarrow> bytes \<Rightarrow> hub_session option" where
  "hub_session_of h l \<equiv> hget (hc_sessions h) l"

abbreviation hub_room_of :: "hub_core \<Rightarrow> ustr \<Rightarrow> hub_room option" where
  "hub_room_of h r \<equiv> hget (hc_rooms h) r"

definition upd_session :: "bytes \<Rightarrow> (hub_session \<Rightarrow> hub_session) \<Rightarrow> hub_core \<Rightarrow> hub_core" where
  "upd_session l f h = h\<lparr>hc_sessions := hmod l f (hc_sessions h)\<rparr>"

definition upd_room :: "ustr \<Rightarrow> (hub_room \<Rightarrow> hub_room) \<Rightarrow> hub_core \<Rightarrow> hub_core" where
  "upd_room r f h = h\<lparr>hc_rooms := hmod r f (hc_rooms h)\<rparr>"

definition upd_stats :: "(hub_stats \<Rightarrow> hub_stats) \<Rightarrow> hub_core \<Rightarrow> hub_core" where
  "upd_stats f h = h\<lparr>hc_stats := f (hc_stats h)\<rparr>"

definition push_event :: "hub_event \<Rightarrow> hub_core \<Rightarrow> hub_core" where
  "push_event e h = h\<lparr>hc_events := hc_events h @ [e]\<rparr>"

section \<open>Evidence\<close>

definition presentation_control :: "nat \<Rightarrow> bool" where
  "presentation_control c \<longleftrightarrow> c = 0x061c \<or> (0x200b \<le> c \<and> c \<le> 0x200f) \<or> (0x202a \<le> c \<and> c \<le> 0x202e) \<or>
     (0x2060 \<le> c \<and> c \<le> 0x206f) \<or> c = 0xfeff"

text \<open>The loop of \<open>bounded_evidence_text\<close>: what is kept so far and whether a space is due.\<close>

fun sanitize_evidence :: "ustr \<Rightarrow> bool \<Rightarrow> ustr \<Rightarrow> ustr" where
  "sanitize_evidence acc pending [] = acc"
| "sanitize_evidence acc pending (c # cs) =
    (if is_whitespace c then sanitize_evidence acc (acc \<noteq> []) cs
     else if is_control c \<or> presentation_control c then sanitize_evidence acc pending cs
     else sanitize_evidence ((if pending then acc @ [32] else acc) @ [c]) False cs)"

definition ELLIPSIS :: nat where "ELLIPSIS = 0x2026"

definition bounded_evidence_text :: "ustr \<Rightarrow> nat \<Rightarrow> ustr option" where
  "bounded_evidence_text val max_bytes =
    (if max_bytes = 0 then None
     else let sanitized = sanitize_evidence [] False val in
       if sanitized = [] then None
       else if str_len sanitized \<le> max_bytes then Some sanitized
       else let (budget, suffix) = (if utf8_width ELLIPSIS \<le> max_bytes
                                    then (max_bytes - utf8_width ELLIPSIS, [ELLIPSIS]) else (max_bytes, []));
                clipped = str_trim_end (str_take_bytes budget sanitized) @ suffix
            in if clipped = [] then None else Some clipped)"

definition evict_oldest_evidence :: "hub_core \<Rightarrow> hub_core" where
  "evict_oldest_evidence h =
    (case hc_evidence h of
       [] \<Rightarrow> h
     | e # es \<Rightarrow> h\<lparr>hc_evidence := es, hc_evidence_bytes := hc_evidence_bytes h - er_bytes e,
                    hc_evidence_evicted := sat_add U64_MAX (hc_evidence_evicted h) 1\<rparr>)"

text \<open>The three loops that evict while a condition on the ring holds.\<close>

function evict_while :: "(hub_core \<Rightarrow> bool) \<Rightarrow> hub_core \<Rightarrow> hub_core" where
  "evict_while P h = (if hc_evidence h \<noteq> [] \<and> P h then evict_while P (evict_oldest_evidence h) else h)"
  by pat_completeness auto
termination
  by (relation "measure (\<lambda>(P, h). length (hc_evidence h))")
    (auto simp: evict_oldest_evidence_def neq_Nil_conv)

declare evict_while.simps [simp del]

definition prune_evidence :: "nat \<Rightarrow> hub_core \<Rightarrow> hub_core" where
  "prune_evidence now h =
    (if cf_evidence_retention_secs (hc_config h) = 0 then evict_while (\<lambda>_. True) h
     else let retention = cf_evidence_retention_secs (hc_config h) * 1000
          in evict_while (\<lambda>h. retention \<le> now - er_observed_at (hd (hc_evidence h))) h)"

definition opt_len :: "ustr option \<Rightarrow> nat" where
  "opt_len s = (case s of None \<Rightarrow> 0 | Some t \<Rightarrow> str_len t)"

definition over_evidence :: "hub_core \<Rightarrow> bool" where
  "over_evidence h \<longleftrightarrow> EVIDENCE_MAX_EVENTS < length (hc_evidence h) \<or> EVIDENCE_MAX_BYTES < hc_evidence_bytes h"

definition push_evidence :: "hub_env \<Rightarrow> evidence_kind \<Rightarrow> evidence_action option \<Rightarrow> nat option \<Rightarrow> ustr option \<Rightarrow> bytes option \<Rightarrow>
    ustr option \<Rightarrow> bytes option \<Rightarrow> ustr option \<Rightarrow> hub_core \<Rightarrow> hub_core" where
  "push_evidence ev kind action count room source nickname target excerpt h =
    (if cf_evidence_retention_secs (hc_config h) = 0 then h
     else let h1 = prune_evidence (ev_instant ev) h;
              h2 = (if hc_evidence_sequence h1 = U64_MAX
                    then (evict_while (\<lambda>_. True) h1)\<lparr>hc_evidence_sequence := 0\<rparr> else h1);
              h3 = h2\<lparr>hc_evidence_sequence := hc_evidence_sequence h2 + 1\<rparr>;
              nick = Option.bind nickname (\<lambda>n. bounded_evidence_text n (cf_max_nick_bytes (hc_config h)));
              ex = Option.bind excerpt (\<lambda>t. bounded_evidence_text t EVIDENCE_EXCERPT_BYTES);
              bytes = 128 + opt_len room + opt_len nick + opt_len ex
          in if EVIDENCE_MAX_BYTES < bytes
             then h3\<lparr>hc_evidence_evicted := sat_add U64_MAX (hc_evidence_evicted h3) 1\<rparr>
             else evict_while over_evidence
               (h3\<lparr>hc_evidence := hc_evidence h3 @
                    [\<lparr>er_sequence = hc_evidence_sequence h3, er_observed_at_ms = ev_now_ms ev,
                      er_observed_at = ev_instant ev, er_kind = kind, er_action = action, er_count = count, er_room = room,
                      er_source = source, er_nickname = nick, er_target = target, er_excerpt = ex, er_bytes = bytes\<rparr>],
                  hc_evidence_bytes := hc_evidence_bytes h3 + bytes\<rparr>))"

fun evidence_kind_of :: "envelope_kind \<Rightarrow> evidence_kind" where
  "evidence_kind_of Kind_Message = Evd_Message"
| "evidence_kind_of Kind_Action = Evd_Action"
| "evidence_kind_of Kind_Notice = Evd_Notice"

definition note_content_evidence :: "hub_env \<Rightarrow> bytes \<Rightarrow> ustr option \<Rightarrow> ustr \<Rightarrow> envelope_kind \<Rightarrow> ustr \<Rightarrow> hub_core \<Rightarrow> hub_core" where
  "note_content_evidence ev source nickname room kind t h =
    push_evidence ev (evidence_kind_of kind) None None (Some room) (Some source) nickname None (Some t) h"

definition note_room_evidence :: "hub_env \<Rightarrow> evidence_kind \<Rightarrow> bytes \<Rightarrow> ustr option \<Rightarrow> ustr \<Rightarrow> hub_core \<Rightarrow> hub_core" where
  "note_room_evidence ev kind identity nickname room h =
    push_evidence ev kind None None (Some room) (Some identity) nickname None None h"

definition session_identity :: "bytes \<Rightarrow> hub_core \<Rightarrow> bytes option" where
  "session_identity l h = Option.bind (hub_session_of h l) hs_identity"

definition session_nickname :: "bytes \<Rightarrow> hub_core \<Rightarrow> ustr option" where
  "session_nickname l h = Option.bind (hub_session_of h l) hs_nickname"

definition note_moderated :: "hub_env \<Rightarrow> bytes \<Rightarrow> ustr \<Rightarrow> moderation_action \<Rightarrow> bytes option \<Rightarrow> hub_core \<Rightarrow> hub_core" where
  "note_moderated ev l room action target h =
    push_evidence ev Evd_Moderation (Some (Act_Moderation action)) None (Some room) (session_identity l h)
      (session_nickname l h) target None (push_event (Ev_RoomModerated l room action) h)"

definition note_trust_changed :: "hub_env \<Rightarrow> bytes \<Rightarrow> trust_change \<Rightarrow> bytes \<Rightarrow> hub_core \<Rightarrow> hub_core" where
  "note_trust_changed ev l change target h =
    push_evidence ev Evd_Trust (Some (Act_Trust change)) None None (session_identity l h)
      (session_nickname l h) (Some target) None (push_event (Ev_TrustChanged l change) h)"

definition note_relayed :: "ustr \<Rightarrow> envelope_kind \<Rightarrow> nat \<Rightarrow> nat \<Rightarrow> hub_core \<Rightarrow> hub_core" where
  "note_relayed room kind bytes recipients h = push_event (Ev_RelayForwarded room kind bytes recipients) h"

definition note_admin_moderated :: "hub_env \<Rightarrow> bytes \<Rightarrow> ustr \<Rightarrow> moderation_action \<Rightarrow> bytes option \<Rightarrow> hub_core \<Rightarrow> hub_core" where
  "note_admin_moderated ev actor room action target h =
    push_evidence ev Evd_Moderation (Some (Act_Moderation action)) None (Some room) (Some actor) None target None h"

definition note_admin_trust_changed :: "hub_env \<Rightarrow> bytes \<Rightarrow> trust_change \<Rightarrow> bytes \<Rightarrow> hub_core \<Rightarrow> hub_core" where
  "note_admin_trust_changed ev actor change target h =
    push_evidence ev Evd_Trust (Some (Act_Trust change)) None None (Some actor) None (Some target) None h"

section \<open>Notes of the service\<close>

definition drain_events :: "hub_core \<Rightarrow> hub_event list \<times> hub_core" where
  "drain_events h = (hc_events h, h\<lparr>hc_events := []\<rparr>)"

definition note_service_started :: "hub_core \<Rightarrow> hub_core" where
  "note_service_started h = push_event Ev_ServiceStarted h"

definition note_service_stopped :: "nat \<Rightarrow> hub_core \<Rightarrow> hub_core" where
  "note_service_stopped now h =
    push_event Ev_ServiceStopped
      (fold (\<lambda>(l, s). push_event (Ev_SessionClosed l Close_ServiceStopped (now - hs_established_at s))) (hc_sessions h) h)"

definition note_service_degraded :: "hub_env \<Rightarrow> service_degradation \<Rightarrow> nat \<Rightarrow> hub_core \<Rightarrow> hub_core" where
  "note_service_degraded ev reason count h =
    (if count = 0 then h
     else push_evidence ev Evd_Service (Some (Act_Service reason)) (Some count) None None None None None
            (push_event (Ev_ServiceDegraded reason count) h))"

definition note_rate_limited :: "hub_core \<Rightarrow> hub_core" where
  "note_rate_limited h = upd_stats (\<lambda>st. st\<lparr>st_rate_limited := st_rate_limited st + 1\<rparr>) h"

definition note_bad_packet :: "hub_core \<Rightarrow> hub_core" where
  "note_bad_packet h = upd_stats (\<lambda>st. st\<lparr>st_bad_packets := st_bad_packets st + 1\<rparr>) h"

definition note_oversize :: "hub_env \<Rightarrow> nat \<Rightarrow> hub_core \<Rightarrow> hub_core" where
  "note_oversize ev count h =
    note_service_degraded ev Degraded_Oversize count (upd_stats (\<lambda>st. st\<lparr>st_oversize := st_oversize st + count\<rparr>) h)"

definition note_send_failed :: "hub_env \<Rightarrow> nat \<Rightarrow> hub_core \<Rightarrow> hub_core" where
  "note_send_failed ev count h = note_service_degraded ev Degraded_Send count h"

end
