(* ===== verification/Hub_Output.thy ===== *)
theory Hub_Output
  imports Hub_State
begin

text \<open>
  What the hub says (\<open>channel_hub.rs\<close>): notices and errors, notices split over several packets, rosters,
  the mode string and the status line of a room, and the durable row of a room.  None of it changes the
  state.  A command may hand several sends over; they are listed in the order of the code's pushes.
\<close>

section \<open>Packets\<close>

definition made :: "hub_core \<Rightarrow> message_type \<Rightarrow> hub_packet" where
  "made h t = \<lparr>hp_type = t, hp_source = hc_hub_hash h, hp_room = None, hp_body = None, hp_nickname = None\<rparr>"

definition hub_notice :: "hub_core \<Rightarrow> bytes \<Rightarrow> ustr \<Rightarrow> ustr option \<Rightarrow> hub_send" where
  "hub_notice h l t room = Send_Packet l ((made h Notice)\<lparr>hp_room := room, hp_body := Some (CText t)\<rparr>)"

definition hub_error :: "hub_core \<Rightarrow> bytes \<Rightarrow> ustr \<Rightarrow> ustr option \<Rightarrow> hub_send" where
  "hub_error h l t room = Send_Packet l ((made h ErrorMessage)\<lparr>hp_room := room, hp_body := Some (CText t)\<rparr>)"

definition packet_fits :: "hub_env \<Rightarrow> hub_packet \<Rightarrow> bool" where
  "packet_fits ev p \<longleftrightarrow> (case ev_packet_len ev p of None \<Rightarrow> False | Some n \<Rightarrow> n \<le> ev_link_mdu ev)"

definition hub_error_echo :: "hub_env \<Rightarrow> hub_core \<Rightarrow> bytes \<Rightarrow> ustr \<Rightarrow> ustr option \<Rightarrow> hub_send" where
  "hub_error_echo ev h l t room =
    (case hub_error h l t room of
       Send_Packet k p \<Rightarrow> if packet_fits ev p then Send_Packet k p else hub_error h l t None
     | s \<Rightarrow> hub_error h l t None)"

definition envelope_overhead :: "hub_env \<Rightarrow> hub_core \<Rightarrow> message_type \<Rightarrow> ustr option \<Rightarrow> nat" where
  "envelope_overhead ev h t room =
    (case ev_packet_len ev ((made h t)\<lparr>hp_room := room, hp_body := Some (CText [])\<rparr>) of None \<Rightarrow> 0 | Some n \<Rightarrow> n)"

definition text_body_budget :: "hub_env \<Rightarrow> hub_core \<Rightarrow> message_type \<Rightarrow> ustr option \<Rightarrow> nat" where
  "text_body_budget ev h t room = ev_link_mdu ev - envelope_overhead ev h t room - CBOR_TEXT_HEADER_SLACK"

section \<open>Long notices\<close>

fun chunk_loop :: "nat \<Rightarrow> ustr \<Rightarrow> ustr \<Rightarrow> ustr list" where
  "chunk_loop max_bytes current [] = (if current = [] then [] else [current])"
| "chunk_loop max_bytes current (c # cs) =
    (if max_bytes < str_len current + utf8_width c \<and> current \<noteq> []
     then current # chunk_loop max_bytes [c] cs
     else chunk_loop max_bytes (current @ [c]) cs)"

definition chunk_text :: "ustr \<Rightarrow> nat \<Rightarrow> ustr list" where
  "chunk_text t max_bytes = chunk_loop max_bytes [] t"

datatype notice_header = Header_None | Header_First ustr | Header_Every ustr

fun header_lead :: "notice_header \<Rightarrow> ustr" where
  "header_lead Header_None = []"
| "header_lead (Header_First t) = t"
| "header_lead (Header_Every t) = t"

fun header_repeats :: "notice_header \<Rightarrow> bool" where
  "header_repeats (Header_Every t) = True"
| "header_repeats _ = False"

text \<open>The loop over the entries gives the texts of the notices: \<open>cur\<close> is the text in the making and
  \<open>has\<close> tells whether it holds an entry.\<close>

definition flush_text :: "ustr \<Rightarrow> bool \<Rightarrow> ustr list" where
  "flush_text cur has = (if has then [cur] else [])"

fun piece_texts :: "ustr \<Rightarrow> ustr \<Rightarrow> ustr list \<Rightarrow> ustr list" where
  "piece_texts cur again [] = []"
| "piece_texts cur again (p # ps) = (cur @ p) # piece_texts again again ps"

fun notice_texts :: "nat \<Rightarrow> ustr \<Rightarrow> ustr \<Rightarrow> ustr \<Rightarrow> bool \<Rightarrow> ustr list \<Rightarrow> ustr list" where
  "notice_texts budget again sep cur has [] = flush_text cur has"
| "notice_texts budget again sep cur has (e # es) =
    (let addition = (if has then sep @ e else e) in
     if str_len cur + str_len addition \<le> budget
     then notice_texts budget again sep (cur @ addition) True es
     else flush_text cur has @
       (if str_len again + str_len e \<le> budget
        then notice_texts budget again sep (again @ e) True es
        else piece_texts again again (chunk_text e (max 1 (budget - str_len again))) @
          notice_texts budget again sep again False es))"

definition notice_budget :: "hub_env \<Rightarrow> hub_core \<Rightarrow> ustr option \<Rightarrow> nat" where
  "notice_budget ev h room = max MIN_NOTICE_BODY_BYTES (text_body_budget ev h Notice room)"

definition push_notice_entries :: "hub_env \<Rightarrow> hub_core \<Rightarrow> bytes \<Rightarrow> notice_header \<Rightarrow> ustr list \<Rightarrow> ustr \<Rightarrow> ustr option \<Rightarrow> hub_send list" where
  "push_notice_entries ev h l header entries sep room =
    (let lead = header_lead header;
         budget = notice_budget ev h room;
         whole = lead @ str_join sep entries
     in if str_len whole \<le> budget then [hub_notice h l whole room]
        else List.map (\<lambda>t. hub_notice h l t room)
          (notice_texts budget (if header_repeats header then lead else []) sep lead False entries))"

text \<open>\<open>clip_topic\<close> of the one-packet list reply.\<close>

definition clip_topic :: "ustr \<Rightarrow> ustr" where
  "clip_topic topic =
    (if str_len topic \<le> LIST_TOPIC_BYTES then topic else str_take_bytes LIST_TOPIC_BYTES topic @ [ELLIPSIS])"

section \<open>Rooms\<close>

definition mode_string :: "hub_room \<Rightarrow> ustr" where
  "mode_string room =
    (let flags = (if hr_invite_only room then lit ''i'' else []) @ (if hr_key room \<noteq> None then lit ''k'' else []) @
        (if hr_moderated room then lit ''m'' else []) @ (if hr_no_outside_msgs room then lit ''n'' else []) @
        (if hr_private room then lit ''p'' else []) @ (if hr_registered room then lit ''r'' else []) @
        (if hr_topic_ops_only room then lit ''t'' else [])
     in if flags = [] then lit ''(none)'' else lit ''+'' @ flags)"

definition broadcast :: "hub_core \<Rightarrow> hub_room \<Rightarrow> ustr \<Rightarrow> ustr \<Rightarrow> hub_send list" where
  "broadcast h room r t = List.map (\<lambda>m. hub_notice h m t (Some r)) (hr_members room)"

definition broadcast_mode :: "hub_core \<Rightarrow> ustr \<Rightarrow> hub_send list" where
  "broadcast_mode h r =
    (case hub_room_of h r of None \<Rightarrow> []
     | Some room \<Rightarrow> broadcast h room r (lit ''mode for '' @ r @ lit '' is now: '' @ mode_string room))"

definition broadcast_admin_topic :: "hub_core \<Rightarrow> ustr \<Rightarrow> hub_send list" where
  "broadcast_admin_topic h r =
    (case hub_room_of h r of None \<Rightarrow> []
     | Some room \<Rightarrow> broadcast h room r (lit ''topic for '' @ r @ lit '' is now: '' @
         (case hr_topic room of None \<Rightarrow> lit ''(cleared)'' | Some t \<Rightarrow> t)))"

definition room_status_notice :: "hub_core \<Rightarrow> bytes \<Rightarrow> ustr \<Rightarrow> hub_send" where
  "room_status_notice h l r =
    (let room = hub_room_of h r;
         registered = (case room of None \<Rightarrow> False | Some rm \<Rightarrow> hr_registered rm);
         mode = (case room of None \<Rightarrow> lit ''(none)'' | Some rm \<Rightarrow> mode_string rm);
         topic = (case Option.bind room hr_topic of None \<Rightarrow> lit ''(none)'' | Some t \<Rightarrow> t)
     in hub_notice h l (lit ''room '' @ r @ lit '': '' @
          (if registered then lit ''registered'' else lit ''unregistered'') @ lit ''; mode='' @ mode @
          lit ''; topic='' @ topic) (Some r))"

definition roster_chunk_len :: "hub_env \<Rightarrow> hub_core \<Rightarrow> ustr \<Rightarrow> nat" where
  "roster_chunk_len ev h r = max 1 ((ev_link_mdu ev - envelope_overhead ev h Joined (Some r) - 1) div 17)"

text \<open>\<open>slice::chunks\<close>.\<close>

function chunks_of :: "nat \<Rightarrow> 'a list \<Rightarrow> 'a list list" where
  "chunks_of n xs = (if xs = [] \<or> n = 0 then [] else take n xs # chunks_of n (drop n xs))"
  by pat_completeness auto
termination by (relation "measure (\<lambda>(n, xs). length xs)") auto

declare chunks_of.simps [simp del]

text \<open>A lone member at the end borrows the last one of the chunk before it.\<close>

definition rebalance :: "'a list list \<Rightarrow> 'a list list" where
  "rebalance chunks =
    (if 1 < length chunks \<and> length (last chunks) = 1
     then (let previous = last (butlast chunks)
           in if previous = [] then chunks
              else butlast (butlast chunks) @ [butlast previous, last previous # last chunks])
     else chunks)"

definition push_roster_joined :: "hub_env \<Rightarrow> hub_core \<Rightarrow> bytes \<Rightarrow> ustr \<Rightarrow> bytes \<Rightarrow> bytes list \<Rightarrow> hub_send list" where
  "push_roster_joined ev h l r joiner roster =
    List.map (\<lambda>chunk. Send_Packet l ((made h Joined)\<lparr>hp_room := Some r, hp_body := Some (member_list chunk)\<rparr>))
      (rebalance (chunks_of (roster_chunk_len ev h r) (joiner # filter (\<lambda>m. m \<noteq> joiner) roster)))"

text \<open>The first occurrences of the identities of the members, in the order of the iteration.\<close>

fun first_seen :: "'a list \<Rightarrow> 'a list \<Rightarrow> 'a list" where
  "first_seen seen [] = []"
| "first_seen seen (x # xs) = (if x \<in> set seen then first_seen seen xs else x # first_seen (x # seen) xs)"

definition roster_identities :: "hub_core \<Rightarrow> hub_room \<Rightarrow> bytes list" where
  "roster_identities h room =
    first_seen [] (List.map_filter (\<lambda>m. session_identity m h) (hr_members room))"

section \<open>The durable row of a room\<close>

definition be32_bytes :: "nat \<Rightarrow> bytes" where
  "be32_bytes n = rev (le_of_nat 4 n)"

definition room_key_preimage :: "hub_env \<Rightarrow> bytes \<Rightarrow> ustr \<Rightarrow> ustr \<Rightarrow> bytes \<Rightarrow> bytes" where
  "room_key_preimage ev pepper_id r key salt =
    ev_utf8 ev ROOM_KEY_TAG @ salt @ pepper_id @ be32_bytes (str_len r) @ ev_utf8 ev r @ ev_utf8 ev key"

definition room_key_digest :: "hub_env \<Rightarrow> bytes \<Rightarrow> bytes \<Rightarrow> ustr \<Rightarrow> ustr \<Rightarrow> bytes \<Rightarrow> room_key" where
  "room_key_digest ev pepper pepper_id r key salt =
    \<lparr>rk_salt = salt, rk_mac = ev_hmac ev pepper (room_key_preimage ev pepper_id r key salt), rk_pepper_id = pepper_id\<rparr>"

definition room_key_matches :: "hub_env \<Rightarrow> bytes \<Rightarrow> ustr \<Rightarrow> ustr \<Rightarrow> room_key \<Rightarrow> bool" where
  "room_key_matches ev pepper r provided digest =
    ev_hmac_verify ev pepper (room_key_preimage ev (rk_pepper_id digest) r provided (rk_salt digest)) (rk_mac digest)"

definition exact_bytes :: "nat \<Rightarrow> bytes option \<Rightarrow> bytes option" where
  "exact_bytes n b = (case b of None \<Rightarrow> None | Some bs \<Rightarrow> if length bs = n then Some bs else None)"

definition decode_room_key :: "hub_env \<Rightarrow> room_row \<Rightarrow> room_key option" where
  "decode_room_key ev row =
    (if rr_key_mac row = [] then None
     else case exact_bytes 16 (ev_unhex ev (rr_key_salt row)) of
            None \<Rightarrow> None
          | Some salt \<Rightarrow>
              (case exact_bytes 32 (ev_unhex ev (rr_key_mac row)) of
                 None \<Rightarrow> None
               | Some mac \<Rightarrow>
                   (case exact_bytes 8 (ev_unhex ev (rr_key_pepper_id row)) of
                      None \<Rightarrow> None
                    | Some pid \<Rightarrow> Some \<lparr>rk_salt = salt, rk_mac = mac, rk_pepper_id = pid\<rparr>)))"

definition opt_text :: "ustr option \<Rightarrow> ustr" where
  "opt_text t = (case t of None \<Rightarrow> [] | Some s \<Rightarrow> s)"

definition room_row_of :: "hub_env \<Rightarrow> ustr \<Rightarrow> hub_room \<Rightarrow> room_row" where
  "room_row_of ev r room =
    \<lparr>rr_name = r, rr_topic = opt_text (hr_topic room),
     rr_key_salt = (case hr_key room of None \<Rightarrow> [] | Some k \<Rightarrow> ev_hex ev (rk_salt k)),
     rr_key_mac = (case hr_key room of None \<Rightarrow> [] | Some k \<Rightarrow> ev_hex ev (rk_mac k)),
     rr_key_pepper_id = (case hr_key room of None \<Rightarrow> [] | Some k \<Rightarrow> ev_hex ev (rk_pepper_id k)),
     rr_moderated = hr_moderated room, rr_invite_only = hr_invite_only room,
     rr_topic_ops_only = hr_topic_ops_only room, rr_no_outside_msgs = hr_no_outside_msgs room,
     rr_private = hr_private room, rr_last_used = hr_last_used room,
     rr_grants = List.map (\<lambda>s. (lit ''op'', ev_hex ev s, 0)) (hr_ops room) @
       List.map (\<lambda>s. (lit ''voice'', ev_hex ev s, 0)) (hr_voiced room) @
       List.map (\<lambda>s. (lit ''ban'', ev_hex ev s, 0)) (hr_bans room) @
       List.map (\<lambda>(s, expires). (lit ''invite'', ev_hex ev s, expires)) (hr_invited room)\<rparr>"

text \<open>\<open>persist_room\<close>: a registered room is projected to its row, expired invites are forgotten.\<close>

definition settle_room :: "hub_env \<Rightarrow> hub_room \<Rightarrow> hub_room" where
  "settle_room ev room =
    room\<lparr>hr_invited := hretain (\<lambda>expires. ev_now_unix ev < expires) (hr_invited room),
         hr_last_used_dirty := False, hr_persist_dirty := False\<rparr>"

definition persist_room :: "hub_env \<Rightarrow> ustr \<Rightarrow> bytes option \<Rightarrow> hub_core \<Rightarrow> hub_core \<times> hub_send list" where
  "persist_room ev r origin h =
    (case hub_room_of h r of
       None \<Rightarrow> (h, [])
     | Some room \<Rightarrow>
         if \<not> hr_registered room then (h, [])
         else (upd_room r (settle_room ev) h,
           [Send_Persist \<lparr>ps_op = Upsert (room_row_of ev r (settle_room ev room)), ps_origin = origin, ps_room = Some r\<rparr>]))"

definition persist_klines :: "hub_env \<Rightarrow> bytes option \<Rightarrow> hub_core \<Rightarrow> hub_core \<times> hub_send list" where
  "persist_klines ev origin h =
    (h\<lparr>hc_klines_dirty := False\<rparr>,
     [Send_Persist \<lparr>ps_op = ReplaceKlines (List.map (ev_hex ev) (hc_klines h)), ps_origin = origin, ps_room = None\<rparr>])"

section \<open>Who may see and do what\<close>

text \<open>The reason of a refused name is the text of the reply.\<close>

definition norm_room :: "hub_env \<Rightarrow> hub_core \<Rightarrow> ustr \<Rightarrow> ustr + ustr" where
  "norm_room ev h room =
    (let normalized = ev_lower ev (str_trim room) in
     if normalized = [] then Inl (lit ''room name must not be empty'')
     else if cf_max_room_name_bytes (hc_config h) < str_len normalized
       then Inl (lit ''room name too long: '' @ dec_string (str_len normalized) @ lit '' bytes > '' @
         dec_string (cf_max_room_name_bytes (hc_config h)) @ lit '' bytes'')
     else Inr normalized)"

definition is_room_op :: "hub_core \<Rightarrow> hub_room \<Rightarrow> bytes \<Rightarrow> bool" where
  "is_room_op h room identity \<longleftrightarrow> identity \<in> set (hc_server_ops h) \<or> identity \<in> set (hr_ops room)"

definition is_voiced :: "hub_core \<Rightarrow> hub_room \<Rightarrow> bytes \<Rightarrow> bool" where
  "is_voiced h room identity \<longleftrightarrow> is_room_op h room identity \<or> identity \<in> set (hr_voiced room)"

definition live_grant :: "hub_env \<Rightarrow> (bytes, nat) hmap \<Rightarrow> bytes \<Rightarrow> bool" where
  "live_grant ev grants identity \<longleftrightarrow>
    (case hget grants identity of None \<Rightarrow> False | Some expires \<Rightarrow> ev_now_unix ev < expires)"

definition is_invited :: "hub_env \<Rightarrow> hub_room \<Rightarrow> bytes \<Rightarrow> bool" where
  "is_invited ev room identity = live_grant ev (hr_invited room) identity"

definition can_rejoin :: "hub_env \<Rightarrow> hub_room \<Rightarrow> bytes \<Rightarrow> bool" where
  "can_rejoin ev room identity = live_grant ev (hr_rejoin_until room) identity"

definition identity_in_room :: "hub_core \<Rightarrow> hub_room \<Rightarrow> bytes \<Rightarrow> bool" where
  "identity_in_room h room identity \<longleftrightarrow> list_ex (\<lambda>m. session_identity m h = Some identity) (hr_members room)"

definition can_view_room :: "hub_core \<Rightarrow> hub_room \<Rightarrow> bytes \<Rightarrow> bool" where
  "can_view_room h room identity \<longleftrightarrow>
    \<not> hr_private room \<or> is_room_op h room identity \<or> identity_in_room h room identity"

definition identity_still_in_room :: "hub_core \<Rightarrow> hub_room \<Rightarrow> bytes \<Rightarrow> bytes \<Rightarrow> bool" where
  "identity_still_in_room h room identity excluding \<longleftrightarrow>
    list_ex (\<lambda>m. m \<noteq> excluding \<and> session_identity m h = Some identity) (hr_members room)"

definition registered_room_count :: "hub_core \<Rightarrow> nat" where
  "registered_room_count h = length (filter (\<lambda>(r, room). hr_registered room) (hc_rooms h))"

definition touch_room :: "hub_env \<Rightarrow> ustr \<Rightarrow> hub_core \<Rightarrow> hub_core" where
  "touch_room ev r h =
    upd_room r (\<lambda>room. if hr_registered room
      then room\<lparr>hr_last_used := ev_now_unix ev, hr_last_used_dirty := True\<rparr> else room) h"

end
