(* ===== verification/Hub_Room.thy ===== *)
theory Hub_Room
  imports Hub_Output
begin

text \<open>
  Links and rooms of the hub (\<open>channel_hub.rs\<close>): a link is established, identified, welcomed, joins and
  leaves rooms, relays into them and is closed.  A handler takes the state to the new state and the
  sends it queued; \<open>then_do\<close> runs one after the other.
\<close>

type_synonym hub_step = "hub_core \<Rightarrow> hub_core \<times> hub_send list"

definition then_do :: "hub_step \<Rightarrow> hub_step \<Rightarrow> hub_step" where
  "then_do f g h = (let (h1, s1) = f h; (h2, s2) = g h1 in (h2, s1 @ s2))"

definition quietly :: "(hub_core \<Rightarrow> hub_core) \<Rightarrow> hub_step" where
  "quietly f h = (f h, [])"

definition saying :: "(hub_core \<Rightarrow> hub_send list) \<Rightarrow> hub_step" where
  "saying f h = (h, f h)"

fun for_each :: "('a \<Rightarrow> hub_step) \<Rightarrow> 'a list \<Rightarrow> hub_step" where
  "for_each f [] h = (h, [])"
| "for_each f (x # xs) h = then_do (f x) (for_each f xs) h"

section \<open>Links\<close>

definition rate_bucket_new :: "nat \<Rightarrow> nat \<Rightarrow> rate_bucket" where
  "rate_bucket_new now per_minute = \<lparr>rb_tokens = of_nat per_minute, rb_refilled_at = now\<rparr>"

text \<open>\<open>f64\<close> tokens as rational numbers: no rounding.\<close>

definition rate_allow :: "nat \<Rightarrow> nat \<Rightarrow> rate_bucket \<Rightarrow> bool \<times> rate_bucket" where
  "rate_allow now per_minute b =
    (if per_minute = 0 then (True, b)
     else let capacity = of_nat per_minute;
              elapsed = of_nat (now - rb_refilled_at b) / 1000;
              tokens = min (rb_tokens b + elapsed * capacity / 60) capacity
          in if 1 \<le> tokens then (True, \<lparr>rb_tokens = tokens - 1, rb_refilled_at = now\<rparr>)
             else (False, \<lparr>rb_tokens = tokens, rb_refilled_at = now\<rparr>))"

definition hub_session_new :: "nat \<Rightarrow> nat \<Rightarrow> hub_session" where
  "hub_session_new now per_minute = \<lparr>hs_identity = None, hs_welcomed = False, hs_nickname = None, hs_capabilities = [],
     hs_rooms = [], hs_established_at = now, hs_awaiting_pong = None, hs_rate = rate_bucket_new now per_minute,
     hs_seen_ids = [], hs_seen_set = [], hs_outbound = None\<rparr>"

definition supports_resources :: "hub_session \<Rightarrow> bool" where
  "supports_resources s \<longleftrightarrow> hget (hs_capabilities s) CAP_RESOURCE_ENVELOPE = Some True"

definition note_seen :: "bytes \<Rightarrow> hub_session \<Rightarrow> bool \<times> hub_session" where
  "note_seen i s =
    (if i \<in> set (hs_seen_set s) then (False, s)
     else let ids = hs_seen_ids s @ [i]; seen = hadd i (hs_seen_set s)
          in if SEEN_ID_LIMIT < length ids
             then (True, s\<lparr>hs_seen_ids := tl ids, hs_seen_set := hrem (hd ids) seen\<rparr>)
             else (True, s\<lparr>hs_seen_ids := ids, hs_seen_set := seen\<rparr>))"

definition forget_link :: "bytes \<Rightarrow> admission \<Rightarrow> admission" where
  "forget_link l a = a\<lparr>ad_expectations := hdel l (ad_expectations a), ad_live := hdel l (ad_live a)\<rparr>"

definition on_link_established :: "hub_env \<Rightarrow> bytes \<Rightarrow> hub_core \<Rightarrow> hub_core" where
  "on_link_established ev l h =
    h\<lparr>hc_sessions := hentry l (hub_session_new (ev_instant ev) (cf_rate_messages_per_minute (hc_config h))) (hc_sessions h)\<rparr>"

definition on_link_identified :: "hub_env \<Rightarrow> bytes \<Rightarrow> bytes \<Rightarrow> hub_step" where
  "on_link_identified ev l identity h =
    (if identity \<in> set (hc_klines h)
     then (h\<lparr>hc_sessions := hdel l (hc_sessions h), hc_admission := forget_link l (hc_admission h)\<rparr>,
           [hub_error h l (lit ''banned'') None, Send_Close l])
     else let h1 = on_link_established ev l h;
              first = (session_identity l h1 = None);
              h2 = upd_session l (\<lambda>s. s\<lparr>hs_identity := Some identity\<rparr>) h1;
              h3 = h2\<lparr>hc_by_identity := hput identity l (hc_by_identity h2)\<rparr>
          in (if first then push_event (Ev_SessionOpened l identity) h3 else h3, []))"

definition note_packet :: "hub_env \<Rightarrow> bytes \<Rightarrow> hub_core \<Rightarrow> bool \<times> hub_core" where
  "note_packet ev l h =
    (case hub_session_of h l of
       None \<Rightarrow> (True, h)
     | Some s \<Rightarrow>
         if hs_identity s = None then (True, h)
         else let (ok, b) = rate_allow (ev_instant ev) (cf_rate_messages_per_minute (hc_config h)) (hs_rate s)
              in (ok, upd_session l (\<lambda>s. s\<lparr>hs_rate := b\<rparr>) h))"

section \<open>Leaving\<close>

definition parted_packet :: "hub_core \<Rightarrow> ustr \<Rightarrow> bytes \<Rightarrow> ustr option \<Rightarrow> hub_packet" where
  "parted_packet h r identity nickname =
    (made h Parted)\<lparr>hp_room := Some r,
       hp_body := (if cf_include_member_list (hc_config h) then Some (member_list [identity]) else None),
       hp_nickname := nickname\<rparr>"

definition remove_member_with_parted :: "hub_env \<Rightarrow> ustr \<Rightarrow> bytes \<Rightarrow> bytes \<Rightarrow> ustr option \<Rightarrow> hub_step" where
  "remove_member_with_parted ev r l identity nickname h =
    (case hub_room_of h r of
       None \<Rightarrow> (h, [])
     | Some room \<Rightarrow>
         (let was_member = (l \<in> set (hr_members room));
              remaining = hrem l (hr_members room);
              h1 = upd_room r (\<lambda>rm. rm\<lparr>hr_members := remaining\<rparr>) h;
              h2 = (if remaining = [] \<and> \<not> hr_registered room then h1\<lparr>hc_rooms := hdel r (hc_rooms h1)\<rparr> else h1);
              h3 = (if was_member then push_event (Ev_RoomParted l r (length remaining)) h2 else h2);
              still = (case hub_room_of h3 r of None \<Rightarrow> False | Some rm \<Rightarrow> identity_still_in_room h3 rm identity l)
          in if still then (h3, [])
             else let h4 = (if was_member then note_room_evidence ev Evd_Part identity nickname r h3 else h3)
                  in (h4, List.map (\<lambda>m. Send_Packet m (parted_packet h4 r identity nickname)) remaining)))"

definition leases_rejoin :: "close_reason \<Rightarrow> bool" where
  "leases_rejoin reason \<longleftrightarrow> reason = Close_Remote \<or> reason = Close_PingTimeout"

definition rejoin_eligible :: "hub_core \<Rightarrow> ustr \<Rightarrow> bytes \<Rightarrow> bytes \<Rightarrow> bool" where
  "rejoin_eligible h r identity l =
    (case hub_room_of h r of None \<Rightarrow> False
     | Some room \<Rightarrow> hr_registered room \<and> hr_invite_only room \<and> identity \<notin> set (hr_bans room) \<and>
         \<not> identity_still_in_room h room identity l)"

definition leave_room_on_close :: "hub_env \<Rightarrow> nat option \<Rightarrow> bytes \<Rightarrow> bytes \<Rightarrow> ustr option \<Rightarrow> ustr \<Rightarrow> hub_step" where
  "leave_room_on_close ev rejoin_expires l identity nickname r h =
    (let h1 = (case rejoin_expires of None \<Rightarrow> h
               | Some expires \<Rightarrow>
                   if rejoin_eligible h r identity l
                   then upd_room r (\<lambda>rm. rm\<lparr>hr_rejoin_until := hput identity expires (hr_rejoin_until rm)\<rparr>) h else h)
     in remove_member_with_parted ev r l identity nickname h1)"

definition close_session :: "hub_env \<Rightarrow> bytes \<Rightarrow> close_reason \<Rightarrow> hub_step" where
  "close_session ev l reason h0 =
    (let h = h0\<lparr>hc_admission := forget_link l (hc_admission h0)\<rparr> in
     case hub_session_of h l of
       None \<Rightarrow> (h, [])
     | Some s \<Rightarrow>
         (let grace = cf_rejoin_grace_secs (hc_config h);
              rejoin_expires = (if leases_rejoin reason \<and> 0 < grace then Some (ev_now_unix ev + grace) else None);
              h1 = push_event (Ev_SessionClosed l reason (ev_instant ev - hs_established_at s)) h;
              (h2, sends) =
                (case hs_identity s of
                   None \<Rightarrow> (h1, [])
                 | Some identity \<Rightarrow>
                     (let h1' = (if hget (hc_by_identity h1) identity = Some l
                                 then h1\<lparr>hc_by_identity := hdel identity (hc_by_identity h1)\<rparr> else h1)
                      in for_each (leave_room_on_close ev rejoin_expires l identity (hs_nickname s)) (hs_rooms s) h1'))
          in (h2\<lparr>hc_sessions := hdel l (hc_sessions h2)\<rparr>, sends)))"

definition on_link_closed :: "hub_env \<Rightarrow> bytes \<Rightarrow> hub_step" where
  "on_link_closed ev l = close_session ev l Close_Remote"

section \<open>Joining\<close>

definition present_room :: "envelope \<Rightarrow> ustr option" where
  "present_room en = (case en_room en of None \<Rightarrow> None | Some r \<Rightarrow> if r = [] then None else Some r)"

text \<open>The gates of a join, in the code's order; the room exists.\<close>

definition join_refusal :: "hub_env \<Rightarrow> hub_core \<Rightarrow> hub_room \<Rightarrow> ustr \<Rightarrow> bytes \<Rightarrow> envelope \<Rightarrow> ustr option" where
  "join_refusal ev h room r identity en =
    (let op = (identity \<in> set (hc_server_ops h) \<or> identity \<in> set (hr_ops room));
         invited = is_invited ev room identity;
         matches = (case (hr_key room, text_body en) of
                      (Some digest, Some provided) \<Rightarrow> room_key_matches ev (hc_pepper h) r provided digest
                    | _ \<Rightarrow> False)
     in if hr_invite_only room \<and> \<not> (op \<or> invited \<or> can_rejoin ev room identity) then Some (lit ''invite-only (+i)'')
        else if hr_key room \<noteq> None \<and> \<not> (op \<or> invited) \<and> \<not> matches then Some (lit ''bad key (+k)'')
        else if identity \<in> set (hr_bans room) then Some (lit ''banned from room'')
        else None)"

definition joined_packet :: "hub_core \<Rightarrow> ustr \<Rightarrow> cbor_value option \<Rightarrow> ustr option \<Rightarrow> hub_packet" where
  "joined_packet h r body nickname = (made h Joined)\<lparr>hp_room := Some r, hp_body := body, hp_nickname := nickname\<rparr>"

definition admit_member :: "hub_env \<Rightarrow> bytes \<Rightarrow> bytes \<Rightarrow> ustr \<Rightarrow> hub_room \<Rightarrow> hub_step" where
  "admit_member ev l identity r room h =
    (let present = identity_in_room h room identity;
         existing = filter (\<lambda>m. m \<noteq> l) (hr_members room);
         consumed = (hget (hr_invited room) identity \<noteq> None);
         h1 = upd_room r (\<lambda>rm. rm\<lparr>hr_members := hadd l (hr_members rm), hr_invited := hdel identity (hr_invited rm),
                hr_rejoin_until := hdel identity (hr_rejoin_until rm)\<rparr>) h;
         h2 = touch_room ev r h1;
         (h3, saved) = (if consumed then persist_room ev r (Some l) h2 else (h2, []));
         h4 = upd_session l (\<lambda>s. s\<lparr>hs_rooms := hadd r (hs_rooms s)\<rparr>) h3;
         nick = session_nickname l h4;
         body = (if cf_include_member_list (hc_config h4) then Some (member_list [identity]) else None);
         fanout = (if present then []
                   else List.map (\<lambda>m. Send_Packet m (joined_packet h4 r body nick)) existing);
         confirm = (if cf_include_member_list (hc_config h4)
                    then (case hub_room_of h4 r of None \<Rightarrow> []
                          | Some rm \<Rightarrow> push_roster_joined ev h4 l r identity (roster_identities h4 rm))
                    else [Send_Packet l (joined_packet h4 r None None)]);
         status = [room_status_notice h4 l r];
         members = (case hub_room_of h4 r of None \<Rightarrow> 0 | Some rm \<Rightarrow> length (hr_members rm));
         h5 = push_event (Ev_RoomJoined l r members) h4;
         h6 = (if present then h5 else note_room_evidence ev Evd_Join identity nick r h5)
     in (h6, saved @ fanout @ confirm @ status))"

definition on_join :: "hub_env \<Rightarrow> bytes \<Rightarrow> envelope \<Rightarrow> hub_step" where
  "on_join ev l en h =
    (case session_identity l h of
       None \<Rightarrow> (h, [])
     | Some identity \<Rightarrow>
     (case present_room en of
        None \<Rightarrow> (h, [hub_error h l (lit ''JOIN requires room name'') None])
      | Some raw \<Rightarrow>
      (case norm_room ev h raw of
         Inl reason \<Rightarrow> (h, [hub_error h l reason None])
       | Inr r \<Rightarrow>
         (let rooms = (case hub_session_of h l of None \<Rightarrow> [] | Some s \<Rightarrow> hs_rooms s) in
          if r \<notin> set rooms \<and> cf_max_rooms_per_session (hc_config h) \<le> length rooms
          then (h, [hub_error h l (lit ''too many rooms'') None])
          else if hub_room_of h r = None \<and> identity \<notin> set (hc_server_ops h)
          then (h, [hub_error h l (lit ''no such room'') (Some r)])
          else let h1 = (if hub_room_of h r = None
                 then h\<lparr>hc_rooms := hput r (hub_room_default\<lparr>hr_ops := [identity]\<rparr>) (hc_rooms h)\<rparr> else h)
               in (case hub_room_of h1 r of
                     None \<Rightarrow> (h1, [])
                   | Some room \<Rightarrow>
                       (case join_refusal ev h1 room r identity en of
                          Some reason \<Rightarrow> (h1, [hub_error h1 l reason (Some r)])
                        | None \<Rightarrow> admit_member ev l identity r room h1))))))"

definition on_part :: "hub_env \<Rightarrow> bytes \<Rightarrow> envelope \<Rightarrow> hub_step" where
  "on_part ev l en h =
    (case session_identity l h of
       None \<Rightarrow> (h, [])
     | Some identity \<Rightarrow>
     (case present_room en of
        None \<Rightarrow> (h, [hub_error h l (lit ''PART requires room name'') None])
      | Some raw \<Rightarrow>
      (case norm_room ev h raw of
         Inl reason \<Rightarrow> (h, [hub_error h l reason None])
       | Inr r \<Rightarrow>
         then_do (\<lambda>h. remove_member_with_parted ev r l identity (session_nickname l h)
                    (upd_session l (\<lambda>s. s\<lparr>hs_rooms := hrem r (hs_rooms s)\<rparr>) h))
           (saying (\<lambda>h. [Send_Packet l (parted_packet h r identity None)])) h)))"

section \<open>Relaying\<close>

text \<open>The text of the refusal, and whether the room is named in it.\<close>

definition relay_refusal :: "hub_core \<Rightarrow> bytes \<Rightarrow> bytes \<Rightarrow> ustr \<Rightarrow> ustr option" where
  "relay_refusal h l identity r =
    (let is_member = (case hub_session_of h l of None \<Rightarrow> False | Some s \<Rightarrow> r \<in> set (hs_rooms s));
         outside = (if is_member then None
           else (case hub_room_of h r of
                   None \<Rightarrow> Some (lit ''no such room'')
                 | Some room \<Rightarrow>
                     if \<not> can_view_room h room identity then Some (lit ''no such room'')
                     else if hr_no_outside_msgs room then Some (lit ''no outside messages (+n)'') else None))
     in case outside of
          Some reason \<Rightarrow> Some reason
        | None \<Rightarrow>
            (case hub_room_of h r of
               None \<Rightarrow> None
             | Some room \<Rightarrow>
                 if identity \<in> set (hr_bans room) then Some (lit ''banned from room'')
                 else if hr_moderated room \<and> \<not> is_voiced h room identity then Some (lit ''room is moderated (+m)'')
                 else None))"

definition rewrite_relay_nickname :: "bytes \<Rightarrow> envelope \<Rightarrow> hub_core \<Rightarrow> envelope \<times> hub_core" where
  "rewrite_relay_nickname l en h =
    (let max_bytes = cf_max_nick_bytes (hc_config h) in
     case hub_session_of h l of
       None \<Rightarrow> (en, h)
     | Some s \<Rightarrow>
         (case en_nickname en of
            Some nickname \<Rightarrow>
              (case normalize_nickname nickname max_bytes of
                 Inr normalized \<Rightarrow> (en\<lparr>en_nickname := Some normalized\<rparr>,
                   upd_session l (\<lambda>s. s\<lparr>hs_nickname := Some normalized\<rparr>) h)
               | Inl _ \<Rightarrow> (en\<lparr>en_nickname := None\<rparr>, h))
          | None \<Rightarrow>
              (en\<lparr>en_nickname := (case hs_nickname s of None \<Rightarrow> None
                  | Some n \<Rightarrow> (case normalize_nickname n max_bytes of Inr m \<Rightarrow> Some m | Inl _ \<Rightarrow> None))\<rparr>, h)))"

definition relay_len :: "hub_env \<Rightarrow> envelope \<Rightarrow> nat" where
  "relay_len ev en = (case ev_relay_len ev en of None \<Rightarrow> 0 | Some n \<Rightarrow> n)"

text \<open>Drop the nickname when the envelope does not fit with it.\<close>

definition fit_relay :: "hub_env \<Rightarrow> envelope \<Rightarrow> envelope" where
  "fit_relay ev en =
    (if ev_link_mdu ev < relay_len ev en \<and> en_nickname en \<noteq> None then en\<lparr>en_nickname := None\<rparr> else en)"

definition on_direct_notice :: "hub_env \<Rightarrow> bytes \<Rightarrow> bytes \<Rightarrow> envelope \<Rightarrow> hub_step" where
  "on_direct_notice ev l identity en h =
    (if en_room en \<noteq> None then (h, [hub_error h l (lit ''direct notice must not include room'') None])
     else case en_destination en of
       None \<Rightarrow> (h, [hub_error h l (lit ''direct notice requires destination identity'') None])
     | Some destination \<Rightarrow>
     (case hget (hc_by_identity h) destination of
        None \<Rightarrow> (h, [hub_error h l (lit ''destination not connected'') None])
      | Some target \<Rightarrow>
          (let (en1, h1) = rewrite_relay_nickname l (en\<lparr>en_source := identity\<rparr>) h;
               en2 = fit_relay ev en1
           in if ev_link_mdu ev < relay_len ev en2
              then (h1, [hub_error h1 l (lit ''message too large: '' @ dec_string (relay_len ev en2) @ lit '' bytes > '' @
                      dec_string (ev_link_mdu ev) @ lit '' bytes'') None])
              else (upd_stats (\<lambda>st. st\<lparr>st_direct_notices := st_direct_notices st + 1\<rparr>) h1, [Send_Relay target en2]))))"

definition relay_kind :: "envelope \<Rightarrow> envelope_kind" where
  "relay_kind en = (if en_type en = Message then Kind_Message else if en_type en = Action then Kind_Action else Kind_Notice)"

definition count_relayed :: "envelope_kind \<Rightarrow> hub_stats \<Rightarrow> hub_stats" where
  "count_relayed kind st =
    (case kind of
       Kind_Message \<Rightarrow> st\<lparr>st_messages_forwarded := st_messages_forwarded st + 1\<rparr>
     | Kind_Action \<Rightarrow> st\<lparr>st_actions_forwarded := st_actions_forwarded st + 1\<rparr>
     | Kind_Notice \<Rightarrow> st\<lparr>st_notices_forwarded := st_notices_forwarded st + 1\<rparr>)"

text \<open>The part of \<open>on_relay\<close> after the gate.\<close>

definition relay_into :: "hub_env \<Rightarrow> bytes \<Rightarrow> bytes \<Rightarrow> ustr \<Rightarrow> envelope \<Rightarrow> hub_step" where
  "relay_into ev l identity r en h =
    (let (en1, h1) = rewrite_relay_nickname l (en\<lparr>en_source := identity, en_room := Some r\<rparr>) h;
         en2 = fit_relay ev en1
     in if ev_link_mdu ev < relay_len ev en2
        then (h1, [hub_error h1 l (lit ''message too large for '' @ r @ lit '': '' @ dec_string (relay_len ev en2) @
                lit '' bytes > '' @ dec_string (ev_link_mdu ev) @ lit '' bytes'') (Some r)])
        else let kind = relay_kind en2; h2 = upd_stats (count_relayed kind) h1
             in (case hub_room_of h2 r of
                   None \<Rightarrow> (h2, [])
                 | Some room \<Rightarrow>
                     (let h3 = (case text_body en2 of None \<Rightarrow> h2
                                | Some t \<Rightarrow> note_content_evidence ev identity (en_nickname en2) r kind t h2)
                      in (note_relayed r kind (relay_len ev en2) (length (hr_members room)) h3,
                          List.map (\<lambda>m. Send_Relay m en2) (hr_members room)))))"

definition is_command :: "envelope \<Rightarrow> bool" where
  "is_command en \<longleftrightarrow>
    en_type en \<noteq> Action \<and>
    (case text_body en of None \<Rightarrow> False | Some t \<Rightarrow> (case str_trim_start t of [] \<Rightarrow> False | c # _ \<Rightarrow> c = 47))"

definition relay_message :: "hub_env \<Rightarrow> bytes \<Rightarrow> bytes \<Rightarrow> envelope \<Rightarrow> hub_step" where
  "relay_message ev l identity en h =
    (let roomless = (present_room en = None);
         big = (case text_body en of None \<Rightarrow> None
                | Some t \<Rightarrow> if cf_max_message_body_bytes (hc_config h) < str_len t then Some (str_len t) else None);
         go = (case norm_room ev h (opt_text (en_room en)) of
                 Inl reason \<Rightarrow> (h, [hub_error h l reason None])
               | Inr r \<Rightarrow>
                   (case relay_refusal h l identity r of
                      Some reason \<Rightarrow> (h, [hub_error h l reason (Some r)])
                    | None \<Rightarrow> relay_into ev l identity r en h))
     in if en_type en = Message \<or> en_type en = Action
        then (if roomless then (h, [hub_error h l (lit ''message requires room name'') None])
              else case big of
                Some n \<Rightarrow> (h, [hub_error h l (lit ''message too large: '' @ dec_string n @ lit '' bytes > '' @
                    dec_string (cf_max_message_body_bytes (hc_config h)) @ lit '' bytes'') None])
              | None \<Rightarrow> go)
        else if en_destination en \<noteq> None then on_direct_notice ev l identity en h
        else if roomless then (h, [])
        else go)"

section \<open>Greeting and keepalive\<close>

definition push_greeting_resource :: "hub_env \<Rightarrow> bytes \<Rightarrow> ustr \<Rightarrow> hub_core \<Rightarrow> (hub_core \<times> hub_send list) option" where
  "push_greeting_resource ev l greeting h =
    (let payload = ev_utf8 ev greeting in
     if \<not> cf_resource_send_enabled (hc_config h) then None
     else if cf_max_outbound_resource_bytes (hc_config h) < length payload \<or>
             cf_max_resource_bytes (hc_config h) < length payload then None
     else case hub_session_of h l of
       None \<Rightarrow> None
     | Some s \<Rightarrow>
         if \<not> supports_resources s \<or> hs_outbound s \<noteq> None then None
         else Some (upd_session l (\<lambda>s. s\<lparr>hs_outbound := Some \<lparr>ob_hash = None, ob_started_at = ev_instant ev\<rparr>\<rparr>) h,
           [Send_Resource l ((made h ResourceEnvelope)\<lparr>hp_body := Some (resource_envelope_body
               \<lparr>re_id = ev_id ev, re_kind = lit ''motd'', re_size = word_of_nat (length payload),
                re_sha256 = Some (ev_sha256 ev payload), re_encoding = Some (lit ''utf-8'')\<rparr>)\<rparr>) payload]))"

definition push_greeting :: "hub_env \<Rightarrow> bytes \<Rightarrow> ustr \<Rightarrow> hub_step" where
  "push_greeting ev l greeting h =
    (case (if notice_budget ev h None < str_len greeting then push_greeting_resource ev l greeting h else None) of
       Some r \<Rightarrow> r
     | None \<Rightarrow> (h, push_notice_entries ev h l Header_None [greeting] [] None))"

definition hub_welcome_info :: "ustr \<Rightarrow> hub_core \<Rightarrow> welcome_info" where
  "hub_welcome_info version h =
    (let c = hc_config h in
     \<lparr>hub_name = Some (cf_hub_name c), hub_version = Some version,
      capabilities = (if cf_resource_send_enabled c then [(CAP_RESOURCE_ENVELOPE, True)] else []) @
        [(CAP_ACTION, True), (CAP_DIRECT_NOTICE, True)] @
        (if 0 < cf_rejoin_grace_secs c then [(CAP_REJOIN_GRACE, True)] else []),
      limits = \<lparr>max_nick_bytes = Some (cf_max_nick_bytes c), max_room_name_bytes = Some (cf_max_room_name_bytes c),
        max_message_body_bytes = Some (cf_max_message_body_bytes c),
        max_rooms_per_session = Some (cf_max_rooms_per_session c),
        rate_messages_per_minute = Some (cf_rate_messages_per_minute c)\<rparr>\<rparr>)"

definition on_hello :: "hub_env \<Rightarrow> ustr \<Rightarrow> bytes \<Rightarrow> envelope \<Rightarrow> hub_step" where
  "on_hello ev version l en h =
    (let caps = hello_capabilities en;
         nickname = (case en_nickname en of None \<Rightarrow> None
           | Some n \<Rightarrow> (case normalize_nickname n (cf_max_nick_bytes (hc_config h)) of Inr m \<Rightarrow> Some m | Inl _ \<Rightarrow> None));
         welcome = (made h Welcome)\<lparr>hp_body := Some (welcome_body (hub_welcome_info version h))\<rparr>
     in case hub_session_of h l of
          None \<Rightarrow> (h, [])
        | Some s \<Rightarrow>
            (let h1 = upd_session l (\<lambda>s. (s\<lparr>hs_capabilities := caps\<rparr>)\<lparr>hs_nickname :=
                   (if nickname \<noteq> None then nickname else hs_nickname s)\<rparr>) h
             in if \<not> packet_fits ev welcome
                then (push_event (Ev_SessionRejected l) h1, [hub_error h1 l (lit ''hub configuration error'') None])
                else let h2 = upd_session l (\<lambda>s. s\<lparr>hs_welcomed := True\<rparr>) h1
                     in (case (hs_welcomed s, cf_greeting (hc_config h2)) of
                           (False, Some greeting) \<Rightarrow>
                             (let (h3, sends) = push_greeting ev l greeting h2 in (h3, Send_Packet l welcome # sends))
                         | _ \<Rightarrow> (h2, [Send_Packet l welcome]))))"

definition report_throttle :: "hub_env \<Rightarrow> hub_core \<Rightarrow> hub_core" where
  "report_throttle ev h =
    (let now = ev_instant ev; span = now - hc_throttle_reported_at h; st = hc_stats h in
     if span < THROTTLE_REPORT_INTERVAL then h
     else let rejected = st_rate_limited st - fst (hc_throttle_baseline h);
              dropped = sat_add U64_MAX (st_bad_packets st) (st_duplicates st) - snd (hc_throttle_baseline h);
              h1 = h\<lparr>hc_throttle_reported_at := now,
                     hc_throttle_baseline := (st_rate_limited st, st_bad_packets st + st_duplicates st)\<rparr>
          in if rejected = 0 \<and> dropped = 0 then h1 else push_event (Ev_RelayThrottled rejected dropped span) h1)"

text \<open>What the keepalive does with one session: leave it, ping it, or find it dead.\<close>

datatype ping_verdict = Ping_Leave | Ping_Send | Ping_Dead close_reason

definition ping_verdict_of :: "hub_env \<Rightarrow> hub_config \<Rightarrow> hub_session \<Rightarrow> ping_verdict" where
  "ping_verdict_of ev c s =
    (let timeout = max 1 (cf_ping_timeout_secs c) * 1000; now = ev_instant ev in
     if \<not> hs_welcomed s
     then (if timeout < now - hs_established_at s then Ping_Dead Close_HandshakeTimeout else Ping_Leave)
     else if cf_ping_interval_secs c = 0 then Ping_Leave
     else case hs_awaiting_pong s of
            None \<Rightarrow> Ping_Send
          | Some since \<Rightarrow> if timeout < now - since then Ping_Dead Close_PingTimeout else Ping_Leave)"

definition ping_session :: "hub_env \<Rightarrow> hub_config \<Rightarrow> hub_session \<Rightarrow> hub_session" where
  "ping_session ev c s = (if ping_verdict_of ev c s = Ping_Send then s\<lparr>hs_awaiting_pong := Some (ev_instant ev)\<rparr> else s)"

definition ping_cycle :: "hub_env \<Rightarrow> hub_step" where
  "ping_cycle ev h =
    (let h1 = report_throttle ev h;
         h2 = h1\<lparr>hc_rooms := hvals (\<lambda>rm. rm\<lparr>hr_rejoin_until :=
                hretain (\<lambda>expires. ev_now_unix ev < expires) (hr_rejoin_until rm)\<rparr>) (hc_rooms h1)\<rparr>;
         c = hc_config h2; sessions = hc_sessions h2;
         pinged = filter (\<lambda>(l, s). ping_verdict_of ev c s = Ping_Send) sessions;
         dead = List.map_filter (\<lambda>(l, s). case ping_verdict_of ev c s of Ping_Dead reason \<Rightarrow> Some (l, reason) | _ \<Rightarrow> None) sessions;
         h3 = upd_stats (\<lambda>st. st\<lparr>st_pings_out := st_pings_out st + length pinged\<rparr>)
                (h2\<lparr>hc_sessions := hvals (ping_session ev c) sessions\<rparr>);
         pings = List.map (\<lambda>(l, s). Send_Packet l ((made h3 Ping)\<lparr>hp_body :=
                   Some (CBytes (rev (le_of_nat 8 (unat (ev_now_ms ev)))))\<rparr>)) pinged;
         (h4, sends) = for_each (\<lambda>(l, reason). then_do (close_session ev l reason) (saying (\<lambda>h. [Send_Close l]))) dead h3
     in (h4, pings @ sends))"

end
