(* ===== verification/Hub_Resource.thy ===== *)
theory Hub_Resource
  imports Hub_Room
begin

text \<open>
  Payloads that travel as resources (\<open>channel_hub.rs\<close>).  The gate \<open>ResourceAdmission\<close> is shared with the
  link manager, which asks it about every advertisement: a transfer is admitted only after its size was
  announced in an envelope.  The delivered bytes are matched against the announcement and, when they are
  a notice, sent on in packets.  The lock of the gate is held for one operation at a time; a poisoned
  lock is left out.
\<close>

definition RESOURCE_EXPECTATION_TTL :: nat where "RESOURCE_EXPECTATION_TTL = 30 * 1000"
definition INBOUND_RESOURCE_TIMEOUT :: nat where "INBOUND_RESOURCE_TIMEOUT = 300 * 1000"
definition MAX_PENDING_EXPECTATIONS :: nat where "MAX_PENDING_EXPECTATIONS = 8"
definition MAX_INBOUND_RESOURCES_PER_LINK :: nat where "MAX_INBOUND_RESOURCES_PER_LINK = 4"
definition RES_KIND_NOTICE :: ustr where "RES_KIND_NOTICE = lit ''notice''"

section \<open>The gate\<close>

definition admission_new :: "bool \<Rightarrow> nat \<Rightarrow> admission" where
  "admission_new enabled max_bytes = \<lparr>ad_enabled = enabled, ad_max_bytes = max_bytes, ad_expectations = [], ad_live = [], ad_rejected = 0\<rparr>"

definition fresh_expectations :: "nat \<Rightarrow> expectation list \<Rightarrow> expectation list" where
  "fresh_expectations now pending = filter (\<lambda>x. now - ex_created_at x \<le> RESOURCE_EXPECTATION_TTL) pending"

definition fresh_live :: "nat \<Rightarrow> (bytes, nat) hmap \<Rightarrow> (bytes, nat) hmap" where
  "fresh_live now live = hretain (\<lambda>started. now - started \<le> INBOUND_RESOURCE_TIMEOUT) live"

definition admission_prune :: "nat \<Rightarrow> admission \<Rightarrow> admission" where
  "admission_prune now a =
    a\<lparr>ad_expectations := hretain (\<lambda>p. p \<noteq> []) (hvals (fresh_expectations now) (ad_expectations a)),
      ad_live := hretain (\<lambda>m. m \<noteq> []) (hvals (fresh_live now) (ad_live a))\<rparr>"

definition note_rejected :: "admission \<Rightarrow> admission" where
  "note_rejected a = a\<lparr>ad_rejected := ad_rejected a + 1\<rparr>"

text \<open>The first expectation with the identifier is replaced.\<close>

fun replace_expectation :: "expectation \<Rightarrow> expectation list \<Rightarrow> expectation list option" where
  "replace_expectation x [] = None"
| "replace_expectation x (y # ys) =
    (if ex_id y = ex_id x then Some (x # ys) else map_option (Cons y) (replace_expectation x ys))"

definition expect :: "bytes \<Rightarrow> expectation \<Rightarrow> admission \<Rightarrow> bool \<times> admission" where
  "expect l x a0 =
    (let a = admission_prune (ex_created_at x) a0;
         pending = (case hget (ad_expectations a) l of None \<Rightarrow> [] | Some p \<Rightarrow> p);
         store = (\<lambda>p. a\<lparr>ad_expectations := hput l p (ad_expectations a)\<rparr>)
     in case replace_expectation x pending of
          Some p \<Rightarrow> (True, store p)
        | None \<Rightarrow>
            if MAX_PENDING_EXPECTATIONS \<le> length pending then (False, store pending)
            else (True, store (pending @ [x])))"

text \<open>What the gate reads of an advertisement.\<close>

record resource_advertisement =
  rv_hash :: bytes
  rv_data_size :: nat
  rv_total_segments :: nat
  rv_split :: bool
  rv_has_metadata :: bool
  rv_metadata_size :: nat

definition live_of :: "bytes \<Rightarrow> admission \<Rightarrow> (bytes, nat) hmap" where
  "live_of l a = (case hget (ad_live a) l of None \<Rightarrow> [] | Some m \<Rightarrow> m)"

definition announced_size :: "bytes \<Rightarrow> nat \<Rightarrow> admission \<Rightarrow> bool" where
  "announced_size l n a =
    (case hget (ad_expectations a) l of None \<Rightarrow> False | Some p \<Rightarrow> list_ex (\<lambda>x. ex_size x = n) p)"

definition admit_inner :: "nat \<Rightarrow> bytes \<Rightarrow> resource_advertisement \<Rightarrow> admission \<Rightarrow> bool \<times> admission" where
  "admit_inner now l adv a =
    (if \<not> ad_enabled a then (False, a)
     else if 1 < rv_total_segments adv \<or> rv_split adv then (False, a)
     else if rv_has_metadata adv \<or> 0 < rv_metadata_size adv then (False, a)
     else if rv_data_size adv = 0 \<or> ad_max_bytes a < rv_data_size adv then (False, a)
     else if hget (live_of l a) (rv_hash adv) \<noteq> None then (True, a)
     else let b = admission_prune now a in
       if \<not> announced_size l (rv_data_size adv) b then (False, b)
       else let live = live_of l b in
         if MAX_INBOUND_RESOURCES_PER_LINK \<le> length live then (False, b\<lparr>ad_live := hput l live (ad_live b)\<rparr>)
         else (True, b\<lparr>ad_live := hput l (hput (rv_hash adv) now live) (ad_live b)\<rparr>))"

definition admit :: "nat \<Rightarrow> bytes \<Rightarrow> resource_advertisement \<Rightarrow> admission \<Rightarrow> bool \<times> admission" where
  "admit now l adv a =
    (case admit_inner now l adv a of (ok, b) \<Rightarrow> (ok, if ok then b else note_rejected b))"

text \<open>\<open>position\<close> and \<open>remove\<close> of the first expectation that the delivered bytes satisfy.\<close>

definition satisfied_by :: "nat \<Rightarrow> bytes \<Rightarrow> expectation \<Rightarrow> bool" where
  "satisfied_by n digest x \<longleftrightarrow> ex_size x = n \<and> (case ex_sha256 x of None \<Rightarrow> True | Some want \<Rightarrow> want = digest)"

fun take_first :: "('a \<Rightarrow> bool) \<Rightarrow> 'a list \<Rightarrow> ('a \<times> 'a list) option" where
  "take_first P [] = None"
| "take_first P (x # xs) = (if P x then Some (x, xs) else map_option (\<lambda>(y, ys). (y, x # ys)) (take_first P xs))"

definition take_matching :: "nat \<Rightarrow> bytes \<Rightarrow> nat \<Rightarrow> bytes \<Rightarrow> admission \<Rightarrow> expectation option \<times> admission" where
  "take_matching now l n digest a0 =
    (let a = admission_prune now a0 in
     case Option.bind (hget (ad_expectations a) l) (take_first (satisfied_by n digest)) of
       None \<Rightarrow> (None, a)
     | Some (x, rest) \<Rightarrow> (Some x, a\<lparr>ad_expectations := hput l rest (ad_expectations a)\<rparr>))"

definition retire :: "bytes \<Rightarrow> bytes \<Rightarrow> admission \<Rightarrow> admission" where
  "retire l hash a =
    (case hget (ad_live a) l of
       None \<Rightarrow> a
     | Some live \<Rightarrow>
         let left = hdel hash live
         in a\<lparr>ad_live := (if left = [] then hdel l (ad_live a) else hput l left (ad_live a))\<rparr>)"

definition upd_admission :: "(admission \<Rightarrow> admission) \<Rightarrow> hub_core \<Rightarrow> hub_core" where
  "upd_admission f h = h\<lparr>hc_admission := f (hc_admission h)\<rparr>"

section \<open>Outbound\<close>

definition on_resource_started :: "bytes \<Rightarrow> bytes option \<Rightarrow> hub_core \<Rightarrow> hub_core" where
  "on_resource_started l hash h =
    upd_session l (\<lambda>s. s\<lparr>hs_outbound :=
      (case hash of None \<Rightarrow> None | Some x \<Rightarrow> map_option (\<lambda>ob. ob\<lparr>ob_hash := Some x\<rparr>) (hs_outbound s))\<rparr>) h"

definition on_outbound_resource_concluded :: "bytes \<Rightarrow> bytes \<Rightarrow> hub_core \<Rightarrow> hub_core" where
  "on_outbound_resource_concluded l hash h =
    upd_session l (\<lambda>s. case hs_outbound s of
       None \<Rightarrow> s
     | Some ob \<Rightarrow> if ob_hash ob = None \<or> ob_hash ob = Some hash then s\<lparr>hs_outbound := None\<rparr> else s) h"

definition expire_outbound :: "nat \<Rightarrow> hub_session \<Rightarrow> hub_session" where
  "expire_outbound now s =
    (case hs_outbound s of
       None \<Rightarrow> s
     | Some ob \<Rightarrow> if OUTBOUND_RESOURCE_TIMEOUT < now - ob_started_at ob then s\<lparr>hs_outbound := None\<rparr> else s)"

definition resource_cycle :: "nat \<Rightarrow> hub_core \<Rightarrow> hub_core" where
  "resource_cycle now h =
    upd_admission (admission_prune now) (h\<lparr>hc_sessions := hvals (expire_outbound now) (hc_sessions h)\<rparr>)"

section \<open>Inbound\<close>

definition inbound_resource_cap :: "hub_config \<Rightarrow> nat" where
  "inbound_resource_cap c = min (cf_max_resource_notice_bytes c) (cf_max_resource_bytes c)"

definition resource_envelope_error :: "protocol_error \<Rightarrow> ustr" where
  "resource_envelope_error e =
    (if e = MissingField RESOURCE_ID \<or> e = InvalidField RESOURCE_ID then lit ''resource envelope missing id''
     else if e = MissingField RESOURCE_KIND \<or> e = InvalidField RESOURCE_KIND then lit ''resource envelope missing kind''
     else if e = MissingField RESOURCE_SIZE \<or> e = InvalidField RESOURCE_SIZE then lit ''resource envelope invalid size''
     else if e = MissingField RESOURCE_SHA256 \<or> e = InvalidField RESOURCE_SHA256 then lit ''resource envelope invalid sha256''
     else lit ''invalid resource envelope body'')"

definition reject_resource :: "hub_send list \<Rightarrow> hub_step" where
  "reject_resource sends h = (upd_admission note_rejected h, sends)"

definition on_resource_envelope :: "hub_env \<Rightarrow> bytes \<Rightarrow> envelope \<Rightarrow> hub_step" where
  "on_resource_envelope ev l en h =
    (let raw = en_room en; cap = inbound_resource_cap (hc_config h);
         reject = (\<lambda>t room. reject_resource [hub_error_echo ev h l t room] h)
     in if \<not> cf_resource_accept_enabled (hc_config h) then reject (lit ''resource transfer disabled'') raw
        else case session_identity l h of
          None \<Rightarrow> (h, [])
        | Some identity \<Rightarrow>
        (case parse_resource_envelope en of
           Inl e \<Rightarrow> reject (resource_envelope_error e) raw
         | Inr body \<Rightarrow>
             if re_kind body \<noteq> RES_KIND_NOTICE then reject (lit ''unsupported resource kind'') raw
             else if cap < unat (re_size body)
             then reject (lit ''resource too large: '' @ dec_string (unat (re_size body)) @ lit '' > '' @ dec_string cap) raw
             else case present_room en of
               None \<Rightarrow> reject (lit ''notice resource requires room name'') None
             | Some room_raw \<Rightarrow>
             (case norm_room ev h room_raw of
                Inl reason \<Rightarrow> reject reason raw
              | Inr r \<Rightarrow>
              (case relay_refusal h l identity r of
                 Some reason \<Rightarrow> reject_resource [hub_error h l reason (Some r)] h
               | None \<Rightarrow>
                   (let (ok, a) = expect l \<lparr>ex_id = re_id body, ex_size = unat (re_size body), ex_sha256 = re_sha256 body,
                          ex_encoding = re_encoding body, ex_room = r, ex_created_at = ev_instant ev\<rparr> (hc_admission h);
                        h1 = h\<lparr>hc_admission := a\<rparr>
                    in if ok then (h1, [])
                       else reject_resource [hub_error_echo ev h1 l (lit ''too many pending resource expectations'') raw] h1)))))"

definition notice_from :: "bytes \<Rightarrow> ustr \<Rightarrow> ustr option \<Rightarrow> ustr \<Rightarrow> hub_packet" where
  "notice_from source r nickname t =
    \<lparr>hp_type = Notice, hp_source = source, hp_room = Some r, hp_body = Some (CText t), hp_nickname = nickname\<rparr>"

definition relayed_notice_budget :: "hub_env \<Rightarrow> bytes \<Rightarrow> ustr \<Rightarrow> ustr option \<Rightarrow> nat" where
  "relayed_notice_budget ev source r nickname =
    (let overhead = (case ev_packet_len ev (notice_from source r nickname []) of None \<Rightarrow> ev_link_mdu ev | Some n \<Rightarrow> n)
     in ev_link_mdu ev - overhead - CBOR_TEXT_HEADER_SLACK)"

text \<open>One token per packet: every token is asked for, also after a refusal.\<close>

fun spend_tokens :: "hub_env \<Rightarrow> bytes \<Rightarrow> nat \<Rightarrow> hub_core \<Rightarrow> bool \<times> hub_core" where
  "spend_tokens ev l 0 h = (True, h)"
| "spend_tokens ev l (Suc n) h =
    (let (ok, h1) = note_packet ev l h; (oks, h2) = spend_tokens ev l n h1 in (ok \<and> oks, h2))"

definition fan_out_resource_notice :: "hub_env \<Rightarrow> bytes \<Rightarrow> bytes \<Rightarrow> ustr \<Rightarrow> ustr \<Rightarrow> hub_step" where
  "fan_out_resource_notice ev l identity r t h =
    (let nick0 = Option.bind (session_nickname l h) (\<lambda>n.
           case normalize_nickname n (cf_max_nick_bytes (hc_config h)) of Inr m \<Rightarrow> Some m | Inl _ \<Rightarrow> None);
         cramped = (relayed_notice_budget ev identity r nick0 < MIN_NOTICE_BODY_BYTES \<and> nick0 \<noteq> None);
         nick = (if cramped then None else nick0);
         budget = relayed_notice_budget ev identity r nick;
         chunks = chunk_text t (max budget MIN_NOTICE_BODY_BYTES);
         (allowed, h1) = spend_tokens ev l (length chunks) h
     in if \<not> allowed
        then (upd_stats (\<lambda>st. st\<lparr>st_rate_limited := st_rate_limited st + 1\<rparr>) h1,
              [hub_error_echo ev h1 l (lit ''rate limited'') (Some r)])
        else case hub_room_of h1 r of
          None \<Rightarrow> (h1, [])
        | Some room \<Rightarrow>
            (let members = hr_members room;
                 packets = List.map (notice_from identity r nick) chunks;
                 h2 = upd_stats (\<lambda>st. st\<lparr>st_notices_forwarded := st_notices_forwarded st + 1,
                   st_resources_received := st_resources_received st + 1,
                   st_resource_bytes_received := st_resource_bytes_received st + str_len t\<rparr>) h1;
                 relayed = sum_list (List.map (\<lambda>p. case ev_packet_len ev p of None \<Rightarrow> 0 | Some n \<Rightarrow> n) packets)
             in (note_relayed r Kind_Notice relayed (length members)
                   (note_content_evidence ev identity nick r Kind_Notice t h2),
                 concat (List.map (\<lambda>p. List.map (\<lambda>m. Send_Packet m p) members) packets))))"

definition readable_payload :: "hub_env \<Rightarrow> expectation \<Rightarrow> bytes \<Rightarrow> ustr option" where
  "readable_payload ev x payload =
    (if (case ex_encoding x of None \<Rightarrow> True | Some e \<Rightarrow> eq_ignore_ascii_case e (lit ''utf-8''))
     then ev_from_utf8 ev payload else None)"

definition on_resource_completed :: "hub_env \<Rightarrow> bytes \<Rightarrow> bytes \<Rightarrow> bytes \<Rightarrow> bool \<Rightarrow> hub_step" where
  "on_resource_completed ev l hash payload has_metadata h0 =
    (let h = upd_admission (retire l hash) h0 in
     if \<not> cf_resource_accept_enabled (hc_config h) then (h, [])
     else case session_identity l h of
       None \<Rightarrow> (h, [])
     | Some identity \<Rightarrow>
         if has_metadata \<or> payload = [] \<or> inbound_resource_cap (hc_config h) < length payload
         then reject_resource [] h
         else let (found, a) = take_matching (ev_instant ev) l (length payload) (ev_sha256 ev payload) (hc_admission h);
                  h1 = h\<lparr>hc_admission := a\<rparr>
              in (case found of
                    None \<Rightarrow> reject_resource [] h1
                  | Some x \<Rightarrow>
                  (case readable_payload ev x payload of
                     None \<Rightarrow> reject_resource [] h1
                   | Some t \<Rightarrow>
                       if (case str_trim_start t of [] \<Rightarrow> False | c # _ \<Rightarrow> c = 47)
                       then reject_resource [hub_error_echo ev h1 l
                              (lit ''commands must be sent as a message, not a resource'') (Some (ex_room x))] h1
                       else case relay_refusal h1 l identity (ex_room x) of
                         Some reason \<Rightarrow> reject_resource [hub_error h1 l reason (Some (ex_room x))] h1
                       | None \<Rightarrow> fan_out_resource_notice ev l identity (ex_room x) t h1)))"

definition on_inbound_resource_concluded :: "bytes \<Rightarrow> bytes \<Rightarrow> hub_core \<Rightarrow> hub_core" where
  "on_inbound_resource_concluded l hash h = upd_admission (retire l hash) h"

end
