(* ===== verification/Hub_Commands.thy ===== *)
theory Hub_Commands
  imports Hub_Room Hub_Resource
begin

text \<open>
  The slash commands of the hub (\<open>channel_hub.rs\<close>, \<open>cmd_*\<close>) and the dispatch of an envelope
  (\<open>on_relay\<close>, \<open>on_envelope\<close>).  \<open>raw\<close> is the room the envelope named, unnormalised; the code echoes it.
\<close>

fun run_all :: "hub_step list \<Rightarrow> hub_step" where
  "run_all [] h = (h, [])"
| "run_all (f # fs) h = then_do f (run_all fs) h"

declare run_all.simps [simp del]

section \<open>Targets\<close>

definition target_matches :: "hub_env \<Rightarrow> ustr \<Rightarrow> hub_session \<Rightarrow> bytes \<Rightarrow> bool" where
  "target_matches ev token s identity =
    (let lowered = ev_lower ev token;
         is_hex = (6 \<le> str_len lowered \<and> list_all is_hex_char lowered)
     in if is_hex then take (length lowered) (ev_hex ev identity) = lowered
        else (case hs_nickname s of None \<Rightarrow> False | Some n \<Rightarrow> eq_ignore_ascii_case n token))"

fun collect_targets :: "hub_env \<Rightarrow> ustr \<Rightarrow> (bytes \<times> ustr option) list \<Rightarrow> (bytes \<times> hub_session) list \<Rightarrow> (bytes \<times> ustr option) list" where
  "collect_targets ev token found [] = found"
| "collect_targets ev token found ((l, s) # rest) =
    (case hs_identity s of
       None \<Rightarrow> collect_targets ev token found rest
     | Some identity \<Rightarrow>
         collect_targets ev token
           (if target_matches ev token s identity \<and> identity \<notin> fst ` set found
            then found @ [(identity, hs_nickname s)] else found) rest)"

definition ambiguous_text :: "hub_env \<Rightarrow> ustr \<Rightarrow> (bytes \<times> ustr option) list \<Rightarrow> ustr" where
  "ambiguous_text ev token found =
    str_join [10]
      ((lit ''ambiguous: '' @ [39] @ token @ [39] @ lit '' matches '' @ dec_string (length found) @ lit '' identities:'') #
       List.map (\<lambda>(identity, nickname). lit ''  - '' @ ev_hex ev identity @ [32] @
         (case nickname of Some n \<Rightarrow> lit ''nick='' @ [39] @ n @ [39] | None \<Rightarrow> lit ''(no nick)'')) found @
       [lit ''Use full or longer identity hash to disambiguate.''])"

definition resolve_target :: "hub_env \<Rightarrow> hub_core \<Rightarrow> ustr \<Rightarrow> ustr + bytes" where
  "resolve_target ev h token =
    (case collect_targets ev token [] (hc_sessions h) of
       [] \<Rightarrow> Inl (lit ''target '' @ [39] @ token @ [39] @ lit '' not found'')
     | [(identity, _)] \<Rightarrow> Inr identity
     | found \<Rightarrow> Inl (ambiguous_text ev token found))"

definition resolve_target_or_hash :: "hub_env \<Rightarrow> hub_core \<Rightarrow> ustr \<Rightarrow> ustr + bytes" where
  "resolve_target_or_hash ev h token =
    (if str_len token = 32 \<and> list_all is_hex_char token
     then (case exact_bytes 16 (ev_unhex ev (ev_lower ev token)) of
             None \<Rightarrow> Inl (lit ''bad identity hash: '' @ token)
           | Some identity \<Rightarrow> Inr identity)
     else resolve_target ev h token)"

definition room_links_for_identity :: "hub_core \<Rightarrow> ustr \<Rightarrow> bytes \<Rightarrow> bytes list" where
  "room_links_for_identity h r target =
    (case hub_room_of h r of None \<Rightarrow> []
     | Some room \<Rightarrow> filter (\<lambda>m. session_identity m h = Some target) (hr_members room))"

text \<open>What a kick or a ban does with one link of its target.\<close>

definition eject_link :: "hub_env \<Rightarrow> ustr \<Rightarrow> bytes \<Rightarrow> ustr \<Rightarrow> bytes \<Rightarrow> hub_step" where
  "eject_link ev r target reason k =
    then_do (\<lambda>h. remove_member_with_parted ev r k target (session_nickname k h)
               (upd_session k (\<lambda>s. s\<lparr>hs_rooms := hrem r (hs_rooms s)\<rparr>) h))
      (saying (\<lambda>h. [hub_error h k reason (Some r)]))"

definition links_of :: "hub_core \<Rightarrow> bytes \<Rightarrow> bytes list" where
  "links_of h target = List.map fst (filter (\<lambda>(l, s). hs_identity s = Some target) (hc_sessions h))"

definition disconnect_link :: "hub_env \<Rightarrow> bytes \<Rightarrow> hub_step" where
  "disconnect_link ev k =
    then_do (saying (\<lambda>h. [hub_error h k (lit ''banned'') None, Send_Close k])) (close_session ev k Close_Kicked)"

definition forget_leases :: "bytes \<Rightarrow> hub_core \<Rightarrow> hub_core" where
  "forget_leases target h =
    h\<lparr>hc_rooms := hvals (\<lambda>rm. rm\<lparr>hr_rejoin_until := hdel target (hr_rejoin_until rm)\<rparr>) (hc_rooms h)\<rparr>"

section \<open>Gates\<close>

text \<open>A room that the caller may not see is answered like one that does not exist.\<close>

definition visible_room :: "bytes \<Rightarrow> bytes \<Rightarrow> ustr \<Rightarrow> (hub_room \<Rightarrow> hub_step) \<Rightarrow> hub_step" where
  "visible_room l identity r k h =
    (case hub_room_of h r of
       None \<Rightarrow> (h, [hub_error h l (lit ''no such room'') (Some r)])
     | Some room \<Rightarrow>
         if \<not> can_view_room h room identity then (h, [hub_error h l (lit ''no such room'') (Some r)])
         else k room h)"

definition op_room :: "bytes \<Rightarrow> bytes \<Rightarrow> ustr \<Rightarrow> (hub_room \<Rightarrow> hub_step) \<Rightarrow> hub_step" where
  "op_room l identity r k =
    visible_room l identity r (\<lambda>room h.
      if \<not> is_room_op h room identity then (h, [hub_error h l (lit ''not authorized'') None]) else k room h)"

definition named_room :: "hub_env \<Rightarrow> bytes \<Rightarrow> ustr option \<Rightarrow> ustr \<Rightarrow> (ustr \<Rightarrow> hub_step) \<Rightarrow> hub_step" where
  "named_room ev l context arg k h =
    (case norm_room ev h arg of
       Inl reason \<Rightarrow> (h, [hub_notice h l (lit ''bad room: '' @ reason) context])
     | Inr r \<Rightarrow> k r h)"

definition say :: "bytes \<Rightarrow> ustr \<Rightarrow> ustr option \<Rightarrow> hub_step" where
  "say l t room = saying (\<lambda>h. [hub_notice h l t room])"

definition refuse :: "bytes \<Rightarrow> ustr \<Rightarrow> ustr option \<Rightarrow> hub_step" where
  "refuse l t room = saying (\<lambda>h. [hub_error h l t room])"

definition with_target :: "bytes \<Rightarrow> ustr option \<Rightarrow> ustr + bytes \<Rightarrow> (bytes \<Rightarrow> hub_step) \<Rightarrow> hub_step" where
  "with_target l raw resolved k =
    (case resolved of Inl reason \<Rightarrow> say l reason raw | Inr target \<Rightarrow> k target)"

section \<open>Questions\<close>

fun list_lines :: "nat \<Rightarrow> (ustr \<times> hub_room) list \<Rightarrow> ustr \<Rightarrow> ustr" where
  "list_lines budget [] t = t"
| "list_lines budget ((r, room) # rest) t =
    (let line = [10] @ lit ''  '' @ r @ (case hr_topic room of None \<Rightarrow> [] | Some topic \<Rightarrow> lit '' - '' @ clip_topic topic);
         more = lit ''  (+'' @ dec_string (length rest) @ lit '' more)'';
         tail = (if rest \<noteq> [] then str_len ([10] @ more) else 0)
     in if budget < str_len t + str_len line + tail
        then t @ [10] @ lit ''  (+'' @ dec_string (Suc (length rest)) @ lit '' more)''
        else list_lines budget rest (t @ line))"

definition cmd_list :: "hub_env \<Rightarrow> bytes \<Rightarrow> bytes \<Rightarrow> hub_step" where
  "cmd_list ev l identity h =
    (let rooms = sort_key fst (filter (\<lambda>(r, room). hr_registered room \<and> can_view_room h room identity) (hc_rooms h))
     in if rooms = [] then say l (lit ''No public rooms registered'') None h
        else say l (list_lines (notice_budget ev h None) rooms (lit ''Registered public rooms:'')) None h)"

definition dedup_key :: "('a \<Rightarrow> 'b) \<Rightarrow> 'a list \<Rightarrow> 'a list" where
  "dedup_key f xs = foldr (\<lambda>x ys. case ys of [] \<Rightarrow> [x] | y # zs \<Rightarrow> if f x = f y then x # zs else x # ys) xs []"

definition who_entries :: "hub_env \<Rightarrow> hub_core \<Rightarrow> hub_room \<Rightarrow> ustr list" where
  "who_entries ev h room =
    List.map (\<lambda>(nickname, identity).
        (case nickname of Some n \<Rightarrow> n @ lit '' ('' @ take 12 (ev_hex ev identity) @ lit '')'' | None \<Rightarrow> ev_hex ev identity))
      (dedup_key snd (sort_key (\<lambda>(n, i). List.map unat i)
        (List.map_filter (\<lambda>m. Option.bind (hub_session_of h m) (\<lambda>s. map_option (\<lambda>i. (hs_nickname s, i)) (hs_identity s)))
          (hr_members room))))"

definition cmd_who :: "hub_env \<Rightarrow> bytes \<Rightarrow> bytes \<Rightarrow> ustr list \<Rightarrow> ustr option \<Rightarrow> hub_step" where
  "cmd_who ev l identity args raw =
    (case (case args of a # _ \<Rightarrow> Some a | [] \<Rightarrow> raw) of
       None \<Rightarrow> say l (lit ''usage: /who [room]'') None
     | Some target \<Rightarrow> named_room ev l None target (\<lambda>r h.
         let members = (case hub_room_of h r of None \<Rightarrow> []
               | Some room \<Rightarrow> if can_view_room h room identity then who_entries ev h room else [])
         in (h, push_notice_entries ev h l (Header_Every (lit ''members in '' @ r @ lit '': ''))
               (if members = [] then [lit ''(none)''] else members) (lit '', '') None)))"

definition cmd_stats :: "hub_env \<Rightarrow> (hub_core \<Rightarrow> ustr list) \<Rightarrow> bytes \<Rightarrow> bytes \<Rightarrow> hub_step" where
  "cmd_stats ev lines l identity h =
    (if identity \<notin> set (hc_server_ops h) then refuse l (lit ''not authorized'') None h
     else (h, push_notice_entries ev h l Header_None (lines h) [10] None))"

definition cmd_reload :: "bytes \<Rightarrow> bytes \<Rightarrow> hub_step" where
  "cmd_reload l identity h =
    (if identity \<notin> set (hc_server_ops h) then refuse l (lit ''not authorized'') None h
     else say l (lit ''configuration is managed from the Ratspeak app settings'') None h)"

section \<open>Moderation\<close>

definition cmd_kick :: "hub_env \<Rightarrow> bytes \<Rightarrow> bytes \<Rightarrow> ustr list \<Rightarrow> ustr option \<Rightarrow> hub_step" where
  "cmd_kick ev l identity args raw =
    (case args of
       [arg, token] \<Rightarrow> named_room ev l raw arg (\<lambda>r. op_room l identity r (\<lambda>room h.
         with_target l raw (resolve_target ev h token) (\<lambda>target h.
           let links = room_links_for_identity h r target in
           if links = [] then say l (lit ''target not in room'') raw h
           else run_all [
             quietly (upd_room r (\<lambda>rm. rm\<lparr>hr_rejoin_until := hdel target (hr_rejoin_until rm)\<rparr>)),
             for_each (eject_link ev r target (lit ''kicked from '' @ r)) links,
             quietly (note_moderated ev l r Mod_Kick (Some target)),
             say l (lit ''kicked '' @ token @ lit '' from '' @ r) raw] h) h))
     | _ \<Rightarrow> say l (lit ''usage: /kick <room> <nick|hashprefix>'') None)"

definition kline_add :: "hub_env \<Rightarrow> bytes \<Rightarrow> bytes \<Rightarrow> hub_step" where
  "kline_add ev l target h =
    (let h0 = h\<lparr>hc_klines := hadd target (hc_klines h)\<rparr>
     in run_all [
       quietly (forget_leases target),
       persist_klines ev (Some l),
       quietly (note_trust_changed ev l Kline_Added target),
       say l (lit ''kline added for '' @ ev_hex ev target) None,
       (\<lambda>h. for_each (disconnect_link ev) (links_of h target) h)] h0)"

definition kline_del :: "hub_env \<Rightarrow> bytes \<Rightarrow> bytes \<Rightarrow> hub_step" where
  "kline_del ev l target h =
    (if target \<in> set (hc_klines h)
     then run_all [
       quietly (\<lambda>h. h\<lparr>hc_klines := hrem target (hc_klines h)\<rparr>),
       persist_klines ev (Some l),
       quietly (note_trust_changed ev l Kline_Removed target),
       say l (lit ''kline removed for '' @ ev_hex ev target) None] h
     else say l (lit ''not klined: '' @ ev_hex ev target) None h)"

definition cmd_kline :: "hub_env \<Rightarrow> bytes \<Rightarrow> bytes \<Rightarrow> ustr list \<Rightarrow> hub_step" where
  "cmd_kline ev l identity args h =
    (if identity \<notin> set (hc_server_ops h) then refuse l (lit ''not authorized'') None h
     else case args of
       [] \<Rightarrow> say l (lit ''usage: /kline add|del|list [nick|hashprefix|hash]'') None h
     | verb # rest \<Rightarrow>
         (let op = ev_lower ev verb in
          if op = lit ''list''
          then (let items = sort (List.map (ev_hex ev) (hc_klines h))
                in (h, push_notice_entries ev h l (Header_First (lit ''klines: ''))
                      (if items = [] then [lit ''(none)''] else items) (lit '', '') None))
          else if op \<noteq> lit ''add'' \<and> op \<noteq> lit ''del''
          then say l (lit ''usage: /kline add|del|list [nick|hashprefix|hash]'') None h
          else case rest of
            [] \<Rightarrow> say l (lit ''usage: /kline '' @ op @ lit '' <nick|hashprefix|hash>'') None h
          | token # _ \<Rightarrow> with_target l None (resolve_target_or_hash ev h token)
              (if op = lit ''add'' then kline_add ev l else kline_del ev l) h))"

definition cmd_register :: "hub_env \<Rightarrow> bytes \<Rightarrow> bytes \<Rightarrow> ustr list \<Rightarrow> ustr option \<Rightarrow> hub_step" where
  "cmd_register ev l identity args raw =
    (case args of
       [] \<Rightarrow> say l (lit ''usage: /register <room>'') None
     | arg # _ \<Rightarrow> named_room ev l None arg (\<lambda>r h.
         if (case hub_session_of h l of None \<Rightarrow> True | Some s \<Rightarrow> r \<notin> set (hs_rooms s))
         then say l (lit ''must be present in the room to register it'') raw h
         else if hub_room_of h r = None then (h, [])
         else if identity \<notin> set (hc_server_ops h)
         then refuse l (lit ''only a server operator can register'') (Some r) h
         else if cf_max_registered_rooms (hc_config h) \<le> registered_room_count h
         then say l (lit ''registry is full'') raw h
         else run_all [
           quietly (upd_room r (\<lambda>rm. rm\<lparr>hr_registered := True, hr_no_outside_msgs := True, hr_topic_ops_only := True,
             hr_ops := hadd identity (hr_ops rm), hr_last_used := ev_now_unix ev\<rparr>)),
           persist_room ev r (Some l),
           quietly (note_moderated ev l r Mod_Register None),
           say l (lit ''registered room '' @ r) raw] h))"

definition removed_op :: "ustr \<Rightarrow> bytes option \<Rightarrow> ustr option \<Rightarrow> hub_send" where
  "removed_op r origin room = Send_Persist \<lparr>ps_op = Removed r, ps_origin = origin, ps_room = room\<rparr>"

definition drop_room_if_empty :: "ustr \<Rightarrow> bool \<Rightarrow> hub_core \<Rightarrow> hub_core" where
  "drop_room_if_empty r unused h = (if unused then h\<lparr>hc_rooms := hdel r (hc_rooms h)\<rparr> else h)"

definition cmd_unregister :: "hub_env \<Rightarrow> bytes \<Rightarrow> bytes \<Rightarrow> ustr list \<Rightarrow> ustr option \<Rightarrow> hub_step" where
  "cmd_unregister ev l identity args raw =
    (case args of
       [] \<Rightarrow> say l (lit ''usage: /unregister <room>'') None
     | arg # _ \<Rightarrow> named_room ev l None arg (\<lambda>r h.
         if identity \<notin> set (hc_server_ops h)
         then refuse l (lit ''only a server operator can unregister'') (Some r) h
         else case hub_room_of h r of
           None \<Rightarrow> say l (lit ''room '' @ r @ lit '' is not registered'') raw h
         | Some room \<Rightarrow>
             if \<not> hr_registered room then say l (lit ''room '' @ r @ lit '' is not registered'') raw h
             else run_all [
               quietly (upd_room r (\<lambda>rm. rm\<lparr>hr_registered := False, hr_rejoin_until := []\<rparr>)),
               quietly (note_moderated ev l r Mod_Unregister None),
               quietly (drop_room_if_empty r (hr_members room = [])),
               saying (\<lambda>h. [removed_op r (Some l) (Some r)]),
               say l (lit ''unregistered room '' @ r) raw] h))"

definition set_topic :: "ustr \<Rightarrow> hub_room \<Rightarrow> hub_room" where
  "set_topic topic rm = rm\<lparr>hr_topic := (if topic = [] then None else Some topic)\<rparr>"

definition cmd_topic :: "hub_env \<Rightarrow> bytes \<Rightarrow> bytes \<Rightarrow> ustr list \<Rightarrow> ustr option \<Rightarrow> hub_step" where
  "cmd_topic ev l identity args raw =
    (case args of
       [] \<Rightarrow> say l (lit ''usage: /topic <room> [topic]'') None
     | arg # words \<Rightarrow> named_room ev l None arg (\<lambda>r. visible_room l identity r (\<lambda>room h.
         if words = []
         then say l (lit ''topic for '' @ r @ lit '': '' @ (case hr_topic room of None \<Rightarrow> lit ''(none)'' | Some t \<Rightarrow> t)) raw h
         else if \<not> (is_room_op h room identity \<or> \<not> hr_topic_ops_only room)
         then refuse l (lit ''not authorized (+t)'') (Some r) h
         else let topic = str_trim (str_join [32] words);
                  display = (if topic = [] then lit ''(cleared)'' else topic)
              in run_all [
                quietly (upd_room r (set_topic topic)),
                saying (\<lambda>h. broadcast h room r (lit ''topic for '' @ r @ lit '' is now: '' @ display)),
                persist_room ev r (Some l),
                quietly (note_moderated ev l r Mod_Topic None)] h)))"

text \<open>The five switches of \<open>/mode\<close>; changing \<open>i\<close> drops the rejoin leases.\<close>

definition set_mode_flag :: "ustr \<Rightarrow> bool \<Rightarrow> hub_room \<Rightarrow> hub_room" where
  "set_mode_flag flag enable rm =
    (if flag = lit ''m'' then rm\<lparr>hr_moderated := enable\<rparr>
     else if flag = lit ''i'' then rm\<lparr>hr_invite_only := enable, hr_rejoin_until := []\<rparr>
     else if flag = lit ''t'' then rm\<lparr>hr_topic_ops_only := enable\<rparr>
     else if flag = lit ''n'' then rm\<lparr>hr_no_outside_msgs := enable\<rparr>
     else rm\<lparr>hr_private := enable\<rparr>)"

definition change_mode :: "hub_env \<Rightarrow> bytes \<Rightarrow> ustr \<Rightarrow> (hub_room \<Rightarrow> hub_room) \<Rightarrow> hub_step" where
  "change_mode ev l r f =
    run_all [quietly (upd_room r f), saying (\<lambda>h. broadcast_mode h r), persist_room ev r (Some l),
      quietly (note_moderated ev l r Mod_Mode None)]"

definition mode_key :: "hub_env \<Rightarrow> bytes \<Rightarrow> ustr \<Rightarrow> ustr list \<Rightarrow> ustr option \<Rightarrow> hub_step" where
  "mode_key ev l r words raw h =
    (let key = str_trim (str_join [32] words) in
     if words = [] then say l (lit ''usage: /mode <room> +k <key>'') raw h
     else if key = [] then say l (lit ''key must not be empty'') raw h
     else if 1 < length words \<or> list_ex is_whitespace key then say l (lit ''key must not contain spaces'') raw h
     else if str_len key < MIN_ROOM_KEY_BYTES then say l (lit ''key must be at least 8 bytes'') raw h
     else change_mode ev l r (\<lambda>rm. rm\<lparr>hr_key :=
       Some (room_key_digest ev (hc_pepper h) (hc_pepper_id h) r key (ev_salt ev))\<rparr>) h)"

definition grant_role :: "ustr \<Rightarrow> bytes \<Rightarrow> hub_room \<Rightarrow> hub_room" where
  "grant_role role target rm =
    (if role = lit ''+o'' then rm\<lparr>hr_ops := hadd target (hr_ops rm)\<rparr>
     else if role = lit ''-o'' then rm\<lparr>hr_ops := hrem target (hr_ops rm)\<rparr>
     else if role = lit ''+v'' then rm\<lparr>hr_voiced := hadd target (hr_voiced rm)\<rparr>
     else rm\<lparr>hr_voiced := hrem target (hr_voiced rm)\<rparr>)"

definition role_action :: "ustr \<Rightarrow> moderation_action" where
  "role_action role =
    (if role = lit ''+o'' then Mod_Op else if role = lit ''-o'' then Mod_Deop
     else if role = lit ''+v'' then Mod_Voice else Mod_Devoice)"

definition mode_role :: "hub_env \<Rightarrow> bytes \<Rightarrow> ustr \<Rightarrow> ustr \<Rightarrow> ustr list \<Rightarrow> ustr option \<Rightarrow> hub_step" where
  "mode_role ev l r role words raw =
    (case words of
       [] \<Rightarrow> say l (lit ''usage: /mode <room> (+o|-o|+v|-v) <nick|hashprefix|hash>'') raw
     | token # _ \<Rightarrow> (\<lambda>h. with_target l raw (resolve_target_or_hash ev h token) (\<lambda>target h.
         if role = lit ''-o'' \<and> target \<in> set (hc_server_ops h)
         then say l (lit ''cannot deop a server operator'') raw h
         else run_all [
           quietly (upd_room r (grant_role role target)),
           saying (\<lambda>h. case hub_room_of h r of None \<Rightarrow> []
             | Some room \<Rightarrow> broadcast h room r (lit ''mode for '' @ r @ lit '' is now: '' @ role @ [32] @ take 12 (ev_hex ev target))),
           persist_room ev r (Some l),
           quietly (note_moderated ev l r (role_action role) (Some target))] h) h))"

definition mode_switches :: "ustr list" where
  "mode_switches = [lit ''+m'', lit ''-m'', lit ''+i'', lit ''-i'', lit ''+t'', lit ''-t'', lit ''+n'', lit ''-n'', lit ''+p'', lit ''-p'']"

definition mode_roles :: "ustr list" where
  "mode_roles = [lit ''+o'', lit ''-o'', lit ''+v'', lit ''-v'']"

definition apply_mode :: "hub_env \<Rightarrow> bytes \<Rightarrow> ustr \<Rightarrow> ustr \<Rightarrow> ustr list \<Rightarrow> ustr option \<Rightarrow> hub_step" where
  "apply_mode ev l r flag words raw =
    (if flag \<in> set mode_switches then change_mode ev l r (set_mode_flag (tl flag) (hd flag = 43))
     else if flag = lit ''+k'' then mode_key ev l r words raw
     else if flag = lit ''-k'' then change_mode ev l r (\<lambda>rm. rm\<lparr>hr_key := None\<rparr>)
     else if flag = lit ''+r'' \<or> flag = lit ''-r'' then say l (lit ''use /register or /unregister to change +r'') raw
     else if flag \<in> set mode_roles then mode_role ev l r flag words raw
     else say l (lit ''supported modes: +m -m +i -i +k -k +t -t +n -n +p -p +o -o +v -v; use /register or /unregister for +r'') raw)"

definition cmd_mode :: "hub_env \<Rightarrow> bytes \<Rightarrow> bytes \<Rightarrow> ustr list \<Rightarrow> ustr option \<Rightarrow> hub_step" where
  "cmd_mode ev l identity args raw =
    (case args of
       arg # flag # words \<Rightarrow> named_room ev l None arg (\<lambda>r. op_room l identity r (\<lambda>room. apply_mode ev l r flag words raw))
     | _ \<Rightarrow> say l (lit ''usage: /mode <room> (+m|-m|+i|-i|+t|-t|+n|-n|+p|-p|+k|-k) [key] | /mode <room> (+o|-o|+v|-v) <nick|hashprefix|hash>'') None)"

definition verb_role :: "ustr \<Rightarrow> ustr" where
  "verb_role verb = (if verb = lit ''op'' then lit ''+o'' else if verb = lit ''deop'' then lit ''-o''
     else if verb = lit ''voice'' then lit ''+v'' else lit ''-v'')"

definition grant_text :: "ustr \<Rightarrow> ustr" where
  "grant_text verb = (if verb = lit ''op'' then lit ''op granted in '' else if verb = lit ''deop'' then lit ''op removed in ''
     else if verb = lit ''voice'' then lit ''voice granted in '' else lit ''voice removed in '')"

definition cmd_grant :: "hub_env \<Rightarrow> bytes \<Rightarrow> bytes \<Rightarrow> ustr \<Rightarrow> ustr list \<Rightarrow> ustr option \<Rightarrow> hub_step" where
  "cmd_grant ev l identity verb args raw =
    (case args of
       arg # token # _ \<Rightarrow> named_room ev l None arg (\<lambda>r. op_room l identity r (\<lambda>room h.
         with_target l raw (resolve_target_or_hash ev h token) (\<lambda>target h.
           if verb = lit ''deop'' \<and> target \<in> set (hc_server_ops h)
           then say l (lit ''cannot deop a server operator'') raw h
           else run_all [
             quietly (upd_room r (grant_role (verb_role verb) target)),
             persist_room ev r (Some l),
             quietly (note_moderated ev l r (role_action (verb_role verb)) (Some target)),
             say l (grant_text verb @ r) raw] h) h))
     | _ \<Rightarrow> say l (lit ''usage: /'' @ verb @ lit '' <room> <nick|hashprefix|hash>'') None)"

definition ban_add :: "hub_env \<Rightarrow> bytes \<Rightarrow> ustr \<Rightarrow> ustr option \<Rightarrow> bytes \<Rightarrow> hub_step" where
  "ban_add ev l r raw target =
    run_all [
      quietly (upd_room r (\<lambda>rm. rm\<lparr>hr_bans := hadd target (hr_bans rm), hr_rejoin_until := hdel target (hr_rejoin_until rm)\<rparr>)),
      (\<lambda>h. for_each (eject_link ev r target (lit ''banned from '' @ r)) (room_links_for_identity h r target) h),
      persist_room ev r (Some l),
      quietly (note_moderated ev l r Mod_Ban (Some target)),
      say l (lit ''ban added in '' @ r) raw]"

definition ban_del :: "hub_env \<Rightarrow> bytes \<Rightarrow> ustr \<Rightarrow> ustr option \<Rightarrow> bytes \<Rightarrow> hub_step" where
  "ban_del ev l r raw target =
    run_all [
      quietly (upd_room r (\<lambda>rm. rm\<lparr>hr_bans := hrem target (hr_bans rm)\<rparr>)),
      persist_room ev r (Some l),
      quietly (note_moderated ev l r Mod_Unban (Some target)),
      say l (lit ''ban removed in '' @ r) raw]"

definition ban_usage :: ustr where
  "ban_usage = lit ''usage: /ban <room> add|del|list [nick|hashprefix|hash]''"

definition cmd_ban :: "hub_env \<Rightarrow> bytes \<Rightarrow> bytes \<Rightarrow> ustr list \<Rightarrow> ustr option \<Rightarrow> hub_step" where
  "cmd_ban ev l identity args raw =
    (case args of
       arg # verb # words \<Rightarrow>
         (let op = ev_lower ev verb in named_room ev l None arg (\<lambda>r.
           if op \<noteq> lit ''add'' \<and> op \<noteq> lit ''del'' \<and> op \<noteq> lit ''list'' then say l ban_usage None
           else op_room l identity r (\<lambda>room h.
             if op = lit ''list''
             then (let items = sort (List.map (ev_hex ev) (hr_bans room)) in
                   if items = [] then say l (lit ''no bans in '' @ r) raw h
                   else (h, push_notice_entries ev h l (Header_First (lit ''bans in '' @ r @ lit '': '')) items (lit '', '') raw))
             else case words of
               [] \<Rightarrow> say l ban_usage None h
             | token # _ \<Rightarrow> with_target l raw (resolve_target_or_hash ev h token)
                 (if op = lit ''add'' then ban_add ev l r raw else ban_del ev l r raw) h)))
     | _ \<Rightarrow> say l ban_usage None)"

definition invite_text :: "ustr \<Rightarrow> bool \<Rightarrow> ustr" where
  "invite_text r keyed = lit ''You have been invited to join '' @ r @
    (if keyed then lit ''. This invite allows joining without the key (+k).'' else lit ''.'')"

definition invite_add :: "hub_env \<Rightarrow> bytes \<Rightarrow> ustr \<Rightarrow> hub_room \<Rightarrow> ustr \<Rightarrow> ustr option \<Rightarrow> bytes \<Rightarrow> hub_step" where
  "invite_add ev l r room token raw target h =
    (let ttl = max 1 (cf_invite_timeout_secs (hc_config h));
         keyed = (hr_key room \<noteq> None); gated = (hr_invite_only room \<or> keyed)
     in run_all [
       (if gated then quietly (upd_room r (\<lambda>rm. rm\<lparr>hr_invited := hput target (ev_now_unix ev + ttl) (hr_invited rm)\<rparr>))
        else quietly (\<lambda>h. h)),
       saying (\<lambda>h. case hget (hc_by_identity h) target of None \<Rightarrow> []
         | Some k \<Rightarrow> [hub_notice h k (invite_text r keyed) (Some r)]),
       (if gated then persist_room ev r (Some l) else quietly (\<lambda>h. h)),
       quietly (note_moderated ev l r Mod_Invite (Some target)),
       say l (if gated then lit ''invite added in '' @ r @ lit '' (expires in '' @ dec_string ttl @ lit ''s)''
              else lit ''invite sent to '' @ token @ lit '' for '' @ r) raw] h)"

definition invite_del :: "hub_env \<Rightarrow> bytes \<Rightarrow> ustr \<Rightarrow> ustr option \<Rightarrow> bytes \<Rightarrow> hub_step" where
  "invite_del ev l r raw target =
    run_all [
      quietly (upd_room r (\<lambda>rm. rm\<lparr>hr_invited := hdel target (hr_invited rm), hr_rejoin_until := hdel target (hr_rejoin_until rm)\<rparr>)),
      persist_room ev r (Some l),
      quietly (note_moderated ev l r Mod_Uninvite (Some target)),
      say l (lit ''invite removed in '' @ r) raw]"

definition invite_list :: "hub_env \<Rightarrow> bytes \<Rightarrow> ustr \<Rightarrow> hub_room \<Rightarrow> ustr option \<Rightarrow> hub_step" where
  "invite_list ev l r room raw h =
    (let items = sort (List.map (\<lambda>(i, expires). ev_hex ev i @ lit '' expires_in='' @ dec_string (expires - ev_now_unix ev) @ lit ''s'')
           (filter (\<lambda>(i, expires). ev_now_unix ev < expires) (hr_invited room)))
     in (h, push_notice_entries ev h l (Header_First (lit ''invites in '' @ r @ lit '': ''))
           (if items = [] then [lit ''(none)''] else items) (lit '', '') raw))"

definition invite_usage :: ustr where
  "invite_usage = lit ''usage: /invite <room> add|del|list [nick|hashprefix|hash]''"

definition cmd_invite :: "hub_env \<Rightarrow> bytes \<Rightarrow> bytes \<Rightarrow> ustr list \<Rightarrow> ustr option \<Rightarrow> hub_step" where
  "cmd_invite ev l identity args raw =
    (case args of
       arg # verb # words \<Rightarrow>
         (let op = ev_lower ev verb in named_room ev l None arg (\<lambda>r. op_room l identity r (\<lambda>room h.
           if op = lit ''list'' then invite_list ev l r room raw h
           else if op \<noteq> lit ''add'' \<and> op \<noteq> lit ''del'' then say l invite_usage None h
           else case words of
             [] \<Rightarrow> say l (lit ''usage: /invite '' @ r @ [32] @ op @ lit '' <nick|hashprefix|hash>'') raw h
           | token # _ \<Rightarrow>
               (case resolve_target_or_hash ev h token of
                  Inl reason \<Rightarrow> refuse l (lit ''invite failed: '' @ reason) None h
                | Inr target \<Rightarrow> (if op = lit ''add'' then invite_add ev l r room token raw target
                                 else invite_del ev l r raw target) h))))
     | _ \<Rightarrow> say l invite_usage None)"

section \<open>Dispatch\<close>

text \<open>\<open>None\<close> is an unknown verb.  \<open>lines\<close> makes the lines of \<open>/stats\<close>.\<close>

definition run_verb :: "hub_env \<Rightarrow> (hub_core \<Rightarrow> ustr list) \<Rightarrow> bytes \<Rightarrow> bytes \<Rightarrow> ustr \<Rightarrow> ustr list \<Rightarrow> ustr option \<Rightarrow> hub_step option" where
  "run_verb ev lines l identity verb args raw =
    (if verb = lit ''list'' then Some (cmd_list ev l identity)
     else if verb = lit ''who'' \<or> verb = lit ''names'' then Some (cmd_who ev l identity args raw)
     else if verb = lit ''kick'' then Some (cmd_kick ev l identity args raw)
     else if verb = lit ''kline'' then Some (cmd_kline ev l identity args)
     else if verb = lit ''register'' then Some (cmd_register ev l identity args raw)
     else if verb = lit ''unregister'' then Some (cmd_unregister ev l identity args raw)
     else if verb = lit ''topic'' then Some (cmd_topic ev l identity args raw)
     else if verb = lit ''mode'' then Some (cmd_mode ev l identity args raw)
     else if verb \<in> {lit ''op'', lit ''deop'', lit ''voice'', lit ''devoice''} then Some (cmd_grant ev l identity verb args raw)
     else if verb = lit ''ban'' then Some (cmd_ban ev l identity args raw)
     else if verb = lit ''invite'' then Some (cmd_invite ev l identity args raw)
     else if verb = lit ''stats'' then Some (cmd_stats ev lines l identity)
     else if verb = lit ''reload'' then Some (cmd_reload l identity)
     else None)"

definition handle_slash_command :: "hub_env \<Rightarrow> (hub_core \<Rightarrow> ustr list) \<Rightarrow> bytes \<Rightarrow> bytes \<Rightarrow> envelope \<Rightarrow> hub_step option" where
  "handle_slash_command ev lines l identity en =
    (case text_body en of
       None \<Rightarrow> None
     | Some t \<Rightarrow>
         (case split_whitespace (tl (str_trim t)) of
            [] \<Rightarrow> None
          | verb # args \<Rightarrow> run_verb ev lines l identity (ev_lower ev verb) args (en_room en)))"

definition on_relay :: "hub_env \<Rightarrow> (hub_core \<Rightarrow> ustr list) \<Rightarrow> bytes \<Rightarrow> envelope \<Rightarrow> hub_step" where
  "on_relay ev lines l en0 h =
    (case session_identity l h of
       None \<Rightarrow> (h, [])
     | Some identity \<Rightarrow>
         (let en = en0\<lparr>en_timestamp := sanitize_display_timestamp_ms (en_timestamp en0) (ev_now_ms ev)\<rparr> in
          if is_command en
          then (case handle_slash_command ev lines l identity en of
                  Some f \<Rightarrow> f h
                | None \<Rightarrow> refuse l (lit ''unrecognized command'') (en_room en) h)
          else relay_message ev l identity en h))"

definition on_envelope :: "hub_env \<Rightarrow> ustr \<Rightarrow> (hub_core \<Rightarrow> ustr list) \<Rightarrow> bytes \<Rightarrow> envelope \<Rightarrow> hub_step" where
  "on_envelope ev version lines l en h =
    (case hub_session_of h l of
       None \<Rightarrow> (h, [])
     | Some s \<Rightarrow>
         if hs_identity s = None then (h, [])
         else (let (fresh, s1) = note_seen (en_id en) s; h1 = upd_session l (\<lambda>_. s1) h in
           if \<not> fresh then (upd_stats (\<lambda>st. st\<lparr>st_duplicates := st_duplicates st + 1\<rparr>) h1, [])
           else if en_type en = Ping
             then (h1, [Send_Packet l ((made h1 Pong)\<lparr>hp_body := en_body en\<rparr>)])
           else if en_type en = Pong
             then (upd_stats (\<lambda>st. st\<lparr>st_pongs_in := st_pongs_in st + 1\<rparr>)
                     (upd_session l (\<lambda>s. s\<lparr>hs_awaiting_pong := None\<rparr>) h1), [])
           else if en_type en = Hello then on_hello ev version l en h1
           else if \<not> hs_welcomed s1 then (h1, [hub_error h1 l (lit ''send HELLO first'') None])
           else if en_type en = Join then on_join ev l en (upd_stats (\<lambda>st. st\<lparr>st_joins := st_joins st + 1\<rparr>) h1)
           else if en_type en = Part then on_part ev l en (upd_stats (\<lambda>st. st\<lparr>st_parts := st_parts st + 1\<rparr>) h1)
           else if en_type en = Message \<or> en_type en = Notice \<or> en_type en = Action then on_relay ev lines l en h1
           else if en_type en = ResourceEnvelope then on_resource_envelope ev l en h1
           else (h1, [])))"

end
