(* ===== verification/Hub_Kept.thy ===== *)
theory Hub_Kept
  imports Hub_Commands
begin

text \<open>
  What the handlers of the hub leave alone.  Most of what a handler does is bookkeeping: events,
  evidence, statistics, rate buckets, invitations and what is due to be written.  \<open>same_core\<close> relates two
  states that differ in that only; the locale \<open>kept\<close> collects, for a predicate that cannot tell such
  states apart, that the bookkeeping steps and their compositions preserve it.
\<close>

section \<open>Preservation by steps\<close>

definition keeps :: "(hub_core \<Rightarrow> bool) \<Rightarrow> hub_step \<Rightarrow> bool" where
  "keeps P f \<longleftrightarrow> (\<forall>h. P h \<longrightarrow> P (fst (f h)))"

named_theorems kept_intros "rules for preservation by composed steps"

lemma keepsI: "(\<And>h. P h \<Longrightarrow> P (fst (f h))) \<Longrightarrow> keeps P f"
  by (simp add: keeps_def)

lemma keepsD: "keeps P f \<Longrightarrow> P h \<Longrightarrow> P (fst (f h))"
  by (simp add: keeps_def)

lemma fst_then_do: "fst (then_do f g h) = fst (g (fst (f h)))"
  by (simp add: then_do_def Let_def case_prod_unfold)

lemma snd_then_do: "snd (then_do f g h) = snd (f h) @ snd (g (fst (f h)))"
  by (simp add: then_do_def Let_def case_prod_unfold)

lemma keeps_then_do [kept_intros]: "keeps P f \<Longrightarrow> keeps P g \<Longrightarrow> keeps P (then_do f g)"
  by (simp add: keeps_def fst_then_do)

lemma fst_run_all: "fst (run_all (f # fs) h) = fst (run_all fs (fst (f h)))" "fst (run_all [] h) = h"
  by (simp_all add: fst_then_do run_all.simps)

lemma keeps_run_all [kept_intros]: "list_all (keeps P) fs \<Longrightarrow> keeps P (run_all fs)"
  by (induction fs) (simp_all add: keeps_def fst_run_all)

lemma keeps_for_each: "(\<And>x. x \<in> set xs \<Longrightarrow> keeps P (f x)) \<Longrightarrow> keeps P (for_each f xs)"
  by (induction xs) (simp_all add: keeps_def fst_then_do)

lemma keeps_quietly: "(\<And>h. P h \<Longrightarrow> P (g h)) \<Longrightarrow> keeps P (quietly g)"
  by (simp add: keeps_def quietly_def)

lemma keeps_saying [kept_intros]: "keeps P (saying f)"
  by (simp add: keeps_def saying_def)

lemma keeps_say [kept_intros]: "keeps P (say l t room)"
  by (simp add: say_def keeps_saying)

lemma keeps_refuse [kept_intros]: "keeps P (refuse l t room)"
  by (simp add: refuse_def keeps_saying)

lemma fst_say [simp]: "fst (say l t room h) = h"
  by (simp add: say_def saying_def)

lemma fst_refuse [simp]: "fst (refuse l t room h) = h"
  by (simp add: refuse_def saying_def)

lemma fst_saying [simp]: "fst (saying f h) = h"
  by (simp add: saying_def)

lemma keeps_named_room: "(\<And>r. keeps P (k r)) \<Longrightarrow> keeps P (named_room ev l context arg k)"
  by (auto simp: keeps_def named_room_def split: sum.splits)

lemma keeps_with_target: "(\<And>t. resolved = Inr t \<Longrightarrow> keeps P (k t)) \<Longrightarrow> keeps P (with_target l raw resolved k)"
  by (auto simp: with_target_def keeps_say split: sum.splits)

lemma keeps_op_room:
  assumes "\<And>room h. P h \<Longrightarrow> hub_room_of h r = Some room \<Longrightarrow> is_room_op h room identity \<Longrightarrow> P (fst (k room h))"
  shows "keeps P (op_room l identity r k)"
  using assms by (auto simp: keeps_def op_room_def visible_room_def split: option.splits)

section \<open>The core of the state\<close>

definition hard :: "hub_room \<Rightarrow> hub_room" where
  "hard rm = rm\<lparr>hr_invited := [], hr_rejoin_until := [], hr_last_used := 0, hr_last_used_dirty := False,
     hr_persist_dirty := False\<rparr>"

definition bond :: "hub_session \<Rightarrow> bytes option \<times> ustr list" where
  "bond s = (hs_identity s, hs_rooms s)"

definition same_core :: "hub_core \<Rightarrow> hub_core \<Rightarrow> bool" where
  "same_core h h' \<longleftrightarrow>
    hc_config h' = hc_config h \<and> hc_server_ops h' = hc_server_ops h \<and> hc_klines h' = hc_klines h \<and>
    (\<forall>l. map_option bond (hub_session_of h' l) = map_option bond (hub_session_of h l)) \<and>
    (\<forall>r. map_option hard (hub_room_of h' r) = map_option hard (hub_room_of h r)) \<and>
    (\<forall>i. hget (hc_by_identity h') i = hget (hc_by_identity h) i) \<and>
    (hwf (hc_sessions h) \<longrightarrow> hwf (hc_sessions h')) \<and> (hwf (hc_rooms h) \<longrightarrow> hwf (hc_rooms h'))"

named_theorems core_simps "bookkeeping leaves the core alone"

lemma same_core_refl [core_simps]: "same_core h h"
  by (simp add: same_core_def)

lemma same_core_trans: "same_core h h' \<Longrightarrow> same_core h' h'' \<Longrightarrow> same_core h h''"
  by (simp add: same_core_def)

lemma hard_simps [simp]:
  "hr_members (hard rm) = hr_members rm" "hr_bans (hard rm) = hr_bans rm" "hr_ops (hard rm) = hr_ops rm"
  "hr_registered (hard rm) = hr_registered rm" "hr_voiced (hard rm) = hr_voiced rm" "hr_topic (hard rm) = hr_topic rm"
  "hr_key (hard rm) = hr_key rm" "hr_moderated (hard rm) = hr_moderated rm"
  "hr_invite_only (hard rm) = hr_invite_only rm" "hr_topic_ops_only (hard rm) = hr_topic_ops_only rm"
  "hr_no_outside_msgs (hard rm) = hr_no_outside_msgs rm" "hr_private (hard rm) = hr_private rm"
  by (simp_all add: hard_def)

lemma hard_members: "hard (rm\<lparr>hr_members := ms\<rparr>) = (hard rm)\<lparr>hr_members := ms\<rparr>"
  by (simp add: hard_def)

lemma same_core_room:
  assumes "same_core h h'"
  shows "hub_room_of h' r = None \<longleftrightarrow> hub_room_of h r = None"
    and "hub_room_of h' r = Some rm' \<Longrightarrow> \<exists>rm. hub_room_of h r = Some rm \<and> hard rm' = hard rm"
    and "hub_room_of h r = Some rm \<Longrightarrow> \<exists>rm'. hub_room_of h' r = Some rm' \<and> hard rm' = hard rm"
proof -
  have eq: "map_option hard (hub_room_of h' r) = map_option hard (hub_room_of h r)"
    using assms by (simp add: same_core_def)
  show "hub_room_of h' r = None \<longleftrightarrow> hub_room_of h r = None" using eq by (cases "hub_room_of h r"; cases "hub_room_of h' r") (simp_all)
  show "hub_room_of h' r = Some rm' \<Longrightarrow> \<exists>rm. hub_room_of h r = Some rm \<and> hard rm' = hard rm" using eq by (cases "hub_room_of h r"; cases "hub_room_of h' r") (simp_all)
  show "hub_room_of h r = Some rm \<Longrightarrow> \<exists>rm'. hub_room_of h' r = Some rm' \<and> hard rm' = hard rm" using eq by (cases "hub_room_of h r"; cases "hub_room_of h' r") (simp_all)
qed

lemma same_core_session:
  assumes "same_core h h'"
  shows "hub_session_of h' l = None \<longleftrightarrow> hub_session_of h l = None"
    and "hub_session_of h' l = Some s' \<Longrightarrow>
      \<exists>s. hub_session_of h l = Some s \<and> hs_identity s' = hs_identity s \<and> hs_rooms s' = hs_rooms s"
    and "hub_session_of h l = Some s \<Longrightarrow>
      \<exists>s'. hub_session_of h' l = Some s' \<and> hs_identity s' = hs_identity s \<and> hs_rooms s' = hs_rooms s"
    and "session_identity l h' = session_identity l h"
proof -
  have eq: "map_option bond (hub_session_of h' l) = map_option bond (hub_session_of h l)"
    using assms by (simp add: same_core_def)
  show "hub_session_of h' l = None \<longleftrightarrow> hub_session_of h l = None" using eq by (cases "hub_session_of h l"; cases "hub_session_of h' l") (simp_all add: bond_def session_identity_def)
  show "hub_session_of h' l = Some s' \<Longrightarrow>
      \<exists>s. hub_session_of h l = Some s \<and> hs_identity s' = hs_identity s \<and> hs_rooms s' = hs_rooms s" using eq by (cases "hub_session_of h l"; cases "hub_session_of h' l") (simp_all add: bond_def session_identity_def)
  show "hub_session_of h l = Some s \<Longrightarrow>
      \<exists>s'. hub_session_of h' l = Some s' \<and> hs_identity s' = hs_identity s \<and> hs_rooms s' = hs_rooms s" using eq by (cases "hub_session_of h l"; cases "hub_session_of h' l") (simp_all add: bond_def session_identity_def)
  show "session_identity l h' = session_identity l h" using eq by (cases "hub_session_of h l"; cases "hub_session_of h' l") (simp_all add: bond_def session_identity_def)
qed

section \<open>Bookkeeping\<close>

lemma core_parts:
  assumes "hc_config h' = hc_config h" "hc_server_ops h' = hc_server_ops h" "hc_klines h' = hc_klines h"
    "hc_sessions h' = hc_sessions h" "hc_rooms h' = hc_rooms h" "hc_by_identity h' = hc_by_identity h"
  shows "same_core h h'"
  using assms by (simp add: same_core_def)

definition bookless :: "hub_core \<Rightarrow> hub_config \<times> bytes list \<times> bytes list \<times> (bytes, hub_session) hmap \<times>
    (ustr, hub_room) hmap \<times> (bytes, bytes) hmap" where
  "bookless h = (hc_config h, hc_server_ops h, hc_klines h, hc_sessions h, hc_rooms h, hc_by_identity h)"

lemma bookless_core: "bookless h' = bookless h \<Longrightarrow> same_core h h'"
  by (rule core_parts) (simp_all add: bookless_def)

lemma bookless_evict_oldest [simp]: "bookless (evict_oldest_evidence h) = bookless h"
  by (simp add: evict_oldest_evidence_def bookless_def split: list.splits)

lemma bookless_evict_while [simp]: "bookless (evict_while P h) = bookless h"
  by (induction P h rule: evict_while.induct) (simp add: evict_while.simps)

lemma bookless_prune_evidence [simp]: "bookless (prune_evidence now h) = bookless h"
  by (simp add: prune_evidence_def Let_def)

lemma bookless_update [simp]:
  "bookless (h\<lparr>hc_evidence_sequence := n\<rparr>) = bookless h" "bookless (h\<lparr>hc_evidence_evicted := n\<rparr>) = bookless h"
  "bookless (h\<lparr>hc_evidence := es\<rparr>) = bookless h" "bookless (h\<lparr>hc_evidence_bytes := n\<rparr>) = bookless h"
  "bookless (h\<lparr>hc_events := evs\<rparr>) = bookless h" "bookless (h\<lparr>hc_stats := st\<rparr>) = bookless h"
  "bookless (h\<lparr>hc_klines_dirty := b\<rparr>) = bookless h" "bookless (h\<lparr>hc_admission := a\<rparr>) = bookless h"
  "bookless (h\<lparr>hc_throttle_reported_at := n\<rparr>) = bookless h" "bookless (h\<lparr>hc_throttle_baseline := p\<rparr>) = bookless h"
  "bookless (h\<lparr>hc_pending_removals := ps\<rparr>) = bookless h"
  by (simp_all add: bookless_def)

lemma bookless_push_evidence [simp]: "bookless (push_evidence ev kind a n room src nick tgt ex h) = bookless h"
  by (simp add: push_evidence_def Let_def)

lemma bookless_notes [simp]:
  "bookless (push_event e h) = bookless h" "bookless (upd_stats f h) = bookless h"
  "bookless (note_content_evidence ev src nick room k t h) = bookless h"
  "bookless (note_room_evidence ev kind i nick room h) = bookless h"
  "bookless (note_moderated ev l room a target h) = bookless h"
  "bookless (note_trust_changed ev l change who h) = bookless h"
  "bookless (note_relayed room k b n h) = bookless h"
  "bookless (note_admin_moderated ev actor room a target h) = bookless h"
  "bookless (note_admin_trust_changed ev actor change who h) = bookless h"
  "bookless (upd_admission g h) = bookless h"
  "bookless (fst (persist_klines ev origin h)) = bookless h"
  "bookless (report_throttle ev h) = bookless h"
  by (simp_all add: push_event_def upd_stats_def note_content_evidence_def note_room_evidence_def note_moderated_def
      note_trust_changed_def note_relayed_def note_admin_moderated_def note_admin_trust_changed_def upd_admission_def
      persist_klines_def report_throttle_def Let_def)

text \<open>Updates of a room or a session that keep its core.\<close>

lemma core_upd_room [core_simps]: "(\<And>rm. hard (f rm) = hard rm) \<Longrightarrow> same_core h (upd_room r f h)"
  by (auto simp: same_core_def upd_room_def option.map_comp comp_def)

lemma core_hvals_rooms: "(\<And>rm. hard (f rm) = hard rm) \<Longrightarrow> same_core h (h\<lparr>hc_rooms := hvals f (hc_rooms h)\<rparr>)"
  by (auto simp: same_core_def option.map_comp comp_def)

lemma core_upd_session:
  "(\<And>s. hub_session_of h l = Some s \<Longrightarrow> bond (f s) = bond s) \<Longrightarrow> same_core h (upd_session l f h)"
  by (cases "hub_session_of h l") (auto simp: same_core_def upd_session_def)

lemma core_hvals_sessions: "(\<And>s. bond (f s) = bond s) \<Longrightarrow> same_core h (h\<lparr>hc_sessions := hvals f (hc_sessions h)\<rparr>)"
  by (auto simp: same_core_def option.map_comp comp_def)

lemma core_touch_room: "same_core h (touch_room ev r h)"
  unfolding touch_room_def by (rule core_upd_room) (simp add: hard_def)

lemma core_persist_room: "same_core h (fst (persist_room ev r origin h))"
proof -
  have "same_core h (upd_room r (settle_room ev) h)" by (rule core_upd_room) (simp add: settle_room_def hard_def)
  then show ?thesis by (simp add: persist_room_def same_core_refl split: option.splits)
qed

lemma core_forget_leases: "same_core h (forget_leases target h)"
  unfolding forget_leases_def by (rule core_hvals_rooms) (simp add: hard_def)

lemma core_note_packet: "same_core h (snd (note_packet ev l h))"
  by (auto simp: note_packet_def Let_def case_prod_unfold same_core_refl bond_def split: option.splits
      intro!: core_upd_session)

lemma core_spend_tokens: "same_core h (snd (spend_tokens ev l n h))"
proof (induction n arbitrary: h)
  case (Suc n)
  then show ?case
    using core_note_packet same_core_trans by (fastforce simp: Let_def case_prod_unfold)
qed (simp add: same_core_refl)

lemma core_rewrite_nickname: "same_core h (snd (rewrite_relay_nickname l en h))"
  by (auto simp: rewrite_relay_nickname_def Let_def same_core_refl bond_def split: option.splits sum.splits
      intro!: core_upd_session)

text \<open>Leaving a room, without the bookkeeping.\<close>

definition drop_member :: "ustr \<Rightarrow> bytes \<Rightarrow> hub_core \<Rightarrow> hub_core" where
  "drop_member r l h =
    (case hub_room_of h r of
       None \<Rightarrow> h
     | Some room \<Rightarrow>
         let left = hrem l (hr_members room)
         in if left = [] \<and> \<not> hr_registered room then h\<lparr>hc_rooms := hdel r (hc_rooms h)\<rparr>
            else upd_room r (\<lambda>rm. rm\<lparr>hr_members := left\<rparr>) h)"

lemma hdel_hmod: "hdel k (hmod k f m) = hdel k m"
  by (auto simp: hmod_def hdel_def hput_def delete_update_same split: option.splits)

lemma core_remove_member: "same_core (drop_member r l h) (fst (remove_member_with_parted ev r l i n h))"
proof (cases "hub_room_of h r")
  case (Some room)
  let ?left = "hrem l (hr_members room)"
  let ?h1 = "upd_room r (\<lambda>rm. rm\<lparr>hr_members := ?left\<rparr>) h"
  let ?h2 = "if ?left = [] \<and> \<not> hr_registered room then ?h1\<lparr>hc_rooms := hdel r (hc_rooms ?h1)\<rparr> else ?h1"
  have eq: "bookless ?h2 = bookless (drop_member r l h)"
    using Some by (auto simp: drop_member_def upd_room_def bookless_def hdel_hmod)
  have "bookless (fst (remove_member_with_parted ev r l i n h)) = bookless ?h2"
    using Some by (simp add: remove_member_with_parted_def Let_def)
  then show ?thesis using eq by (intro bookless_core) simp
qed (simp add: remove_member_with_parted_def drop_member_def same_core_refl)

end
