(* ===== verification/Hub_Governed.thy ===== *)
theory Hub_Governed
  imports Hub_Kept
begin

text \<open>
  What one envelope can do to the hub.  The locale \<open>kept\<close> is for predicates that only look at the core
  of the state; \<open>governed\<close> adds what a caller with identity \<open>i\<close> on link \<open>l\<close> may change: the topic of a
  room that leaves it open, the rooms it operates, and everything the server operators' commands change.
  Under these laws every command, every relayed message and every other envelope preserves the predicate.
\<close>

locale kept =
  fixes P :: "hub_core \<Rightarrow> bool"
  assumes frame: "P h \<Longrightarrow> same_core h h' \<Longrightarrow> P h'"
begin

lemma keeps_core: "(\<And>h. same_core h (fst (f h))) \<Longrightarrow> keeps P f"
  using frame by (auto simp: keeps_def)

lemma keeps_books: "(\<And>h. bookless (f h) = bookless h) \<Longrightarrow> keeps P (quietly f)"
  by (intro keeps_core) (simp add: quietly_def bookless_core)

lemma P_books: "bookless h' = bookless h \<Longrightarrow> P h \<Longrightarrow> P h'"
  using frame bookless_core by blast

lemma keeps_note_moderated [kept_intros]: "keeps P (quietly (note_moderated ev l r a t))"
  by (rule keeps_books) simp

lemma keeps_note_trust [kept_intros]: "keeps P (quietly (note_trust_changed ev l a t))"
  by (rule keeps_books) simp

lemma keeps_persist_room [kept_intros]: "keeps P (persist_room ev r origin)"
  by (rule keeps_core) (rule core_persist_room)

lemma keeps_persist_klines [kept_intros]: "keeps P (persist_klines ev origin)"
  by (rule keeps_core) (simp add: bookless_core)

lemma keeps_soft_room: "(\<And>rm. hard (f rm) = hard rm) \<Longrightarrow> keeps P (quietly (upd_room r f))"
  by (rule keeps_core) (simp add: quietly_def core_upd_room)

lemma keeps_unchanged: "(\<And>h. fst (f h) = h) \<Longrightarrow> keeps P f"
  by (simp add: keeps_def)

lemma P_left: "P (drop_member r l h) \<Longrightarrow> P (fst (remove_member_with_parted ev r l i n h))"
  using frame core_remove_member by blast

text \<open>One update of a room, then bookkeeping.\<close>

lemma P_updated:
  assumes "P (upd_room r f h)" and "list_all (keeps P) fs"
  shows "P (fst (run_all (quietly (upd_room r f) # fs) h))"
  using keepsD [OF keeps_run_all [OF assms(2)] assms(1)] by (simp add: fst_run_all quietly_def)

end

definition calm :: "(hub_room \<Rightarrow> hub_room) \<Rightarrow> bool" where
  "calm f \<longleftrightarrow> (\<forall>rm. hr_members (f rm) = hr_members rm \<and> hr_registered (f rm) = hr_registered rm \<and>
     set (hr_bans (f rm)) \<subseteq> set (hr_bans rm))"

lemma calm_intros [intro]:
  "calm (set_topic t)" "calm (set_mode_flag flag b)" "calm (grant_role role target)"
  "calm (\<lambda>rm. rm\<lparr>hr_key := k\<rparr>)" "calm (\<lambda>rm. rm\<lparr>hr_bans := hrem t' (hr_bans rm)\<rparr>)"
  by (auto simp: calm_def set_topic_def set_mode_flag_def grant_role_def)

definition registered_by :: "bytes \<Rightarrow> nat \<Rightarrow> hub_room \<Rightarrow> hub_room" where
  "registered_by identity now rm = rm\<lparr>hr_registered := True, hr_no_outside_msgs := True, hr_topic_ops_only := True,
     hr_ops := hadd identity (hr_ops rm), hr_last_used := now\<rparr>"

definition unregistered :: "ustr \<Rightarrow> hub_core \<Rightarrow> hub_core" where
  "unregistered r h = upd_room r (\<lambda>rm. rm\<lparr>hr_registered := False, hr_rejoin_until := []\<rparr>) h"

locale governed = kept P for P :: "hub_core \<Rightarrow> bool" +
  fixes l :: bytes and i :: bytes
  assumes topic_open: "P h \<Longrightarrow> hub_room_of h r = Some room \<Longrightarrow> \<not> hr_topic_ops_only room \<Longrightarrow> P (upd_room r (set_topic t) h)"
    and calm_open: "P h \<Longrightarrow> hub_room_of h r = Some room \<Longrightarrow> is_room_op h room i \<Longrightarrow> calm f \<Longrightarrow> P (upd_room r f h)"
    and eject_open: "P h \<Longrightarrow> hub_room_of h r = Some room \<Longrightarrow> is_room_op h room i \<Longrightarrow>
      P (fst (for_each (eject_link ev r target reason) links h))"
    and ban_open: "P h \<Longrightarrow> hub_room_of h r = Some room \<Longrightarrow> is_room_op h room i \<Longrightarrow> P (fst (ban_add ev l r raw target h))"
    and kline_open: "P h \<Longrightarrow> i \<in> set (hc_server_ops h) \<Longrightarrow> P (fst (kline_add ev l target h))"
    and unkline_open: "P h \<Longrightarrow> i \<in> set (hc_server_ops h) \<Longrightarrow> P (h\<lparr>hc_klines := hrem target (hc_klines h)\<rparr>)"
    and register_open: "P h \<Longrightarrow> i \<in> set (hc_server_ops h) \<Longrightarrow> hub_room_of h r = Some room \<Longrightarrow> P (upd_room r (registered_by i now) h)"
    and unregister_open: "P h \<Longrightarrow> i \<in> set (hc_server_ops h) \<Longrightarrow> hub_room_of h r = Some room \<Longrightarrow>
      P (drop_room_if_empty r (hr_members room = []) (unregistered r h))"
    and join_open: "P h \<Longrightarrow> session_identity l h = Some i \<Longrightarrow> P (fst (on_join ev l en h))"
    and part_open: "P h \<Longrightarrow> session_identity l h = Some i \<Longrightarrow>
      P (drop_member r l (upd_session l (\<lambda>s. s\<lparr>hs_rooms := hrem r (hs_rooms s)\<rparr>) h))"
begin

lemma keeps_op_update:
  assumes "calm f" and "list_all (keeps P) fs"
    and "P h" "hub_room_of h r = Some room" "is_room_op h room i"
  shows "P (fst (run_all (quietly (upd_room r f) # fs) h))"
  using P_updated [OF calm_open assms(2)] assms by blast

lemma change_mode_ok:
  assumes "calm f" "P h" "hub_room_of h r = Some room" "is_room_op h room i"
  shows "P (fst (change_mode ev l r f h))"
  unfolding change_mode_def using assms by (intro keeps_op_update) (simp_all add: kept_intros)

lemma apply_mode_ok:
  assumes "P h" "hub_room_of h r = Some room" "is_room_op h room i"
  shows "P (fst (apply_mode ev l r flag words raw h))"
proof -
  have "P (fst (mode_key ev l r words raw h))"
    using assms by (simp add: mode_key_def Let_def change_mode_ok calm_intros)
  moreover have "P (fst (mode_role ev l r flag words raw h))"
    using assms by (auto simp: mode_role_def with_target_def kept_intros calm_intros
        split: list.splits sum.splits intro!: keeps_op_update)
  ultimately show ?thesis using assms
    by (simp add: apply_mode_def change_mode_ok calm_intros)
qed

lemma cmd_mode_ok: "keeps P (cmd_mode ev l i args raw)"
  using apply_mode_ok
  by (auto simp: cmd_mode_def kept_intros split: list.splits intro!: keeps_named_room keeps_op_room)

lemma cmd_grant_ok: "keeps P (cmd_grant ev l i verb args raw)"
  by (auto simp: cmd_grant_def with_target_def kept_intros calm_intros split: list.splits sum.splits
      intro!: keeps_named_room keeps_op_room keeps_op_update)

lemma cmd_kick_ok: "keeps P (cmd_kick ev l i args raw)"
proof -
  have "P (fst (run_all [quietly (upd_room r (\<lambda>rm. rm\<lparr>hr_rejoin_until := hdel target (hr_rejoin_until rm)\<rparr>)),
      for_each (eject_link ev r target reason) links, quietly (note_moderated ev l r Mod_Kick (Some target)),
      say l t raw'] h))"
    if "P h" "hub_room_of h r = Some room" "is_room_op h room i" for h r room target reason links t raw'
  proof -
    let ?h1 = "upd_room r (\<lambda>rm. rm\<lparr>hr_rejoin_until := hdel target (hr_rejoin_until rm)\<rparr>) h"
    have core: "same_core h ?h1" by (rule core_upd_room) (simp add: hard_def)
    then have "P ?h1" using that(1) frame by blast
    moreover let ?room1 = "room\<lparr>hr_rejoin_until := hdel target (hr_rejoin_until room)\<rparr>"
    have "hub_room_of ?h1 r = Some ?room1" "is_room_op ?h1 ?room1 i"
      using that by (simp_all add: upd_room_def is_room_op_def)
    ultimately have "P (fst (for_each (eject_link ev r target reason) links ?h1))" by (intro eject_open)
    then show ?thesis by (auto simp: fst_run_all quietly_def intro: P_books [rotated])
  qed
  then show ?thesis
    by (auto simp: cmd_kick_def with_target_def Let_def kept_intros split: list.splits sum.splits
        intro!: keeps_named_room keeps_op_room)
qed

lemma ban_del_ok:
  assumes "P h" "hub_room_of h r = Some room" "is_room_op h room i"
  shows "P (fst (ban_del ev l r raw target h))"
  unfolding ban_del_def using assms by (intro keeps_op_update) (simp_all add: kept_intros calm_intros)

lemma cmd_ban_ok: "keeps P (cmd_ban ev l i args raw)"
  using ban_open ban_del_ok
  by (auto simp: cmd_ban_def with_target_def Let_def kept_intros split: list.splits sum.splits
      intro!: keeps_named_room keeps_op_room)

lemma invite_ok:
  shows "keeps P (invite_del ev l r raw target)" and "keeps P (invite_add ev l r room token raw target)"
proof -
  have soft: "keeps P (quietly (upd_room r (\<lambda>rm. rm\<lparr>hr_invited := hput target n (hr_invited rm)\<rparr>)))"
      "keeps P (quietly (\<lambda>h. h))"
      "keeps P (quietly (upd_room r (\<lambda>rm. rm\<lparr>hr_invited := hdel target (hr_invited rm),
         hr_rejoin_until := hdel target (hr_rejoin_until rm)\<rparr>)))" for n
    by (rule keeps_soft_room; simp add: hard_def) (simp_all add: keeps_quietly keeps_soft_room hard_def)
  show "keeps P (invite_del ev l r raw target)"
    unfolding invite_del_def by (simp add: kept_intros soft)
  have "keeps P (run_all [if g then quietly (upd_room r (\<lambda>rm. rm\<lparr>hr_invited := hput target n (hr_invited rm)\<rparr>))
        else quietly (\<lambda>h. h), saying s, if g then persist_room ev r (Some l) else quietly (\<lambda>h. h),
      quietly (note_moderated ev l r Mod_Invite (Some target)), say l t raw])" for g n s t
    by (simp add: kept_intros soft)
  then show "keeps P (invite_add ev l r room token raw target)"
    by (simp add: invite_add_def Let_def keeps_def)
qed

lemma cmd_invite_ok: "keeps P (cmd_invite ev l i args raw)"
  using keepsD [OF invite_ok(1)] keepsD [OF invite_ok(2)]
  by (auto simp: cmd_invite_def invite_list_def Let_def kept_intros split: list.splits sum.splits
      intro!: keeps_named_room keeps_op_room)

lemma cmd_topic_ok: "keeps P (cmd_topic ev l i args raw)"
proof -
  have "P (fst (run_all [quietly (upd_room r (set_topic t)), saying s, persist_room ev r (Some l),
      quietly (note_moderated ev l r Mod_Topic None)] h))"
    if "P h" "hub_room_of h r = Some room" "is_room_op h room i \<or> \<not> hr_topic_ops_only room" for h r room t s
  proof (rule P_updated)
    show "P (upd_room r (set_topic t) h)" using that topic_open calm_open calm_intros(1) by blast
  qed (simp add: kept_intros)
  then have "keeps P (visible_room l i r (\<lambda>room h.
      if words = [] then say l (t' room) raw h
      else if \<not> (is_room_op h room i \<or> \<not> hr_topic_ops_only room) then refuse l t'' (Some r) h
      else run_all [quietly (upd_room r (set_topic t)), saying (s room), persist_room ev r (Some l),
        quietly (note_moderated ev l r Mod_Topic None)] h))" for r words t' t'' t s
    by (auto simp: keeps_def visible_room_def split: option.splits)
  note ok = this
  show ?thesis
  proof (cases args)
    case (Cons a words)
    show ?thesis unfolding cmd_topic_def Cons list.case Let_def by (rule keeps_named_room) (rule ok)
  qed (simp add: cmd_topic_def keeps_say)
qed

lemma cmd_kline_ok: "keeps P (cmd_kline ev l i args)"
proof -
  have "P (fst (kline_del ev l target h))" if "P h" "i \<in> set (hc_server_ops h)" for target h
    using that P_books [OF _ unkline_open [OF that, of target]]
    by (simp add: kline_del_def fst_run_all quietly_def)
  then show ?thesis using kline_open
    by (auto simp: keeps_def cmd_kline_def with_target_def Let_def split: list.splits sum.splits)
qed

lemma cmd_register_ok: "keeps P (cmd_register ev l i args raw)"
proof -
  have "P (fst (run_all [quietly (upd_room r (registered_by i now)), persist_room ev r (Some l),
      quietly (note_moderated ev l r Mod_Register None), say l t raw] h))"
    if "P h" "i \<in> set (hc_server_ops h)" "hub_room_of h r = Some room" for h r room now t
    by (rule P_updated [OF register_open [OF that]]) (simp add: kept_intros)
  then show ?thesis unfolding registered_by_def
    by (auto simp: keeps_def cmd_register_def named_room_def split: list.splits sum.splits option.splits)
qed

lemma bookless_drop_room: "bookless h' = bookless h \<Longrightarrow>
  bookless (drop_room_if_empty r b h') = bookless (drop_room_if_empty r b h)"
  by (simp add: drop_room_if_empty_def bookless_def)

lemma cmd_unregister_ok: "keeps P (cmd_unregister ev l i args raw)"
proof -
  have "P (fst (run_all [quietly (upd_room r (\<lambda>rm. rm\<lparr>hr_registered := False, hr_rejoin_until := []\<rparr>)),
      quietly (note_moderated ev l r Mod_Unregister None), quietly (drop_room_if_empty r (hr_members room = [])),
      saying s, say l t raw] h))"
    if "P h" "i \<in> set (hc_server_ops h)" "hub_room_of h r = Some room" for h r room s t
  proof -
    have "bookless (drop_room_if_empty r (hr_members room = []) (note_moderated ev l r Mod_Unregister None (unregistered r h)))
        = bookless (drop_room_if_empty r (hr_members room = []) (unregistered r h))"
      by (rule bookless_drop_room) simp
    then show ?thesis using P_books unregister_open [OF that] by (simp add: fst_run_all quietly_def unregistered_def)
  qed
  then show ?thesis
    by (auto simp: keeps_def cmd_unregister_def named_room_def split: list.splits sum.splits option.splits)
qed

lemma questions_ok:
  "keeps P (cmd_list ev l i)" "keeps P (cmd_who ev l i args raw)" "keeps P (cmd_stats ev lines l i)" "keeps P (cmd_reload l i)"
  by (auto simp: keeps_def cmd_list_def cmd_who_def cmd_stats_def cmd_reload_def named_room_def Let_def
      split: list.splits option.splits sum.splits)

lemma run_verb_ok: "run_verb ev lines l i verb args raw = Some f \<Longrightarrow> keeps P f"
  unfolding run_verb_def
  using questions_ok cmd_kick_ok cmd_kline_ok cmd_register_ok cmd_unregister_ok cmd_topic_ok cmd_mode_ok cmd_grant_ok
    cmd_ban_ok cmd_invite_ok
  by (auto split: if_splits)

lemma handle_slash_command_ok: "handle_slash_command ev lines l i en = Some f \<Longrightarrow> keeps P f"
  using run_verb_ok by (auto simp: handle_slash_command_def split: option.splits list.splits)

lemma on_direct_notice_ok: "P h \<Longrightarrow> P (fst (on_direct_notice ev l i en h))"
  using frame [OF _ core_rewrite_nickname] P_books
  by (auto simp: on_direct_notice_def Let_def case_prod_unfold split: option.splits)

lemma relay_into_ok: "P h \<Longrightarrow> P (fst (relay_into ev l i r en h))"
proof -
  assume "P h"
  then have "P (snd (rewrite_relay_nickname l (en\<lparr>en_source := i, en_room := Some r\<rparr>) h))"
    using frame core_rewrite_nickname by blast
  then show ?thesis
    by (auto simp: relay_into_def Let_def case_prod_unfold intro: P_books [rotated] split: option.splits)
qed

lemma relay_message_ok: "P h \<Longrightarrow> P (fst (relay_message ev l i en h))"
  using relay_into_ok on_direct_notice_ok
  by (simp add: relay_message_def Let_def split: option.splits sum.splits)

lemma on_relay_ok: "P h \<Longrightarrow> session_identity l h = Some i \<Longrightarrow> P (fst (on_relay ev lines l en h))"
  using handle_slash_command_ok relay_message_ok
  by (auto simp: on_relay_def Let_def keeps_def split: option.splits)

lemma on_part_ok:
  assumes "P h" "session_identity l h = Some i"
  shows "P (fst (on_part ev l en h))"
  using assms part_open [OF assms, THEN P_left]
  by (auto simp: on_part_def fst_then_do split: option.splits sum.splits)

lemma on_hello_ok: "P h \<Longrightarrow> P (fst (on_hello ev version l en h))"
proof -
  have bond: "same_core h (upd_session k f h)" if "\<And>s. bond (f s) = bond s" for k f h
    using that by (intro core_upd_session) simp
  have greet: "P (fst (push_greeting ev l g h))" if "P h" for g h
  proof -
    have "same_core h (upd_session l (\<lambda>s. s\<lparr>hs_outbound := ob\<rparr>) h)" for ob by (rule bond) (simp add: bond_def)
    then show ?thesis using that frame
      by (auto simp: push_greeting_def push_greeting_resource_def Let_def split: option.splits if_splits)
  qed
  assume "P h"
  have "P (upd_session l (\<lambda>s. (s\<lparr>hs_capabilities := caps\<rparr>)\<lparr>hs_nickname := nk s\<rparr>) h)" for caps nk
    by (rule frame [OF \<open>P h\<close> bond]) (simp add: bond_def)
  moreover have "P (upd_session l (\<lambda>s. s\<lparr>hs_capabilities := caps\<rparr>) h)" for caps
    by (rule frame [OF \<open>P h\<close> bond]) (simp add: bond_def)
  moreover have "P h' \<Longrightarrow> P (upd_session l (\<lambda>s. s\<lparr>hs_welcomed := True\<rparr>) h')" for h'
    by (erule frame [OF _ bond]) (simp add: bond_def)
  moreover have "P h' \<Longrightarrow> P (push_event e h')" for h' e by (rule P_books) simp_all
  ultimately show ?thesis using \<open>P h\<close> greet
    by (simp add: on_hello_def Let_def case_prod_unfold split: option.split bool.split)
qed

lemma on_resource_envelope_ok: "P h \<Longrightarrow> P (fst (on_resource_envelope ev l en h))"
  by (rule P_books)
    (auto simp: on_resource_envelope_def reject_resource_def Let_def case_prod_unfold split: option.splits sum.splits)

theorem on_envelope_ok:
  assumes "P h" and "session_identity l h = Some i"
  shows "P (fst (on_envelope ev version lines l en h))"
proof -
  obtain s where s: "hub_session_of h l = Some s" "hs_identity s = Some i"
    using assms(2) by (auto simp: session_identity_def bind_eq_Some_conv)
  define s1 where "s1 = snd (note_seen (en_id en) s)"
  define h1 where "h1 = upd_session l (\<lambda>_. s1) h"
  have core: "same_core h h1" unfolding h1_def using s(1)
    by (intro core_upd_session) (simp add: s1_def note_seen_def bond_def Let_def)
  have P1: "P h1" using assms(1) core frame by blast
  have i1: "session_identity l h1 = Some i" using same_core_session(4) [OF core] assms(2) by simp
  have P2: "P h'" and i2: "session_identity l h' = Some i" if "bookless h' = bookless h1" for h'
    using that P1 P_books i1 same_core_session(4) [OF bookless_core [OF that]] by auto
  have pong: "P (upd_session l (\<lambda>s. s\<lparr>hs_awaiting_pong := None\<rparr>) h1)"
    by (rule frame [OF P1 core_upd_session]) (simp add: bond_def)
  have "P (fst (on_join ev l en (upd_stats f h1)))" "P (fst (on_part ev l en (upd_stats f h1)))" for f
    using join_open on_part_ok P2 i2 by simp_all
  then show ?thesis
    using s P1 P2 P_books [OF _ pong] on_hello_ok [OF P1] on_relay_ok [OF P1 i1] on_resource_envelope_ok [OF P1]
    unfolding on_envelope_def
    by (simp add: Let_def case_prod_unfold s1_def [symmetric] h1_def [symmetric])
qed

end

end
