(* ===== verification/Hub_Coherent.thy ===== *)
theory Hub_Coherent
  imports Hub_Governed
begin

text \<open>
  The invariant of the hub's sessions and rooms.  The rooms a session lists and the members a room lists
  are the same relation; a banned identity is in no room and a k-lined one has no session; the index of
  identities points to sessions of that identity; no session is in more rooms than the limit; a room that
  is not registered has members.  The predicates take the relation and the exemptions of a handler that is
  half way through as arguments; between handlers there are none.  The links in \<open>X\<close> have proved a second
  identity: nothing re-examines the rooms they are in and the index keeps their first identity, so the bans of
  rooms and the index say nothing of them.
\<close>

section \<open>The invariant\<close>

definition rooms_of :: "hub_core \<Rightarrow> bytes \<Rightarrow> ustr set" where
  "rooms_of h l = (case hub_session_of h l of None \<Rightarrow> {} | Some s \<Rightarrow> set (hs_rooms s))"

definition sessions_ok :: "hub_core \<Rightarrow> bool" where
  "sessions_ok h \<longleftrightarrow> hwf (hc_sessions h) \<and> hwf (hc_rooms h) \<and>
    (\<forall>l s. hub_session_of h l = Some s \<longrightarrow> distinct (hs_rooms s) \<and> (hs_identity s = None \<longrightarrow> hs_rooms s = []) \<and>
       length (hs_rooms s) \<le> cf_max_rooms_per_session (hc_config h))"

definition membership :: "(bytes \<Rightarrow> ustr set) \<Rightarrow> hub_core \<Rightarrow> bool" where
  "membership R h \<longleftrightarrow> (\<forall>l r. r \<in> R l \<longleftrightarrow> (\<exists>rm. hub_room_of h r = Some rm \<and> l \<in> set (hr_members rm)))"

definition rooms_ok :: "ustr set \<Rightarrow> hub_core \<Rightarrow> bool" where
  "rooms_ok F h \<longleftrightarrow> (\<forall>r rm. hub_room_of h r = Some rm \<longrightarrow>
     distinct (hr_members rm) \<and> (hr_registered rm \<or> hr_members rm \<noteq> [] \<or> r \<in> F))"

definition bans_ok :: "bytes set \<Rightarrow> (ustr \<times> bytes) set \<Rightarrow> hub_core \<Rightarrow> bool" where
  "bans_ok X B h \<longleftrightarrow> (\<forall>r rm l i. hub_room_of h r = Some rm \<longrightarrow> l \<in> set (hr_members rm) \<longrightarrow>
     session_identity l h = Some i \<longrightarrow> i \<in> set (hr_bans rm) \<longrightarrow> l \<in> X \<or> (r, l) \<in> B)"

definition klines_ok :: "bytes set \<Rightarrow> hub_core \<Rightarrow> bool" where
  "klines_ok K h \<longleftrightarrow> (\<forall>l i. session_identity l h = Some i \<longrightarrow> i \<in> set (hc_klines h) \<longrightarrow> l \<in> K)"

definition index_ok :: "bytes set \<Rightarrow> hub_core \<Rightarrow> bool" where
  "index_ok X h \<longleftrightarrow> (\<forall>i l. hget (hc_by_identity h) i = Some l \<longrightarrow> l \<notin> X \<longrightarrow> session_identity l h = Some i)"

definition coh :: "bytes set \<Rightarrow> (bytes \<Rightarrow> ustr set) \<Rightarrow> (ustr \<times> bytes) set \<Rightarrow> bytes set \<Rightarrow> ustr set \<Rightarrow> hub_core \<Rightarrow> bool" where
  "coh X R B K F h \<longleftrightarrow> sessions_ok h \<and> membership R h \<and> rooms_ok F h \<and> bans_ok X B h \<and> klines_ok K h \<and> index_ok X h"

definition hub_but :: "bytes set \<Rightarrow> (ustr \<times> bytes) set \<Rightarrow> bytes set \<Rightarrow> hub_core \<Rightarrow> bool" where
  "hub_but X B K h \<longleftrightarrow> coh X (rooms_of h) B K {} h"

definition hub_ok :: "bytes set \<Rightarrow> hub_core \<Rightarrow> bool" where
  "hub_ok X h \<longleftrightarrow> hub_but X {} {} h"

lemmas coh_defs = sessions_ok_def membership_def rooms_ok_def bans_ok_def klines_ok_def index_ok_def

section \<open>Bookkeeping\<close>

lemma rooms_of_core: "same_core h h' \<Longrightarrow> rooms_of h' = rooms_of h"
proof
  fix l
  assume c: "same_core h h'"
  show "rooms_of h' l = rooms_of h l"
    using same_core_session(1,3) [OF c, of l] by (cases "hub_session_of h l") (auto simp: rooms_of_def)
qed

lemma coh_core:
  assumes "coh X R B K F h" and c: "same_core h h'"
  shows "coh X R B K F h'"
proof -
  note ident = same_core_session(4) [OF c]
  have cfg: "hc_config h' = hc_config h" "hc_klines h' = hc_klines h" "\<And>i. hget (hc_by_identity h') i = hget (hc_by_identity h) i"
      "hwf (hc_sessions h) \<Longrightarrow> hwf (hc_sessions h')" "hwf (hc_rooms h) \<Longrightarrow> hwf (hc_rooms h')"
    using c by (simp_all add: same_core_def)
  have room: "\<exists>rm. hub_room_of h r = Some rm \<and> hr_members rm = hr_members rm' \<and> hr_bans rm = hr_bans rm' \<and>
      hr_registered rm = hr_registered rm'" if "hub_room_of h' r = Some rm'" for r rm'
    using same_core_room(2) [OF c that] by (metis hard_simps(1,2,4))
  have room': "\<exists>rm'. hub_room_of h' r = Some rm' \<and> hr_members rm' = hr_members rm" if "hub_room_of h r = Some rm" for r rm
    using same_core_room(3) [OF c that] by (metis hard_simps(1))
  have "sessions_ok h'"
    using assms(1) cfg unfolding coh_def sessions_ok_def by (metis same_core_session(2) [OF c])
  moreover have "membership R h'"
    using assms(1) unfolding coh_def membership_def by (metis room room')
  moreover have "rooms_ok F h'" using assms(1) unfolding coh_def rooms_ok_def by (metis room)
  moreover have "bans_ok X B h'" using assms(1) unfolding coh_def bans_ok_def ident by (metis room)
  moreover have "klines_ok K h'" "index_ok X h'"
    using assms(1) unfolding coh_def klines_ok_def index_ok_def ident cfg by simp_all
  ultimately show ?thesis by (simp add: coh_def)
qed

lemma hub_but_core: "hub_but X B K h \<Longrightarrow> same_core h h' \<Longrightarrow> hub_but X B K h'"
  by (simp add: hub_but_def coh_core rooms_of_core)

interpretation but: kept "hub_but X B K" for X B K
  by unfold_locales (rule hub_but_core)

section \<open>Leaving\<close>

lemma session_identity_upd_room [simp]: "session_identity k (upd_room r f h) = session_identity k h"
  by (simp add: session_identity_def upd_room_def)

lemma session_identity_rooms [simp]: "session_identity k (h\<lparr>hc_rooms := rs\<rparr>) = session_identity k h"
  by (simp add: session_identity_def)

lemma session_identity_drop [simp]: "session_identity k (drop_member r l h) = session_identity k h"
  by (simp add: drop_member_def Let_def split: option.splits)

lemma drop_member_parts [simp]:
  "hc_sessions (drop_member r l h) = hc_sessions h" "hc_by_identity (drop_member r l h) = hc_by_identity h"
  "hc_config (drop_member r l h) = hc_config h" "hc_klines (drop_member r l h) = hc_klines h"
  "hc_server_ops (drop_member r l h) = hc_server_ops h"
  by (simp_all add: drop_member_def upd_room_def Let_def split: option.splits)

lemma drop_member_room:
  "hub_room_of (drop_member r l h) r' =
    (if r' \<noteq> r then hub_room_of h r'
     else case hub_room_of h r of None \<Rightarrow> None
          | Some rm \<Rightarrow> if hrem l (hr_members rm) = [] \<and> \<not> hr_registered rm then None
                      else Some (rm\<lparr>hr_members := hrem l (hr_members rm)\<rparr>))"
  by (simp add: drop_member_def upd_room_def Let_def split: option.splits)

lemma hwf_drop_member: "hwf (hc_rooms h) \<Longrightarrow> hwf (hc_rooms (drop_member r l h))"
  by (simp add: drop_member_def upd_room_def Let_def split: option.splits)

lemma coh_drop:
  assumes "coh X R B K F h"
  shows "coh X (R(l := R l - {r})) B K F (drop_member r l h)"
proof -
  have "sessions_ok (drop_member r l h)" using assms by (simp add: coh_def sessions_ok_def hwf_drop_member)
  moreover have "membership (R(l := R l - {r})) (drop_member r l h)"
    unfolding membership_def
  proof (intro allI)
    fix k r'
    have "r' \<in> R k \<longleftrightarrow> (\<exists>rm. hub_room_of h r' = Some rm \<and> k \<in> set (hr_members rm))"
      using assms by (simp add: coh_def membership_def)
    moreover have "k \<in> set (hr_members rm) \<Longrightarrow> k \<noteq> l \<Longrightarrow> hrem l (hr_members rm) \<noteq> []" for rm
      using set_hrem [of l "hr_members rm"] by (metis Diff_iff empty_iff empty_set singletonD)
    ultimately show "r' \<in> (R(l := R l - {r})) k \<longleftrightarrow>
        (\<exists>rm. hub_room_of (drop_member r l h) r' = Some rm \<and> k \<in> set (hr_members rm))"
      by (cases "k = l"; cases "r' = r") (auto simp: drop_member_room split: option.splits)
  qed
  moreover have "rooms_ok F (drop_member r l h)"
    using assms by (auto simp: coh_def rooms_ok_def drop_member_room split: option.splits if_splits)
  moreover have "bans_ok X B (drop_member r l h)"
    using assms unfolding coh_def bans_ok_def
    by (auto simp: drop_member_room split: option.splits if_splits)
  moreover have "klines_ok K (drop_member r l h)" "index_ok X (drop_member r l h)"
    using assms by (simp_all add: coh_def klines_ok_def index_ok_def)
  ultimately show ?thesis by (simp add: coh_def)
qed

definition forget_room :: "ustr \<Rightarrow> bytes \<Rightarrow> hub_core \<Rightarrow> hub_core" where
  "forget_room r k h = upd_session k (\<lambda>s. s\<lparr>hs_rooms := hrem r (hs_rooms s)\<rparr>) h"

lemma session_identity_upd:
  "(\<And>s. hs_identity (f s) = hs_identity s) \<Longrightarrow> session_identity k (upd_session l f h) = session_identity k h"
  by (simp add: session_identity_def upd_session_def bind_map_option comp_def split: if_splits)

lemma coh_forget_room:
  assumes "coh X R B K F h"
  shows "coh X R B K F (forget_room r k h)"
proof -
  have ident: "session_identity l (forget_room r k h) = session_identity l h" for l
    unfolding forget_room_def by (rule session_identity_upd) simp
  have parts: "hc_rooms (forget_room r k h) = hc_rooms h" "hc_klines (forget_room r k h) = hc_klines h"
      "hc_by_identity (forget_room r k h) = hc_by_identity h" "hc_config (forget_room r k h) = hc_config h"
    by (simp_all add: forget_room_def upd_session_def)
  have ok: "sessions_ok h" using assms by (simp add: coh_def)
  have "length (hrem r (hs_rooms s)) \<le> cf_max_rooms_per_session (hc_config h)" if "hub_session_of h k = Some s" for s
    using ok that length_hrem_le [of r "hs_rooms s"] unfolding sessions_ok_def by (meson le_trans)
  then have "sessions_ok (forget_room r k h)"
    using ok unfolding sessions_ok_def parts
    by (auto simp: forget_room_def upd_session_def hrem_def split: if_splits)
  then show ?thesis using assms
    by (simp add: coh_def membership_def rooms_ok_def bans_ok_def klines_ok_def index_ok_def ident parts)
qed

lemma rooms_of_forget: "rooms_of (forget_room r k h) = (rooms_of h)(k := rooms_of h k - {r})"
  by (rule ext) (auto simp: rooms_of_def forget_room_def upd_session_def split: option.splits)

lemma rooms_of_drop [simp]: "rooms_of (drop_member r l h) = rooms_of h"
  by (rule ext) (simp add: rooms_of_def)

lemma but_leave: "hub_but X B K h \<Longrightarrow> hub_but X B K (drop_member r k (forget_room r k h))"
  using coh_drop [OF coh_forget_room, of X "rooms_of h" B K "{}" h k r r k]
  by (simp add: hub_but_def rooms_of_forget)

lemma eject_link_core:
  "same_core (drop_member r k (forget_room r k h)) (fst (eject_link ev r target reason k h))"
  using core_remove_member by (simp add: eject_link_def fst_then_do forget_room_def)

lemma but_eject: "hub_but X B K h \<Longrightarrow> hub_but X B K (fst (eject_link ev r target reason k h))"
  using hub_but_core [OF but_leave eject_link_core] .

lemma rooms_of_eject: "rooms_of (fst (eject_link ev r target reason k h)) = (rooms_of h)(k := rooms_of h k - {r})"
  using rooms_of_core [OF eject_link_core] by (simp add: rooms_of_forget)

lemma but_eject_all:
  "hub_but X B K h \<Longrightarrow> hub_but X B K (fst (for_each (eject_link ev r target reason) ks h)) \<and>
    (\<forall>k. rooms_of (fst (for_each (eject_link ev r target reason) ks h)) k =
      (if k \<in> set ks then rooms_of h k - {r} else rooms_of h k))"
proof (induction ks arbitrary: h)
  case (Cons k ks)
  show ?case using Cons.IH [OF but_eject [OF Cons.prems]] by (auto simp: fst_then_do rooms_of_eject)
qed simp

section \<open>Closing\<close>

text \<open>What closing a session leaves of the others.\<close>

lemma leave_room_on_close_ok:
  assumes "coh X R B K {} h"
  shows "coh X (R(l := R l - {r})) B K {} (fst (leave_room_on_close ev expires l i n r h))"
    and "map_option bond (hub_session_of (fst (leave_room_on_close ev expires l i n r h)) k) = map_option bond (hub_session_of h k)"
    and "hget (hc_by_identity (fst (leave_room_on_close ev expires l i n r h))) j = hget (hc_by_identity h) j"
proof -
  obtain h1 where h1: "fst (leave_room_on_close ev expires l i n r h) = fst (remove_member_with_parted ev r l i n h1)"
    and c: "same_core h h1"
  proof
    let ?h1 = "case expires of None \<Rightarrow> h | Some e \<Rightarrow> if rejoin_eligible h r i l
      then upd_room r (\<lambda>rm. rm\<lparr>hr_rejoin_until := hput i e (hr_rejoin_until rm)\<rparr>) h else h"
    show "fst (leave_room_on_close ev expires l i n r h) = fst (remove_member_with_parted ev r l i n ?h1)"
      by (simp add: leave_room_on_close_def)
    show "same_core h ?h1"
      by (auto simp: same_core_refl hard_def intro!: core_upd_room split: option.splits)
  qed
  note core = core_remove_member [of r l h1 ev i n]
  show "coh X (R(l := R l - {r})) B K {} (fst (leave_room_on_close ev expires l i n r h))"
    unfolding h1 by (rule coh_core [OF coh_drop [OF coh_core [OF assms c]] core])
  show "map_option bond (hub_session_of (fst (leave_room_on_close ev expires l i n r h)) k) = map_option bond (hub_session_of h k)"
    using core c unfolding h1 by (simp add: same_core_def)
  show "hget (hc_by_identity (fst (leave_room_on_close ev expires l i n r h))) j = hget (hc_by_identity h) j"
    using core c unfolding h1 by (simp add: same_core_def)
qed

lemma leave_rooms_on_close_ok:
  assumes "coh X R B K {} h"
  shows "coh X (R(l := R l - set rs)) B K {} (fst (for_each (leave_room_on_close ev expires l i n) rs h)) \<and>
    (\<forall>k. map_option bond (hub_session_of (fst (for_each (leave_room_on_close ev expires l i n) rs h)) k) =
       map_option bond (hub_session_of h k)) \<and>
    (\<forall>j. hget (hc_by_identity (fst (for_each (leave_room_on_close ev expires l i n) rs h))) j = hget (hc_by_identity h) j)"
  using assms
proof (induction rs arbitrary: R h)
  case Nil
  then show ?case by simp
next
  case (Cons r rs)
  note one = leave_room_on_close_ok [OF Cons.prems, where l = l and r = r and ev = ev and expires = expires and i = i and n = n]
  have eq: "(R(l := R l - {r}))(l := (R(l := R l - {r})) l - set rs) = R(l := R l - set (r # rs))"
    by (auto simp: fun_eq_iff)
  show ?case using Cons.IH [OF one(1), unfolded eq] one(2,3) by (simp add: fst_then_do del: fun_upd_apply)
qed

lemma coh_delete_session:
  assumes "coh X R B K F h" and "R l = {}" and "\<And>i. l \<notin> X \<Longrightarrow> hget (hc_by_identity h) i \<noteq> Some l"
  shows "coh X R B (K - {l}) F (h\<lparr>hc_sessions := hdel l (hc_sessions h)\<rparr>)"
proof -
  let ?h = "h\<lparr>hc_sessions := hdel l (hc_sessions h)\<rparr>"
  have ident: "session_identity k ?h = (if k = l then None else session_identity k h)" for k
    by (simp add: session_identity_def)
  have "sessions_ok ?h" using assms(1) by (auto simp: coh_def sessions_ok_def)
  moreover have "membership R ?h" "rooms_ok F ?h" using assms(1) by (simp_all add: coh_def membership_def rooms_ok_def)
  moreover have "bans_ok X B ?h" "klines_ok (K - {l}) ?h"
    using assms(1) unfolding coh_def bans_ok_def klines_ok_def ident by (auto split: if_splits)
  moreover have "index_ok X ?h" using assms(1,3) unfolding coh_def index_ok_def ident by auto
  ultimately show ?thesis by (simp add: coh_def)
qed

lemma rooms_of_delete: "rooms_of (h\<lparr>hc_sessions := hdel l (hc_sessions h)\<rparr>) = (rooms_of h)(l := {})"
  by (rule ext) (simp add: rooms_of_def)

lemma rooms_of_bond:
  "(\<And>k. map_option bond (hub_session_of h' k) = map_option bond (hub_session_of h k)) \<Longrightarrow> rooms_of h' = rooms_of h"
proof
  fix k
  assume "\<And>k. map_option bond (hub_session_of h' k) = map_option bond (hub_session_of h k)"
  then have "map_option bond (hub_session_of h' k) = map_option bond (hub_session_of h k)" .
  then show "rooms_of h' k = rooms_of h k"
    by (cases "hub_session_of h k"; cases "hub_session_of h' k") (simp_all add: rooms_of_def bond_def)
qed

end
