(* ===== verification/Hub_Invariant.thy ===== *)
theory Hub_Invariant
  imports Hub_Coherent
begin

text \<open>
  Every handler of the hub preserves the invariant \<open>hub_ok\<close> of theory \<open>Hub_Coherent\<close>, and so it holds in
  every state the hub reaches.
\<close>

section \<open>Closing a session\<close>

lemma close_session_ok:
  assumes "hub_but X B K h"
  shows "hub_but X B (K - {l}) (fst (close_session ev l reason h))"
proof -
  let ?h = "h\<lparr>hc_admission := forget_link l (hc_admission h)\<rparr>"
  have h: "hub_but X B K ?h" by (rule hub_but_core [OF assms bookless_core]) simp
  show ?thesis
  proof (cases "hub_session_of h l")
    case None
    then have "session_identity l h = None" by (simp add: session_identity_def)
    then have "klines_ok (K - {l}) ?h"
      using h unfolding hub_but_def coh_def klines_ok_def by (auto simp: session_identity_def)
    then show ?thesis using None h by (simp add: close_session_def hub_but_def coh_def)
  next
    case (Some s)
    define h1 where "h1 = push_event (Ev_SessionClosed l reason (ev_instant ev - hs_established_at s)) ?h"
    have c1: "coh X (rooms_of h1) B K {} h1"
      using hub_but_core [OF assms, of h1] by (simp add: hub_but_def h1_def bookless_core)
    have s1: "hub_session_of h1 l = Some s" using Some by (simp add: h1_def push_event_def)
    show ?thesis
    proof (cases "hs_identity s")
      case None
      then have "hs_rooms s = []" using c1 s1 by (simp add: coh_def sessions_ok_def)
      then have "rooms_of h1 l = {}" using s1 by (simp add: rooms_of_def)
      moreover have "index_ok X h1" "session_identity l h1 = None"
        using c1 s1 None by (simp_all add: coh_def session_identity_def)
      then have "l \<notin> X \<Longrightarrow> hget (hc_by_identity h1) j \<noteq> Some l" for j unfolding index_ok_def by fastforce
      ultimately have "coh X (rooms_of h1) B (K - {l}) {} (h1\<lparr>hc_sessions := hdel l (hc_sessions h1)\<rparr>)"
        using c1 by (intro coh_delete_session)
      then show ?thesis using Some None \<open>rooms_of h1 l = {}\<close>
        by (simp add: close_session_def Let_def h1_def [symmetric] hub_but_def rooms_of_delete fun_upd_idem)
    next
      case (Some i)
      define h2 where "h2 = (if hget (hc_by_identity h1) i = Some l
        then h1\<lparr>hc_by_identity := hdel i (hc_by_identity h1)\<rparr> else h1)"
      have ident: "session_identity k h2 = session_identity k h1" for k by (simp add: h2_def session_identity_def)
      have parts: "hc_sessions h2 = hc_sessions h1" "hc_rooms h2 = hc_rooms h1" "hc_klines h2 = hc_klines h1"
          "hc_config h2 = hc_config h1" by (simp_all add: h2_def)
      have "index_ok X h2" using c1 unfolding coh_def index_ok_def ident
        by (auto simp: h2_def split: if_splits)
      then have c2: "coh X (rooms_of h1) B K {} h2" using c1
        by (simp add: coh_def sessions_ok_def membership_def rooms_ok_def bans_ok_def klines_ok_def ident parts)
      have idx: "index_ok X h1" and il: "session_identity l h1 = Some i"
        using c1 s1 Some by (simp_all add: coh_def session_identity_def)
      have no: "hget (hc_by_identity h2) j \<noteq> Some l" if out: "l \<notin> X" for j
      proof
        assume a: "hget (hc_by_identity h2) j = Some l"
        then have b: "hget (hc_by_identity h1) j = Some l" by (simp add: h2_def split: if_splits)
        then have "j = i" using idx il out unfolding index_ok_def by fastforce
        then show False using a b by (simp add: h2_def)
      qed
      define expires where "expires = (if leases_rejoin reason \<and> 0 < cf_rejoin_grace_secs (hc_config ?h)
        then Some (ev_now_unix ev + cf_rejoin_grace_secs (hc_config ?h)) else None)"
      define h3 where "h3 = fst (for_each (leave_room_on_close ev expires l i (hs_nickname s)) (hs_rooms s) h2)"
      have R: "(rooms_of h1)(l := rooms_of h1 l - set (hs_rooms s)) = (rooms_of h1)(l := {})"
        using s1 by (simp add: rooms_of_def)
      have c3: "coh X ((rooms_of h1)(l := {})) B K {} h3"
        and bond3: "\<And>k. map_option bond (hub_session_of h3 k) = map_option bond (hub_session_of h1 k)"
        and by3: "\<And>j. hget (hc_by_identity h3) j = hget (hc_by_identity h2) j"
        using leave_rooms_on_close_ok [OF c2, of l "hs_rooms s" ev expires i "hs_nickname s"]
        unfolding R by (simp_all add: h3_def parts)
      have "coh X ((rooms_of h1)(l := {})) B (K - {l}) {} (h3\<lparr>hc_sessions := hdel l (hc_sessions h3)\<rparr>)"
        by (rule coh_delete_session [OF c3]) (simp_all add: by3 no)
      then have "hub_but X B (K - {l}) (h3\<lparr>hc_sessions := hdel l (hc_sessions h3)\<rparr>)"
        by (simp add: hub_but_def rooms_of_delete rooms_of_bond [OF bond3])
      moreover have "fst (close_session ev l reason h) = h3\<lparr>hc_sessions := hdel l (hc_sessions h3)\<rparr>"
        using \<open>hub_session_of h l = Some s\<close> Some
        by (simp add: close_session_def Let_def case_prod_unfold h1_def [symmetric] h2_def [symmetric] h3_def
            expires_def)
      ultimately show ?thesis by simp
    qed
  qed
qed

lemma close_all_ok:
  assumes "\<And>x h. fst (f x h) = fst (close_session ev (link x) (reason x) h)"
  shows "hub_but X B K h \<Longrightarrow> hub_but X B (K - link ` set xs) (fst (for_each f xs h))"
proof (induction xs arbitrary: K h)
  case (Cons x xs)
  have "hub_but X B (K - {link x}) (fst (f x h))" using Cons.prems by (simp add: assms close_session_ok)
  from Cons.IH [OF this] show ?case by (simp add: fst_then_do Diff_insert2 [symmetric] Diff_insert [symmetric])
qed simp

section \<open>Bans and k-lines\<close>

text \<open>A ban is in force once the links of the banned identity were ejected.\<close>

lemma ban_eject_ok:
  assumes "hub_ok X h" and core: "same_core (upd_room r (\<lambda>rm. rm\<lparr>hr_bans := hadd target (hr_bans rm)\<rparr>) h) h0"
    and ks: "set (room_links_for_identity h r target) \<subseteq> set ks"
  shows "hub_ok X (fst (for_each (eject_link ev r target reason) ks h0))"
proof -
  define f where "f (rm :: hub_room) = rm\<lparr>hr_bans := hadd target (hr_bans rm)\<rparr>" for rm
  define hb where "hb = upd_room r f h"
  have parts: "rooms_of hb = rooms_of h" "hc_sessions hb = hc_sessions h" "hc_by_identity hb = hc_by_identity h"
      "hc_config hb = hc_config h" "hc_klines hb = hc_klines h"
    by (simp_all add: hb_def upd_room_def rooms_of_def fun_eq_iff)
  have room: "hub_room_of hb r' = (if r' = r then map_option f (hub_room_of h r) else hub_room_of h r')" for r'
    by (simp add: hb_def upd_room_def)
  have ident: "session_identity k hb = session_identity k h" for k by (simp add: hb_def)
  have old: "coh X (rooms_of h) {} {} {} h" using assms(1) by (simp add: hub_ok_def hub_but_def)
  have "bans_ok X {(r, k) | k. k \<in> set ks} hb"
    unfolding bans_ok_def ident
  proof (intro allI impI)
    fix r' rm k i
    assume rm: "hub_room_of hb r' = Some rm" "k \<in> set (hr_members rm)" "session_identity k h = Some i" "i \<in> set (hr_bans rm)"
    show "k \<in> X \<or> (r', k) \<in> {(r, k) | k. k \<in> set ks}"
    proof (cases "k \<in> X \<or> r' \<noteq> r")
      case False
      then obtain rm0 where rm0: "hub_room_of h r = Some rm0" "rm = f rm0" using rm(1) room by auto
      have "i \<notin> set (hr_bans rm0)" using old rm rm0 False by (auto simp: coh_def bans_ok_def f_def)
      then have "i = target" using rm(4) rm0(2) by (simp add: f_def)
      then have "k \<in> set (room_links_for_identity h r target)"
        using rm rm0 by (simp add: room_links_for_identity_def f_def)
      then show ?thesis using False ks by auto
    next
      case True
      then show ?thesis using rm room old by (auto simp: coh_def bans_ok_def)
    qed
  qed
  moreover have "rooms_ok {} hb"
    using old unfolding coh_def rooms_ok_def room by (fastforce simp: f_def split: if_splits)
  moreover have "sessions_ok hb" "membership (rooms_of h) hb" "klines_ok {} hb" "index_ok X hb"
    using old unfolding coh_def sessions_ok_def membership_def klines_ok_def index_ok_def ident parts room
    by (auto simp: f_def hb_def upd_room_def)
  ultimately have "hub_but X {(r, k) | k. k \<in> set ks} {} hb" by (simp add: hub_but_def coh_def parts)
  then have "hub_but X {(r, k) | k. k \<in> set ks} {} h0"
    by (rule hub_but_core) (use core in \<open>simp add: hb_def f_def [abs_def]\<close>)
  note all = but_eject_all [OF this, of ev r target reason ks]
  define h1 where "h1 = fst (for_each (eject_link ev r target reason) ks h0)"
  have h1: "hub_but X {(r, k) | k. k \<in> set ks} {} h1" "\<And>k. k \<in> set ks \<Longrightarrow> r \<notin> rooms_of h1 k"
    using all by (simp_all add: h1_def)
  have "bans_ok X {} h1"
    unfolding bans_ok_def
  proof (intro allI impI)
    fix r' rm k i
    assume "hub_room_of h1 r' = Some rm" "k \<in> set (hr_members rm)" "session_identity k h1 = Some i" "i \<in> set (hr_bans rm)"
    moreover from this have "r' \<in> rooms_of h1 k" using h1(1) by (auto simp: hub_but_def coh_def membership_def)
    ultimately show "k \<in> X \<or> (r', k) \<in> {}" using h1 unfolding hub_but_def coh_def bans_ok_def by blast
  qed
  then show ?thesis using h1(1) by (simp add: hub_ok_def hub_but_def coh_def h1_def)
qed

lemma core_ban_update:
  "same_core (upd_room r (\<lambda>rm. rm\<lparr>hr_bans := hadd target (hr_bans rm)\<rparr>) h)
     (upd_room r (\<lambda>rm. rm\<lparr>hr_bans := hadd target (hr_bans rm), hr_rejoin_until := hdel target (hr_rejoin_until rm)\<rparr>) h)"
  by (auto simp: same_core_def upd_room_def option.map_comp comp_def hard_def)

lemma links_upd_room:
  "(\<And>rm. hr_members (f rm) = hr_members rm) \<Longrightarrow> room_links_for_identity (upd_room r f h) r t = room_links_for_identity h r t"
  by (cases "hub_room_of h r") (simp_all add: room_links_for_identity_def, simp_all add: upd_room_def session_identity_def)

lemma ban_add_ok:
  assumes "hub_ok X h"
  shows "hub_ok X (fst (ban_add ev l r raw target h))"
proof -
  let ?f = "\<lambda>rm. rm\<lparr>hr_bans := hadd target (hr_bans rm), hr_rejoin_until := hdel target (hr_rejoin_until rm)\<rparr>"
  let ?h1 = "fst (for_each (eject_link ev r target (lit ''banned from '' @ r))
    (room_links_for_identity (upd_room r ?f h) r target) (upd_room r ?f h))"
  have "hub_ok X ?h1" by (rule ban_eject_ok [OF assms core_ban_update]) (simp add: links_upd_room)
  moreover have "same_core ?h1 (note_moderated ev l r Mod_Ban (Some target) (fst (persist_room ev r (Some l) ?h1)))"
    by (rule same_core_trans [OF core_persist_room bookless_core]) simp
  ultimately show ?thesis unfolding hub_ok_def
    by (simp add: ban_add_def fst_run_all quietly_def hub_but_core)
qed

lemma links_of_iff: "hwf (hc_sessions h) \<Longrightarrow> k \<in> set (links_of h target) \<longleftrightarrow> session_identity k h = Some target"
  by (force simp: links_of_def session_identity_def hget_in bind_eq_Some_conv image_iff)

text \<open>A k-line is in force once the sessions of the identity were closed.\<close>

lemma kline_close_ok:
  assumes "hub_ok X h" and core: "same_core (h\<lparr>hc_klines := hadd target (hc_klines h)\<rparr>) h1"
  shows "hub_ok X (fst (for_each (disconnect_link ev) (links_of h1 target) h1))"
proof -
  define h0 where "h0 = h\<lparr>hc_klines := hadd target (hc_klines h)\<rparr>"
  have old: "coh X (rooms_of h) {} {} {} h" using assms by (simp add: hub_ok_def hub_but_def)
  have ident: "session_identity k h0 = session_identity k h" for k by (simp add: h0_def session_identity_def)
  have "klines_ok (set (links_of h0 target)) h0"
  proof -
    have "hwf (hc_sessions h0)" using old by (simp add: h0_def coh_def sessions_ok_def)
    then show ?thesis using old links_of_iff [of h0] unfolding klines_ok_def coh_def ident by (auto simp: h0_def)
  qed
  then have "hub_but X {} (set (links_of h0 target)) h0"
    using old unfolding hub_but_def coh_def sessions_ok_def membership_def rooms_ok_def bans_ok_def index_ok_def ident
    by (simp add: h0_def rooms_of_def)
  then have h1: "hub_but X {} (set (links_of h0 target)) h1" using hub_but_core core unfolding h0_def by blast
  have "k \<in> set (links_of h0 target) \<longleftrightarrow> k \<in> set (links_of h1 target)" for k
    using h1 same_core_session(4) [OF core, of k] old links_of_iff [of h0 k target] links_of_iff [of h1 k target]
    by (simp add: hub_but_def coh_def sessions_ok_def h0_def)
  then have eq: "set (links_of h0 target) = set (links_of h1 target)" by auto
  show ?thesis
    using close_all_ok [of "disconnect_link ev" ev id "\<lambda>_. Close_Kicked", OF _ h1, of "links_of h1 target"]
    by (simp add: hub_ok_def disconnect_link_def fst_then_do eq)
qed

lemma kline_add_ok:
  assumes "hub_ok X h"
  shows "hub_ok X (fst (kline_add ev l target h))"
proof -
  let ?h0 = "h\<lparr>hc_klines := hadd target (hc_klines h)\<rparr>"
  have "same_core ?h0 (note_trust_changed ev l Kline_Added target (fst (persist_klines ev (Some l) (forget_leases target ?h0))))"
    by (rule same_core_trans [OF core_forget_leases bookless_core]) simp
  from kline_close_ok [OF assms this] show ?thesis
    by (simp add: kline_add_def Let_def fst_run_all quietly_def)
qed

section \<open>Joining\<close>

text \<open>What a room becomes when a link joins it: only the members change, apart from bookkeeping.\<close>

lemma coh_add_member:
  assumes "coh X R B K F h" and "hub_room_of h r = Some rm0" and "\<And>i. session_identity l h = Some i \<Longrightarrow> i \<notin> set (hr_bans rm0)"
    and f: "\<And>rm. hr_members (f rm) = hadd l (hr_members rm) \<and> hr_bans (f rm) = hr_bans rm \<and> hr_registered (f rm) = hr_registered rm"
  shows "coh X (R(l := insert r (R l))) B K (F - {r}) (upd_room r f h)"
proof -
  let ?h = "upd_room r f h"
  have room: "hub_room_of ?h r' = (if r' = r then Some (f rm0) else hub_room_of h r')" for r'
    using assms(2) by (simp add: upd_room_def)
  have parts: "hc_sessions ?h = hc_sessions h" "hc_by_identity ?h = hc_by_identity h" "hc_config ?h = hc_config h"
      "hc_klines ?h = hc_klines h" by (simp_all add: upd_room_def)
  have set: "set (hadd l xs) = insert l (set xs)" "hadd l xs \<noteq> []" for xs :: "bytes list"
    by (auto simp: hadd_def split: if_splits)
  have "sessions_ok ?h" using assms(1) unfolding coh_def sessions_ok_def parts by (simp add: upd_room_def)
  moreover have "membership (R(l := insert r (R l))) ?h"
    using assms(1,2) f unfolding coh_def membership_def room by (auto simp: set)
  moreover have "rooms_ok (F - {r}) ?h" using assms(1,2) f unfolding coh_def rooms_ok_def room by (auto simp: set)
  moreover have "bans_ok X B ?h"
    using assms(1,2,3) f unfolding coh_def bans_ok_def room by (auto simp: set split: if_splits)
  moreover have "klines_ok K ?h" "index_ok X ?h" using assms(1) by (simp_all add: coh_def klines_ok_def index_ok_def parts)
  ultimately show ?thesis by (simp add: coh_def)
qed

lemma coh_list_room:
  assumes "coh X R B K F h" and s: "hub_session_of h l = Some s" "hs_identity s \<noteq> None"
    and "r \<in> set (hs_rooms s) \<or> length (hs_rooms s) < cf_max_rooms_per_session (hc_config h)"
  shows "coh X R B K F (upd_session l (\<lambda>s. s\<lparr>hs_rooms := hadd r (hs_rooms s)\<rparr>) h)"
proof -
  let ?h = "upd_session l (\<lambda>s. s\<lparr>hs_rooms := hadd r (hs_rooms s)\<rparr>) h"
  have ident: "session_identity k ?h = session_identity k h" for k by (rule session_identity_upd) simp
  have parts: "hc_rooms ?h = hc_rooms h" "hc_by_identity ?h = hc_by_identity h" "hc_config ?h = hc_config h"
      "hc_klines ?h = hc_klines h" by (simp_all add: upd_session_def)
  have len: "length (hadd r (hs_rooms s)) \<le> cf_max_rooms_per_session (hc_config h)"
    using assms(1,4) s by (auto simp: coh_def sessions_ok_def length_hadd)
  have "sessions_ok ?h"
    using assms(1) s len unfolding coh_def sessions_ok_def parts by (auto simp: upd_session_def)
  then show ?thesis using assms(1)
    by (simp add: coh_def membership_def rooms_ok_def bans_ok_def klines_ok_def index_ok_def ident parts)
qed

lemma rooms_of_list_room:
  "hub_session_of h l = Some s \<Longrightarrow>
    rooms_of (upd_session l (\<lambda>s. s\<lparr>hs_rooms := hadd r (hs_rooms s)\<rparr>) h) = (rooms_of h)(l := insert r (rooms_of h l))"
  by (rule ext) (simp add: rooms_of_def upd_session_def)

lemma admit_member_ok:
  assumes h: "coh X (rooms_of h) {} {} {r} h" and s: "hub_session_of h l = Some s" "hs_identity s = Some i"
    and "r \<in> set (hs_rooms s) \<or> length (hs_rooms s) < cf_max_rooms_per_session (hc_config h)"
    and rm: "hub_room_of h r = Some room" "i \<notin> set (hr_bans room)"
  shows "hub_ok X (fst (admit_member ev l i r room h))"
proof -
  let ?f = "\<lambda>rm. rm\<lparr>hr_members := hadd l (hr_members rm), hr_invited := hdel i (hr_invited rm),
    hr_rejoin_until := hdel i (hr_rejoin_until rm)\<rparr>"
  let ?c = "hget (hr_invited room) i \<noteq> None"
  define h1 where "h1 = upd_room r ?f h"
  define h3 where "h3 = (if ?c then fst (persist_room ev r (Some l) (touch_room ev r h1)) else touch_room ev r h1)"
  have "coh X ((rooms_of h)(l := insert r (rooms_of h l))) {} {} ({r} - {r}) h1"
    unfolding h1_def by (rule coh_add_member [OF h rm(1)]) (use rm s in \<open>auto simp: session_identity_def\<close>)
  then have c1: "coh X ((rooms_of h)(l := insert r (rooms_of h l))) {} {} {} h1" by simp
  have core: "same_core h1 h3"
    using same_core_trans [OF core_touch_room core_persist_room] core_touch_room by (simp add: h3_def)
  have c3: "coh X ((rooms_of h)(l := insert r (rooms_of h l))) {} {} {} h3" by (rule coh_core [OF c1 core])
  have s1: "hub_session_of h1 l = Some s" using s by (simp add: h1_def upd_room_def)
  obtain s3 where s3: "hub_session_of h3 l = Some s3" "hs_identity s3 = Some i" "hs_rooms s3 = hs_rooms s"
    using same_core_session(3) [OF core s1] s by auto
  have cfg: "hc_config h3 = hc_config h" using core by (simp add: same_core_def h1_def upd_room_def)
  let ?h4 = "upd_session l (\<lambda>s. s\<lparr>hs_rooms := hadd r (hs_rooms s)\<rparr>) h3"
  have "coh X ((rooms_of h)(l := insert r (rooms_of h l))) {} {} {} ?h4"
    by (rule coh_list_room [OF c3 s3(1)]) (use s3 assms(4) cfg in auto)
  moreover have "rooms_of ?h4 = (rooms_of h)(l := insert r (rooms_of h l))"
    unfolding rooms_of_list_room [OF s3(1)] rooms_of_core [OF core]
    by (simp add: h1_def upd_room_def rooms_of_def fun_eq_iff)
  ultimately have "hub_ok X ?h4" by (simp add: hub_ok_def hub_but_def)
  moreover have "bookless (fst (admit_member ev l i r room h)) = bookless ?h4"
    by (simp add: admit_member_def Let_def case_prod_unfold h1_def h3_def)
  ultimately show ?thesis unfolding hub_ok_def by (rule but.P_books [rotated])
qed

lemma on_join_ok:
  assumes "hub_ok X h" and "session_identity l h = Some i"
  shows "hub_ok X (fst (on_join ev l en h))"
proof -
  obtain s where s: "hub_session_of h l = Some s" "hs_identity s = Some i"
    using assms(2) by (auto simp: session_identity_def bind_eq_Some_conv)
  have c: "coh X (rooms_of h) {} {} {} h" using assms(1) by (simp add: hub_ok_def hub_but_def)
  have wide: "coh X (rooms_of h) {} {} {r} h" for r using c by (auto simp: coh_def rooms_ok_def)
  show ?thesis
  proof (cases "present_room en")
    case (Some raw)
    show ?thesis
    proof (cases "norm_room ev h raw")
      case (Inr r)
      let ?full = "r \<notin> set (hs_rooms s) \<and> cf_max_rooms_per_session (hc_config h) \<le> length (hs_rooms s)"
      let ?start = "hub_room_default\<lparr>hr_ops := [i]\<rparr>"
      let ?h1 = "h\<lparr>hc_rooms := hput r ?start (hc_rooms h)\<rparr>"
      have new: "hub_ok X (fst (admit_member ev l i r ?start ?h1))"
        if "hub_room_of h r = None" "\<not> ?full"
      proof (rule admit_member_ok)
        have "r \<notin> rooms_of h k" for k using c that(1) by (auto simp: coh_def membership_def)
        then show "coh X (rooms_of ?h1) {} {} {r} ?h1"
          using c that(1) unfolding coh_def sessions_ok_def membership_def rooms_ok_def bans_ok_def klines_ok_def index_ok_def
          by (auto simp: rooms_of_def hub_room_default_def split: if_splits)
      qed (use s that in \<open>auto simp: hub_room_default_def\<close>)
      have none: "join_refusal ev ?h1 ?start r i en = None"
        by (simp add: join_refusal_def hub_room_default_def Let_def)
      have old: "hub_ok X (fst (admit_member ev l i r room h))"
        if "hub_room_of h r = Some room" "\<not> ?full" "join_refusal ev h room r i en = None" for room
        by (rule admit_member_ok [OF wide s]) (use that in \<open>auto simp: join_refusal_def Let_def split: if_splits\<close>)
      show ?thesis
      proof (cases "hub_room_of h r")
        case None
        then show ?thesis using assms s Some Inr new none by (simp add: on_join_def Let_def)
      next
        case (Some room)
        then show ?thesis using assms s \<open>present_room en = Some raw\<close> Inr old [OF Some]
          by (auto simp: on_join_def Let_def split: option.splits)
      qed
    qed (use assms Some in \<open>simp add: on_join_def\<close>)
  qed (use assms in \<open>simp add: on_join_def\<close>)
qed

end
