(* ===== verification/Hub_Run.thy ===== *)
theory Hub_Run
  imports Hub_Invariant
begin

text \<open>
  The hub as a state machine: the inputs that the service loop hands to \<open>HubCore\<close>, and the runs they
  make.  Every state of a run satisfies the invariant.
\<close>

section \<open>Room updates and links\<close>

lemma coh_upd_room:
  assumes "coh X R B K F h" and "\<And>rm. hr_members (f rm) = hr_members rm \<and> set (hr_bans (f rm)) \<subseteq> set (hr_bans rm) \<and>
      (hr_registered rm \<or> r \<in> F \<longrightarrow> hr_registered (f rm) \<or> r \<in> F')" and "F - {r} \<subseteq> F'"
  shows "coh X R B K F' (upd_room r f h)"
proof -
  let ?h = "upd_room r f h"
  have room: "hub_room_of ?h r' = (if r' = r then map_option f (hub_room_of h r) else hub_room_of h r')" for r'
    by (simp add: upd_room_def)
  have parts: "hc_sessions ?h = hc_sessions h" "hc_by_identity ?h = hc_by_identity h" "hc_config ?h = hc_config h"
      "hc_klines ?h = hc_klines h" by (simp_all add: upd_room_def)
  have "membership R ?h"
    using assms(1,2) unfolding coh_def membership_def room by (auto split: if_splits)
  moreover have "rooms_ok F' ?h"
    unfolding rooms_ok_def room
  proof (intro allI impI)
    fix r' rm
    assume "(if r' = r then map_option f (hub_room_of h r) else hub_room_of h r') = Some rm"
    then obtain rm0 where "hub_room_of h r' = Some rm0" "rm = (if r' = r then f rm0 else rm0)"
      by (auto split: if_splits)
    moreover from this have "distinct (hr_members rm0) \<and> (hr_registered rm0 \<or> hr_members rm0 \<noteq> [] \<or> r' \<in> F)"
      using assms(1) by (auto simp: coh_def rooms_ok_def)
    ultimately show "distinct (hr_members rm) \<and> (hr_registered rm \<or> hr_members rm \<noteq> [] \<or> r' \<in> F')"
      using assms(2) [of rm0] assms(3) by auto
  qed
  moreover have "bans_ok X B ?h"
    unfolding bans_ok_def room
  proof (intro allI impI)
    fix r' rm l i
    assume "(if r' = r then map_option f (hub_room_of h r) else hub_room_of h r') = Some rm"
      and hyp: "l \<in> set (hr_members rm)" "session_identity l ?h = Some i" "i \<in> set (hr_bans rm)"
    then obtain rm0 where "hub_room_of h r' = Some rm0" "rm = (if r' = r then f rm0 else rm0)"
      by (auto split: if_splits)
    moreover from this have "l \<in> set (hr_members rm0)" "i \<in> set (hr_bans rm0)" "session_identity l h = Some i"
      using assms(2) [of rm0] hyp by (auto split: if_splits)
    ultimately show "l \<in> X \<or> (r', l) \<in> B" using assms(1) unfolding coh_def bans_ok_def by blast
  qed
  moreover have "sessions_ok ?h" "klines_ok K ?h" "index_ok X ?h"
    using assms(1) by (simp_all add: coh_def sessions_ok_def klines_ok_def index_ok_def parts) (simp add: upd_room_def)
  ultimately show ?thesis by (simp add: coh_def)
qed

lemma rooms_of_upd_room [simp]: "rooms_of (upd_room r f h) = rooms_of h"
  by (rule ext) (simp add: rooms_of_def upd_room_def)

lemma hub_ok_calm: "hub_ok X h \<Longrightarrow> calm f \<Longrightarrow> hub_ok X (upd_room r f h)"
  unfolding hub_ok_def hub_but_def rooms_of_upd_room by (rule coh_upd_room) (auto simp: calm_def)

lemma hub_ok_unregister:
  assumes "hub_ok X h" and "hub_room_of h r = Some room"
  shows "hub_ok X (drop_room_if_empty r (hr_members room = []) (unregistered r h))"
proof -
  have c: "coh X (rooms_of h) {} {} {r} (unregistered r h)"
    unfolding unregistered_def using assms(1) by (intro coh_upd_room) (auto simp: hub_ok_def hub_but_def)
  have same: "rooms_of (unregistered r h) = rooms_of h" by (simp add: unregistered_def)
  have room: "hub_room_of (unregistered r h) r = Some (room\<lparr>hr_registered := False, hr_rejoin_until := []\<rparr>)"
    using assms(2) by (simp add: unregistered_def upd_room_def)
  show ?thesis
  proof (cases "hr_members room = []")
    case True
    let ?h = "(unregistered r h)\<lparr>hc_rooms := hdel r (hc_rooms (unregistered r h))\<rparr>"
    have "membership (rooms_of h) ?h"
      unfolding membership_def
    proof (intro allI)
      fix k r'
      have "r' \<in> rooms_of h k \<longleftrightarrow> (\<exists>rm. hub_room_of (unregistered r h) r' = Some rm \<and> k \<in> set (hr_members rm))"
        using c by (simp add: coh_def membership_def)
      then show "r' \<in> rooms_of h k \<longleftrightarrow> (\<exists>rm. hub_room_of ?h r' = Some rm \<and> k \<in> set (hr_members rm))"
        using room True by (cases "r' = r") simp_all
    qed
    then have "coh X (rooms_of h) {} {} {} ?h"
      using c by (auto simp: coh_def sessions_ok_def rooms_ok_def bans_ok_def klines_ok_def index_ok_def split: if_splits)
    moreover have "rooms_of ?h = rooms_of h" using same by (simp add: rooms_of_def fun_eq_iff)
    ultimately show ?thesis using True by (simp add: drop_room_if_empty_def hub_ok_def hub_but_def)
  next
    case False
    have "rooms_ok {} (unregistered r h)"
      unfolding rooms_ok_def
    proof (intro allI impI)
      fix r' rm
      assume rm: "hub_room_of (unregistered r h) r' = Some rm"
      then have "distinct (hr_members rm) \<and> (hr_registered rm \<or> hr_members rm \<noteq> [] \<or> r' = r)"
        using c by (auto simp: coh_def rooms_ok_def)
      then show "distinct (hr_members rm) \<and> (hr_registered rm \<or> hr_members rm \<noteq> [] \<or> r' \<in> {})"
        using rm room False by (cases "r' = r") auto
    qed
    then have "coh X (rooms_of h) {} {} {} (unregistered r h)" using c by (simp add: coh_def)
    then show ?thesis using False same by (simp add: drop_room_if_empty_def hub_ok_def hub_but_def)
  qed
qed

lemma hub_ok_core: "hub_ok X h \<Longrightarrow> same_core h h' \<Longrightarrow> hub_ok X h'"
  by (simp add: hub_ok_def hub_but_core)

lemma hub_ok_unkline: "hub_ok X h \<Longrightarrow> hub_ok X (h\<lparr>hc_klines := hrem target (hc_klines h)\<rparr>)"
  by (auto simp: hub_ok_def hub_but_def coh_def coh_defs rooms_of_def session_identity_def)

interpretation member: governed "hub_ok X" l i for X l i
proof
  fix h h' r room t f ev target reason links raw now en
  show "hub_ok X h \<Longrightarrow> same_core h h' \<Longrightarrow> hub_ok X h'" by (rule hub_ok_core)
  show "hub_ok X h \<Longrightarrow> hub_ok X (upd_room r (set_topic t) h)" by (rule hub_ok_calm [OF _ calm_intros(1)])
  show "hub_ok X h \<Longrightarrow> calm f \<Longrightarrow> hub_ok X (upd_room r f h)" by (rule hub_ok_calm)
  show "hub_ok X h \<Longrightarrow> hub_ok X (fst (for_each (eject_link ev r target reason) links h))"
    using but_eject_all by (simp add: hub_ok_def)
  show "hub_ok X h \<Longrightarrow> hub_ok X (fst (ban_add ev l r raw target h))" by (rule ban_add_ok)
  show "hub_ok X h \<Longrightarrow> hub_ok X (fst (kline_add ev l target h))" by (rule kline_add_ok)
  show "hub_ok X h \<Longrightarrow> hub_ok X (h\<lparr>hc_klines := hrem target (hc_klines h)\<rparr>)" by (rule hub_ok_unkline)
  show "hub_ok X h \<Longrightarrow> hub_ok X (upd_room r (registered_by i now) h)"
    unfolding hub_ok_def hub_but_def rooms_of_upd_room by (rule coh_upd_room) (auto simp: registered_by_def)
  show "hub_ok X h \<Longrightarrow> hub_room_of h r = Some room \<Longrightarrow>
      hub_ok X (drop_room_if_empty r (hr_members room = []) (unregistered r h))" by (rule hub_ok_unregister)
  show "hub_ok X h \<Longrightarrow> session_identity l h = Some i \<Longrightarrow> hub_ok X (fst (on_join ev l en h))" by (rule on_join_ok)
  show "hub_ok X h \<Longrightarrow> hub_ok X (drop_member r l (upd_session l (\<lambda>s. s\<lparr>hs_rooms := hrem r (hs_rooms s)\<rparr>) h))"
    using but_leave [of X "{}" "{}" h r l] by (simp add: hub_ok_def forget_room_def)
qed

section \<open>Establishing and identifying\<close>

lemma established_session:
  "hub_session_of (on_link_established ev l h) k =
    (if k = l \<and> hub_session_of h l = None
     then Some (hub_session_new (ev_instant ev) (cf_rate_messages_per_minute (hc_config h))) else hub_session_of h k)"
  by (simp add: on_link_established_def)

lemma established_identity [simp]: "session_identity k (on_link_established ev l h) = session_identity k h"
  by (simp add: session_identity_def established_session hub_session_new_def)

lemma rooms_of_established [simp]: "rooms_of (on_link_established ev l h) = rooms_of h"
  by (rule ext) (simp add: rooms_of_def established_session hub_session_new_def)

lemma established_parts [simp]:
  "hc_rooms (on_link_established ev l h) = hc_rooms h" "hc_klines (on_link_established ev l h) = hc_klines h"
  "hc_by_identity (on_link_established ev l h) = hc_by_identity h" "hc_config (on_link_established ev l h) = hc_config h"
  "hc_server_ops (on_link_established ev l h) = hc_server_ops h"
  by (simp_all add: on_link_established_def)

lemma hub_ok_established: "hub_ok X h \<Longrightarrow> hub_ok X (on_link_established ev l h)"
  unfolding hub_ok_def hub_but_def rooms_of_established
  by (simp add: coh_def membership_def rooms_ok_def bans_ok_def klines_ok_def index_ok_def)
    (auto simp: sessions_ok_def established_session hub_session_new_def on_link_established_def split: if_splits)

text \<open>A link that proves a second identity joins the exempt ones.\<close>

definition moved_links :: "bytes \<Rightarrow> bytes \<Rightarrow> hub_core \<Rightarrow> bytes set \<Rightarrow> bytes set" where
  "moved_links l i h X = (if session_identity l h = None \<or> session_identity l h = Some i then X else insert l X)"

lemma hub_ok_identify:
  assumes "hub_ok X h" and "hub_session_of h l \<noteq> None" and "i \<notin> set (hc_klines h)"
    and h': "h' = (upd_session l (\<lambda>s. s\<lparr>hs_identity := Some i\<rparr>) h)\<lparr>hc_by_identity := hput i l (hc_by_identity h)\<rparr>"
  shows "hub_ok (moved_links l i h X) h'"
proof -
  let ?X = "moved_links l i h X"
  have i: "session_identity l h \<in> {None, Some i}" if "l \<notin> ?X" using that by (simp add: moved_links_def split: if_splits)
  have sub: "X \<subseteq> ?X" by (auto simp: moved_links_def)
  obtain s where s: "hub_session_of h l = Some s" using assms(2) by auto
  have sess: "hub_session_of h' k = (if k = l then Some (s\<lparr>hs_identity := Some i\<rparr>) else hub_session_of h k)" for k
    using s by (simp add: h' upd_session_def)
  have ident: "session_identity k h' = (if k = l then Some i else session_identity k h)" for k
    by (simp add: session_identity_def sess)
  have parts: "hc_rooms h' = hc_rooms h" "hc_klines h' = hc_klines h" "hc_config h' = hc_config h"
      "hc_by_identity h' = hput i l (hc_by_identity h)" by (simp_all add: h' upd_session_def)
  have rooms: "rooms_of h' = rooms_of h" using s by (auto simp: rooms_of_def sess fun_eq_iff)
  have c: "coh X (rooms_of h) {} {} {} h" using assms(1) by (simp add: hub_ok_def hub_but_def)
  have "bans_ok ?X {} h'"
    unfolding bans_ok_def ident parts
  proof (intro allI impI disjI1)
    fix r rm k j
    assume a: "hub_room_of h r = Some rm" "k \<in> set (hr_members rm)" "(if k = l then Some i else session_identity k h) = Some j"
      "j \<in> set (hr_bans rm)"
    show "k \<in> ?X"
    proof (rule ccontr)
    assume out: "k \<notin> ?X"
    have "session_identity k h = Some j"
    proof (cases "k = l \<and> session_identity l h = None")
      case True
      then have "hs_rooms s = []" using c s by (simp add: coh_def sessions_ok_def session_identity_def)
      then have "rooms_of h l = {}" using s by (simp add: rooms_of_def)
      moreover have "r \<in> rooms_of h l" using c a True by (auto simp: coh_def membership_def)
      ultimately show ?thesis by simp
    qed (use a i out in \<open>auto split: if_splits\<close>)
    then show False using c a out sub unfolding coh_def bans_ok_def by blast
    qed
  qed
  moreover have "sessions_ok h'"
    using c s unfolding coh_def sessions_ok_def sess parts by (auto simp: h' upd_session_def)
  moreover have "klines_ok {} h'" using c assms(3) unfolding coh_def klines_ok_def ident parts by auto
  moreover have "index_ok ?X h'"
    unfolding index_ok_def ident parts
  proof (intro allI impI)
    fix j k
    assume a: "hget (hput i l (hc_by_identity h)) j = Some k" and out: "k \<notin> ?X"
    show "(if k = l then Some i else session_identity k h) = Some j"
    proof (cases "j = i")
      case False
      then have "session_identity k h = Some j" using c a out sub by (auto simp: coh_def index_ok_def)
      then show ?thesis using False out i by auto
    qed (use a in simp)
  qed
  ultimately have "coh ?X (rooms_of h) {} {} {} h'"
    using c by (simp add: coh_def membership_def rooms_ok_def parts)
  then show ?thesis by (simp add: hub_ok_def hub_but_def rooms)
qed

lemma on_link_identified_ok:
  assumes "hub_ok X h" and gate: "i \<in> set (hc_klines h) \<Longrightarrow> session_identity l h = None"
  shows "hub_ok (moved_links l i h X) (fst (on_link_identified ev l i h))"
proof (cases "i \<in> set (hc_klines h)")
  case True
  have c: "coh X (rooms_of h) {} {} {} h" using assms(1) by (simp add: hub_ok_def hub_but_def)
  have idx: "index_ok X h" using c by (simp add: coh_def)
  have none: "session_identity l h = None" by (rule gate [OF True])
  then have "rooms_of h l = {}"
    using c by (auto simp: rooms_of_def coh_def sessions_ok_def session_identity_def split: option.splits)
  moreover have "l \<notin> X \<Longrightarrow> hget (hc_by_identity h) j \<noteq> Some l" for j
    using idx none unfolding index_ok_def by fastforce
  ultimately have d: "coh X (rooms_of h) {} {} {} (h\<lparr>hc_sessions := hdel l (hc_sessions h)\<rparr>)"
    using coh_delete_session [OF c, of l] by simp
  then have "hub_ok X (h\<lparr>hc_sessions := hdel l (hc_sessions h)\<rparr>)"
    using \<open>rooms_of h l = {}\<close> by (simp add: hub_ok_def hub_but_def rooms_of_delete fun_upd_idem)
  then have "hub_ok X (h\<lparr>hc_sessions := hdel l (hc_sessions h), hc_admission := forget_link l (hc_admission h)\<rparr>)"
    by (rule member.P_books [rotated]) simp
  then show ?thesis using True none by (simp add: on_link_identified_def moved_links_def)
next
  case False
  let ?h1 = "on_link_established ev l h"
  let ?h3 = "(upd_session l (\<lambda>s. s\<lparr>hs_identity := Some i\<rparr>) ?h1)\<lparr>hc_by_identity := hput i l (hc_by_identity ?h1)\<rparr>"
  have "hub_ok (moved_links l i ?h1 X) ?h3"
    by (rule hub_ok_identify [OF hub_ok_established [OF assms(1)], where l = l and i = i])
      (use False in \<open>auto simp: established_session\<close>)
  then have "hub_ok (moved_links l i h X) ?h3" by (simp add: moved_links_def)
  moreover have "bookless (fst (on_link_identified ev l i h)) = bookless ?h3"
    using False by (simp add: on_link_identified_def Let_def upd_session_def)
  ultimately show ?thesis by (rule member.P_books [rotated])
qed

section \<open>Keepalive and resources\<close>

lemma ping_cycle_ok:
  assumes "hub_ok X h"
  shows "hub_ok X (fst (ping_cycle ev h))"
proof -
  define h1 where "h1 = report_throttle ev h"
  define h2 where "h2 = h1\<lparr>hc_rooms := hvals (\<lambda>rm. rm\<lparr>hr_rejoin_until :=
    hretain (\<lambda>expires. ev_now_unix ev < expires) (hr_rejoin_until rm)\<rparr>) (hc_rooms h1)\<rparr>"
  define n where "n = length (filter (\<lambda>(l, s). ping_verdict_of ev (hc_config h2) s = Ping_Send) (hc_sessions h2))"
  define dead where "dead = List.map_filter (\<lambda>(l, s). case ping_verdict_of ev (hc_config h2) s of
    Ping_Dead reason \<Rightarrow> Some (l, reason) | _ \<Rightarrow> None) (hc_sessions h2)"
  define h3 where "h3 = upd_stats (\<lambda>st. st\<lparr>st_pings_out := st_pings_out st + n\<rparr>)
    (h2\<lparr>hc_sessions := hvals (ping_session ev (hc_config h2)) (hc_sessions h2)\<rparr>)"
  have "same_core h h1" unfolding h1_def by (rule bookless_core) simp
  moreover have "same_core h1 h2" unfolding h2_def by (rule core_hvals_rooms) (simp add: hard_def)
  moreover have "same_core h2 (h2\<lparr>hc_sessions := hvals (ping_session ev (hc_config h2)) (hc_sessions h2)\<rparr>)"
    by (rule core_hvals_sessions) (simp add: ping_session_def bond_def)
  moreover have "same_core (h2\<lparr>hc_sessions := hvals (ping_session ev (hc_config h2)) (hc_sessions h2)\<rparr>) h3"
    unfolding h3_def by (rule bookless_core) simp
  ultimately have "same_core h h3" using same_core_trans by blast
  then have "hub_ok X h3" using hub_ok_core assms by blast
  then have "hub_but X {} ({} - fst ` set dead)
      (fst (for_each (\<lambda>(l, reason). then_do (close_session ev l reason) (saying (\<lambda>h. [Send_Close l]))) dead h3))"
    unfolding hub_ok_def by (intro close_all_ok [where reason = snd and ev = ev]) (auto simp: fst_then_do)
  then show ?thesis
    by (simp add: hub_ok_def ping_cycle_def Let_def case_prod_unfold h1_def h2_def h3_def n_def dead_def)
qed

lemma resource_steps_core:
  "same_core h (on_resource_started l x h)" "same_core h (on_outbound_resource_concluded l hash h)"
  "same_core h (resource_cycle now h)" "same_core h (on_inbound_resource_concluded l hash h)"
proof -
  show "same_core h (on_resource_started l x h)"
    unfolding on_resource_started_def by (rule core_upd_session) (simp add: bond_def)
  show "same_core h (on_outbound_resource_concluded l hash h)"
    unfolding on_outbound_resource_concluded_def by (rule core_upd_session) (simp add: bond_def split: option.splits)
  have "same_core h (h\<lparr>hc_sessions := hvals (expire_outbound now) (hc_sessions h)\<rparr>)"
    by (rule core_hvals_sessions) (simp add: expire_outbound_def bond_def split: option.splits)
  then show "same_core h (resource_cycle now h)"
    unfolding resource_cycle_def by (rule same_core_trans) (simp add: bookless_core)
  show "same_core h (on_inbound_resource_concluded l hash h)"
    unfolding on_inbound_resource_concluded_def by (rule bookless_core) simp
qed

lemma fan_out_core: "same_core h (fst (fan_out_resource_notice ev l i r t h))"
proof -
  have "same_core h (snd (spend_tokens ev l n h))" for n by (rule core_spend_tokens)
  then show ?thesis
    unfolding fan_out_resource_notice_def Let_def case_prod_unfold
    by (auto intro!: same_core_trans [OF core_spend_tokens bookless_core] simp: core_spend_tokens split: option.splits)
qed

lemma on_resource_completed_core: "same_core h (fst (on_resource_completed ev l hash payload m h))"
proof -
  have "same_core h h'" if "bookless h' = bookless h" for h' using that by (rule bookless_core)
  moreover have "same_core h (fst (fan_out_resource_notice ev l i r t h'))" if "bookless h' = bookless h" for h' i r t
    using same_core_trans [OF bookless_core [OF that] fan_out_core] .
  ultimately show ?thesis
    by (auto simp: on_resource_completed_def reject_resource_def Let_def case_prod_unfold split: option.splits)
qed

end
