(* ===== verification/Hub_Admin.thy ===== *)
theory Hub_Admin
  imports Hub_Commands
begin

text \<open>
  What the owner of the hub does from the app (\<open>channel_hub.rs\<close>, \<open>admin_*\<close>).  A mutation is checked
  completely before it changes anything, so its result is the error or the new state with the sends.
\<close>

datatype admin_code = Admin_Bad_Request | Admin_Forbidden | Admin_Not_Found | Admin_Conflict | Admin_Capacity_Reached

record admin_error =
  ae_code :: admin_code
  ae_message :: ustr

record room_policy =
  po_invite_only :: bool
  po_moderated :: bool
  po_no_outside_messages :: bool
  po_private :: bool
  po_topic_operators_only :: bool

datatype admin_role = Role_Operator | Role_Voice

datatype key_change = Key_Keep | Key_Set ustr | Key_Clear

datatype admin_mutation =
    Create_Channel ustr "ustr option" room_policy "ustr option"
  | Update_Channel ustr "ustr option" room_policy key_change
  | Unregister_Channel ustr
  | Set_Room_Role ustr bytes admin_role bool
  | Set_Room_Ban ustr bytes bool
  | Set_Invitation ustr bytes bool
  | Admin_Kick ustr bytes
  | Set_Hub_Ban bytes bool

type_synonym admin_result = "admin_error + hub_core \<times> hub_send list"

definition admin_fail :: "admin_code \<Rightarrow> ustr \<Rightarrow> admin_error + 'a" where
  "admin_fail code t = Inl \<lparr>ae_code = code, ae_message = t\<rparr>"

definition and_then :: "'e + 'a \<Rightarrow> ('a \<Rightarrow> 'e + 'b) \<Rightarrow> 'e + 'b" where
  "and_then r k = (case r of Inl e \<Rightarrow> Inl e | Inr x \<Rightarrow> k x)"

section \<open>Checks\<close>

definition admin_room_name :: "hub_env \<Rightarrow> hub_core \<Rightarrow> ustr \<Rightarrow> admin_error + ustr" where
  "admin_room_name ev h room =
    (case norm_room ev h room of
       Inl reason \<Rightarrow> admin_fail Admin_Bad_Request (lit ''Invalid channel name: '' @ reason)
     | Inr r \<Rightarrow> Inr r)"

definition admin_topic :: "hub_core \<Rightarrow> ustr option \<Rightarrow> admin_error + ustr option" where
  "admin_topic h topic =
    (case topic of
       None \<Rightarrow> Inr None
     | Some t \<Rightarrow>
         if cf_max_message_body_bytes (hc_config h) < str_len t
         then admin_fail Admin_Bad_Request (lit ''Topic is too long: '' @ dec_string (str_len t) @ lit '' bytes exceeds the '' @
           dec_string (cf_max_message_body_bytes (hc_config h)) @ lit '' byte limit'')
         else if list_ex is_control t then admin_fail Admin_Bad_Request (lit ''Topic cannot contain control characters'')
         else let trimmed = str_trim t in Inr (if trimmed = [] then None else Some trimmed))"

definition validate_admin_room_key :: "ustr \<Rightarrow> admin_error + unit" where
  "validate_admin_room_key key =
    (if str_len key < MIN_ROOM_KEY_BYTES then admin_fail Admin_Bad_Request (lit ''Join key must be at least 8 bytes'')
     else if MAX_ADMIN_ROOM_KEY_BYTES < str_len key then admin_fail Admin_Bad_Request (lit ''Join key cannot exceed 128 bytes'')
     else if list_ex is_whitespace key then admin_fail Admin_Bad_Request (lit ''Join key cannot contain whitespace'')
     else if list_ex is_control key then admin_fail Admin_Bad_Request (lit ''Join key cannot contain control characters'')
     else Inr ())"

definition admin_room_key_digest :: "hub_env \<Rightarrow> hub_core \<Rightarrow> ustr \<Rightarrow> ustr \<Rightarrow> admin_error + room_key" where
  "admin_room_key_digest ev h r key =
    and_then (validate_admin_room_key key)
      (\<lambda>_. Inr (room_key_digest ev (hc_pepper h) (hc_pepper_id h) r key (ev_salt ev)))"

definition policy_differs :: "room_policy \<Rightarrow> hub_room \<Rightarrow> bool" where
  "policy_differs p rm \<longleftrightarrow> hr_invite_only rm \<noteq> po_invite_only p \<or> hr_moderated rm \<noteq> po_moderated p \<or>
     hr_no_outside_msgs rm \<noteq> po_no_outside_messages p \<or> hr_private rm \<noteq> po_private p \<or>
     hr_topic_ops_only rm \<noteq> po_topic_operators_only p"

definition apply_admin_room_policy :: "room_policy \<Rightarrow> hub_room \<Rightarrow> hub_room" where
  "apply_admin_room_policy p rm =
    rm\<lparr>hr_rejoin_until := (if hr_invite_only rm \<noteq> po_invite_only p then [] else hr_rejoin_until rm),
       hr_invite_only := po_invite_only p, hr_moderated := po_moderated p,
       hr_no_outside_msgs := po_no_outside_messages p, hr_private := po_private p,
       hr_topic_ops_only := po_topic_operators_only p\<rparr>"

definition registered_room :: "hub_core \<Rightarrow> ustr \<Rightarrow> hub_room option" where
  "registered_room h r = (case hub_room_of h r of None \<Rightarrow> None | Some rm \<Rightarrow> if hr_registered rm then Some rm else None)"

definition with_registered :: "hub_env \<Rightarrow> hub_core \<Rightarrow> ustr \<Rightarrow> (ustr \<Rightarrow> hub_room \<Rightarrow> admin_error + 'a) \<Rightarrow> admin_error + 'a" where
  "with_registered ev h room k =
    and_then (admin_room_name ev h room) (\<lambda>r.
      case registered_room h r of
        None \<Rightarrow> admin_fail Admin_Not_Found (lit ''Registered channel not found'')
      | Some rm \<Rightarrow> k r rm)"

section \<open>Channels\<close>

definition created_room :: "bytes \<Rightarrow> nat \<Rightarrow> ustr option \<Rightarrow> room_key option \<Rightarrow> room_policy \<Rightarrow> hub_room \<Rightarrow> hub_room" where
  "created_room actor now topic key p rm =
    (apply_admin_room_policy p (rm\<lparr>hr_topic := topic, hr_key := key\<rparr>))
      \<lparr>hr_registered := True, hr_ops := hadd actor (hr_ops rm), hr_last_used := now, hr_persist_dirty := False\<rparr>"

definition forget_removal :: "ustr \<Rightarrow> hub_core \<Rightarrow> hub_core" where
  "forget_removal r h = h\<lparr>hc_pending_removals := hrem r (hc_pending_removals h)\<rparr>"

definition create_steps :: "hub_env \<Rightarrow> bytes \<Rightarrow> room_policy \<Rightarrow> ustr \<Rightarrow> ustr option \<Rightarrow> room_key option \<Rightarrow> hub_step" where
  "create_steps ev actor policy r t key = run_all [
     quietly (\<lambda>h. h\<lparr>hc_rooms := hentry r hub_room_default (hc_rooms h)\<rparr>),
     quietly (upd_room r (created_room actor (ev_now_unix ev) t key policy)),
     quietly (forget_removal r),
     saying (\<lambda>h. broadcast_admin_topic h r @ broadcast_mode h r),
     persist_room ev r None,
     quietly (note_admin_moderated ev actor r Mod_Register None)]"

definition admin_create_channel :: "hub_env \<Rightarrow> bytes \<Rightarrow> ustr \<Rightarrow> ustr option \<Rightarrow> room_policy \<Rightarrow> ustr option \<Rightarrow> hub_core \<Rightarrow> admin_result" where
  "admin_create_channel ev actor room topic policy join_key h =
    and_then (admin_room_name ev h room) (\<lambda>r.
    and_then (admin_topic h topic) (\<lambda>t.
      if registered_room h r \<noteq> None
      then admin_fail Admin_Conflict (lit ''A registered channel with that name already exists'')
      else if cf_max_registered_rooms (hc_config h) \<le> registered_room_count h
      then admin_fail Admin_Capacity_Reached (lit ''The hub has reached its registered channel limit'')
      else and_then (case join_key of None \<Rightarrow> Inr None
                     | Some key \<Rightarrow> and_then (admin_room_key_digest ev h r key) (\<lambda>d. Inr (Some d))) (\<lambda>key.
        Inr (create_steps ev actor policy r t key h))))"

text \<open>\<open>Some\<close> is a replacement of the key, by none when it is cleared.\<close>

definition key_replacement :: "hub_env \<Rightarrow> hub_core \<Rightarrow> ustr \<Rightarrow> hub_room \<Rightarrow> key_change \<Rightarrow> admin_error + room_key option option" where
  "key_replacement ev h r rm change =
    (case change of
       Key_Keep \<Rightarrow> Inr None
     | Key_Clear \<Rightarrow> Inr (Some None)
     | Key_Set key \<Rightarrow> and_then (validate_admin_room_key key) (\<lambda>_.
         if (case hr_key rm of None \<Rightarrow> False | Some digest \<Rightarrow> room_key_matches ev (hc_pepper h) r key digest)
         then Inr None
         else and_then (admin_room_key_digest ev h r key) (\<lambda>d. Inr (Some (Some d)))))"

definition updated_room :: "ustr option \<Rightarrow> room_policy \<Rightarrow> room_key option option \<Rightarrow> hub_room \<Rightarrow> hub_room" where
  "updated_room topic policy replacement rm =
    (let rm1 = apply_admin_room_policy policy (rm\<lparr>hr_topic := topic\<rparr>)
     in case replacement of None \<Rightarrow> rm1 | Some key \<Rightarrow> rm1\<lparr>hr_key := key\<rparr>)"

definition admin_update_channel :: "hub_env \<Rightarrow> bytes \<Rightarrow> ustr \<Rightarrow> ustr option \<Rightarrow> room_policy \<Rightarrow> key_change \<Rightarrow> hub_core \<Rightarrow> admin_result" where
  "admin_update_channel ev actor room topic policy change h =
    with_registered ev h room (\<lambda>r rm.
    and_then (admin_topic h topic) (\<lambda>t.
    and_then (key_replacement ev h r rm change) (\<lambda>replacement.
      let topic_changed = (hr_topic rm \<noteq> t);
          mode_changed = (policy_differs policy rm \<or> replacement \<noteq> None);
          update = quietly (upd_room r (updated_room t policy replacement))
      in if \<not> topic_changed \<and> \<not> mode_changed then Inr (update h)
         else Inr (run_all ([update,
           saying (\<lambda>h. (if topic_changed then broadcast_admin_topic h r else []) @
             (if mode_changed then broadcast_mode h r else [])),
           persist_room ev r None] @
           (if topic_changed then [quietly (note_admin_moderated ev actor r Mod_Topic None)] else []) @
           (if mode_changed then [quietly (note_admin_moderated ev actor r Mod_Mode None)] else [])) h))))"

definition admin_unregister_channel :: "hub_env \<Rightarrow> bytes \<Rightarrow> ustr \<Rightarrow> hub_core \<Rightarrow> admin_result" where
  "admin_unregister_channel ev actor room h =
    with_registered ev h room (\<lambda>r rm.
      Inr (run_all [
        quietly (upd_room r (\<lambda>rm. rm\<lparr>hr_registered := False, hr_rejoin_until := [], hr_persist_dirty := False\<rparr>)),
        saying (\<lambda>h. broadcast_mode h r),
        quietly (note_admin_moderated ev actor r Mod_Unregister None),
        quietly (drop_room_if_empty r (hr_members rm = [])),
        quietly (forget_removal r),
        saying (\<lambda>h. [removed_op r None (Some r)])] h))"

section \<open>People\<close>

definition admin_role_flag :: "admin_role \<Rightarrow> bool \<Rightarrow> ustr" where
  "admin_role_flag role enabled =
    (case role of Role_Operator \<Rightarrow> if enabled then lit ''+o'' else lit ''-o''
     | Role_Voice \<Rightarrow> if enabled then lit ''+v'' else lit ''-v'')"

definition role_holders :: "admin_role \<Rightarrow> hub_room \<Rightarrow> bytes list" where
  "role_holders role rm = (case role of Role_Operator \<Rightarrow> hr_ops rm | Role_Voice \<Rightarrow> hr_voiced rm)"

definition admin_set_room_role :: "hub_env \<Rightarrow> bytes \<Rightarrow> ustr \<Rightarrow> bytes \<Rightarrow> admin_role \<Rightarrow> bool \<Rightarrow> hub_core \<Rightarrow> admin_result" where
  "admin_set_room_role ev actor room target role enabled h =
    with_registered ev h room (\<lambda>r rm.
      if role = Role_Operator \<and> \<not> enabled \<and> target \<in> set (hc_server_ops h)
      then admin_fail Admin_Conflict (lit ''A server operator cannot be removed through a channel role'')
      else let flag = admin_role_flag role enabled in
        if (target \<in> set (role_holders role rm)) = enabled then Inr (h, [])
        else Inr (run_all [
          quietly (upd_room r (grant_role flag target)),
          saying (\<lambda>h. case hub_room_of h r of None \<Rightarrow> []
            | Some rm \<Rightarrow> broadcast h rm r (lit ''mode for '' @ r @ lit '' is now: '' @ flag @ [32] @ take 12 (ev_hex ev target))),
          persist_room ev r None,
          quietly (note_admin_moderated ev actor r (role_action flag) (Some target))] h))"

definition eject_identity_from_room :: "hub_env \<Rightarrow> ustr \<Rightarrow> bytes \<Rightarrow> ustr \<Rightarrow> hub_step" where
  "eject_identity_from_room ev r target reason h =
    then_do (quietly (upd_room r (\<lambda>rm. rm\<lparr>hr_rejoin_until := hdel target (hr_rejoin_until rm)\<rparr>)))
      (for_each (eject_link ev r target reason) (room_links_for_identity h r target)) h"

definition admin_set_room_ban :: "hub_env \<Rightarrow> bytes \<Rightarrow> ustr \<Rightarrow> bytes \<Rightarrow> bool \<Rightarrow> hub_core \<Rightarrow> admin_result" where
  "admin_set_room_ban ev actor room target banned h =
    with_registered ev h room (\<lambda>r rm.
      if banned \<and> target \<in> set (hc_server_ops h)
      then admin_fail Admin_Conflict (lit ''A server operator cannot be banned from a channel'')
      else let changed = ((target \<in> set (hr_bans rm)) \<noteq> banned);
               links = (if banned then room_links_for_identity h r target else []);
               ban = run_all [
                 quietly (upd_room r (\<lambda>rm. rm\<lparr>hr_bans := (if banned then hadd target (hr_bans rm) else hrem target (hr_bans rm))\<rparr>)),
                 (if banned then eject_identity_from_room ev r target (lit ''banned from '' @ r) else quietly (\<lambda>h. h))]
           in if \<not> changed \<and> links = [] then Inr (ban h)
              else Inr (run_all [ban,
                (if changed then persist_room ev r None else quietly (\<lambda>h. h)),
                quietly (note_admin_moderated ev actor r (if banned then Mod_Ban else Mod_Unban) (Some target))] h))"

definition admin_set_invitation :: "hub_env \<Rightarrow> bytes \<Rightarrow> ustr \<Rightarrow> bytes \<Rightarrow> bool \<Rightarrow> hub_core \<Rightarrow> admin_result" where
  "admin_set_invitation ev actor room target invited h =
    with_registered ev h room (\<lambda>r rm.
      let keyed = (hr_key rm \<noteq> None);
          finish = [persist_room ev r None,
            quietly (note_admin_moderated ev actor r (if invited then Mod_Invite else Mod_Uninvite) (Some target))]
      in if invited
         then (if \<not> (hr_invite_only rm \<or> keyed)
               then admin_fail Admin_Conflict (lit ''Invitations require an invite-only or join-key channel'')
               else Inr (run_all ([
                 quietly (upd_room r (\<lambda>rm. rm\<lparr>hr_invited :=
                   hput target (ev_now_unix ev + max 1 (cf_invite_timeout_secs (hc_config h))) (hr_invited rm)\<rparr>)),
                 saying (\<lambda>h. List.map (\<lambda>k. hub_notice h k (invite_text r keyed) (Some r)) (links_of h target))] @ finish) h))
         else if hget (hr_invited rm) target = None \<and> hget (hr_rejoin_until rm) target = None then Inr (h, [])
         else Inr (run_all ([
           quietly (upd_room r (\<lambda>rm. rm\<lparr>hr_invited := hdel target (hr_invited rm),
             hr_rejoin_until := hdel target (hr_rejoin_until rm)\<rparr>))] @ finish) h))"

definition admin_kick :: "hub_env \<Rightarrow> bytes \<Rightarrow> ustr \<Rightarrow> bytes \<Rightarrow> hub_core \<Rightarrow> admin_result" where
  "admin_kick ev actor room target h =
    and_then (admin_room_name ev h room) (\<lambda>r.
      if hub_room_of h r = None then admin_fail Admin_Not_Found (lit ''Live channel not found'')
      else if target \<in> set (hc_server_ops h) then admin_fail Admin_Conflict (lit ''A server operator cannot be kicked'')
      else if room_links_for_identity h r target = []
      then admin_fail Admin_Not_Found (lit ''That identity is not currently in the channel'')
      else Inr (run_all [
        eject_identity_from_room ev r target (lit ''kicked from '' @ r),
        quietly (note_admin_moderated ev actor r Mod_Kick (Some target))] h))"

definition admin_set_hub_ban :: "hub_env \<Rightarrow> bytes \<Rightarrow> bytes \<Rightarrow> bool \<Rightarrow> hub_core \<Rightarrow> admin_result" where
  "admin_set_hub_ban ev actor target banned h =
    (if banned \<and> target \<in> set (hc_server_ops h)
     then admin_fail Admin_Conflict (lit ''A server operator cannot be banned from the hub'')
     else if (target \<in> set (hc_klines h)) = banned then Inr (h, [])
     else Inr (run_all [
       quietly (\<lambda>h. h\<lparr>hc_klines := (if banned then hadd target (hc_klines h) else hrem target (hc_klines h))\<rparr>),
       (if banned then quietly (forget_leases target) else quietly (\<lambda>h. h)),
       persist_klines ev None,
       quietly (note_admin_trust_changed ev actor (if banned then Kline_Added else Kline_Removed) target),
       (\<lambda>h. if banned then for_each (disconnect_link ev) (links_of h target) h else (h, []))] h))"

definition admin_mutate :: "hub_env \<Rightarrow> bytes \<Rightarrow> admin_mutation \<Rightarrow> hub_core \<Rightarrow> admin_result" where
  "admin_mutate ev actor mutation h =
    (if actor \<notin> set (hc_server_ops h)
     then admin_fail Admin_Forbidden (lit ''This identity is not authorized to administer the running hub'')
     else case mutation of
       Create_Channel room topic policy key \<Rightarrow> admin_create_channel ev actor room topic policy key h
     | Update_Channel room topic policy key \<Rightarrow> admin_update_channel ev actor room topic policy key h
     | Unregister_Channel room \<Rightarrow> admin_unregister_channel ev actor room h
     | Set_Room_Role room target role enabled \<Rightarrow> admin_set_room_role ev actor room target role enabled h
     | Set_Room_Ban room target banned \<Rightarrow> admin_set_room_ban ev actor room target banned h
     | Set_Invitation room target invited \<Rightarrow> admin_set_invitation ev actor room target invited h
     | Admin_Kick room target \<Rightarrow> admin_kick ev actor room target h
     | Set_Hub_Ban target banned \<Rightarrow> admin_set_hub_ban ev actor target banned h)"

end
