(* ===== verification/Hub_Registry.thy ===== *)
theory Hub_Registry
  imports Hub_Commands
begin

text \<open>
  The registry of the hub (\<open>channel_hub.rs\<close>): the core is made from the durable rows, what changed is
  written again, old rooms are pruned and failed writes are repeated.
\<close>

section \<open>Restoring\<close>

definition restore_grant :: "hub_env \<Rightarrow> ustr \<times> ustr \<times> nat \<Rightarrow> hub_room \<Rightarrow> hub_room" where
  "restore_grant ev g rm =
    (case g of (kind, subject, expires) \<Rightarrow>
      (case exact_bytes 16 (ev_unhex ev subject) of
         None \<Rightarrow> rm
       | Some identity \<Rightarrow>
           if kind = lit ''op'' then rm\<lparr>hr_ops := hadd identity (hr_ops rm)\<rparr>
           else if kind = lit ''voice'' then rm\<lparr>hr_voiced := hadd identity (hr_voiced rm)\<rparr>
           else if kind = lit ''ban'' then rm\<lparr>hr_bans := hadd identity (hr_bans rm)\<rparr>
           else if kind = lit ''invite'' \<and> ev_now_unix ev < expires
           then rm\<lparr>hr_invited := hput identity expires (hr_invited rm)\<rparr>
           else rm))"

definition usable_key :: "hub_env \<Rightarrow> bytes \<Rightarrow> room_row \<Rightarrow> room_key option" where
  "usable_key ev pepper_id row =
    (case decode_room_key ev row of None \<Rightarrow> None | Some k \<Rightarrow> if rk_pepper_id k = pepper_id then Some k else None)"

definition restored_room :: "hub_env \<Rightarrow> bytes \<Rightarrow> room_row \<Rightarrow> hub_room" where
  "restored_room ev pepper_id row =
    fold (restore_grant ev) (rr_grants row)
      (hub_room_default\<lparr>hr_registered := True,
         hr_topic := (if rr_topic row = [] then None else Some (rr_topic row)),
         hr_key := usable_key ev pepper_id row, hr_moderated := rr_moderated row,
         hr_invite_only := rr_invite_only row, hr_topic_ops_only := rr_topic_ops_only row,
         hr_no_outside_msgs := rr_no_outside_msgs row, hr_private := rr_private row, hr_last_used := rr_last_used row\<rparr>)"

text \<open>How much a row adds to the count of rotated keys.\<close>

definition rotated_by :: "hub_env \<Rightarrow> bytes \<Rightarrow> room_row \<Rightarrow> nat" where
  "rotated_by ev pepper_id row =
    (if (rr_key_mac row = []) \<noteq> (decode_room_key ev row = None) then 1 else 0) +
    (if rr_key_mac row \<noteq> [] \<and> usable_key ev pepper_id row = None then 1 else 0)"

definition restore_row :: "hub_env \<Rightarrow> room_row \<Rightarrow> nat \<times> hub_core \<Rightarrow> nat \<times> hub_core" where
  "restore_row ev row acc =
    (case acc of (rotated, h) \<Rightarrow>
      if norm_room ev h (rr_name row) \<noteq> Inr (rr_name row) then (rotated, h)
      else (rotated + rotated_by ev (hc_pepper_id h) row,
        h\<lparr>hc_rooms := hput (rr_name row) (restored_room ev (hc_pepper_id h) row) (hc_rooms h)\<rparr>))"

definition rotation_notice :: "nat \<Rightarrow> ustr" where
  "rotation_notice n = dec_string n @
    lit '' room key(s) were cleared because the hub identity changed; set them again with /mode <room> +k''"

definition restore :: "hub_env \<Rightarrow> room_row list \<Rightarrow> hub_core \<Rightarrow> hub_core" where
  "restore ev rows h =
    (case fold (restore_row ev) rows (0, h) of (rotated, h1) \<Rightarrow>
      if 0 < rotated then h1\<lparr>hc_pepper_rotation_notice := Some (rotation_notice rotated)\<rparr> else h1)"

definition hub_stats_default :: hub_stats where
  "hub_stats_default = \<lparr>st_joins = 0, st_parts = 0, st_messages_forwarded = 0, st_notices_forwarded = 0,
     st_actions_forwarded = 0, st_direct_notices = 0, st_rate_limited = 0, st_bad_packets = 0, st_duplicates = 0,
     st_pings_out = 0, st_pongs_in = 0, st_resources_received = 0, st_resource_bytes_received = 0, st_oversize = 0\<rparr>"

definition hub_core_new :: "hub_env \<Rightarrow> hub_config \<Rightarrow> bytes \<Rightarrow> bytes list \<Rightarrow> admission \<Rightarrow> bytes \<Rightarrow> room_row list \<Rightarrow> hub_core" where
  "hub_core_new ev config hub_hash klines admission pepper rows =
    restore ev rows
      \<lparr>hc_config = config, hc_hub_hash = hub_hash, hc_sessions = [], hc_rooms = [], hc_by_identity = [],
       hc_server_ops = remdups (cf_server_operators config), hc_klines = fold hadd (cf_banned_identities config) klines,
       hc_admission = admission, hc_pepper = pepper, hc_pepper_id = take 8 hub_hash,
       hc_started_wall = ev_now_unix ev, hc_started_at = ev_instant ev, hc_klines_dirty = False,
       hc_pending_removals = [], hc_pepper_rotation_notice = None, hc_stats = hub_stats_default, hc_events = [],
       hc_evidence = [], hc_evidence_bytes = 0, hc_evidence_sequence = 0, hc_evidence_evicted = 0,
       hc_throttle_reported_at = ev_instant ev, hc_throttle_baseline = (0, 0)\<rparr>"

section \<open>Writing again and pruning\<close>

definition persist_plain :: "hub_room_op \<Rightarrow> hub_send" where
  "persist_plain op = Send_Persist \<lparr>ps_op = op, ps_origin = None, ps_room = None\<rparr>"

definition registry_degraded :: "hub_core \<Rightarrow> bool" where
  "registry_degraded h \<longleftrightarrow> hc_klines_dirty h \<or> hc_pending_removals h \<noteq> [] \<or> list_ex (\<lambda>(r, rm). hr_persist_dirty rm) (hc_rooms h)"

definition flush_dirty_last_used :: "hub_step" where
  "flush_dirty_last_used h =
    (h\<lparr>hc_rooms := hvals (\<lambda>rm. if hr_registered rm \<and> hr_last_used_dirty rm then rm\<lparr>hr_last_used_dirty := False\<rparr> else rm) (hc_rooms h)\<rparr>,
     List.map_filter (\<lambda>(r, rm). if hr_registered rm \<and> hr_last_used_dirty rm
       then Some (persist_plain (Touched r (hr_last_used rm))) else None) (hc_rooms h))"

definition EARLIEST_SANE_CLOCK :: nat where "EARLIEST_SANE_CLOCK = 1700000000"

definition idle_room :: "hub_room \<Rightarrow> bool" where
  "idle_room rm \<longleftrightarrow> hr_registered rm \<and> hr_members rm = []"

definition used_at :: "hub_core \<Rightarrow> hub_room \<Rightarrow> nat" where
  "used_at h rm = (if hr_last_used rm = 0 then hc_started_wall h else hr_last_used rm)"

definition clamp_last_used :: "hub_core \<Rightarrow> nat \<Rightarrow> hub_room \<Rightarrow> hub_room" where
  "clamp_last_used h now rm =
    (if idle_room rm \<and> now < used_at h rm then rm\<lparr>hr_last_used := now, hr_last_used_dirty := True\<rparr> else rm)"

definition stale_room :: "hub_core \<Rightarrow> nat \<Rightarrow> hub_room \<Rightarrow> bool" where
  "stale_room h now rm \<longleftrightarrow> idle_room rm \<and> used_at h rm \<le> now \<and>
     cf_room_registry_prune_after_secs (hc_config h) < now - used_at h rm"

definition prune_registry :: "hub_env \<Rightarrow> nat \<Rightarrow> hub_step" where
  "prune_registry ev now h =
    (let c = hc_config h in
     if cf_room_registry_prune_after_secs c = 0 then (h, [])
     else if now < EARLIEST_SANE_CLOCK then (h, [])
     else if 0 < cf_room_registry_prune_interval_secs c \<and>
             ev_instant ev - hc_started_at h < cf_room_registry_prune_interval_secs c * 1000 then (h, [])
     else let stale = List.map fst (filter (\<lambda>(r, rm). stale_room h now rm) (hc_rooms h))
          in (h\<lparr>hc_rooms := fold hdel stale (hvals (clamp_last_used h now) (hc_rooms h))\<rparr>,
              List.map (\<lambda>r. persist_plain (Removed r)) stale @ [persist_plain (GcInvites now)]))"

definition note_persist_failed :: "hub_room_op \<Rightarrow> hub_core \<Rightarrow> hub_core" where
  "note_persist_failed op h =
    (case op of
       Upsert row \<Rightarrow> upd_room (rr_name row) (\<lambda>rm. rm\<lparr>hr_persist_dirty := True\<rparr>) h
     | Touched r _ \<Rightarrow> upd_room r (\<lambda>rm. rm\<lparr>hr_last_used_dirty := True\<rparr>) h
     | Removed r \<Rightarrow> h\<lparr>hc_pending_removals := hadd r (hc_pending_removals h)\<rparr>
     | ReplaceKlines _ \<Rightarrow> h\<lparr>hc_klines_dirty := True\<rparr>
     | GcInvites _ \<Rightarrow> h)"

definition retry_failed_persists :: "hub_env \<Rightarrow> hub_step" where
  "retry_failed_persists ev h =
    (let removals = hc_pending_removals h;
         dirty = List.map fst (filter (\<lambda>(r, rm). hr_registered rm \<and> hr_persist_dirty rm) (hc_rooms h))
     in run_all [
       quietly (\<lambda>h. h\<lparr>hc_pending_removals := []\<rparr>),
       saying (\<lambda>h. List.map (\<lambda>r. persist_plain (Removed r)) removals),
       for_each (\<lambda>r. persist_room ev r None) dirty,
       (\<lambda>h. if hc_klines_dirty h then persist_klines ev None h else (h, []))] h)"

end
