(* ===== verification/Hub_Machine.thy ===== *)
theory Hub_Machine
  imports Hub_Run Hub_Admin Hub_Registry
begin

text \<open>
  The owner's mutations and the registry preserve the invariant too.  The hub is then a state machine over
  everything the service loop hands to \<open>HubCore\<close>; all its states satisfy the invariant.
\<close>

section \<open>The owner's mutations\<close>

lemma and_then_Inr: "and_then r k = Inr y \<longleftrightarrow> (\<exists>x. r = Inr x \<and> k x = Inr y)"
  by (simp add: and_then_def split: sum.splits)

lemma with_registered_Inr:
  "with_registered ev h room k = Inr y \<Longrightarrow> \<exists>r rm. hub_room_of h r = Some rm \<and> hr_registered rm \<and> k r rm = Inr y"
  by (auto simp: with_registered_def and_then_Inr registered_room_def admin_fail_def split: option.splits if_splits)

lemma hub_ok_books: "hub_ok X h \<Longrightarrow> bookless h' = bookless h \<Longrightarrow> hub_ok X h'"
  using hub_ok_core bookless_core by blast

lemma hub_ok_persist: "hub_ok X h \<Longrightarrow> hub_ok X (fst (persist_room ev r origin h))"
  using hub_ok_core core_persist_room by blast

lemma hub_ok_admin_moderated: "hub_ok X h \<Longrightarrow> hub_ok X (note_admin_moderated ev actor r a t h)"
  by (erule hub_ok_books) simp

lemmas admin_run = fst_run_all quietly_def hub_ok_admin_moderated hub_ok_persist

lemma coh_new_room:
  assumes "coh X R B K F h" and "hub_room_of h r = None" and "hr_members rm0 = []"
  shows "coh X R B K (insert r F) (h\<lparr>hc_rooms := hput r rm0 (hc_rooms h)\<rparr>)"
proof -
  have "r \<notin> R k" for k using assms(1,2) by (auto simp: coh_def membership_def)
  then show ?thesis using assms
    unfolding coh_def sessions_ok_def membership_def rooms_ok_def bans_ok_def klines_ok_def index_ok_def
    by (auto split: if_splits)
qed

lemma rooms_of_rooms [simp]: "rooms_of (h\<lparr>hc_rooms := rs\<rparr>) = rooms_of h"
  by (rule ext) (simp add: rooms_of_def)

lemma created_ok:
  assumes "hub_ok X h"
  shows "hub_ok X (upd_room r (created_room actor now t key policy) (h\<lparr>hc_rooms := hentry r hub_room_default (hc_rooms h)\<rparr>))"
proof -
  have c: "coh X (rooms_of h) {} {} {} h" using assms by (simp add: hub_ok_def hub_but_def)
  have "coh X (rooms_of h) {} {} {r} (h\<lparr>hc_rooms := hentry r hub_room_default (hc_rooms h)\<rparr>)"
  proof (cases "hub_room_of h r")
    case None
    then show ?thesis using coh_new_room [OF c None, of hub_room_default]
      by (simp add: hentry_def hub_room_default_def)
  next
    case (Some rm)
    then show ?thesis using c by (auto simp: hentry_def coh_def rooms_ok_def)
  qed
  then have "coh X (rooms_of h) {} {} {} (upd_room r (created_room actor now t key policy)
      (h\<lparr>hc_rooms := hentry r hub_room_default (hc_rooms h)\<rparr>))"
    by (rule coh_upd_room) (auto simp: created_room_def apply_admin_room_policy_def)
  then show ?thesis by (simp add: hub_ok_def hub_but_def)
qed

lemma bookless_forget_removal [simp]: "bookless (forget_removal r h) = bookless h"
  by (simp add: forget_removal_def)

lemma create_steps_ok: "hub_ok X h \<Longrightarrow> hub_ok X (fst (create_steps ev actor policy r t key h))"
  using hub_ok_books [OF created_ok bookless_forget_removal] by (simp add: create_steps_def admin_run)

lemma admin_create_ok:
  assumes h: "hub_ok X h" and r: "admin_create_channel ev actor room topic policy key h = Inr (h', s)"
  shows "hub_ok X h'"
proof -
  obtain r t d where "create_steps ev actor policy r t d h = (h', s)"
    using r by (auto simp: admin_create_channel_def and_then_Inr admin_fail_def split: if_splits)
  then show ?thesis using create_steps_ok [OF h] by (metis fst_conv)
qed

lemma updated_calm: "calm (updated_room t policy replacement)"
  by (auto simp: calm_def updated_room_def apply_admin_room_policy_def Let_def split: option.splits)

lemma keeps_admin_moderated [kept_intros]: "keeps (hub_ok X) (quietly (note_admin_moderated ev actor r a t))"
  by (rule member.keeps_books) simp

lemma admin_update_ok:
  assumes h: "hub_ok X h" and r: "admin_update_channel ev actor room topic policy change h = Inr (h', s)"
  shows "hub_ok X h'"
proof -
  obtain r rm t replacement where k: "(let topic_changed = (hr_topic rm \<noteq> t);
          mode_changed = (policy_differs policy rm \<or> replacement \<noteq> None);
          update = quietly (upd_room r (updated_room t policy replacement))
      in if \<not> topic_changed \<and> \<not> mode_changed then Inr (update h)
         else Inr (run_all ([update,
           saying (\<lambda>h. (if topic_changed then broadcast_admin_topic h r else []) @
             (if mode_changed then broadcast_mode h r else [])),
           persist_room ev r None] @
           (if topic_changed then [quietly (note_admin_moderated ev actor r Mod_Topic None)] else []) @
           (if mode_changed then [quietly (note_admin_moderated ev actor r Mod_Mode None)] else [])) h)) = (Inr (h', s) :: admin_result)"
  proof -
    obtain r rm where "and_then (admin_topic h topic) (\<lambda>t.
      and_then (key_replacement ev h r rm change) (\<lambda>replacement.
      let topic_changed = (hr_topic rm \<noteq> t);
          mode_changed = (policy_differs policy rm \<or> replacement \<noteq> None);
          update = quietly (upd_room r (updated_room t policy replacement))
      in if \<not> topic_changed \<and> \<not> mode_changed then Inr (update h)
         else Inr (run_all ([update,
           saying (\<lambda>h. (if topic_changed then broadcast_admin_topic h r else []) @
             (if mode_changed then broadcast_mode h r else [])),
           persist_room ev r None] @
           (if topic_changed then [quietly (note_admin_moderated ev actor r Mod_Topic None)] else []) @
           (if mode_changed then [quietly (note_admin_moderated ev actor r Mod_Mode None)] else [])) h))) = Inr (h', s)"
      using with_registered_Inr [OF r [unfolded admin_update_channel_def]] by blast
    then show ?thesis unfolding and_then_Inr using that by blast
  qed
  have u: "hub_ok X (upd_room r (updated_room t policy replacement) h)" by (rule hub_ok_calm [OF h updated_calm])
  show ?thesis
  proof (cases "hr_topic rm \<noteq> t \<or> policy_differs policy rm \<or> replacement \<noteq> None")
    case True
    then show ?thesis using k hub_ok_persist [OF u] hub_ok_admin_moderated
      by (auto simp: Let_def fst_run_all quietly_def dest!: arg_cong [where f = fst])
  qed (use k u in \<open>auto simp: Let_def quietly_def\<close>)
qed

lemma core_drop_room: "same_core h h' \<Longrightarrow> hwf (hc_rooms h) \<Longrightarrow> same_core (drop_room_if_empty r b h) (drop_room_if_empty r b h')"
  by (simp add: drop_room_if_empty_def same_core_def)

lemma admin_unregister_ok:
  assumes h: "hub_ok X h" and r: "admin_unregister_channel ev actor room h = Inr (h', s)"
  shows "hub_ok X h'"
proof -
  let ?f = "\<lambda>rm. rm\<lparr>hr_registered := False, hr_rejoin_until := [], hr_persist_dirty := False\<rparr>"
  obtain r rm where rm: "hub_room_of h r = Some rm" and k: "h' = forget_removal r (drop_room_if_empty r (hr_members rm = [])
      (note_admin_moderated ev actor r Mod_Unregister None (upd_room r ?f h)))"
    using with_registered_Inr [OF r [unfolded admin_unregister_channel_def]] by (auto simp: run_all.simps then_do_def quietly_def saying_def)
  have "same_core (unregistered r h) (upd_room r ?f h)"
    by (auto simp: unregistered_def same_core_def upd_room_def option.map_comp comp_def hard_def)
  then have "same_core (unregistered r h) (note_admin_moderated ev actor r Mod_Unregister None (upd_room r ?f h))"
    by (rule same_core_trans) (simp add: bookless_core)
  moreover have "hwf (hc_rooms (unregistered r h))"
    using h by (simp add: unregistered_def upd_room_def hub_ok_def hub_but_def coh_def sessions_ok_def)
  ultimately have "hub_ok X (drop_room_if_empty r (hr_members rm = []) (note_admin_moderated ev actor r Mod_Unregister None (upd_room r ?f h)))"
    by (rule hub_ok_core [OF hub_ok_unregister [OF h rm] core_drop_room])
  then show ?thesis unfolding k by (rule hub_ok_books) simp
qed

lemma admin_role_ok:
  assumes h: "hub_ok X h" and r: "admin_set_room_role ev actor room target role enabled h = Inr (h', s)"
  shows "hub_ok X h'"
proof -
  have "hub_ok X (note_admin_moderated ev actor r a t (fst (persist_room ev r None (upd_room r (grant_role flag target) h))))"
    for r a t flag
    by (intro hub_ok_admin_moderated hub_ok_persist hub_ok_calm [OF h] calm_intros)
  then show ?thesis using with_registered_Inr [OF r [unfolded admin_set_room_role_def]] h
    by (auto simp: admin_fail_def Let_def run_all.simps then_do_def quietly_def saying_def case_prod_unfold split: if_splits)
qed

lemma soft_rejoin: "same_core h (upd_room r (\<lambda>rm. rm\<lparr>hr_rejoin_until := hdel target (hr_rejoin_until rm)\<rparr>) h)"
  by (rule core_upd_room) (simp add: hard_def)

lemma eject_identity_ok: "hub_ok X h \<Longrightarrow> hub_ok X (fst (eject_identity_from_room ev r target reason h))"
  using hub_ok_core [OF _ soft_rejoin] but_eject_all
  by (simp add: eject_identity_from_room_def fst_then_do quietly_def hub_ok_def)

lemma ban_then_eject_ok:
  assumes "hub_ok X h"
  shows "hub_ok X (fst (eject_identity_from_room ev r target reason (upd_room r (\<lambda>rm. rm\<lparr>hr_bans := hadd target (hr_bans rm)\<rparr>) h)))"
  unfolding eject_identity_from_room_def fst_then_do quietly_def fst_conv
  by (rule ban_eject_ok [OF assms soft_rejoin]) (simp add: links_upd_room)

lemma admin_ban_ok:
  assumes h: "hub_ok X h" and r: "admin_set_room_ban ev actor room target banned h = Inr (h', s)"
  shows "hub_ok X h'"
proof -
  let ?ban = "\<lambda>r. run_all [
    quietly (upd_room r (\<lambda>rm. rm\<lparr>hr_bans := (if banned then hadd target (hr_bans rm) else hrem target (hr_bans rm))\<rparr>)),
    (if banned then eject_identity_from_room ev r target (lit ''banned from '' @ r) else quietly (\<lambda>h. h))]"
  have ban: "hub_ok X (fst (?ban r h))" for r
    using ban_then_eject_ok [OF h] hub_ok_calm [OF h, of "\<lambda>rm. rm\<lparr>hr_bans := hrem target (hr_bans rm)\<rparr>"]
    by (cases banned) (simp_all add: fst_run_all quietly_def calm_intros)
  then have "hub_ok X (note_admin_moderated ev actor r a t (fst (?ban r h)))"
      "hub_ok X (note_admin_moderated ev actor r a t (fst (persist_room ev r None (fst (?ban r h)))))" for r a t
    using hub_ok_admin_moderated hub_ok_persist by blast+
  then show ?thesis using ban with_registered_Inr [OF r [unfolded admin_set_room_ban_def]]
    by (cases banned) (auto simp: admin_fail_def Let_def fst_run_all quietly_def split: if_splits dest!: arg_cong [where f = fst])
qed

lemma admin_invitation_ok:
  assumes h: "hub_ok X h" and r: "admin_set_invitation ev actor room target invited h = Inr (h', s)"
  shows "hub_ok X h'"
proof -
  have "hub_ok X (note_admin_moderated ev actor r a t (fst (persist_room ev r None (upd_room r f h))))"
    if "\<And>rm. hard (f rm) = hard rm" for r a t f
    by (intro hub_ok_admin_moderated hub_ok_persist hub_ok_core [OF h core_upd_room]) (rule that)
  then have "hub_ok X (note_admin_moderated ev actor r a t (fst (persist_room ev r None (upd_room r (\<lambda>rm. rm\<lparr>hr_invited := g rm\<rparr>) h))))"
    "hub_ok X (note_admin_moderated ev actor r a t (fst (persist_room ev r None (upd_room r (\<lambda>rm. rm\<lparr>hr_invited := g rm, hr_rejoin_until := g' rm\<rparr>) h))))"
    for r a t g g' by (simp_all add: hard_def)
  then show ?thesis using with_registered_Inr [OF r [unfolded admin_set_invitation_def]] h
    by (auto simp: admin_fail_def Let_def run_all.simps then_do_def quietly_def saying_def case_prod_unfold split: if_splits)
qed

lemma admin_kick_ok:
  assumes h: "hub_ok X h" and r: "admin_kick ev actor room target h = Inr (h', s)"
  shows "hub_ok X h'"
  using r hub_ok_admin_moderated [OF eject_identity_ok [OF h]]
  by (auto simp: admin_kick_def and_then_Inr admin_fail_def run_all.simps then_do_def quietly_def Let_def case_prod_unfold split: if_splits)

lemma admin_hub_ban_ok:
  assumes h: "hub_ok X h" and r: "admin_set_hub_ban ev actor target banned h = Inr (h', s)"
  shows "hub_ok X h'"
proof (cases banned)
  case True
  let ?h0 = "h\<lparr>hc_klines := hadd target (hc_klines h)\<rparr>"
  have "same_core ?h0 (note_admin_trust_changed ev actor Kline_Added target (fst (persist_klines ev None (forget_leases target ?h0))))"
    by (rule same_core_trans [OF core_forget_leases bookless_core]) simp
  from kline_close_ok [OF h this] show ?thesis using r True h
    by (auto simp: admin_set_hub_ban_def admin_fail_def fst_run_all quietly_def split: if_splits dest!: arg_cong [where f = fst])
next
  case False
  have "hub_ok X (note_admin_trust_changed ev actor Kline_Removed target
      (fst (persist_klines ev None (h\<lparr>hc_klines := hrem target (hc_klines h)\<rparr>))))"
    by (rule hub_ok_books [OF hub_ok_unkline [OF h]]) simp
  then show ?thesis using r False h
    by (auto simp: admin_set_hub_ban_def admin_fail_def fst_run_all quietly_def split: if_splits dest!: arg_cong [where f = fst])
qed

lemma admin_mutate_ok:
  assumes h: "hub_ok X h" and r: "admin_mutate ev actor mutation h = Inr (h', s)"
  shows "hub_ok X h'"
proof -
  have "actor \<in> set (hc_server_ops h)" using r by (auto simp: admin_mutate_def admin_fail_def split: if_splits)
  then have r': "(case mutation of
       Create_Channel room topic policy key \<Rightarrow> admin_create_channel ev actor room topic policy key h
     | Update_Channel room topic policy key \<Rightarrow> admin_update_channel ev actor room topic policy key h
     | Unregister_Channel room \<Rightarrow> admin_unregister_channel ev actor room h
     | Set_Room_Role room target role enabled \<Rightarrow> admin_set_room_role ev actor room target role enabled h
     | Set_Room_Ban room target banned \<Rightarrow> admin_set_room_ban ev actor room target banned h
     | Set_Invitation room target invited \<Rightarrow> admin_set_invitation ev actor room target invited h
     | Admin_Kick room target \<Rightarrow> admin_kick ev actor room target h
     | Set_Hub_Ban target banned \<Rightarrow> admin_set_hub_ban ev actor target banned h) = Inr (h', s)"
    using r by (simp add: admin_mutate_def)
  show ?thesis
  proof (cases mutation)
    case Create_Channel then show ?thesis using admin_create_ok [OF h] r' by simp
  next
    case Update_Channel then show ?thesis using admin_update_ok [OF h] r' by simp
  next
    case Unregister_Channel then show ?thesis using admin_unregister_ok [OF h] r' by simp
  next
    case Set_Room_Role then show ?thesis using admin_role_ok [OF h] r' by simp
  next
    case Set_Room_Ban then show ?thesis using admin_ban_ok [OF h] r' by simp
  next
    case Set_Invitation then show ?thesis using admin_invitation_ok [OF h] r' by simp
  next
    case Admin_Kick then show ?thesis using admin_kick_ok [OF h] r' by simp
  next
    case Set_Hub_Ban then show ?thesis using admin_hub_ban_ok [OF h] r' by simp
  qed
qed

end
