(* ===== verification/Hub_Reach.thy ===== *)
theory Hub_Reach
  imports Hub_Machine
begin

text \<open>
  The states of the hub: it is made from the registry and then handles whatever the service loop hands to
  it.  The only assumption about the transport is the one that \<open>on_link_identified\<close> documents: the gate of the
  link manager closes a link that proves an identity banned from the hub before the hub hears of it.  A link may
  prove another identity later; such links are collected on the way.
\<close>

section \<open>Registry\<close>

lemma core_flush: "same_core h (fst (flush_dirty_last_used h))"
  unfolding flush_dirty_last_used_def fst_conv by (rule core_hvals_rooms) (simp add: hard_def)

lemma core_persist_failed: "same_core h (note_persist_failed op h)"
  by (cases op) (auto simp: note_persist_failed_def hard_def same_core_refl bookless_core intro!: core_upd_room)

lemma core_persist_all: "same_core h (fst (for_each (\<lambda>r. persist_room ev r None) rs h))"
proof (induction rs arbitrary: h)
  case (Cons r rs)
  show ?case using same_core_trans [OF core_persist_room Cons.IH] by (simp add: fst_then_do)
qed (simp add: same_core_refl)

lemma core_retry: "same_core h (fst (retry_failed_persists ev h))"
proof -
  let ?h1 = "h\<lparr>hc_pending_removals := []\<rparr>"
  let ?h2 = "\<lambda>rs. fst (for_each (\<lambda>r. persist_room ev r None) rs ?h1)"
  have "same_core h ?h1" by (rule bookless_core) simp
  then have "same_core h (?h2 rs)" for rs using same_core_trans core_persist_all by blast
  moreover have "same_core h' (fst (if hc_klines_dirty h' then persist_klines ev None h' else (h', [])))" for h'
    by (rule bookless_core) simp
  ultimately have "same_core h (fst (if hc_klines_dirty (?h2 rs) then persist_klines ev None (?h2 rs) else (?h2 rs, [])))" for rs
    using same_core_trans by blast
  then show ?thesis by (simp add: retry_failed_persists_def Let_def fst_run_all quietly_def)
qed

lemma hget_fold_hdel: "hget (fold hdel ks m) k = (if k \<in> set ks then None else hget m k)"
  by (induction ks arbitrary: m) simp_all

lemma hwf_fold_hdel: "hwf m \<Longrightarrow> hwf (fold hdel ks m)"
  by (induction ks arbitrary: m) simp_all

text \<open>Rooms without members may go.\<close>

lemma hub_ok_remove_rooms:
  assumes "hub_ok X h" and none: "\<And>r rm. r \<in> set rs \<Longrightarrow> hub_room_of h r = Some rm \<Longrightarrow> hr_members rm = []"
  shows "hub_ok X (h\<lparr>hc_rooms := fold hdel rs (hc_rooms h)\<rparr>)"
proof -
  let ?h = "h\<lparr>hc_rooms := fold hdel rs (hc_rooms h)\<rparr>"
  have c: "coh X (rooms_of h) {} {} {} h" using assms(1) by (simp add: hub_ok_def hub_but_def)
  have "membership (rooms_of h) ?h"
    unfolding membership_def
  proof (intro allI)
    fix l r
    have "r \<in> rooms_of h l \<longleftrightarrow> (\<exists>rm. hub_room_of h r = Some rm \<and> l \<in> set (hr_members rm))"
      using c by (simp add: coh_def membership_def)
    then show "r \<in> rooms_of h l \<longleftrightarrow> (\<exists>rm. hub_room_of ?h r = Some rm \<and> l \<in> set (hr_members rm))"
      using none [of r] by (cases "r \<in> set rs") (auto simp: hget_fold_hdel)
  qed
  then show ?thesis using c
    by (simp add: hub_ok_def hub_but_def coh_def sessions_ok_def rooms_ok_def bans_ok_def klines_ok_def index_ok_def
        hget_fold_hdel hwf_fold_hdel)
qed

lemma hub_ok_prune:
  assumes "hub_ok X h"
  shows "hub_ok X (fst (prune_registry ev now h))"
proof -
  let ?h1 = "h\<lparr>hc_rooms := hvals (clamp_last_used h now) (hc_rooms h)\<rparr>"
  let ?stale = "List.map fst (filter (\<lambda>(r, rm). stale_room h now rm) (hc_rooms h))"
  have "same_core h ?h1" by (rule core_hvals_rooms) (simp add: clamp_last_used_def hard_def)
  then have h1: "hub_ok X ?h1" using hub_ok_core assms by blast
  have wf: "hwf (hc_rooms h)" using assms by (simp add: hub_ok_def hub_but_def coh_def sessions_ok_def)
  have "hub_ok X (?h1\<lparr>hc_rooms := fold hdel ?stale (hc_rooms ?h1)\<rparr>)"
  proof (rule hub_ok_remove_rooms [OF h1])
    fix r rm
    assume "r \<in> set ?stale" and rm: "hub_room_of ?h1 r = Some rm"
    then obtain rm0 where "hub_room_of h r = Some rm0" "stale_room h now rm0" using hget_in [OF wf] by force
    then show "hr_members rm = []" using rm by (auto simp: stale_room_def idle_room_def clamp_last_used_def)
  qed
  then show ?thesis using assms by (simp add: prune_registry_def Let_def)
qed

lemma restore_grants_room:
  "hr_members (fold (restore_grant ev) gs rm) = hr_members rm \<and> hr_registered (fold (restore_grant ev) gs rm) = hr_registered rm"
proof (induction gs arbitrary: rm)
  case (Cons g gs)
  have "hr_members (restore_grant ev g rm) = hr_members rm \<and> hr_registered (restore_grant ev g rm) = hr_registered rm"
    by (cases g) (simp add: restore_grant_def split: option.splits)
  then show ?case using Cons.IH by simp
qed simp

definition unused_hub :: "hub_core \<Rightarrow> bool" where
  "unused_hub h \<longleftrightarrow> hc_sessions h = [] \<and> hc_by_identity h = [] \<and> hwf (hc_rooms h) \<and>
     (\<forall>r rm. hub_room_of h r = Some rm \<longrightarrow> hr_registered rm \<and> hr_members rm = [])"

lemma unused_hub_ok: "unused_hub h \<Longrightarrow> hub_ok X h"
  by (auto simp: unused_hub_def hub_ok_def hub_but_def coh_def coh_defs rooms_of_def session_identity_def)

lemma unused_restore_row:
  "unused_hub (snd acc) \<Longrightarrow> unused_hub (snd (restore_row ev row acc))"
  using restore_grants_room by (auto simp: restore_row_def unused_hub_def restored_room_def hub_room_default_def split: prod.splits if_splits)

lemma unused_restore: "unused_hub h \<Longrightarrow> unused_hub (restore ev rows h)"
proof -
  assume h: "unused_hub h"
  have "unused_hub (snd (fold (restore_row ev) rows acc))" if "unused_hub (snd acc)" for acc
    using that by (induction rows arbitrary: acc) (simp_all add: unused_restore_row)
  from this [of "(0, h)"] h have "unused_hub (snd (fold (restore_row ev) rows (0, h)))" by simp
  then show ?thesis by (simp add: restore_def unused_hub_def case_prod_unfold)
qed

lemma hub_core_new_ok: "hub_ok X (hub_core_new ev config hash klines admission pepper rows)"
  unfolding hub_core_new_def by (rule unused_hub_ok [OF unused_restore]) (simp add: unused_hub_def)

lemma bookless_service [simp]:
  "bookless (note_service_degraded ev reason n h) = bookless h" "bookless (note_service_stopped now h) = bookless h"
  "bookless (note_service_started h) = bookless h" "bookless (note_rate_limited h) = bookless h"
  "bookless (note_bad_packet h) = bookless h" "bookless (note_oversize ev n h) = bookless h"
  "bookless (note_send_failed ev n h) = bookless h" "bookless (snd (drain_events h)) = bookless h"
proof -
  have "bookless (fold (\<lambda>(l, s). push_event (Ev_SessionClosed l Close_ServiceStopped (now - hs_established_at s))) ss h) = bookless h" for ss
    by (induction ss arbitrary: h) (simp_all add: case_prod_unfold)
  then show "bookless (note_service_stopped now h) = bookless h" by (simp add: note_service_stopped_def)
  show degraded: "bookless (note_service_degraded ev reason n h) = bookless h" for reason h by (simp add: note_service_degraded_def)
  show "bookless (note_oversize ev n h) = bookless h" by (simp add: note_oversize_def degraded)
  show "bookless (note_send_failed ev n h) = bookless h" by (simp add: note_send_failed_def degraded)
  show "bookless (snd (drain_events h)) = bookless h" by (simp add: drain_events_def bookless_def)
qed (simp_all add: note_service_started_def note_rate_limited_def note_bad_packet_def)

lemma core_service:
  "same_core h (note_service_degraded ev reason n h)" "same_core h (note_service_stopped now h)"
  "same_core h (note_service_started h)" "same_core h (note_rate_limited h)" "same_core h (note_bad_packet h)"
  "same_core h (note_oversize ev n h)" "same_core h (note_send_failed ev n h)" "same_core h (snd (drain_events h))"
  by (simp_all add: bookless_core)

section \<open>Inputs\<close>

datatype hub_input =
    In_Established bytes
  | In_Identified bytes bytes
  | In_Packet bytes
  | In_Envelope bytes envelope
  | In_Closed bytes
  | In_Keepalive
  | In_Resource_Started bytes "bytes option"
  | In_Outbound_Concluded bytes bytes
  | In_Resource_Completed bytes bytes bytes bool
  | In_Inbound_Concluded bytes bytes
  | In_Resource_Cycle
  | In_Owner bytes admin_mutation
  | In_Flush
  | In_Prune
  | In_Persist_Failed hub_room_op
  | In_Retry
  | In_Rate_Limited
  | In_Bad_Packet
  | In_Oversize nat
  | In_Send_Failed nat
  | In_Degraded service_degradation nat
  | In_Started
  | In_Stopped
  | In_Drained

fun hub_handle :: "hub_env \<Rightarrow> ustr \<Rightarrow> (hub_core \<Rightarrow> ustr list) \<Rightarrow> hub_input \<Rightarrow> hub_step" where
  "hub_handle ev version lines (In_Established l) h = (on_link_established ev l h, [])"
| "hub_handle ev version lines (In_Identified l i) h = on_link_identified ev l i h"
| "hub_handle ev version lines (In_Packet l) h = (snd (note_packet ev l h), [])"
| "hub_handle ev version lines (In_Envelope l en) h = on_envelope ev version lines l en h"
| "hub_handle ev version lines (In_Closed l) h = on_link_closed ev l h"
| "hub_handle ev version lines In_Keepalive h = ping_cycle ev h"
| "hub_handle ev version lines (In_Resource_Started l x) h = (on_resource_started l x h, [])"
| "hub_handle ev version lines (In_Outbound_Concluded l x) h = (on_outbound_resource_concluded l x h, [])"
| "hub_handle ev version lines (In_Resource_Completed l x payload m) h = on_resource_completed ev l x payload m h"
| "hub_handle ev version lines (In_Inbound_Concluded l x) h = (on_inbound_resource_concluded l x h, [])"
| "hub_handle ev version lines In_Resource_Cycle h = (resource_cycle (ev_instant ev) h, [])"
| "hub_handle ev version lines (In_Owner actor mutation) h =
    (case admin_mutate ev actor mutation h of Inl e \<Rightarrow> (h, []) | Inr r \<Rightarrow> r)"
| "hub_handle ev version lines In_Flush h = flush_dirty_last_used h"
| "hub_handle ev version lines In_Prune h = prune_registry ev (ev_now_unix ev) h"
| "hub_handle ev version lines (In_Persist_Failed op) h = (note_persist_failed op h, [])"
| "hub_handle ev version lines In_Retry h = retry_failed_persists ev h"
| "hub_handle ev version lines In_Rate_Limited h = (note_rate_limited h, [])"
| "hub_handle ev version lines In_Bad_Packet h = (note_bad_packet h, [])"
| "hub_handle ev version lines (In_Oversize n) h = (note_oversize ev n h, [])"
| "hub_handle ev version lines (In_Send_Failed n) h = (note_send_failed ev n h, [])"
| "hub_handle ev version lines (In_Degraded reason n) h = (note_service_degraded ev reason n h, [])"
| "hub_handle ev version lines In_Started h = (note_service_started h, [])"
| "hub_handle ev version lines In_Stopped h = (note_service_stopped (ev_instant ev) h, [])"
| "hub_handle ev version lines In_Drained h = (snd (drain_events h), [])"

text \<open>The assumption is needed of links that are identified already; the hub closes the others itself.\<close>

fun identity_gate :: "hub_input \<Rightarrow> hub_core \<Rightarrow> bool" where
  "identity_gate (In_Identified l i) h \<longleftrightarrow> (i \<in> set (hc_klines h) \<longrightarrow> session_identity l h = None)"
| "identity_gate _ h \<longleftrightarrow> True"

fun moved_by :: "hub_input \<Rightarrow> hub_core \<Rightarrow> bytes set \<Rightarrow> bytes set" where
  "moved_by (In_Identified l i) h X = moved_links l i h X"
| "moved_by _ h X = X"

lemma on_envelope_hub_ok: "hub_ok X h \<Longrightarrow> hub_ok X (fst (on_envelope ev version lines l en h))"
proof (cases "session_identity l h")
  case None
  assume "hub_ok X h"
  then show ?thesis using None
    by (auto simp: on_envelope_def session_identity_def split: option.splits)
qed (rule member.on_envelope_ok)

lemma hub_handle_ok:
  assumes "hub_ok X h" and "identity_gate input h"
  shows "hub_ok (moved_by input h X) (fst (hub_handle ev version lines input h))"
proof (cases input)
  case (In_Closed l)
  then show ?thesis using close_session_ok assms by (simp add: hub_ok_def on_link_closed_def) (metis Diff_empty empty_Diff)
next
  case (In_Owner actor mutation)
  then show ?thesis using assms admin_mutate_ok [OF assms(1)] by (auto split: sum.splits)
qed (use assms in \<open>auto simp: hub_ok_established on_link_identified_ok on_envelope_hub_ok ping_cycle_ok hub_ok_prune
      intro: hub_ok_core core_service core_note_packet resource_steps_core on_resource_completed_core core_flush core_persist_failed core_retry\<close>)

text \<open>\<open>moved\<close> are the links that have proved a second identity.\<close>

inductive hub_reachable :: "ustr \<Rightarrow> (hub_core \<Rightarrow> ustr list) \<Rightarrow> bytes set \<Rightarrow> hub_core \<Rightarrow> bool" for version lines where
  hub_started: "hub_reachable version lines {} (hub_core_new ev config hash klines admission pepper rows)"
| hub_handled: "hub_reachable version lines moved h \<Longrightarrow> identity_gate input h \<Longrightarrow>
    hub_reachable version lines (moved_by input h moved) (fst (hub_handle ev version lines input h))"

inductive_cases hub_reachableE: "hub_reachable version lines moved h"

lemma hub_reachable_ok: "hub_reachable version lines moved h \<Longrightarrow> hub_ok moved h"
  by (induction rule: hub_reachable.induct) (simp_all add: hub_core_new_ok hub_handle_ok)

end
