(* ===== verification/Hub_Authority.thy ===== *)
theory Hub_Authority
  imports Hub_Reach
begin

text \<open>
  What somebody who does not operate a room can do to it.  The predicate \<open>spared\<close> compares a room with
  itself before an envelope; it satisfies the laws of locale \<open>governed\<close>, so no envelope violates it.
\<close>

record room_rules =
  ru_topic :: "ustr option"
  ru_key :: "room_key option"
  ru_ops :: "bytes list"
  ru_voiced :: "bytes list"
  ru_bans :: "bytes list"
  ru_moderated :: bool
  ru_invite_only :: bool
  ru_topic_ops_only :: bool
  ru_no_outside_msgs :: bool
  ru_private :: bool
  ru_registered :: bool

text \<open>Everything the operators decide; the topic belongs to them only in a room that is \<open>+t\<close>.\<close>

definition rules_of :: "hub_room \<Rightarrow> room_rules" where
  "rules_of rm = \<lparr>ru_topic = (if hr_topic_ops_only rm then hr_topic rm else None), ru_key = hr_key rm, ru_ops = hr_ops rm,
     ru_voiced = hr_voiced rm, ru_bans = hr_bans rm, ru_moderated = hr_moderated rm, ru_invite_only = hr_invite_only rm,
     ru_topic_ops_only = hr_topic_ops_only rm, ru_no_outside_msgs = hr_no_outside_msgs rm, ru_private = hr_private rm,
     ru_registered = hr_registered rm\<rparr>"

fun untouched :: "bytes \<Rightarrow> hub_room \<Rightarrow> hub_room option \<Rightarrow> bool" where
  "untouched l rm0 None \<longleftrightarrow> \<not> hr_registered rm0 \<and> set (hr_members rm0) \<subseteq> {l}"
| "untouched l rm0 (Some rm) \<longleftrightarrow> rules_of rm = rules_of rm0 \<and> set (hr_members rm) - {l} = set (hr_members rm0) - {l}"

definition spared :: "hub_core \<Rightarrow> ustr \<Rightarrow> bytes \<Rightarrow> bytes \<Rightarrow> hub_core \<Rightarrow> bool" where
  "spared h0 r0 l i h \<longleftrightarrow> hc_server_ops h = hc_server_ops h0 \<and> hc_klines h = hc_klines h0 \<and>
     i \<notin> set (hc_server_ops h0) \<and>
     (case hub_room_of h0 r0 of
        None \<Rightarrow> hub_room_of h r0 = None
      | Some rm0 \<Rightarrow> i \<notin> set (hr_ops rm0) \<and> untouched l rm0 (hub_room_of h r0))"

lemma rules_hard [simp]: "rules_of (hard rm) = rules_of rm"
  by (simp add: rules_of_def)

lemma untouched_hard: "map_option hard x = map_option hard y \<Longrightarrow> untouched l rm0 x = untouched l rm0 y"
proof (cases x; cases y)
  fix a b
  assume "x = Some a" "y = Some b" "map_option hard x = map_option hard y"
  moreover from this have "hard a = hard b" by simp
  then have "rules_of a = rules_of b" "hr_members a = hr_members b"
    using rules_hard hard_simps(1) by metis+
  ultimately show ?thesis by simp
qed simp_all

lemma spared_core:
  assumes "spared h0 r0 l i h" and c: "same_core h h'"
  shows "spared h0 r0 l i h'"
proof -
  have eq: "map_option hard (hub_room_of h' r0) = map_option hard (hub_room_of h r0)" using c by (simp add: same_core_def)
  have "hub_room_of h' r0 = None \<longleftrightarrow> hub_room_of h r0 = None" by (rule same_core_room(1) [OF c])
  then show ?thesis using assms untouched_hard [OF eq] c
    by (simp add: spared_def same_core_def split: option.splits)
qed

lemma spared_room:
  assumes "spared h0 r0 l i h" and "hc_server_ops h' = hc_server_ops h" "hc_klines h' = hc_klines h"
    and "hub_room_of h' r0 = hub_room_of h r0"
  shows "spared h0 r0 l i h'"
  using assms(1) unfolding spared_def assms(2-4) .

lemma spared_op: "spared h0 r0 l i h \<Longrightarrow> hub_room_of h r = Some room \<Longrightarrow> is_room_op h room i \<Longrightarrow> r \<noteq> r0"
  by (auto simp: spared_def is_room_op_def rules_of_def split: option.splits)

lemma spared_upd_other: "spared h0 r0 l i h \<Longrightarrow> r \<noteq> r0 \<Longrightarrow> spared h0 r0 l i (upd_room r f h)"
  by (erule spared_room) (simp_all add: upd_room_def)

lemma spared_forget: "spared h0 r0 l i h \<Longrightarrow> spared h0 r0 l i (forget_room r k h)"
  by (erule spared_room) (simp_all add: forget_room_def upd_session_def)

lemma spared_drop_other: "spared h0 r0 l i h \<Longrightarrow> r \<noteq> r0 \<Longrightarrow> spared h0 r0 l i (drop_member r k h)"
  by (erule spared_room) (simp_all add: drop_member_room)

lemma spared_drop_self: "spared h0 r0 l i h \<Longrightarrow> spared h0 r0 l i (drop_member r l h)"
proof (cases "r = r0")
  case True
  assume s: "spared h0 r0 l i h"
  show ?thesis
  proof (cases "hub_room_of h r0")
    case None
    then show ?thesis using s True by (simp add: drop_member_def)
  next
    case (Some rm)
    then obtain rm0 where rm0: "hub_room_of h0 r0 = Some rm0" "rules_of rm = rules_of rm0"
        "set (hr_members rm) - {l} = set (hr_members rm0) - {l}" "i \<notin> set (hr_ops rm0)"
      using s by (auto simp: spared_def split: option.splits)
    have reg: "hr_registered rm = hr_registered rm0" using rm0(2) by (simp add: rules_of_def)
    have "rules_of (rm\<lparr>hr_members := ms\<rparr>) = rules_of rm" for ms by (simp add: rules_of_def)
    moreover have "hrem l (hr_members rm) = [] \<Longrightarrow> set (hr_members rm0) \<subseteq> {l}"
      using rm0(3) set_hrem [of l "hr_members rm"] by auto
    ultimately show ?thesis using s Some True rm0 reg by (simp add: spared_def drop_member_room)
  qed
qed (rule spared_drop_other)

lemma spared_eject: "spared h0 r0 l i h \<Longrightarrow> r \<noteq> r0 \<Longrightarrow> spared h0 r0 l i (fst (for_each (eject_link ev r target reason) ks h))"
proof (induction ks arbitrary: h)
  case (Cons k ks)
  have "spared h0 r0 l i (fst (eject_link ev r target reason k h))"
    by (rule spared_core [OF spared_drop_other [OF spared_forget [OF Cons.prems(1)] Cons.prems(2)] eject_link_core])
  then show ?case using Cons.IH Cons.prems(2) by (simp add: fst_then_do)
qed simp

lemma admit_member_core:
  fixes l i r room h ev
  defines "f \<equiv> \<lambda>rm. rm\<lparr>hr_members := hadd l (hr_members rm), hr_invited := hdel i (hr_invited rm),
    hr_rejoin_until := hdel i (hr_rejoin_until rm)\<rparr>"
  shows "\<exists>h3. same_core (upd_room r f h) h3 \<and>
    bookless (fst (admit_member ev l i r room h)) = bookless (upd_session l (\<lambda>s. s\<lparr>hs_rooms := hadd r (hs_rooms s)\<rparr>) h3)"
proof (intro exI conjI)
  let ?h1 = "upd_room r f h"
  let ?h3 = "if hget (hr_invited room) i \<noteq> None then fst (persist_room ev r (Some l) (touch_room ev r ?h1)) else touch_room ev r ?h1"
  show "same_core ?h1 ?h3" using same_core_trans [OF core_touch_room core_persist_room] core_touch_room by simp
  show "bookless (fst (admit_member ev l i r room h)) = bookless (upd_session l (\<lambda>s. s\<lparr>hs_rooms := hadd r (hs_rooms s)\<rparr>) ?h3)"
    by (simp add: admit_member_def Let_def case_prod_unfold f_def)
qed

lemma spared_admit:
  assumes s: "spared h0 r0 l i h"
  shows "spared h0 r0 l i (fst (admit_member ev l i r room h))"
proof -
  let ?f = "\<lambda>rm. rm\<lparr>hr_members := hadd l (hr_members rm), hr_invited := hdel i (hr_invited rm),
    hr_rejoin_until := hdel i (hr_rejoin_until rm)\<rparr>"
  have "rules_of (?f rm) = rules_of rm" for rm by (simp add: rules_of_def)
  then have "spared h0 r0 l i (upd_room r ?f h)"
    using s by (cases "hub_room_of h r0") (auto simp: spared_def upd_room_def split: option.splits)
  moreover obtain h3 where "same_core (upd_room r ?f h) h3"
    and b: "bookless (fst (admit_member ev l i r room h)) = bookless (upd_session l (\<lambda>s. s\<lparr>hs_rooms := hadd r (hs_rooms s)\<rparr>) h3)"
    using admit_member_core by blast
  ultimately have "spared h0 r0 l i h3" using spared_core by blast
  then have "spared h0 r0 l i (upd_session l (\<lambda>s. s\<lparr>hs_rooms := hadd r (hs_rooms s)\<rparr>) h3)"
    by (rule spared_room) (simp_all add: upd_session_def)
  then show ?thesis by (rule spared_core) (rule bookless_core [OF b])
qed

lemma spared_join:
  assumes "spared h0 r0 l i h" and "session_identity l h = Some i"
  shows "spared h0 r0 l i (fst (on_join ev l en h))"
proof -
  have "i \<notin> set (hc_server_ops h)" using assms(1) by (auto simp: spared_def)
  then show ?thesis using assms spared_admit [OF assms(1)]
    by (auto simp: on_join_def Let_def split: option.splits sum.splits)
qed

interpretation outsider: governed "spared h0 r0 l i" l i for h0 r0 l i
proof
  fix h h' r room t f ev target reason links raw now en
  let ?P = "spared h0 r0 l i"
  show "?P h \<Longrightarrow> same_core h h' \<Longrightarrow> ?P h'" by (rule spared_core)
  show "?P h \<Longrightarrow> hub_room_of h r = Some room \<Longrightarrow> \<not> hr_topic_ops_only room \<Longrightarrow> ?P (upd_room r (set_topic t) h)"
    by (cases "r = r0") (auto simp: spared_def upd_room_def set_topic_def rules_of_def split: option.splits)
  show "?P h \<Longrightarrow> hub_room_of h r = Some room \<Longrightarrow> is_room_op h room i \<Longrightarrow> ?P (upd_room r f h)"
    using spared_upd_other spared_op by blast
  show "?P h \<Longrightarrow> hub_room_of h r = Some room \<Longrightarrow> is_room_op h room i \<Longrightarrow>
      ?P (fst (for_each (eject_link ev r target reason) links h))"
    using spared_eject spared_op by blast
  show "?P (fst (ban_add ev l r raw target h))" if "?P h" "hub_room_of h r = Some room" "is_room_op h room i"
  proof -
    let ?f = "\<lambda>rm. rm\<lparr>hr_bans := hadd target (hr_bans rm), hr_rejoin_until := hdel target (hr_rejoin_until rm)\<rparr>"
    have r: "r \<noteq> r0" using spared_op that by blast
    let ?h1 = "fst (for_each (eject_link ev r target (lit ''banned from '' @ r))
      (room_links_for_identity (upd_room r ?f h) r target) (upd_room r ?f h))"
    have "?P ?h1" by (rule spared_eject [OF spared_upd_other [OF that(1) r] r])
    moreover have "same_core ?h1 (note_moderated ev l r Mod_Ban (Some target) (fst (persist_room ev r (Some l) ?h1)))"
      by (rule same_core_trans [OF core_persist_room bookless_core]) simp
    ultimately show ?thesis by (simp add: ban_add_def fst_run_all quietly_def spared_core)
  qed
  have sysop: "?P h \<Longrightarrow> i \<in> set (hc_server_ops h) \<Longrightarrow> False" for h by (simp add: spared_def)
  show "?P h \<Longrightarrow> i \<in> set (hc_server_ops h) \<Longrightarrow> ?P (fst (kline_add ev l target h))" using sysop by blast
  show "?P h \<Longrightarrow> i \<in> set (hc_server_ops h) \<Longrightarrow> ?P (h\<lparr>hc_klines := hrem target (hc_klines h)\<rparr>)" using sysop by blast
  show "?P h \<Longrightarrow> i \<in> set (hc_server_ops h) \<Longrightarrow> ?P (upd_room r (registered_by i now) h)" using sysop by blast
  show "?P h \<Longrightarrow> i \<in> set (hc_server_ops h) \<Longrightarrow> ?P (drop_room_if_empty r (hr_members room = []) (unregistered r h))"
    using sysop by blast
  show "?P h \<Longrightarrow> session_identity l h = Some i \<Longrightarrow> ?P (fst (on_join ev l en h))" by (rule spared_join)
  show "?P h \<Longrightarrow> ?P (drop_member r l (upd_session l (\<lambda>s. s\<lparr>hs_rooms := hrem r (hs_rooms s)\<rparr>) h))"
    using spared_drop_self spared_forget by (simp add: forget_room_def)
qed

lemma spared_start:
  assumes "i \<notin> set (hc_server_ops h)" and "\<And>rm. hub_room_of h r = Some rm \<Longrightarrow> i \<notin> set (hr_ops rm)"
  shows "spared h r l i h"
  using assms by (simp add: spared_def split: option.splits)

end
