(* ===== verification/Hub_Sample.thy ===== *)
theory Hub_Sample
  imports Hub_Authority "HOL-Library.Code_Target_Nat"
begin

text \<open>
  A small run of the hub, for the witnesses of its properties: an operator and a guest connect, say
  HELLO and enter a room.
\<close>

definition sample_env :: hub_env where
  "sample_env = \<lparr>ev_now_unix = 1800000000, ev_now_ms = 1800000000000, ev_instant = 5000, ev_lower = (\<lambda>t. t), ev_hex = List.map unat,
     ev_unhex = (\<lambda>t. if list_all (\<lambda>c. c < 256) t then Some (List.map word_of_nat t) else None),
     ev_hmac = (\<lambda>k m. k @ m), ev_hmac_verify = (\<lambda>k m d. k @ m = d), ev_sha256 = (\<lambda>b. b), ev_utf8 = List.map word_of_nat,
     ev_from_utf8 = (\<lambda>b. Some (List.map unat b)), ev_salt = [1], ev_id = [1], ev_link_mdu = 400,
     ev_packet_len = (\<lambda>p. Some 40), ev_relay_len = (\<lambda>e. Some 40)\<rparr>"

definition sample_hub_config :: hub_config where
  "sample_hub_config = \<lparr>cf_hub_name = lit ''hub'', cf_greeting = None, cf_ping_interval_secs = 30, cf_ping_timeout_secs = 20,
     cf_max_nick_bytes = 16, cf_max_room_name_bytes = 16, cf_max_message_body_bytes = 100, cf_max_rooms_per_session = 4,
     cf_rate_messages_per_minute = 60, cf_include_member_list = True, cf_resource_send_enabled = False,
     cf_resource_accept_enabled = False, cf_evidence_retention_secs = 3600, cf_max_outbound_resource_bytes = 0,
     cf_max_resource_notice_bytes = 0, cf_max_resource_bytes = 0, cf_server_operators = [[7]],
     cf_banned_identities = [[6]], cf_invite_timeout_secs = 10, cf_rejoin_grace_secs = 60,
     cf_room_registry_prune_after_secs = 0, cf_room_registry_prune_interval_secs = 0, cf_max_registered_rooms = 8\<rparr>"

definition sample_room :: ustr where "sample_room = lit ''den''"

definition sample_envelope :: "message_type \<Rightarrow> 8 word \<Rightarrow> ustr option \<Rightarrow> cbor_value option \<Rightarrow> envelope" where
  "sample_envelope t i room body = \<lparr>en_version = 1, en_type = t, en_id = [i], en_timestamp = 0, en_source = [],
     en_room = room, en_body = body, en_nickname = None, en_destination = None\<rparr>"

definition sample_start :: hub_core where
  "sample_start = hub_core_new sample_env sample_hub_config [1] [] (admission_new False 0) [3] []"

definition sample_lines :: "hub_core \<Rightarrow> ustr list" where "sample_lines h = []"

definition sample_step :: "hub_input \<Rightarrow> hub_core \<Rightarrow> hub_core" where
  "sample_step x h = fst (hub_handle sample_env [] sample_lines x h)"

text \<open>The operator, identity 7 on link 17, opens the room; the guest, identity 8 on link 18, joins it.\<close>

definition sample_inputs :: "hub_input list" where
  "sample_inputs = [In_Established [17], In_Identified [17] [7], In_Envelope [17] (sample_envelope Hello 1 None None),
     In_Envelope [17] (sample_envelope Join 2 (Some sample_room) None),
     In_Established [18], In_Identified [18] [8], In_Envelope [18] (sample_envelope Hello 1 None None),
     In_Envelope [18] (sample_envelope Join 2 (Some sample_room) None)]"

definition sample_hub :: hub_core where
  "sample_hub = fold sample_step sample_inputs sample_start"

fun sample_admissible :: "hub_input list \<Rightarrow> hub_core \<Rightarrow> bool" where
  "sample_admissible [] h \<longleftrightarrow> True"
| "sample_admissible (x # xs) h \<longleftrightarrow> identity_gate x h \<and> moved_by x h {} = {} \<and> sample_admissible xs (sample_step x h)"

lemma sample_fold_reachable:
  "hub_reachable [] sample_lines {} h \<Longrightarrow> sample_admissible xs h \<Longrightarrow> hub_reachable [] sample_lines {} (fold sample_step xs h)"
proof (induction xs arbitrary: h)
  case (Cons x xs)
  then have "hub_reachable [] sample_lines (moved_by x h {}) (sample_step x h)"
    unfolding sample_step_def by (intro hub_handled) simp_all
  then show ?case using Cons by simp
qed simp

lemma sample_reachable: "hub_reachable [] sample_lines {} sample_hub"
proof -
  have "hub_reachable [] sample_lines {} sample_start" unfolding sample_start_def by (rule hub_started)
  moreover have "sample_admissible sample_inputs sample_start" by code_simp
  ultimately show ?thesis unfolding sample_hub_def by (rule sample_fold_reachable)
qed

lemma sample_guest: "session_identity [18] sample_hub = Some [8]"
  by code_simp

lemma sample_members: "map_option hr_members (hub_room_of sample_hub sample_room) = Some [[17], [18]]"
  by code_simp

end
