(* ===== verification/Hub_Authentic.thy ===== *)
theory Hub_Authentic
  imports Hub_Reach
begin

text \<open>
  Who speaks and what the owner's evidence holds.  A step is \<open>honest\<close> when everything it queues comes from
  the hub itself and it keeps the evidence ring in order; every command and every handler is honest except
  the relaying of a message, whose packets carry the identity of the link that sent it.
\<close>

section \<open>The evidence ring\<close>

definition shown_text :: "nat \<Rightarrow> ustr option \<Rightarrow> bool" where
  "shown_text n t \<longleftrightarrow> (case t of None \<Rightarrow> True | Some s \<Rightarrow> s \<noteq> [] \<and> str_len s \<le> n \<and>
     list_all (\<lambda>c. \<not> is_control c \<and> \<not> presentation_control c \<and> (is_whitespace c \<longrightarrow> c = 32)) s)"

text \<open>The two texts of a record that other people wrote.\<close>

definition shown_record :: "hub_core \<Rightarrow> evidence_record \<Rightarrow> bool" where
  "shown_record h e \<longleftrightarrow> shown_text (cf_max_nick_bytes (hc_config h)) (er_nickname e) \<and>
     shown_text EVIDENCE_EXCERPT_BYTES (er_excerpt e)"

lemma shown_record_config: "hc_config h' = hc_config h \<Longrightarrow> shown_record h' e = shown_record h e"
  by (simp add: shown_record_def)

definition tidy :: "hub_core \<Rightarrow> bool" where
  "tidy h \<longleftrightarrow> length (hc_evidence h) \<le> EVIDENCE_MAX_EVENTS \<and>
     hc_evidence_bytes h = sum_list (List.map er_bytes (hc_evidence h)) \<and> hc_evidence_bytes h \<le> EVIDENCE_MAX_BYTES \<and>
     sorted_wrt (<) (List.map er_sequence (hc_evidence h)) \<and>
     (\<forall>e \<in> set (hc_evidence h). er_sequence e \<le> hc_evidence_sequence h \<and> shown_record h e)"

definition books :: "hub_core \<Rightarrow> bytes \<times> hub_config \<times> evidence_record list \<times> nat \<times> nat" where
  "books h = (hc_hub_hash h, hc_config h, hc_evidence h, hc_evidence_bytes h, hc_evidence_sequence h)"

lemma books_hash: "books h' = books h \<Longrightarrow> hc_hub_hash h' = hc_hub_hash h"
  by (simp add: books_def)

lemma books_tidy: "books h' = books h \<Longrightarrow> tidy h' = tidy h"
  by (simp add: books_def tidy_def shown_record_def)

lemma hash_evict [simp]: "hc_hub_hash (evict_oldest_evidence h) = hc_hub_hash h" "hc_config (evict_oldest_evidence h) = hc_config h"
  by (simp_all add: evict_oldest_evidence_def split: list.splits)

lemma kept_evict_while: "hc_hub_hash (evict_while P h) = hc_hub_hash h \<and> hc_config (evict_while P h) = hc_config h"
proof (induction P h rule: evict_while.induct)
  case (1 P h)
  then show ?case by (subst (1 2) evict_while.simps) simp
qed

lemma hash_evict_while [simp]: "hc_hub_hash (evict_while P h) = hc_hub_hash h" "hc_config (evict_while P h) = hc_config h"
  by (simp_all add: kept_evict_while)

lemma hash_prune [simp]: "hc_hub_hash (prune_evidence now h) = hc_hub_hash h" "hc_config (prune_evidence now h) = hc_config h"
  by (simp_all add: prune_evidence_def Let_def)

lemma hash_push_evidence [simp]: "hc_hub_hash (push_evidence ev kind a n room src nick tgt ex h) = hc_hub_hash h"
  by (simp add: push_evidence_def Let_def)

text \<open>Eviction drops records from the front: the order and the sum survive.\<close>

definition ordered_ring :: "hub_core \<Rightarrow> bool" where
  "ordered_ring h \<longleftrightarrow> hc_evidence_bytes h = sum_list (List.map er_bytes (hc_evidence h)) \<and>
     sorted_wrt (<) (List.map er_sequence (hc_evidence h)) \<and>
     (\<forall>e \<in> set (hc_evidence h). er_sequence e \<le> hc_evidence_sequence h \<and> shown_record h e)"

lemma tidy_ordered: "tidy h \<longleftrightarrow> ordered_ring h \<and> \<not> over_evidence h"
  by (auto simp: tidy_def ordered_ring_def over_evidence_def)

lemma ordered_evict: "ordered_ring h \<Longrightarrow> ordered_ring (evict_oldest_evidence h)"
  by (auto simp: ordered_ring_def shown_record_def evict_oldest_evidence_def split: list.splits)

lemma ordered_evict_while: "ordered_ring h \<Longrightarrow> ordered_ring (evict_while P h)"
proof (induction P h rule: evict_while.induct)
  case (1 P h)
  then show ?case by (subst evict_while.simps) (simp add: ordered_evict)
qed

lemma evict_while_done: "hc_evidence (evict_while P h) = [] \<or> \<not> P (evict_while P h)"
proof (induction P h rule: evict_while.induct)
  case (1 P h)
  then show ?case by (subst (1 2) evict_while.simps) auto
qed

lemma evict_all: "hc_evidence (evict_while (\<lambda>_. True) h) = []"
  using evict_while_done [of "\<lambda>_. True" h] by simp

lemma over_empty: "ordered_ring h \<Longrightarrow> hc_evidence h = [] \<Longrightarrow> \<not> over_evidence h"
  by (simp add: ordered_ring_def over_evidence_def)

lemma tidy_evict_over: "ordered_ring h \<Longrightarrow> tidy (evict_while over_evidence h)"
  using ordered_evict_while [of h over_evidence] over_empty evict_while_done [of over_evidence h] by (auto simp: tidy_ordered)

lemma not_over_evict: "\<not> over_evidence h \<Longrightarrow> \<not> over_evidence (evict_oldest_evidence h)"
  by (auto simp: over_evidence_def evict_oldest_evidence_def split: list.splits)

lemma tidy_evict_while: "tidy h \<Longrightarrow> tidy (evict_while P h)"
proof (induction P h rule: evict_while.induct)
  case (1 P h)
  have "tidy (evict_oldest_evidence h)" using 1(2) not_over_evict ordered_evict by (simp add: tidy_ordered)
  then show ?case using 1 by (subst evict_while.simps) simp
qed

lemma tidy_prune: "tidy h \<Longrightarrow> tidy (prune_evidence now h)"
  by (simp add: prune_evidence_def Let_def tidy_evict_while)

section \<open>What the owner is shown\<close>

abbreviation visible_char :: "nat \<Rightarrow> bool" where
  "visible_char c \<equiv> \<not> is_control c \<and> \<not> presentation_control c \<and> (is_whitespace c \<longrightarrow> c = 32)"

lemma space_visible: "visible_char 32"
  by (simp add: is_control_def presentation_control_def)

lemma ellipsis_visible: "visible_char ELLIPSIS"
  by (simp add: is_control_def presentation_control_def is_whitespace_def ELLIPSIS_def)

lemma sanitize_visible: "list_all visible_char acc \<Longrightarrow> list_all visible_char (sanitize_evidence acc pending t)"
proof (induction acc pending t rule: sanitize_evidence.induct)
  case (2 acc pending c cs)
  then show ?case using space_visible by simp
qed simp

lemma str_len_append [simp]: "str_len (a @ b) = str_len a + str_len b"
  by (induction a) simp_all

lemma list_all_take_bytes: "list_all P s \<Longrightarrow> list_all P (str_take_bytes n s)"
  by (induction n s rule: str_take_bytes.induct) auto

lemma list_all_trim_end: "list_all P s \<Longrightarrow> list_all P (str_trim_end s)"
  unfolding str_trim_end_def list_all_iff by (metis set_dropWhileD set_rev)

lemma str_len_drop_while: "str_len (rev (dropWhile P (rev s))) \<le> str_len s"
proof (induction s rule: rev_induct)
  case (snoc x xs)
  then show ?case by simp
qed simp

lemma shown_bounded: "shown_text n (bounded_evidence_text t n)"
proof -
  have vis: "list_all visible_char (sanitize_evidence [] False t)" using sanitize_visible by simp
  let ?s = "sanitize_evidence [] False t"
  have len: "str_len (str_trim_end (str_take_bytes k ?s)) \<le> k" for k
    using str_len_drop_while [of is_whitespace "str_take_bytes k ?s"] str_take_bytes_len [of k ?s]
    by (simp add: str_trim_end_def)
  have all: "list_all visible_char (str_trim_end (str_take_bytes k ?s))" for k
    using list_all_trim_end [OF list_all_take_bytes [OF vis]] .
  have "str_len (str_trim_end (str_take_bytes (n - utf8_width ELLIPSIS) ?s) @ [ELLIPSIS]) \<le> n" if "utf8_width ELLIPSIS \<le> n"
    using len [of "n - utf8_width ELLIPSIS"] that by simp
  then show ?thesis using vis len all ellipsis_visible
    by (simp add: shown_text_def bounded_evidence_text_def Let_def)
qed

lemma tidy_push_evidence:
  assumes "tidy h"
  shows "tidy (push_evidence ev kind a n room src nick tgt ex h)"
proof (cases "cf_evidence_retention_secs (hc_config h) = 0")
  case False
  define h1 where "h1 = prune_evidence (ev_instant ev) h"
  define h2 where "h2 = (if hc_evidence_sequence h1 = U64_MAX
    then (evict_while (\<lambda>_. True) h1)\<lparr>hc_evidence_sequence := 0\<rparr> else h1)"
  define h3 where "h3 = h2\<lparr>hc_evidence_sequence := hc_evidence_sequence h2 + 1\<rparr>"
  have h1: "tidy h1" unfolding h1_def using assms by (rule tidy_prune)
  have "tidy (evict_while (\<lambda>_. True) h1)" using h1 by (rule tidy_evict_while)
  then have h2: "tidy h2" using h1 evict_all [of h1] by (simp add: h2_def tidy_def)
  have config: "hc_config h2 = hc_config h" by (simp add: h1_def h2_def)
  have h3: "tidy h3" "\<forall>e \<in> set (hc_evidence h3). er_sequence e < hc_evidence_sequence h3"
    using h2 by (auto simp: h3_def tidy_def less_Suc_eq_le shown_record_def)
  have shown: "shown_text k (Option.bind t (\<lambda>t. bounded_evidence_text t k))" for k t
    using shown_bounded by (cases t) (simp_all add: shown_text_def)
  have "ordered_ring (h3\<lparr>hc_evidence := hc_evidence h3 @ [e], hc_evidence_bytes := hc_evidence_bytes h3 + er_bytes e\<rparr>)"
    if "er_sequence e = hc_evidence_sequence h3" "shown_record h e" for e
    using h3 that config by (auto simp: ordered_ring_def tidy_def sorted_wrt_append shown_record_def h3_def)
  then have new: "tidy (evict_while over_evidence
      (h3\<lparr>hc_evidence := hc_evidence h3 @ [e], hc_evidence_bytes := hc_evidence_bytes h3 + b\<rparr>))"
    if "er_sequence e = hc_evidence_sequence h3" "shown_record h e" "b = er_bytes e" for e b
    using that tidy_evict_over by blast
  have "tidy (h3\<lparr>hc_evidence_evicted := k\<rparr>)" for k using h3(1) by (simp add: tidy_def shown_record_def)
  then show ?thesis using False
    unfolding push_evidence_def Let_def h1_def [symmetric] h2_def [symmetric] h3_def [symmetric]
    by (simp only: if_False split: if_splits) (simp add: new shown_record_def shown)
qed (use assms in \<open>simp add: push_evidence_def\<close>)

section \<open>Honest steps\<close>

fun hub_send_from :: "bytes \<Rightarrow> hub_send \<Rightarrow> bool" where
  "hub_send_from hash (Send_Packet k p) \<longleftrightarrow> hp_source p = hash"
| "hub_send_from hash (Send_Relay k en) \<longleftrightarrow> False"
| "hub_send_from hash (Send_Resource k p b) \<longleftrightarrow> hp_source p = hash"
| "hub_send_from hash (Send_Close k) \<longleftrightarrow> True"
| "hub_send_from hash (Send_Persist p) \<longleftrightarrow> True"

definition fine :: "hub_core \<Rightarrow> hub_core \<times> hub_send list \<Rightarrow> bool" where
  "fine h res \<longleftrightarrow> hc_hub_hash (fst res) = hc_hub_hash h \<and> (tidy h \<longrightarrow> tidy (fst res)) \<and>
     list_all (hub_send_from (hc_hub_hash h)) (snd res)"

definition honest :: "hub_step \<Rightarrow> bool" where
  "honest f \<longleftrightarrow> (\<forall>h. fine h (f h))"

definition orderly :: "(hub_core \<Rightarrow> hub_core) \<Rightarrow> bool" where
  "orderly g \<longleftrightarrow> (\<forall>h. hc_hub_hash (g h) = hc_hub_hash h \<and> (tidy h \<longrightarrow> tidy (g h)))"

named_theorems honest_intros "steps that only the hub speaks in"

lemma honestI: "(\<And>h. fine h (f h)) \<Longrightarrow> honest f"
  by (simp add: honest_def)

lemma honestD: "honest f \<Longrightarrow> fine h (f h)"
  by (simp add: honest_def)

lemma fine_same [simp]: "fine h (h, sends) \<longleftrightarrow> list_all (hub_send_from (hc_hub_hash h)) sends"
  by (simp add: fine_def)

lemma fine_trans:
  assumes "fine h (h1, s1)" and "fine h1 (h2, s2)"
  shows "fine h (h2, s1 @ s2)"
  using assms by (simp add: fine_def)

lemma fine_cons: "fine h (h', s) \<Longrightarrow> hub_send_from (hc_hub_hash h) x \<Longrightarrow> fine h (h', x # s)"
  by (simp add: fine_def)

lemma fine_after: "fine h (h1, []) \<Longrightarrow> fine h1 res \<Longrightarrow> fine h res"
  by (simp add: fine_def)

lemma honest_then_do [honest_intros]: "honest f \<Longrightarrow> honest g \<Longrightarrow> honest (then_do f g)"
  unfolding honest_def then_do_def Let_def by (auto simp: case_prod_unfold intro: fine_trans [of _ "fst (f h)" "snd (f h)" for h])

lemma honest_run_all [honest_intros]: "list_all honest fs \<Longrightarrow> honest (run_all fs)"
proof (induction fs)
  case Nil
  then show ?case by (simp add: honest_def run_all.simps)
next
  case (Cons f fs)
  then have "honest (then_do f (run_all fs))" by (simp add: honest_then_do)
  then show ?case by (simp add: honest_def run_all.simps)
qed

lemma honest_for_each [honest_intros]: "(\<And>x. honest (f x)) \<Longrightarrow> honest (for_each f xs)"
proof (induction xs)
  case (Cons x xs)
  then have "honest (then_do (f x) (for_each f xs))" by (simp add: honest_then_do)
  then show ?case by (simp add: honest_def)
qed (simp add: honest_def)

lemma honest_quietly: "honest (quietly g) \<longleftrightarrow> orderly g"
  by (simp add: honest_def orderly_def fine_def quietly_def)

lemma honest_saying: "honest (saying s) \<longleftrightarrow> (\<forall>h. list_all (hub_send_from (hc_hub_hash h)) (s h))"
  by (simp add: honest_def saying_def)

lemma orderly_books: "(\<And>h. books (g h) = books h) \<Longrightarrow> orderly g"
  unfolding orderly_def using books_hash books_tidy by blast

lemma orderly_comp: "orderly f \<Longrightarrow> orderly g \<Longrightarrow> orderly (\<lambda>h. f (g h))"
  by (simp add: orderly_def)

lemma books_upd [simp]:
  "books (upd_room r f h) = books h" "books (upd_session l g h) = books h" "books (upd_stats k h) = books h"
  "books (push_event e h) = books h" "books (h\<lparr>hc_rooms := rs\<rparr>) = books h" "books (h\<lparr>hc_sessions := ss\<rparr>) = books h"
  "books (h\<lparr>hc_klines := ks\<rparr>) = books h" "books (h\<lparr>hc_by_identity := bs\<rparr>) = books h"
  "books (h\<lparr>hc_pending_removals := ps\<rparr>) = books h" "books (h\<lparr>hc_admission := ad\<rparr>) = books h"
  "books (h\<lparr>hc_klines_dirty := d\<rparr>) = books h" "books (forget_leases t h) = books h" "books (forget_removal r h) = books h"
  "books (touch_room ev r h) = books h" "books (drop_room_if_empty r u h) = books h" "books (note_relayed r kd b n h) = books h"
  "books (upd_admission f' h) = books h"
  by (simp_all add: books_def upd_room_def upd_session_def upd_stats_def push_event_def forget_leases_def forget_removal_def
      touch_room_def drop_room_if_empty_def note_relayed_def upd_admission_def)

lemma orderly_push_evidence: "orderly (push_evidence ev kind a n room src nick tgt ex)"
  by (simp add: orderly_def tidy_push_evidence)

lemma hash_books [simp]:
  "hc_hub_hash (push_event e h) = hc_hub_hash h" "tidy (push_event e h) = tidy h"
  "hc_hub_hash (upd_stats k h) = hc_hub_hash h" "tidy (upd_stats k h) = tidy h"
  "hc_hub_hash (upd_session l g h) = hc_hub_hash h" "tidy (upd_session l g h) = tidy h"
  "hc_hub_hash (upd_room r f h) = hc_hub_hash h" "tidy (upd_room r f h) = tidy h"
  using books_hash books_tidy books_upd by blast+

lemma orderly_notes [honest_intros]:
  "orderly (note_moderated ev l r act t)" "orderly (note_trust_changed ev l ch i)" "orderly (note_admin_moderated ev i r act t)"
  "orderly (note_admin_trust_changed ev i ch i')" "orderly (note_room_evidence ev kind i nick r)"
  "orderly (note_content_evidence ev i nick r kd txt)" "orderly (note_service_degraded ev reason n)"
  using tidy_push_evidence
  by (simp_all add: orderly_def note_moderated_def note_trust_changed_def note_admin_moderated_def note_admin_trust_changed_def
      note_room_evidence_def note_content_evidence_def note_service_degraded_def)

lemma orderly_room [honest_intros]: "orderly (upd_room r f)" "orderly (upd_session l g)" "orderly (\<lambda>h. h)"
  "orderly (forget_leases t)" "orderly (forget_removal r)" "orderly (drop_room_if_empty r u)"
  "orderly (\<lambda>h. h\<lparr>hc_klines := ks h\<rparr>)" "orderly (\<lambda>h. h\<lparr>hc_rooms := rs h\<rparr>)" "orderly (\<lambda>h. h\<lparr>hc_pending_removals := ps h\<rparr>)"
  by (auto intro: orderly_books)

section \<open>What the hub says\<close>

lemma made_source [simp]: "hp_source (made h t) = hc_hub_hash h"
  by (simp add: made_def)

lemma from_hub [simp]:
  "hub_send_from (hc_hub_hash h) (hub_notice h l t room)" "hub_send_from (hc_hub_hash h) (hub_error h l t room)"
  "hub_send_from (hc_hub_hash h) (hub_error_echo ev h l t room)" "hub_send_from (hc_hub_hash h) (room_status_notice h l r)"
  "hub_send_from (hc_hub_hash h) (removed_op r o' room)" "hub_send_from (hc_hub_hash h) (persist_plain op')"
  by (simp_all add: hub_notice_def hub_error_def hub_error_echo_def room_status_notice_def Let_def removed_op_def persist_plain_def)

lemma from_hub_lists [simp]:
  "list_all (hub_send_from (hc_hub_hash h)) (push_notice_entries ev h l header entries sep room)"
  "list_all (hub_send_from (hc_hub_hash h)) (broadcast h rm r t)"
  "list_all (hub_send_from (hc_hub_hash h)) (broadcast_mode h r)"
  "list_all (hub_send_from (hc_hub_hash h)) (broadcast_admin_topic h r)"
  "list_all (hub_send_from (hc_hub_hash h)) (push_roster_joined ev h l r i roster)"
proof -
  show b: "list_all (hub_send_from (hc_hub_hash h)) (broadcast h rm r t)" for rm t by (simp add: broadcast_def list_all_iff)
  show "list_all (hub_send_from (hc_hub_hash h)) (push_notice_entries ev h l header entries sep room)"
    by (simp add: push_notice_entries_def Let_def list_all_iff)
  show "list_all (hub_send_from (hc_hub_hash h)) (broadcast_mode h r)" by (simp add: broadcast_mode_def b split: option.split)
  show "list_all (hub_send_from (hc_hub_hash h)) (broadcast_admin_topic h r)"
    by (simp add: broadcast_admin_topic_def b split: option.split)
  show "list_all (hub_send_from (hc_hub_hash h)) (push_roster_joined ev h l r i roster)"
    by (simp add: push_roster_joined_def list_all_iff)
qed

lemma honest_say [honest_intros]: "honest (say l t room)" "honest (refuse l t room)"
  by (simp_all add: say_def refuse_def honest_saying)

lemma honest_broadcast [honest_intros]:
  "honest (saying (\<lambda>h. broadcast h rm r t))" "honest (saying (\<lambda>h. broadcast_mode h r))"
  "honest (saying (\<lambda>h. broadcast_admin_topic h r @ broadcast_mode h r))" "honest (saying (\<lambda>h. [removed_op r o' room]))"
  "honest (saying (\<lambda>h. case hub_room_of h r of None \<Rightarrow> [] | Some rm \<Rightarrow> broadcast h rm r t))"
  by (simp_all add: honest_saying removed_op_def split: option.splits)

lemma honest_persist_room [honest_intros]: "honest (persist_room ev r origin)"
  by (auto simp: honest_def persist_room_def fine_def split: option.splits)

lemma honest_persist_klines [honest_intros]: "honest (persist_klines ev origin)"
  by (simp add: honest_def persist_klines_def fine_def) (metis books_tidy books_upd(11))

section \<open>Leaving and joining\<close>

lemma books_eq_fine: "books h' = books h \<Longrightarrow> list_all (hub_send_from (hc_hub_hash h)) s \<Longrightarrow> fine h (h', s)"
  using books_hash [of h' h] books_tidy [of h' h] by (simp add: fine_def)

lemma fine_note:
  assumes "books h' = books h" and "list_all (hub_send_from (hc_hub_hash h)) s"
  shows "fine h (push_evidence ev kind a n room src nick tgt ex h', s)"
  using assms books_hash [of h' h] books_tidy [of h' h] tidy_push_evidence [of h'] by (simp add: fine_def)

lemma parted_from [simp]: "hp_source (parted_packet h r i n) = hc_hub_hash h"
  by (simp add: parted_packet_def)

lemma honest_remove_member [honest_intros]: "honest (remove_member_with_parted ev r l i n)"
proof (rule honestI)
  fix h :: hub_core
  have sends: "hc_hub_hash h' = hc_hub_hash h \<Longrightarrow> list_all (hub_send_from (hc_hub_hash h)) (List.map (\<lambda>m. Send_Packet m (parted_packet h' r i n)) ms)" for h' ms
    by (simp add: list_all_iff parted_packet_def)
  show "fine h (remove_member_with_parted ev r l i n h)"
    by (simp add: remove_member_with_parted_def Let_def note_room_evidence_def sends split: option.split)
      (auto intro!: books_eq_fine fine_note sends split: option.splits)
qed

lemma honest_eject [honest_intros]: "honest (eject_link ev r target reason k)"
proof -
  have "honest (\<lambda>h. remove_member_with_parted ev r k target (session_nickname k h)
      (upd_session k (\<lambda>s. s\<lparr>hs_rooms := hrem r (hs_rooms s)\<rparr>) h))"
  proof (rule honestI)
    fix h :: hub_core
    show "fine h (remove_member_with_parted ev r k target (session_nickname k h)
      (upd_session k (\<lambda>s. s\<lparr>hs_rooms := hrem r (hs_rooms s)\<rparr>) h))"
      by (rule fine_after [OF books_eq_fine honestD [OF honest_remove_member]]) simp_all
  qed
  then show ?thesis unfolding eject_link_def by (intro honest_then_do) (simp_all add: honest_saying)
qed

lemma honest_leave_on_close [honest_intros]: "honest (leave_room_on_close ev ex l i n r)"
proof (rule honestI)
  fix h
  show "fine h (leave_room_on_close ev ex l i n r h)"
    unfolding leave_room_on_close_def Let_def
    by (rule fine_after [OF books_eq_fine honestD [OF honest_remove_member]]) (simp_all split: option.split)
qed

lemma books_close: "books h' = books h \<Longrightarrow> fine h' res \<Longrightarrow> fine h res"
  using books_hash [of h' h] books_tidy [of h' h] by (simp add: fine_def)

lemma fine_then: "fine h (h', s) \<Longrightarrow> books h'' = books h' \<Longrightarrow> fine h (h'', s)"
  using books_hash [of h'' h'] books_tidy [of h'' h'] by (simp add: fine_def)

lemma fine_then_sessions: "fine h (h', s) \<Longrightarrow> fine h (h'\<lparr>hc_sessions := ss\<rparr>, s)"
  by (rule fine_then) simp_all

lemma honest_close_session [honest_intros]: "honest (close_session ev l reason)"
proof (rule honestI)
  fix h
  have each: "fine h1 (for_each (leave_room_on_close ev ex l i n) rs h1)" for ex i n rs h1
    by (rule honestD) (intro honest_for_each honest_leave_on_close)
  show "fine h (close_session ev l reason h)"
  proof (cases "hub_session_of h l")
    case None
    then show ?thesis by (simp add: close_session_def Let_def books_eq_fine)
  next
    case (Some s)
    show ?thesis
    proof (cases "hs_identity s")
      case None
      then show ?thesis using Some by (simp add: close_session_def Let_def books_eq_fine)
    next
      case (Some i)
      then show ?thesis using \<open>hub_session_of h l = Some s\<close>
        unfolding close_session_def Let_def
        by (auto simp: case_prod_unfold intro!: fine_then_sessions [where h' = "fst x" for x] books_close [OF _ each [unfolded prod.collapse]])
    qed
  qed
qed

lemma honest_disconnect [honest_intros]: "honest (disconnect_link ev k)"
  unfolding disconnect_link_def by (intro honest_then_do honest_close_session) (simp add: honest_saying)

lemma fine_admit_member: "fine h (admit_member ev l i r room h)"
proof -
  let ?h1 = "upd_room r (\<lambda>rm. rm\<lparr>hr_members := hadd l (hr_members rm), hr_invited := hdel i (hr_invited rm),
    hr_rejoin_until := hdel i (hr_rejoin_until rm)\<rparr>) h"
  let ?x = "if hget (hr_invited room) i \<noteq> None then persist_room ev r (Some l) (touch_room ev r ?h1) else (touch_room ev r ?h1, [])"
  have x: "fine h ?x"
    by (rule books_close [of "touch_room ev r ?h1"]) (simp_all add: honestD [OF honest_persist_room])
  obtain h3 saved where pair: "?x = (h3, saved)" by (rule prod.exhaust)
  have hash: "hc_hub_hash h3 = hc_hub_hash h" and sends: "list_all (hub_send_from (hc_hub_hash h)) saved"
    and tid: "tidy h \<longrightarrow> tidy h3" using x unfolding pair by (simp_all add: fine_def)
  have roster: "list_all (hub_send_from (hc_hub_hash h)) (push_roster_joined ev h' l r i ro)" if "hc_hub_hash h' = hc_hub_hash h" for h' ro
    using from_hub_lists(5) [of h' ev l r i ro] that by simp
  have joined: "hp_source (joined_packet h' r b nk) = hc_hub_hash h" if "hc_hub_hash h' = hc_hub_hash h" for h' b nk
    using that by (simp add: joined_packet_def)
  then have fan: "list_all (hub_send_from (hc_hub_hash h)) (List.map (\<lambda>m. Send_Packet m (joined_packet h' r b nk)) ms)"
    if "hc_hub_hash h' = hc_hub_hash h" for h' b nk ms
    using that by (simp add: list_all_iff)
  have status: "hub_send_from (hc_hub_hash h) (room_status_notice h' l r)" if "hc_hub_hash h' = hc_hub_hash h" for h'
    using from_hub(4) [of h' l r] that by simp
  show ?thesis
    using hash sends tid unfolding fine_def admit_member_def Let_def pair prod.case fst_conv snd_conv
    by (simp add: fan joined roster status note_room_evidence_def tidy_push_evidence split: option.split)
qed

lemma honest_on_join [honest_intros]: "honest (on_join ev l en)"
proof (rule honestI)
  fix h :: hub_core
  have new: "fine h (admit_member ev l i r room (h\<lparr>hc_rooms := rs\<rparr>))" for i r room rs
    by (rule books_close [OF _ fine_admit_member]) simp
  have err: "fine h (h\<lparr>hc_rooms := rs\<rparr>, [hub_error (h\<lparr>hc_rooms := rs\<rparr>) l t room])" for rs t room
    by (rule books_eq_fine) (simp_all add: hub_error_def made_def)
  have room: "fine h (h\<lparr>hc_rooms := rs\<rparr>, [])" for rs by (rule books_eq_fine) simp_all
  show "fine h (on_join ev l en h)"
    by (simp add: on_join_def Let_def new err room fine_admit_member split: option.split sum.split)
qed

lemma honest_on_part [honest_intros]: "honest (on_part ev l en)"
proof (rule honestI)
  fix h :: hub_core
  have "honest (\<lambda>h. remove_member_with_parted ev r l i (session_nickname l h)
      (upd_session l (\<lambda>s. s\<lparr>hs_rooms := hrem r (hs_rooms s)\<rparr>) h))" for r i
    by (rule honestI, rule books_close [OF _ honestD [OF honest_remove_member]]) simp
  moreover have "honest (saying (\<lambda>h. [Send_Packet l (parted_packet h r i None)]))" for r i by (simp add: honest_saying)
  ultimately have "fine h (then_do (\<lambda>h. remove_member_with_parted ev r l i (session_nickname l h)
      (upd_session l (\<lambda>s. s\<lparr>hs_rooms := hrem r (hs_rooms s)\<rparr>) h)) (saying (\<lambda>h. [Send_Packet l (parted_packet h r i None)])) h)" for r i
    by (intro honestD honest_then_do)
  then show "fine h (on_part ev l en h)" by (simp add: on_part_def split: option.split sum.split)
qed

section \<open>Commands\<close>

lemma fine_visible_room: "(\<And>room. fine h (k room h)) \<Longrightarrow> fine h (visible_room l i r k h)"
  by (simp add: visible_room_def split: option.split)

lemma fine_op_room: "(\<And>room. fine h (k room h)) \<Longrightarrow> fine h (op_room l i r k h)"
  unfolding op_room_def by (rule fine_visible_room) simp

lemma fine_named_room: "(\<And>r. fine h (k r h)) \<Longrightarrow> fine h (named_room ev l c a k h)"
  by (simp add: named_room_def split: sum.split)

lemma fine_with_target: "(\<And>t. fine h (k t h)) \<Longrightarrow> fine h (with_target l raw res k h)"
  using honest_say by (simp add: with_target_def honest_def split: sum.split)

lemma fine_say [simp]: "fine h (say l t room h)" "fine h (refuse l t room h)"
  using honest_say by (simp_all add: honest_def)

lemma fine_run_all: "list_all honest fs \<Longrightarrow> fine h (run_all fs h)"
  by (rule honestD) (rule honest_run_all)

lemma honest_quiet_note [simp]: "honest (quietly (note_moderated ev l r act t))" "honest (quietly (upd_room r f))"
  "honest (quietly (note_trust_changed ev l ch i))" "honest (quietly (note_admin_moderated ev i r act t))"
  "honest (quietly (note_admin_trust_changed ev i ch i'))" "honest (quietly (forget_leases target))" "honest (quietly (forget_removal r))"
  "honest (quietly (drop_room_if_empty r u))" "honest (quietly (\<lambda>h. h))" "honest (quietly (\<lambda>h. h\<lparr>hc_klines := ks h\<rparr>))"
  "honest (quietly (\<lambda>h. h\<lparr>hc_rooms := rs h\<rparr>))" "honest (quietly (\<lambda>h. h\<lparr>hc_pending_removals := ps h\<rparr>))"
  by (simp_all add: honest_quietly honest_intros)

lemma honest_simps [simp]: "honest (say l t room)" "honest (refuse l t room)" "honest (persist_room ev r origin)"
  "honest (persist_klines ev origin)" "honest (for_each (eject_link ev r target reason) ks)"
  "honest (saying (\<lambda>h. broadcast h rm r t))" "honest (saying (\<lambda>h. broadcast_mode h r))"
  "honest (saying (\<lambda>h. broadcast_admin_topic h r @ broadcast_mode h r))" "honest (saying (\<lambda>h. [removed_op r o' room']))"
  "honest (saying (\<lambda>h. case hub_room_of h r of None \<Rightarrow> [] | Some rm \<Rightarrow> broadcast h rm r t))"
  by (simp_all add: honest_intros)

lemma honest_dep: "(\<And>h. fine h (f h h)) \<Longrightarrow> honest (\<lambda>h. f h h)"
  by (simp add: honest_def)

lemma honest_change_mode [simp]: "honest (change_mode ev l r f)"
  unfolding change_mode_def by (rule honest_run_all) simp

lemma fine_mode_key: "fine h (mode_key ev l r words raw h)"
  by (simp add: mode_key_def Let_def honestD)

lemma fine_mode_role: "fine h (mode_role ev l r role words raw h)"
  by (cases words) (auto simp: mode_role_def intro!: fine_with_target fine_run_all)

lemma fine_apply_mode: "fine h (apply_mode ev l r flag words raw h)"
  by (simp add: apply_mode_def honestD fine_mode_key fine_mode_role)

lemma honest_ban_add [simp]: "honest (ban_add ev l r raw target)"
proof -
  have "honest (\<lambda>h. for_each (eject_link ev r target reason) (room_links_for_identity h r target) h)" for reason
    by (rule honest_dep) (simp add: honestD)
  then show ?thesis unfolding ban_add_def by (intro honest_run_all) simp
qed

lemma honest_others [simp]: "honest (ban_del ev l r raw target)" "honest (invite_del ev l r raw target)"
  unfolding ban_del_def invite_del_def by (intro honest_run_all; simp)+

lemma fine_invite_add: "fine h (invite_add ev l r room token raw target h)"
proof -
  have "honest (saying (\<lambda>h. case hget (hc_by_identity h) target of None \<Rightarrow> [] | Some k \<Rightarrow> [hub_notice h k t (Some r)]))" for t
    by (simp add: honest_saying split: option.split)
  then show ?thesis unfolding invite_add_def Let_def by (intro fine_run_all) simp
qed

lemma honest_disconnects [simp]: "honest (\<lambda>h. for_each (disconnect_link ev) (links_of h target) h)"
  by (rule honest_dep) (rule honestD, intro honest_for_each honest_disconnect)

lemma fine_kline_add: "fine h (kline_add ev l target h)"
  unfolding kline_add_def Let_def by (rule books_close [OF _ fine_run_all]) simp_all

lemma fine_kline_del: "fine h (kline_del ev l target h)"
  unfolding kline_del_def by (simp add: fine_run_all)

lemma fine_run_verb: "run_verb ev lines l i verb args raw = Some f \<Longrightarrow> fine h (f h)"
proof -
  have list: "fine h (cmd_list ev l i h)" by (simp add: cmd_list_def Let_def)
  have who: "fine h (cmd_who ev l i args raw h)"
    by (auto simp: cmd_who_def Let_def intro!: fine_named_room split: list.split option.split)
  have kick: "fine h (cmd_kick ev l i args raw h)"
    by (auto simp: cmd_kick_def Let_def intro!: fine_named_room fine_op_room fine_with_target fine_run_all split: list.split)
  have kline: "fine h (cmd_kline ev l i args h)"
    by (auto simp: cmd_kline_def Let_def intro!: fine_with_target fine_kline_add fine_kline_del split: list.split)
  have register: "fine h (cmd_register ev l i args raw h)"
    by (auto simp: cmd_register_def intro!: fine_named_room fine_run_all split: list.split)
  have unregister: "fine h (cmd_unregister ev l i args raw h)"
    by (auto simp: cmd_unregister_def intro!: fine_named_room fine_run_all split: list.split option.split)
  have topic: "fine h (cmd_topic ev l i args raw h)"
    by (auto simp: cmd_topic_def Let_def intro!: fine_named_room fine_visible_room fine_run_all split: list.split)
  have mode: "fine h (cmd_mode ev l i args raw h)"
    by (auto simp: cmd_mode_def intro!: fine_named_room fine_op_room fine_apply_mode split: list.split)
  have grant: "fine h (cmd_grant ev l i verb' args raw h)" for verb'
    by (auto simp: cmd_grant_def intro!: fine_named_room fine_op_room fine_with_target fine_run_all split: list.split)
  have ban: "fine h (cmd_ban ev l i args raw h)"
    by (auto simp: cmd_ban_def Let_def honestD intro!: fine_named_room fine_op_room fine_with_target split: list.split)
  have invite: "fine h (cmd_invite ev l i args raw h)"
    by (auto simp: cmd_invite_def invite_list_def Let_def honestD intro!: fine_named_room fine_op_room fine_invite_add split: list.split sum.split)
  have rest: "fine h (cmd_stats ev lines l i h)" "fine h (cmd_reload l i h)" by (simp_all add: cmd_stats_def cmd_reload_def)
  assume "run_verb ev lines l i verb args raw = Some f"
  then show ?thesis unfolding run_verb_def
    by (simp split: if_splits; use list who kick kline register unregister topic mode grant ban invite rest in blast)
qed

section \<open>Relaying\<close>

text \<open>What a relayed envelope keeps of the one that came in, and where it may go.\<close>

definition same_message :: "envelope \<Rightarrow> envelope \<Rightarrow> bool" where
  "same_message en e \<longleftrightarrow> en_id e = en_id en \<and> en_type e = en_type en \<and> en_body e = en_body en"

definition addressed :: "hub_core \<Rightarrow> bytes \<Rightarrow> bytes \<Rightarrow> envelope \<Rightarrow> bytes \<Rightarrow> bool" where
  "addressed h l i e k \<longleftrightarrow>
    (case en_room e of
       None \<Rightarrow> en_type e \<noteq> Message \<and> en_type e \<noteq> Action \<and>
         (\<exists>d. en_destination e = Some d \<and> hget (hc_by_identity h) d = Some k)
     | Some r \<Rightarrow> relay_refusal h l i r = None \<and> (\<exists>room. hub_room_of h r = Some room \<and> k \<in> set (hr_members room)))"

definition relays :: "hub_env \<Rightarrow> hub_core \<Rightarrow> bytes \<Rightarrow> bytes \<Rightarrow> envelope \<Rightarrow> hub_send \<Rightarrow> bool" where
  "relays ev h l i en x \<longleftrightarrow> (\<exists>k e. x = Send_Relay k e \<and> en_source e = i \<and> same_message en e \<and> addressed h l i e k \<and>
     relay_len ev e \<le> ev_link_mdu ev)"

definition steady :: "hub_core \<Rightarrow> hub_core \<Rightarrow> bool" where
  "steady h h' \<longleftrightarrow> hc_hub_hash h' = hc_hub_hash h \<and> (tidy h \<longrightarrow> tidy h')"

lemma steady_refl [simp]: "steady h h"
  by (simp add: steady_def)

lemma steady_trans: "steady h h1 \<Longrightarrow> steady h1 h2 \<Longrightarrow> steady h h2"
  by (simp add: steady_def)

lemma steady_books: "books h' = books h \<Longrightarrow> steady h h'"
  using books_hash [of h' h] books_tidy [of h' h] by (simp add: steady_def)

lemma steady_upd [simp]: "steady h (push_event e h') = steady h h'" "steady h (upd_stats f h') = steady h h'"
  by (simp_all add: steady_def)

lemma fine_steady: "fine h res \<Longrightarrow> steady h (fst res)"
  by (simp add: fine_def steady_def)

lemma steady_orderly: "orderly g \<Longrightarrow> steady h h1 \<Longrightarrow> steady h (g h1)"
  by (simp add: orderly_def steady_def)

lemma rewrite_message:
  assumes "rewrite_relay_nickname l en h = (en', h')"
  shows "same_message en en'" "en_source en' = en_source en" "en_room en' = en_room en" "en_destination en' = en_destination en"
    "books h' = books h" "hc_rooms h' = hc_rooms h"
  using assms by (auto simp: rewrite_relay_nickname_def Let_def same_message_def upd_session_def books_def
      split: option.splits sum.splits)

lemma fit_relay_message:
  "same_message en (fit_relay ev e) = same_message en e" "en_source (fit_relay ev e) = en_source e"
  "en_room (fit_relay ev e) = en_room e" "en_destination (fit_relay ev e) = en_destination e"
  by (simp_all add: fit_relay_def same_message_def)

lemma same_message_upd [simp]: "same_message (en\<lparr>en_source := i\<rparr>) e = same_message en e"
  "same_message (en\<lparr>en_source := i, en_room := r\<rparr>) e = same_message en e" "same_message (en\<lparr>en_timestamp := t\<rparr>) e = same_message en e"
  by (simp_all add: same_message_def)

lemma hub_error_books: "books h' = books h \<Longrightarrow> hub_send_from (hc_hub_hash h) (hub_error h' l t room)"
  using from_hub(2) [of h' l t room] books_hash [of h' h] by simp

lemma relay_into_spec:
  assumes refusal: "relay_refusal h l i r = None"
  shows "steady h (fst (relay_into ev l i r en h))"
    "x \<in> set (snd (relay_into ev l i r en h)) \<Longrightarrow> hub_send_from (hc_hub_hash h) x \<or> relays ev h l i en x"
proof -
  obtain en1 h1 where rw: "rewrite_relay_nickname l (en\<lparr>en_source := i, en_room := Some r\<rparr>) h = (en1, h1)"
    by (rule prod.exhaust)
  note eq = rewrite_message [OF rw]
  let ?e = "fit_relay ev en1"
  have room: "hub_room_of (upd_stats f h1) r = hub_room_of h r" for f using eq(6) by (simp add: upd_stats_def)
  have same: "same_message en ?e" "en_source ?e = i" "en_room ?e = Some r"
    using eq fit_relay_message by (auto simp: same_message_def)
  have st: "steady h h1" by (rule steady_books [OF eq(5)])
  have noted: "steady h (note_relayed r kd n m (case tb of None \<Rightarrow> upd_stats f h1
      | Some t \<Rightarrow> note_content_evidence ev i nk r kd t (upd_stats f h1)))" for kd n m tb f nk
    using st steady_orderly [OF orderly_notes(6)] by (simp add: note_relayed_def split: option.split)
  show "steady h (fst (relay_into ev l i r en h))"
    unfolding relay_into_def rw Let_def prod.case using st noted room by (simp split: option.split)
  have sent: "relays ev h l i en (Send_Relay k ?e)"
    if "hub_room_of h r = Some room" "k \<in> set (hr_members room)" "\<not> ev_link_mdu ev < relay_len ev ?e" for k room
    using that same refusal by (auto simp: relays_def addressed_def)
  assume "x \<in> set (snd (relay_into ev l i r en h))"
  then show "hub_send_from (hc_hub_hash h) x \<or> relays ev h l i en x"
    using sent hub_error_books [OF eq(5)] room unfolding relay_into_def rw Let_def prod.case
    by (auto split: if_splits option.splits)
qed

lemma direct_notice_spec:
  assumes ty: "en_type en \<noteq> Message" "en_type en \<noteq> Action"
  shows "steady h (fst (on_direct_notice ev l i en h))"
    "x \<in> set (snd (on_direct_notice ev l i en h)) \<Longrightarrow> hub_send_from (hc_hub_hash h) x \<or> relays ev h l i en x"
proof -
  obtain en1 h1 where rw: "rewrite_relay_nickname l (en\<lparr>en_source := i\<rparr>) h = (en1, h1)"
    by (rule prod.exhaust)
  note eq = rewrite_message [OF rw]
  let ?e = "fit_relay ev en1"
  have same: "same_message en ?e" "en_source ?e = i" "en_room ?e = en_room en" "en_destination ?e = en_destination en"
    using eq fit_relay_message by (auto simp: same_message_def)
  show "steady h (fst (on_direct_notice ev l i en h))"
    using steady_books [OF eq(5)] by (simp add: on_direct_notice_def rw Let_def split: option.split)
  have sent: "relays ev h l i en (Send_Relay k ?e)"
    if "en_room en = None" "en_destination en = Some d" "hget (hc_by_identity h) d = Some k" "relay_len ev ?e \<le> ev_link_mdu ev" for k d
    using that same ty by (simp add: relays_def addressed_def same_message_def)
  assume "x \<in> set (snd (on_direct_notice ev l i en h))"
  then show "hub_send_from (hc_hub_hash h) x \<or> relays ev h l i en x"
    using sent hub_error_books [OF eq(5)]
    by (auto simp: on_direct_notice_def rw Let_def split: if_splits option.splits)
qed

lemma relay_message_spec:
  shows "steady h (fst (relay_message ev l i en h))"
    "x \<in> set (snd (relay_message ev l i en h)) \<Longrightarrow> hub_send_from (hc_hub_hash h) x \<or> relays ev h l i en x"
proof -
  show "steady h (fst (relay_message ev l i en h))"
    using relay_into_spec(1) direct_notice_spec(1)
    by (simp add: relay_message_def Let_def split: option.split sum.split)
  assume "x \<in> set (snd (relay_message ev l i en h))"
  then show "hub_send_from (hc_hub_hash h) x \<or> relays ev h l i en x"
    using relay_into_spec(2) [of h l i _ x ev en] direct_notice_spec(2) [of en x ev l i h]
    by (auto simp: relay_message_def Let_def split: if_splits option.splits sum.splits)
qed

section \<open>Envelopes\<close>

lemma fine_greeting: "fine h (push_greeting ev l greeting h)"
proof -
  have "fine h res" if "push_greeting_resource ev l greeting h = Some res" for res
    using that by (auto simp: push_greeting_resource_def Let_def intro!: books_eq_fine split: if_splits option.splits)
  then show ?thesis by (auto simp: push_greeting_def split: option.splits if_splits)
qed

lemma fine_hello: "fine h (on_hello ev version l en h)"
proof -
  have greet: "fine h (case push_greeting ev l greeting h2 of (h3, sends) \<Rightarrow> (h3, Send_Packet l p # sends))"
    if "books h2 = books h" "hp_source p = hc_hub_hash h" for h2 p greeting
    using books_close [OF that(1) fine_greeting [of h2 ev l greeting]] that(2) by (auto simp: fine_def case_prod_unfold)
  have plain: "fine h (h2, [Send_Packet l p])" if "books h2 = books h" "hp_source p = hc_hub_hash h" for h2 p
    using that by (intro books_eq_fine) simp_all
  have bad: "fine h (push_event e h2, [hub_error h2 l t room])" if "books h2 = books h" for h2 e t room
    using that hub_error_books [OF that] by (intro books_eq_fine) simp_all
  show ?thesis
    unfolding on_hello_def Let_def
    by (simp add: greet plain bad split: option.split bool.split)
qed

lemma fine_resource_envelope: "fine h (on_resource_envelope ev l en h)"
proof -
  have err: "fine h (upd_admission note_rejected h', [hub_error_echo ev h' l t room])"
      "fine h (upd_admission note_rejected h', [hub_error h' l t room])" if "books h' = books h" for h' t room
  proof -
    have "fine h' (upd_admission note_rejected h', [hub_error_echo ev h' l t room])"
      "fine h' (upd_admission note_rejected h', [hub_error h' l t room])" by (rule books_eq_fine; simp)+
    then show "fine h (upd_admission note_rejected h', [hub_error_echo ev h' l t room])"
      "fine h (upd_admission note_rejected h', [hub_error h' l t room])" using books_close [OF that] by blast+
  qed
  have ok: "fine h (h\<lparr>hc_admission := a\<rparr>, [])" for a by (rule books_eq_fine) simp_all
  show ?thesis
    by (simp add: on_resource_envelope_def reject_resource_def Let_def case_prod_unfold err ok split: option.split sum.split)
qed

lemma relay_spec:
  assumes "session_identity l h = Some i"
  shows "steady h (fst (on_relay ev lines l en h))"
    "x \<in> set (snd (on_relay ev lines l en h)) \<Longrightarrow> hub_send_from (hc_hub_hash h) x \<or> relays ev h l i en x"
proof -
  let ?en = "en\<lparr>en_timestamp := sanitize_display_timestamp_ms (en_timestamp en) (ev_now_ms ev)\<rparr>"
  have slash: "fine h (f h)" if "handle_slash_command ev lines l i ?en = Some f" for f
    using that fine_run_verb by (auto simp: handle_slash_command_def split: option.splits list.splits)
  have same: "relays ev h l i ?en y = relays ev h l i en y" for y by (simp add: relays_def)
  show "steady h (fst (on_relay ev lines l en h))"
    using fine_steady [OF slash] relay_message_spec(1)
    by (simp add: on_relay_def Let_def assms refuse_def saying_def split: option.split)
  assume x: "x \<in> set (snd (on_relay ev lines l en h))"
  show "hub_send_from (hc_hub_hash h) x \<or> relays ev h l i en x"
  proof (cases "is_command ?en")
    case True
    have "list_all (hub_send_from (hc_hub_hash h)) (snd (f h))" if "handle_slash_command ev lines l i ?en = Some f" for f
      using slash [OF that] by (simp add: fine_def)
    then show ?thesis using x True
      by (auto simp: on_relay_def Let_def assms refuse_def saying_def list_all_iff split: option.splits)
  next
    case False
    then show ?thesis using x relay_message_spec(2) [of x ev l i ?en h] same by (simp add: on_relay_def Let_def assms)
  qed
qed

lemma refusal_books:
  assumes "hc_rooms h' = hc_rooms h" "hc_server_ops h' = hc_server_ops h"
    and "\<And>m. map_option (\<lambda>s. (hs_identity s, hs_rooms s)) (hub_session_of h' m) = map_option (\<lambda>s. (hs_identity s, hs_rooms s)) (hub_session_of h m)"
  shows "relay_refusal h' l i = relay_refusal h l i"
proof -
  have ident: "session_identity m h' = session_identity m h" for m
    using assms(3) [of m] by (cases "hub_session_of h m"; cases "hub_session_of h' m") (simp_all add: session_identity_def)
  have mem: "(case hub_session_of h' l of None \<Rightarrow> False | Some s \<Rightarrow> r \<in> set (hs_rooms s)) =
      (case hub_session_of h l of None \<Rightarrow> False | Some s \<Rightarrow> r \<in> set (hs_rooms s))" for r
    using assms(3) [of l] by (cases "hub_session_of h l"; cases "hub_session_of h' l") simp_all
  have sight: "can_view_room h' = can_view_room h" "is_voiced h' = is_voiced h"
    by (intro ext, simp add: can_view_room_def is_room_op_def identity_in_room_def is_voiced_def ident assms(2))+
  show ?thesis unfolding relay_refusal_def mem sight assms(1) by (rule refl)
qed

lemma relays_books:
  assumes "hc_rooms h' = hc_rooms h" "hc_server_ops h' = hc_server_ops h" "hc_by_identity h' = hc_by_identity h"
    and "\<And>m. map_option (\<lambda>s. (hs_identity s, hs_rooms s)) (hub_session_of h' m) = map_option (\<lambda>s. (hs_identity s, hs_rooms s)) (hub_session_of h m)"
  shows "relays ev h' l i en x = relays ev h l i en x"
proof -
  have "addressed h' l i e k = addressed h l i e k" for e k
    by (simp only: addressed_def assms(1,3) refusal_books [OF assms(1,2,4)])
  then show ?thesis by (simp add: relays_def)
qed

theorem on_envelope_spec:
  shows "steady h (fst (on_envelope ev version lines l en h))"
    "x \<in> set (snd (on_envelope ev version lines l en h)) \<Longrightarrow> hub_send_from (hc_hub_hash h) x \<or>
      (\<exists>i. session_identity l h = Some i \<and> relays ev h l i en x)"
proof -
  define s1 where "s1 = (\<lambda>s. snd (note_seen (en_id en) s))"
  define h1 where "h1 = (\<lambda>s. upd_session l (\<lambda>_. s1 s) h)"
  have b: "books (h1 s) = books h" for s by (simp add: h1_def)
  have s1: "hs_identity (s1 s) = hs_identity s" "hs_rooms (s1 s) = hs_rooms s" for s
    by (simp_all add: s1_def note_seen_def Let_def)
  have st: "steady h h'" if "steady (h1 s) h'" for h' s using steady_trans [OF steady_books [OF b] that] .
  have fn: "fine h res" if "fine (h1 s) res" for s res using books_close [OF b that] .
  have ident: "session_identity l (h1 s) = hs_identity s" if "hub_session_of h l = Some s" for s
    using that s1 by (simp add: h1_def session_identity_def upd_session_def)
  have rel: "relays ev (h1 s) l i en y = relays ev h l i en y" if "hub_session_of h l = Some s" for s i y
    by (rule relays_books) (use that s1 in \<open>auto simp: h1_def upd_session_def\<close>)
  have counted: "books (upd_stats f (h1 s)) = books h" for f s using b [of s] by simp
  note join = books_close [OF counted honestD [OF honest_on_join [of ev l en]]]
  note part = books_close [OF counted honestD [OF honest_on_part [of ev l en]]]
  note hello = books_close [OF b fine_hello [of _ ev version l en]]
  note resource = books_close [OF b fine_resource_envelope [of _ ev l en]]
  have stay: "fine h (upd_stats f (h1 s), [])" "fine h (h1 s, [])" "fine h (upd_stats f (upd_session l g (h1 s)), [])"
    "fine h (h1 s, [hub_error (h1 s) l t room])" "fine h (h1 s, [Send_Packet l ((made (h1 s) ty)\<lparr>hp_body := bd\<rparr>)])" for s f g t room ty bd
    using hub_error_books [OF b] books_hash [OF b] by (auto intro!: books_eq_fine simp: b)
  define good where "good = (\<lambda>res. steady h (fst res) \<and> (\<forall>x \<in> set (snd res). hub_send_from (hc_hub_hash h) x \<or>
    (\<exists>i. session_identity l h = Some i \<and> relays ev h l i en x)))"
  have fineres: "good res" if "fine h res" for res
    using that fine_steady [OF that] by (simp add: good_def fine_def list_all_iff)
  have all: "good (on_envelope ev version lines l en h)"
  proof (cases "hub_session_of h l")
    case None
    then show ?thesis by (simp add: on_envelope_def fineres)
  next
    case (Some s)
    show ?thesis
    proof (cases "hs_identity s")
      case None
      then show ?thesis using Some by (simp add: on_envelope_def fineres)
    next
      case (Some i)
      note s = \<open>hub_session_of h l = Some s\<close> Some
      have relay: "good (on_relay ev lines l en (h1 s))"
        unfolding good_def
      proof (intro conjI ballI)
        have i: "session_identity l (h1 s) = Some i" "session_identity l h = Some i"
          using ident [OF s(1)] s by (simp_all add: session_identity_def)
        show "steady h (fst (on_relay ev lines l en (h1 s)))" by (rule st [OF relay_spec(1) [OF i(1)]])
        fix x
        assume x: "x \<in> set (snd (on_relay ev lines l en (h1 s)))"
        show "hub_send_from (hc_hub_hash h) x \<or> (\<exists>i. session_identity l h = Some i \<and> relays ev h l i en x)"
          using relay_spec(2) [OF i(1) x] i(2) unfolding rel [OF s(1)] books_hash [OF b] by blast
      qed
      obtain fresh where seen: "note_seen (en_id en) s = (fresh, s1 s)" by (metis s1_def prod.collapse)
      have h1s: "upd_session l (\<lambda>_. s1 s) h = h1 s" by (simp add: h1_def)
      show ?thesis
        unfolding on_envelope_def s(1) option.case s(2) seen prod.case Let_def h1s
        by (simp add: relay fineres [OF stay(1)] fineres [OF stay(2)] fineres [OF stay(3)] fineres [OF stay(4)] fineres [OF stay(5)]
          fineres [OF join] fineres [OF part] fineres [OF hello] fineres [OF resource])
    qed
  qed
  then show "steady h (fst (on_envelope ev version lines l en h))" by (simp add: good_def)
  show "x \<in> set (snd (on_envelope ev version lines l en h)) \<Longrightarrow> hub_send_from (hc_hub_hash h) x \<or>
      (\<exists>i. session_identity l h = Some i \<and> relays ev h l i en x)" using all by (simp add: good_def)
qed

section \<open>Every input\<close>

lemma steady_identified: "steady h (fst (on_link_identified ev l i h))"
  by (rule steady_books) (simp add: on_link_identified_def on_link_established_def Let_def books_def upd_session_def push_event_def)

lemma steady_note_packet: "steady h (snd (note_packet ev l h))"
  by (rule steady_books) (simp add: note_packet_def Let_def case_prod_unfold split: option.split)

lemma steady_spend: "steady h (snd (spend_tokens ev l n h))"
proof (induction n arbitrary: h)
  case (Suc n)
  show ?case using steady_trans [OF steady_note_packet [of h ev l] Suc.IH] by (simp add: Let_def case_prod_unfold)
qed simp

lemma steady_fan_out: "steady h (fst (fan_out_resource_notice ev l i r t h))"
  unfolding fan_out_resource_notice_def Let_def case_prod_unfold
  using steady_spend [of h ev l] steady_orderly [OF orderly_notes(6)]
  by (simp add: note_relayed_def split: option.split)

lemma steady_resource_completed: "steady h (fst (on_resource_completed ev l x payload m h))"
proof -
  have start: "steady h h'" if "books h' = books h" for h' by (rule steady_books [OF that])
  have fan: "steady h (fst (fan_out_resource_notice ev l i r t h'))" if "books h' = books h" for i r t h'
    using steady_trans [OF start [OF that] steady_fan_out] .
  show ?thesis
    unfolding on_resource_completed_def Let_def reject_resource_def case_prod_unfold
    by (auto intro!: start fan split: option.split)
qed

lemma hub_hash_upd: "hc_hub_hash (upd_stats f h) = hc_hub_hash h"
  by simp

lemma fine_ping_cycle: "fine h (ping_cycle ev h)"
proof -
  have throttle: "books (report_throttle ev h) = books h"
    by (simp add: report_throttle_def Let_def books_def push_event_def)
  let ?close = "\<lambda>p. then_do (close_session ev (fst p) (snd p)) (saying (\<lambda>h. [Send_Close (fst p)]))"
  have "honest (for_each ?close dead)" for dead
    by (rule honest_for_each) (auto simp: honest_saying intro!: honest_then_do honest_close_session)
  then have close: "fine h (fst (for_each ?close dead h'), pings @ snd (for_each ?close dead h'))"
    if "books h' = books h" and "list_all (hub_send_from (hc_hub_hash h)) pings" for dead h' pings
    using books_close [OF that(1) honestD] that(2) by (simp add: fine_def)
  show ?thesis unfolding ping_cycle_def Let_def case_prod_unfold
    by (rule close) (use books_hash [OF throttle] in \<open>auto simp: throttle list_all_iff made_def hub_hash_upd\<close>)
qed

lemma honest_eject_identity: "fine h (eject_identity_from_room ev r target reason h)"
  unfolding eject_identity_from_room_def by (rule honestD) (simp add: honest_then_do)

lemma fine_admin:
  assumes "admin_mutate ev actor mutation h = Inr res"
  shows "fine h res"
proof -
  have eject: "honest (eject_identity_from_room ev r target reason)" for r target reason
    by (rule honestI) (rule honest_eject_identity)
  have talk: "honest (saying (\<lambda>h. (if a then broadcast_admin_topic h r else []) @ (if b then broadcast_mode h r else [])))"
    "honest (saying (\<lambda>h. List.map (\<lambda>k. hub_notice h k t (Some r)) (links_of h target)))" for a b r t target
  proof -
    show "honest (saying (\<lambda>h. (if a then broadcast_admin_topic h r else []) @ (if b then broadcast_mode h r else [])))"
      by (cases a; cases b) (simp_all add: honest_saying)
  qed (simp add: honest_saying list_all_iff)
  have disc: "honest (\<lambda>h. if b then for_each (disconnect_link ev) (links_of h target) h else (h, []))" for b target
    by (cases b) (simp_all add: honestI)
  have idle: "honest (\<lambda>h. (h, []))" "honest (saying (\<lambda>h. broadcast_admin_topic h r))" for r by (simp_all add: honestI honest_saying)
  have create: "honest (create_steps ev actor' p r t key)" for actor' p r t key
    unfolding create_steps_def by (intro honest_run_all) simp
  have quiet: "fine h (quietly (upd_room r f) h)" for r f by (rule honestD) simp
  note defs = admin_create_channel_def admin_update_channel_def admin_unregister_channel_def admin_set_room_role_def
    admin_set_room_ban_def admin_set_invitation_def admin_kick_def admin_set_hub_ban_def with_registered_def and_then_def
    admin_fail_def Let_def
  show ?thesis using assms
    by (cases mutation)
      (auto simp: admin_mutate_def defs honestD [OF create] quiet eject talk disc idle intro!: fine_run_all honest_run_all
        split: if_splits sum.splits option.splits)
qed

lemma books_service [simp]: "books (note_service_stopped now h) = books h" "books (note_service_started h) = books h"
  "books (note_rate_limited h) = books h" "books (note_bad_packet h) = books h" "books (snd (drain_events h)) = books h"
proof -
  have "books (fold (\<lambda>(l, s). push_event (Ev_SessionClosed l Close_ServiceStopped (now - hs_established_at s))) ss h) = books h" for ss
    by (induction ss arbitrary: h) (simp_all add: case_prod_unfold)
  then show "books (note_service_stopped now h) = books h" by (simp add: note_service_stopped_def)
  show "books (snd (drain_events h)) = books h" by (simp add: drain_events_def books_def)
qed (simp_all add: note_service_started_def note_rate_limited_def note_bad_packet_def)

lemma fine_retry: "fine h (retry_failed_persists ev h)"
proof -
  have "honest (saying (\<lambda>h. List.map (\<lambda>r. persist_plain (Removed r)) rs))" for rs
    by (simp add: honest_saying persist_plain_def list_all_iff)
  moreover have "honest (\<lambda>h. if hc_klines_dirty h then persist_klines ev None h else (h, []))"
    by (rule honestI) (simp add: honestD)
  ultimately show ?thesis unfolding retry_failed_persists_def Let_def by (intro fine_run_all) (simp add: honest_for_each)
qed

lemma hub_handle_steady: "steady h (fst (hub_handle ev version lines input h))"
proof (cases input)
  case (In_Owner actor mutation)
  then show ?thesis using fine_steady [OF fine_admin] by (simp split: sum.split)
next
  case (In_Oversize n)
  then show ?thesis by (simp add: note_oversize_def steady_orderly [OF orderly_notes(7)])
next
  case (In_Resource_Started l x)
  then show ?thesis by (simp add: on_resource_started_def steady_books)
next
  case (In_Outbound_Concluded l x)
  then show ?thesis by (simp add: on_outbound_resource_concluded_def steady_books)
next
  case (In_Persist_Failed op)
  then show ?thesis by (cases op) (simp_all add: note_persist_failed_def steady_books)
qed (simp_all add: on_link_established_def steady_identified steady_note_packet on_envelope_spec fine_steady [OF fine_ping_cycle] on_link_closed_def
    fine_steady honestD [OF honest_close_session] steady_resource_completed on_inbound_resource_concluded_def resource_cycle_def
    flush_dirty_last_used_def prune_registry_def Let_def fine_retry note_send_failed_def steady_orderly [OF orderly_notes(7)] steady_books)

section \<open>What a resource says\<close>

text \<open>A completed resource is answered with an error to its link, or its text goes out in notices under the proved identity.\<close>

definition resource_notice :: "hub_env \<Rightarrow> hub_core \<Rightarrow> bytes \<Rightarrow> bytes \<Rightarrow> bytes \<Rightarrow> hub_packet \<Rightarrow> bool" where
  "resource_notice ev h l payload k p \<longleftrightarrow>
     session_identity l h = Some (hp_source p) \<and> hp_type p = Notice \<and>
     (\<exists>r room t n c. hp_room p = Some r \<and> relay_refusal h l (hp_source p) r = None \<and> hub_room_of h r = Some room \<and>
        k \<in> set (hr_members room) \<and> ev_from_utf8 ev payload = Some t \<and> hp_body p = Some (CText c) \<and> c \<in> set (chunk_text t n))"

definition resource_answer :: "hub_core \<Rightarrow> bytes \<Rightarrow> hub_send \<Rightarrow> bool" where
  "resource_answer h l x \<longleftrightarrow> (\<exists>p. x = Send_Packet l p \<and> hp_type p = ErrorMessage \<and> hp_source p = hc_hub_hash h)"

definition completed_says :: "hub_env \<Rightarrow> hub_core \<Rightarrow> bytes \<Rightarrow> bytes \<Rightarrow> hub_send \<Rightarrow> bool" where
  "completed_says ev h l payload x \<longleftrightarrow>
     resource_answer h l x \<or> (\<exists>k p. x = Send_Packet k p \<and> resource_notice ev h l payload k p)"

lemma answer_errors: "hc_hub_hash h' = hc_hub_hash h \<Longrightarrow> resource_answer h l (hub_error h' l t room)"
  "hc_hub_hash h' = hc_hub_hash h \<Longrightarrow> resource_answer h l (hub_error_echo ev h' l t room)"
  by (simp_all add: resource_answer_def hub_error_def hub_error_echo_def made_def)

lemma note_packet_rooms: "hc_rooms (snd (note_packet ev l h)) = hc_rooms h"
  by (simp add: note_packet_def upd_session_def Let_def case_prod_unfold split: option.split)

lemma spend_tokens_rooms: "hc_rooms (snd (spend_tokens ev l n h)) = hc_rooms h"
  by (induction n arbitrary: h) (simp_all add: Let_def case_prod_unfold note_packet_rooms)

lemma fan_out_says:
  assumes "x \<in> set (snd (fan_out_resource_notice ev l i r t h'))" and "relay_refusal h l i r = None"
    and "session_identity l h = Some i" and "ev_from_utf8 ev payload = Some t"
    and "hc_rooms h' = hc_rooms h" and "hc_hub_hash h' = hc_hub_hash h"
  shows "completed_says ev h l payload x"
proof -
  have hash: "hc_hub_hash (snd (spend_tokens ev l n h')) = hc_hub_hash h" for n
    using steady_spend [of h' ev l n] assms(6) by (simp add: steady_def)
  show ?thesis
    using assms(1-5) unfolding fan_out_resource_notice_def Let_def case_prod_unfold
    by (auto simp: completed_says_def resource_notice_def notice_from_def spend_tokens_rooms answer_errors(2) [OF hash]
        split: if_splits option.splits)
qed

lemma resource_completed_says:
  assumes "x \<in> set (snd (on_resource_completed ev l hash payload m h))"
  shows "completed_says ev h l payload x"
proof -
  have refusal: "relay_refusal (h\<lparr>hc_admission := a\<rparr>) l i r = relay_refusal h l i r" for a i r
    by (subst refusal_books [of _ h]) simp_all
  have readable: "ev_from_utf8 ev payload = Some t" if "readable_payload ev y payload = Some t" for y t
    using that by (simp add: readable_payload_def split: if_splits)
  have ident: "session_identity l (h\<lparr>hc_admission := a\<rparr>) = session_identity l h" for a by (simp add: session_identity_def)
  have err: "completed_says ev h l payload (hub_error (h\<lparr>hc_admission := a\<rparr>) l t room)"
    "completed_says ev h l payload (hub_error_echo ev (h\<lparr>hc_admission := a\<rparr>) l t room)" for a t room
    by (simp_all add: completed_says_def answer_errors)
  show ?thesis
    using assms unfolding on_resource_completed_def reject_resource_def Let_def case_prod_unfold upd_admission_def
    by (auto simp: err refusal ident readable split: if_splits option.splits intro: fan_out_says [where h = h])
qed

lemma hub_handle_speaks:
  assumes "x \<in> set (snd (hub_handle ev version lines input h))"
    and "\<And>l en. input \<noteq> In_Envelope l en" and "\<And>l hash payload m. input \<noteq> In_Resource_Completed l hash payload m"
  shows "hub_send_from (hc_hub_hash h) x"
proof -
  have fine: "hub_send_from (hc_hub_hash h) x" if "fine h res" "x \<in> set (snd res)" for res
    using that by (simp add: fine_def list_all_iff)
  show ?thesis
  proof (cases input)
    case (In_Identified l i)
    then show ?thesis using assms(1) by (auto simp: on_link_identified_def Let_def split: if_splits)
  next
    case (In_Closed l)
    then show ?thesis using assms(1) fine [OF honestD [OF honest_close_session]] by (simp add: on_link_closed_def)
  next
    case In_Keepalive
    then show ?thesis using assms(1) fine [OF fine_ping_cycle] by simp
  next
    case (In_Owner actor mutation)
    then show ?thesis using assms(1) fine [OF fine_admin] by (auto split: sum.splits)
  next
    case In_Flush
    then show ?thesis using assms(1) by (auto simp: flush_dirty_last_used_def List.map_filter_def split: if_splits)
  next
    case In_Prune
    then show ?thesis using assms(1) by (auto simp: prune_registry_def Let_def split: if_splits)
  next
    case In_Retry
    then show ?thesis using assms(1) fine [OF fine_retry] by simp
  qed (use assms in auto)
qed

lemma hub_new_tidy: "tidy (hub_core_new ev config hash klines admission pepper rows)"
proof -
  have rows: "hc_evidence (snd (fold (restore_row ev) rows acc)) = hc_evidence (snd acc) \<and>
      hc_evidence_bytes (snd (fold (restore_row ev) rows acc)) = hc_evidence_bytes (snd acc)" for acc
  proof (induction rows arbitrary: acc)
    case (Cons row rows)
    have "hc_evidence (snd (restore_row ev row acc)) = hc_evidence (snd acc) \<and>
        hc_evidence_bytes (snd (restore_row ev row acc)) = hc_evidence_bytes (snd acc)"
      by (simp add: restore_row_def split: prod.split)
    then show ?case using Cons.IH by simp
  qed simp
  show ?thesis using rows [of "(0, _)"]
    by (simp add: hub_core_new_def restore_def tidy_def case_prod_unfold)
qed

lemma hub_reachable_tidy: "hub_reachable version lines moved h \<Longrightarrow> tidy h"
proof (induction rule: hub_reachable.induct)
  case (hub_handled moved h input ev)
  then show ?case using hub_handle_steady [of h ev version lines input] by (simp add: steady_def)
qed (rule hub_new_tidy)

section \<open>Delivery\<close>

text \<open>The nickname shown is the one of the message or else the one of the session, if it can be normalised.\<close>

definition shown_nickname :: "hub_core \<Rightarrow> bytes \<Rightarrow> envelope \<Rightarrow> ustr option" where
  "shown_nickname h l en =
    (case (case en_nickname en of None \<Rightarrow> session_nickname l h | Some n \<Rightarrow> Some n) of
       None \<Rightarrow> None
     | Some n \<Rightarrow> (case normalize_nickname n (cf_max_nick_bytes (hc_config h)) of Inr m \<Rightarrow> Some m | Inl _ \<Rightarrow> None))"

lemma rewrite_shows:
  assumes "hub_session_of h l \<noteq> None"
  shows "fst (rewrite_relay_nickname l en h) = en\<lparr>en_nickname := shown_nickname h l en\<rparr>"
  using assms
  by (auto simp: rewrite_relay_nickname_def shown_nickname_def session_nickname_def Let_def split: option.split sum.split)

lemma relay_into_delivers:
  assumes "hub_room_of h r = Some room" and "hub_session_of h l \<noteq> None"
    and named: "named = en\<lparr>en_source := i, en_room := Some r, en_nickname := shown_nickname h l en\<rparr>"
    and e: "e = (if ev_link_mdu ev < relay_len ev named then named\<lparr>en_nickname := None\<rparr> else named)"
  shows "snd (relay_into ev l i r en h) =
    (if ev_link_mdu ev < relay_len ev e
     then [hub_error h l (lit ''message too large for '' @ r @ lit '': '' @ dec_string (relay_len ev e) @
             lit '' bytes > '' @ dec_string (ev_link_mdu ev) @ lit '' bytes'') (Some r)]
     else List.map (\<lambda>m. Send_Relay m e) (hr_members room))"
proof -
  let ?en = "en\<lparr>en_source := i, en_room := Some r\<rparr>"
  obtain en1 h1 where rw: "rewrite_relay_nickname l ?en h = (en1, h1)" by (rule prod.exhaust)
  have "shown_nickname h l ?en = shown_nickname h l en" by (simp add: shown_nickname_def)
  then have "en1 = named" using rewrite_shows [OF assms(2), of ?en] rw named by simp
  moreover have "named\<lparr>en_nickname := None\<rparr> = named" if "en_nickname named = None" using that by (cases named) simp
  ultimately have fit: "fit_relay ev en1 = e" by (auto simp: fit_relay_def e)
  have room: "hub_room_of (upd_stats f h1) r = Some room" for f
    using rewrite_message(6) [OF rw] assms(1) by (simp add: upd_stats_def)
  have err: "hub_error h1 l t rm = hub_error h l t rm" for t rm
    using books_hash [OF rewrite_message(5) [OF rw]] by (simp add: hub_error_def made_def)
  show ?thesis
    unfolding relay_into_def rw Let_def prod.case fit err by (simp add: room)
qed

end
