(* ===== verification/Hub_Props.thy ===== *)
theory Hub_Props
  imports Hub_Sample Hub_Authentic
begin

text \<open>
  What the hub promises about rooms, members and bans.
\<close>

text \<open>C1: In every state the hub can reach, the rooms a session lists and the members the rooms list are the same
  relation; both lists are free of repetitions, a session is in no more rooms than the limit and in none before it is
  identified, and a room without members exists only when it is registered.\<close>

theorem members_and_sessions_agree:
  assumes "hub_reachable version lines moved h"
  shows "(\<forall>l r. (\<exists>s. hub_session_of h l = Some s \<and> r \<in> set (hs_rooms s)) \<longleftrightarrow>
            (\<exists>rm. hub_room_of h r = Some rm \<and> l \<in> set (hr_members rm))) \<and>
    (\<forall>l s. hub_session_of h l = Some s \<longrightarrow> distinct (hs_rooms s) \<and>
       length (hs_rooms s) \<le> cf_max_rooms_per_session (hc_config h) \<and> (hs_identity s = None \<longrightarrow> hs_rooms s = [])) \<and>
    (\<forall>r rm. hub_room_of h r = Some rm \<longrightarrow> distinct (hr_members rm) \<and> (hr_members rm = [] \<longrightarrow> hr_registered rm))"
proof -
  have ok: "sessions_ok h" "membership (rooms_of h) h" "rooms_ok {} h"
    using hub_reachable_ok [OF assms] by (simp_all add: hub_ok_def hub_but_def coh_def)
  have "(\<exists>s. hub_session_of h l = Some s \<and> r \<in> set (hs_rooms s)) \<longleftrightarrow>
      (\<exists>rm. hub_room_of h r = Some rm \<and> l \<in> set (hr_members rm))" for l r
    using ok(2) [unfolded membership_def, rule_format, of r l] by (simp add: rooms_of_def split: option.splits)
  then show ?thesis using ok(1,3) by (auto simp: sessions_ok_def rooms_ok_def)
qed

theorem members_and_sessions_agree_witness:
  "\<exists>s. hub_session_of sample_hub [18] = Some s \<and> sample_room \<in> set (hs_rooms s)"
  using members_and_sessions_agree [OF sample_reachable] sample_members by fastforce

text \<open>C2: In every state the hub can reach, no member of a room whose link kept the identity it proved first is
  banned from it, no session at all belongs to an identity banned from the hub, and the index of identities leads to a
  session of that identity unless its link has proved another one since.  The run assumes of the link manager what the
  hub relies on: a link that is identified already does not prove an identity banned from the hub.\<close>

theorem banned_stay_out:
  assumes "hub_reachable version lines moved h"
  shows "(\<forall>r rm l i. hub_room_of h r = Some rm \<longrightarrow> l \<in> set (hr_members rm) \<longrightarrow> l \<notin> moved \<longrightarrow>
            session_identity l h = Some i \<longrightarrow> i \<notin> set (hr_bans rm)) \<and>
    (\<forall>l i. session_identity l h = Some i \<longrightarrow> i \<notin> set (hc_klines h)) \<and>
    (\<forall>i l. hget (hc_by_identity h) i = Some l \<longrightarrow> l \<notin> moved \<longrightarrow> session_identity l h = Some i)"
proof -
  have "bans_ok moved {} h" "klines_ok {} h" "index_ok moved h"
    using hub_reachable_ok [OF assms] by (simp_all add: hub_ok_def hub_but_def coh_def)
  then show ?thesis by (auto simp: bans_ok_def klines_ok_def index_ok_def)
qed

text \<open>A run in which the exception is real: the operator registers the room and the owner bans identity 9 from it;
  the guest then proves identity 9 on its link, and stays a member.  Who writes to identity 8 still reaches it.\<close>

definition sample_moving_inputs :: "hub_input list" where
  "sample_moving_inputs =
    [In_Envelope [17] (sample_envelope Message 3 (Some sample_room) (Some (CText (lit ''/register den'')))),
     In_Owner [7] (Set_Room_Ban sample_room [9] True)]"

definition sample_banning_hub :: hub_core where
  "sample_banning_hub = fold sample_step sample_moving_inputs sample_hub"

definition sample_moved_hub :: hub_core where
  "sample_moved_hub = sample_step (In_Identified [18] [9]) sample_banning_hub"

lemma sample_moved_reachable: "hub_reachable [] sample_lines {[18]} sample_moved_hub"
proof -
  have "sample_admissible sample_moving_inputs sample_hub" by code_simp
  then have "hub_reachable [] sample_lines {} sample_banning_hub"
    unfolding sample_banning_hub_def by (rule sample_fold_reachable [OF sample_reachable])
  moreover have "identity_gate (In_Identified [18] [9]) sample_banning_hub" by code_simp
  ultimately have "hub_reachable [] sample_lines (moved_by (In_Identified [18] [9]) sample_banning_hub {}) sample_moved_hub"
    unfolding sample_moved_hub_def sample_step_def by (rule hub_handled)
  moreover have "session_identity [18] sample_banning_hub = Some [8]" by code_simp
  ultimately show ?thesis by (simp add: moved_links_def)
qed

lemma moved_link_evades_ban:
  "(case hub_room_of sample_moved_hub sample_room of None \<Rightarrow> False
    | Some rm \<Rightarrow> [18] \<in> set (hr_members rm) \<and> [17] \<in> set (hr_members rm) \<and> [9] \<in> set (hr_bans rm)) \<and>
   session_identity [18] sample_moved_hub = Some [9] \<and> hget (hc_by_identity sample_moved_hub) [8] = Some [18]"
  by code_simp

theorem banned_stay_out_witness:
  "\<exists>rm. hub_room_of sample_moved_hub sample_room = Some rm \<and> hr_bans rm \<noteq> [] \<and> [7] \<notin> set (hr_bans rm) \<and>
     [9] \<notin> set (hc_klines sample_moved_hub)"
proof -
  obtain rm where rm: "hub_room_of sample_moved_hub sample_room = Some rm" "[17] \<in> set (hr_members rm)" "[9] \<in> set (hr_bans rm)"
    using moved_link_evades_ban by (auto split: option.splits)
  have "session_identity [17] sample_moved_hub = Some [7]" by code_simp
  then show ?thesis using banned_stay_out [OF sample_moved_reachable] rm moved_link_evades_ban by fastforce
qed

text \<open>C3: Whatever envelope a link sends whose identity is no server operator, the server operators and the bans of
  the hub stay as they are; a room that its identity does not operate is not created, keeps its operators, voices, bans,
  key, flags and (when it is +t) its topic, and loses or gains no member but the link itself; it disappears only when it
  is unregistered and the link was its last member.\<close>

theorem only_operators_change_rooms:
  assumes "session_identity l h = Some i" and "i \<notin> set (hc_server_ops h)"
    and h': "h' = fst (on_envelope ev version lines l en h)"
  shows "hc_server_ops h' = hc_server_ops h \<and> hc_klines h' = hc_klines h \<and>
    (\<forall>r. case hub_room_of h r of
       None \<Rightarrow> hub_room_of h' r = None
     | Some rm \<Rightarrow> i \<notin> set (hr_ops rm) \<longrightarrow> untouched l rm (hub_room_of h' r))"
proof -
  have spared: "spared h r l i h'" if "\<And>rm. hub_room_of h r = Some rm \<Longrightarrow> i \<notin> set (hr_ops rm)" for r
    unfolding h' using outsider.on_envelope_ok [OF spared_start [OF assms(2) that] assms(1)] by blast
  obtain r0 where "r0 \<notin> set (hkeys (hc_rooms h))"
    using ex_new_if_finite [OF infinite_UNIV_listI] finite_set by metis
  then have "hub_room_of h r0 = None" by (simp add: hkeys_iff)
  then have "hc_server_ops h' = hc_server_ops h \<and> hc_klines h' = hc_klines h"
    using spared [of r0] by (simp add: spared_def)
  moreover have "case hub_room_of h r of None \<Rightarrow> hub_room_of h' r = None
      | Some rm \<Rightarrow> i \<notin> set (hr_ops rm) \<longrightarrow> untouched l rm (hub_room_of h' r)" for r
    using spared [of r] by (auto simp: spared_def split: option.splits)
  ultimately show ?thesis by blast
qed

theorem only_operators_change_rooms_witness:
  "hc_klines (fst (on_envelope sample_env [] sample_lines [18] (sample_envelope Message 9 (Some sample_room) (Some (CText (lit ''/kline add 7'')))) sample_hub))
     = hc_klines sample_hub"
proof -
  have "[8] \<notin> set (hc_server_ops sample_hub)" by code_simp
  then show ?thesis using only_operators_change_rooms [OF sample_guest _ refl] by blast
qed

text \<open>C4: Nobody can speak as the hub or as somebody else.  Whatever input the hub handles, every packet and every
  resource that it sends has the hub as its source, with two exceptions.  An envelope from a link is relayed as the very
  message it is (the same identifier, type and body) under the identity the link has proved, only to a member of a room
  that lets this identity speak or to the link of the identity it was addressed to, and it fits one packet.  The text of
  a resource that a link has completed is cut into notices under the identity the link has proved, only to the members
  of a room that lets it speak; a resource is otherwise answered, to its link alone, with an error of the hub.  What the
  text of the hub's own notices quotes of others, a topic or a nickname, is not spoken of here.\<close>

theorem relays_are_authentic:
  assumes "x \<in> set (snd (hub_handle ev version lines input h))"
  shows "(case x of
       Send_Packet k p \<Rightarrow>
         (case input of
            In_Resource_Completed l hash payload m \<Rightarrow>
              (k = l \<and> hp_type p = ErrorMessage \<and> hp_source p = hc_hub_hash h) \<or>
              (session_identity l h = Some (hp_source p) \<and> hp_type p = Notice \<and>
               (\<exists>r room t n c. hp_room p = Some r \<and> relay_refusal h l (hp_source p) r = None \<and>
                  hub_room_of h r = Some room \<and> k \<in> set (hr_members room) \<and>
                  ev_from_utf8 ev payload = Some t \<and> hp_body p = Some (CText c) \<and> c \<in> set (chunk_text t n)))
          | _ \<Rightarrow> hp_source p = hc_hub_hash h)
     | Send_Resource k p payload \<Rightarrow> hp_source p = hc_hub_hash h
     | Send_Close k \<Rightarrow> True
     | Send_Persist p \<Rightarrow> True
     | Send_Relay k e \<Rightarrow>
         (case input of
            In_Envelope l en \<Rightarrow>
              session_identity l h = Some (en_source e) \<and> en_id e = en_id en \<and> en_type e = en_type en \<and>
              en_body e = en_body en \<and> relay_len ev e \<le> ev_link_mdu ev \<and>
              (case en_room e of
                 Some r \<Rightarrow> relay_refusal h l (en_source e) r = None \<and>
                   (\<exists>room. hub_room_of h r = Some room \<and> k \<in> set (hr_members room))
               | None \<Rightarrow> \<exists>d. en_destination e = Some d \<and> hget (hc_by_identity h) d = Some k)
          | _ \<Rightarrow> False))"
proof -
  consider (envelope) l en where "input = In_Envelope l en"
    | (resource) l hash payload m where "input = In_Resource_Completed l hash payload m"
    | (other) "\<And>l en. input \<noteq> In_Envelope l en" "\<And>l hash payload m. input \<noteq> In_Resource_Completed l hash payload m"
    by (cases input) auto
  then show ?thesis
  proof cases
    case envelope
    then show ?thesis using assms on_envelope_spec(2) [of x ev version lines l en h]
      by (cases x) (auto simp: relays_def addressed_def same_message_def split: option.splits)
  next
    case resource
    then have "completed_says ev h l payload x" using assms resource_completed_says by simp
    then show ?thesis using resource
      by (auto simp: completed_says_def resource_answer_def resource_notice_def)
  next
    case other
    have "hub_send_from (hc_hub_hash h) x" by (rule hub_handle_speaks [OF assms other])
    then show ?thesis using other by (cases x) (simp_all split: hub_input.split)
  qed
qed

theorem relays_are_authentic_witness:
  "\<exists>e. Send_Relay [17] e \<in> set (snd (hub_handle sample_env [] sample_lines (In_Envelope [18]
      (sample_envelope Message 9 (Some sample_room) (Some (CText (lit ''hi''))))) sample_hub)) \<and> en_source e = [8]"
proof -
  let ?res = "hub_handle sample_env [] sample_lines (In_Envelope [18]
    (sample_envelope Message 9 (Some sample_room) (Some (CText (lit ''hi''))))) sample_hub"
  have "list_ex (\<lambda>x. case x of Send_Relay k e \<Rightarrow> k = [17] | _ \<Rightarrow> False) (snd ?res)" by code_simp
  then obtain x where "x \<in> set (snd ?res)" "case x of Send_Relay k e \<Rightarrow> k = [17] | _ \<Rightarrow> False" by (auto simp: list_ex_iff)
  then obtain e where e: "Send_Relay [17] e \<in> set (snd ?res)" by (cases x rule: hub_send.exhaust) auto
  then have "session_identity [18] sample_hub = Some (en_source e)" using relays_are_authentic [OF e] by simp
  then show ?thesis using e sample_guest by auto
qed

text \<open>C6: A message or an action that the room accepts reaches every member, the sender included, once and in the
  order of the members, as the hub rewrites it: its source is the identity of the sender, its room the normalised name,
  its timestamp the one that is safe to show, its nickname the normalised one of the message or else of the session (or
  none, when there is none or it cannot be normalised), and everything else is what was sent.  When this does not fit
  one packet, it goes out without the nickname; when that does not fit either, nobody gets it and the sender gets one
  error that gives its size.\<close>

theorem message_reaches_every_member:
  assumes "session_identity l h = Some i" and "en_type en = Message \<or> en_type en = Action" and "\<not> is_command en"
    and "en_room en = Some raw" and "raw \<noteq> []"
    and "\<And>t. text_body en = Some t \<Longrightarrow> str_len t \<le> cf_max_message_body_bytes (hc_config h)"
    and "norm_room ev h raw = Inr r" and "hub_room_of h r = Some room" and "relay_refusal h l i r = None"
  shows "let shown = (case (case en_nickname en of None \<Rightarrow> session_nickname l h | Some n \<Rightarrow> Some n) of
               None \<Rightarrow> None
             | Some n \<Rightarrow> (case normalize_nickname n (cf_max_nick_bytes (hc_config h)) of Inr m \<Rightarrow> Some m | Inl _ \<Rightarrow> None));
           named = en\<lparr>en_timestamp := sanitize_display_timestamp_ms (en_timestamp en) (ev_now_ms ev),
                     en_source := i, en_room := Some r, en_nickname := shown\<rparr>;
           e = (if ev_link_mdu ev < relay_len ev named then named\<lparr>en_nickname := None\<rparr> else named)
    in snd (on_relay ev lines l en h) =
      (if ev_link_mdu ev < relay_len ev e
       then [hub_error h l (lit ''message too large for '' @ r @ lit '': '' @ dec_string (relay_len ev e) @
               lit '' bytes > '' @ dec_string (ev_link_mdu ev) @ lit '' bytes'') (Some r)]
       else List.map (\<lambda>m. Send_Relay m e) (hr_members room))"
proof -
  let ?en = "en\<lparr>en_timestamp := sanitize_display_timestamp_ms (en_timestamp en) (ev_now_ms ev)\<rparr>"
  have body: "text_body ?en = text_body en" by (simp add: text_body_def)
  have relayed: "snd (on_relay ev lines l en h) = snd (relay_into ev l i r ?en h)"
    using assms by (auto simp: on_relay_def Let_def is_command_def relay_message_def present_room_def opt_text_def body
        not_less split: option.splits)
  have session: "hub_session_of h l \<noteq> None" using assms(1) by (auto simp: session_identity_def bind_eq_Some_conv)
  have nickname: "en_nickname ?en = en_nickname en" by simp
  show ?thesis
    using relay_into_delivers [OF assms(8) session refl refl, where ev = ev and i = i and en = ?en]
    by (simp only: relayed Let_def shown_nickname_def nickname)
qed

theorem message_reaches_every_member_witness:
  "\<exists>e. snd (on_relay sample_env sample_lines [18] (sample_envelope Message 9 (Some sample_room) (Some (CText (lit ''hi'')))) sample_hub)
     = [Send_Relay [17] e, Send_Relay [18] e] \<and> en_source e = [8] \<and> en_body e = Some (CText (lit ''hi'')) \<and> en_nickname e = None"
proof -
  let ?en = "sample_envelope Message 9 (Some sample_room) (Some (CText (lit ''hi'')))"
  obtain room where room: "hub_room_of sample_hub sample_room = Some room" "hr_members room = [[17], [18]]"
    using sample_members by auto
  have "en_type ?en = Message" "\<not> is_command ?en" "en_room ?en = Some sample_room" "sample_room \<noteq> []" by code_simp+
  moreover have "text_body ?en = Some (lit ''hi'')" by code_simp
  moreover have "str_len (lit ''hi'') \<le> cf_max_message_body_bytes (hc_config sample_hub)" by code_simp
  moreover have "norm_room sample_env sample_hub sample_room = Inr sample_room" by code_simp
  moreover have "relay_refusal sample_hub [18] [8] sample_room = None" by code_simp
  ultimately have reach: "snd (on_relay sample_env sample_lines [18] ?en sample_hub) = (let shown =
        (case (case en_nickname ?en of None \<Rightarrow> session_nickname [18] sample_hub | Some n \<Rightarrow> Some n) of
               None \<Rightarrow> None
             | Some n \<Rightarrow> (case normalize_nickname n (cf_max_nick_bytes (hc_config sample_hub)) of Inr m \<Rightarrow> Some m | Inl _ \<Rightarrow> None));
           named = ?en\<lparr>en_timestamp := sanitize_display_timestamp_ms (en_timestamp ?en) (ev_now_ms sample_env),
                     en_source := [8], en_room := Some sample_room, en_nickname := shown\<rparr>;
           e = (if ev_link_mdu sample_env < relay_len sample_env named then named\<lparr>en_nickname := None\<rparr> else named)
       in (if ev_link_mdu sample_env < relay_len sample_env e
           then [hub_error sample_hub [18] (lit ''message too large for '' @ sample_room @ lit '': '' @ dec_string (relay_len sample_env e) @
               lit '' bytes > '' @ dec_string (ev_link_mdu sample_env) @ lit '' bytes'') (Some sample_room)]
           else List.map (\<lambda>m. Send_Relay m e) (hr_members room)))"
    using message_reaches_every_member [OF sample_guest, of ?en sample_room sample_env sample_room room sample_lines] room(1)
    by (simp add: Let_def)
  have "session_nickname [18] sample_hub = None" by code_simp
  moreover have "relay_len sample_env e = 40" "ev_link_mdu sample_env = 400" for e by (simp_all add: relay_len_def sample_env_def)
  ultimately show ?thesis unfolding reach by (simp add: room(2) Let_def sample_envelope_def)
qed

text \<open>C13: In every state the hub can reach, the owner's evidence holds at most 128 events and 64 KiB, the byte
  count is that of the events it holds, their sequence numbers ascend, no excerpt is longer than 256 bytes, no nickname
  longer than the configured limit, and neither holds a control character, a line break or a character that changes the
  direction of the text.  The name of the room is stored as it is: nothing of this is claimed of it.\<close>

theorem evidence_stays_bounded:
  assumes "hub_reachable version lines moved h"
  shows "length (hc_evidence h) \<le> 128 \<and> sum_list (List.map er_bytes (hc_evidence h)) \<le> 65536 \<and>
    hc_evidence_bytes h = sum_list (List.map er_bytes (hc_evidence h)) \<and>
    sorted_wrt (<) (List.map er_sequence (hc_evidence h)) \<and>
    (\<forall>e \<in> set (hc_evidence h).
       (\<forall>t. er_excerpt e = Some t \<longrightarrow> str_len t \<le> 256 \<and>
          (\<forall>c \<in> set t. \<not> is_control c \<and> \<not> presentation_control c \<and> (is_whitespace c \<longrightarrow> c = 32))) \<and>
       (\<forall>t. er_nickname e = Some t \<longrightarrow> str_len t \<le> cf_max_nick_bytes (hc_config h) \<and>
          (\<forall>c \<in> set t. \<not> is_control c \<and> \<not> presentation_control c \<and> (is_whitespace c \<longrightarrow> c = 32))))"
  using hub_reachable_tidy [OF assms]
  by (auto simp: tidy_def shown_record_def EVIDENCE_MAX_EVENTS_def EVIDENCE_MAX_BYTES_def EVIDENCE_EXCERPT_BYTES_def
      shown_text_def list_all_iff)

theorem evidence_stays_bounded_witness:
  "length (hc_evidence sample_hub) = 2 \<and> sum_list (List.map er_bytes (hc_evidence sample_hub)) \<le> 65536"
proof -
  have "length (hc_evidence sample_hub) = 2" by code_simp
  then show ?thesis using evidence_stays_bounded [OF sample_reachable] by simp
qed

text \<open>Why the name of the room is left out: one that turns the direction of the text is joined and recorded.\<close>

lemma evidence_room_as_written:
  "list_ex (\<lambda>e. case er_room e of None \<Rightarrow> False | Some t \<Rightarrow> list_ex presentation_control t)
     (hc_evidence (sample_step (In_Envelope [17] (sample_envelope Join 3 (Some [97, 0x202E]) None)) sample_hub))"
  by code_simp

end
