(* ===== verification/Hub_Gate.thy ===== *)
theory Hub_Gate
  imports Hub_Resource "HOL-Library.Code_Target_Nat"
begin

text \<open>
  The resource gate under any sequence of its operations, in whatever order the hub and the link manager
  call them: its tables stay within their limits, and what it admits was announced.
\<close>

inductive gate_reachable :: "bool \<Rightarrow> nat \<Rightarrow> admission \<Rightarrow> bool" for enabled :: bool and max_bytes :: nat where
  gate_new: "gate_reachable enabled max_bytes (admission_new enabled max_bytes)"
| gate_expect: "gate_reachable enabled max_bytes a \<Longrightarrow> gate_reachable enabled max_bytes (snd (expect l x a))"
| gate_admit: "gate_reachable enabled max_bytes a \<Longrightarrow> gate_reachable enabled max_bytes (snd (admit now l adv a))"
| gate_take: "gate_reachable enabled max_bytes a \<Longrightarrow> gate_reachable enabled max_bytes (snd (take_matching now l n digest a))"
| gate_retire: "gate_reachable enabled max_bytes a \<Longrightarrow> gate_reachable enabled max_bytes (retire l hash a)"
| gate_prune: "gate_reachable enabled max_bytes a \<Longrightarrow> gate_reachable enabled max_bytes (admission_prune now a)"

definition pending_of :: "bytes \<Rightarrow> admission \<Rightarrow> expectation list" where
  "pending_of l a = (case hget (ad_expectations a) l of None \<Rightarrow> [] | Some p \<Rightarrow> p)"

section \<open>The invariant\<close>

definition pending_ok :: "expectation list \<Rightarrow> bool" where
  "pending_ok p \<longleftrightarrow> length p \<le> MAX_PENDING_EXPECTATIONS \<and> distinct (List.map ex_id p)"

definition live_ok :: "(bytes, nat) hmap \<Rightarrow> bool" where
  "live_ok m \<longleftrightarrow> length m \<le> MAX_INBOUND_RESOURCES_PER_LINK \<and> hwf m"

definition gate_ok :: "bool \<Rightarrow> nat \<Rightarrow> admission \<Rightarrow> bool" where
  "gate_ok enabled max_bytes a \<longleftrightarrow> ad_enabled a = enabled \<and> ad_max_bytes a = max_bytes \<and>
     hwf (ad_expectations a) \<and> hwf (ad_live a) \<and> (\<forall>l. pending_ok (pending_of l a)) \<and> (\<forall>l. live_ok (live_of l a))"

lemma pending_simps [simp]:
  "pending_of l (a\<lparr>ad_expectations := hput k p (ad_expectations a)\<rparr>) = (if l = k then p else pending_of l a)"
  "pending_of l (a\<lparr>ad_live := m\<rparr>) = pending_of l a" "pending_of l (note_rejected a) = pending_of l a"
  by (simp_all add: pending_of_def note_rejected_def)

lemma live_simps [simp]:
  "live_of l (a\<lparr>ad_live := hput k m (ad_live a)\<rparr>) = (if l = k then m else live_of l a)"
  "live_of l (a\<lparr>ad_live := hdel k (ad_live a)\<rparr>) = (if l = k then [] else live_of l a)"
  "live_of l (a\<lparr>ad_expectations := m'\<rparr>) = live_of l a" "live_of l (note_rejected a) = live_of l a"
  by (simp_all add: live_of_def note_rejected_def)

lemma empties [simp]: "pending_ok []" "live_ok []"
  by (simp_all add: pending_ok_def live_ok_def)

lemma pending_prune: "hwf (ad_expectations a) \<Longrightarrow> pending_of l (admission_prune now a) = fresh_expectations now (pending_of l a)"
  by (auto simp: pending_of_def admission_prune_def hget_retain fresh_expectations_def split: option.split)

lemma live_prune: "hwf (ad_live a) \<Longrightarrow> live_of l (admission_prune now a) = fresh_live now (live_of l a)"
proof -
  have "fresh_live now [] = []" by (simp add: fresh_live_def hretain_def)
  then show "hwf (ad_live a) \<Longrightarrow> live_of l (admission_prune now a) = fresh_live now (live_of l a)"
    by (auto simp: live_of_def admission_prune_def hget_retain split: option.split)
qed

lemma pending_ok_fresh: "pending_ok p \<Longrightarrow> pending_ok (fresh_expectations now p)"
  by (auto simp: pending_ok_def fresh_expectations_def distinct_map_filter intro: le_trans [OF length_filter_le])

lemma live_ok_fresh: "live_ok m \<Longrightarrow> live_ok (fresh_live now m)"
  by (auto simp: live_ok_def fresh_live_def) (auto simp: hretain_def intro: le_trans [OF length_filter_le])

lemma gate_prune_ok: "gate_ok enabled max_bytes a \<Longrightarrow> gate_ok enabled max_bytes (admission_prune now a)"
  by (simp add: gate_ok_def pending_prune live_prune pending_ok_fresh live_ok_fresh)
    (simp add: admission_prune_def)

lemma replace_expectation_ids: "replace_expectation x p = Some q \<Longrightarrow> List.map ex_id q = List.map ex_id p"
  by (induction x p arbitrary: q rule: replace_expectation.induct) (auto split: if_splits)

lemma replace_expectation_none: "replace_expectation x p = None \<longleftrightarrow> ex_id x \<notin> set (List.map ex_id p)"
  by (induction x p rule: replace_expectation.induct) auto

lemma pending_ok_replace: "pending_ok p \<Longrightarrow> replace_expectation x p = Some q \<Longrightarrow> pending_ok q"
  unfolding pending_ok_def by (metis length_map replace_expectation_ids)

lemma gate_store_ok: "gate_ok enabled max_bytes a \<Longrightarrow> pending_ok p \<Longrightarrow>
    gate_ok enabled max_bytes (a\<lparr>ad_expectations := hput l p (ad_expectations a)\<rparr>)"
  by (simp add: gate_ok_def)

lemma gate_live_ok: "gate_ok enabled max_bytes a \<Longrightarrow> live_ok m \<Longrightarrow>
    gate_ok enabled max_bytes (a\<lparr>ad_live := hput l m (ad_live a)\<rparr>)"
  by (simp add: gate_ok_def)

lemma gate_expect_ok:
  assumes "gate_ok enabled max_bytes a"
  shows "gate_ok enabled max_bytes (snd (expect l x a))"
proof -
  let ?a = "admission_prune (ex_created_at x) a"
  have ok: "gate_ok enabled max_bytes ?a" by (rule gate_prune_ok [OF assms])
  then have p: "pending_ok (pending_of l ?a)" by (simp add: gate_ok_def)
  have "pending_ok (pending_of l ?a @ [x])" if "replace_expectation x (pending_of l ?a) = None"
      "\<not> MAX_PENDING_EXPECTATIONS \<le> length (pending_of l ?a)"
    using that p by (simp add: pending_ok_def replace_expectation_none)
  then show ?thesis
    using gate_store_ok [OF ok] p pending_ok_replace [OF p]
    by (auto simp: expect_def Let_def pending_of_def [symmetric] split: option.split)
qed

lemma length_hput_le: "length (hput k v m) \<le> Suc (length m)"
  by (induction m) (auto simp: hput_def)

lemma gate_admit_ok:
  assumes "gate_ok enabled max_bytes a"
  shows "gate_ok enabled max_bytes (snd (admit now l adv a))"
proof -
  let ?b = "admission_prune now a"
  have b: "gate_ok enabled max_bytes ?b" by (rule gate_prune_ok [OF assms])
  then have live: "live_ok (live_of l ?b)" by (simp add: gate_ok_def)
  have "live_ok (hput (rv_hash adv) now (live_of l ?b))" if "\<not> MAX_INBOUND_RESOURCES_PER_LINK \<le> length (live_of l ?b)"
    using that live length_hput_le [of "rv_hash adv" now "live_of l ?b"] by (simp add: live_ok_def)
  then have "gate_ok enabled max_bytes (snd (admit_inner now l adv a))"
    using assms b gate_live_ok [OF b] live by (simp add: admit_inner_def Let_def)
  moreover have "gate_ok enabled max_bytes c \<Longrightarrow> gate_ok enabled max_bytes (note_rejected c)" for c
    by (simp add: gate_ok_def) (simp add: note_rejected_def)
  ultimately show ?thesis by (simp add: admit_def case_prod_unfold)
qed

lemma take_first_spec: "take_first P xs = Some (x, ys) \<Longrightarrow> \<exists>as bs. xs = as @ x # bs \<and> ys = as @ bs \<and> P x"
  by (induction P xs arbitrary: ys rule: take_first.induct) (fastforce split: if_splits intro: exI [of _ "_ # _"])+

lemma gate_take_ok:
  assumes "gate_ok enabled max_bytes a"
  shows "gate_ok enabled max_bytes (snd (take_matching now l n digest a))"
proof -
  let ?b = "admission_prune now a"
  have b: "gate_ok enabled max_bytes ?b" by (rule gate_prune_ok [OF assms])
  have "gate_ok enabled max_bytes (?b\<lparr>ad_expectations := hput l rest (ad_expectations ?b)\<rparr>)"
    if "hget (ad_expectations ?b) l = Some p" "take_first (satisfied_by n digest) p = Some (x, rest)" for p x rest
  proof -
    have "pending_ok p" using b that(1) by (auto simp: gate_ok_def pending_of_def dest: spec [of _ l])
    then have "pending_ok rest" using take_first_spec [OF that(2)] by (auto simp: pending_ok_def)
    then show ?thesis by (rule gate_store_ok [OF b])
  qed
  then show ?thesis
    using b by (auto simp: take_matching_def Let_def split: option.splits Option.bind_splits)
qed

lemma gate_retire_ok:
  assumes "gate_ok enabled max_bytes a"
  shows "gate_ok enabled max_bytes (retire l hash a)"
proof -
  have "live_ok (hdel hash m)" if "hget (ad_live a) l = Some m" for m
  proof -
    have "live_ok m" using assms that by (auto simp: gate_ok_def live_of_def dest: spec [of _ l])
    then show ?thesis by (auto simp: live_ok_def) (auto simp: hdel_def intro: le_trans [OF length_delete_le])
  qed
  then show ?thesis
    using assms gate_live_ok [OF assms] by (auto simp: retire_def Let_def split: option.split) (simp add: gate_ok_def)
qed

lemma gate_reachable_ok: "gate_reachable enabled max_bytes a \<Longrightarrow> gate_ok enabled max_bytes a"
proof (induction rule: gate_reachable.induct)
  case gate_new
  then show ?case by (simp add: gate_ok_def admission_new_def pending_of_def live_of_def)
qed (simp_all add: gate_expect_ok gate_admit_ok gate_take_ok gate_retire_ok gate_prune_ok)

section \<open>What is admitted\<close>

lemma admitted_was_announced:
  assumes "hwf (ad_expectations a)" and "admit now l adv a = (True, b)"
  shows "ad_enabled a \<and> rv_total_segments adv \<le> 1 \<and> \<not> rv_split adv \<and> \<not> rv_has_metadata adv \<and>
    0 < rv_data_size adv \<and> rv_data_size adv \<le> ad_max_bytes a \<and>
    (hget (live_of l a) (rv_hash adv) \<noteq> None \<and> b = a \<or>
     (\<exists>x \<in> set (pending_of l a). ex_size x = rv_data_size adv \<and> now - ex_created_at x \<le> RESOURCE_EXPECTATION_TTL) \<and>
       hget (live_of l b) (rv_hash adv) = Some now)"
proof -
  have "announced_size l n c \<longleftrightarrow> (\<exists>x \<in> set (pending_of l c). ex_size x = n)" for n c
    by (cases "hget (ad_expectations c) l") (auto simp: announced_size_def pending_of_def list_ex_iff)
  then show ?thesis
    using assms pending_prune [OF assms(1), of l now]
    by (auto simp: admit_def admit_inner_def Let_def fresh_expectations_def split: if_splits)
qed

text \<open>C12: Whatever sequence of operations the hub and the link manager perform on the resource gate, no link has more
  than 8 announcements pending, with distinct identifiers, nor more than 4 transfers live; and a transfer is admitted only
  by an enabled gate, in one segment, without metadata, within the size limit, and either because it is live already or
  because an envelope announced exactly its size at most 30 seconds ago.\<close>

theorem gate_admits_only_announced:
  assumes "gate_reachable enabled max_bytes a"
  shows "length (pending_of l a) \<le> 8 \<and> distinct (List.map ex_id (pending_of l a)) \<and> length (live_of l a) \<le> 4 \<and>
    (\<forall>now adv b. admit now l adv a = (True, b) \<longrightarrow>
       enabled \<and> rv_total_segments adv \<le> 1 \<and> \<not> rv_split adv \<and> \<not> rv_has_metadata adv \<and>
       0 < rv_data_size adv \<and> rv_data_size adv \<le> max_bytes \<and>
       (hget (live_of l a) (rv_hash adv) \<noteq> None \<and> b = a \<or>
        (\<exists>x \<in> set (pending_of l a). ex_size x = rv_data_size adv \<and> now - ex_created_at x \<le> 30000) \<and>
          hget (live_of l b) (rv_hash adv) = Some now))"
proof -
  have ok: "gate_ok enabled max_bytes a" by (rule gate_reachable_ok [OF assms])
  then have "hwf (ad_expectations a)" "pending_ok (pending_of l a)" "live_ok (live_of l a)"
      "ad_enabled a = enabled" "ad_max_bytes a = max_bytes"
    by (simp_all add: gate_ok_def)
  then show ?thesis using admitted_was_announced [of a _ l]
    by (simp add: pending_ok_def live_ok_def MAX_PENDING_EXPECTATIONS_def MAX_INBOUND_RESOURCES_PER_LINK_def
        RESOURCE_EXPECTATION_TTL_def)
qed

definition sample_announced :: admission where
  "sample_announced = snd (expect [1] \<lparr>ex_id = [9], ex_size = 40, ex_sha256 = None, ex_encoding = None, ex_room = [], ex_created_at = 100\<rparr>
     (admission_new True 64))"

definition sample_advertisement :: resource_advertisement where
  "sample_advertisement = \<lparr>rv_hash = [2], rv_data_size = 40, rv_total_segments = 1, rv_split = False, rv_has_metadata = False, rv_metadata_size = 0\<rparr>"

theorem gate_admits_only_announced_witness:
  "\<exists>b. admit 200 [1] sample_advertisement sample_announced = (True, b) \<and> hget (live_of [1] b) [2] = Some 200"
proof -
  have reach: "gate_reachable True 64 sample_announced" unfolding sample_announced_def by (intro gate_expect gate_new)
  have "fst (admit 200 [1] sample_advertisement sample_announced)" by code_simp
  then obtain b where b: "admit 200 [1] sample_advertisement sample_announced = (True, b)"
    by (cases "admit 200 [1] sample_advertisement sample_announced") simp
  have new: "hget (live_of [1] sample_announced) (rv_hash sample_advertisement) = None" by code_simp
  have "hget (live_of [1] b) (rv_hash sample_advertisement) = Some 200"
    using gate_admits_only_announced [OF reach, THEN conjunct2, THEN conjunct2, THEN conjunct2, rule_format, OF b] new by simp
  then show ?thesis using b by (simp add: sample_advertisement_def)
qed

end
