(* ===== verification/Hub_Hidden.thy ===== *)
theory Hub_Hidden
  imports Hub_Reach
begin

text \<open>
  A private room and a caller who is not in it.  \<open>hide r\<close> is the hub without the room \<open>r\<close>.  A step that
  does not concern \<open>r\<close> commutes with hiding it (\<open>blind\<close>); commands and messages of a caller who cannot
  see the room commute too, so the answers are those of a hub that does not have the room.
\<close>

definition hide :: "ustr \<Rightarrow> hub_core \<Rightarrow> hub_core" where
  "hide r h = h\<lparr>hc_rooms := hdel r (hc_rooms h)\<rparr>"

definition blind :: "ustr \<Rightarrow> hub_step \<Rightarrow> bool" where
  "blind r f \<longleftrightarrow> (\<forall>h. f (hide r h) = (hide r (fst (f h)), snd (f h)))"

named_theorems hide_simps "reading and updating a hub without a room"
named_theorems blind_intros "steps that do not concern a room"

section \<open>Reading\<close>

lemma hide_parts [simp]:
  "hc_config (hide r h) = hc_config h" "hc_hub_hash (hide r h) = hc_hub_hash h" "hc_sessions (hide r h) = hc_sessions h"
  "hc_by_identity (hide r h) = hc_by_identity h" "hc_server_ops (hide r h) = hc_server_ops h" "hc_klines (hide r h) = hc_klines h"
  "hc_pepper (hide r h) = hc_pepper h" "hc_pepper_id (hide r h) = hc_pepper_id h" "hc_stats (hide r h) = hc_stats h"
  "hc_events (hide r h) = hc_events h" "hc_evidence (hide r h) = hc_evidence h" "hc_evidence_bytes (hide r h) = hc_evidence_bytes h"
  "hc_evidence_sequence (hide r h) = hc_evidence_sequence h" "hc_evidence_evicted (hide r h) = hc_evidence_evicted h"
  by (simp_all add: hide_def)

lemma hide_room [simp]: "hub_room_of (hide r h) r' = (if r' = r then None else hub_room_of h r')"
  by (simp add: hide_def)

lemma hide_identity [simp]: "session_identity l (hide r h) = session_identity l h" "session_nickname l (hide r h) = session_nickname l h"
  by (simp_all add: session_identity_def session_nickname_def)

lemma hide_output [simp]:
  fixes h :: hub_core
  shows "made (hide r h) t = made h t" "hub_notice (hide r h) l t' room = hub_notice h l t' room"
  "hub_error (hide r h) l t' room = hub_error h l t' room"
  "push_notice_entries ev (hide r h) l header entries sep room = push_notice_entries ev h l header entries sep room"
  "norm_room ev (hide r h) raw = norm_room ev h raw" "notice_budget ev (hide r h) room = notice_budget ev h room"
proof -
  show made: "made (hide r h) t = made h t" for t by (simp add: made_def)
  show "hub_notice (hide r h) l t' room = hub_notice h l t' room" for t' room by (simp add: hub_notice_def made)
  then show "push_notice_entries ev (hide r h) l header entries sep room = push_notice_entries ev h l header entries sep room"
    by (simp add: push_notice_entries_def notice_budget_def text_body_budget_def envelope_overhead_def made Let_def)
  show "hub_error (hide r h) l t' room = hub_error h l t' room" by (simp add: hub_error_def made)
  show "norm_room ev (hide r h) raw = norm_room ev h raw" by (simp add: norm_room_def Let_def)
  show "notice_budget ev (hide r h) room = notice_budget ev h room"
    by (simp add: notice_budget_def text_body_budget_def envelope_overhead_def made)
qed

lemma hide_rights [simp]:
  "is_room_op (hide r h) room i = is_room_op h room i" "is_voiced (hide r h) room i = is_voiced h room i"
  "identity_in_room (hide r h) room i = identity_in_room h room i" "can_view_room (hide r h) room i = can_view_room h room i"
  "identity_still_in_room (hide r h) room i l = identity_still_in_room h room i l"
  "resolve_target ev (hide r h) token = resolve_target ev h token"
  "resolve_target_or_hash ev (hide r h) token = resolve_target_or_hash ev h token"
  "who_entries ev (hide r h) room = who_entries ev h room" "links_of (hide r h) i = links_of h i"
  by (simp_all add: is_room_op_def is_voiced_def identity_in_room_def can_view_room_def identity_still_in_room_def
      resolve_target_def resolve_target_or_hash_def who_entries_def links_of_def)

lemma hide_room_links [simp]:
  "r' \<noteq> r \<Longrightarrow> room_links_for_identity (hide r h) r' i = room_links_for_identity h r' i"
  "r' \<noteq> r \<Longrightarrow> broadcast_mode (hide r h) r' = broadcast_mode h r'"
  "broadcast (hide r h) room r' t = broadcast h room r' t"
  by (simp_all add: room_links_for_identity_def broadcast_mode_def broadcast_def split: option.splits)

section \<open>Updating\<close>

lemma hdel_hmod_other: "k' \<noteq> k \<Longrightarrow> hdel k (hmod k' f m) = hmod k' f (hdel k m)"
  by (auto simp: hmod_def hdel_def hput_def hget_def delete_update delete_conv' split: option.splits)

lemma hdel_commute: "hdel k (hdel k' m) = hdel k' (hdel k m)"
  by (simp add: hdel_def delete_twist)

lemma hide_upd_room: "r' \<noteq> r \<Longrightarrow> upd_room r' f (hide r h) = hide r (upd_room r' f h)"
  by (simp add: upd_room_def hide_def hdel_hmod_other)

lemma hide_upd [hide_simps]:
  "upd_session l g (hide r h) = hide r (upd_session l g h)" "upd_stats f (hide r h) = hide r (upd_stats f h)"
  "push_event e (hide r h) = hide r (push_event e h)"
  by (simp_all add: upd_session_def upd_stats_def push_event_def hide_def)

lemma hide_evict_oldest [hide_simps]: "evict_oldest_evidence (hide r h) = hide r (evict_oldest_evidence h)"
  by (simp add: evict_oldest_evidence_def hide_def split: list.splits)

lemma hide_evict_while: "(\<And>h. P (hide r h) = P h) \<Longrightarrow> evict_while P (hide r h) = hide r (evict_while P h)"
proof (induction P h rule: evict_while.induct)
  case (1 P h)
  show ?case
    using 1 by (subst (1 2) evict_while.simps) (simp add: hide_evict_oldest)
qed

lemma hide_prune [hide_simps]: "prune_evidence now (hide r h) = hide r (prune_evidence now h)"
  by (simp add: prune_evidence_def Let_def hide_evict_while)

lemma hide_push_evidence [hide_simps]:
  "push_evidence ev kind a n room src nick tgt ex (hide r h) = hide r (push_evidence ev kind a n room src nick tgt ex h)"
proof -
  have clear: "evict_while (\<lambda>_. True) (hide r h) = hide r (evict_while (\<lambda>_. True) h)" for h by (rule hide_evict_while) simp
  have over: "evict_while over_evidence (hide r h) = hide r (evict_while over_evidence h)" for h
    by (rule hide_evict_while) (simp add: over_evidence_def)
  have upd: "(hide r h)\<lparr>hc_evidence_sequence := n\<rparr> = hide r (h\<lparr>hc_evidence_sequence := n\<rparr>)"
    "(hide r h)\<lparr>hc_evidence_evicted := n\<rparr> = hide r (h\<lparr>hc_evidence_evicted := n\<rparr>)"
    "(hide r h)\<lparr>hc_evidence := es, hc_evidence_bytes := n\<rparr> = hide r (h\<lparr>hc_evidence := es, hc_evidence_bytes := n\<rparr>)" for h n es
    by (simp_all add: hide_def)
  show ?thesis by (simp add: push_evidence_def Let_def hide_prune clear over upd)
qed

lemma hide_notes [hide_simps]:
  "note_moderated ev l room a t (hide r h) = hide r (note_moderated ev l room a t h)"
  "note_room_evidence ev kind i nick room (hide r h) = hide r (note_room_evidence ev kind i nick room h)"
  "note_content_evidence ev src nick room k t' (hide r h) = hide r (note_content_evidence ev src nick room k t' h)"
  "note_relayed room k b n (hide r h) = hide r (note_relayed room k b n h)"
  by (simp_all add: note_moderated_def note_room_evidence_def note_content_evidence_def note_relayed_def hide_simps)

section \<open>Steps\<close>

lemma blindI: "(\<And>h. f (hide r h) = (hide r (fst (f h)), snd (f h))) \<Longrightarrow> blind r f"
  by (simp add: blind_def)

lemma blind_then_do [blind_intros]: "blind r f \<Longrightarrow> blind r g \<Longrightarrow> blind r (then_do f g)"
  by (simp add: blind_def then_do_def Let_def case_prod_unfold)

lemma blind_run_all [blind_intros]: "list_all (blind r) fs \<Longrightarrow> blind r (run_all fs)"
  by (induction fs) (simp_all add: run_all.simps blind_def then_do_def Let_def case_prod_unfold)

lemma blind_for_each [blind_intros]: "(\<And>x. blind r (f x)) \<Longrightarrow> blind r (for_each f xs)"
  by (induction xs) (simp_all add: blind_def then_do_def Let_def case_prod_unfold)

lemma blind_quietly: "(\<And>h. g (hide r h) = hide r (g h)) \<Longrightarrow> blind r (quietly g)"
  by (simp add: blind_def quietly_def)

lemma blind_saying: "(\<And>h. s (hide r h) = s h) \<Longrightarrow> blind r (saying s)"
  by (simp add: blind_def saying_def)

lemma blind_say [blind_intros]: "blind r (say l t room)" "blind r (refuse l t room)"
  by (simp_all add: say_def refuse_def blind_saying)

lemma blind_note_moderated [blind_intros]: "blind r (quietly (note_moderated ev l room a t))"
  by (simp add: blind_quietly hide_simps)

lemma blind_upd_room [blind_intros]: "r' \<noteq> r \<Longrightarrow> blind r (quietly (upd_room r' f))"
  by (simp add: blind_quietly hide_upd_room)

lemma blind_persist_room [blind_intros]: "r' \<noteq> r \<Longrightarrow> blind r (persist_room ev r' origin)"
  by (simp add: blind_def persist_room_def hide_upd_room split: option.splits)

lemma blind_remove_member: "r' \<noteq> r \<Longrightarrow> blind r (remove_member_with_parted ev r' l i n)"
proof (rule blindI)
  fix h
  assume ne: "r' \<noteq> r"
  have del: "(hide r h)\<lparr>hc_rooms := hdel r' (hc_rooms (hide r h))\<rparr> = hide r (h\<lparr>hc_rooms := hdel r' (hc_rooms h)\<rparr>)" for h
    by (simp add: hide_def hdel_commute)
  have packet: "parted_packet (hide r h) r' i n = parted_packet h r' i n" for h by (simp add: parted_packet_def)
  show "remove_member_with_parted ev r' l i n (hide r h) =
      (hide r (fst (remove_member_with_parted ev r' l i n h)), snd (remove_member_with_parted ev r' l i n h))"
  proof (cases "hub_room_of h r'")
    case (Some room)
    define h1 where "h1 = upd_room r' (\<lambda>rm. rm\<lparr>hr_members := hrem l (hr_members room)\<rparr>) h"
    define h2 where "h2 = (if hrem l (hr_members room) = [] \<and> \<not> hr_registered room then h1\<lparr>hc_rooms := hdel r' (hc_rooms h1)\<rparr> else h1)"
    define h3 where "h3 = (if l \<in> set (hr_members room) then push_event (Ev_RoomParted l r' (length (hrem l (hr_members room)))) h2 else h2)"
    have e1: "upd_room r' (\<lambda>rm. rm\<lparr>hr_members := hrem l (hr_members room)\<rparr>) (hide r h) = hide r h1"
      using ne by (simp add: h1_def hide_upd_room)
    have e2: "(if hrem l (hr_members room) = [] \<and> \<not> hr_registered room then (hide r h1)\<lparr>hc_rooms := hdel r' (hc_rooms (hide r h1))\<rparr>
        else hide r h1) = hide r h2" by (simp add: h2_def del)
    have e3: "(if l \<in> set (hr_members room) then push_event (Ev_RoomParted l r' (length (hrem l (hr_members room)))) (hide r h2) else hide r h2)
        = hide r h3" by (simp add: h3_def hide_simps)
    have e4: "hub_room_of (hide r h) r' = Some room" "hub_room_of (hide r h3) r' = hub_room_of h3 r'"
      "identity_still_in_room (hide r h3) = identity_still_in_room h3"
      using ne Some by (simp_all add: fun_eq_iff)
    show ?thesis
      unfolding remove_member_with_parted_def Let_def e4(1) Some option.case h1_def [symmetric] h2_def [symmetric] h3_def [symmetric] e1 e2 e3 e4(2,3)
      by (simp add: hide_simps packet)
  qed (use ne in \<open>simp add: remove_member_with_parted_def\<close>)
qed

lemma blind_eject [blind_intros]: "r' \<noteq> r \<Longrightarrow> blind r (eject_link ev r' target reason k)"
proof -
  assume ne: "r' \<noteq> r"
  have "blind r (\<lambda>h. remove_member_with_parted ev r' k target (session_nickname k h)
      (upd_session k (\<lambda>s. s\<lparr>hs_rooms := hrem r' (hs_rooms s)\<rparr>) h))"
    using blind_remove_member [OF ne] by (simp add: blind_def hide_simps)
  then show ?thesis unfolding eject_link_def by (intro blind_then_do) (simp_all add: blind_saying)
qed

text \<open>Commands that go through the gate of an operator.\<close>

lemma blind_change_mode: "r' \<noteq> r \<Longrightarrow> blind r (change_mode ev l r' f)"
  unfolding change_mode_def by (intro blind_run_all) (simp add: blind_intros blind_saying)

lemma blind_mode_key: "r' \<noteq> r \<Longrightarrow> blind r (mode_key ev l r' words raw)"
  using blind_change_mode blind_say by (simp add: blind_def mode_key_def Let_def)

lemma blind_mode_role: "r' \<noteq> r \<Longrightarrow> blind r (mode_role ev l r' role words raw)"
proof (cases words)
  case (Cons token rest)
  assume ne: "r' \<noteq> r"
  have "blind r (run_all [quietly (upd_room r' (grant_role role target)),
      saying (\<lambda>h. case hub_room_of h r' of None \<Rightarrow> []
        | Some room \<Rightarrow> broadcast h room r' (lit ''mode for '' @ r' @ lit '' is now: '' @ role @ [32] @ take 12 (ev_hex ev target))),
      persist_room ev r' (Some l), quietly (note_moderated ev l r' (role_action role) (Some target))])" for target
    using ne by (intro blind_run_all) (simp add: blind_intros blind_saying split: option.splits)
  then show ?thesis using blind_say Cons
    by (simp add: blind_def mode_role_def with_target_def split: sum.split)
qed (simp add: mode_role_def blind_say)

lemma blind_apply_mode: "r' \<noteq> r \<Longrightarrow> blind r (apply_mode ev l r' flag words raw)"
  using blind_change_mode blind_mode_key blind_mode_role blind_say by (simp add: apply_mode_def)

lemma blind_grant: "r' \<noteq> r \<Longrightarrow> blind r (run_all [quietly (upd_room r' (grant_role role target)), persist_room ev r' (Some l),
    quietly (note_moderated ev l r' a t), say l text' raw])"
  by (intro blind_run_all) (simp add: blind_intros)

lemma blind_kick: "r' \<noteq> r \<Longrightarrow> blind r (run_all [quietly (upd_room r' f), for_each (eject_link ev r' target reason) links,
    quietly (note_moderated ev l r' a t), say l text' raw])"
  by (intro blind_run_all) (simp add: blind_intros)

lemma blind_ban_add: "r' \<noteq> r \<Longrightarrow> blind r (ban_add ev l r' raw target)"
proof -
  assume ne: "r' \<noteq> r"
  have each: "blind r (for_each (eject_link ev r' target reason) ks)" for reason ks using ne by (intro blind_for_each blind_eject)
  have "blind r (\<lambda>h. for_each (eject_link ev r' target (lit ''banned from '' @ r')) (room_links_for_identity h r' target) h)"
    by (rule blindI) (use ne each in \<open>simp add: blind_def\<close>)
  then show ?thesis unfolding ban_add_def using ne by (intro blind_run_all) (simp add: blind_intros)
qed

lemma blind_ban_del: "r' \<noteq> r \<Longrightarrow> blind r (ban_del ev l r' raw target)"
  unfolding ban_del_def by (intro blind_run_all) (simp add: blind_intros)

lemma blind_invite_del: "r' \<noteq> r \<Longrightarrow> blind r (invite_del ev l r' raw target)"
  unfolding invite_del_def by (intro blind_run_all) (simp add: blind_intros)

lemma blind_invite_add: "r' \<noteq> r \<Longrightarrow> blind r (invite_add ev l r' room token raw target)"
proof (rule blindI)
  fix h :: hub_core
  assume ne: "r' \<noteq> r"
  let ?ttl = "max 1 (cf_invite_timeout_secs (hc_config h))"
  let ?keyed = "hr_key room \<noteq> None"
  let ?gated = "hr_invite_only room \<or> ?keyed"
  have "blind r (run_all [
       (if ?gated then quietly (upd_room r' (\<lambda>rm. rm\<lparr>hr_invited := hput target (ev_now_unix ev + ?ttl) (hr_invited rm)\<rparr>))
        else quietly (\<lambda>h. h)),
       saying (\<lambda>h. case hget (hc_by_identity h) target of None \<Rightarrow> [] | Some k \<Rightarrow> [hub_notice h k (invite_text r' ?keyed) (Some r')]),
       (if ?gated then persist_room ev r' (Some l) else quietly (\<lambda>h. h)),
       quietly (note_moderated ev l r' Mod_Invite (Some target)),
       say l (if ?gated then lit ''invite added in '' @ r' @ lit '' (expires in '' @ dec_string ?ttl @ lit ''s)''
              else lit ''invite sent to '' @ token @ lit '' for '' @ r') raw])"
    using ne by (intro blind_run_all) (simp add: blind_intros blind_quietly blind_saying split: option.splits)
  then show "invite_add ev l r' room token raw target (hide r h) =
      (hide r (fst (invite_add ev l r' room token raw target h)), snd (invite_add ev l r' room token raw target h))"
    unfolding invite_add_def Let_def hide_parts unfolding blind_def by blast
qed

section \<open>A caller who cannot see the room\<close>

definition unseen :: "ustr \<Rightarrow> bytes \<Rightarrow> bytes \<Rightarrow> hub_core \<Rightarrow> bool" where
  "unseen r l i h \<longleftrightarrow> hwf (hc_rooms h) \<and> i \<notin> set (hc_server_ops h) \<and>
     (\<forall>s. hub_session_of h l = Some s \<longrightarrow> r \<notin> set (hs_rooms s)) \<and>
     (\<forall>room. hub_room_of h r = Some room \<longrightarrow> \<not> can_view_room h room i)"

definition blind_at :: "ustr \<Rightarrow> hub_core \<Rightarrow> hub_step \<Rightarrow> bool" where
  "blind_at r h f \<longleftrightarrow> f (hide r h) = (hide r (fst (f h)), snd (f h))"

lemma blind_atD: "blind r f \<Longrightarrow> blind_at r h f"
  by (simp add: blind_def blind_at_def)

lemma blind_at_say [simp]: "blind_at r h (say l t room)" "blind_at r h (refuse l t room)"
  by (simp_all add: blind_atD blind_say)

lemma blind_at_ask: "(\<And>h. fst (f h) = h) \<Longrightarrow> snd (f (hide r h)) = snd (f h) \<Longrightarrow> blind_at r h f"
  by (simp add: blind_at_def prod_eq_iff)

lemma blind_at_visible:
  assumes "unseen r l i h" and "\<And>room. r' \<noteq> r \<Longrightarrow> hub_room_of h r' = Some room \<Longrightarrow> blind_at r h (k room)"
  shows "blind_at r h (visible_room l i r' k)"
proof (cases "r' = r")
  case True
  then show ?thesis using assms(1) by (auto simp: blind_at_def visible_room_def unseen_def split: option.split)
next
  case False
  then show ?thesis using assms(2) by (auto simp: blind_at_def visible_room_def split: option.split)
qed

lemma blind_at_op:
  assumes "unseen r l i h" and "\<And>room. r' \<noteq> r \<Longrightarrow> hub_room_of h r' = Some room \<Longrightarrow> blind_at r h (k room)"
  shows "blind_at r h (op_room l i r' k)"
  unfolding op_room_def
  by (rule blind_at_visible [OF assms(1)]) (use assms(2) in \<open>auto simp: blind_at_def\<close>)

lemma blind_at_named: "(\<And>r'. norm_room ev h a = Inr r' \<Longrightarrow> blind_at r h (k r')) \<Longrightarrow> blind_at r h (named_room ev l c a k)"
  by (simp add: blind_at_def named_room_def split: sum.split)

lemma blind_at_target:
  assumes "res (hide r h) = res h" and "\<And>t. blind_at r h (k t)"
  shows "blind_at r h (\<lambda>h. with_target l raw (res h) k h)"
proof (cases "res h")
  case (Inl e)
  then show ?thesis using assms(1) blind_at_say by (simp add: blind_at_def with_target_def)
next
  case (Inr t)
  then show ?thesis using assms by (simp add: blind_at_def with_target_def)
qed

lemma blind_at_if: "(c \<Longrightarrow> blind_at r h f) \<Longrightarrow> (\<not> c \<Longrightarrow> blind_at r h g) \<Longrightarrow> blind_at r h (if c then f else g)"
  by simp

lemma blind_at_cond:
  assumes "c (hide r h) = c h" and "c h \<Longrightarrow> blind_at r h f" and "\<not> c h \<Longrightarrow> blind_at r h g"
  shows "blind_at r h (\<lambda>h. if c h then f h else g h)"
  using assms by (simp add: blind_at_def)

lemma hdel_unseen: "hwf m \<Longrightarrow> (\<And>v. hget m k = Some v \<Longrightarrow> \<not> P (k, v)) \<Longrightarrow> filter P (hdel k m) = filter P m"
proof (induction m)
  case (Cons e m)
  have wf: "hwf m" using Cons.prems(1) by (simp add: hwf_def)
  show ?case
  proof (cases "fst e = k")
    case True
    then have none: "k \<notin> set (List.map fst m)" and e: "hget (e # m) k = Some (snd e)"
      using Cons.prems(1) by (cases e; simp add: hwf_def hget_def)+
    then have "hdel k m = m" "\<not> P e"
      using Cons.prems(2) [of "snd e"] True by (cases e; simp add: hdel_def delete_id)+
    then show ?thesis using True by (cases e) (simp add: hdel_def)
  next
    case False
    then have "\<And>v. hget m k = Some v \<Longrightarrow> \<not> P (k, v)" using Cons.prems(2) by (cases e) (simp add: hget_def)
    then show ?thesis using Cons.IH [OF wf] False by (cases e) (simp add: hdel_def)
  qed
qed (simp add: hdel_def)

lemma blind_at_list: "unseen r l i h \<Longrightarrow> blind_at r h (cmd_list ev l i)"
proof -
  assume u: "unseen r l i h"
  have "filter (\<lambda>(r, room). hr_registered room \<and> can_view_room h room i) (hdel r (hc_rooms h)) =
      filter (\<lambda>(r, room). hr_registered room \<and> can_view_room h room i) (hc_rooms h)"
    using u by (intro hdel_unseen) (auto simp: unseen_def)
  moreover have "hc_rooms (hide r h) = hdel r (hc_rooms h)" by (simp add: hide_def)
  ultimately show ?thesis by (simp add: blind_at_def cmd_list_def Let_def say_def saying_def)
qed

lemma blind_at_who: "unseen r l i h \<Longrightarrow> blind_at r h (cmd_who ev l i args raw)"
proof -
  assume u: "unseen r l i h"
  have "blind_at r h (\<lambda>h. let members = (case hub_room_of h r' of None \<Rightarrow> []
       | Some room \<Rightarrow> if can_view_room h room i then who_entries ev h room else [])
     in (h, push_notice_entries ev h l (Header_Every (lit ''members in '' @ r' @ lit '': ''))
           (if members = [] then [lit ''(none)''] else members) (lit '', '') None))" for r'
    using u by (cases "hub_room_of h r'") (auto simp: blind_at_def Let_def unseen_def)
  then show ?thesis
    by (auto simp: cmd_who_def intro!: blind_at_named split: list.split option.split)
qed

lemma blind_at_kick: "unseen r l i h \<Longrightarrow> blind_at r h (cmd_kick ev l i args raw)"
proof -
  assume u: "unseen r l i h"
  have run: "blind r (run_all [quietly (upd_room r' f), for_each (eject_link ev r' target reason) links,
      quietly (note_moderated ev l r' a t), say l text' raw])" if "r' \<noteq> r" for r' f target reason links a t text'
    using blind_kick [OF that] .
  have "blind_at r h (\<lambda>h. let links = room_links_for_identity h r' target in
      if links = [] then say l (lit ''target not in room'') raw h
      else run_all [
        quietly (upd_room r' (\<lambda>rm. rm\<lparr>hr_rejoin_until := hdel target (hr_rejoin_until rm)\<rparr>)),
        for_each (eject_link ev r' target (lit ''kicked from '' @ r')) links,
        quietly (note_moderated ev l r' Mod_Kick (Some target)),
        say l (lit ''kicked '' @ token @ lit '' from '' @ r') raw] h)" if "r' \<noteq> r" for r' target token
    using that run [OF that] blind_at_say by (simp add: blind_at_def blind_def Let_def)
  then show ?thesis
    by (auto simp: cmd_kick_def intro!: blind_at_named blind_at_op [OF u] blind_at_target split: list.split)
qed

lemma blind_at_topic: "unseen r l i h \<Longrightarrow> blind_at r h (cmd_topic ev l i args raw)"
proof -
  assume u: "unseen r l i h"
  have "blind r (run_all [quietly (upd_room r' f), saying (\<lambda>h. broadcast h room r' t), persist_room ev r' (Some l),
      quietly (note_moderated ev l r' Mod_Topic None)])" if "r' \<noteq> r" for r' f room t
    using that by (intro blind_run_all) (simp add: blind_intros blind_saying)
  then have set: "blind_at r h (\<lambda>h. run_all [quietly (upd_room r' f), saying (\<lambda>h. broadcast h room r' t), persist_room ev r' (Some l),
      quietly (note_moderated ev l r' Mod_Topic None)] h)" if "r' \<noteq> r" for r' f room t
    using that by (simp add: blind_atD)
  have "blind_at r h (\<lambda>h. if words = [] then say l (t room) raw h
      else if \<not> (is_room_op h room i \<or> \<not> hr_topic_ops_only room) then refuse l (lit ''not authorized (+t)'') (Some r') h
      else run_all [quietly (upd_room r' f), saying (\<lambda>h. broadcast h room r' t'), persist_room ev r' (Some l),
      quietly (note_moderated ev l r' Mod_Topic None)] h)" if "r' \<noteq> r" for words t room r' f t'
    by (intro blind_at_cond set that blind_at_say) simp_all
  then show ?thesis
    unfolding cmd_topic_def Let_def by (auto intro!: blind_at_named blind_at_visible [OF u] split: list.split)
qed

lemma blind_at_fun: "blind_at r h f \<Longrightarrow> blind_at r h (\<lambda>h. f h)"
  by simp

lemma verb_args:
  obtains "args = []" | arg where "args = [arg]" | arg verb words where "args = arg # verb # words"
  by (cases args; cases "tl args") auto

lemma blind_at_mode: "unseen r l i h \<Longrightarrow> blind_at r h (cmd_mode ev l i args raw)"
proof -
  assume u: "unseen r l i h"
  have "blind_at r h (cmd_mode ev l i (arg # flag # words) raw)" for arg flag words
    unfolding cmd_mode_def list.case
    by (intro blind_at_named blind_at_op [OF u] blind_atD [OF blind_apply_mode])
  then show ?thesis
    by (cases args rule: verb_args) (simp_all add: cmd_mode_def)
qed

lemma blind_at_grant: "unseen r l i h \<Longrightarrow> blind_at r h (cmd_grant ev l i verb args raw)"
proof -
  assume u: "unseen r l i h"
  have "blind_at r h (\<lambda>h. if verb = lit ''deop'' \<and> t \<in> set (hc_server_ops h)
      then say l (lit ''cannot deop a server operator'') raw h
      else run_all [quietly (upd_room r' (grant_role (verb_role verb) t)), persist_room ev r' (Some l),
        quietly (note_moderated ev l r' (role_action (verb_role verb)) (Some t)), say l (grant_text verb @ r') raw] h)"
    if "r' \<noteq> r" for t r'
    by (rule blind_at_cond) (simp_all add: blind_atD blind_grant [OF that])
  then have "blind_at r h (cmd_grant ev l i verb (arg # token # words) raw)" for arg token words
    unfolding cmd_grant_def list.case
    by (intro blind_at_named blind_at_op [OF u] blind_at_target) simp_all
  then show ?thesis
    by (cases args rule: verb_args) (simp_all add: cmd_grant_def)
qed

lemma blind_at_ban: "unseen r l i h \<Longrightarrow> blind_at r h (cmd_ban ev l i args raw)"
proof -
  assume u: "unseen r l i h"
  have list: "blind_at r h (\<lambda>h. if items = [] then say l t raw h
      else (h, push_notice_entries ev h l (Header_First t') items sep raw))" for items t t' sep
    by (simp add: blind_at_def say_def saying_def)
  have change: "blind_at r h (\<lambda>h. with_target l raw (resolve_target_or_hash ev h token)
      (if add then ban_add ev l r' raw else ban_del ev l r' raw) h)" if "r' \<noteq> r" for r' add token
    using that blind_ban_add blind_ban_del by (intro blind_at_target) (simp_all add: blind_atD)
  have "blind_at r h (\<lambda>h. if op = lit ''list''
      then (let items = sort (List.map (ev_hex ev) (hr_bans room)) in
            if items = [] then say l (lit ''no bans in '' @ r') raw h
            else (h, push_notice_entries ev h l (Header_First (lit ''bans in '' @ r' @ lit '': '')) items (lit '', '') raw))
      else case words of
        [] \<Rightarrow> say l ban_usage None h
      | token # _ \<Rightarrow> with_target l raw (resolve_target_or_hash ev h token)
          (if op = lit ''add'' then ban_add ev l r' raw else ban_del ev l r' raw) h)" if "r' \<noteq> r" for op room words r'
    unfolding Let_def by (intro blind_at_cond list, simp) (cases words; simp add: change [OF that])
  then have "blind_at r h (cmd_ban ev l i (arg # verb # words) raw)" for arg verb words
    unfolding cmd_ban_def list.case Let_def [of "ev_lower ev verb"]
    by (intro blind_at_named blind_at_if blind_at_say blind_at_op [OF u])
  then show ?thesis
    by (cases args rule: verb_args) (simp_all add: cmd_ban_def)
qed

lemma blind_at_invite: "unseen r l i h \<Longrightarrow> blind_at r h (cmd_invite ev l i args raw)"
proof -
  assume u: "unseen r l i h"
  have list: "blind_at r h (invite_list ev l r' room raw)" for r' room
    by (rule blind_at_ask) (simp_all add: invite_list_def Let_def)
  have change: "blind_at r h (\<lambda>h. case resolve_target_or_hash ev h token of
        Inl reason \<Rightarrow> refuse l (lit ''invite failed: '' @ reason) None h
      | Inr target \<Rightarrow> (if add then invite_add ev l r' room token raw target else invite_del ev l r' raw target) h)"
    if "r' \<noteq> r" for r' room token add
  proof (cases "resolve_target_or_hash ev h token")
    case (Inl e)
    then show ?thesis using blind_at_say(2) by (simp add: blind_at_def)
  next
    case (Inr t)
    then show ?thesis using blind_atD [OF blind_invite_add [OF that]] blind_atD [OF blind_invite_del [OF that]] by (simp add: blind_at_def)
  qed
  have "blind_at r h (\<lambda>h. if op = lit ''list'' then invite_list ev l r' room raw h
      else if op \<noteq> lit ''add'' \<and> op \<noteq> lit ''del'' then say l invite_usage None h
      else case words of
        [] \<Rightarrow> say l (lit ''usage: /invite '' @ r' @ [32] @ op @ lit '' <nick|hashprefix|hash>'') raw h
      | token # _ \<Rightarrow>
          (case resolve_target_or_hash ev h token of
             Inl reason \<Rightarrow> refuse l (lit ''invite failed: '' @ reason) None h
           | Inr target \<Rightarrow> (if op = lit ''add'' then invite_add ev l r' room token raw target
                            else invite_del ev l r' raw target) h))" if "r' \<noteq> r" for op words room r'
    by (intro blind_at_cond list blind_at_say, simp_all) (cases words; simp add: change [OF that])
  then have "blind_at r h (cmd_invite ev l i (arg # verb # words) raw)" for arg verb words
    unfolding cmd_invite_def list.case Let_def [of "ev_lower ev verb"]
    by (intro blind_at_named blind_at_op [OF u])
  then show ?thesis
    by (cases args rule: verb_args) (simp_all add: cmd_invite_def)
qed

lemma blind_at_operators:
  assumes u: "unseen r l i h"
  shows "blind_at r h (cmd_kline ev l i args)" "blind_at r h (cmd_stats ev lines l i)" "blind_at r h (cmd_reload l i)"
    "blind_at r h (cmd_register ev l i args raw)" "blind_at r h (cmd_unregister ev l i args raw)"
proof -
  have no: "i \<notin> set (hc_server_ops h)" using u by (simp add: unseen_def)
  show "blind_at r h (cmd_kline ev l i args)" "blind_at r h (cmd_stats ev lines l i)" "blind_at r h (cmd_reload l i)"
    using no by (simp_all add: blind_at_def cmd_kline_def cmd_stats_def cmd_reload_def refuse_def saying_def)
  have absent: "(case hub_session_of h l of None \<Rightarrow> True | Some s \<Rightarrow> r \<notin> set (hs_rooms s))"
    using u by (auto simp: unseen_def split: option.split)
  have "blind_at r h (\<lambda>h. if (case hub_session_of h l of None \<Rightarrow> True | Some s \<Rightarrow> r' \<notin> set (hs_rooms s))
         then say l (lit ''must be present in the room to register it'') raw h
         else if hub_room_of h r' = None then (h, [])
         else if i \<notin> set (hc_server_ops h) then refuse l (lit ''only a server operator can register'') (Some r') h
         else g h)" for r' g
    using no absent by (cases "r' = r") (auto simp: blind_at_def say_def refuse_def saying_def)
  then show "blind_at r h (cmd_register ev l i args raw)"
    unfolding cmd_register_def by (auto intro!: blind_at_named split: list.split)
  have "blind_at r h (\<lambda>h. if i \<notin> set (hc_server_ops h) then refuse l (lit ''only a server operator can unregister'') (Some r') h
         else g h)" for r' g
    using no by (simp add: blind_at_def refuse_def saying_def)
  then show "blind_at r h (cmd_unregister ev l i args raw)"
    unfolding cmd_unregister_def by (auto intro!: blind_at_named split: list.split)
qed

lemma blind_at_verb: "unseen r l i h \<Longrightarrow> run_verb ev lines l i verb args raw = Some f \<Longrightarrow> blind_at r h f"
  unfolding run_verb_def
  by (auto simp: blind_at_list blind_at_who blind_at_kick blind_at_topic blind_at_mode blind_at_grant blind_at_ban blind_at_invite
      blind_at_operators split: if_splits)

section \<open>Messages\<close>

lemma hide_rewrite: "rewrite_relay_nickname l en (hide r h) =
    (fst (rewrite_relay_nickname l en h), hide r (snd (rewrite_relay_nickname l en h)))"
  by (simp add: rewrite_relay_nickname_def Let_def hide_simps split: option.split sum.split)

lemma hide_refusal: "r' \<noteq> r \<Longrightarrow> relay_refusal (hide r h) l i r' = relay_refusal h l i r'"
  by (simp add: relay_refusal_def Let_def hide_rights split: option.split)

lemma unseen_refusal: "unseen r l i h \<Longrightarrow> relay_refusal (hide r h) l i r = Some (lit ''no such room'') \<and>
    relay_refusal h l i r = Some (lit ''no such room'')"
  by (auto simp: relay_refusal_def Let_def unseen_def split: option.split)

lemma blind_relay_into: "r' \<noteq> r \<Longrightarrow> blind r (relay_into ev l i r' en)"
  by (rule blindI) (simp add: relay_into_def hide_rewrite Let_def case_prod_unfold hide_simps split: option.split)

lemma blind_direct: "blind r (on_direct_notice ev l i en)"
  by (rule blindI) (simp add: on_direct_notice_def hide_rewrite Let_def case_prod_unfold hide_simps split: option.split)

lemma blind_at_message: "unseen r l i h \<Longrightarrow> blind_at r h (relay_message ev l i en)"
proof -
  assume u: "unseen r l i h"
  have go: "blind_at r h (\<lambda>h. case norm_room ev h (opt_text (en_room en)) of
       Inl reason \<Rightarrow> (h, [hub_error h l reason None])
     | Inr r' \<Rightarrow> (case relay_refusal h l i r' of
           Some reason \<Rightarrow> (h, [hub_error h l reason (Some r')])
         | None \<Rightarrow> relay_into ev l i r' en h))"
  proof (cases "norm_room ev h (opt_text (en_room en))")
    case (Inr r')
    then show ?thesis
    proof (cases "r' = r")
      case True
      then show ?thesis using Inr unseen_refusal [OF u] by (simp add: blind_at_def)
    next
      case False
      then show ?thesis using Inr blind_relay_into [OF False] by (simp add: blind_at_def blind_def hide_refusal split: option.split)
    qed
  qed (simp add: blind_at_def)
  show ?thesis
    using go blind_atD [OF blind_direct] unfolding blind_at_def relay_message_def Let_def by (simp split: option.split)
qed

theorem blind_at_relay:
  assumes "unseen r l i h" and "session_identity l h = Some i"
  shows "blind_at r h (on_relay ev lines l en)"
proof -
  let ?en = "en\<lparr>en_timestamp := sanitize_display_timestamp_ms (en_timestamp en) (ev_now_ms ev)\<rparr>"
  have "blind_at r h f" if "handle_slash_command ev lines l i ?en = Some f" for f
    using that blind_at_verb [OF assms(1)] by (auto simp: handle_slash_command_def split: option.splits list.splits)
  moreover have "blind_at r h (relay_message ev l i ?en)" by (rule blind_at_message [OF assms(1)])
  ultimately show ?thesis
    using blind_at_say(2) by (simp add: blind_at_def on_relay_def Let_def assms(2) split: option.split)
qed

end
