(* ===== verification/Hub_Unseen.thy ===== *)
theory Hub_Unseen
  imports Hub_Hidden Hub_Sample
begin

text \<open>
  The privacy of a \<open>+p\<close> room in every reachable state of the hub.
\<close>

lemma reachable_unseen:
  assumes "hub_reachable version lines moved h" and "hub_room_of h r = Some room" and "hr_private room"
    and "session_identity l h = Some i" and "\<not> is_room_op h room i" and "\<not> identity_in_room h room i"
  shows "unseen r l i h"
proof -
  have ok: "hwf (hc_rooms h)" "membership (rooms_of h) h"
    using hub_reachable_ok [OF assms(1)] by (simp_all add: hub_ok_def hub_but_def coh_def sessions_ok_def)
  have "l \<notin> set (hr_members room)" using assms(4,6) by (auto simp: identity_in_room_def list_ex_iff)
  then have "r \<notin> rooms_of h l" using ok(2) assms(2) by (auto simp: membership_def)
  then have "hub_session_of h l = Some s \<Longrightarrow> r \<notin> set (hs_rooms s)" for s by (simp add: rooms_of_def)
  then show ?thesis using ok(1) assms by (simp add: unseen_def can_view_room_def is_room_op_def)
qed

text \<open>C5: A private room cannot be told from one that does not exist by those outside it.  In every state the hub can
  reach, a message, notice, action or slash command of an identity that neither operates a private room nor is in it
  through any link is answered, packet for packet and to every recipient, as by the hub without that room, and changes
  everything else in the same way.\<close>

theorem private_rooms_are_hidden:
  assumes "hub_reachable version lines moved h" and "hub_room_of h r = Some room" and "hr_private room"
    and "session_identity l h = Some i" and "\<not> is_room_op h room i" and "\<not> identity_in_room h room i"
  shows "on_relay ev out l en (h\<lparr>hc_rooms := hdel r (hc_rooms h)\<rparr>) =
    (let (h', sends) = on_relay ev out l en h in (h'\<lparr>hc_rooms := hdel r (hc_rooms h')\<rparr>, sends))"
  using blind_at_relay [OF reachable_unseen [OF assms] assms(4), of ev out en]
  by (simp add: blind_at_def hide_def case_prod_unfold Let_def)

text \<open>The operator opens another room and makes it private.\<close>

definition sample_vault :: ustr where "sample_vault = lit ''vault''"

definition sample_private_inputs :: "hub_input list" where
  "sample_private_inputs = [In_Envelope [17] (sample_envelope Join 3 (Some sample_vault) None),
     In_Envelope [17] (sample_envelope Message 4 (Some sample_vault) (Some (CText (lit ''/mode vault +p''))))]"

definition sample_private_hub :: hub_core where
  "sample_private_hub = fold sample_step sample_private_inputs sample_hub"

lemma sample_private_reachable: "hub_reachable [] sample_lines {} sample_private_hub"
proof -
  have "sample_admissible sample_private_inputs sample_hub" by code_simp
  then show ?thesis unfolding sample_private_hub_def by (rule sample_fold_reachable [OF sample_reachable])
qed

theorem private_rooms_are_hidden_witness:
  "snd (on_relay sample_env sample_lines [18] (sample_envelope Message 5 (Some sample_vault) (Some (CText (lit ''hello?'')))) sample_private_hub) =
   snd (on_relay sample_env sample_lines [18] (sample_envelope Message 5 (Some sample_vault) (Some (CText (lit ''hello?''))))
     (sample_private_hub\<lparr>hc_rooms := hdel sample_vault (hc_rooms sample_private_hub)\<rparr>))"
proof -
  have "case hub_room_of sample_private_hub sample_vault of None \<Rightarrow> False
      | Some room \<Rightarrow> hr_private room \<and> \<not> is_room_op sample_private_hub room [8] \<and> \<not> identity_in_room sample_private_hub room [8]"
    by code_simp
  then obtain room where room: "hub_room_of sample_private_hub sample_vault = Some room" "hr_private room"
      "\<not> is_room_op sample_private_hub room [8]" "\<not> identity_in_room sample_private_hub room [8]"
    by (auto split: option.splits)
  have guest: "session_identity [18] sample_private_hub = Some [8]" by code_simp
  show ?thesis
    using private_rooms_are_hidden [OF sample_private_reachable room(1,2) guest room(3,4)] by (simp add: case_prod_unfold Let_def)
qed

end
