(* ===== verification/Hub_Durable.thy ===== *)
theory Hub_Durable
  imports Hub_Registry Hub_Sample
begin

text \<open>
  The registry across a restart: the row that is written of a room gives the room back, except for who is
  in it and what has expired.
\<close>

section \<open>Grants\<close>

definition invite_all :: "nat \<Rightarrow> (bytes, nat) hmap \<Rightarrow> (bytes, nat) hmap \<Rightarrow> (bytes, nat) hmap" where
  "invite_all now = fold (\<lambda>(s, expires) m. if now < expires then hput s expires m else m)"

lemma set_fold_hadd [simp]: "set (fold hadd xs ys) = set xs \<union> set ys"
  by (induction xs arbitrary: ys) auto

lemma hget_invite_all: "hwf xs \<Longrightarrow> hget (invite_all now xs m) i =
    (case hget xs i of None \<Rightarrow> hget m i | Some expires \<Rightarrow> if now < expires then Some expires else hget m i)"
proof (induction xs arbitrary: m)
  case (Cons e xs)
  obtain s x where e: "e = (s, x)" by (cases e)
  have wf: "hwf xs" and "s \<notin> fst ` set xs" using Cons.prems e by (simp_all add: hwf_def)
  then have none: "hget xs s = None" by (simp add: hget_def map_of_eq_None_iff)
  have get: "hget (e # xs) i = (if i = s then Some x else hget xs i)" by (simp add: hget_def e)
  have "invite_all now (e # xs) m = invite_all now xs (if now < x then hput s x m else m)" by (simp add: invite_all_def e)
  then show ?case using Cons.IH [OF wf] none get by (simp split: option.split)
qed (simp add: invite_all_def)

lemma restore_grants:
  assumes "\<And>b. ev_unhex ev' (ev_hex ev b) = Some b"
  shows "\<forall>s \<in> set xs. length s = 16 \<Longrightarrow>
      fold (restore_grant ev') (List.map (\<lambda>s. (lit ''op'', ev_hex ev s, 0)) xs) rm = rm\<lparr>hr_ops := fold hadd xs (hr_ops rm)\<rparr>"
    and "\<forall>s \<in> set xs. length s = 16 \<Longrightarrow>
      fold (restore_grant ev') (List.map (\<lambda>s. (lit ''voice'', ev_hex ev s, 0)) xs) rm = rm\<lparr>hr_voiced := fold hadd xs (hr_voiced rm)\<rparr>"
    and "\<forall>s \<in> set xs. length s = 16 \<Longrightarrow>
      fold (restore_grant ev') (List.map (\<lambda>s. (lit ''ban'', ev_hex ev s, 0)) xs) rm = rm\<lparr>hr_bans := fold hadd xs (hr_bans rm)\<rparr>"
    and "\<forall>s \<in> fst ` set ms. length s = 16 \<Longrightarrow>
      fold (restore_grant ev') (List.map (\<lambda>(s, expires). (lit ''invite'', ev_hex ev s, expires)) ms) rm =
        rm\<lparr>hr_invited := invite_all (ev_now_unix ev') ms (hr_invited rm)\<rparr>"
proof -
  show "\<forall>s \<in> set xs. length s = 16 \<Longrightarrow>
      fold (restore_grant ev') (List.map (\<lambda>s. (lit ''op'', ev_hex ev s, 0)) xs) rm = rm\<lparr>hr_ops := fold hadd xs (hr_ops rm)\<rparr>"
    by (induction xs arbitrary: rm) (simp_all add: restore_grant_def exact_bytes_def assms)
  show "\<forall>s \<in> set xs. length s = 16 \<Longrightarrow>
      fold (restore_grant ev') (List.map (\<lambda>s. (lit ''voice'', ev_hex ev s, 0)) xs) rm = rm\<lparr>hr_voiced := fold hadd xs (hr_voiced rm)\<rparr>"
    by (induction xs arbitrary: rm) (simp_all add: restore_grant_def exact_bytes_def assms)
  show "\<forall>s \<in> set xs. length s = 16 \<Longrightarrow>
      fold (restore_grant ev') (List.map (\<lambda>s. (lit ''ban'', ev_hex ev s, 0)) xs) rm = rm\<lparr>hr_bans := fold hadd xs (hr_bans rm)\<rparr>"
    by (induction xs arbitrary: rm) (simp_all add: restore_grant_def exact_bytes_def assms)
  show "\<forall>s \<in> fst ` set ms. length s = 16 \<Longrightarrow>
      fold (restore_grant ev') (List.map (\<lambda>(s, expires). (lit ''invite'', ev_hex ev s, expires)) ms) rm =
        rm\<lparr>hr_invited := invite_all (ev_now_unix ev') ms (hr_invited rm)\<rparr>"
    by (induction ms arbitrary: rm) (auto simp: restore_grant_def exact_bytes_def assms invite_all_def)
qed

section \<open>Rows\<close>

text \<open>What the handlers put into rooms: identities of 16 bytes, keys of fixed lengths, no empty topic.\<close>

definition storable :: "hub_room \<Rightarrow> bool" where
  "storable rm \<longleftrightarrow> hr_topic rm \<noteq> Some [] \<and> hwf (hr_invited rm) \<and>
     (\<forall>s \<in> set (hr_ops rm) \<union> set (hr_voiced rm) \<union> set (hr_bans rm) \<union> fst ` set (hr_invited rm). length s = 16) \<and>
     (\<forall>k. hr_key rm = Some k \<longrightarrow> length (rk_salt k) = 16 \<and> length (rk_mac k) = 32 \<and> length (rk_pepper_id k) = 8)"

lemma storable_settle: "storable rm \<Longrightarrow> storable (settle_room ev rm)"
  by (auto simp: storable_def settle_room_def hretain_def hwf_def distinct_map_filter)

lemma restored_key:
  assumes "\<And>b. ev_unhex ev' (ev_hex ev b) = Some b" and "\<And>b. ev_hex ev b = [] \<Longrightarrow> b = []" and "storable rm"
    and "\<And>k. hr_key rm = Some k \<Longrightarrow> rk_pepper_id k = pid"
  shows "usable_key ev' pid (room_row_of ev r rm) = hr_key rm"
proof (cases "hr_key rm")
  case (Some k)
  then have len: "length (rk_salt k) = 16" "length (rk_mac k) = 32" "length (rk_pepper_id k) = 8"
    using assms(3) by (simp_all add: storable_def)
  then have "ev_hex ev (rk_mac k) \<noteq> []" using assms(2) [of "rk_mac k"] by auto
  then show ?thesis using Some len assms(1) assms(4) [OF Some]
    by (simp add: usable_key_def decode_room_key_def room_row_of_def exact_bytes_def)
qed (simp add: usable_key_def decode_room_key_def room_row_of_def)

lemma restored_row:
  assumes "\<And>b. ev_unhex ev' (ev_hex ev b) = Some b" and "\<And>b. ev_hex ev b = [] \<Longrightarrow> b = []" and "storable rm"
    and "\<And>k. hr_key rm = Some k \<Longrightarrow> rk_pepper_id k = pid"
  shows "restored_room ev' pid (room_row_of ev r rm) =
    hub_room_default\<lparr>hr_registered := True, hr_topic := hr_topic rm, hr_key := hr_key rm, hr_moderated := hr_moderated rm,
      hr_invite_only := hr_invite_only rm, hr_topic_ops_only := hr_topic_ops_only rm,
      hr_no_outside_msgs := hr_no_outside_msgs rm, hr_private := hr_private rm, hr_last_used := hr_last_used rm,
      hr_ops := fold hadd (hr_ops rm) [], hr_voiced := fold hadd (hr_voiced rm) [], hr_bans := fold hadd (hr_bans rm) [],
      hr_invited := invite_all (ev_now_unix ev') (hr_invited rm) []\<rparr>"
proof -
  have len: "\<forall>s \<in> set (hr_ops rm). length s = 16" "\<forall>s \<in> set (hr_voiced rm). length s = 16"
    "\<forall>s \<in> set (hr_bans rm). length s = 16" "\<forall>s \<in> fst ` set (hr_invited rm). length s = 16"
    using assms(3) by (auto simp: storable_def)
  have topic: "(if opt_text (hr_topic rm) = [] then None else Some (opt_text (hr_topic rm))) = hr_topic rm"
    using assms(3) by (auto simp: storable_def opt_text_def split: option.split)
  have row: "rr_grants (room_row_of ev r rm) =
      List.map (\<lambda>s. (lit ''op'', ev_hex ev s, 0)) (hr_ops rm) @ List.map (\<lambda>s. (lit ''voice'', ev_hex ev s, 0)) (hr_voiced rm) @
      List.map (\<lambda>s. (lit ''ban'', ev_hex ev s, 0)) (hr_bans rm) @
      List.map (\<lambda>(s, expires). (lit ''invite'', ev_hex ev s, expires)) (hr_invited rm)"
    by (simp add: room_row_of_def)
  have key: "usable_key ev' pid (room_row_of ev r rm) = hr_key rm" by (rule restored_key) (use assms in auto)
  have fields: "rr_topic (room_row_of ev r rm) = opt_text (hr_topic rm)" "rr_moderated (room_row_of ev r rm) = hr_moderated rm"
    "rr_invite_only (room_row_of ev r rm) = hr_invite_only rm" "rr_topic_ops_only (room_row_of ev r rm) = hr_topic_ops_only rm"
    "rr_no_outside_msgs (room_row_of ev r rm) = hr_no_outside_msgs rm" "rr_private (room_row_of ev r rm) = hr_private rm"
    "rr_last_used (room_row_of ev r rm) = hr_last_used rm"
    by (simp_all add: room_row_of_def)
  show ?thesis
    unfolding restored_room_def row fold_append o_apply restore_grants(1) [OF assms(1) len(1)]
      restore_grants(2) [OF assms(1) len(2)] restore_grants(3) [OF assms(1) len(3)] restore_grants(4) [OF assms(1) len(4)]
      key fields topic
    by (simp add: hub_room_default_def)
qed

section \<open>The registry\<close>

lemma restore_row_room:
  "hc_pepper_id (snd (restore_row ev row (n, h))) = hc_pepper_id h"
  "norm_room ev (snd (restore_row ev row (n, h))) t = norm_room ev h t"
  "rr_name row \<noteq> r \<Longrightarrow> hub_room_of (snd (restore_row ev row (n, h))) r = hub_room_of h r"
  "norm_room ev h (rr_name row) = Inr (rr_name row) \<Longrightarrow>
    hub_room_of (snd (restore_row ev row (n, h))) (rr_name row) = Some (restored_room ev (hc_pepper_id h) row)"
  by (simp_all add: restore_row_def norm_room_def Let_def)

lemma restore_rows_room:
  "hc_pepper_id (snd (fold (restore_row ev) rows (n, h))) = hc_pepper_id h \<and>
   norm_room ev (snd (fold (restore_row ev) rows (n, h))) t = norm_room ev h t"
  "r \<notin> rr_name ` set rows \<Longrightarrow> hub_room_of (snd (fold (restore_row ev) rows (n, h))) r = hub_room_of h r"
proof -
  show "hc_pepper_id (snd (fold (restore_row ev) rows (n, h))) = hc_pepper_id h \<and>
   norm_room ev (snd (fold (restore_row ev) rows (n, h))) t = norm_room ev h t"
  proof (induction rows arbitrary: n h)
    case (Cons row rows)
    show ?case using Cons [of "fst (restore_row ev row (n, h))" "snd (restore_row ev row (n, h))"] restore_row_room(1,2) [of ev row n h] by simp
  qed simp
  show "r \<notin> rr_name ` set rows \<Longrightarrow> hub_room_of (snd (fold (restore_row ev) rows (n, h))) r = hub_room_of h r"
  proof (induction rows arbitrary: n h)
    case (Cons row rows)
    then show ?case
      using Cons.IH [of "fst (restore_row ev row (n, h))" "snd (restore_row ev row (n, h))"] restore_row_room(3) [of row r ev n h] by auto
  qed simp
qed

lemma restore_room:
  assumes "row \<in> set rows" and "distinct (List.map rr_name rows)" and "norm_room ev h (rr_name row) = Inr (rr_name row)"
  shows "hub_room_of (restore ev rows h) (rr_name row) = Some (restored_room ev (hc_pepper_id h) row)"
proof -
  obtain as bs where rows: "rows = as @ row # bs" using split_list [OF assms(1)] by blast
  obtain n1 h1 where one: "fold (restore_row ev) as (0, h) = (n1, h1)" by (cases "fold (restore_row ev) as (0, h)")
  obtain n2 h2 where two: "restore_row ev row (n1, h1) = (n2, h2)" by (cases "restore_row ev row (n1, h1)")
  have h1: "hc_pepper_id h1 = hc_pepper_id h" "norm_room ev h1 t = norm_room ev h t" for t
    using restore_rows_room(1) [of ev as 0 h t] one by simp_all
  have "hub_room_of h2 (rr_name row) = Some (restored_room ev (hc_pepper_id h1) row)"
    using restore_row_room(4) [of ev h1 row n1] assms(3) h1 two by simp
  moreover have "rr_name row \<notin> rr_name ` set bs" using assms(2) rows by auto
  ultimately have "hub_room_of (snd (fold (restore_row ev) rows (0, h))) (rr_name row) = Some (restored_room ev (hc_pepper_id h) row)"
    using restore_rows_room(2) [of "rr_name row" bs ev n2 h2] h1 rows one two by simp
  then show ?thesis by (simp add: restore_def case_prod_unfold)
qed

text \<open>C9: A registered room survives a restart.  From any set of rows with distinct names that holds the row last
  written of the room, the hub restores it with the same topic, key, flags, operators, voices and bans, with nobody in it,
  and with exactly the invitations that have not expired, provided that hexadecimal text is read back and the key was
  made under the same hub identity.\<close>

theorem registry_round_trip:
  assumes "\<And>b. ev_unhex ev' (ev_hex ev b) = Some b" and "\<And>b. ev_hex ev b = [] \<Longrightarrow> b = []"
    and "hub_room_of h r = Some room" and "hr_registered room" and "storable room"
    and "Send_Persist p \<in> set (snd (persist_room ev r origin h))" and "ps_op p = Upsert row"
    and "row \<in> set rows" and "distinct (List.map rr_name rows)"
    and "norm_room ev' h' r = Inr r" and "\<And>k. hr_key room = Some k \<Longrightarrow> rk_pepper_id k = hc_pepper_id h'"
    and "ev_now_unix ev \<le> ev_now_unix ev'"
  shows "\<exists>rm. hub_room_of (restore ev' rows h') r = Some rm \<and> hr_registered rm \<and> hr_members rm = [] \<and>
    hr_topic rm = hr_topic room \<and> hr_key rm = hr_key room \<and> set (hr_ops rm) = set (hr_ops room) \<and>
    set (hr_voiced rm) = set (hr_voiced room) \<and> set (hr_bans rm) = set (hr_bans room) \<and>
    hr_moderated rm = hr_moderated room \<and> hr_invite_only rm = hr_invite_only room \<and>
    hr_topic_ops_only rm = hr_topic_ops_only room \<and> hr_no_outside_msgs rm = hr_no_outside_msgs room \<and>
    hr_private rm = hr_private room \<and> hr_last_used rm = hr_last_used room \<and>
    (\<forall>i. is_invited ev' rm i = is_invited ev' room i)"
proof -
  let ?room = "settle_room ev room"
  have row: "row = room_row_of ev r ?room" using assms(3,4,6,7) by (simp add: persist_room_def)
  then have name: "rr_name row = r" by (simp add: room_row_of_def)
  have kept: "hr_key ?room = hr_key room" by (simp add: settle_room_def)
  have wf: "hwf (hr_invited room)" using assms(5) by (simp add: storable_def)
  have "restored_room ev' (hc_pepper_id h') row =
    hub_room_default\<lparr>hr_registered := True, hr_topic := hr_topic ?room, hr_key := hr_key ?room, hr_moderated := hr_moderated ?room,
      hr_invite_only := hr_invite_only ?room, hr_topic_ops_only := hr_topic_ops_only ?room,
      hr_no_outside_msgs := hr_no_outside_msgs ?room, hr_private := hr_private ?room, hr_last_used := hr_last_used ?room,
      hr_ops := fold hadd (hr_ops ?room) [], hr_voiced := fold hadd (hr_voiced ?room) [], hr_bans := fold hadd (hr_bans ?room) [],
      hr_invited := invite_all (ev_now_unix ev') (hr_invited ?room) []\<rparr>"
    unfolding row by (rule restored_row) (use assms(1,2,11) storable_settle [OF assms(5)] kept in auto)
  moreover have "hub_room_of (restore ev' rows h') r = Some (restored_room ev' (hc_pepper_id h') row)"
    using restore_room [OF assms(8,9), of ev' h'] assms(10) name by simp
  moreover have "live_grant ev' (invite_all (ev_now_unix ev') (hr_invited ?room) []) i = live_grant ev' (hr_invited room) i" for i
    using wf assms(12) by (auto simp: live_grant_def hget_invite_all settle_room_def hget_retain split: option.split)
  ultimately show ?thesis by (simp add: hub_room_default_def settle_room_def is_invited_def)
qed

definition kept_key :: room_key where
  "kept_key = \<lparr>rk_salt = replicate 16 5, rk_mac = replicate 32 6, rk_pepper_id = replicate 8 1\<rparr>"

definition kept_room :: hub_room where
  "kept_room = hub_room_default\<lparr>hr_registered := True, hr_topic := Some (lit ''rules''), hr_ops := [replicate 16 7],
     hr_private := True, hr_key := Some kept_key, hr_invited := [(replicate 16 9, 1800000005), (replicate 16 8, 1700000000)]\<rparr>"

definition kept_hub :: hub_core where
  "kept_hub = sample_start\<lparr>hc_rooms := [(sample_room, kept_room)], hc_pepper_id := replicate 8 1\<rparr>"

theorem registry_round_trip_witness:
  "\<exists>rm. hub_room_of (restore sample_env [room_row_of sample_env sample_room (settle_room sample_env kept_room)]
      (kept_hub\<lparr>hc_rooms := []\<rparr>)) sample_room = Some rm \<and> hr_key rm = Some kept_key \<and> hr_private rm \<and>
      is_invited sample_env rm (replicate 16 9)"
proof -
  let ?row = "room_row_of sample_env sample_room (settle_room sample_env kept_room)"
  let ?p = "\<lparr>ps_op = Upsert ?row, ps_origin = None, ps_room = Some sample_room\<rparr>"
  have hex: "ev_unhex sample_env (ev_hex sample_env b) = Some b" for b
  proof -
    have "list_all (\<lambda>c. c < 256) (List.map unat b)" by (simp add: list_all_iff unat_u8_less)
    moreover have "List.map (word_of_nat \<circ> unat) b = b" by (induction b) simp_all
    ultimately show ?thesis by (simp add: sample_env_def)
  qed
  have nonempty: "ev_hex sample_env b = [] \<Longrightarrow> b = []" for b by (simp add: sample_env_def)
  have room: "hub_room_of kept_hub sample_room = Some kept_room" by (simp add: kept_hub_def hget_def)
  have reg: "hr_registered kept_room" by (simp add: kept_room_def)
  have ok: "storable kept_room" by (simp add: storable_def kept_room_def kept_key_def hub_room_default_def hwf_def lit_def)
  have sent: "Send_Persist ?p \<in> set (snd (persist_room sample_env sample_room None kept_hub))"
    using room reg by (simp add: persist_room_def)
  have norm: "norm_room sample_env (kept_hub\<lparr>hc_rooms := []\<rparr>) sample_room = Inr sample_room" by code_simp
  have pepper: "rk_pepper_id k = hc_pepper_id (kept_hub\<lparr>hc_rooms := []\<rparr>)" if "hr_key kept_room = Some k" for k
  proof -
    have "k = kept_key" using that by (auto simp: kept_room_def)
    then show ?thesis by (simp add: kept_key_def kept_hub_def)
  qed
  have inv: "is_invited sample_env kept_room (replicate 16 9)" by code_simp
  obtain rm where "hub_room_of (restore sample_env [?row] (kept_hub\<lparr>hc_rooms := []\<rparr>)) sample_room = Some rm"
      "hr_key rm = hr_key kept_room" "hr_private rm = hr_private kept_room"
      "is_invited sample_env rm (replicate 16 9) = is_invited sample_env kept_room (replicate 16 9)"
    using registry_round_trip [OF hex nonempty room reg ok sent _ _ _ norm pepper, of ?row "[?row]"] by auto
  then show ?thesis using inv by (simp add: kept_room_def)
qed

end
