(* ===== verification/Hub_Duties.thy ===== *)
theory Hub_Duties
  imports Hub_Reach Hub_Sample
begin

text \<open>
  What the hub owes to those who ask: a request to join is granted or answered with the reason, and a
  mutation of the owner has taken effect when it is not refused.
\<close>

section \<open>Joining\<close>

text \<open>The conditions of a room on who may come in.\<close>

definition may_enter :: "hub_env \<Rightarrow> hub_core \<Rightarrow> hub_room \<Rightarrow> ustr \<Rightarrow> bytes \<Rightarrow> ustr option \<Rightarrow> bool" where
  "may_enter ev h rm r i key \<longleftrightarrow> i \<notin> set (hr_bans rm) \<and>
     (hr_invite_only rm \<longrightarrow> is_room_op h rm i \<or> is_invited ev rm i \<or> can_rejoin ev rm i) \<and>
     (\<forall>digest. hr_key rm = Some digest \<longrightarrow> is_room_op h rm i \<or> is_invited ev rm i \<or>
        (\<exists>t. key = Some t \<and> room_key_matches ev (hc_pepper h) r t digest))"

lemma join_refusal_None: "join_refusal ev h rm r i en = None \<longleftrightarrow> may_enter ev h rm r i (text_body en)"
  by (auto simp: join_refusal_def may_enter_def is_room_op_def Let_def split: option.splits)

lemma bookless_simps: "bookless h' = bookless h \<Longrightarrow> hub_room_of h' r = hub_room_of h r"
  "bookless h' = bookless h \<Longrightarrow> hub_session_of h' l = hub_session_of h l"
  "bookless h' = bookless h \<Longrightarrow> hc_klines h' = hc_klines h"
  by (simp_all add: bookless_def)

lemma admitted:
  assumes "hub_room_of h r = Some rm" and "hub_session_of h l = Some s"
  shows "(\<exists>rm'. hub_room_of (fst (admit_member ev l i r rm h)) r = Some rm' \<and> l \<in> set (hr_members rm')) \<and>
    (\<exists>s'. hub_session_of (fst (admit_member ev l i r rm h)) l = Some s' \<and> r \<in> set (hs_rooms s'))"
proof -
  let ?f = "\<lambda>rm. rm\<lparr>hr_members := hadd l (hr_members rm), hr_invited := hdel i (hr_invited rm),
    hr_rejoin_until := hdel i (hr_rejoin_until rm)\<rparr>"
  let ?g = "\<lambda>s. s\<lparr>hs_rooms := hadd r (hs_rooms s)\<rparr>"
  obtain h3 where core: "same_core (upd_room r ?f h) h3"
    and b: "bookless (fst (admit_member ev l i r rm h)) = bookless (upd_session l ?g h3)"
    using admit_member_core by blast
  have "hub_room_of (upd_room r ?f h) r = Some (?f rm)" using assms(1) by (simp add: upd_room_def)
  then obtain rm' where rm': "hub_room_of h3 r = Some rm'" "hard rm' = hard (?f rm)"
    using same_core_room(3) [OF core] by blast
  have "hr_members (hard rm') = hr_members (hard (?f rm))" by (simp only: rm'(2))
  then have "l \<in> set (hr_members rm')" by simp
  moreover have "hub_session_of (upd_room r ?f h) l = Some s" using assms(2) by (simp add: upd_room_def)
  then obtain s' where "hub_session_of h3 l = Some s'" using same_core_session(3) [OF core] by blast
  ultimately show ?thesis using rm'(1) bookless_simps(1,2) [OF b] by (simp add: upd_session_def)
qed

text \<open>C7: A request to join a room is granted exactly when the session has room for another one and the room lets the
  identity in: it exists and has not banned it, the identity is an operator, invited or rejoining if the room is
  invite-only, and an operator, invited or in possession of the key if it has one; a server operator also creates rooms.
  When it is granted the link is a member, and when it is not the only effect is one error to the link.\<close>

theorem join_admits_or_explains:
  assumes "session_identity l h = Some i" and "hub_session_of h l = Some s" and "present_room en = Some raw"
    and "norm_room ev h raw = Inr r"
  shows "if (r \<in> set (hs_rooms s) \<or> length (hs_rooms s) < cf_max_rooms_per_session (hc_config h)) \<and>
       (case hub_room_of h r of None \<Rightarrow> i \<in> set (hc_server_ops h) | Some rm \<Rightarrow> may_enter ev h rm r i (text_body en))
    then (\<exists>rm. hub_room_of (fst (on_join ev l en h)) r = Some rm \<and> l \<in> set (hr_members rm)) \<and>
         (\<exists>s'. hub_session_of (fst (on_join ev l en h)) l = Some s' \<and> r \<in> set (hs_rooms s'))
    else \<exists>reason room. on_join ev l en h = (h, [hub_error h l reason room])"
proof (cases "hub_room_of h r")
  case None
  let ?start = "hub_room_default\<lparr>hr_ops := [i]\<rparr>"
  let ?h1 = "h\<lparr>hc_rooms := hput r ?start (hc_rooms h)\<rparr>"
  have "join_refusal ev ?h1 ?start r i en = None"
    by (simp add: join_refusal_def hub_room_default_def Let_def)
  then show ?thesis using assms None admitted [of ?h1 r ?start l s ev i]
    by (auto simp: on_join_def Let_def not_less)
next
  case (Some rm)
  then show ?thesis using assms admitted [OF Some assms(2), of ev i] join_refusal_None [of ev h rm r i en]
    by (auto simp: on_join_def Let_def not_less split: option.split)
qed

theorem join_admits_or_explains_witness:
  "\<exists>reason room. on_join sample_env [18] (sample_envelope Join 3 (Some (lit ''attic'')) None) sample_hub
     = (sample_hub, [hub_error sample_hub [18] reason room])"
proof -
  let ?en = "sample_envelope Join 3 (Some (lit ''attic'')) None"
  obtain s where s: "hub_session_of sample_hub [18] = Some s"
    using sample_guest by (auto simp: session_identity_def bind_eq_Some_conv)
  have "present_room ?en = Some (lit ''attic'')" by code_simp
  moreover have "norm_room sample_env sample_hub (lit ''attic'') = Inr (lit ''attic'')" by code_simp
  moreover have "hub_room_of sample_hub (lit ''attic'') = None" "[8] \<notin> set (hc_server_ops sample_hub)" by code_simp+
  ultimately show ?thesis using join_admits_or_explains [OF sample_guest s, of ?en] by simp
qed

section \<open>The owner's mutations\<close>

text \<open>Steps that only do bookkeeping.\<close>

definition soft :: "hub_step \<Rightarrow> bool" where
  "soft f \<longleftrightarrow> (\<forall>h. same_core h (fst (f h)))"

lemma soft_intros:
  "soft (saying g)" "soft (persist_room ev r origin)" "soft (quietly (note_admin_moderated ev actor r a t))"
  "soft (quietly (forget_removal r))" "soft (persist_klines ev origin)"
  "soft (quietly (note_admin_trust_changed ev actor c who))" "soft (quietly (forget_leases who))"
  by (simp_all add: soft_def quietly_def saying_def core_persist_room bookless_core same_core_refl core_forget_leases)

lemma soft_run_all: "list_all soft fs \<Longrightarrow> same_core h (fst (run_all fs h))"
proof (induction fs arbitrary: h)
  case (Cons f fs)
  then show ?case using same_core_trans [of h "fst (f h)"] by (simp add: fst_run_all soft_def)
qed (simp add: fst_run_all same_core_refl)

lemma soft_tail:
  assumes "list_all soft fs"
  shows "same_core (fst (f h)) (fst (run_all (f # fs) h))"
  using soft_run_all [OF assms, of "fst (f h)"] by (simp add: fst_run_all)

lemma hardD:
  assumes "hard a = hard b"
  shows "hr_members a = hr_members b" "hr_bans a = hr_bans b" "hr_ops a = hr_ops b" "hr_registered a = hr_registered b"
    "hr_voiced a = hr_voiced b" "hr_topic a = hr_topic b" "hr_key a = hr_key b" "policy_differs p a = policy_differs p b"
proof -
  note * = arg_cong [OF assms]
  show "hr_members a = hr_members b" "hr_bans a = hr_bans b" "hr_ops a = hr_ops b" "hr_registered a = hr_registered b"
    "hr_voiced a = hr_voiced b" "hr_topic a = hr_topic b" "hr_key a = hr_key b"
    using *[of hr_members] *[of hr_bans] *[of hr_ops] *[of hr_registered] *[of hr_voiced] *[of hr_topic] *[of hr_key] by simp_all
  show "policy_differs p a = policy_differs p b"
    using *[of hr_invite_only] *[of hr_moderated] *[of hr_no_outside_msgs] *[of hr_private] *[of hr_topic_ops_only]
    by (simp add: policy_differs_def)
qed

text \<open>A room that was updated and then only noted and written.\<close>

lemma room_after:
  assumes "hub_room_of h r = Some rm" and "same_core (upd_room r f h) h'"
  shows "\<exists>rm'. hub_room_of h' r = Some rm' \<and> hard rm' = hard (f rm)"
  using same_core_room(3) [OF assms(2), of r "f rm"] assms(1) by (simp add: upd_room_def)

lemma with_registered_elim:
  assumes "with_registered ev h room k = Inr y"
  obtains r rm where "norm_room ev h room = Inr r" "hub_room_of h r = Some rm" "hr_registered rm" "k r rm = Inr y"
  using assms
  by (auto simp: with_registered_def and_then_Inr registered_room_def admin_fail_def admin_room_name_def split: option.splits if_splits sum.splits)

lemma create_effect:
  assumes "admin_create_channel ev actor room topic policy key h = Inr (h', s)"
  shows "\<exists>r rm. norm_room ev h room = Inr r \<and> hub_room_of h' r = Some rm \<and> hr_registered rm \<and> actor \<in> set (hr_ops rm) \<and>
    admin_topic h topic = Inr (hr_topic rm) \<and> \<not> policy_differs policy rm \<and> hr_key rm = map_option (\<lambda>k. room_key_digest ev (hc_pepper h) (hc_pepper_id h) r k (ev_salt ev)) key"
proof -
  obtain r t d where r: "norm_room ev h room = Inr r" and t: "admin_topic h topic = Inr t"
    and d: "d = map_option (\<lambda>k. room_key_digest ev (hc_pepper h) (hc_pepper_id h) r k (ev_salt ev)) key"
    and steps: "create_steps ev actor policy r t d h = (h', s)"
    using assms by (auto simp: admin_create_channel_def and_then_Inr admin_fail_def admin_room_name_def
        admin_room_key_digest_def split: if_splits sum.splits option.splits)
  then have h': "h' = fst (create_steps ev actor policy r t d h)" by simp
  let ?h1 = "h\<lparr>hc_rooms := hentry r hub_room_default (hc_rooms h)\<rparr>"
  let ?f = "created_room actor (ev_now_unix ev) t d policy"
  obtain rm0 where rm0: "hub_room_of ?h1 r = Some rm0" by (cases "hub_room_of h r") auto
  define rest where "rest = [quietly (forget_removal r), saying (\<lambda>h. broadcast_admin_topic h r @ broadcast_mode h r),
      persist_room ev r None, quietly (note_admin_moderated ev actor r Mod_Register None)]"
  have "list_all soft rest" by (simp add: rest_def soft_intros)
  then have "same_core (upd_room r ?f ?h1) h'"
    using soft_tail [of rest "quietly (upd_room r ?f)" ?h1] by (simp add: h' create_steps_def rest_def fst_run_all quietly_def)
  then obtain rm where rm: "hub_room_of h' r = Some rm" "hard rm = hard (?f rm0)" using room_after [OF rm0] by blast
  show ?thesis
    using r t d rm(1) by (auto simp: hardD [OF rm(2)]) (simp_all add: created_room_def apply_admin_room_policy_def policy_differs_def)
qed

lemma key_replacement_effect:
  "key_replacement ev h r rm change = Inr replacement \<Longrightarrow>
    (case change of Key_Keep \<Rightarrow> replacement = None | Key_Clear \<Rightarrow> replacement = Some None
     | Key_Set k \<Rightarrow> (if (\<exists>digest. hr_key rm = Some digest \<and> room_key_matches ev (hc_pepper h) r k digest) then replacement = None
         else replacement = Some (Some (room_key_digest ev (hc_pepper h) (hc_pepper_id h) r k (ev_salt ev)))))"
  by (auto simp: key_replacement_def and_then_Inr admin_room_key_digest_def split: key_change.splits option.splits if_splits)

lemma update_effect:
  assumes "admin_update_channel ev actor room topic policy change h = Inr (h', s)"
  shows "\<exists>r rm0 rm. norm_room ev h room = Inr r \<and> hub_room_of h r = Some rm0 \<and> hub_room_of h' r = Some rm \<and> hr_registered rm \<and>
    admin_topic h topic = Inr (hr_topic rm) \<and> \<not> policy_differs policy rm \<and>
    (case change of Key_Keep \<Rightarrow> hr_key rm = hr_key rm0 | Key_Clear \<Rightarrow> hr_key rm = None
     | Key_Set k \<Rightarrow> (\<exists>digest. hr_key rm = Some digest \<and> (room_key_matches ev (hc_pepper h) r k digest \<or>
         digest = room_key_digest ev (hc_pepper h) (hc_pepper_id h) r k (ev_salt ev))))"
proof -
  obtain r rm0 where r: "norm_room ev h room = Inr r" and rm0: "hub_room_of h r = Some rm0" "hr_registered rm0"
    and k: "and_then (admin_topic h topic) (\<lambda>t.
      and_then (key_replacement ev h r rm0 change) (\<lambda>replacement.
      let topic_changed = (hr_topic rm0 \<noteq> t);
          mode_changed = (policy_differs policy rm0 \<or> replacement \<noteq> None);
          update = quietly (upd_room r (updated_room t policy replacement))
      in if \<not> topic_changed \<and> \<not> mode_changed then Inr (update h)
         else Inr (run_all ([update,
           saying (\<lambda>h. (if topic_changed then broadcast_admin_topic h r else []) @
             (if mode_changed then broadcast_mode h r else [])),
           persist_room ev r None] @
           (if topic_changed then [quietly (note_admin_moderated ev actor r Mod_Topic None)] else []) @
           (if mode_changed then [quietly (note_admin_moderated ev actor r Mod_Mode None)] else [])) h))) = Inr (h', s)"
    by (rule with_registered_elim [OF assms [unfolded admin_update_channel_def]])
  obtain t where t: "admin_topic h topic = Inr t" using k by (auto simp: and_then_Inr)
  obtain replacement where rep: "key_replacement ev h r rm0 change = Inr replacement" using k t by (auto simp: and_then_Inr)
  let ?f = "updated_room t policy replacement"
  have "same_core (upd_room r ?f h) h'"
  proof (cases "hr_topic rm0 \<noteq> t \<or> policy_differs policy rm0 \<or> replacement \<noteq> None")
    case True
    define rest where "rest = [saying (\<lambda>h. (if hr_topic rm0 \<noteq> t then broadcast_admin_topic h r else []) @
        (if policy_differs policy rm0 \<or> replacement \<noteq> None then broadcast_mode h r else [])), persist_room ev r None] @
        (if hr_topic rm0 \<noteq> t then [quietly (note_admin_moderated ev actor r Mod_Topic None)] else []) @
        (if policy_differs policy rm0 \<or> replacement \<noteq> None then [quietly (note_admin_moderated ev actor r Mod_Mode None)] else [])"
    have "h' = fst (run_all (quietly (upd_room r ?f) # rest) h)"
      using k t rep True by (auto simp: and_then_Inr Let_def rest_def)
    moreover have "list_all soft rest" by (simp add: rest_def soft_intros)
    ultimately show ?thesis using soft_tail [of rest "quietly (upd_room r ?f)" h] by (simp add: quietly_def)
  next
    case False
    then show ?thesis using k t rep by (auto simp: and_then_Inr Let_def quietly_def same_core_refl)
  qed
  then obtain rm where rm: "hub_room_of h' r = Some rm" "hard rm = hard (?f rm0)" using room_after [OF rm0(1)] by blast
  have f: "hr_registered (?f rm0)" "hr_topic (?f rm0) = t" "\<not> policy_differs policy (?f rm0)"
      "hr_key (?f rm0) = (case replacement of None \<Rightarrow> hr_key rm0 | Some key \<Rightarrow> key)"
    using rm0(2) by (simp_all add: updated_room_def apply_admin_room_policy_def policy_differs_def Let_def split: option.split)
  have "case change of Key_Keep \<Rightarrow> hr_key rm = hr_key rm0 | Key_Clear \<Rightarrow> hr_key rm = None
     | Key_Set k \<Rightarrow> (\<exists>digest. hr_key rm = Some digest \<and> (room_key_matches ev (hc_pepper h) r k digest \<or>
         digest = room_key_digest ev (hc_pepper h) (hc_pepper_id h) r k (ev_salt ev)))"
    using key_replacement_effect [OF rep] unfolding hardD(7) [OF rm(2)] f(4) by (auto split: key_change.splits if_splits)
  then show ?thesis using r rm0(1) rm(1) t f(1-3) hardD [OF rm(2)] by auto
qed

lemma unregister_effect:
  assumes "admin_unregister_channel ev actor room h = Inr (h', s)"
  shows "\<exists>r. norm_room ev h room = Inr r \<and> (\<forall>rm. hub_room_of h' r = Some rm \<longrightarrow> \<not> hr_registered rm)"
proof -
  let ?f = "\<lambda>rm. rm\<lparr>hr_registered := False, hr_rejoin_until := [], hr_persist_dirty := False\<rparr>"
  obtain r rm where r: "norm_room ev h room = Inr r" "hub_room_of h r = Some rm"
    and k: "h' = forget_removal r (drop_room_if_empty r (hr_members rm = [])
      (note_admin_moderated ev actor r Mod_Unregister None (upd_room r ?f h)))"
    by (rule with_registered_elim [OF assms [unfolded admin_unregister_channel_def]])
      (auto simp: run_all.simps then_do_def quietly_def saying_def)
  have "hub_room_of (note_admin_moderated ev actor r Mod_Unregister None (upd_room r ?f h)) r = Some (?f rm)"
    using bookless_simps(1) [OF bookless_notes(8)] r(2) by (simp add: upd_room_def)
  then show ?thesis using r(1) unfolding k
    by (auto simp: forget_removal_def drop_room_if_empty_def split: if_splits)
qed

lemma role_after: "(target \<in> set (role_holders role (grant_role (admin_role_flag role enabled) target rm))) = enabled"
  by (simp add: role_holders_def grant_role_def admin_role_flag_def split: admin_role.split)

lemma role_effect:
  assumes "admin_set_room_role ev actor room target role enabled h = Inr (h', s)"
  shows "\<exists>r rm. norm_room ev h room = Inr r \<and> hub_room_of h' r = Some rm \<and> (target \<in> set (role_holders role rm)) = enabled"
proof -
  obtain r rm where r: "norm_room ev h room = Inr r" and rm: "hub_room_of h r = Some rm"
    and k: "(if role = Role_Operator \<and> \<not> enabled \<and> target \<in> set (hc_server_ops h)
      then admin_fail Admin_Conflict (lit ''A server operator cannot be removed through a channel role'')
      else let flag = admin_role_flag role enabled in
        if (target \<in> set (role_holders role rm)) = enabled then Inr (h, [])
        else Inr (run_all [
          quietly (upd_room r (grant_role flag target)),
          saying (\<lambda>h. case hub_room_of h r of None \<Rightarrow> []
            | Some rm \<Rightarrow> broadcast h rm r (lit ''mode for '' @ r @ lit '' is now: '' @ flag @ [32] @ take 12 (ev_hex ev target))),
          persist_room ev r None,
          quietly (note_admin_moderated ev actor r (role_action flag) (Some target))] h)) = Inr (h', s)"
    by (rule with_registered_elim [OF assms [unfolded admin_set_room_role_def]])
  show ?thesis
  proof (cases "(target \<in> set (role_holders role rm)) = enabled")
    case False
    let ?f = "grant_role (admin_role_flag role enabled) target"
    have "h' = fst (run_all (quietly (upd_room r ?f) # [
          saying (\<lambda>h. case hub_room_of h r of None \<Rightarrow> []
            | Some rm \<Rightarrow> broadcast h rm r (lit ''mode for '' @ r @ lit '' is now: '' @ admin_role_flag role enabled @ [32] @ take 12 (ev_hex ev target))),
          persist_room ev r None,
          quietly (note_admin_moderated ev actor r (role_action (admin_role_flag role enabled)) (Some target))]) h)"
      using k False by (auto simp: admin_fail_def Let_def split: if_splits)
    then have "same_core (upd_room r ?f h) h'"
      by (simp only:) (rule soft_tail [where f = "quietly (upd_room r ?f)", unfolded quietly_def fst_conv, folded quietly_def],
        simp add: soft_intros)
    then obtain rm' where rm': "hub_room_of h' r = Some rm'" "hard rm' = hard (?f rm)" using room_after [OF rm] by blast
    have "role_holders role rm' = role_holders role (?f rm)"
      using hardD [OF rm'(2)] by (simp add: role_holders_def split: admin_role.split)
    then show ?thesis using r rm'(1) role_after [of target role enabled rm] by auto
  qed (use r rm k in \<open>auto simp: admin_fail_def Let_def split: if_splits\<close>)
qed

text \<open>Ejection takes away members and leaves a registered room in place.\<close>

lemma eject_registered:
  "hub_room_of h r = Some rm \<Longrightarrow> hr_registered rm \<Longrightarrow>
    \<exists>rm'. hub_room_of (fst (for_each (eject_link ev r target reason) ks h)) r = Some rm' \<and> hr_registered rm' \<and> hr_bans rm' = hr_bans rm"
proof (induction ks arbitrary: h rm)
  case (Cons k ks)
  let ?h1 = "drop_member r k (forget_room r k h)"
  have "hub_room_of ?h1 r = Some (rm\<lparr>hr_members := hrem k (hr_members rm)\<rparr>)"
    using Cons.prems by (simp add: drop_member_room forget_room_def upd_session_def)
  then obtain rm1 where rm1: "hub_room_of (fst (eject_link ev r target reason k h)) r = Some rm1"
      "hard rm1 = hard (rm\<lparr>hr_members := hrem k (hr_members rm)\<rparr>)"
    using same_core_room(3) [OF eject_link_core] by blast
  have "hr_registered rm1" "hr_bans rm1 = hr_bans rm" using hardD(2,4) [OF rm1(2)] Cons.prems by simp_all
  then show ?case using Cons.IH [OF rm1(1)] by (simp add: fst_then_do)
qed simp

lemma identity_eject: "session_identity k (fst (for_each (eject_link ev r target reason) ks h)) = session_identity k h"
proof (induction ks arbitrary: h)
  case (Cons x ks)
  have "session_identity k (fst (eject_link ev r target reason x h)) = session_identity k h"
    using same_core_session(4) [OF eject_link_core, of k ev r target reason x h]
    by (simp add: forget_room_def session_identity_upd)
  then show ?case using Cons.IH by (simp add: fst_then_do)
qed simp

lemma ejected:
  assumes "hub_but X B {} h" and "hub_room_of (fst (eject_identity_from_room ev r target reason h)) r = Some rm" and "l \<in> set (hr_members rm)"
  shows "session_identity l (fst (eject_identity_from_room ev r target reason h)) \<noteq> Some target"
proof -
  let ?f = "\<lambda>rm. rm\<lparr>hr_rejoin_until := hdel target (hr_rejoin_until rm)\<rparr>"
  let ?ks = "room_links_for_identity h r target"
  define h0 where "h0 = upd_room r ?f h"
  let ?h' = "fst (for_each (eject_link ev r target reason) ?ks h0)"
  have h': "fst (eject_identity_from_room ev r target reason h) = ?h'"
    by (simp add: eject_identity_from_room_def fst_then_do quietly_def h0_def)
  have ok0: "hub_but X B {} h0" using hub_but_core [OF assms(1) soft_rejoin] by (simp add: h0_def)
  note all = but_eject_all [OF ok0, of ev r target reason ?ks]
  have "membership (rooms_of ?h') ?h'" using all unfolding hub_but_def coh_def by blast
  moreover have "hub_room_of ?h' r = Some rm" using assms(2) h' by simp
  ultimately have "r \<in> rooms_of ?h' l" using assms(3) unfolding membership_def by blast
  moreover have "rooms_of ?h' l = (if l \<in> set ?ks then rooms_of h0 l - {r} else rooms_of h0 l)" using all by blast
  ultimately have out: "l \<notin> set ?ks" and "r \<in> rooms_of h0 l" by (simp_all split: if_splits)
  then obtain rm0 where rm0: "hub_room_of h0 r = Some rm0" "l \<in> set (hr_members rm0)"
    using ok0 by (auto simp: hub_but_def coh_def membership_def)
  then have "session_identity l h \<noteq> Some target"
    using out by (auto simp: room_links_for_identity_def h0_def upd_room_def)
  moreover have "session_identity l ?h' = session_identity l h" by (simp add: identity_eject h0_def)
  ultimately show ?thesis unfolding h' by simp
qed

text \<open>While a ban is entered its room may have members that are banned.\<close>

lemma but_banning:
  assumes "hub_ok X h" and "\<And>rm. hr_members (f rm) = hr_members rm \<and> hr_registered (f rm) = hr_registered rm"
  shows "hub_but X UNIV {} (upd_room r f h)"
proof -
  have room: "hub_room_of (upd_room r f h) r' = (if r' = r then map_option f (hub_room_of h r) else hub_room_of h r')" for r'
    by (simp add: upd_room_def)
  have "coh X (rooms_of h) {} {} {} h" using assms(1) by (simp add: hub_ok_def hub_but_def)
  then show ?thesis
    using assms(2) unfolding hub_but_def rooms_of_upd_room coh_def
    by (auto simp: sessions_ok_def membership_def rooms_ok_def bans_ok_def klines_ok_def index_ok_def room session_identity_def
        upd_room_def split: if_splits) blast
qed

lemma ban_effect:
  assumes h: "hub_ok X h" and r: "admin_set_room_ban ev actor room target banned h = Inr (h', s)"
  shows "\<exists>r rm. norm_room ev h room = Inr r \<and> hub_room_of h' r = Some rm \<and> (target \<in> set (hr_bans rm)) = banned \<and>
    (banned \<longrightarrow> (\<forall>l \<in> set (hr_members rm). session_identity l h' \<noteq> Some target))"
proof -
  obtain r rm where nr: "norm_room ev h room = Inr r" and rm: "hub_room_of h r = Some rm" "hr_registered rm"
    and k: "(if banned \<and> target \<in> set (hc_server_ops h)
      then admin_fail Admin_Conflict (lit ''A server operator cannot be banned from a channel'')
      else let changed = ((target \<in> set (hr_bans rm)) \<noteq> banned);
               links = (if banned then room_links_for_identity h r target else []);
               ban = run_all [
                 quietly (upd_room r (\<lambda>rm. rm\<lparr>hr_bans := (if banned then hadd target (hr_bans rm) else hrem target (hr_bans rm))\<rparr>)),
                 (if banned then eject_identity_from_room ev r target (lit ''banned from '' @ r) else quietly (\<lambda>h. h))]
           in if \<not> changed \<and> links = [] then Inr (ban h)
              else Inr (run_all [ban,
                (if changed then persist_room ev r None else quietly (\<lambda>h. h)),
                quietly (note_admin_moderated ev actor r (if banned then Mod_Ban else Mod_Unban) (Some target))] h)) = Inr (h', s)"
    by (rule with_registered_elim [OF r [unfolded admin_set_room_ban_def]])
  define f where "f rm = rm\<lparr>hr_bans := (if banned then hadd target (hr_bans rm) else hrem target (hr_bans rm))\<rparr>" for rm :: hub_room
  define ban where "ban = run_all [quietly (upd_room r f),
      (if banned then eject_identity_from_room ev r target (lit ''banned from '' @ r) else quietly (\<lambda>h. h))]"
  have noted: "same_core (fst (ban h)) h'"
  proof -
    let ?rest = "[if (target \<in> set (hr_bans rm)) \<noteq> banned then persist_room ev r None else quietly (\<lambda>h. h),
        quietly (note_admin_moderated ev actor r (if banned then Mod_Ban else Mod_Unban) (Some target))]"
    have "h' = fst (ban h) \<or> h' = fst (run_all (ban # ?rest) h)"
      using k unfolding ban_def f_def by (auto simp: admin_fail_def Let_def split: if_splits)
    moreover have "list_all soft ?rest" by (simp add: soft_intros) (simp add: soft_def quietly_def same_core_refl)
    ultimately show ?thesis using soft_tail [of ?rest ban h] same_core_refl by metis
  qed
  have "\<exists>rm1. hub_room_of (fst (ban h)) r = Some rm1 \<and> hr_bans rm1 = hr_bans (f rm)"
  proof -
    let ?g = "\<lambda>rm. rm\<lparr>hr_rejoin_until := hdel target (hr_rejoin_until rm)\<rparr>"
    have "hub_room_of (upd_room r ?g (upd_room r f h)) r = Some (?g (f rm))" "hr_registered (?g (f rm))"
      using rm by (simp_all add: upd_room_def f_def)
    note reg = eject_registered [OF this, of ev target "lit ''banned from '' @ r" "room_links_for_identity (upd_room r f h) r target"]
    show ?thesis
    proof (cases banned)
      case True
      then show ?thesis using reg by (auto simp: ban_def fst_run_all quietly_def eject_identity_from_room_def fst_then_do f_def)
    next
      case False
      then show ?thesis using rm(1) by (simp add: ban_def fst_run_all quietly_def upd_room_def)
    qed
  qed
  then obtain rm' where rm': "hub_room_of h' r = Some rm'" "hr_bans rm' = hr_bans (f rm)"
    using same_core_room(3) [OF noted] hardD(2) by metis
  then have ban': "(target \<in> set (hr_bans rm')) = banned" by (simp add: f_def)
  have "session_identity l h' \<noteq> Some target" if banned and "l \<in> set (hr_members rm')" for l
  proof -
    have eject: "fst (ban h) = fst (eject_identity_from_room ev r target (lit ''banned from '' @ r) (upd_room r f h))"
      using \<open>banned\<close> by (simp add: ban_def fst_run_all quietly_def)
    have but: "hub_but X UNIV {} (upd_room r f h)" by (rule but_banning [OF h]) (simp add: f_def)
    obtain rm1 where rm1: "hub_room_of (fst (ban h)) r = Some rm1" "hard rm' = hard rm1"
      using same_core_room(2) [OF noted rm'(1)] by blast
    then have "session_identity l (fst (ban h)) \<noteq> Some target"
      using ejected [OF but] that(2) hardD(1) [OF rm1(2)] unfolding eject by metis
    then show ?thesis using same_core_session(4) [OF noted] by simp
  qed
  then show ?thesis using nr rm'(1) ban' by blast
qed

lemma hget_retained: "P v \<Longrightarrow> hget (hretain P (hput k v m)) k = Some v"
  by (induction m) (auto simp: hget_def hretain_def hput_def)

lemma hget_retain_none: "hget m k = None \<Longrightarrow> hget (hretain P m) k = None"
  by (induction m) (auto simp: hget_def hretain_def split: if_splits)

lemma written_room:
  assumes "hub_room_of h r = Some rm" and "hr_registered (f rm)"
  shows "hub_room_of (note_admin_moderated ev actor r a t (fst (persist_room ev r None (upd_room r f h)))) r = Some (settle_room ev (f rm))"
  using assms bookless_simps(1) [OF bookless_notes(8)] by (simp add: persist_room_def upd_room_def)

lemma invitation_effect:
  assumes r: "admin_set_invitation ev actor room target invited h = Inr (h', s)"
  shows "\<exists>r rm. norm_room ev h room = Inr r \<and> hub_room_of h' r = Some rm \<and> is_invited ev rm target = invited \<and>
    (\<not> invited \<longrightarrow> \<not> can_rejoin ev rm target)"
proof -
  obtain r rm where nr: "norm_room ev h room = Inr r" and rm: "hub_room_of h r = Some rm" "hr_registered rm"
    and k: "(let keyed = (hr_key rm \<noteq> None);
          finish = [persist_room ev r None,
            quietly (note_admin_moderated ev actor r (if invited then Mod_Invite else Mod_Uninvite) (Some target))]
      in if invited
         then (if \<not> (hr_invite_only rm \<or> keyed)
               then admin_fail Admin_Conflict (lit ''Invitations require an invite-only or join-key channel'')
               else Inr (run_all ([
                 quietly (upd_room r (\<lambda>rm. rm\<lparr>hr_invited :=
                   hput target (ev_now_unix ev + max 1 (cf_invite_timeout_secs (hc_config h))) (hr_invited rm)\<rparr>)),
                 saying (\<lambda>h. List.map (\<lambda>k. hub_notice h k (invite_text r keyed) (Some r)) (links_of h target))] @ finish) h))
         else if hget (hr_invited rm) target = None \<and> hget (hr_rejoin_until rm) target = None then Inr (h, [])
         else Inr (run_all ([
           quietly (upd_room r (\<lambda>rm. rm\<lparr>hr_invited := hdel target (hr_invited rm),
             hr_rejoin_until := hdel target (hr_rejoin_until rm)\<rparr>))] @ finish) h)) = Inr (h', s)"
    by (rule with_registered_elim [OF r [unfolded admin_set_invitation_def]])
  let ?until = "ev_now_unix ev + max 1 (cf_invite_timeout_secs (hc_config h))"
  let ?add = "\<lambda>rm. rm\<lparr>hr_invited := hput target ?until (hr_invited rm)\<rparr>"
  let ?del = "\<lambda>rm. rm\<lparr>hr_invited := hdel target (hr_invited rm), hr_rejoin_until := hdel target (hr_rejoin_until rm)\<rparr>"
  have later: "ev_now_unix ev < ?until" by simp
  have add: "is_invited ev (settle_room ev (?add rm)) target"
    using hget_retained [of "\<lambda>e. ev_now_unix ev < e", OF later, of target "hr_invited rm"] later
    by (simp add: is_invited_def live_grant_def settle_room_def)
  have del: "\<not> is_invited ev (settle_room ev (?del rm)) target" "\<not> can_rejoin ev (settle_room ev (?del rm)) target"
    using hget_retain_none [of "hdel target (hr_invited rm)" target]
    by (simp_all add: is_invited_def can_rejoin_def live_grant_def settle_room_def)
  show ?thesis
  proof (cases invited)
    case True
    then have "h' = note_admin_moderated ev actor r Mod_Invite (Some target) (fst (persist_room ev r None (upd_room r ?add h)))"
      using k by (auto simp: Let_def admin_fail_def fst_run_all quietly_def split: if_splits dest!: arg_cong [where f = fst])
    then show ?thesis using written_room [OF rm(1), of ?add] rm(2) add True nr by auto
  next
    case False
    then consider "h' = h" "hget (hr_invited rm) target = None" "hget (hr_rejoin_until rm) target = None"
      | "h' = note_admin_moderated ev actor r Mod_Uninvite (Some target) (fst (persist_room ev r None (upd_room r ?del h)))"
      using k by (auto simp: Let_def fst_run_all quietly_def split: if_splits dest!: arg_cong [where f = fst])
    then show ?thesis
    proof cases
      case 1
      then show ?thesis using rm False nr by (auto simp: is_invited_def can_rejoin_def live_grant_def)
    next
      case 2
      then show ?thesis using written_room [OF rm(1), of ?del] rm(2) del False nr by auto
    qed
  qed
qed

lemma kick_effect:
  assumes h: "hub_ok X h" and r: "admin_kick ev actor room target h = Inr (h', s)"
  shows "\<exists>r. norm_room ev h room = Inr r \<and>
    (\<forall>rm. hub_room_of h' r = Some rm \<longrightarrow> (\<forall>l \<in> set (hr_members rm). session_identity l h' \<noteq> Some target))"
proof -
  obtain r where nr: "norm_room ev h room = Inr r"
    and h': "h' = note_admin_moderated ev actor r Mod_Kick (Some target) (fst (eject_identity_from_room ev r target (lit ''kicked from '' @ r) h))"
    using r by (auto simp: admin_kick_def and_then_Inr admin_fail_def admin_room_name_def fst_run_all quietly_def
        split: if_splits sum.splits dest!: arg_cong [where f = fst])
  define h1 where "h1 = fst (eject_identity_from_room ev r target (lit ''kicked from '' @ r) h)"
  have b: "bookless h' = bookless h1" by (simp add: h' h1_def)
  have "hub_room_of h' r = hub_room_of h1 r" "session_identity l h' = session_identity l h1" for l
    using bookless_simps(1,2) [OF b] by (simp_all add: session_identity_def)
  moreover have "hub_room_of h1 r = Some rm \<Longrightarrow> l \<in> set (hr_members rm) \<Longrightarrow> session_identity l h1 \<noteq> Some target" for rm l
    unfolding h1_def by (rule ejected [OF h [unfolded hub_ok_def]])
  ultimately show ?thesis using nr by metis
qed

lemma klines_kept:
  "hc_klines (fst (remove_member_with_parted ev r l i n h)) = hc_klines h"
  "hc_klines (fst (leave_room_on_close ev e l i n r h)) = hc_klines h"
  "hc_klines (fst (for_each (leave_room_on_close ev e l i n) rs h)) = hc_klines h"
  "hc_klines (fst (close_session ev l reason h)) = hc_klines h"
  "hc_klines (fst (for_each (disconnect_link ev) ks h)) = hc_klines h"
proof -
  have one: "hc_klines (fst (remove_member_with_parted ev r l i n h)) = hc_klines h" for r h
    using core_remove_member [of r l h ev i n] by (simp add: same_core_def)
  then show "hc_klines (fst (remove_member_with_parted ev r l i n h)) = hc_klines h" .
  have two: "hc_klines (fst (leave_room_on_close ev e l i n r h)) = hc_klines h" for e l i n r h
    using core_remove_member [of r l _ ev i n] by (simp add: leave_room_on_close_def same_core_def upd_room_def split: option.split)
  then show "hc_klines (fst (leave_room_on_close ev e l i n r h)) = hc_klines h" .
  have three: "hc_klines (fst (for_each (leave_room_on_close ev e l i n) rs h)) = hc_klines h" for e l i n rs h
    by (induction rs arbitrary: h) (simp_all add: fst_then_do two)
  then show "hc_klines (fst (for_each (leave_room_on_close ev e l i n) rs h)) = hc_klines h" .
  have four: "hc_klines (fst (close_session ev l reason h)) = hc_klines h" for l reason h
    using three by (simp add: close_session_def Let_def case_prod_unfold push_event_def split: option.split)
  then show "hc_klines (fst (close_session ev l reason h)) = hc_klines h" .
  show "hc_klines (fst (for_each (disconnect_link ev) ks h)) = hc_klines h"
    by (induction ks arbitrary: h) (simp_all add: fst_then_do disconnect_link_def four)
qed

lemma hub_ban_effect:
  assumes h: "hub_ok X h" and r: "admin_set_hub_ban ev actor target banned h = Inr (h', s)"
  shows "(target \<in> set (hc_klines h')) = banned \<and> (banned \<longrightarrow> (\<forall>l. session_identity l h' \<noteq> Some target))"
proof -
  let ?k = "\<lambda>h. h\<lparr>hc_klines := (if banned then hadd target (hc_klines h) else hrem target (hc_klines h))\<rparr>"
  let ?steps = "[quietly ?k, (if banned then quietly (forget_leases target) else quietly (\<lambda>h. h)), persist_klines ev None,
       quietly (note_admin_trust_changed ev actor (if banned then Kline_Added else Kline_Removed) target),
       (\<lambda>h. if banned then for_each (disconnect_link ev) (links_of h target) h else (h, []))]"
  have run: "(target \<in> set (hc_klines (fst (run_all ?steps h)))) = banned"
    by (cases banned) (simp_all add: fst_run_all quietly_def klines_kept(5) bookless_simps(3) [OF bookless_notes(9)]
        bookless_simps(3) [OF bookless_notes(11)] forget_leases_def)
  have "h' = h \<and> (target \<in> set (hc_klines h)) = banned \<or> h' = fst (run_all ?steps h)"
    using r unfolding admin_set_hub_ban_def admin_fail_def by (simp split: if_splits)
  then have "(target \<in> set (hc_klines h')) = banned" using run by blast
  moreover have "klines_ok {} h'" using admin_hub_ban_ok [OF h r] by (simp add: hub_ok_def hub_but_def coh_def)
  ultimately show ?thesis by (auto simp: klines_ok_def)
qed

text \<open>What each mutation asks for, read off the state after it.\<close>

fun carried_out :: "hub_env \<Rightarrow> bytes \<Rightarrow> hub_core \<Rightarrow> hub_core \<Rightarrow> admin_mutation \<Rightarrow> bool" where
  "carried_out ev actor h h' (Create_Channel room topic policy key) \<longleftrightarrow>
    (\<exists>r rm. norm_room ev h room = Inr r \<and> hub_room_of h' r = Some rm \<and> hr_registered rm \<and> actor \<in> set (hr_ops rm) \<and>
       admin_topic h topic = Inr (hr_topic rm) \<and> \<not> policy_differs policy rm \<and> hr_key rm = map_option (\<lambda>k. room_key_digest ev (hc_pepper h) (hc_pepper_id h) r k (ev_salt ev)) key)"
| "carried_out ev actor h h' (Update_Channel room topic policy change) \<longleftrightarrow>
    (\<exists>r rm0 rm. norm_room ev h room = Inr r \<and> hub_room_of h r = Some rm0 \<and> hub_room_of h' r = Some rm \<and> hr_registered rm \<and>
       admin_topic h topic = Inr (hr_topic rm) \<and> \<not> policy_differs policy rm \<and>
       (case change of Key_Keep \<Rightarrow> hr_key rm = hr_key rm0 | Key_Clear \<Rightarrow> hr_key rm = None
        | Key_Set k \<Rightarrow> (\<exists>digest. hr_key rm = Some digest \<and> (room_key_matches ev (hc_pepper h) r k digest \<or>
            digest = room_key_digest ev (hc_pepper h) (hc_pepper_id h) r k (ev_salt ev)))))"
| "carried_out ev actor h h' (Unregister_Channel room) \<longleftrightarrow>
    (\<exists>r. norm_room ev h room = Inr r \<and> (\<forall>rm. hub_room_of h' r = Some rm \<longrightarrow> \<not> hr_registered rm))"
| "carried_out ev actor h h' (Set_Room_Role room target role enabled) \<longleftrightarrow>
    (\<exists>r rm. norm_room ev h room = Inr r \<and> hub_room_of h' r = Some rm \<and> (target \<in> set (role_holders role rm)) = enabled)"
| "carried_out ev actor h h' (Set_Room_Ban room target banned) \<longleftrightarrow>
    (\<exists>r rm. norm_room ev h room = Inr r \<and> hub_room_of h' r = Some rm \<and> (target \<in> set (hr_bans rm)) = banned \<and>
       (banned \<longrightarrow> (\<forall>l \<in> set (hr_members rm). session_identity l h' \<noteq> Some target)))"
| "carried_out ev actor h h' (Set_Invitation room target invited) \<longleftrightarrow>
    (\<exists>r rm. norm_room ev h room = Inr r \<and> hub_room_of h' r = Some rm \<and> is_invited ev rm target = invited \<and>
       (\<not> invited \<longrightarrow> \<not> can_rejoin ev rm target))"
| "carried_out ev actor h h' (Admin_Kick room target) \<longleftrightarrow>
    (\<exists>r. norm_room ev h room = Inr r \<and>
       (\<forall>rm. hub_room_of h' r = Some rm \<longrightarrow> (\<forall>l \<in> set (hr_members rm). session_identity l h' \<noteq> Some target)))"
| "carried_out ev actor h h' (Set_Hub_Ban target banned) \<longleftrightarrow>
    (target \<in> set (hc_klines h')) = banned \<and> (banned \<longrightarrow> (\<forall>l. session_identity l h' \<noteq> Some target))"

text \<open>C8: In every state the hub can reach, a mutation from the app that is not refused comes from a server operator and
  has been carried out: a created or updated channel has the topic, the policy and the key that
  were asked for, an unregistered one is no longer registered, roles, bans and invitations are as asked, and whoever was
  banned or kicked is in the room, or connected to the hub, through no link at all.\<close>

theorem owner_mutations_take_effect:
  assumes "hub_reachable version lines moved h" and "admin_mutate ev actor mutation h = Inr (h', sends)"
  shows "actor \<in> set (hc_server_ops h) \<and> carried_out ev actor h h' mutation"
proof -
  note ok = hub_reachable_ok [OF assms(1)]
  have actor: "actor \<in> set (hc_server_ops h)" using assms(2) by (auto simp: admin_mutate_def admin_fail_def split: if_splits)
  show ?thesis
    using assms(2) actor create_effect update_effect unregister_effect role_effect ban_effect [OF ok] invitation_effect
      kick_effect [OF ok] hub_ban_effect [OF ok]
    by (cases mutation) (simp_all add: admin_mutate_def)
qed

theorem owner_mutations_take_effect_witness:
  "\<exists>h' sends. admin_mutate sample_env [7] (Set_Hub_Ban [8] True) sample_hub = Inr (h', sends) \<and> session_identity [18] h' = None"
proof -
  have "case admin_mutate sample_env [7] (Set_Hub_Ban [8] True) sample_hub of Inl e \<Rightarrow> False
      | Inr (h', sends) \<Rightarrow> (case session_identity [18] h' of None \<Rightarrow> True | Some i \<Rightarrow> i = [8])"
    by code_simp
  then obtain h' sends where r: "admin_mutate sample_env [7] (Set_Hub_Ban [8] True) sample_hub = Inr (h', sends)"
      "session_identity [18] h' = None \<or> session_identity [18] h' = Some [8]"
    by (auto split: sum.splits option.splits)
  then show ?thesis using owner_mutations_take_effect [OF sample_reachable r(1)] by auto
qed

end
