(* ===== verification/Spec2Isabelle.thy ===== *)
theory Spec2Isabelle
  imports Upload Status Delta_Roundtrip Radio Rnode_Port Config_Prepare Rrc_Props Deep_Link_Props Text_Share_Props
    Activity_Gate_Props Activity_Admission_Props Activity_Ring_Props Hub_Props
    Hub_Gate Hub_Unseen Hub_Durable Hub_Duties
begin

text \<open>
  A verification development for Ratspeak, a messenger over the Reticulum network.

  \<^bold>\<open>The program.\<close>  Ratspeak is a Rust workspace: \<open>ratspeak-core\<close> (types and limits), \<open>ratspeak-db\<close>
  (SQLite), \<open>ratspeak-runtime\<close> (the services: messaging, channels, the channel hub, the Reticulum
  configuration, the Activity recorder), \<open>ratspeak-tauri\<close> (the commands of the user interface),
  \<open>rsnode-update\<close> (the protocol that manages and updates nodes, shared with their firmware) and
  \<open>src-tauri\<close> (the native shell).  Transport, routing, cryptography, CBOR, JSON and the database engine
  are other packages.  The development models the parts that decide something by themselves:

    \<^item> the \<^bold>\<open>channel hub\<close> (\<open>ratspeak-runtime/src/channel_hub.rs\<close>), the server of the relay chat: its core
      \<open>HubCore\<close> is handed events of links, envelopes that the codec (\<open>rrc.rs\<close>) decoded, payloads that
      arrived as resources, ticks of timers and mutations from the owner, and answers with what the service
      loop is to send, store or close;
    \<^item> the \<^bold>\<open>relay chat codec\<close> (\<open>rrc.rs\<close>), used by the hub and by its clients;
    \<^item> the \<^bold>\<open>node update protocol\<close> (\<open>rsnode-update\<close>): a firmware manifest, commands on a link, status
      replies, an upload window paced by airtime, and patches between firmware images;
    \<^item> the \<^bold>\<open>Reticulum configuration\<close> (\<open>rns_config.rs\<close>), edited line by line, the radio catalogue
      (\<open>ratspeak-core/src/radio.rs\<close>) and the arguments of interface commands;
    \<^item> what the \<^bold>\<open>platform delivers\<close>: the Android window's lifecycle, channel and paper links, shared
      drafts, each an inbox whose entries leave only on an acknowledgment that names them;
    \<^item> the \<^bold>\<open>Activity recorder\<close>'s lock-free parts (\<open>activity/\<close>): admission gate, rate buckets, ring, replay
      pages and coalescer.  The hub is one of its producers.

  \<^bold>\<open>Conventions.\<close>  \<open>Rs_Prelude\<close> has the vocabulary for Rust: unsigned integers are words where the code
  copies or wraps them and naturals with the bound written out (\<open>sat_add\<close>, \<open>checked_add\<close>) where it
  computes; \<open>Rs_Text\<close> has strings as lists of scalar values, with their lengths and slices in UTF-8
  bytes; \<open>Rs_Maps\<close> has hash maps and hash sets as lists of entries, read as finite maps and sets.  Errors
  are \<open>Inl\<close> of a sum type.  A stateful operation takes its state and returns it updated; the hub's steps
  also return the list of sends, in the order in which the code queues them (\<open>hub_step\<close>, \<open>then_do\<close>,
  \<open>run_all\<close>, \<open>for_each\<close> in \<open>Hub_State\<close>).  Code of other packages is an argument: the CBOR encoder, the
  JSON and URL parsers, HMAC, hexadecimal text, \<open>Config::parse\<close>, durable file writes, Unicode lower case,
  UTF-8 and the clocks; the fields of \<open>hub_env\<close> and \<open>rrc_env\<close> are these for the hub.  What a property needs
  of them is a hypothesis of the property, and its witness meets it with a concrete function.

  \<^bold>\<open>Interfaces.\<close>  Three components hand out a number and accept a request only while that number is live,
  generations of the Android window, revisions of a delivered link, revisions of a draft: the locale
  \<open>fresh_tokens\<close> of \<open>Tokens\<close>.  The gate's readers and waiters and the recorder's permits are counted by one
  atomic: \<open>thread_counter\<close> of \<open>Threads\<close>.  The two link inboxes share \<open>link_inbox\<close>, the rate buckets
  \<open>metered\<close>, the formats \<open>wire_codec\<close> and \<open>canonical_codec\<close>, and what the patch applier asks of its
  caller's storage is \<open>delta_adapter\<close>.  The hub's handlers share \<open>kept\<close> and \<open>governed\<close>, which lift what
  every primitive change keeps to whole envelopes.  Each locale is interpreted on the model's own
  definitions, in the theory of the component that provides it.

  \<^bold>\<open>Bounds.\<close>  Loops are structural recursion or have a measure.  The only fuel is the number of replay
  pages: a page holds at least one event, so the number of events in the ring is enough, and
  \<open>replay_delivers_everything\<close> states it with that bound.
\<close>

text \<open>
  \<^bold>\<open>The channel hub.\<close>
  \<open>Hub_State\<close>: the record \<open>hub_core\<close> (\<open>HubCore\<close>), sessions, rooms, the evidence the owner sees, rate
  buckets, events.  \<open>Hub_Output\<close>: notices and errors, notices split over packets, rosters, what is written
  to the registry.  \<open>Hub_Room\<close>: links (\<open>on_link_established\<close>, \<open>on_link_identified\<close>, \<open>close_session\<close>), HELLO,
  JOIN, PART, relaying, pings.  \<open>Hub_Resource\<close>: payloads that travel as resources and the gate
  \<open>ResourceAdmission\<close> that bounds them.  \<open>Hub_Commands\<close>: the slash commands and the dispatch
  \<open>on_envelope\<close>.  \<open>Hub_Admin\<close>: the owner's eight mutations.  \<open>Hub_Registry\<close>: restoring the rows,
  writing what is dirty, pruning idle rooms, retrying failed writes.  \<open>Hub_Run\<close> and \<open>Hub_Reach\<close>: the
  inputs of the service loop as the datatype \<open>hub_input\<close>, and \<open>hub_reachable\<close>, the states after any sequence
  of them.  What the run assumes of the link manager is \<open>identity_gate\<close>, the gate that \<open>on_link_identified\<close>
  documents: a link that is identified already does not prove an identity banned from the hub.  It may prove any other;
  the argument \<open>moved\<close> of \<open>hub_reachable\<close> collects the links that did.  \<open>Hub_Sample\<close> is a concrete run.

  \<open>Hub_Kept\<close> shows what the bookkeeping of a handler leaves alone, \<open>Hub_Governed\<close> lifts invariants of the
  core over handlers, \<open>Hub_Coherent\<close>, \<open>Hub_Invariant\<close> and \<open>Hub_Machine\<close> prove the invariant \<open>hub_ok\<close> for
  every reachable state: membership is the same relation on both sides, the banned are outside, limits
  hold.  The code checks the bans of a room when a link joins or speaks and when a ban is entered, but not when a member
  proves another identity; \<open>hub_ok\<close> excepts the \<open>moved\<close> links there and in the index of identities, and
  \<open>moved_link_evades_ban\<close> is a run in which such a link stays in a room that bans it.  \<open>Hub_Authority\<close> shows what an envelope of somebody who is no operator can change of a room, and
  \<open>Hub_Authentic\<close> that over all inputs the hub sends everything in its own name except envelopes and the notices of
  completed resources, which carry the proved identity of their sender, reach the members and
  nobody else, and that the evidence stays bounded and its excerpts and nicknames printable (a room's name is stored as it is).  \<open>Hub_Props\<close> states these properties.
  \<open>Hub_Hidden\<close> shows that whatever an outsider of a private room sends commutes with removing the room, and
  \<open>Hub_Unseen\<close> that it is therefore answered as if there were no such room; JOIN is not among it, since the
  code tells an outsider that a room is invite-only or keyed.  \<open>Hub_Duties\<close>: a JOIN is granted exactly under the
  conditions of the room and otherwise explained, and a mutation of the owner that is not refused has been
  carried out.  \<open>Hub_Durable\<close>: a room survives a restart.  \<open>Hub_Gate\<close>: the resource gate under any
  sequence of its operations.

  Idealised: the token buckets' floats are rationals; times are naturals; a hash map is iterated in the order
  of its list of entries, where the code's order is open.  Left out: the tokio loop with its
  transport and database calls, room tokens and correlation ids of Activity events, a poisoned lock,
  settings rows, and the read-only snapshots for the user interface.
\<close>

text \<open>
  \<^bold>\<open>Relay chat codec.\<close>  \<open>Rrc\<close>: envelopes and bodies as CBOR maps with unsigned keys, names, times and
  resource envelopes, over CBOR values with an encoder and a decoder as arguments.  \<open>Rrc_Props\<close>: encoding
  and decoding are inverse, every decoded envelope is well formed, unknown keys are ignored, and names and
  times are bounded.

  \<^bold>\<open>Node update protocol.\<close>  \<open>Manifest\<close>, \<open>Frame\<close> and \<open>Status\<close>: the byte formats of \<open>manifest.rs\<close>,
  \<open>frame.rs\<close> and \<open>status.rs\<close> with the checks of their decoders; each is shown to be inverse to its encoder, and
  the formats are canonical.  \<open>Upload\<close>: the window of \<open>upload.rs\<close> with its retries and the
  airtime pacer; a chunk starts inside the window and ends less than one chunk past it, an upload in progress always has a next action, a silent
  node ends it after a bounded number of polls, and the duty cycle holds over any interval.

  \<open>Delta\<close> is the streaming applier of \<open>delta.rs\<close> with its ring buffer, bit accumulator, staging area and read
  cache; \<open>Delta_Machine\<close> says what a patch means without them, and \<open>Delta_Refine\<close> proves that the applier
  refines it, however the patch is split into pieces, that it reads and writes only inside the images, and
  that resuming from a checkpoint continues the same run.  \<open>Delta_Create\<close> is \<open>create.rs\<close>;
  \<open>Delta_Tiling\<close>, \<open>Delta_Stream\<close>, \<open>Delta_Pack\<close> and \<open>Delta_Roundtrip\<close> prove that what it makes of two images
  applies to the first and gives the second.  The base is bounded by 2 GiB there, since the distance
  between two matches must have a 32-bit zigzag value.

  \<^bold>\<open>Configuration.\<close>  \<open>Config_Text\<close>: lines, keys, quotes, comments and section bounds as \<open>rns_config.rs\<close>
  reads and writes them.  \<open>Config_Reticulum\<close>: the edits of the \<open>[reticulum]\<close> section; what was set is read
  back and the other lines stay.  \<open>Config_Shared\<close> and \<open>Config_Shared_Props\<close>: the ports and the name of
  the shared instance.  \<open>Config_Prepare\<close>: the preparation at startup is idempotent, and a
  file with a \<open>[reticulum]\<close> section stays the application's own (\<open>headless_file_captured\<close> shows what happens without one).  \<open>Radio\<close>: the radio catalogue; arguments that are accepted lie within
  the radio's limits, given as numbers, and the region and preset reported with them describe them.  \<open>Rnode_Port\<close>: ports of network-attached radios and interface modes.

  \<^bold>\<open>Platform.\<close>  \<open>Android_Lifecycle\<close>: the authority over the window, as a step relation of the callbacks.
  \<open>Deep_Link\<close> and \<open>Deep_Link_Props\<close>: share links, paper links and their inboxes.  \<open>Text_Share\<close> and
  \<open>Text_Share_Props\<close>: the store of shared drafts; a transaction is durable or has no effect, and a stale
  edit is refused.

  \<^bold>\<open>Activity recorder.\<close>  \<open>Activity_Gate\<close> is a step relation over single atomic accesses, with any number
  of threads; atomics are sequentially consistent in the model, while the code uses acquire and release.
  \<open>Activity_Admission\<close>: GCRA buckets and the permits in use; a bucket is a token bucket.
  \<open>Activity_Ring\<close>: ring, replay pages, coalescer.  The theories that end in \<open>_Props\<close> hold their properties.
\<close>

text \<open>
  \<^bold>\<open>Not modelled.\<close>  The database layer is SQL text whose meaning is that of SQLite.  Messaging, propagation,
  announces, voice and the channel client drive routers, links and codecs of other packages in
  asynchronous tasks; a model of what is here alone would have every decision as a parameter.  Most
  interface commands are edits of configuration blocks interleaved with device calls.  The shell and the commands of the user
  interface are glue, \<open>dashboard\<close> is JavaScript and \<open>vendor\<close> is third-party code.  The cryptography of
  identities and the vault belongs to other packages.
\<close>

end
